(* ===== verification/Go_Prelude.thy ===== *)
theory Go_Prelude
  imports Complex_Main
begin

text \<open>
  Shared vocabulary of the development: the parts of the Go language and of its
  standard library that the modelled packages use.

  \<^item> \<open>time\<close> is \<open>time.Time\<close> as a number of nanoseconds since the Unix epoch (unbounded, since
    \<open>time.Time\<close> has a far larger range than 64 bits of nanoseconds); \<open>duration\<close> is
    \<open>time.Duration\<close>, an \<open>int64\<close>: \<open>wrap64\<close> writes the two's complement wrap-around of 64-bit
    arithmetic out and \<open>sat64\<close> the saturation that \<open>Time.Sub\<close> and \<open>time.Since\<close> perform.
  \<^item> \<open>error\<close> is a Go error value: its message text and the dynamic type information the code
    asks for by a type assertion or by \<open>errors.Is\<close>.
  \<^item> \<open>any\<close> is a value of an \<open>interface{}\<close> (a JSON-like value).
  \<^item> a possibly nil map is a value of type \<open>('k \<rightharpoonup> 'v) option\<close>.
  \<^item> string functions of the packages strings, strconv and fmt, on strings of ASCII characters.
\<close>

named_theorems go_defs \<open>definitions of the elementary Go operations\<close>
named_theorems go_time \<open>facts about durations and instants\<close>

section \<open>Time and 64-bit integers\<close>

type_synonym time = int
type_synonym duration = int

definition wrap64 :: "int \<Rightarrow> int" where
  "wrap64 x = (x + 2 ^ 63) mod 2 ^ 64 - 2 ^ 63"

definition sat64 :: "int \<Rightarrow> int" where
  "sat64 x = max (- (2 ^ 63)) (min (2 ^ 63 - 1) x)"

definition int64 :: "int \<Rightarrow> bool" where
  "int64 x \<longleftrightarrow> - (2 ^ 63) \<le> x \<and> x < 2 ^ 63"

text \<open>\<open>1 << n\<close> on \<open>int64\<close>: shifts of 64 and more give 0; a negative count converted to
  \<open>uint\<close> is such a shift.\<close>

definition shl1_64 :: "int \<Rightarrow> int" where
  "shl1_64 n = (if 0 \<le> n \<and> n < 64 then wrap64 (2 ^ nat n) else 0)"

definition Millisecond :: duration where "Millisecond = 1000000"
definition Second :: duration where "Second = 1000000000"
definition Minute :: duration where "Minute = 60000000000"
definition Hour :: duration where "Hour = 3600000000000"

text \<open>The zero value of \<open>time.Time\<close> is January 1, year 1, 00:00:00 UTC.\<close>

definition time_zero :: time where "time_zero = - 62135596800000000000"

definition time_Sub :: "time \<Rightarrow> time \<Rightarrow> duration" where
  "time_Sub t u = sat64 (t - u)"

definition time_Add :: "time \<Rightarrow> duration \<Rightarrow> time" where
  "time_Add t d = t + d"

definition time_After :: "time \<Rightarrow> time \<Rightarrow> bool" where
  "time_After t u \<longleftrightarrow> t > u"

definition time_Before :: "time \<Rightarrow> time \<Rightarrow> bool" where
  "time_Before t u \<longleftrightarrow> t < u"

lemmas duration_defs [go_defs] = Millisecond_def Second_def Minute_def Hour_def
lemmas time_defs [go_defs] = time_Add_def time_After_def time_Before_def

lemma wrap64_int64 [simp, go_time]: "int64 (wrap64 x)"
proof -
  have "0 \<le> (x + 2 ^ 63) mod 2 ^ 64" and "(x + 2 ^ 63) mod 2 ^ 64 < (2 :: int) ^ 64"
    by simp_all
  then show ?thesis unfolding int64_def wrap64_def by simp
qed

lemma wrap64_id [go_time]: "int64 x \<Longrightarrow> wrap64 x = x"
  by (simp add: int64_def wrap64_def)

lemma wrap64_plus_left: "wrap64 (wrap64 x + y) = wrap64 (x + y)"
  by (simp add: wrap64_def mod_simps algebra_simps)

lemma sat64_int64 [simp, go_time]: "int64 (sat64 x)"
  by (simp add: int64_def sat64_def)

lemma sat64_id [go_time]: "int64 x \<Longrightarrow> sat64 x = x"
  by (simp add: int64_def sat64_def)

lemma sat64_mono [go_time]: "x \<le> y \<Longrightarrow> sat64 x \<le> sat64 y"
  by (simp add: sat64_def)

lemma sat64_ge_iff: "- (2 ^ 63) < d \<Longrightarrow> d < 2 ^ 63 \<Longrightarrow> d \<le> sat64 x \<longleftrightarrow> d \<le> x"
  by (simp add: sat64_def max_def min_def)

lemma sat64_gt_iff: "- (2 ^ 63) \<le> d \<Longrightarrow> d < 2 ^ 63 - 1 \<Longrightarrow> d < sat64 x \<longleftrightarrow> d < x"
  by (simp add: sat64_def max_def min_def)

lemma shl1_64_pow [go_time]: "0 \<le> n \<Longrightarrow> n < 63 \<Longrightarrow> shl1_64 n = 2 ^ nat n"
proof -
  assume n: "0 \<le> n" "n < 63"
  then have "nat n < 63" by simp
  then have "(2 :: int) ^ nat n < 2 ^ 63" by (rule power_strict_increasing) simp
  moreover have "(0 :: int) \<le> 2 ^ nat n" by simp
  ultimately have "wrap64 (2 ^ nat n) = 2 ^ nat n"
    by (intro wrap64_id) (simp add: int64_def order_trans [of _ 0])
  then show ?thesis using n by (simp add: shl1_64_def)
qed

lemma shl1_64_big [go_time]: "64 \<le> n \<Longrightarrow> shl1_64 n = 0"
  by (simp add: shl1_64_def)

section \<open>Dynamic values\<close>

datatype any = ANil | AString string | AInt int | ABool bool | AList "any list"

section \<open>Strings\<close>

definition has_prefix :: "string \<Rightarrow> string \<Rightarrow> bool" where
  "has_prefix s p \<longleftrightarrow> take (length p) s = p"

text \<open>\<open>strings.Contains\<close>\<close>

fun str_contains :: "string \<Rightarrow> string \<Rightarrow> bool" where
  "str_contains [] p = (p = [])"
| "str_contains (c # s) p = (has_prefix (c # s) p \<or> str_contains s p)"

definition lower_char :: "char \<Rightarrow> char" where
  "lower_char c = (let n = of_char c :: nat in if 65 \<le> n \<and> n \<le> 90 then char_of (n + 32) else c)"

text \<open>\<open>strings.ToLower\<close>\<close>

definition to_lower :: "string \<Rightarrow> string" where
  "to_lower s = map lower_char s"

definition is_space :: "char \<Rightarrow> bool" where
  "is_space c \<longleftrightarrow> (let n = of_char c :: nat in n = 32 \<or> (9 \<le> n \<and> n \<le> 13))"

text \<open>\<open>strings.TrimSpace\<close>\<close>

definition trim_space :: "string \<Rightarrow> string" where
  "trim_space s = rev (dropWhile is_space (rev (dropWhile is_space s)))"

fun digits_nat :: "nat \<Rightarrow> string" where
  "digits_nat n = (if n < 10 then [char_of (48 + n)] else digits_nat (n div 10) @ [char_of (48 + n mod 10)])"

declare digits_nat.simps [simp del]

text \<open>The verb \<open>%d\<close> of fmt.\<close>

definition itoa :: "int \<Rightarrow> string" where
  "itoa x = (if x < 0 then CHR ''-'' # digits_nat (nat (- x)) else digits_nat (nat x))"

lemma str_contains_append: "str_contains (xs @ p @ ys) p"
proof (induction xs)
  case Nil
  have "has_prefix (p @ ys) p" by (simp add: has_prefix_def)
  then show ?case by (cases "p @ ys") auto
next
  case (Cons x xs)
  then show ?case by simp
qed

lemma str_contains_iff: "str_contains s p \<longleftrightarrow> (\<exists>xs ys. s = xs @ p @ ys)"
proof
  show "str_contains s p \<Longrightarrow> \<exists>xs ys. s = xs @ p @ ys"
  proof (induction s)
    case Nil
    then show ?case by simp
  next
    case (Cons c s)
    show ?case
    proof (cases "has_prefix (c # s) p")
      case True
      then have "c # s = [] @ p @ drop (length p) (c # s)"
        unfolding has_prefix_def by (metis append_Nil append_take_drop_id)
      then show ?thesis by blast
    next
      case False
      with Cons obtain xs ys where "s = xs @ p @ ys" by auto
      then have "c # s = (c # xs) @ p @ ys" by simp
      then show ?thesis by blast
    qed
  qed
next
  assume "\<exists>xs ys. s = xs @ p @ ys"
  then obtain xs ys where "s = xs @ p @ ys" by blast
  then show "str_contains s p" by (simp add: str_contains_append)
qed

lemma to_lower_append [simp]: "to_lower (s @ t) = to_lower s @ to_lower t"
  by (simp add: to_lower_def)

lemma str_contains_mono: "str_contains s p \<Longrightarrow> str_contains (xs @ s @ ys) p"
  unfolding str_contains_iff by (metis append.assoc)

lemma digit_char_inj: "m < 10 \<Longrightarrow> n < 10 \<Longrightarrow> (char_of (48 + m :: nat) = (char_of (48 + n) :: char)) = (m = n)"
  by (auto simp: char_of_eq_iff take_bit_eq_mod)

lemma digits_nat_nonempty: "digits_nat n \<noteq> []"
  by (subst digits_nat.simps) simp

lemma digits_nat_digits: "c \<in> set (digits_nat n) \<Longrightarrow> \<exists>d < 10. c = char_of (48 + d :: nat)"
proof (induction n rule: digits_nat.induct)
  case (1 n)
  show ?case
  proof (cases "n < 10")
    case True
    with "1.prems" show ?thesis by (subst (asm) digits_nat.simps) auto
  next
    case False
    with "1.prems" have "c \<in> set (digits_nat (n div 10)) \<or> c = char_of (48 + n mod 10)"
      by (subst (asm) digits_nat.simps) auto
    moreover have "n mod 10 < 10" by simp
    ultimately show ?thesis using "1.IH" False by blast
  qed
qed

lemma digits_nat_inj: "digits_nat m = digits_nat n \<Longrightarrow> m = n"
proof (induction m arbitrary: n rule: digits_nat.induct)
  case (1 m)
  have eq: "(if m < 10 then [char_of (48 + m)] else digits_nat (m div 10) @ [char_of (48 + m mod 10)])
     = (if n < 10 then [char_of (48 + n)] else digits_nat (n div 10) @ [char_of (48 + n mod 10)] :: string)"
    using "1.prems" by (simp add: digits_nat.simps [of m] digits_nat.simps [of n])
  show ?case
  proof (cases "m < 10")
    case True
    show ?thesis
    proof (cases "n < 10")
      case True
      with eq \<open>m < 10\<close> show ?thesis by (simp add: digit_char_inj)
    next
      case False
      with eq True show ?thesis by (simp add: Cons_eq_append_conv digits_nat_nonempty)
    qed
  next
    case m: False
    show ?thesis
    proof (cases "n < 10")
      case True
      with eq m show ?thesis by (simp add: append_eq_Cons_conv digits_nat_nonempty)
    next
      case False
      with eq m have "digits_nat (m div 10) = digits_nat (n div 10)" and "m mod 10 = n mod 10"
        by (simp_all add: digit_char_inj)
      moreover have "m div 10 = n div 10" using "1.IH" m calculation(1) by simp
      ultimately show ?thesis by (metis div_mod_decomp)
    qed
  qed
qed

lemma digit_not: "d < 10 \<Longrightarrow> char_of (48 + d :: nat) \<noteq> CHR ''-''" "d < 10 \<Longrightarrow> char_of (48 + d :: nat) \<noteq> CHR ''_''"
  by (auto simp: char_of_eq_iff take_bit_eq_mod)

lemma itoa_inj: "itoa x = itoa y \<Longrightarrow> x = y"
proof -
  assume eq: "itoa x = itoa y"
  have no: "digits_nat n \<noteq> CHR ''-'' # s" for n s
    using digits_nat_digits [of "CHR ''-''" n] digit_not(1) by (metis list.set_intros(1))
  show ?thesis
    using eq no no [symmetric]
    by (auto simp: itoa_def split: if_splits dest!: digits_nat_inj)
qed

lemma itoa_no_underscore: "CHR ''_'' \<notin> set (itoa x)"
proof -
  have "CHR ''_'' \<notin> set (digits_nat n)" for n
    using digits_nat_digits [of "CHR ''_''" n] digit_not(2) by metis
  then show ?thesis by (simp add: itoa_def)
qed

text \<open>A separator that does not occur in the last part determines the parts.\<close>

lemma split_last_sep:
  assumes "xs @ c # ys = xs' @ c # ys'" and "c \<notin> set ys" and "c \<notin> set ys'"
  shows "xs = xs' \<and> ys = ys'"
  using assms
proof (induction xs arbitrary: xs')
  case Nil
  then show ?case by (cases xs') auto
next
  case (Cons x xs)
  then show ?case by (cases xs') auto
qed

section \<open>Errors\<close>

datatype ErrorType =
    ErrorTypeValidation | ErrorTypeDatabase | ErrorTypeTimeout
  | ErrorTypeNetwork | ErrorTypeStorage | ErrorTypeSystem

text \<open>
  \<^item> \<open>ErrorString\<close>: \<open>errors.New\<close>, and \<open>fmt.Errorf\<close> without \<open>%w\<close>;
  \<^item> \<open>WrapError p e\<close>: \<open>fmt.Errorf("<p>%w", e)\<close>;
  \<^item> \<open>NetError m temporary timeout\<close>: a value whose type implements \<open>net.Error\<close>;
  \<^item> \<open>TempError m b\<close>: a value whose type has only the method \<open>Temporary\<close>, returning \<open>b\<close>;
  \<^item> \<open>SyscallErrno m temporary timeout b\<close>: a \<open>syscall.Errno\<close> (it implements \<open>net.Error\<close>); \<open>b\<close> says
    whether it is one of \<open>ECONNRESET\<close>, \<open>ECONNREFUSED\<close> and \<open>EAGAIN\<close>;
  \<^item> \<open>SqliteError m c x\<close>: a \<open>sqlite3.Error\<close> of the SQLite driver with result code \<open>c\<close> and extended
    code \<open>x\<close>;
  \<^item> \<open>PandaFuzzError t op e\<close>: \<open>*common.PandaFuzzError\<close> with a non-nil \<open>Err\<close> field
    (its \<open>Context\<close> is never set by the constructors).
\<close>

datatype error =
    ErrorString string
  | WrapError string error
  | NetError string bool bool
  | TempError string bool
  | SyscallErrno string bool bool bool
  | SqliteError string int int
  | PandaFuzzError ErrorType string error

fun err_Error :: "error \<Rightarrow> string" where
  "err_Error (ErrorString m) = m"
| "err_Error (WrapError p e) = p @ err_Error e"
| "err_Error (NetError m _ _) = m"
| "err_Error (TempError m _) = m"
| "err_Error (SyscallErrno m _ _ _) = m"
| "err_Error (SqliteError m _ _) = m"
| "err_Error (PandaFuzzError _ _ e) = err_Error e"

type_synonym 'a result = "error + 'a"

text \<open>
  The outcome of a call that can panic (an index out of range, a failed type assertion, a nil
  pointer): the panic is a value of its own, apart from a returned error.
\<close>

datatype 'a go = Panic | Ret 'a

section \<open>Maps and lists\<close>

text \<open>Assignment to a map field that the code first allocates when it is nil.\<close>

definition map_put :: "('k \<rightharpoonup> 'v) option \<Rightarrow> 'k \<Rightarrow> 'v \<Rightarrow> ('k \<rightharpoonup> 'v) option" where
  "map_put m k v = Some ((case m of None \<Rightarrow> Map.empty | Some m' \<Rightarrow> m')(k \<mapsto> v))"

definition map_get :: "('k \<rightharpoonup> 'v) option \<Rightarrow> 'k \<Rightarrow> 'v option" where
  "map_get m k = (case m of None \<Rightarrow> None | Some m' \<Rightarrow> m' k)"

lemma map_get_put [simp]: "map_get (map_put m k v) k' = (if k' = k then Some v else map_get m k')"
  by (simp add: map_get_def map_put_def split: option.splits)

text \<open>\<open>remove1\<close> is the loop that deletes the first occurrence and returns.\<close>

lemma distinct_snoc: "distinct (xs @ [x]) \<longleftrightarrow> x \<notin> set xs \<and> distinct xs"
  by auto

end
