(* ===== verification/Status_Machine.thy ===== *)
theory Status_Machine
  imports Go_Prelude
begin

text \<open>
  The contract that the three status enumerations of the domain packages share (job status,
  campaign state, bot status): a predicate for the declared values, a predicate for terminal
  values and a transition table. The interpretations are in the theories of the enumerations.
\<close>

locale status_machine =
  fixes valid :: "'s \<Rightarrow> bool"
    and terminal :: "'s \<Rightarrow> bool"
    and can :: "'s \<Rightarrow> 's \<Rightarrow> bool"
  assumes can_valid: "can s t \<Longrightarrow> valid s \<and> valid t"
    and can_irrefl: "\<not> can s s"
    and terminal_valid: "terminal s \<Longrightarrow> valid s"
    and terminal_stuck: "terminal s \<Longrightarrow> \<not> can s t"
    and live: "valid s \<Longrightarrow> \<not> terminal s \<Longrightarrow> \<exists>t. can s t"
begin

lemma stuck_iff_terminal: "valid s \<Longrightarrow> (\<forall>t. \<not> can s t) \<longleftrightarrow> terminal s"
  using terminal_stuck live by blast

lemma run_valid: "can\<^sup>*\<^sup>* s t \<Longrightarrow> valid s \<Longrightarrow> valid t"
  by (induction rule: rtranclp_induct) (auto dest: can_valid)

lemma terminal_absorbing:
  assumes "can\<^sup>*\<^sup>* s t" and "terminal s"
  shows "t = s"
  using assms by (metis converse_rtranclpE terminal_stuck)

lemma invalid_isolated: "\<not> valid s \<Longrightarrow> \<not> can s t \<and> \<not> can t s"
  using can_valid by blast

end

text \<open>A machine in which every declared value can still reach a terminal one.\<close>

locale terminating_status_machine = status_machine +
  assumes terminal_reachable: "valid s \<Longrightarrow> \<exists>t. terminal t \<and> can\<^sup>*\<^sup>* s t"
begin

lemma never_trapped: "can\<^sup>*\<^sup>* s t \<Longrightarrow> valid s \<Longrightarrow> \<exists>u. terminal u \<and> can\<^sup>*\<^sup>* t u"
  using run_valid terminal_reachable by blast

end

text \<open>
  Membership in a transition table, as the loops over \<open>transitions[s]\<close> compute it: no entry
  for the source is "no transition", otherwise the target is searched in the entry's list.
\<close>

definition table_allows :: "('s \<rightharpoonup> 's list) \<Rightarrow> 's \<Rightarrow> 's \<Rightarrow> bool" where
  "table_allows tab s t = (case tab s of None \<Rightarrow> False | Some ts \<Rightarrow> t \<in> set ts)"

end
