(* ===== verification/Job_Types.thy ===== *)
theory Job_Types
  imports Status_Machine "HOL-Library.Word"
begin

text \<open>
  The package \<open>pkg/domain/job/types\<close>: the job status enumeration with its transition table
  (status.go) and the job entity with its operations (job.go).
  \<open>time.Now()\<close> is the argument \<open>now\<close> of each operation; an operation that reads the clock twice
  and uses both values takes two arguments. A method that returns an error leaves the job as it
  was and is \<open>Inl\<close>.
\<close>

section \<open>status.go\<close>

text \<open>\<open>JobStatus\<close> is a string type: \<open>StatusOther s\<close> stands for any other string.\<close>

datatype JobStatus =
    StatusPending | StatusQueued | StatusStarting | StatusRunning
  | StatusCompleted | StatusFailed | StatusCancelled | StatusPaused
  | StatusOther string

fun JobStatus_String :: "JobStatus \<Rightarrow> string" where
  "JobStatus_String StatusPending = ''pending''"
| "JobStatus_String StatusQueued = ''queued''"
| "JobStatus_String StatusStarting = ''starting''"
| "JobStatus_String StatusRunning = ''running''"
| "JobStatus_String StatusCompleted = ''completed''"
| "JobStatus_String StatusFailed = ''failed''"
| "JobStatus_String StatusCancelled = ''cancelled''"
| "JobStatus_String StatusPaused = ''paused''"
| "JobStatus_String (StatusOther s) = s"

text \<open>The conversion \<open>JobStatus(str)\<close>.\<close>

definition JobStatus_of :: "string \<Rightarrow> JobStatus" where
  "JobStatus_of s =
     (if s = ''pending'' then StatusPending
      else if s = ''queued'' then StatusQueued
      else if s = ''starting'' then StatusStarting
      else if s = ''running'' then StatusRunning
      else if s = ''completed'' then StatusCompleted
      else if s = ''failed'' then StatusFailed
      else if s = ''cancelled'' then StatusCancelled
      else if s = ''paused'' then StatusPaused
      else StatusOther s)"

fun JobStatus_IsValid :: "JobStatus \<Rightarrow> bool" where
  "JobStatus_IsValid (StatusOther s) = False"
| "JobStatus_IsValid s = True"

definition JobStatus_IsTerminal :: "JobStatus \<Rightarrow> bool" where
  "JobStatus_IsTerminal s = (s \<in> {StatusCompleted, StatusFailed, StatusCancelled})"

fun job_transitions :: "JobStatus \<Rightarrow> JobStatus list option" where
  "job_transitions StatusPending = Some [StatusQueued, StatusStarting, StatusCancelled]"
| "job_transitions StatusQueued = Some [StatusStarting, StatusRunning, StatusCancelled]"
| "job_transitions StatusStarting = Some [StatusRunning, StatusFailed, StatusCancelled]"
| "job_transitions StatusRunning = Some [StatusCompleted, StatusFailed, StatusCancelled, StatusPaused]"
| "job_transitions StatusPaused = Some [StatusRunning, StatusCancelled]"
| "job_transitions StatusCompleted = Some []"
| "job_transitions StatusFailed = Some []"
| "job_transitions StatusCancelled = Some []"
| "job_transitions (StatusOther s) = None"

definition JobStatus_CanTransitionTo :: "JobStatus \<Rightarrow> JobStatus \<Rightarrow> bool" where
  "JobStatus_CanTransitionTo s target = table_allows job_transitions s target"

definition ParseJobStatus :: "string \<Rightarrow> JobStatus result" where
  "ParseJobStatus s =
     (let status = JobStatus_of s in
      if \<not> JobStatus_IsValid status then Inl (ErrorString (''invalid job status: '' @ s))
      else Inr status)"

record JobStatusTransition =
  tr_From :: JobStatus
  tr_To :: JobStatus
  tr_Timestamp :: int
  tr_Reason :: string

text \<open>\<open>timeNow().Unix()\<close> is the argument \<open>now\<close>, divided down to seconds.\<close>

definition time_Unix :: "time \<Rightarrow> int" where
  "time_Unix t = t div Second"

definition NewJobStatusTransition ::
    "time \<Rightarrow> JobStatus \<Rightarrow> JobStatus \<Rightarrow> string \<Rightarrow> JobStatusTransition result" where
  "NewJobStatusTransition now from to reason =
     (if \<not> JobStatus_CanTransitionTo from to then
        Inl (ErrorString (''invalid transition from '' @ JobStatus_String from @ '' to '' @ JobStatus_String to))
      else Inr \<lparr>tr_From = from, tr_To = to, tr_Timestamp = time_Unix now, tr_Reason = reason\<rparr>)"

definition JobStatusTransition_Validate :: "JobStatusTransition \<Rightarrow> error option" where
  "JobStatusTransition_Validate t =
     (if JobStatus_String (tr_From t) = '''' \<or> JobStatus_String (tr_To t) = '''' then
        Some (ErrorString ''transition must have both from and to states'')
      else if \<not> JobStatus_IsValid (tr_From t) then
        Some (ErrorString (''invalid from status: '' @ JobStatus_String (tr_From t)))
      else if \<not> JobStatus_IsValid (tr_To t) then
        Some (ErrorString (''invalid to status: '' @ JobStatus_String (tr_To t)))
      else if \<not> JobStatus_CanTransitionTo (tr_From t) (tr_To t) then
        Some (ErrorString (''invalid transition from '' @ JobStatus_String (tr_From t) @ '' to '' @ JobStatus_String (tr_To t)))
      else if tr_Timestamp t \<le> 0 then Some (ErrorString ''transition must have a valid timestamp'')
      else None)"

lemmas job_status_defs = JobStatus_IsTerminal_def JobStatus_CanTransitionTo_def table_allows_def

section \<open>job.go\<close>

text \<open>\<open>JobPriority\<close> is an \<open>int\<close>; the constants are \<open>iota\<close> values.\<close>

type_synonym JobPriority = int

definition PriorityLow :: JobPriority where "PriorityLow = 0"
definition PriorityNormal :: JobPriority where "PriorityNormal = 1"
definition PriorityHigh :: JobPriority where "PriorityHigh = 2"
definition PriorityCritical :: JobPriority where "PriorityCritical = 3"

lemmas priority_defs = PriorityLow_def PriorityNormal_def PriorityHigh_def PriorityCritical_def

definition JobPriority_String :: "JobPriority \<Rightarrow> string" where
  "JobPriority_String p =
     (if p = PriorityLow then ''low''
      else if p = PriorityNormal then ''normal''
      else if p = PriorityHigh then ''high''
      else if p = PriorityCritical then ''critical''
      else ''unknown'')"

text \<open>Percentages (float64) are only stored by these operations; they are kept as rationals.\<close>

record JobProgress =
  jp_TotalExecs :: "64 word"
  jp_ExecsPerSecond :: "64 word"
  jp_CorpusSize :: "64 word"
  jp_Coverage :: rat
  jp_LastUpdated :: time
  jp_EstimatedTimeLeft :: "duration option"

record CoverageStats =
  cs_LineCoverage :: rat
  cs_FunctionCoverage :: rat
  cs_BranchCoverage :: rat
  cs_CollectedAt :: time
  cs_ReportPath :: string

record Job =
  job_ID :: string
  job_Name :: string
  job_Description :: string
  job_Status :: JobStatus
  job_FuzzerType :: string
  job_FuzzerConfig :: "(string \<rightharpoonup> any) option"
  job_TargetBinary :: string
  job_TargetArgs :: "string list"
  job_Environment :: "(string \<rightharpoonup> string) option"
  job_CreatedAt :: time
  job_StartedAt :: "time option"
  job_CompletedAt :: "time option"
  job_UpdatedAt :: time
  job_Priority :: JobPriority
  job_MaxDuration :: duration
  job_CorpusPath :: string
  job_OutputPath :: string
  job_CrashCount :: "64 word"
  job_ExecutionTime :: duration
  job_Metadata :: "(string \<rightharpoonup> string) option"
  job_Tags :: "string list"
  job_ErrorMessage :: string
  job_Progress :: "JobProgress option"
  job_ScheduledAt :: "time option"
  job_RetryCount :: int
  job_MaxRetries :: int
  job_RetryDelay :: duration
  job_Dependencies :: "string list"
  job_LockedBy :: string
  job_LockedAt :: "time option"
  job_LockExpiresAt :: "time option"
  job_LeaseToken :: "string option"
  job_LeaseExpiresAt :: "time option"
  job_LastHeartbeat :: "time option"
  job_QueuedAt :: "time option"
  job_DequeueCount :: int
  job_EnableCoverage :: bool
  job_CoverageFormat :: string
  job_CoverageReportID :: string
  job_CoverageStats :: "CoverageStats option"

definition generateJobID :: "string \<Rightarrow> time \<Rightarrow> string" where
  "generateJobID name timestamp = ''job_'' @ name @ ''_'' @ itoa (wrap64 timestamp)"

definition NewJob :: "time \<Rightarrow> string \<Rightarrow> string \<Rightarrow> string \<Rightarrow> string \<Rightarrow> string \<Rightarrow> Job result" where
  "NewJob now name fuzzerType targetBinary corpusPath outputPath =
     (if name = '''' then Inl (ErrorString ''job name cannot be empty'')
      else if fuzzerType = '''' then Inl (ErrorString ''fuzzer type cannot be empty'')
      else if targetBinary = '''' then Inl (ErrorString ''target binary cannot be empty'')
      else if corpusPath = '''' then Inl (ErrorString ''corpus path cannot be empty'')
      else if outputPath = '''' then Inl (ErrorString ''output path cannot be empty'')
      else Inr \<lparr>job_ID = generateJobID name now, job_Name = name, job_Description = '''',
        job_Status = StatusPending, job_FuzzerType = fuzzerType,
        job_FuzzerConfig = Some Map.empty, job_TargetBinary = targetBinary, job_TargetArgs = [],
        job_Environment = Some Map.empty, job_CreatedAt = now, job_StartedAt = None,
        job_CompletedAt = None, job_UpdatedAt = now, job_Priority = PriorityNormal,
        job_MaxDuration = 0, job_CorpusPath = corpusPath, job_OutputPath = outputPath,
        job_CrashCount = 0, job_ExecutionTime = 0, job_Metadata = Some Map.empty, job_Tags = [],
        job_ErrorMessage = '''', job_Progress = None, job_ScheduledAt = None, job_RetryCount = 0,
        job_MaxRetries = 0, job_RetryDelay = 0, job_Dependencies = [], job_LockedBy = '''',
        job_LockedAt = None, job_LockExpiresAt = None, job_LeaseToken = None,
        job_LeaseExpiresAt = None, job_LastHeartbeat = None, job_QueuedAt = None,
        job_DequeueCount = 0, job_EnableCoverage = False, job_CoverageFormat = '''',
        job_CoverageReportID = '''', job_CoverageStats = None\<rparr>)"

definition Job_Start :: "time \<Rightarrow> Job \<Rightarrow> Job result" where
  "Job_Start now j =
     (if job_Status j \<noteq> StatusPending \<and> job_Status j \<noteq> StatusQueued then
        Inl (ErrorString (''cannot start job in status: '' @ JobStatus_String (job_Status j)))
      else Inr (j\<lparr>job_Status := StatusRunning, job_StartedAt := Some now, job_UpdatedAt := now\<rparr>))"

text \<open>The common tail of \<open>Complete\<close>, \<open>Fail\<close> and \<open>Cancel\<close>: the execution time of a started job.\<close>

definition set_execution_time :: "time \<Rightarrow> Job \<Rightarrow> Job" where
  "set_execution_time now j =
     (case job_StartedAt j of None \<Rightarrow> j
      | Some st \<Rightarrow> j\<lparr>job_ExecutionTime := time_Sub now st\<rparr>)"

definition Job_Complete :: "time \<Rightarrow> Job \<Rightarrow> Job result" where
  "Job_Complete now j =
     (if job_Status j \<noteq> StatusRunning then
        Inl (ErrorString (''cannot complete job in status: '' @ JobStatus_String (job_Status j)))
      else Inr (set_execution_time now
        (j\<lparr>job_Status := StatusCompleted, job_CompletedAt := Some now, job_UpdatedAt := now\<rparr>)))"

definition Job_Fail :: "time \<Rightarrow> string \<Rightarrow> Job \<Rightarrow> Job result" where
  "Job_Fail now errorMessage j =
     (if job_Status j = StatusCompleted \<or> job_Status j = StatusFailed then
        Inl (ErrorString (''cannot fail job in status: '' @ JobStatus_String (job_Status j)))
      else Inr (set_execution_time now
        (j\<lparr>job_Status := StatusFailed, job_CompletedAt := Some now, job_UpdatedAt := now,
           job_ErrorMessage := errorMessage\<rparr>)))"

definition Job_Cancel :: "time \<Rightarrow> Job \<Rightarrow> Job result" where
  "Job_Cancel now j =
     (if job_Status j = StatusCompleted \<or> job_Status j = StatusFailed then
        Inl (ErrorString (''cannot cancel job in status: '' @ JobStatus_String (job_Status j)))
      else Inr (set_execution_time now
        (j\<lparr>job_Status := StatusCancelled, job_CompletedAt := Some now, job_UpdatedAt := now\<rparr>)))"

definition Job_UpdateProgress :: "time \<Rightarrow> JobProgress option \<Rightarrow> Job \<Rightarrow> Job result" where
  "Job_UpdateProgress now progress j =
     (if job_Status j \<noteq> StatusRunning then
        Inl (ErrorString (''cannot update progress for job in status: '' @ JobStatus_String (job_Status j)))
      else Inr (j\<lparr>job_Progress := progress, job_UpdatedAt := now\<rparr>))"

definition Job_IncrementCrashCount :: "time \<Rightarrow> Job \<Rightarrow> Job" where
  "Job_IncrementCrashCount now j = j\<lparr>job_CrashCount := job_CrashCount j + 1, job_UpdatedAt := now\<rparr>"

definition Job_SetFuzzerConfig :: "time \<Rightarrow> string \<Rightarrow> any \<Rightarrow> Job \<Rightarrow> Job" where
  "Job_SetFuzzerConfig now key val j =
     j\<lparr>job_FuzzerConfig := map_put (job_FuzzerConfig j) key val, job_UpdatedAt := now\<rparr>"

definition Job_GetFuzzerConfig :: "string \<Rightarrow> Job \<Rightarrow> any option" where
  "Job_GetFuzzerConfig key j = map_get (job_FuzzerConfig j) key"

definition Job_SetEnvironment :: "time \<Rightarrow> string \<Rightarrow> string \<Rightarrow> Job \<Rightarrow> Job" where
  "Job_SetEnvironment now key val j =
     j\<lparr>job_Environment := map_put (job_Environment j) key val, job_UpdatedAt := now\<rparr>"

definition Job_SetMetadata :: "time \<Rightarrow> string \<Rightarrow> string \<Rightarrow> Job \<Rightarrow> Job" where
  "Job_SetMetadata now key val j =
     j\<lparr>job_Metadata := map_put (job_Metadata j) key val, job_UpdatedAt := now\<rparr>"

definition Job_GetMetadata :: "string \<Rightarrow> Job \<Rightarrow> string option" where
  "Job_GetMetadata key j = map_get (job_Metadata j) key"

definition Job_AddTag :: "time \<Rightarrow> string \<Rightarrow> Job \<Rightarrow> Job" where
  "Job_AddTag now tag j =
     (if tag \<in> set (job_Tags j) then j
      else j\<lparr>job_Tags := job_Tags j @ [tag], job_UpdatedAt := now\<rparr>)"

definition Job_RemoveTag :: "time \<Rightarrow> string \<Rightarrow> Job \<Rightarrow> Job" where
  "Job_RemoveTag now tag j =
     (if tag \<in> set (job_Tags j) then j\<lparr>job_Tags := remove1 tag (job_Tags j), job_UpdatedAt := now\<rparr>
      else j)"

definition Job_IsRunning :: "Job \<Rightarrow> bool" where
  "Job_IsRunning j = (job_Status j = StatusRunning)"

definition Job_IsFinished :: "Job \<Rightarrow> bool" where
  "Job_IsFinished j = (job_Status j = StatusCompleted \<or> job_Status j = StatusFailed \<or> job_Status j = StatusCancelled)"

definition Job_CanTransitionTo :: "Job \<Rightarrow> JobStatus \<Rightarrow> bool" where
  "Job_CanTransitionTo j status = JobStatus_CanTransitionTo (job_Status j) status"

definition Job_Duration :: "time \<Rightarrow> Job \<Rightarrow> duration" where
  "Job_Duration now j =
     (case job_StartedAt j of None \<Rightarrow> 0
      | Some st \<Rightarrow> (case job_CompletedAt j of Some ct \<Rightarrow> time_Sub ct st | None \<Rightarrow> time_Sub now st))"

definition Job_IsExpired :: "time \<Rightarrow> Job \<Rightarrow> bool" where
  "Job_IsExpired now j =
     (if job_MaxDuration j = 0 \<or> \<not> Job_IsRunning j then False
      else Job_Duration now j > job_MaxDuration j)"

definition isValidCoverageFormat :: "string \<Rightarrow> bool" where
  "isValidCoverageFormat format = (format \<in> {''json'', ''html'', ''lcov'', ''cobertura''})"

definition Job_Validate :: "Job \<Rightarrow> error option" where
  "Job_Validate j =
     (if job_ID j = '''' then Some (ErrorString ''job ID cannot be empty'')
      else if job_Name j = '''' then Some (ErrorString ''job name cannot be empty'')
      else if job_FuzzerType j = '''' then Some (ErrorString ''fuzzer type cannot be empty'')
      else if job_TargetBinary j = '''' then Some (ErrorString ''target binary cannot be empty'')
      else if job_CorpusPath j = '''' then Some (ErrorString ''corpus path cannot be empty'')
      else if job_OutputPath j = '''' then Some (ErrorString ''output path cannot be empty'')
      else if \<not> JobStatus_IsValid (job_Status j) then
        Some (ErrorString (''invalid job status: '' @ JobStatus_String (job_Status j)))
      else if job_Priority j < PriorityLow \<or> job_Priority j > PriorityCritical then
        Some (ErrorString (''invalid job priority: '' @ itoa (job_Priority j)))
      else if job_EnableCoverage j \<and> job_CoverageFormat j \<noteq> '''' \<and> \<not> isValidCoverageFormat (job_CoverageFormat j) then
        Some (ErrorString (''invalid coverage format: '' @ job_CoverageFormat j @
          '' (must be one of: json, html, lcov, cobertura)''))
      else None)"

definition Job_IsScheduled :: "time \<Rightarrow> Job \<Rightarrow> bool" where
  "Job_IsScheduled now j = (case job_ScheduledAt j of None \<Rightarrow> False | Some t \<Rightarrow> time_After t now)"

definition Job_IsReadyToRun :: "time \<Rightarrow> Job \<Rightarrow> bool" where
  "Job_IsReadyToRun now j =
     (if job_Status j \<noteq> StatusPending \<and> job_Status j \<noteq> StatusQueued then False
      else case job_ScheduledAt j of None \<Rightarrow> True | Some t \<Rightarrow> \<not> time_After t now)"

definition Job_CanRetry :: "Job \<Rightarrow> bool" where
  "Job_CanRetry j = (job_Status j = StatusFailed \<and> job_RetryCount j < job_MaxRetries j)"

text \<open>\<open>now\<close> is the first reading of the clock (\<open>UpdatedAt\<close>), \<open>now2\<close> the second (the retry time).\<close>

definition Job_IncrementRetries :: "time \<Rightarrow> time \<Rightarrow> Job \<Rightarrow> Job" where
  "Job_IncrementRetries now now2 j =
     (let j1 = j\<lparr>job_RetryCount := wrap64 (job_RetryCount j + 1), job_UpdatedAt := now\<rparr> in
      if job_RetryDelay j1 > 0 then
        (let backoffDelay = wrap64 (job_RetryDelay j1 * shl1_64 (wrap64 (job_RetryCount j1 - 1))) in
         j1\<lparr>job_ScheduledAt := Some (time_Add now2 backoffDelay)\<rparr>)
      else j1)"

definition Job_Lock :: "time \<Rightarrow> string \<Rightarrow> duration \<Rightarrow> Job \<Rightarrow> Job result" where
  "Job_Lock now workerID lockDuration j =
     (if job_Status j \<noteq> StatusQueued then
        Inl (ErrorString (''cannot lock job in status: '' @ JobStatus_String (job_Status j)))
      else Inr (j\<lparr>job_LockedBy := workerID, job_LockedAt := Some now,
                  job_LockExpiresAt := Some (time_Add now lockDuration), job_UpdatedAt := now\<rparr>))"

definition Job_Unlock :: "time \<Rightarrow> Job \<Rightarrow> Job" where
  "Job_Unlock now j =
     j\<lparr>job_LockedBy := '''', job_LockedAt := None, job_LockExpiresAt := None, job_UpdatedAt := now\<rparr>"

definition Job_IsLocked :: "time \<Rightarrow> Job \<Rightarrow> bool" where
  "Job_IsLocked now j =
     (if job_LockedBy j = '''' then False
      else case job_LockExpiresAt j of None \<Rightarrow> False | Some t \<Rightarrow> time_After t now)"

definition Job_HasDependencies :: "Job \<Rightarrow> bool" where
  "Job_HasDependencies j = (length (job_Dependencies j) > 0)"

definition Job_AddDependency :: "time \<Rightarrow> string \<Rightarrow> Job \<Rightarrow> Job result" where
  "Job_AddDependency now jobID j =
     (if jobID = job_ID j then Inl (ErrorString ''job cannot depend on itself'')
      else if jobID \<in> set (job_Dependencies j) then
        Inl (ErrorString (''dependency '' @ jobID @ '' already exists''))
      else Inr (j\<lparr>job_Dependencies := job_Dependencies j @ [jobID], job_UpdatedAt := now\<rparr>))"

definition Job_RemoveDependency :: "time \<Rightarrow> string \<Rightarrow> Job \<Rightarrow> Job" where
  "Job_RemoveDependency now jobID j =
     (if jobID \<in> set (job_Dependencies j) then
        j\<lparr>job_Dependencies := remove1 jobID (job_Dependencies j), job_UpdatedAt := now\<rparr>
      else j)"

definition Job_Queue :: "time \<Rightarrow> Job \<Rightarrow> Job result" where
  "Job_Queue now j =
     (if job_Status j \<noteq> StatusPending then
        Inl (ErrorString (''cannot queue job in status: '' @ JobStatus_String (job_Status j)))
      else Inr (j\<lparr>job_Status := StatusQueued, job_QueuedAt := Some now, job_UpdatedAt := now,
                  job_DequeueCount := wrap64 (job_DequeueCount j + 1)\<rparr>))"

definition Job_IsCoverageEnabled :: "Job \<Rightarrow> bool" where
  "Job_IsCoverageEnabled j = job_EnableCoverage j"

definition Job_UpdateCoverageStats :: "time \<Rightarrow> CoverageStats option \<Rightarrow> Job \<Rightarrow> Job result" where
  "Job_UpdateCoverageStats now stats j =
     (if \<not> job_EnableCoverage j then
        Inl (ErrorString ''cannot update coverage stats when coverage is disabled'')
      else case stats of None \<Rightarrow> Inl (ErrorString ''coverage stats cannot be nil'')
      | Some cs \<Rightarrow> Inr (j\<lparr>job_CoverageStats := Some cs, job_UpdatedAt := now\<rparr>))"


section \<open>Every operation on a job, as a step relation\<close>

inductive job_op :: "Job \<Rightarrow> Job \<Rightarrow> bool" where
  op_start: "Job_Start now j = Inr j' \<Longrightarrow> job_op j j'"
| op_complete: "Job_Complete now j = Inr j' \<Longrightarrow> job_op j j'"
| op_fail: "Job_Fail now msg j = Inr j' \<Longrightarrow> job_op j j'"
| op_cancel: "Job_Cancel now j = Inr j' \<Longrightarrow> job_op j j'"
| op_progress: "Job_UpdateProgress now p j = Inr j' \<Longrightarrow> job_op j j'"
| op_crash: "job_op j (Job_IncrementCrashCount now j)"
| op_config: "job_op j (Job_SetFuzzerConfig now k v j)"
| op_env: "job_op j (Job_SetEnvironment now k w j)"
| op_meta: "job_op j (Job_SetMetadata now k w j)"
| op_add_tag: "job_op j (Job_AddTag now t j)"
| op_remove_tag: "job_op j (Job_RemoveTag now t j)"
| op_retries: "job_op j (Job_IncrementRetries now now2 j)"
| op_lock: "Job_Lock now w d j = Inr j' \<Longrightarrow> job_op j j'"
| op_unlock: "job_op j (Job_Unlock now j)"
| op_add_dep: "Job_AddDependency now d' j = Inr j' \<Longrightarrow> job_op j j'"
| op_remove_dep: "job_op j (Job_RemoveDependency now d' j)"
| op_queue: "Job_Queue now j = Inr j' \<Longrightarrow> job_op j j'"
| op_coverage: "Job_UpdateCoverageStats now cs j = Inr j' \<Longrightarrow> job_op j j'"

inductive reachable_job :: "Job \<Rightarrow> bool" where
  created: "NewJob now name fuzzer target corpus output = Inr j \<Longrightarrow> reachable_job j"
| operated: "reachable_job j \<Longrightarrow> job_op j j' \<Longrightarrow> reachable_job j'"

text \<open>Which timestamps (completed, started, queued) a job carries in each status.\<close>

fun status_times_ok :: "JobStatus \<Rightarrow> time option \<Rightarrow> time option \<Rightarrow> time option \<Rightarrow> bool" where
  "status_times_ok StatusPending c s q = (c = None \<and> s = None)"
| "status_times_ok StatusQueued c s q = (c = None \<and> s = None \<and> q \<noteq> None)"
| "status_times_ok StatusRunning c s q = (c = None \<and> s \<noteq> None)"
| "status_times_ok StatusCompleted c s q = (c \<noteq> None \<and> s \<noteq> None)"
| "status_times_ok StatusFailed c s q = (c \<noteq> None)"
| "status_times_ok StatusCancelled c s q = (c \<noteq> None)"
| "status_times_ok _ c s q = False"

definition job_wf :: "Job \<Rightarrow> bool" where
  "job_wf j \<longleftrightarrow>
     status_times_ok (job_Status j) (job_CompletedAt j) (job_StartedAt j) (job_QueuedAt j) \<and>
     distinct (job_Tags j) \<and> distinct (job_Dependencies j) \<and> job_ID j \<notin> set (job_Dependencies j)"

text \<open>The fields that no operation of the entity writes and that validation reads.\<close>

definition same_identity :: "Job \<Rightarrow> Job \<Rightarrow> bool" where
  "same_identity j j' \<longleftrightarrow>
     job_ID j' = job_ID j \<and> job_Name j' = job_Name j \<and> job_FuzzerType j' = job_FuzzerType j \<and>
     job_TargetBinary j' = job_TargetBinary j \<and> job_CorpusPath j' = job_CorpusPath j \<and>
     job_OutputPath j' = job_OutputPath j \<and> job_Priority j' = job_Priority j \<and>
     job_EnableCoverage j' = job_EnableCoverage j \<and> job_CoverageFormat j' = job_CoverageFormat j"

section \<open>Lemmas\<close>

interpretation job_status: terminating_status_machine
  JobStatus_IsValid JobStatus_IsTerminal JobStatus_CanTransitionTo
proof
  fix s t :: JobStatus
  show "JobStatus_CanTransitionTo s t \<Longrightarrow> JobStatus_IsValid s \<and> JobStatus_IsValid t"
    by (cases s) (auto simp: job_status_defs)
  show "\<not> JobStatus_CanTransitionTo s s"
    by (cases s) (auto simp: job_status_defs)
  show "JobStatus_IsTerminal s \<Longrightarrow> JobStatus_IsValid s"
    by (auto simp: job_status_defs)
  show "JobStatus_IsTerminal s \<Longrightarrow> \<not> JobStatus_CanTransitionTo s t"
    by (auto simp: job_status_defs)
  show "JobStatus_IsValid s \<Longrightarrow> \<not> JobStatus_IsTerminal s \<Longrightarrow> \<exists>t. JobStatus_CanTransitionTo s t"
    by (cases s) (auto simp: job_status_defs)
  assume v: "JobStatus_IsValid s"
  show "\<exists>t. JobStatus_IsTerminal t \<and> JobStatus_CanTransitionTo\<^sup>*\<^sup>* s t"
  proof (cases "JobStatus_IsTerminal s")
    case True
    then show ?thesis by blast
  next
    case False
    with v have "JobStatus_CanTransitionTo s StatusCancelled"
      by (cases s) (auto simp: job_status_defs)
    moreover have "JobStatus_IsTerminal StatusCancelled" by (simp add: job_status_defs)
    ultimately show ?thesis by blast
  qed
qed

lemma JobStatus_String_of [simp]: "JobStatus_String (JobStatus_of s) = s"
  by (simp add: JobStatus_of_def)

lemma JobStatus_of_String: "JobStatus_IsValid s \<Longrightarrow> JobStatus_of (JobStatus_String s) = s"
  by (cases s) (simp_all add: JobStatus_of_def)

lemma set_execution_time_simps [simp]:
  "job_Status (set_execution_time now j) = job_Status j"
  "job_CompletedAt (set_execution_time now j) = job_CompletedAt j"
  "job_StartedAt (set_execution_time now j) = job_StartedAt j"
  "job_QueuedAt (set_execution_time now j) = job_QueuedAt j"
  "job_Tags (set_execution_time now j) = job_Tags j"
  "job_Dependencies (set_execution_time now j) = job_Dependencies j"
  "job_ID (set_execution_time now j) = job_ID j"
  "job_ErrorMessage (set_execution_time now j) = job_ErrorMessage j"
  "job_RetryCount (set_execution_time now j) = job_RetryCount j"
  "job_MaxRetries (set_execution_time now j) = job_MaxRetries j"
  "job_RetryDelay (set_execution_time now j) = job_RetryDelay j"
  "job_Name (set_execution_time now j) = job_Name j"
  "job_FuzzerType (set_execution_time now j) = job_FuzzerType j"
  "job_TargetBinary (set_execution_time now j) = job_TargetBinary j"
  "job_CorpusPath (set_execution_time now j) = job_CorpusPath j"
  "job_OutputPath (set_execution_time now j) = job_OutputPath j"
  "job_Priority (set_execution_time now j) = job_Priority j"
  "job_EnableCoverage (set_execution_time now j) = job_EnableCoverage j"
  "job_CoverageFormat (set_execution_time now j) = job_CoverageFormat j"
  by (simp_all add: set_execution_time_def split: option.split)

lemmas job_status_ops =
  Job_Start_def Job_Complete_def Job_Fail_def Job_Cancel_def Job_Queue_def Job_Lock_def

lemmas job_other_ops =
  Job_UpdateProgress_def Job_IncrementCrashCount_def Job_SetFuzzerConfig_def Job_SetEnvironment_def
  Job_SetMetadata_def Job_AddTag_def Job_RemoveTag_def Job_IncrementRetries_def Job_Unlock_def
  Job_AddDependency_def Job_RemoveDependency_def Job_UpdateCoverageStats_def Let_def

text \<open>Validation looks at the identity and at the status only.\<close>

lemma Job_Validate_same_identity:
  assumes "same_identity j j'" "JobStatus_IsValid (job_Status j')" "Job_Validate j = None"
  shows "Job_Validate j' = None"
  using assms unfolding Job_Validate_def same_identity_def by (simp split: if_splits)

lemma job_op_same_identity:
  assumes "job_op j j'"
  shows "same_identity j j'"
  using assms
proof cases
  case op_start then show ?thesis by (auto simp: Job_Start_def same_identity_def split: if_splits)
next
  case op_complete then show ?thesis by (auto simp: Job_Complete_def same_identity_def split: if_splits)
next
  case op_fail then show ?thesis by (auto simp: Job_Fail_def same_identity_def split: if_splits)
next
  case op_cancel then show ?thesis by (auto simp: Job_Cancel_def same_identity_def split: if_splits)
next
  case op_queue then show ?thesis by (auto simp: Job_Queue_def same_identity_def split: if_splits)
next
  case op_lock then show ?thesis by (auto simp: Job_Lock_def same_identity_def split: if_splits)
qed (auto simp: job_other_ops same_identity_def split: if_splits option.splits)

text \<open>The status changes an operation can make.\<close>

lemma job_op_status:
  assumes "job_op j j'"
  shows "job_Status j' = job_Status j
    \<or> (job_Status j' = StatusRunning \<and> job_Status j \<in> {StatusPending, StatusQueued})
    \<or> (job_Status j' = StatusCompleted \<and> job_Status j = StatusRunning)
    \<or> (job_Status j' \<in> {StatusFailed, StatusCancelled} \<and> job_Status j \<notin> {StatusCompleted, StatusFailed})
    \<or> (job_Status j' = StatusQueued \<and> job_Status j = StatusPending)"
  using assms
proof cases
  case op_start then show ?thesis by (auto simp: Job_Start_def split: if_splits)
next
  case op_complete then show ?thesis by (auto simp: Job_Complete_def split: if_splits)
next
  case op_fail then show ?thesis by (auto simp: Job_Fail_def split: if_splits)
next
  case op_cancel then show ?thesis by (auto simp: Job_Cancel_def split: if_splits)
next
  case op_queue then show ?thesis by (auto simp: Job_Queue_def split: if_splits)
next
  case op_lock then show ?thesis by (auto simp: Job_Lock_def split: if_splits)
qed (auto simp: job_other_ops split: if_splits option.splits)


lemma NewJob_wf: "NewJob now name fuzzer target corpus output = Inr j \<Longrightarrow> job_wf j"
  by (auto simp: NewJob_def job_wf_def split: if_splits)

lemma NewJob_valid: "NewJob now name fuzzer target corpus output = Inr j \<Longrightarrow> Job_Validate j = None"
  by (auto simp: NewJob_def Job_Validate_def generateJobID_def priority_defs split: if_splits)

lemma job_wf_cong:
  assumes "job_Status j' = job_Status j" "job_CompletedAt j' = job_CompletedAt j"
    "job_StartedAt j' = job_StartedAt j" "job_QueuedAt j' = job_QueuedAt j" "job_ID j' = job_ID j"
    "job_wf j" "distinct (job_Tags j')" "distinct (job_Dependencies j')" "job_ID j \<notin> set (job_Dependencies j')"
  shows "job_wf j'"
  using assms unfolding job_wf_def by simp

lemma job_wf_lists:
  "job_wf j \<Longrightarrow> distinct (job_Tags j) \<and> distinct (job_Dependencies j) \<and> job_ID j \<notin> set (job_Dependencies j)"
  by (simp add: job_wf_def)

lemma job_op_wf:
  assumes op: "job_op j j'" and wf: "job_wf j"
  shows "job_wf j'"
  using op
proof cases
  case op_start with wf show ?thesis by (auto simp: Job_Start_def job_wf_def split: if_splits)
next
  case op_complete with wf show ?thesis by (auto simp: Job_Complete_def job_wf_def split: if_splits)
next
  case op_fail with wf show ?thesis by (auto simp: Job_Fail_def job_wf_def split: if_splits)
next
  case op_cancel with wf show ?thesis by (auto simp: Job_Cancel_def job_wf_def split: if_splits)
next
  case op_queue with wf show ?thesis by (auto simp: Job_Queue_def job_wf_def split: if_splits)
next
  case op_lock with wf show ?thesis
    by (auto simp: Job_Lock_def job_wf_lists split: if_splits intro!: job_wf_cong [of _ j])
next
  case op_add_dep with wf show ?thesis
    by (auto simp: Job_AddDependency_def job_wf_lists split: if_splits intro!: job_wf_cong [of _ j])
next
  case (op_remove_dep now d) with wf show ?thesis
    by (auto simp: Job_RemoveDependency_def job_wf_lists notin_set_remove1 intro!: job_wf_cong [of _ j])
qed (use wf in \<open>auto simp: job_other_ops job_wf_lists split: if_splits option.splits intro!: job_wf_cong [of _ j]\<close>)

lemma job_wf_valid_status: "job_wf j \<Longrightarrow> JobStatus_IsValid (job_Status j)"
  by (cases "job_Status j") (auto simp: job_wf_def)

lemma reachable_job_inv: "reachable_job j \<Longrightarrow> job_wf j \<and> Job_Validate j = None"
proof (induction rule: reachable_job.induct)
  case created
  then show ?case by (blast intro: NewJob_wf NewJob_valid)
next
  case (operated j j')
  then have "job_wf j'" by (blast intro: job_op_wf)
  with operated show ?case
    by (blast intro: Job_Validate_same_identity job_op_same_identity job_wf_valid_status)
qed


text \<open>The execution time is only ever written together with the completion time.\<close>

definition exec_time_ok :: "Job \<Rightarrow> bool" where
  "exec_time_ok j \<longleftrightarrow>
     (if job_CompletedAt j = None then job_ExecutionTime j = 0
      else \<forall>t. job_ExecutionTime j = Job_Duration t j)"

lemma exec_time_ok_cong:
  assumes "exec_time_ok j" "job_CompletedAt j' = job_CompletedAt j" "job_StartedAt j' = job_StartedAt j"
    "job_ExecutionTime j' = job_ExecutionTime j"
  shows "exec_time_ok j'"
proof -
  have "Job_Duration t j' = Job_Duration t j" for t
    using assms(2,3) by (simp add: Job_Duration_def split: option.split)
  then show ?thesis using assms unfolding exec_time_ok_def by simp
qed

lemma exec_time_ok_finish:
  assumes "exec_time_ok j" "job_CompletedAt j' = Some now" "job_StartedAt j' = job_StartedAt j"
    "job_ExecutionTime j' = job_ExecutionTime j"
  shows "exec_time_ok (set_execution_time now j')"
  using assms
  by (auto simp: exec_time_ok_def Job_Duration_def set_execution_time_def split: option.splits if_splits)

lemma job_op_exec_time:
  assumes op: "job_op j j'" and wf: "job_wf j" and ok: "exec_time_ok j"
  shows "exec_time_ok j'"
  using op
proof cases
  case op_start
  with wf ok show ?thesis
    by (auto simp: Job_Start_def exec_time_ok_def job_wf_def split: if_splits)
next
  case op_complete
  with ok show ?thesis by (auto simp: Job_Complete_def split: if_splits intro!: exec_time_ok_finish)
next
  case op_fail
  with ok show ?thesis by (auto simp: Job_Fail_def split: if_splits intro!: exec_time_ok_finish)
next
  case op_cancel
  with ok show ?thesis by (auto simp: Job_Cancel_def split: if_splits intro!: exec_time_ok_finish)
next
  case op_queue
  with ok show ?thesis by (auto simp: Job_Queue_def split: if_splits elim!: exec_time_ok_cong)
next
  case op_lock
  with ok show ?thesis by (auto simp: Job_Lock_def split: if_splits elim!: exec_time_ok_cong)
qed (use ok in \<open>auto simp: job_other_ops split: if_splits option.splits elim!: exec_time_ok_cong\<close>)

lemma reachable_job_exec_time: "reachable_job j \<Longrightarrow> exec_time_ok j"
proof (induction rule: reachable_job.induct)
  case created
  then show ?case by (auto simp: NewJob_def exec_time_ok_def split: if_splits)
next
  case (operated j j')
  then show ?case by (blast intro: job_op_exec_time dest: reachable_job_inv)
qed

lemma job_op_final:
  assumes "job_op j j'" and "job_Status j \<in> {StatusCompleted, StatusFailed}"
  shows "job_CompletedAt j' = job_CompletedAt j"
  using assms(1)
proof cases
  case op_start with assms(2) show ?thesis by (auto simp: Job_Start_def split: if_splits)
next
  case op_complete with assms(2) show ?thesis by (auto simp: Job_Complete_def split: if_splits)
next
  case op_fail with assms(2) show ?thesis by (auto simp: Job_Fail_def split: if_splits)
next
  case op_cancel with assms(2) show ?thesis by (auto simp: Job_Cancel_def split: if_splits)
next
  case op_queue with assms(2) show ?thesis by (auto simp: Job_Queue_def split: if_splits)
next
  case op_lock with assms(2) show ?thesis by (auto simp: Job_Lock_def split: if_splits)
qed (auto simp: job_other_ops split: if_splits option.splits)

text \<open>Concrete jobs, for the witnesses.\<close>

definition sample_job :: "string \<Rightarrow> JobPriority \<Rightarrow> time option \<Rightarrow> Job" where
  "sample_job jid p t = (projr (NewJob 1 ''a'' ''f'' ''t'' ''c'' ''o''))\<lparr>job_ID := jid, job_Priority := p, job_QueuedAt := t\<rparr>"

lemma sample_job_fields [simp]:
  "job_ID (sample_job jid p t) = jid" "job_Priority (sample_job jid p t) = p" "job_QueuedAt (sample_job jid p t) = t"
  "job_Status (sample_job jid p t) = StatusPending" "job_CreatedAt (sample_job jid p t) = 1"
  "job_Dependencies (sample_job jid p t) = []" "job_ScheduledAt (sample_job jid p t) = None"
  "job_LockedBy (sample_job jid p t) = ''''" "job_RetryCount (sample_job jid p t) = 0" "job_MaxRetries (sample_job jid p t) = 0"
  by (simp_all add: sample_job_def NewJob_def)

lemma demo_job:
  obtains j where "NewJob 1 ''a'' ''f'' ''t'' ''c'' ''o'' = Inr j" and "reachable_job j"
    and "job_Status j = StatusPending"
proof -
  obtain j where j: "NewJob 1 ''a'' ''f'' ''t'' ''c'' ''o'' = Inr j" by (simp add: NewJob_def)
  moreover have "job_Status j = StatusPending" using j by (auto simp: NewJob_def)
  ultimately show ?thesis using that reachable_job.created by blast
qed

lemma reachable_with_status:
  "\<exists>j. reachable_job j \<and> job_Status j = StatusPending"
  "\<exists>j. reachable_job j \<and> job_Status j = StatusQueued"
  "\<exists>j. reachable_job j \<and> job_Status j = StatusCancelled"
  "\<exists>j. reachable_job j \<and> job_Status j = StatusCompleted"
proof -
  obtain j where j: "reachable_job j" "job_Status j = StatusPending" by (rule demo_job)
  then show "\<exists>j. reachable_job j \<and> job_Status j = StatusPending" by blast
  obtain q where q: "Job_Queue 2 j = Inr q" "job_Status q = StatusQueued"
    using j(2) by (simp add: Job_Queue_def)
  then have rq: "reachable_job q" using j(1) by (blast intro: reachable_job.operated job_op.op_queue)
  with q show "\<exists>j. reachable_job j \<and> job_Status j = StatusQueued" by blast
  obtain c where c: "Job_Cancel 3 q = Inr c" "job_Status c = StatusCancelled"
    using q(2) by (simp add: Job_Cancel_def)
  with rq show "\<exists>j. reachable_job j \<and> job_Status j = StatusCancelled"
    by (blast intro: reachable_job.operated job_op.op_cancel)
  obtain r where r: "Job_Start 4 q = Inr r" "job_Status r = StatusRunning"
    using q(2) by (simp add: Job_Start_def)
  then have rr: "reachable_job r" using rq by (blast intro: reachable_job.operated job_op.op_start)
  obtain d where "Job_Complete 5 r = Inr d" "job_Status d = StatusCompleted"
    using r(2) by (simp add: Job_Complete_def)
  with rr show "\<exists>j. reachable_job j \<and> job_Status j = StatusCompleted"
    by (blast intro: reachable_job.operated job_op.op_complete)
qed

lemma job_fail_step: "job_Status j \<notin> {StatusCompleted, StatusFailed} \<Longrightarrow> \<exists>j'. job_op j j' \<and> job_Status j' = StatusFailed"
proof -
  assume "job_Status j \<notin> {StatusCompleted, StatusFailed}"
  then obtain j' where "Job_Fail 0 [] j = Inr j'" and "job_Status j' = StatusFailed"
    by (simp add: Job_Fail_def)
  then show ?thesis by (blast intro: job_op.op_fail)
qed

lemma job_start_step: "job_Status j = StatusPending \<Longrightarrow> \<exists>j'. job_op j j' \<and> job_Status j' = StatusRunning"
proof -
  assume "job_Status j = StatusPending"
  then obtain j' where "Job_Start 0 j = Inr j'" and "job_Status j' = StatusRunning"
    by (simp add: Job_Start_def)
  then show ?thesis by (blast intro: job_op.op_start)
qed

section \<open>Properties\<close>

text \<open>C1: every job built by \<open>NewJob\<close> and then changed by any sequence of the entity's
  operations is well-formed (its timestamps agree with its status, its tags and dependencies
  have no duplicates and never name the job itself), passes \<open>Validate\<close>, and its recorded
  execution time is the duration the entity computes, whenever it is asked.\<close>

theorem reachable_job_wf:
  assumes "reachable_job j"
  shows "job_wf j \<and> Job_Validate j = None \<and>
    (Job_IsFinished j \<longrightarrow> (\<forall>t. job_ExecutionTime j = Job_Duration t j))"
proof -
  have inv: "job_wf j" "Job_Validate j = None" "exec_time_ok j"
    using assms reachable_job_inv reachable_job_exec_time by auto
  have "Job_IsFinished j \<Longrightarrow> job_CompletedAt j \<noteq> None"
    using inv(1) by (auto simp: Job_IsFinished_def job_wf_def)
  then show ?thesis using inv by (auto simp: exec_time_ok_def)
qed

theorem reachable_job_wf_witness:
  "\<exists>j. reachable_job j \<and> job_Status j = StatusCompleted \<and> job_wf j \<and> job_ExecutionTime j = Job_Duration 9 j"
  using reachable_with_status(4) reachable_job_wf by (fastforce simp: Job_IsFinished_def)

text \<open>The status changes of reachable jobs that the transition table of status.go does not
  allow are exactly these four: \<open>Start\<close> on a pending job, and \<open>Fail\<close> on a pending, a queued or a
  cancelled job; the last one leaves a state that \<open>IsTerminal\<close> calls terminal.\<close>

theorem job_table_violations:
  "{(job_Status j, job_Status j') | j j'. reachable_job j \<and> job_op j j' \<and> job_Status j' \<noteq> job_Status j \<and>
       \<not> JobStatus_CanTransitionTo (job_Status j) (job_Status j')} =
   {(StatusPending, StatusRunning), (StatusPending, StatusFailed),
    (StatusQueued, StatusFailed), (StatusCancelled, StatusFailed)}" (is "?V = ?E")
proof
  show "?V \<subseteq> ?E"
  proof
    fix p
    assume "p \<in> ?V"
    then obtain j j' where p: "p = (job_Status j, job_Status j')" and r: "reachable_job j"
      and op: "job_op j j'" and ne: "job_Status j' \<noteq> job_Status j"
      and no: "\<not> JobStatus_CanTransitionTo (job_Status j) (job_Status j')" by blast
    from r have "job_wf j" by (blast dest: reachable_job_inv)
    then have "job_Status j \<in> {StatusPending, StatusQueued, StatusRunning, StatusCompleted, StatusFailed, StatusCancelled}"
      by (cases "job_Status j") (auto simp: job_wf_def)
    then show "p \<in> ?E"
      using job_op_status [OF op] ne no unfolding p by (auto simp: job_status_defs)
  qed
  have member: "(s, t) \<in> ?V" if "reachable_job j" "job_op j j'" "job_Status j = s" "job_Status j' = t"
    "t \<noteq> s" "\<not> JobStatus_CanTransitionTo s t" for j j' s t
    using that by blast
  obtain j where j: "reachable_job j" "job_Status j = StatusPending" using reachable_with_status(1) by blast
  obtain j' where j': "job_op j j'" "job_Status j' = StatusRunning" using job_start_step [OF j(2)] by blast
  have start: "(StatusPending, StatusRunning) \<in> ?V"
    using member [OF j(1) j'(1) j(2) j'(2)] by (simp add: job_status_defs)
  have "(s, StatusFailed) \<in> ?V" if r: "\<exists>j. reachable_job j \<and> job_Status j = s"
    and s: "s \<in> {StatusPending, StatusQueued, StatusCancelled}" for s
  proof -
    obtain j where j: "reachable_job j" "job_Status j = s" using r by blast
    with s obtain j' where j': "job_op j j'" "job_Status j' = StatusFailed"
      using job_fail_step [of j] by auto
    show ?thesis using member [OF j(1) j'(1) j(2) j'(2)] s by (auto simp: job_status_defs)
  qed
  with start reachable_with_status show "?E \<subseteq> ?V" by blast
qed

text \<open>C2: once a job is completed or failed, no sequence of operations of the entity changes its
  status or its completion time.\<close>

theorem finished_job_stable:
  assumes "job_op\<^sup>*\<^sup>* j j'" and "job_Status j = StatusCompleted \<or> job_Status j = StatusFailed"
  shows "job_Status j' = job_Status j \<and> job_CompletedAt j' = job_CompletedAt j"
  using assms
proof (induction rule: rtranclp_induct)
  case base
  then show ?case by simp
next
  case (step y z)
  then have y: "job_Status y = job_Status j" "job_CompletedAt y = job_CompletedAt j" by auto
  with step show ?case using job_op_status [of y z] job_op_final [of y z] by auto
qed

theorem finished_job_stable_witness:
  "\<exists>j j'. job_op j j' \<and> job_Status j = StatusCompleted \<and> job_Status j' = StatusCompleted"
proof -
  obtain j :: Job where j: "job_Status j = StatusCompleted" using reachable_with_status(4) by blast
  have op: "job_op j (Job_Unlock 7 j)" by (rule job_op.op_unlock)
  then have "job_Status (Job_Unlock 7 j) = StatusCompleted"
    using finished_job_stable [of j "Job_Unlock 7 j"] j by auto
  with op j show ?thesis by blast
qed

text \<open>\<open>ParseJobStatus\<close> accepts exactly the strings that \<open>String\<close> prints for the declared
  statuses, and returns the status that was printed.\<close>

theorem job_status_roundtrip:
  "ParseJobStatus s = Inr st \<longleftrightarrow> JobStatus_IsValid st \<and> s = JobStatus_String st"
  by (auto simp: ParseJobStatus_def Let_def JobStatus_of_String)

text \<open>\<open>generateJobID\<close> is injective: two jobs have the same ID only if they have the same name
  and were created in the same nanosecond (as the 64-bit value of \<open>UnixNano\<close>).\<close>

theorem generateJobID_injective:
  "generateJobID n t = generateJobID n' t' \<longleftrightarrow> n = n' \<and> wrap64 t = wrap64 t'"
proof -
  have "n = n' \<and> wrap64 t = wrap64 t'" if "n @ CHR ''_'' # itoa (wrap64 t) = n' @ CHR ''_'' # itoa (wrap64 t')"
    using split_last_sep [OF that itoa_no_underscore itoa_no_underscore] by (blast dest: itoa_inj)
  then show ?thesis by (auto simp: generateJobID_def)
qed

text \<open>as long as the doubled delay fits into 64 bits, the n-th retry is scheduled
  \<open>RetryDelay * 2 ^ (n - 1)\<close> after the current time.\<close>

theorem retry_backoff_exact:
  assumes "0 < job_RetryDelay j" and "0 \<le> job_RetryCount j" and "job_RetryCount j < 63"
    and "job_RetryDelay j * 2 ^ nat (job_RetryCount j) < 2 ^ 63"
  shows "job_ScheduledAt (Job_IncrementRetries now now2 j) =
           Some (now2 + job_RetryDelay j * 2 ^ nat (job_RetryCount j)) \<and>
         job_RetryCount (Job_IncrementRetries now now2 j) = job_RetryCount j + 1"
proof -
  have c: "wrap64 (job_RetryCount j + 1) = job_RetryCount j + 1"
    using assms(2,3) by (intro wrap64_id) (simp add: int64_def)
  have c': "wrap64 (job_RetryCount j) = job_RetryCount j"
    using assms(2,3) by (intro wrap64_id) (simp add: int64_def)
  have "0 \<le> job_RetryDelay j * 2 ^ nat (job_RetryCount j)" using assms(1) by simp
  then have "wrap64 (job_RetryDelay j * 2 ^ nat (job_RetryCount j)) = job_RetryDelay j * 2 ^ nat (job_RetryCount j)"
    using assms(4) by (intro wrap64_id) (simp add: int64_def order_trans [of _ 0])
  then show ?thesis
    using assms(1-3) c c' by (simp add: Job_IncrementRetries_def Let_def time_Add_def shl1_64_pow)
qed

theorem retry_backoff_exact_witness:
  "\<exists>j. job_RetryDelay j = 30 * Second \<and> job_RetryCount j = 2 \<and>
       job_ScheduledAt (Job_IncrementRetries 0 100 j) = Some (100 + 120 * Second)"
proof -
  obtain j0 where "reachable_job j0" by (rule demo_job)
  define j where "j = j0\<lparr>job_RetryDelay := 30 * Second, job_RetryCount := 2\<rparr>"
  have f: "job_RetryDelay j = 30 * Second" "job_RetryCount j = 2" by (simp_all add: j_def)
  then have "job_ScheduledAt (Job_IncrementRetries 0 100 j) = Some (100 + 120 * Second)"
    using retry_backoff_exact [of j 0 100] by (simp add: Second_def)
  with f show ?thesis by blast
qed

text \<open>without that bound the 64-bit product wraps around: with the default delay of 30
  seconds the 30th retry is scheduled in the past, and from the 65th retry on the delay is 0.\<close>

theorem retry_backoff_overflow:
  "job_RetryDelay j = 30 * Second \<Longrightarrow> job_RetryCount j = 29 \<Longrightarrow>
     (\<exists>t. job_ScheduledAt (Job_IncrementRetries now now2 j) = Some t \<and> t < now2) \<and>
     (\<forall>n. 64 \<le> n \<and> n < 2 ^ 62 \<longrightarrow>
        job_ScheduledAt (Job_IncrementRetries now now2 (j\<lparr>job_RetryCount := n\<rparr>)) = Some now2)"
proof
  assume j: "job_RetryDelay j = 30 * Second" "job_RetryCount j = 29"
  have s: "shl1_64 29 = 2 ^ 29" by (simp add: shl1_64_pow)
  show "\<exists>t. job_ScheduledAt (Job_IncrementRetries now now2 j) = Some t \<and> t < now2"
    using j s by (simp add: Job_IncrementRetries_def Let_def time_Add_def Second_def wrap64_def)
  show "\<forall>n. 64 \<le> n \<and> n < 2 ^ 62 \<longrightarrow>
      job_ScheduledAt (Job_IncrementRetries now now2 (j\<lparr>job_RetryCount := n\<rparr>)) = Some now2"
  proof (intro allI impI)
    fix n :: int
    assume n: "64 \<le> n \<and> n < 2 ^ 62"
    then have "wrap64 (n + 1) = n + 1" "wrap64 n = n" by (simp_all add: wrap64_id int64_def)
    then show "job_ScheduledAt (Job_IncrementRetries now now2 (j\<lparr>job_RetryCount := n\<rparr>)) = Some now2"
      using n j by (simp add: Job_IncrementRetries_def Let_def time_Add_def Second_def shl1_64_big wrap64_id int64_def)
  qed
qed

theorem retry_backoff_overflow_witness:
  "\<exists>j t. job_RetryDelay j = 30 * Second \<and> job_RetryCount j = 29 \<and>
     job_ScheduledAt (Job_IncrementRetries 0 100 j) = Some t \<and> t < 100"
proof -
  obtain j0 where "reachable_job j0" by (rule demo_job)
  define j where "j = j0\<lparr>job_RetryDelay := 30 * Second, job_RetryCount := 29\<rparr>"
  have f: "job_RetryDelay j = 30 * Second" "job_RetryCount j = 29" by (simp_all add: j_def)
  then show ?thesis using retry_backoff_overflow [of j 0 100] by blast
qed

text \<open>a job locked by a named worker is locked exactly until the lock expires, and
  \<open>Unlock\<close> ends the lock at once.\<close>

theorem job_lock_window:
  assumes "Job_Lock now w d j = Inr j'" and "w \<noteq> []"
  shows "(Job_IsLocked t j' \<longleftrightarrow> t < now + d) \<and> job_LockedBy j' = w \<and> \<not> Job_IsLocked t (Job_Unlock now' j')"
  using assms
  by (auto simp: Job_Lock_def Job_IsLocked_def Job_Unlock_def time_defs split: if_splits)

theorem job_lock_window_witness:
  "\<exists>j j'. Job_Lock 10 ''worker-1'' 5 j = Inr j' \<and> Job_IsLocked 14 j' \<and> \<not> Job_IsLocked 15 j'"
proof -
  obtain j :: Job where q: "job_Status j = StatusQueued" using reachable_with_status(2) by blast
  then obtain j' where j': "Job_Lock 10 ''worker-1'' 5 j = Inr j'" by (simp add: Job_Lock_def)
  have "Job_IsLocked 14 j'" and "\<not> Job_IsLocked 15 j'"
    using job_lock_window [OF j', of 14] job_lock_window [OF j', of 15] by simp_all
  with j' show ?thesis by blast
qed

end
