(* ===== verification/Go_Heap.thy ===== *)
theory Go_Heap
  imports Go_Prelude "HOL-Library.Multiset"
begin

text \<open>
  The package \<open>container/heap\<close> of the Go standard library, as far as the scheduler uses it:
  \<open>Init\<close>, \<open>Push\<close>, \<open>Pop\<close>, \<open>Remove\<close> and \<open>Fix\<close> over a value that implements \<open>heap.Interface\<close>.
  The interface's methods are arguments: \<open>lt h i j\<close> is \<open>h.Less(i, j)\<close>, \<open>sw h i j\<close> is \<open>h.Swap(i, j)\<close>.
  \<open>h.Len()\<close> is passed as a number, and \<open>h.Push\<close> and \<open>h.Pop\<close> are done by the caller.

  The locale \<open>heap_interface\<close> is the contract between the package and an implementation: a list
  view that \<open>Swap\<close> permutes, and a key that \<open>Less\<close> respects. It does not ask that \<open>Less\<close> is
  transitive; the heap order is stated on the keys.
\<close>

section \<open>The operations\<close>

function heap_up :: "('h \<Rightarrow> nat \<Rightarrow> nat \<Rightarrow> bool) \<Rightarrow> ('h \<Rightarrow> nat \<Rightarrow> nat \<Rightarrow> 'h) \<Rightarrow> 'h \<Rightarrow> nat \<Rightarrow> 'h" where
  "heap_up lt sw h j =
     (let i = (j - 1) div 2 in
      if i = j \<or> \<not> lt h j i then h else heap_up lt sw (sw h i j) i)"
  by pat_completeness auto
termination
  by (relation "measure (\<lambda>(lt, sw, h, j). j)") auto

function heap_down_loop ::
    "('h \<Rightarrow> nat \<Rightarrow> nat \<Rightarrow> bool) \<Rightarrow> ('h \<Rightarrow> nat \<Rightarrow> nat \<Rightarrow> 'h) \<Rightarrow> 'h \<Rightarrow> nat \<Rightarrow> nat \<Rightarrow> 'h \<times> nat" where
  "heap_down_loop lt sw h i n =
     (let j1 = 2 * i + 1 in
      if j1 \<ge> n then (h, i)
      else let j = (if j1 + 1 < n \<and> lt h (j1 + 1) j1 then j1 + 1 else j1) in
        if \<not> lt h j i then (h, i) else heap_down_loop lt sw (sw h i j) j n)"
  by pat_completeness auto
termination
  by (relation "measure (\<lambda>(lt, sw, h, i, n). n - i)") (auto simp: Let_def)

declare heap_up.simps [simp del] heap_down_loop.simps [simp del]

definition heap_down ::
    "('h \<Rightarrow> nat \<Rightarrow> nat \<Rightarrow> bool) \<Rightarrow> ('h \<Rightarrow> nat \<Rightarrow> nat \<Rightarrow> 'h) \<Rightarrow> 'h \<Rightarrow> nat \<Rightarrow> nat \<Rightarrow> 'h \<times> bool" where
  "heap_down lt sw h i0 n = (let (h', i) = heap_down_loop lt sw h i0 n in (h', i > i0))"

text \<open>\<open>if !down(h, i, n) { up(h, i) }\<close>: the body of \<open>Fix\<close> and the core of \<open>Remove\<close>.\<close>

definition heap_fix ::
    "('h \<Rightarrow> nat \<Rightarrow> nat \<Rightarrow> bool) \<Rightarrow> ('h \<Rightarrow> nat \<Rightarrow> nat \<Rightarrow> 'h) \<Rightarrow> 'h \<Rightarrow> nat \<Rightarrow> nat \<Rightarrow> 'h" where
  "heap_fix lt sw h i n = (let (h', moved) = heap_down lt sw h i n in if moved then h' else heap_up lt sw h' i)"

text \<open>\<open>Pop\<close> and \<open>Remove\<close> up to the final \<open>h.Pop()\<close>; \<open>n\<close> is \<open>h.Len() - 1\<close>.\<close>

definition heap_pop_prep ::
    "('h \<Rightarrow> nat \<Rightarrow> nat \<Rightarrow> bool) \<Rightarrow> ('h \<Rightarrow> nat \<Rightarrow> nat \<Rightarrow> 'h) \<Rightarrow> 'h \<Rightarrow> nat \<Rightarrow> 'h" where
  "heap_pop_prep lt sw h n = fst (heap_down lt sw (sw h 0 n) 0 n)"

definition heap_remove_prep ::
    "('h \<Rightarrow> nat \<Rightarrow> nat \<Rightarrow> bool) \<Rightarrow> ('h \<Rightarrow> nat \<Rightarrow> nat \<Rightarrow> 'h) \<Rightarrow> 'h \<Rightarrow> nat \<Rightarrow> nat \<Rightarrow> 'h" where
  "heap_remove_prep lt sw h i n = (if n \<noteq> i then heap_fix lt sw (sw h i n) i n else h)"

text \<open>\<open>Init\<close>: the loop \<open>for i := n/2 - 1; i >= 0; i--\<close>.\<close>

definition heap_init ::
    "('h \<Rightarrow> nat \<Rightarrow> nat \<Rightarrow> bool) \<Rightarrow> ('h \<Rightarrow> nat \<Rightarrow> nat \<Rightarrow> 'h) \<Rightarrow> 'h \<Rightarrow> nat \<Rightarrow> 'h" where
  "heap_init lt sw h n = fold (\<lambda>i h. fst (heap_down lt sw h i n)) (rev [0..<n div 2]) h"

definition swap_list :: "'a list \<Rightarrow> nat \<Rightarrow> nat \<Rightarrow> 'a list" where
  "swap_list xs i j = xs[i := xs ! j, j := xs ! i]"

section \<open>Heap order on keys\<close>

definition parent :: "nat \<Rightarrow> nat" where
  "parent c = (c - 1) div 2"

definition heap_ordered :: "(nat \<Rightarrow> 'k::linorder) \<Rightarrow> nat \<Rightarrow> bool" where
  "heap_ordered K n \<longleftrightarrow> (\<forall>c. 0 < c \<and> c < n \<longrightarrow> K (parent c) \<le> K c)"

text \<open>Every edge that does not touch \<open>i\<close> is in order, and so are the edges that jump over \<open>i\<close>.\<close>

definition hole :: "(nat \<Rightarrow> 'k::linorder) \<Rightarrow> nat \<Rightarrow> nat \<Rightarrow> bool" where
  "hole K n i \<longleftrightarrow>
     (\<forall>c. 0 < c \<and> c < n \<and> c \<noteq> i \<and> parent c \<noteq> i \<longrightarrow> K (parent c) \<le> K c) \<and>
     (\<forall>c. 0 < c \<and> c < n \<and> parent c = i \<and> 0 < i \<longrightarrow> K (parent i) \<le> K c)"

definition above_ok :: "(nat \<Rightarrow> 'k::linorder) \<Rightarrow> nat \<Rightarrow> bool" where
  "above_ok K i \<longleftrightarrow> (0 < i \<longrightarrow> K (parent i) \<le> K i)"

definition below_ok :: "(nat \<Rightarrow> 'k::linorder) \<Rightarrow> nat \<Rightarrow> nat \<Rightarrow> bool" where
  "below_ok K n i \<longleftrightarrow> (\<forall>c. 0 < c \<and> c < n \<and> parent c = i \<longrightarrow> K i \<le> K c)"

definition swap_fun :: "(nat \<Rightarrow> 'k) \<Rightarrow> nat \<Rightarrow> nat \<Rightarrow> nat \<Rightarrow> 'k" where
  "swap_fun K i j = K(i := K j, j := K i)"

lemma heap_orderedD: "heap_ordered K n \<Longrightarrow> 0 < c \<Longrightarrow> c < n \<Longrightarrow> K (parent c) \<le> K c"
  by (simp add: heap_ordered_def)

lemma heap_orderedI: "(\<And>c. 0 < c \<Longrightarrow> c < n \<Longrightarrow> K (parent c) \<le> K c) \<Longrightarrow> heap_ordered K n"
  by (simp add: heap_ordered_def)

lemma hole_edge: "hole K n i \<Longrightarrow> 0 < c \<Longrightarrow> c < n \<Longrightarrow> c \<noteq> i \<Longrightarrow> parent c \<noteq> i \<Longrightarrow> K (parent c) \<le> K c"
  by (simp add: hole_def)

lemma hole_over: "hole K n i \<Longrightarrow> 0 < c \<Longrightarrow> c < n \<Longrightarrow> parent c = i \<Longrightarrow> 0 < i \<Longrightarrow> K (parent i) \<le> K c"
  by (simp add: hole_def)

lemma holeI:
  assumes "\<And>c. 0 < c \<Longrightarrow> c < n \<Longrightarrow> c \<noteq> i \<Longrightarrow> parent c \<noteq> i \<Longrightarrow> K (parent c) \<le> K c"
    and "\<And>c. 0 < c \<Longrightarrow> c < n \<Longrightarrow> parent c = i \<Longrightarrow> 0 < i \<Longrightarrow> K (parent i) \<le> K c"
  shows "hole K n i"
  using assms by (simp add: hole_def)

lemma below_okD: "below_ok K n i \<Longrightarrow> 0 < c \<Longrightarrow> c < n \<Longrightarrow> parent c = i \<Longrightarrow> K i \<le> K c"
  by (simp add: below_ok_def)

lemma below_okI: "(\<And>c. 0 < c \<Longrightarrow> c < n \<Longrightarrow> parent c = i \<Longrightarrow> K i \<le> K c) \<Longrightarrow> below_ok K n i"
  by (simp add: below_ok_def)

lemma parent_iff: "0 < c \<Longrightarrow> parent c = i \<longleftrightarrow> c = 2 * i + 1 \<or> c = 2 * i + 2"
  unfolding parent_def by presburger

lemma parent_child [simp]: "parent (2 * i + 1) = i" "parent (2 * i + 2) = i" "parent (Suc (2 * i)) = i"
  "parent (Suc (Suc (2 * i))) = i"
  by (simp_all add: parent_def)

lemma parent_less: "0 < c \<Longrightarrow> parent c < c"
  unfolding parent_def by linarith

lemma heap_ordered_hole:
  assumes h: "heap_ordered K n"
  shows "hole K n i"
proof (rule holeI)
  fix c
  assume c: "0 < c" "c < n" "parent c = i" "0 < i"
  have "i < n" using c parent_less [of c] by simp
  then have "K (parent i) \<le> K i" using c(4) by (intro heap_orderedD [OF h])
  also have "K i \<le> K c" using heap_orderedD [OF h c(1,2)] c(3) by simp
  finally show "K (parent i) \<le> K c" .
qed (rule heap_orderedD [OF h])

lemma heap_ordered_below: "heap_ordered K n \<Longrightarrow> below_ok K n i"
  by (rule below_okI) (metis heap_orderedD)

lemma hole_heap_ordered:
  assumes "hole K n i" and "above_ok K i" and "below_ok K n i"
  shows "heap_ordered K n"
proof (rule heap_orderedI)
  fix c
  assume c: "0 < c" "c < n"
  consider "c = i" | "parent c = i" | "c \<noteq> i" "parent c \<noteq> i" by blast
  then show "K (parent c) \<le> K c"
  proof cases
    case 1
    then show ?thesis using assms(2) c by (simp add: above_ok_def)
  next
    case 2
    then show ?thesis using below_okD [OF assms(3) c] by simp
  next
    case 3
    then show ?thesis by (rule hole_edge [OF assms(1) c])
  qed
qed

text \<open>One step of \<open>down\<close>: the hole moves to the smaller child.\<close>

lemma down_step:
  assumes h: "hole K n i" and j: "j = 2 * i + 1 \<or> j = 2 * i + 2" "j < n"
    and small: "\<And>c. 0 < c \<Longrightarrow> c < n \<Longrightarrow> parent c = i \<Longrightarrow> K j \<le> K c"
    and le: "K j \<le> K i"
  shows "hole (swap_fun K i j) n j \<and> above_ok (swap_fun K i j) j"
proof
  have pj: "parent j = i" and ij: "i < j" using j by auto
  show "above_ok (swap_fun K i j) j"
    using pj ij le by (simp add: above_ok_def swap_fun_def)
  show "hole (swap_fun K i j) n j"
  proof (rule holeI)
    fix c
    assume c: "0 < c" "c < n" "c \<noteq> j" "parent c \<noteq> j"
    consider (child) "parent c = i" | (self) "c = i" "parent c \<noteq> i" | (other) "parent c \<noteq> i" "c \<noteq> i" by blast
    then show "swap_fun K i j (parent c) \<le> swap_fun K i j c"
    proof cases
      case child
      then have "K j \<le> K c" by (rule small [OF c(1,2)])
      moreover have "c \<noteq> i" using child parent_less [OF c(1)] by simp
      ultimately show ?thesis using child c(3) ij by (simp add: swap_fun_def)
    next
      case self
      then have "K (parent i) \<le> K j" using hole_over [OF h _ j(2) pj] ij c(1) by simp
      with self c(4) ij show ?thesis by (simp add: swap_fun_def)
    next
      case other
      then have "K (parent c) \<le> K c" using hole_edge [OF h c(1,2)] by simp
      with other c(3,4) show ?thesis by (simp add: swap_fun_def)
    qed
  next
    fix c
    assume c: "0 < c" "c < n" "parent c = j" "0 < j"
    have jc: "j < c" using c(3) parent_less [OF c(1)] by simp
    have "K (parent c) \<le> K c" using hole_edge [OF h c(1,2)] c(3) ij jc by simp
    then show "swap_fun K i j (parent j) \<le> swap_fun K i j c"
      using pj ij c(3) jc by (simp add: swap_fun_def)
  qed
qed

text \<open>One step of \<open>up\<close>: the hole moves to the parent.\<close>

lemma up_step:
  assumes h: "hole K n j" "below_ok K n j" and j: "0 < j" "j < n" and le: "K j \<le> K (parent j)"
  shows "hole (swap_fun K (parent j) j) n (parent j) \<and> below_ok (swap_fun K (parent j) j) n (parent j)"
proof -
  let ?i = "parent j" and ?K = "swap_fun K (parent j) j"
  have ij: "?i < j" using j(1) by (rule parent_less)
  have edge: "K (parent c) \<le> K c" if "0 < c" "c < n" "c \<noteq> j" for c
    using that hole_edge [OF h(1), of c] below_okD [OF h(2), of c] by (cases "parent c = j") auto
  have "?K ?i \<le> ?K c" if c: "0 < c" "c < n" "parent c = ?i" for c
  proof (cases "c = j")
    case True
    then show ?thesis using ij le by (simp add: swap_fun_def)
  next
    case False
    have "c \<noteq> ?i" using c(3) parent_less [OF c(1)] by simp
    with edge [OF c(1,2) False] False ij c(3) le show ?thesis by (simp add: swap_fun_def)
  qed
  then have below: "below_ok ?K n ?i" by (rule below_okI)
  have "hole ?K n ?i"
  proof (rule holeI)
    fix c
    assume c: "0 < c" "c < n" "c \<noteq> ?i" "parent c \<noteq> ?i"
    show "?K (parent c) \<le> ?K c"
    proof (cases "parent c = j")
      case True
      then have jc: "j < c" using parent_less [OF c(1)] by simp
      have "K ?i \<le> K c" using hole_over [OF h(1) c(1,2) True j(1)] .
      then show ?thesis using True c jc ij by (simp add: swap_fun_def)
    next
      case False
      have "c \<noteq> j" using c(4) by auto
      with edge [OF c(1,2)] False c(3,4) show ?thesis by (simp add: swap_fun_def)
    qed
  next
    fix c
    assume c: "0 < c" "c < n" "parent c = ?i" "0 < ?i"
    have pi: "parent ?i < ?i" using c(4) by (rule parent_less)
    have up: "K (parent ?i) \<le> K ?i" using edge [OF c(4)] ij j(2) by simp
    show "?K (parent ?i) \<le> ?K c"
    proof (cases "c = j")
      case True
      then show ?thesis using up pi ij by (simp add: swap_fun_def)
    next
      case False
      have "c \<noteq> ?i" using c(3) parent_less [OF c(1)] by simp
      moreover have "K ?i \<le> K c" using edge [OF c(1,2) False] c(3) by simp
      ultimately show ?thesis using up pi ij False by (simp add: swap_fun_def)
    qed
  qed
  with below show ?thesis by blast
qed


lemma heap_root_least: "heap_ordered K n \<Longrightarrow> c < n \<Longrightarrow> K 0 \<le> K c"
proof (induction c rule: less_induct)
  case (less c)
  show ?case
  proof (cases "c = 0")
    case False
    then have p: "parent c < c" by (simp add: parent_less)
    then have "K 0 \<le> K (parent c)" using less by simp
    also have "\<dots> \<le> K c" using less.prems False by (simp add: heap_orderedD)
    finally show ?thesis .
  qed simp
qed

lemma heap_ordered_mono: "heap_ordered K n \<Longrightarrow> m \<le> n \<Longrightarrow> heap_ordered K m"
  by (simp add: heap_ordered_def)

lemma heap_ordered_cong: "(\<And>c. c < n \<Longrightarrow> K' c = K c) \<Longrightarrow> heap_ordered K n \<Longrightarrow> heap_ordered K' n"
  using parent_less unfolding heap_ordered_def by (metis order.strict_trans)

lemma heap_ordered_0 [simp]: "heap_ordered K 0"
  by (simp add: heap_ordered_def)

lemma heap_ordered_snoc_hole: "heap_ordered K n \<Longrightarrow> hole K (Suc n) n \<and> below_ok K (Suc n) n"
proof
  assume h: "heap_ordered K n"
  have no: False if "0 < c" "c < Suc n" "parent c = n" for c
    using that parent_less [of c] by simp
  show "hole K (Suc n) n" using no by (intro holeI heap_orderedD [OF h]) auto
  show "below_ok K (Suc n) n" using no by (intro below_okI) blast
qed

text \<open>Replacing the key at one index leaves at most a hole there.\<close>

lemma heap_ordered_replace:
  assumes h: "heap_ordered K n" and eq: "\<And>c. c < n \<Longrightarrow> c \<noteq> i \<Longrightarrow> K' c = K c"
  shows "hole K' n i"
proof (rule holeI)
  fix c
  assume "0 < c" "c < n" "c \<noteq> i" "parent c \<noteq> i"
  then show "K' (parent c) \<le> K' c"
    using heap_orderedD [OF h] eq [of c] eq [of "parent c"] parent_less [of c] by simp
next
  fix c
  assume c: "0 < c" "c < n" "parent c = i" "0 < i"
  have i: "i < c" "parent i < i" using c parent_less by auto
  have "K (parent i) \<le> K c" using hole_over [OF heap_ordered_hole [OF h] c] .
  then show "K' (parent i) \<le> K' c" using eq [of c] eq [of "parent i"] i c(2) by simp
qed

lemma swap_list_keys:
  "i < length xs \<Longrightarrow> j < length xs \<Longrightarrow>
     (\<lambda>c. key (swap_list xs i j ! c)) = swap_fun (\<lambda>c. key (xs ! c)) i j"
  by (auto simp: swap_list_def swap_fun_def fun_eq_iff nth_list_update)

lemma swap_list_nth:
  "i < length xs \<Longrightarrow> j < length xs \<Longrightarrow>
     swap_list xs i j ! c = (if c = j then xs ! i else if c = i then xs ! j else xs ! c)"
  by (auto simp: swap_list_def nth_list_update)

lemma swap_list_mset [simp]: "i < length xs \<Longrightarrow> j < length xs \<Longrightarrow> mset (swap_list xs i j) = mset xs"
  unfolding swap_list_def by (cases "i = j") (simp_all add: mset_swap)

lemma swap_list_length [simp]: "length (swap_list xs i j) = length xs"
  by (simp add: swap_list_def)

section \<open>The contract and what follows from it\<close>

locale heap_interface =
  fixes lt :: "'h \<Rightarrow> nat \<Rightarrow> nat \<Rightarrow> bool"
    and sw :: "'h \<Rightarrow> nat \<Rightarrow> nat \<Rightarrow> 'h"
    and view :: "'h \<Rightarrow> 'a list"
    and ok :: "'a \<Rightarrow> bool"
    and key :: "'a \<Rightarrow> 'k::linorder"
  assumes view_sw: "i < length (view h) \<Longrightarrow> j < length (view h) \<Longrightarrow> view (sw h i j) = swap_list (view h) i j"
    and lt_key: "i < length (view h) \<Longrightarrow> j < length (view h) \<Longrightarrow> \<forall>x \<in> set (view h). ok x \<Longrightarrow>
      lt h i j \<Longrightarrow> key (view h ! i) \<le> key (view h ! j)"
    and not_lt_key: "i < length (view h) \<Longrightarrow> j < length (view h) \<Longrightarrow> \<forall>x \<in> set (view h). ok x \<Longrightarrow>
      \<not> lt h i j \<Longrightarrow> key (view h ! j) \<le> key (view h ! i)"
begin

definition keys :: "'h \<Rightarrow> nat \<Rightarrow> 'k" where
  "keys h = (\<lambda>c. key (view h ! c))"

definition oks :: "'h \<Rightarrow> bool" where
  "oks h \<longleftrightarrow> (\<forall>x \<in> set (view h). ok x)"

text \<open>The second state is a rearrangement of the first that leaves the indices from \<open>n\<close> on alone.\<close>

definition rearranged :: "nat \<Rightarrow> 'h \<Rightarrow> 'h \<Rightarrow> bool" where
  "rearranged n h h' \<longleftrightarrow> mset (view h') = mset (view h) \<and> (\<forall>c \<ge> n. view h' ! c = view h ! c)"

lemma rearranged_refl [simp]: "rearranged n h h"
  by (simp add: rearranged_def)

lemma rearranged_trans: "rearranged n h h' \<Longrightarrow> rearranged n h' h'' \<Longrightarrow> rearranged n h h''"
  by (simp add: rearranged_def)

lemma rearranged_length: "rearranged n h h' \<Longrightarrow> length (view h') = length (view h)"
  unfolding rearranged_def by (metis size_mset)

lemma rearranged_oks: "rearranged n h h' \<Longrightarrow> oks h \<Longrightarrow> oks h'"
  unfolding rearranged_def oks_def by (metis set_mset_mset)

lemma rearranged_sw:
  "i < n \<Longrightarrow> j < n \<Longrightarrow> n \<le> length (view h) \<Longrightarrow> rearranged n h (sw h i j)"
  by (simp add: rearranged_def view_sw swap_list_nth)

lemma keys_sw:
  "i < length (view h) \<Longrightarrow> j < length (view h) \<Longrightarrow> keys (sw h i j) = swap_fun (keys h) i j"
  unfolding keys_def by (simp add: view_sw swap_list_keys)

lemma lt_keys: "i < length (view h) \<Longrightarrow> j < length (view h) \<Longrightarrow> oks h \<Longrightarrow> lt h i j \<Longrightarrow> keys h i \<le> keys h j"
  unfolding keys_def oks_def by (rule lt_key)

lemma not_lt_keys: "i < length (view h) \<Longrightarrow> j < length (view h) \<Longrightarrow> oks h \<Longrightarrow> \<not> lt h i j \<Longrightarrow> keys h j \<le> keys h i"
  unfolding keys_def oks_def by (rule not_lt_key)

lemma down_loop_rearranged:
  "n \<le> length (view h) \<Longrightarrow> heap_down_loop lt sw h i n = (h', i') \<Longrightarrow> rearranged n h h' \<and> i \<le> i'"
proof (induction "n - i" arbitrary: h i rule: less_induct)
  case less
  let ?j = "if 2 * i + 2 < n \<and> lt h (2 * i + 2) (2 * i + 1) then 2 * i + 2 else 2 * i + 1"
  show ?case
  proof (cases "2 * i + 1 < n \<and> lt h ?j i")
    case False
    then have "(h', i') = (h, i)"
      using less.prems(2) by (subst (asm) heap_down_loop.simps) (auto simp: Let_def split: if_splits)
    then show ?thesis by simp
  next
    case True
    have j: "?j < n" "i < ?j" using True by auto
    have sw: "rearranged n h (sw h i ?j)" using j less.prems(1) by (intro rearranged_sw) auto
    have rec: "heap_down_loop lt sw (sw h i ?j) ?j n = (h', i')"
      using less.prems(2) True by (subst (asm) heap_down_loop.simps) (auto simp: Let_def split: if_splits)
    have "rearranged n (sw h i ?j) h' \<and> ?j \<le> i'"
      using j less.prems(1) rearranged_length [OF sw] by (intro less.hyps [OF _ _ rec]) auto
    with sw j show ?thesis by (blast intro: rearranged_trans order.strict_implies_order order_trans)
  qed
qed

lemma smaller_child:
  assumes n: "n \<le> length (view h)" "oks h" and i: "2 * i + 1 < n"
    and j: "j = (if 2 * i + 2 < n \<and> lt h (2 * i + 2) (2 * i + 1) then 2 * i + 2 else 2 * i + 1)"
    and c: "0 < c" "c < n" "parent c = i"
  shows "keys h j \<le> keys h c"
proof -
  have "c = 2 * i + 1 \<or> c = 2 * i + 2" using c parent_iff by blast
  then show ?thesis
    using c n i j lt_keys [of "2 * i + 2" h "2 * i + 1"] not_lt_keys [of "2 * i + 2" h "2 * i + 1"]
    by (auto split: if_splits)
qed

lemma down_loop_ordered:
  "n \<le> length (view h) \<Longrightarrow> oks h \<Longrightarrow> hole (keys h) n i \<Longrightarrow> heap_down_loop lt sw h i n = (h', i') \<Longrightarrow>
     (if i' = i then h' = h \<and> below_ok (keys h) n i else heap_ordered (keys h') n)"
proof (induction "n - i" arbitrary: h i rule: less_induct)
  case less
  let ?j = "if 2 * i + 2 < n \<and> lt h (2 * i + 2) (2 * i + 1) then 2 * i + 2 else 2 * i + 1"
  show ?case
  proof (cases "2 * i + 1 < n \<and> lt h ?j i")
    case False
    then have eq: "(h', i') = (h, i)"
      using less.prems(4) by (subst (asm) heap_down_loop.simps) (auto simp: Let_def split: if_splits)
    have "below_ok (keys h) n i"
    proof (rule below_okI)
      fix c
      assume c: "0 < c" "c < n" "parent c = i"
      then have i: "2 * i + 1 < n" using parent_iff [of c i] by auto
      with False have "\<not> lt h ?j i" by blast
      moreover have "?j < length (view h)" "i < length (view h)" using i less.prems(1) by auto
      ultimately have "keys h i \<le> keys h ?j" using less.prems(2) not_lt_keys by blast
      also have "\<dots> \<le> keys h c" using less.prems(1,2) i c by (intro smaller_child) auto
      finally show "keys h i \<le> keys h c" .
    qed
    with eq show ?thesis by simp
  next
    case True
    have j: "?j < n" "i < ?j" "?j = 2 * i + 1 \<or> ?j = 2 * i + 2" using True by auto
    have len: "i < length (view h)" "?j < length (view h)" using j less.prems(1) by auto
    have sw: "rearranged n h (sw h i ?j)" using j less.prems(1) by (intro rearranged_sw) auto
    note pre = rearranged_length [OF sw] rearranged_oks [OF sw less.prems(2)]
    have rec: "heap_down_loop lt sw (sw h i ?j) ?j n = (h', i')"
      using less.prems(4) True by (subst (asm) heap_down_loop.simps) (auto simp: Let_def split: if_splits)
    have le: "keys h ?j \<le> keys h i" using len less.prems(2) True by (intro lt_keys) auto
    have "hole (keys (sw h i ?j)) n ?j \<and> above_ok (keys (sw h i ?j)) ?j"
      unfolding keys_sw [OF len]
      using True less.prems(1,2)
      by (intro down_step [OF less.prems(3) j(3,1) _ le] smaller_child) auto
    moreover have "if i' = ?j then h' = sw h i ?j \<and> below_ok (keys (sw h i ?j)) n ?j else heap_ordered (keys h') n"
      using j less.prems(1) pre calculation by (intro less.hyps [OF _ _ _ _ rec]) auto
    ultimately have "heap_ordered (keys h') n"
      by (auto split: if_splits intro: hole_heap_ordered)
    moreover have "i' \<noteq> i" using down_loop_rearranged [OF _ rec] pre less.prems(1) j by fastforce
    ultimately show ?thesis by simp
  qed
qed

lemma up_ordered:
  "j < n \<Longrightarrow> n \<le> length (view h) \<Longrightarrow> oks h \<Longrightarrow> hole (keys h) n j \<Longrightarrow> below_ok (keys h) n j \<Longrightarrow>
     heap_ordered (keys (heap_up lt sw h j)) n \<and> rearranged n h (heap_up lt sw h j)"
proof (induction j arbitrary: h rule: less_induct)
  case (less j)
  have len: "j < length (view h)" using less.prems by simp
  show ?case
  proof (cases "parent j = j \<or> \<not> lt h j (parent j)")
    case True
    then have up: "heap_up lt sw h j = h"
      by (subst heap_up.simps) (simp add: parent_def Let_def)
    have "above_ok (keys h) j"
      using True len less.prems(3) not_lt_keys [of j h "parent j"] parent_less [of j]
      by (cases "j = 0") (auto simp: above_ok_def)
    with up less.prems show ?thesis by (auto intro: hole_heap_ordered)
  next
    case False
    have j: "0 < j" using False by (cases "j = 0") (auto simp: parent_def)
    then have p: "parent j < j" by (rule parent_less)
    have up: "heap_up lt sw h j = heap_up lt sw (sw h (parent j) j) (parent j)"
      using False by (subst heap_up.simps) (simp add: parent_def Let_def)
    have plen: "parent j < length (view h)" using p len by simp
    have sw: "rearranged n h (sw h (parent j) j)" using p less.prems by (intro rearranged_sw) auto
    have le: "keys h j \<le> keys h (parent j)" using False len plen less.prems(3) by (intro lt_keys) auto
    have "hole (keys (sw h (parent j) j)) n (parent j) \<and> below_ok (keys (sw h (parent j) j)) n (parent j)"
      unfolding keys_sw [OF plen len] by (rule up_step [OF less.prems(4,5) j less.prems(1) le])
    then have "heap_ordered (keys (heap_up lt sw h j)) n \<and> rearranged n (sw h (parent j) j) (heap_up lt sw h j)"
      unfolding up
      using p less.prems rearranged_length [OF sw] rearranged_oks [OF sw less.prems(3)]
      by (intro less.IH) auto
    with sw show ?thesis by (blast intro: rearranged_trans)
  qed
qed

lemma fix_ordered:
  assumes "i < n" "n \<le> length (view h)" "oks h" "hole (keys h) n i"
  shows "heap_ordered (keys (heap_fix lt sw h i n)) n \<and> rearranged n h (heap_fix lt sw h i n)"
proof -
  obtain h' i' where loop: "heap_down_loop lt sw h i n = (h', i')" by fastforce
  have r: "rearranged n h h'" "i \<le> i'" using down_loop_rearranged [OF assms(2) loop] by auto
  have o: "if i' = i then h' = h \<and> below_ok (keys h) n i else heap_ordered (keys h') n"
    using down_loop_ordered [OF assms(2-4) loop] .
  show ?thesis
  proof (cases "i' = i")
    case True
    then have "heap_fix lt sw h i n = heap_up lt sw h i"
      using loop o by (simp add: heap_fix_def heap_down_def)
    then show ?thesis using up_ordered [OF assms(1-4)] o True by simp
  next
    case False
    then have "heap_fix lt sw h i n = h'" using loop r by (simp add: heap_fix_def heap_down_def)
    with False o r show ?thesis by simp
  qed
qed

lemma push_ordered:
  assumes "length (view h) = Suc n" "oks h" "heap_ordered (keys h) n"
  shows "heap_ordered (keys (heap_up lt sw h n)) (Suc n) \<and> rearranged (Suc n) h (heap_up lt sw h n)"
  using assms heap_ordered_snoc_hole [OF assms(3)] by (intro up_ordered) auto

lemma pop_ordered:
  assumes len: "length (view h) = Suc n" and o: "oks h" and h: "heap_ordered (keys h) (Suc n)"
  shows "heap_ordered (keys (heap_pop_prep lt sw h n)) n \<and>
    mset (view (heap_pop_prep lt sw h n)) = mset (view h) \<and>
    view (heap_pop_prep lt sw h n) ! n = view h ! 0"
proof -
  let ?s = "sw h 0 n"
  have ss: "rearranged (Suc n) h ?s" using len by (intro rearranged_sw) auto
  have slen: "n \<le> length (view ?s)" using rearranged_length [OF ss] len by simp
  have so: "oks ?s" by (rule rearranged_oks [OF ss o])
  have v: "view ?s = swap_list (view h) 0 n" using len by (simp add: view_sw)
  have hole: "hole (keys ?s) n 0"
    using heap_ordered_mono [OF h, of n] len v
    by (intro heap_ordered_replace [of "keys h"]) (auto simp: keys_def swap_list_nth)
  obtain h' i' where loop: "heap_down_loop lt sw ?s 0 n = (h', i')" by fastforce
  have h': "heap_pop_prep lt sw h n = h'" using loop by (simp add: heap_pop_prep_def heap_down_def)
  have r: "rearranged n ?s h'" using down_loop_rearranged [OF slen loop] by blast
  have "heap_ordered (keys h') n"
    using down_loop_ordered [OF slen so hole loop] hole
    by (auto split: if_splits intro!: hole_heap_ordered simp: above_ok_def)
  moreover have "view h' ! n = view h ! 0"
    using r v len by (auto simp: rearranged_def swap_list_nth)
  moreover have "mset (view h') = mset (view h)" using r ss by (simp add: rearranged_def)
  ultimately show ?thesis using h' by simp
qed

lemma remove_ordered:
  assumes len: "length (view h) = Suc n" and o: "oks h" and h: "heap_ordered (keys h) (Suc n)" and i: "i \<le> n"
  shows "heap_ordered (keys (heap_remove_prep lt sw h i n)) n \<and>
    mset (view (heap_remove_prep lt sw h i n)) = mset (view h) \<and>
    view (heap_remove_prep lt sw h i n) ! n = view h ! i"
proof (cases "n = i")
  case True
  then show ?thesis using heap_ordered_mono [OF h] by (simp add: heap_remove_prep_def)
next
  case False
  let ?s = "sw h i n"
  have ss: "rearranged (Suc n) h ?s" using len i by (intro rearranged_sw) auto
  have slen: "n \<le> length (view ?s)" using rearranged_length [OF ss] len by simp
  have so: "oks ?s" by (rule rearranged_oks [OF ss o])
  have v: "view ?s = swap_list (view h) i n" using len i by (simp add: view_sw)
  have hole: "hole (keys ?s) n i"
    using heap_ordered_mono [OF h, of n] len v i
    by (intro heap_ordered_replace [of "keys h"]) (auto simp: keys_def swap_list_nth)
  have eq: "heap_remove_prep lt sw h i n = heap_fix lt sw ?s i n" using False by (simp add: heap_remove_prep_def)
  have f: "heap_ordered (keys (heap_fix lt sw ?s i n)) n" "rearranged n ?s (heap_fix lt sw ?s i n)"
    using fix_ordered [OF _ slen so hole] False i by auto
  moreover have "view (heap_fix lt sw ?s i n) ! n = view h ! i"
    using f(2) v len i by (auto simp: rearranged_def swap_list_nth)
  moreover have "mset (view (heap_fix lt sw ?s i n)) = mset (view h)"
    using f(2) ss by (simp add: rearranged_def)
  ultimately show ?thesis unfolding eq by simp
qed

lemma root_least: "heap_ordered (keys h) (length (view h)) \<Longrightarrow> x \<in> set (view h) \<Longrightarrow> key (view h ! 0) \<le> key x"
  using heap_root_least [of "keys h"] by (auto simp: keys_def in_set_conv_nth)

end

end
