(* ===== verification/Priority_Queue.thy ===== *)
theory Priority_Queue
  imports Job_Types Go_Heap "HOL-Library.Product_Lexorder"
begin

text \<open>
  The in-memory priority queue of \<open>pkg/domain/job/scheduler/priority_queue.go\<close>: the heap of job
  items (\<open>jobHeap\<close>, an implementation of \<open>heap.Interface\<close>) and the index from job IDs to heap
  positions that the queue keeps beside it.

  Items are values here, so \<open>item.index\<close> after \<open>heap.Push\<close> is read from the item of the heap that
  carries the pushed job's ID. The mutex and the log lines have no counterpart: every operation
  runs under the queue's lock.

  The two interpretations of \<open>heap_interface\<close> say what \<open>Less\<close> sorts by: always the priority, and
  the pair of priority and queueing time when every job has a queueing time.
\<close>

section \<open>The heap of items\<close>

record jobItem =
  item_job :: Job
  item_priority :: JobPriority
  item_index :: int

type_synonym jobHeap = "jobItem list"

definition jobHeap_Less :: "jobHeap \<Rightarrow> nat \<Rightarrow> nat \<Rightarrow> bool" where
  "jobHeap_Less h i j =
     (if item_priority (h ! i) \<noteq> item_priority (h ! j)
      then item_priority (h ! i) > item_priority (h ! j)
      else case (job_QueuedAt (item_job (h ! i)), job_QueuedAt (item_job (h ! j))) of
             (Some qi, Some qj) \<Rightarrow> time_Before qi qj
           | _ \<Rightarrow> time_Before (job_CreatedAt (item_job (h ! i))) (job_CreatedAt (item_job (h ! j))))"

definition jobHeap_Swap :: "jobHeap \<Rightarrow> nat \<Rightarrow> nat \<Rightarrow> jobHeap" where
  "jobHeap_Swap h i j =
     (let h1 = swap_list h i j;
          h2 = h1[i := (h1 ! i)\<lparr>item_index := int i\<rparr>]
      in h2[j := (h2 ! j)\<lparr>item_index := int j\<rparr>])"

definition jobHeap_Push :: "jobHeap \<Rightarrow> jobItem \<Rightarrow> jobHeap" where
  "jobHeap_Push h item = h @ [item\<lparr>item_index := int (length h)\<rparr>]"

definition jobHeap_Pop :: "jobHeap \<Rightarrow> jobItem \<times> jobHeap" where
  "jobHeap_Pop h = ((last h)\<lparr>item_index := -1\<rparr>, butlast h)"

text \<open>The calls \<open>heap.Push\<close>, \<open>heap.Pop\<close>, \<open>heap.Remove\<close> and \<open>heap.Fix\<close> on a job heap.\<close>

definition heap_Push_job :: "jobHeap \<Rightarrow> jobItem \<Rightarrow> jobHeap" where
  "heap_Push_job h item = heap_up jobHeap_Less jobHeap_Swap (jobHeap_Push h item) (length h)"

definition heap_Pop_job :: "jobHeap \<Rightarrow> jobItem \<times> jobHeap" where
  "heap_Pop_job h = jobHeap_Pop (heap_pop_prep jobHeap_Less jobHeap_Swap h (length h - 1))"

definition heap_Remove_job :: "jobHeap \<Rightarrow> nat \<Rightarrow> jobItem \<times> jobHeap" where
  "heap_Remove_job h i = jobHeap_Pop (heap_remove_prep jobHeap_Less jobHeap_Swap h i (length h - 1))"

definition heap_Fix_job :: "jobHeap \<Rightarrow> nat \<Rightarrow> jobHeap" where
  "heap_Fix_job h i = heap_fix jobHeap_Less jobHeap_Swap h i (length h)"

section \<open>The queue\<close>

record priorityQueue =
  pq_items :: jobHeap
  pq_index :: "string \<rightharpoonup> int"

definition NewPriorityQueue :: priorityQueue where
  "NewPriorityQueue = \<lparr>pq_items = heap_init jobHeap_Less jobHeap_Swap [] 0, pq_index = Map.empty\<rparr>"

text \<open>\<open>item.index\<close> of the item that carries the job ID, after the heap operation.\<close>

definition item_index_of :: "jobHeap \<Rightarrow> string \<Rightarrow> int" where
  "item_index_of h jid = (case find (\<lambda>it. job_ID (item_job it) = jid) h of None \<Rightarrow> -1 | Some it \<Rightarrow> item_index it)"

definition pq_Push :: "Job option \<Rightarrow> priorityQueue \<Rightarrow> priorityQueue result" where
  "pq_Push jo pq = (case jo of
       None \<Rightarrow> Inl (ErrorString ''job cannot be nil'')
     | Some j \<Rightarrow>
         (case pq_index pq (job_ID j) of
            Some _ \<Rightarrow> Inl (ErrorString (''job '' @ job_ID j @ '' already in queue''))
          | None \<Rightarrow>
              let h = heap_Push_job (pq_items pq) \<lparr>item_job = j, item_priority = job_Priority j, item_index = -1\<rparr>
              in Inr (pq\<lparr>pq_items := h, pq_index := (pq_index pq)(job_ID j \<mapsto> item_index_of h (job_ID j))\<rparr>)))"

definition pq_Size :: "priorityQueue \<Rightarrow> nat" where
  "pq_Size pq = length (pq_items pq)"

definition pq_Pop :: "priorityQueue \<Rightarrow> (Job \<times> priorityQueue) result" where
  "pq_Pop pq =
     (if pq_Size pq = 0 then Inl (ErrorString ''queue is empty'')
      else let (item, h) = heap_Pop_job (pq_items pq)
           in Inr (item_job item, pq\<lparr>pq_items := h, pq_index := (pq_index pq)(job_ID (item_job item) := None)\<rparr>))"

definition pq_Peek :: "priorityQueue \<Rightarrow> Job result" where
  "pq_Peek pq =
     (if pq_Size pq = 0 then Inl (ErrorString ''queue is empty'') else Inr (item_job (pq_items pq ! 0)))"

fun rebuild_from :: "nat \<Rightarrow> jobHeap \<Rightarrow> (string \<rightharpoonup> int) \<Rightarrow> (string \<rightharpoonup> int)" where
  "rebuild_from i [] m = m"
| "rebuild_from i (it # h) m = rebuild_from (Suc i) h (m(job_ID (item_job it) \<mapsto> int i))"

definition pq_rebuildIndex :: "priorityQueue \<Rightarrow> priorityQueue" where
  "pq_rebuildIndex pq = pq\<lparr>pq_index := rebuild_from 0 (pq_items pq) Map.empty\<rparr>"

text \<open>An index outside the heap makes \<open>Swap\<close> and \<open>(*pq.items)[idx]\<close> panic.\<close>

definition in_range :: "int \<Rightarrow> 'a list \<Rightarrow> bool" where
  "in_range i xs \<longleftrightarrow> 0 \<le> i \<and> i < int (length xs)"

definition pq_Remove :: "string \<Rightarrow> priorityQueue \<Rightarrow> priorityQueue result go" where
  "pq_Remove jid pq = (case pq_index pq jid of
       None \<Rightarrow> Ret (Inl (ErrorString (''job '' @ jid @ '' not found in queue'')))
     | Some idx \<Rightarrow>
         if \<not> in_range idx (pq_items pq) then Panic
         else let (_, h) = heap_Remove_job (pq_items pq) (nat idx)
              in Ret (Inr (pq_rebuildIndex (pq\<lparr>pq_items := h, pq_index := (pq_index pq)(jid := None)\<rparr>))))"

definition set_item_priority :: "JobPriority \<Rightarrow> jobItem \<Rightarrow> jobItem" where
  "set_item_priority p it = it\<lparr>item_priority := p, item_job := (item_job it)\<lparr>job_Priority := p\<rparr>\<rparr>"

definition pq_Update :: "string \<Rightarrow> JobPriority \<Rightarrow> priorityQueue \<Rightarrow> priorityQueue result go" where
  "pq_Update jid p pq = (case pq_index pq jid of
       None \<Rightarrow> Ret (Inl (ErrorString (''job '' @ jid @ '' not found in queue'')))
     | Some idx \<Rightarrow>
         if \<not> in_range idx (pq_items pq) then Panic
         else let h = (pq_items pq)[nat idx := set_item_priority p (pq_items pq ! nat idx)]
              in Ret (Inr (pq_rebuildIndex (pq\<lparr>pq_items := heap_Fix_job h (nat idx)\<rparr>))))"

definition pq_Clear :: "priorityQueue \<Rightarrow> priorityQueue" where
  "pq_Clear pq = pq\<lparr>pq_items := heap_init jobHeap_Less jobHeap_Swap [] 0, pq_index := Map.empty\<rparr>"

definition pq_Contains :: "string \<Rightarrow> priorityQueue \<Rightarrow> bool" where
  "pq_Contains jid pq \<longleftrightarrow> pq_index pq jid \<noteq> None"

definition pq_Jobs :: "priorityQueue \<Rightarrow> Job list" where
  "pq_Jobs pq = map item_job (pq_items pq)"

section \<open>What the heap sorts by\<close>

definition item_core :: "jobItem \<Rightarrow> Job \<times> JobPriority" where
  "item_core it = (item_job it, item_priority it)"

abbreviation cores :: "jobHeap \<Rightarrow> (Job \<times> JobPriority) list" where
  "cores \<equiv> map item_core"

definition prio_key :: "Job \<times> JobPriority \<Rightarrow> int" where
  "prio_key x = - snd x"

definition fifo_key :: "Job \<times> JobPriority \<Rightarrow> int \<times> int" where
  "fifo_key x = (- snd x, the (job_QueuedAt (fst x)))"

definition has_queue_time :: "Job \<times> JobPriority \<Rightarrow> bool" where
  "has_queue_time x \<longleftrightarrow> job_QueuedAt (fst x) \<noteq> None"

lemma cores_Swap:
  "i < length h \<Longrightarrow> j < length h \<Longrightarrow> cores (jobHeap_Swap h i j) = swap_list (cores h) i j"
  by (intro nth_equalityI)
    (auto simp: jobHeap_Swap_def swap_list_def Let_def nth_list_update item_core_def)

text \<open>The states of a queue whose pushed jobs all satisfy \<open>P\<close>.\<close>

inductive pq_reach :: "(Job \<Rightarrow> bool) \<Rightarrow> priorityQueue \<Rightarrow> bool" for P where
  new: "pq_reach P NewPriorityQueue"
| push: "pq_reach P q \<Longrightarrow> P j \<Longrightarrow> pq_Push (Some j) q = Inr q' \<Longrightarrow> pq_reach P q'"
| pop: "pq_reach P q \<Longrightarrow> pq_Pop q = Inr (j, q') \<Longrightarrow> pq_reach P q'"
| remove: "pq_reach P q \<Longrightarrow> pq_Remove jid q = Ret (Inr q') \<Longrightarrow> pq_reach P q'"
| update: "pq_reach P q \<Longrightarrow> pq_Update jid p q = Ret (Inr q') \<Longrightarrow> pq_reach P q'"
| clear: "pq_reach P q \<Longrightarrow> pq_reach P (pq_Clear q)"

text \<open>The jobs that \<open>n\<close> calls of \<open>Pop\<close> return, in order.\<close>

fun pq_drain :: "nat \<Rightarrow> priorityQueue \<Rightarrow> Job list" where
  "pq_drain 0 pq = []"
| "pq_drain (Suc n) pq = (case pq_Pop pq of Inl _ \<Rightarrow> [] | Inr (j, pq') \<Rightarrow> j # pq_drain n pq')"

lemma item_core_index [simp]: "item_core (it\<lparr>item_index := i\<rparr>) = item_core it"
  by (simp add: item_core_def)

lemma jobHeap_Push_cores [simp]: "cores (jobHeap_Push h it) = cores h @ [item_core it]"
  by (simp add: jobHeap_Push_def)

lemma butlast_snoc_parts:
  "length xs = Suc n \<Longrightarrow> xs ! n = y \<Longrightarrow> mset xs = add_mset y (mset (butlast xs)) \<and> last xs = y"
  by (cases xs rule: rev_cases) (auto simp: nth_append)

lemma pq_items_fresh [simp]: "pq_items NewPriorityQueue = []" "pq_items (pq_Clear q) = []"
  "pq_index NewPriorityQueue = Map.empty" "pq_index (pq_Clear q) = Map.empty"
  by (simp_all add: NewPriorityQueue_def pq_Clear_def heap_init_def)

lemma pq_items_rebuild [simp]: "pq_items (pq_rebuildIndex q) = pq_items q"
  by (simp add: pq_rebuildIndex_def)

definition new_item :: "Job \<Rightarrow> jobItem" where
  "new_item j = \<lparr>item_job = j, item_priority = job_Priority j, item_index = -1\<rparr>"

lemma item_core_new [simp]: "item_core (new_item j) = (j, job_Priority j)"
  by (simp add: new_item_def item_core_def)

lemma item_core_set [simp]:
  "item_core (set_item_priority p it) = ((fst (item_core it))\<lparr>job_Priority := p\<rparr>, p)"
  by (simp add: set_item_priority_def item_core_def)

definition prio_ok :: "jobHeap \<Rightarrow> bool" where
  "prio_ok h \<longleftrightarrow> (\<forall>x \<in> set (cores h). snd x = job_Priority (fst x))"

lemma cores_add: "mset (cores h') = add_mset c (mset (cores h)) \<Longrightarrow> set (cores h') = insert c (set (cores h))"
  by (metis set_mset_add_mset_insert set_mset_mset)

lemma prio_ok_add:
  "mset (cores h') = add_mset c (mset (cores h)) \<Longrightarrow> prio_ok h' \<longleftrightarrow> snd c = job_Priority (fst c) \<and> prio_ok h"
  unfolding prio_ok_def by (simp only: cores_add ball_simps)

lemma pq_Jobs_cores: "pq_Jobs q = map fst (cores (pq_items q))"
  by (simp add: pq_Jobs_def item_core_def)

lemma pq_Push_ok:
  "pq_Push (Some j) q = Inr q' \<longleftrightarrow> pq_index q (job_ID j) = None \<and>
     q' = q\<lparr>pq_items := heap_Push_job (pq_items q) (new_item j),
            pq_index := (pq_index q)(job_ID j \<mapsto> item_index_of (heap_Push_job (pq_items q) (new_item j)) (job_ID j))\<rparr>"
  by (auto simp: pq_Push_def new_item_def Let_def split: option.splits)

lemma pq_Pop_ok:
  "pq_Pop q = Inr (j, q') \<longleftrightarrow> pq_items q \<noteq> [] \<and>
     (\<exists>it h. heap_Pop_job (pq_items q) = (it, h) \<and> j = item_job it \<and>
       q' = q\<lparr>pq_items := h, pq_index := (pq_index q)(job_ID j := None)\<rparr>)"
  by (auto simp: pq_Pop_def pq_Size_def split: prod.splits)

lemma pq_Remove_ok:
  "pq_Remove jid q = Ret (Inr q') \<longleftrightarrow> (\<exists>i it h. pq_index q jid = Some (int i) \<and> i < length (pq_items q) \<and>
     heap_Remove_job (pq_items q) i = (it, h) \<and>
     q' = pq_rebuildIndex (q\<lparr>pq_items := h, pq_index := (pq_index q)(jid := None)\<rparr>))"
  by (auto simp: pq_Remove_def in_range_def nat_less_iff split: option.splits prod.splits
      intro: exI [of _ "nat i" for i])

lemma pq_Update_ok:
  "pq_Update jid p q = Ret (Inr q') \<longleftrightarrow> (\<exists>i. pq_index q jid = Some (int i) \<and> i < length (pq_items q) \<and>
     q' = pq_rebuildIndex (q\<lparr>pq_items := heap_Fix_job ((pq_items q)[i := set_item_priority p (pq_items q ! i)]) i\<rparr>))"
  by (auto simp: pq_Update_def in_range_def nat_less_iff Let_def split: option.splits
      intro: exI [of _ "nat i" for i])

locale job_heap_order = heap_interface jobHeap_Less jobHeap_Swap cores ok key
  for ok :: "Job \<times> JobPriority \<Rightarrow> bool" and key :: "Job \<times> JobPriority \<Rightarrow> 'k::linorder" +
  assumes ok_update: "ok (j, p) \<Longrightarrow> ok (j\<lparr>job_Priority := q\<rparr>, q)"
begin

definition ordered :: "jobHeap \<Rightarrow> bool" where
  "ordered h \<longleftrightarrow> oks h \<and> heap_ordered (keys h) (length h)"

lemma ordered_Nil [simp]: "ordered []"
  by (simp add: ordered_def oks_def)

lemma oks_mset: "mset (cores h) = M \<Longrightarrow> oks h \<longleftrightarrow> (\<forall>x \<in># M. ok x)"
  unfolding oks_def by (metis set_mset_mset)

lemma Push_job:
  assumes "ordered h" and "ok (item_core it)"
  shows "ordered (heap_Push_job h it) \<and> mset (cores (heap_Push_job h it)) = add_mset (item_core it) (mset (cores h))"
proof -
  let ?h = "jobHeap_Push h it"
  have len: "length (cores ?h) = Suc (length h)" by simp
  have o: "oks ?h" using assms by (auto simp: ordered_def oks_def)
  have "heap_ordered (keys ?h) (length h)"
    by (rule heap_ordered_cong [of _ _ "keys h"]) (use assms(1) in \<open>auto simp: ordered_def keys_def nth_append\<close>)
  then have p: "heap_ordered (keys (heap_Push_job h it)) (Suc (length h))"
      "rearranged (Suc (length h)) ?h (heap_Push_job h it)"
    using push_ordered [OF len o] by (simp_all add: heap_Push_job_def)
  then have m: "mset (cores (heap_Push_job h it)) = add_mset (item_core it) (mset (cores h))"
    by (simp add: rearranged_def)
  have "length (heap_Push_job h it) = Suc (length h)" using rearranged_length [OF p(2)] by simp
  then show ?thesis using p m rearranged_oks [OF p(2) o] by (simp add: ordered_def)
qed

text \<open>Cutting off the last element of a heap that is ordered up to it.\<close>

lemma cut_last:
  assumes len: "length h = Suc n" and o: "oks h" and k: "heap_ordered (keys h) n"
    and y: "cores h ! n = y" and p: "jobHeap_Pop h = (it, h')"
  shows "ordered h' \<and> item_core it = y \<and> mset (cores h) = add_mset y (mset (cores h'))"
proof -
  have p': "h' = butlast h" "it = (last h)\<lparr>item_index := -1\<rparr>" using p by (simp_all add: jobHeap_Pop_def)
  have parts: "mset (cores h) = add_mset y (mset (butlast (cores h)))" "last (cores h) = y"
    using butlast_snoc_parts [of "cores h"] len y by auto
  have "item_core it = y" using parts(2) p' len by (cases h rule: rev_cases) auto
  moreover have "mset (cores h) = add_mset y (mset (cores h'))" using parts(1) p' by (simp add: map_butlast)
  moreover have "oks h'" using o p' by (auto simp: oks_def dest: in_set_butlastD)
  moreover have "heap_ordered (keys h') n"
    by (rule heap_ordered_cong [OF _ k]) (use p' len in \<open>simp add: keys_def nth_butlast\<close>)
  ultimately show ?thesis using p' len by (simp add: ordered_def)
qed

lemma Pop_job:
  assumes "ordered h" and "h \<noteq> []" and "heap_Pop_job h = (it, h')"
  shows "ordered h' \<and> item_core it = cores h ! 0 \<and> mset (cores h) = add_mset (item_core it) (mset (cores h')) \<and>
    (\<forall>x \<in> set (cores h). key (item_core it) \<le> key x)"
proof -
  obtain n where n: "length (cores h) = Suc n" using assms(2) by (cases h) auto
  have h: "oks h" "heap_ordered (keys h) (Suc n)" using assms(1) n by (auto simp: ordered_def)
  let ?p = "heap_pop_prep jobHeap_Less jobHeap_Swap h n"
  have p: "heap_ordered (keys ?p) n" "mset (cores ?p) = mset (cores h)" "cores ?p ! n = cores h ! 0"
    using pop_ordered [OF n h] by auto
  have len: "length ?p = Suc n" using arg_cong [OF p(2), of size] n by simp
  have "oks ?p" using oks_mset [OF p(2)] oks_mset [OF refl, of h] h(1) by simp
  from cut_last [OF len this p(1) refl]
  have "ordered h' \<and> item_core it = cores ?p ! n \<and> mset (cores ?p) = add_mset (cores ?p ! n) (mset (cores h'))"
    using assms(3) n by (simp add: heap_Pop_job_def)
  then show ?thesis using p root_least [of h] h n by simp
qed

lemma Remove_job:
  assumes "ordered h" and "i < length h" and "heap_Remove_job h i = (it, h')"
  shows "ordered h' \<and> item_core it = cores h ! i \<and> mset (cores h) = add_mset (item_core it) (mset (cores h'))"
proof -
  obtain n where n: "length (cores h) = Suc n" "i \<le> n" using assms(2) by (cases h) auto
  have h: "oks h" "heap_ordered (keys h) (Suc n)" using assms(1) n by (auto simp: ordered_def)
  let ?p = "heap_remove_prep jobHeap_Less jobHeap_Swap h i n"
  have p: "heap_ordered (keys ?p) n" "mset (cores ?p) = mset (cores h)" "cores ?p ! n = cores h ! i"
    using remove_ordered [OF n(1) h n(2)] by auto
  have len: "length ?p = Suc n" using arg_cong [OF p(2), of size] n by simp
  have "oks ?p" using oks_mset [OF p(2)] oks_mset [OF refl, of h] h(1) by simp
  from cut_last [OF len this p(1) refl]
  have "ordered h' \<and> item_core it = cores ?p ! n \<and> mset (cores ?p) = add_mset (cores ?p ! n) (mset (cores h'))"
    using assms(3) n by (simp add: heap_Remove_job_def)
  then show ?thesis using p by simp
qed

lemma Fix_job:
  assumes h: "ordered h" and i: "i < length h" and o: "ok (item_core it)"
  shows "ordered (heap_Fix_job (h[i := it]) i) \<and> mset (cores (heap_Fix_job (h[i := it]) i)) = mset (cores (h[i := it]))"
proof -
  let ?h = "h[i := it]"
  have oks: "oks ?h" using h o by (auto simp: ordered_def oks_def dest!: set_update_subset_insert [THEN subsetD])
  have "hole (keys ?h) (length h) i"
    using h by (intro heap_ordered_replace [of "keys h"]) (auto simp: ordered_def keys_def nth_list_update)
  then have f: "heap_ordered (keys (heap_Fix_job ?h i)) (length h)" "rearranged (length h) ?h (heap_Fix_job ?h i)"
    using fix_ordered [OF i _ oks] by (simp_all add: heap_Fix_job_def)
  then show ?thesis
    using rearranged_length [OF f(2)] rearranged_oks [OF f(2) oks] by (simp add: ordered_def rearranged_def)
qed

lemma reach_ordered: "pq_reach (\<lambda>j. ok (j, job_Priority j)) q \<Longrightarrow> ordered (pq_items q)"
proof (induction rule: pq_reach.induct)
  case (push q j q')
  then show ?case using Push_job [of "pq_items q" "new_item j"] by (auto simp: pq_Push_ok)
next
  case (pop q j q')
  then show ?case using Pop_job [of "pq_items q"] by (auto simp: pq_Pop_ok)
next
  case (remove q jid q')
  then show ?case using Remove_job [of "pq_items q"] by (auto simp: pq_Remove_ok)
next
  case (update q jid p q')
  have "ok (item_core (set_item_priority p (pq_items q ! i)))" if "i < length (pq_items q)" for i
    using update.IH that ok_update [of "fst (item_core (pq_items q ! i))" "snd (item_core (pq_items q ! i))" p]
    by (auto simp: ordered_def oks_def)
  then show ?case using update Fix_job [of "pq_items q"] by (auto simp: pq_Update_ok)
qed simp_all

lemma drain_sorted:
  "ordered (pq_items q) \<Longrightarrow> prio_ok (pq_items q) \<Longrightarrow>
     length (pq_items q) = n \<Longrightarrow>
     sorted_wrt (\<lambda>a b. key (a, job_Priority a) \<le> key (b, job_Priority b)) (pq_drain n q) \<and>
     mset (pq_drain n q) = mset (pq_Jobs q)"
proof (induction n arbitrary: q)
  case 0
  then show ?case by (simp add: pq_Jobs_def)
next
  case (Suc n)
  obtain it h where pop: "heap_Pop_job (pq_items q) = (it, h)" by fastforce
  let ?q = "q\<lparr>pq_items := h, pq_index := (pq_index q)(job_ID (item_job it) := None)\<rparr>"
  have ne: "pq_items q \<noteq> []" using Suc.prems by auto
  have p: "ordered h" "mset (cores (pq_items q)) = add_mset (item_core it) (mset (cores h))"
      "\<forall>x \<in> set (cores (pq_items q)). key (item_core it) \<le> key x"
    using Pop_job [OF Suc.prems(1) ne pop] by auto
  have eq: "set (cores (pq_items q)) = insert (item_core it) (set (cores h))"
    using arg_cong [OF p(2), of set_mset] by simp
  have len: "length h = n" using arg_cong [OF p(2), of size] Suc.prems(3) by simp
  have drain: "pq_drain (Suc n) q = item_job it # pq_drain n ?q"
    using pop ne by (simp add: pq_Pop_def pq_Size_def)
  have jobs: "mset (pq_Jobs q) = add_mset (item_job it) (mset (pq_Jobs ?q))"
    using arg_cong [OF p(2), of "image_mset fst"] by (simp add: multiset.map_comp pq_Jobs_cores item_core_def)
  have pr: "prio_ok h" "item_core it = (item_job it, job_Priority (item_job it))"
    using Suc.prems(2) prio_ok_add [OF p(2)] by (auto simp: item_core_def)
  have IH: "sorted_wrt (\<lambda>a b. key (a, job_Priority a) \<le> key (b, job_Priority b)) (pq_drain n ?q)"
      "mset (pq_drain n ?q) = mset (pq_Jobs ?q)"
    using Suc.IH [of ?q] p(1) pr(1) len by auto
  have "key (item_job it, job_Priority (item_job it)) \<le> key (b, job_Priority b)" if "b \<in> set (pq_drain n ?q)" for b
  proof -
    have "b \<in> item_job ` set h" using that mset_eq_setD [OF IH(2)] by (simp add: pq_Jobs_def)
    then have "(b, job_Priority b) \<in> set (cores h)" using pr(1) by (auto simp: prio_ok_def item_core_def)
    then have "key (item_core it) \<le> key (b, job_Priority b)" using p(3) unfolding eq by blast
    then show ?thesis unfolding pr(2) .
  qed
  then show ?case using drain IH jobs by simp
qed

end

interpretation by_priority: job_heap_order "\<lambda>_. True" prio_key
  by unfold_locales
    (auto simp: cores_Swap jobHeap_Less_def prio_key_def item_core_def split: if_splits)

interpretation by_queue_time: job_heap_order has_queue_time fifo_key
proof unfold_locales
  show "cores (jobHeap_Swap h i j) = swap_list (cores h) i j" if "i < length (cores h)" "j < length (cores h)" for h i j
    using that by (simp add: cores_Swap)
next
  fix h :: jobHeap and i j
  assume len: "i < length (cores h)" "j < length (cores h)" and ok: "\<forall>x \<in> set (cores h). has_queue_time x"
  have q: "job_QueuedAt (item_job (h ! i)) \<noteq> None" "job_QueuedAt (item_job (h ! j)) \<noteq> None"
    using len ok by (auto simp: has_queue_time_def item_core_def)
  note defs = jobHeap_Less_def fifo_key_def item_core_def time_Before_def
  show "jobHeap_Less h i j \<Longrightarrow> fifo_key (cores h ! i) \<le> fifo_key (cores h ! j)"
    using len q by (auto simp: defs split: if_splits)
  show "\<not> jobHeap_Less h i j \<Longrightarrow> fifo_key (cores h ! j) \<le> fifo_key (cores h ! i)"
    using len q by (auto simp: defs split: if_splits)
next
  show "has_queue_time (j, p) \<Longrightarrow> has_queue_time (j\<lparr>job_Priority := q\<rparr>, q)" for j p q
    by (simp add: has_queue_time_def)
qed

section \<open>The invariant\<close>

abbreviation core_id :: "Job \<times> JobPriority \<Rightarrow> string" where
  "core_id x \<equiv> job_ID (fst x)"

definition ids :: "jobHeap \<Rightarrow> string list" where
  "ids h = map core_id (cores h)"

text \<open>
  No job is queued twice, the index knows exactly the queued jobs, an item's priority is its
  job's priority, and the heap is ordered by priority.
\<close>

definition pq_wf :: "priorityQueue \<Rightarrow> bool" where
  "pq_wf q \<longleftrightarrow> distinct (ids (pq_items q)) \<and> dom (pq_index q) = set (ids (pq_items q)) \<and>
     prio_ok (pq_items q) \<and> by_priority.ordered (pq_items q)"

text \<open>The index gives every job its heap position.\<close>

definition pq_synced :: "priorityQueue \<Rightarrow> bool" where
  "pq_synced q \<longleftrightarrow> (\<forall>i < length (pq_items q). pq_index q (ids (pq_items q) ! i) = Some (int i))"

lemma ids_jobs: "ids (pq_items q) = map job_ID (pq_Jobs q)"
  by (simp add: ids_def pq_Jobs_cores)

lemma ids_add:
  assumes "mset (cores h') = add_mset c (mset (cores h))"
  shows "distinct (ids h') \<longleftrightarrow> core_id c \<notin> set (ids h) \<and> distinct (ids h)"
    and "set (ids h') = insert (core_id c) (set (ids h))"
proof -
  have m: "mset (ids h') = mset (core_id c # ids h)"
    using arg_cong [OF assms, of "image_mset core_id"] by (simp add: multiset.map_comp ids_def)
  from mset_eq_imp_distinct_iff [OF m] show "distinct (ids h') \<longleftrightarrow> core_id c \<notin> set (ids h) \<and> distinct (ids h)" by simp
  from mset_eq_setD [OF m] show "set (ids h') = insert (core_id c) (set (ids h))" by simp
qed

lemma rebuild_from_dom: "dom (rebuild_from i h m) = dom m \<union> set (ids h)"
  by (induction h arbitrary: i m) (auto simp: ids_def item_core_def)

lemma rebuild_from_other: "x \<notin> set (ids h) \<Longrightarrow> rebuild_from i h m x = m x"
  by (induction h arbitrary: i m) (auto simp: ids_def item_core_def)

lemma rebuild_from_nth: "distinct (ids h) \<Longrightarrow> k < length h \<Longrightarrow> rebuild_from i h m (ids h ! k) = Some (int (i + k))"
proof (induction h arbitrary: i m k)
  case (Cons it h)
  have ids: "ids (it # h) = job_ID (item_job it) # ids h" by (simp add: ids_def item_core_def)
  show ?case
  proof (cases k)
    case 0
    then show ?thesis using Cons by (simp add: ids rebuild_from_other)
  next
    case (Suc k')
    then show ?thesis using Cons by (simp add: ids)
  qed
qed simp

lemma rebuild_dom [simp]: "dom (pq_index (pq_rebuildIndex q)) = set (ids (pq_items q))"
  by (simp add: pq_rebuildIndex_def rebuild_from_dom)

lemma rebuild_synced: "distinct (ids (pq_items q)) \<Longrightarrow> pq_synced (pq_rebuildIndex q)"
  using rebuild_from_nth [of "pq_items q" _ 0] by (simp add: pq_synced_def pq_rebuildIndex_def)

lemma pq_wf_Push:
  assumes wf: "pq_wf q" and push: "pq_Push (Some j) q = Inr q'"
  shows "pq_wf q' \<and> mset (pq_Jobs q') = add_mset j (mset (pq_Jobs q))"
proof -
  let ?h = "heap_Push_job (pq_items q) (new_item j)"
  have q': "pq_items q' = ?h" "dom (pq_index q') = insert (job_ID j) (dom (pq_index q))" "job_ID j \<notin> dom (pq_index q)"
    using push by (auto simp: pq_Push_ok)
  have h: "by_priority.ordered ?h" "mset (cores ?h) = add_mset (j, job_Priority j) (mset (cores (pq_items q)))"
    using wf by_priority.Push_job [of "pq_items q" "new_item j"] by (auto simp: pq_wf_def)
  have "mset (pq_Jobs q') = add_mset j (mset (pq_Jobs q))"
    using arg_cong [OF h(2), of "image_mset fst"] by (simp add: multiset.map_comp pq_Jobs_cores q')
  moreover have "pq_wf q'" using wf q' h(1) ids_add [OF h(2)] prio_ok_add [OF h(2)] by (simp add: pq_wf_def)
  ultimately show ?thesis by simp
qed

lemma pq_wf_Pop:
  assumes wf: "pq_wf q" and pop: "pq_Pop q = Inr (j, q')"
  shows "pq_wf q' \<and> mset (pq_Jobs q) = add_mset j (mset (pq_Jobs q'))"
proof -
  obtain it where it: "heap_Pop_job (pq_items q) = (it, pq_items q')" "j = item_job it" "pq_items q \<noteq> []"
      "pq_index q' = (pq_index q)(job_ID j := None)"
    using pop by (auto simp: pq_Pop_ok)
  have h: "by_priority.ordered (pq_items q')"
      "mset (cores (pq_items q)) = add_mset (item_core it) (mset (cores (pq_items q')))"
    using by_priority.Pop_job [OF _ it(3,1)] wf by (auto simp: pq_wf_def)
  have "mset (pq_Jobs q) = add_mset j (mset (pq_Jobs q'))"
    using arg_cong [OF h(2), of "image_mset fst"] it(2) by (simp add: multiset.map_comp pq_Jobs_cores item_core_def)
  moreover have "core_id (item_core it) = job_ID j" by (simp add: it item_core_def)
  ultimately show ?thesis using wf h(1) it ids_add [OF h(2)] prio_ok_add [OF h(2)] by (auto simp: pq_wf_def)
qed

lemma pq_wf_Remove:
  assumes wf: "pq_wf q" and rem: "pq_Remove jid q = Ret (Inr q')"
  shows "pq_wf q' \<and> pq_synced q' \<and>
    (\<exists>i. pq_index q jid = Some (int i) \<and> mset (pq_Jobs q) = add_mset (pq_Jobs q ! i) (mset (pq_Jobs q')))"
proof -
  obtain i it h where i: "pq_index q jid = Some (int i)" "i < length (pq_items q)"
      "heap_Remove_job (pq_items q) i = (it, h)"
      "q' = pq_rebuildIndex (q\<lparr>pq_items := h, pq_index := (pq_index q)(jid := None)\<rparr>)"
    using rem by (auto simp: pq_Remove_ok)
  have h: "by_priority.ordered h" "item_core it = cores (pq_items q) ! i"
      "mset (cores (pq_items q)) = add_mset (item_core it) (mset (cores h))"
    using by_priority.Remove_job [OF _ i(2,3)] wf by (auto simp: pq_wf_def)
  have "mset (pq_Jobs q) = add_mset (pq_Jobs q ! i) (mset (pq_Jobs q'))"
    using arg_cong [OF h(3), of "image_mset fst"] i by (simp add: multiset.map_comp pq_Jobs_cores h(2))
  moreover have "pq_wf q' \<and> pq_synced q'"
    using wf i(4) h(1) ids_add [OF h(3)] prio_ok_add [OF h(3)] rebuild_synced by (auto simp: pq_wf_def)
  ultimately show ?thesis using i(1) by blast
qed

lemma pq_wf_Update:
  assumes wf: "pq_wf q" and upd: "pq_Update jid p q = Ret (Inr q')"
  shows "pq_wf q' \<and> pq_synced q' \<and> (\<exists>i. pq_index q jid = Some (int i) \<and> i < length (pq_items q) \<and>
    mset (pq_Jobs q') = mset ((pq_Jobs q)[i := (pq_Jobs q ! i)\<lparr>job_Priority := p\<rparr>]))"
proof -
  obtain i where i: "pq_index q jid = Some (int i)" "i < length (pq_items q)"
      "q' = pq_rebuildIndex (q\<lparr>pq_items := heap_Fix_job ((pq_items q)[i := set_item_priority p (pq_items q ! i)]) i\<rparr>)"
    using upd by (auto simp: pq_Update_ok)
  let ?l = "(pq_items q)[i := set_item_priority p (pq_items q ! i)]"
  let ?h = "heap_Fix_job ?l i"
  have h: "by_priority.ordered ?h" "mset (cores ?h) = mset (cores ?l)"
    using by_priority.Fix_job [OF _ i(2)] wf by (auto simp: pq_wf_def)
  have l: "ids ?l = ids (pq_items q)"
    using i(2) by (intro nth_equalityI) (auto simp: ids_def nth_list_update)
  have m: "mset (ids ?h) = mset (ids ?l)"
    using arg_cong [OF h(2), of "image_mset core_id"] by (simp add: multiset.map_comp ids_def)
  have ids: "distinct (ids ?h) = distinct (ids (pq_items q))" "set (ids ?h) = set (ids (pq_items q))"
    using mset_eq_imp_distinct_iff [OF m] mset_eq_setD [OF m] l by simp_all
  have "set (cores ?h) = set (cores ?l)" using mset_eq_setD [OF h(2)] .
  then have prio: "prio_ok ?h"
    using wf by (auto simp: pq_wf_def prio_ok_def dest!: set_update_subset_insert [THEN subsetD])
  have "mset (pq_Jobs q') = mset ((pq_Jobs q)[i := (pq_Jobs q ! i)\<lparr>job_Priority := p\<rparr>])"
    using arg_cong [OF h(2), of "image_mset fst"] i(2,3) by (simp add: pq_Jobs_cores map_update flip: mset_map)
  moreover have "pq_wf q' \<and> pq_synced q'" using wf i(3) h(1) ids prio rebuild_synced by (auto simp: pq_wf_def)
  ultimately show ?thesis using i by blast
qed

lemma pq_wf_fresh [simp]: "pq_wf NewPriorityQueue" "pq_wf (pq_Clear q)" "pq_synced NewPriorityQueue" "pq_synced (pq_Clear q)"
  by (simp_all add: pq_wf_def pq_synced_def ids_def prio_ok_def)

lemma reach_wf: "pq_reach P q \<Longrightarrow> pq_wf q"
  by (induction rule: pq_reach.induct) (auto dest: pq_wf_Push pq_wf_Pop pq_wf_Remove pq_wf_Update)

section \<open>Queues with two jobs\<close>

lemma heap_Push_job_0: "heap_Push_job [] it = [it\<lparr>item_index := 0\<rparr>]"
  by (simp add: heap_Push_job_def jobHeap_Push_def heap_up.simps)

lemma heap_Push_job_1:
  "item_priority x < item_priority y \<Longrightarrow> heap_Push_job [x] y = [y\<lparr>item_index := 0\<rparr>, x\<lparr>item_index := 1\<rparr>]"
  "item_priority y < item_priority x \<Longrightarrow> heap_Push_job [x] y = [x, y\<lparr>item_index := 1\<rparr>]"
  by (simp_all add: heap_Push_job_def jobHeap_Push_def heap_up.simps jobHeap_Swap_def swap_list_def jobHeap_Less_def)

lemma heap_Remove_job_0: "heap_Remove_job [x, y] 0 = (x\<lparr>item_index := -1\<rparr>, [y\<lparr>item_index := 0\<rparr>])"
  by (simp add: heap_Remove_job_def jobHeap_Pop_def heap_remove_prep_def heap_fix_def heap_down_def
      heap_down_loop.simps heap_up.simps jobHeap_Swap_def swap_list_def)

lemma heap_Pop_job_1: "heap_Pop_job [x, y] = (x\<lparr>item_index := -1\<rparr>, [y\<lparr>item_index := 0\<rparr>])"
  by (simp add: heap_Pop_job_def jobHeap_Pop_def heap_pop_prep_def heap_down_def
      heap_down_loop.simps jobHeap_Swap_def swap_list_def)

lemma push_two:
  assumes "job_ID a \<noteq> job_ID b" and "job_Priority a \<noteq> job_Priority b"
  shows "\<exists>q1. pq_Push (Some a) NewPriorityQueue = Inr q1 \<and> pq_Push (Some b) q1 = Inr
    (if job_Priority a < job_Priority b
     then \<lparr>pq_items = [(new_item b)\<lparr>item_index := 0\<rparr>, (new_item a)\<lparr>item_index := 1\<rparr>],
           pq_index = [job_ID a \<mapsto> 0, job_ID b \<mapsto> 0]\<rparr>
     else \<lparr>pq_items = [(new_item a)\<lparr>item_index := 0\<rparr>, (new_item b)\<lparr>item_index := 1\<rparr>],
           pq_index = [job_ID a \<mapsto> 0, job_ID b \<mapsto> 1]\<rparr>)"
  using assms by (cases "job_Priority a < job_Priority b")
    (auto simp: pq_Push_ok heap_Push_job_0 heap_Push_job_1 item_index_of_def new_item_def NewPriorityQueue_def heap_init_def)

text \<open>Concrete queues, for the witnesses.\<close>

abbreviation job_a :: Job where "job_a \<equiv> sample_job ''a'' 1 (Some 5)"
abbreviation job_b :: Job where "job_b \<equiv> sample_job ''b'' 2 (Some 7)"

definition sample_queue :: priorityQueue where
  "sample_queue = projr (pq_Push (Some job_b) (projr (pq_Push (Some job_a) NewPriorityQueue)))"

definition sample_synced :: priorityQueue where
  "sample_synced = projr (pq_Push (Some job_a) (projr (pq_Push (Some job_b) NewPriorityQueue)))"

lemma sample_queue_eq:
  "pq_items sample_queue = [(new_item job_b)\<lparr>item_index := 0\<rparr>, (new_item job_a)\<lparr>item_index := 1\<rparr>]"
  using push_two [of job_a job_b] by (auto simp: sample_queue_def)

lemma sample_synced_eq:
  "sample_synced = \<lparr>pq_items = [(new_item job_b)\<lparr>item_index := 0\<rparr>, (new_item job_a)\<lparr>item_index := 1\<rparr>],
     pq_index = [''b'' \<mapsto> 0, ''a'' \<mapsto> 1]\<rparr>"
  using push_two [of job_b job_a] by (auto simp: sample_synced_def)

lemma sample_reach:
  assumes "P job_a" and "P job_b"
  shows "pq_reach P sample_queue" and "pq_reach P sample_synced"
proof -
  obtain q1 q2 q3 q4 where "pq_Push (Some job_a) NewPriorityQueue = Inr q1" "pq_Push (Some job_b) q1 = Inr q2"
      "pq_Push (Some job_b) NewPriorityQueue = Inr q3" "pq_Push (Some job_a) q3 = Inr q4"
    using push_two [of job_a job_b] push_two [of job_b job_a] by auto
  then show "pq_reach P sample_queue" "pq_reach P sample_synced"
    using pq_reach.push [OF pq_reach.push [OF pq_reach.new]] assms
    unfolding sample_queue_def sample_synced_def by (metis sum.sel(2))+
qed

lemma sample_queue_drain: "pq_drain 2 sample_queue = [job_b, job_a]"
  by (simp add: numeral_2_eq_2 pq_Pop_def pq_Size_def sample_queue_eq heap_Pop_job_1 new_item_def)
    (simp add: heap_Pop_job_def heap_pop_prep_def heap_down_def heap_down_loop.simps jobHeap_Swap_def swap_list_def jobHeap_Pop_def)

section \<open>Properties\<close>

text \<open>C3: Whatever sequence of operations built the queue, popping it until it is empty returns
  exactly the queued jobs, in order of decreasing priority.
\<close>

theorem pq_pops_by_priority:
  assumes "pq_reach P q"
  shows "mset (pq_drain (pq_Size q) q) = mset (pq_Jobs q) \<and>
    sorted_wrt (\<lambda>a b. job_Priority b \<le> job_Priority a) (pq_drain (pq_Size q) q)"
  using by_priority.drain_sorted [of q "pq_Size q"] reach_wf [OF assms]
  by (simp add: pq_wf_def pq_Size_def prio_key_def)

theorem pq_pops_by_priority_witness:
  "pq_reach (\<lambda>_. True) sample_queue \<and> pq_drain 2 sample_queue = [job_b, job_a] \<and>
   sorted_wrt (\<lambda>a b. job_Priority b \<le> job_Priority a) (pq_drain 2 sample_queue)"
  using pq_pops_by_priority [OF sample_reach(1) [of "\<lambda>_. True"]] sample_queue_drain sample_reach(1) [of "\<lambda>_. True"]
  by (simp add: pq_Size_def sample_queue_eq)

text \<open>If every pushed job carries a queueing time, the pops of equal priority come in the order
  of their queueing times (first in, first out within a priority).
\<close>

theorem pq_pops_fifo:
  assumes "pq_reach (\<lambda>j. job_QueuedAt j \<noteq> None) q"
  shows "sorted_wrt (\<lambda>a b. job_Priority b < job_Priority a \<or>
      job_Priority b = job_Priority a \<and> the (job_QueuedAt a) \<le> the (job_QueuedAt b)) (pq_drain (pq_Size q) q)"
proof -
  have "by_queue_time.ordered (pq_items q)"
    using by_queue_time.reach_ordered assms by (simp add: has_queue_time_def)
  moreover have "prio_ok (pq_items q)" using reach_wf [OF assms] by (simp add: pq_wf_def)
  ultimately have "sorted_wrt (\<lambda>a b. fifo_key (a, job_Priority a) \<le> fifo_key (b, job_Priority b)) (pq_drain (pq_Size q) q)"
    using by_queue_time.drain_sorted [of q "pq_Size q"] by (simp add: pq_Size_def)
  then show ?thesis by (rule sorted_wrt_mono_rel [rotated]) (auto simp: fifo_key_def less_eq_prod_def)
qed

theorem pq_pops_fifo_witness:
  "sorted_wrt (\<lambda>a b. job_Priority b < job_Priority a \<or>
      job_Priority b = job_Priority a \<and> the (job_QueuedAt a) \<le> the (job_QueuedAt b)) (pq_drain 2 sample_queue)"
  using pq_pops_fifo [OF sample_reach(1)] by (simp add: pq_Size_def sample_queue_eq numeral_2_eq_2)

text \<open>C4: In every reachable queue no job ID occurs twice, \<open>Contains\<close> answers exactly for the queued
  jobs, \<open>Push\<close> refuses exactly the queued IDs and otherwise adds just that job, and \<open>Pop\<close> fails
  only on the empty queue and otherwise takes out just the job it returns.
\<close>

theorem pq_operations_exact:
  assumes "pq_reach P q"
  shows "distinct (map job_ID (pq_Jobs q)) \<and>
    (pq_Contains jid q \<longleftrightarrow> jid \<in> job_ID ` set (pq_Jobs q)) \<and>
    (case pq_Push (Some j) q of
        Inl _ \<Rightarrow> job_ID j \<in> job_ID ` set (pq_Jobs q)
      | Inr q' \<Rightarrow> job_ID j \<notin> job_ID ` set (pq_Jobs q) \<and> mset (pq_Jobs q') = add_mset j (mset (pq_Jobs q))) \<and>
    (case pq_Pop q of
        Inl _ \<Rightarrow> pq_Jobs q = []
      | Inr (j', q') \<Rightarrow> mset (pq_Jobs q) = add_mset j' (mset (pq_Jobs q')))"
proof (intro conjI)
  have wf: "pq_wf q" by (rule reach_wf [OF assms])
  then show "distinct (map job_ID (pq_Jobs q))" by (simp add: pq_wf_def ids_jobs)
  have dom: "jid \<in> job_ID ` set (pq_Jobs q) \<longleftrightarrow> pq_index q jid \<noteq> None" for jid
    using wf by (auto simp: pq_wf_def ids_jobs)
  then show "pq_Contains jid q \<longleftrightarrow> jid \<in> job_ID ` set (pq_Jobs q)" by (simp add: pq_Contains_def)
  show "case pq_Push (Some j) q of
        Inl _ \<Rightarrow> job_ID j \<in> job_ID ` set (pq_Jobs q)
      | Inr q' \<Rightarrow> job_ID j \<notin> job_ID ` set (pq_Jobs q) \<and> mset (pq_Jobs q') = add_mset j (mset (pq_Jobs q))"
    using pq_wf_Push [OF wf, of j] dom [of "job_ID j"]
    by (auto simp: pq_Push_def Let_def split: sum.splits option.splits)
  show "case pq_Pop q of
        Inl _ \<Rightarrow> pq_Jobs q = []
      | Inr (j', q') \<Rightarrow> mset (pq_Jobs q) = add_mset j' (mset (pq_Jobs q'))"
  proof (cases "pq_Pop q")
    case (Inl e)
    then show ?thesis by (simp add: pq_Pop_def pq_Size_def pq_Jobs_def split: if_splits prod.splits)
  next
    case (Inr r)
    then show ?thesis using pq_wf_Pop [OF wf] by (cases r) auto
  qed
qed

theorem pq_operations_exact_witness:
  "distinct (map job_ID (pq_Jobs sample_queue)) \<and> pq_Contains ''a'' sample_queue \<and> \<not> pq_Contains ''c'' sample_queue"
  using pq_operations_exact [OF sample_reach(1) [of "\<lambda>_. True"], of "''a''"]
    pq_operations_exact [OF sample_reach(1) [of "\<lambda>_. True"], of "''c''"]
  by (simp add: pq_Jobs_def sample_queue_eq new_item_def)

text \<open>While the index gives every job its heap position, \<open>Remove\<close> of a queued ID does not panic,
  takes out exactly the job with that ID and leaves a reachable queue with a correct index.
\<close>

theorem pq_remove_synced:
  assumes "pq_reach P q" and "pq_synced q" and "j \<in> set (pq_Jobs q)"
  shows "\<exists>q'. pq_Remove (job_ID j) q = Ret (Inr q') \<and> pq_reach P q' \<and> pq_synced q' \<and>
    mset (pq_Jobs q) = add_mset j (mset (pq_Jobs q'))"
proof -
  have wf: "pq_wf q" by (rule reach_wf [OF assms(1)])
  obtain i where i: "i < length (pq_items q)" "pq_Jobs q ! i = j"
    using assms(3) by (auto simp: in_set_conv_nth pq_Jobs_def)
  have idx: "pq_index q (job_ID j) = Some (int i)"
    using assms(2) i by (auto simp: pq_synced_def ids_jobs pq_Jobs_def)
  then obtain q' where q': "pq_Remove (job_ID j) q = Ret (Inr q')"
    using i by (auto simp: pq_Remove_ok split: prod.splits intro: prod.exhaust)
  from pq_wf_Remove [OF wf this] idx i pq_reach.remove [OF assms(1) q'] q' show ?thesis by auto
qed

theorem pq_remove_synced_witness:
  "\<exists>q'. pq_Remove ''a'' sample_synced = Ret (Inr q') \<and> mset (pq_Jobs sample_synced) = add_mset job_a (mset (pq_Jobs q'))"
  using pq_remove_synced [OF sample_reach(2) [of "\<lambda>_. True"], of job_a]
  by (auto simp: sample_synced_eq pq_synced_def less_Suc_eq ids_def pq_Jobs_def new_item_def item_core_def)

text \<open>The index is not kept up to date by \<open>Push\<close>: with two jobs pushed in order of increasing
  priority, \<open>Remove\<close> of the first one takes the second one out of the queue instead.
\<close>

theorem pq_remove_wrong_job:
  assumes "job_ID a \<noteq> job_ID b" and "job_Priority a < job_Priority b"
  shows "\<exists>q1 q2 q3. pq_Push (Some a) NewPriorityQueue = Inr q1 \<and> pq_Push (Some b) q1 = Inr q2 \<and>
    pq_Remove (job_ID a) q2 = Ret (Inr q3) \<and> pq_Jobs q3 = [a]"
  using push_two [OF assms(1)] assms
  by (fastforce simp: pq_Remove_def in_range_def heap_Remove_job_0 pq_Jobs_def new_item_def pq_rebuildIndex_def)

theorem pq_remove_wrong_job_witness:
  "\<exists>q. pq_Remove ''a'' sample_queue = Ret (Inr q) \<and> pq_Jobs q = [job_a]"
  using pq_remove_wrong_job [of job_a job_b] by (auto simp: sample_queue_def)

text \<open>Nor does \<open>Pop\<close> keep the index up to date: with two jobs pushed in order of decreasing
  priority and the first one popped, \<open>Remove\<close> of the second one panics (index out of range).
\<close>

theorem pq_remove_panics:
  assumes "job_ID a \<noteq> job_ID b" and "job_Priority b < job_Priority a"
  shows "\<exists>q1 q2 q3. pq_Push (Some a) NewPriorityQueue = Inr q1 \<and> pq_Push (Some b) q1 = Inr q2 \<and>
    pq_Pop q2 = Inr (a, q3) \<and> pq_Jobs q3 = [b] \<and> pq_Remove (job_ID b) q3 = Panic"
  using push_two [OF assms(1)] assms
  by (fastforce simp: pq_Pop_def pq_Size_def pq_Remove_def in_range_def heap_Pop_job_1 pq_Jobs_def new_item_def)

theorem pq_remove_panics_witness:
  "\<exists>q. pq_Pop sample_synced = Inr (job_b, q) \<and> pq_Remove ''a'' q = Panic"
  using pq_remove_panics [of job_b job_a] by (auto simp: sample_synced_def)

text \<open>\<open>Less\<close> is not an order when only some jobs carry a queueing time: three jobs of one priority
  can come before each other in a circle.
\<close>

theorem jobHeap_Less_cyclic:
  "\<exists>a b c :: jobItem. jobHeap_Less [a, b, c] 0 1 \<and> jobHeap_Less [a, b, c] 1 2 \<and> jobHeap_Less [a, b, c] 2 0"
proof -
  define mk where "mk c q = new_item (undefined\<lparr>job_Priority := 1, job_CreatedAt := c, job_QueuedAt := q\<rparr>)" for c q
  have "jobHeap_Less [mk 20 None, mk 30 (Some 1), mk 10 (Some 2)] 0 1 \<and>
        jobHeap_Less [mk 20 None, mk 30 (Some 1), mk 10 (Some 2)] 1 2 \<and>
        jobHeap_Less [mk 20 None, mk 30 (Some 1), mk 10 (Some 2)] 2 0"
    by (simp add: mk_def new_item_def jobHeap_Less_def time_Before_def)
  then show ?thesis by blast
qed

end
