(* ===== verification/Job_Repository.thy ===== *)
theory Job_Repository
  imports Job_Types "HOL-Library.Product_Lexorder"
begin

text \<open>
  The interface \<open>JobRepository\<close> of \<open>pkg/domain/job/repository/interface.go\<close>. The repository holds no
  implementation of it, so the scheduler's definitions take it as an argument: a record of the
  methods they call, over an arbitrary store \<open>'r\<close> that is threaded through the calls. Contexts carry
  only deadlines and cancellation and are left out of the methods.

  The locale \<open>job_repository\<close> names what the interface's comments promise, over a view of the store
  as a finite map from IDs to jobs. \<open>mem_repo\<close> is a store in memory that keeps the promises, so the
  hypothesis \<open>job_repository R jobs\<close> of the scheduler's properties can hold.
\<close>

section \<open>The interface\<close>

datatype JobOrderBy = OrderByCreatedAt | OrderByPriority | OrderByStatus | OrderByScheduled
datatype OrderDirection = OrderAsc | OrderDesc

record JobFilter =
  flt_Status :: "JobStatus option"
  flt_MinPriority :: "JobPriority option"
  flt_Tags :: "string list"
  flt_FuzzerType :: "string option"
  flt_CreatedAfter :: "time option"
  flt_CreatedBefore :: "time option"
  flt_Limit :: int
  flt_Offset :: int
  flt_OrderBy :: "JobOrderBy option"
  flt_OrderDirection :: "OrderDirection option"

text \<open>The zero value \<open>repository.JobFilter{}\<close>.\<close>

definition emptyFilter :: JobFilter where
  "emptyFilter = \<lparr>flt_Status = None, flt_MinPriority = None, flt_Tags = [], flt_FuzzerType = None,
     flt_CreatedAfter = None, flt_CreatedBefore = None, flt_Limit = 0, flt_Offset = 0,
     flt_OrderBy = None, flt_OrderDirection = None\<rparr>"

text \<open>A Go map that is iterated over is an association list; its order is the iteration order.\<close>

record 'r JobRepository =
  repo_Create :: "Job \<Rightarrow> 'r \<Rightarrow> error option \<times> 'r"
  repo_Get :: "string \<Rightarrow> 'r \<Rightarrow> Job result"
  repo_Update :: "Job \<Rightarrow> 'r \<Rightarrow> error option \<times> 'r"
  repo_List :: "JobFilter \<Rightarrow> 'r \<Rightarrow> Job list result"
  repo_ListByStatus :: "JobStatus \<Rightarrow> 'r \<Rightarrow> Job list result"
  repo_ListPending :: "int \<Rightarrow> 'r \<Rightarrow> Job list result"
  repo_ListScheduled :: "time \<Rightarrow> 'r \<Rightarrow> Job list result"
  repo_CountByStatus :: "'r \<Rightarrow> (JobStatus \<times> int) list result"
  repo_UpdateStatus :: "string \<Rightarrow> JobStatus \<Rightarrow> JobStatus \<Rightarrow> 'r \<Rightarrow> error option \<times> 'r"
  repo_IncrementRetries :: "string \<Rightarrow> 'r \<Rightarrow> error option \<times> 'r"
  repo_LockForProcessing :: "string \<Rightarrow> string \<Rightarrow> duration \<Rightarrow> 'r \<Rightarrow> Job option result \<times> 'r"
  repo_UnlockJob :: "string \<Rightarrow> string \<Rightarrow> 'r \<Rightarrow> error option \<times> 'r"
  repo_GetStaleJobs :: "duration \<Rightarrow> 'r \<Rightarrow> Job list result"

section \<open>What the interface promises\<close>

definition stored_list :: "(string \<rightharpoonup> Job) \<Rightarrow> Job list result \<Rightarrow> bool" where
  "stored_list m res \<longleftrightarrow> (case res of Inl _ \<Rightarrow> True | Inr js \<Rightarrow> \<forall>j \<in> set js. m (job_ID j) = Some j)"

locale job_repository =
  fixes R :: "'r JobRepository"
    and jobs :: "'r \<Rightarrow> string \<rightharpoonup> Job"
  assumes keyed: "jobs r jid = Some j \<Longrightarrow> job_ID j = jid"
    and Get: "repo_Get R jid r = Inr j \<longleftrightarrow> jobs r jid = Some j"
    and Create: "repo_Create R j r = (eo, r') \<Longrightarrow> jobs r' = (if eo = None then (jobs r)(job_ID j \<mapsto> j) else jobs r)"
    and Create_new: "repo_Create R j r = (None, r') \<Longrightarrow> jobs r (job_ID j) = None"
    and Update: "repo_Update R j r = (eo, r') \<Longrightarrow> jobs r' = (if eo = None then (jobs r)(job_ID j \<mapsto> j) else jobs r)"
    and ListByStatus: "stored_list (jobs r) (repo_ListByStatus R s r)"
    and ListByStatus_status: "repo_ListByStatus R s r = Inr js \<Longrightarrow> j \<in> set js \<Longrightarrow> job_Status j = s"
    and ListPending: "stored_list (jobs r) (repo_ListPending R n r)"
    and ListScheduled: "stored_list (jobs r) (repo_ListScheduled R t r)"
    and List: "stored_list (jobs r) (repo_List R f r)"
    and GetStaleJobs: "stored_list (jobs r) (repo_GetStaleJobs R d r)"
    and UpdateStatus: "repo_UpdateStatus R jid s s' r = (None, r') \<Longrightarrow>
      \<exists>j t. jobs r jid = Some j \<and> job_Status j = s \<and> jobs r' = (jobs r)(jid \<mapsto> j\<lparr>job_Status := s', job_UpdatedAt := t\<rparr>)"
    and UpdateStatus_err: "repo_UpdateStatus R jid s s' r = (Some e, r') \<Longrightarrow> jobs r' = jobs r"
    and IncrementRetries: "repo_IncrementRetries R jid r = (None, r') \<Longrightarrow>
      \<exists>j t. jobs r jid = Some j \<and> jobs r' = (jobs r)(jid \<mapsto> j\<lparr>job_RetryCount := job_RetryCount j + 1, job_UpdatedAt := t\<rparr>)"
    and IncrementRetries_err: "repo_IncrementRetries R jid r = (Some e, r') \<Longrightarrow> jobs r' = jobs r"
    and Lock: "repo_LockForProcessing R jid w d r = (Inr (Some j), r') \<Longrightarrow>
      \<exists>j0 t. jobs r jid = Some j0 \<and> Job_Lock t w d j0 = Inr j \<and> \<not> Job_IsLocked t j0 \<and> jobs r' = (jobs r)(jid \<mapsto> j)"
    and Lock_fail: "repo_LockForProcessing R jid w d r = (res, r') \<Longrightarrow> res = Inr None \<or> res = Inl e \<Longrightarrow> jobs r' = jobs r"
    and Unlock: "repo_UnlockJob R jid w r = (None, r') \<Longrightarrow>
      \<exists>j t. jobs r jid = Some j \<and> jobs r' = (jobs r)(jid \<mapsto> Job_Unlock t j)"
    and Unlock_err: "repo_UnlockJob R jid w r = (Some e, r') \<Longrightarrow> jobs r' = jobs r"
begin

lemma stored: "stored_list (jobs r) (Inr js) \<Longrightarrow> j \<in> set js \<Longrightarrow> jobs r (job_ID j) = Some j"
  by (simp add: stored_list_def)

lemmas list_stored = ListByStatus ListPending ListScheduled List GetStaleJobs

end

section \<open>A store in memory\<close>

record memRepo =
  mem_jobs :: "Job list"
  mem_now :: time

definition mem_lookup :: "memRepo \<Rightarrow> string \<rightharpoonup> Job" where
  "mem_lookup r jid = find (\<lambda>j. job_ID j = jid) (mem_jobs r)"

definition mem_put :: "Job \<Rightarrow> memRepo \<Rightarrow> memRepo" where
  "mem_put j r = r\<lparr>mem_jobs := map (\<lambda>k. if job_ID k = job_ID j then j else k) (mem_jobs r)\<rparr>"

text \<open>An operation on a stored job that keeps its ID, or an error.\<close>

definition mem_change :: "string \<Rightarrow> (Job \<Rightarrow> Job result) \<Rightarrow> memRepo \<Rightarrow> error option \<times> memRepo" where
  "mem_change jid f r = (case mem_lookup r jid of
       None \<Rightarrow> (Some (ErrorString ''job not found''), r)
     | Some j \<Rightarrow> (case f j of Inl e \<Rightarrow> (Some e, r) | Inr j' \<Rightarrow> (None, mem_put j' r)))"

definition mem_select :: "(Job \<Rightarrow> bool) \<Rightarrow> memRepo \<Rightarrow> Job list" where
  "mem_select p r = filter (\<lambda>j. p j \<and> mem_lookup r (job_ID j) = Some j) (mem_jobs r)"

definition filter_matches :: "JobFilter \<Rightarrow> Job \<Rightarrow> bool" where
  "filter_matches f j \<longleftrightarrow>
     (case flt_Status f of None \<Rightarrow> True | Some s \<Rightarrow> job_Status j = s) \<and>
     (case flt_MinPriority f of None \<Rightarrow> True | Some p \<Rightarrow> p \<le> job_Priority j) \<and>
     set (flt_Tags f) \<subseteq> set (job_Tags j) \<and>
     (case flt_FuzzerType f of None \<Rightarrow> True | Some t \<Rightarrow> job_FuzzerType j = t) \<and>
     (case flt_CreatedAfter f of None \<Rightarrow> True | Some t \<Rightarrow> time_After (job_CreatedAt j) t) \<and>
     (case flt_CreatedBefore f of None \<Rightarrow> True | Some t \<Rightarrow> time_Before (job_CreatedAt j) t)"

definition mem_Lock :: "string \<Rightarrow> string \<Rightarrow> duration \<Rightarrow> memRepo \<Rightarrow> Job option result \<times> memRepo" where
  "mem_Lock jid w d r = (case mem_lookup r jid of
       None \<Rightarrow> (Inl (ErrorString ''job not found''), r)
     | Some j \<Rightarrow>
         if Job_IsLocked (mem_now r) j then (Inr None, r)
         else case Job_Lock (mem_now r) w d j of
             Inl e \<Rightarrow> (Inl e, r)
           | Inr j' \<Rightarrow> (Inr (Some j'), mem_put j' r))"

definition mem_repo :: "memRepo JobRepository" where
  "mem_repo = \<lparr>
     repo_Create = (\<lambda>j r. if mem_lookup r (job_ID j) \<noteq> None then (Some (ErrorString ''job already exists''), r)
       else (None, r\<lparr>mem_jobs := mem_jobs r @ [j]\<rparr>)),
     repo_Get = (\<lambda>jid r. case mem_lookup r jid of None \<Rightarrow> Inl (ErrorString ''job not found'') | Some j \<Rightarrow> Inr j),
     repo_Update = (\<lambda>j r. mem_change (job_ID j) (\<lambda>_. Inr j) r),
     repo_List = (\<lambda>f r. Inr (mem_select (filter_matches f) r)),
     repo_ListByStatus = (\<lambda>s r. Inr (mem_select (\<lambda>j. job_Status j = s) r)),
     repo_ListPending = (\<lambda>n r. Inr (take (nat n) (sort_key (\<lambda>j. (- job_Priority j, job_CreatedAt j))
       (mem_select (\<lambda>j. job_Status j = StatusQueued) r)))),
     repo_ListScheduled = (\<lambda>t r. Inr (mem_select (\<lambda>j. case job_ScheduledAt j of None \<Rightarrow> False | Some s \<Rightarrow> s \<le> t) r)),
     repo_CountByStatus = (\<lambda>r. Inr (map (\<lambda>s. (s, int (length (mem_select (\<lambda>j. job_Status j = s) r))))
       (remdups (map job_Status (mem_jobs r))))),
     repo_UpdateStatus = (\<lambda>jid s s' r. mem_change jid (\<lambda>j. if job_Status j = s
       then Inr (j\<lparr>job_Status := s', job_UpdatedAt := mem_now r\<rparr>) else Inl (ErrorString ''job status changed'')) r),
     repo_IncrementRetries = (\<lambda>jid r. mem_change jid (\<lambda>j. Inr (j\<lparr>job_RetryCount := job_RetryCount j + 1, job_UpdatedAt := mem_now r\<rparr>)) r),
     repo_LockForProcessing = mem_Lock,
     repo_UnlockJob = (\<lambda>jid w r. mem_change jid (\<lambda>j. if job_LockedBy j = w then Inr (Job_Unlock (mem_now r) j)
       else Inl (ErrorString ''job is locked by another worker'')) r),
     repo_GetStaleJobs = (\<lambda>d r. Inr (mem_select (\<lambda>j. case job_LockedAt j of None \<Rightarrow> False | Some t \<Rightarrow> d < time_Sub (mem_now r) t) r))
   \<rparr>"

lemma mem_lookup_ID: "mem_lookup r jid = Some j \<Longrightarrow> job_ID j = jid"
  by (auto simp: mem_lookup_def find_Some_iff)

lemma find_replace:
  "find (\<lambda>j. job_ID j = jid) (map (\<lambda>k. if job_ID k = job_ID j then j else k) js) =
     (if jid = job_ID j \<and> find (\<lambda>j. job_ID j = jid) js \<noteq> None then Some j else find (\<lambda>j. job_ID j = jid) js)"
  by (induction js) auto

lemma mem_lookup_put:
  "mem_lookup r (job_ID j) \<noteq> None \<Longrightarrow> mem_lookup (mem_put j r) = (mem_lookup r)(job_ID j \<mapsto> j)"
  by (rule ext) (auto simp: mem_lookup_def mem_put_def find_replace)

lemma mem_change_ok:
  assumes "\<And>j j'. f j = Inr j' \<Longrightarrow> job_ID j' = job_ID j" and "mem_change jid f r = (None, r')"
  shows "\<exists>j j'. mem_lookup r jid = Some j \<and> f j = Inr j' \<and> mem_lookup r' = (mem_lookup r)(jid \<mapsto> j')"
proof -
  obtain j j' where j: "mem_lookup r jid = Some j" "f j = Inr j'" "r' = mem_put j' r"
    using assms(2) by (auto simp: mem_change_def split: option.splits sum.splits)
  have "job_ID j' = jid" using assms(1) [OF j(2)] mem_lookup_ID [OF j(1)] by simp
  then show ?thesis using j mem_lookup_put [of r j'] by auto
qed

lemma mem_change_err: "mem_change jid f r = (Some e, r') \<Longrightarrow> r' = r"
  by (auto simp: mem_change_def split: option.splits sum.splits)

lemma mem_select_stored: "j \<in> set (mem_select p r) \<Longrightarrow> mem_lookup r (job_ID j) = Some j"
  by (simp add: mem_select_def)

lemma find_snoc: "find p (xs @ [x]) = (case find p xs of None \<Rightarrow> if p x then Some x else None | Some y \<Rightarrow> Some y)"
  by (induction xs) auto

lemma mem_Create_new:
  "mem_lookup r (job_ID j) = None \<Longrightarrow> mem_lookup (r\<lparr>mem_jobs := mem_jobs r @ [j]\<rparr>) = (mem_lookup r)(job_ID j \<mapsto> j)"
  by (rule ext) (auto simp: mem_lookup_def find_snoc split: option.splits)

lemma mem_Lock_ok:
  assumes "mem_Lock jid w d r = (Inr (Some j), r')"
  shows "\<exists>j0. mem_lookup r jid = Some j0 \<and> Job_Lock (mem_now r) w d j0 = Inr j \<and> \<not> Job_IsLocked (mem_now r) j0 \<and>
    mem_lookup r' = (mem_lookup r)(jid \<mapsto> j)"
proof -
  obtain j0 where j: "mem_lookup r jid = Some j0" "\<not> Job_IsLocked (mem_now r) j0" "Job_Lock (mem_now r) w d j0 = Inr j"
      "r' = mem_put j r"
    using assms by (auto simp: mem_Lock_def split: option.splits if_splits sum.splits)
  have "job_ID j = jid" using j(3) mem_lookup_ID [OF j(1)] by (auto simp: Job_Lock_def split: if_splits)
  then show ?thesis using j mem_lookup_put [of r j] by auto
qed

lemma mem_Lock_fail: "mem_Lock jid w d r = (res, r') \<Longrightarrow> res = Inr None \<or> res = Inl e \<Longrightarrow> r' = r"
  by (auto simp: mem_Lock_def split: option.splits if_splits sum.splits)

interpretation mem: job_repository mem_repo mem_lookup
proof unfold_locales
  fix r r' :: memRepo and j jid eo s s' js t f d w e res n
  show "mem_lookup r jid = Some j \<Longrightarrow> job_ID j = jid" by (rule mem_lookup_ID)
  show "(repo_Get mem_repo jid r = Inr j) = (mem_lookup r jid = Some j)"
    by (simp add: mem_repo_def split: option.splits)
  show "repo_Create mem_repo j r = (eo, r') \<Longrightarrow> mem_lookup r' = (if eo = None then (mem_lookup r)(job_ID j \<mapsto> j) else mem_lookup r)"
    by (auto simp: mem_repo_def mem_Create_new split: if_splits)
  show "repo_Create mem_repo j r = (None, r') \<Longrightarrow> mem_lookup r (job_ID j) = None"
    by (auto simp: mem_repo_def split: if_splits)
  show "mem_lookup r' = (if eo = None then (mem_lookup r)(job_ID j \<mapsto> j) else mem_lookup r)"
    if "repo_Update mem_repo j r = (eo, r')"
    using that by (auto simp: mem_repo_def mem_change_def mem_lookup_put split: option.splits)
  show "stored_list (mem_lookup r) (repo_ListByStatus mem_repo s r)"
      "stored_list (mem_lookup r) (repo_ListScheduled mem_repo t r)"
      "stored_list (mem_lookup r) (repo_List mem_repo f r)"
      "stored_list (mem_lookup r) (repo_GetStaleJobs mem_repo d r)"
      "stored_list (mem_lookup r) (repo_ListPending mem_repo n r)"
    by (auto simp: mem_repo_def stored_list_def mem_select_stored dest!: in_set_takeD)
  show "repo_ListByStatus mem_repo s r = Inr js \<Longrightarrow> j \<in> set js \<Longrightarrow> job_Status j = s"
    by (auto simp: mem_repo_def mem_select_def)
  show "\<exists>j t. mem_lookup r jid = Some j \<and> job_Status j = s \<and> mem_lookup r' = (mem_lookup r)(jid \<mapsto> j\<lparr>job_Status := s', job_UpdatedAt := t\<rparr>)"
    if "repo_UpdateStatus mem_repo jid s s' r = (None, r')"
    using that by (auto simp: mem_repo_def split: if_splits dest!: mem_change_ok [rotated])
  show "repo_UpdateStatus mem_repo jid s s' r = (Some e, r') \<Longrightarrow> mem_lookup r' = mem_lookup r"
      "repo_IncrementRetries mem_repo jid r = (Some e, r') \<Longrightarrow> mem_lookup r' = mem_lookup r"
      "repo_UnlockJob mem_repo jid w r = (Some e, r') \<Longrightarrow> mem_lookup r' = mem_lookup r"
    by (auto simp: mem_repo_def dest: mem_change_err)
  show "\<exists>j t. mem_lookup r jid = Some j \<and> mem_lookup r' = (mem_lookup r)(jid \<mapsto> j\<lparr>job_RetryCount := job_RetryCount j + 1, job_UpdatedAt := t\<rparr>)"
    if "repo_IncrementRetries mem_repo jid r = (None, r')"
    using that by (auto simp: mem_repo_def dest!: mem_change_ok [rotated])
  show "\<exists>j0 t. mem_lookup r jid = Some j0 \<and> Job_Lock t w d j0 = Inr j \<and> \<not> Job_IsLocked t j0 \<and> mem_lookup r' = (mem_lookup r)(jid \<mapsto> j)"
    if "repo_LockForProcessing mem_repo jid w d r = (Inr (Some j), r')"
    using that mem_Lock_ok by (fastforce simp: mem_repo_def)
  show "repo_LockForProcessing mem_repo jid w d r = (res, r') \<Longrightarrow> res = Inr None \<or> res = Inl e \<Longrightarrow> mem_lookup r' = mem_lookup r"
    using mem_Lock_fail by (fastforce simp: mem_repo_def)
  show "\<exists>j t. mem_lookup r jid = Some j \<and> mem_lookup r' = (mem_lookup r)(jid \<mapsto> Job_Unlock t j)"
    if "repo_UnlockJob mem_repo jid w r = (None, r')"
    using that by (auto simp: mem_repo_def Job_Unlock_def split: if_splits dest!: mem_change_ok [rotated])
qed

end
