(* ===== verification/Scheduler_Queue.thy ===== *)
theory Scheduler_Queue
  imports Priority_Queue Job_Repository
begin

text \<open>
  The job queue of \<open>pkg/domain/job/scheduler/queue.go\<close> and the priority scheduler that wraps it
  (second half of \<open>priority_queue.go\<close>).

  The record \<open>queue\<close> holds the configuration, the running flag, the channel of free worker IDs and
  the counters; the repository \<open>R\<close> and the job processor \<open>proc\<close> are arguments, the store \<open>r\<close> is
  threaded. A job passed by pointer and changed by an operation is returned with the result. The
  goroutines are the functions they run: \<open>worker_step\<close> is one turn of a worker's loop, the pollers
  call \<open>processScheduledJobs\<close> and \<open>cleanStaleLocks\<close>. \<open>clk k\<close> is the k-th reading of the clock in a
  call. A context is its deadline.
\<close>

section \<open>Configuration, state and statistics\<close>

record Config =
  cfg_Workers :: int
  cfg_MaxRetries :: int
  cfg_RetryDelay :: duration
  cfg_LockDuration :: duration
  cfg_StaleLockTimeout :: duration
  cfg_PollInterval :: duration
  cfg_EnablePriority :: bool

definition DefaultConfig :: Config where
  "DefaultConfig = \<lparr>cfg_Workers = 4, cfg_MaxRetries = 3, cfg_RetryDelay = 30 * Second,
     cfg_LockDuration = 5 * Minute, cfg_StaleLockTimeout = 10 * Minute, cfg_PollInterval = 1 * Second,
     cfg_EnablePriority = True\<rparr>"

record queue =
  q_config :: Config
  q_running :: bool
  q_workerIDs :: "string list"
  q_enqueuedCount :: int
  q_processedCount :: int
  q_failedCount :: int
  q_retryCount :: int
  q_totalWaitTime :: int
  q_totalExecTime :: int

record QueueStats =
  qs_TotalJobs :: int
  qs_JobsByStatus :: "(JobStatus \<times> int) list"
  qs_EnqueuedCount :: int
  qs_ProcessedCount :: int
  qs_FailedCount :: int
  qs_RetryCount :: int
  qs_AverageWaitTime :: duration
  qs_AverageExecTime :: duration
  qs_WorkersActive :: int
  qs_WorkersTotal :: int
  qs_LastProcessedAt :: time
  qs_QueueDepth :: int

definition worker_name :: "nat \<Rightarrow> string" where
  "worker_name i = ''worker-'' @ itoa (int i)"

definition NewQueue :: "Config \<Rightarrow> queue" where
  "NewQueue config = \<lparr>q_config = config, q_running = False,
     q_workerIDs = map worker_name [0..<nat (cfg_Workers config)],
     q_enqueuedCount = 0, q_processedCount = 0, q_failedCount = 0, q_retryCount = 0,
     q_totalWaitTime = 0, q_totalExecTime = 0\<rparr>"

text \<open>\<open>Stop\<close> waits for the workers; \<open>finished\<close> says whether they end within the 30 seconds.\<close>

definition queue_Start :: "queue \<Rightarrow> queue result" where
  "queue_Start q = (if q_running q then Inl (ErrorString ''queue already running'') else Inr (q\<lparr>q_running := True\<rparr>))"

definition queue_Stop :: "bool \<Rightarrow> queue \<Rightarrow> error option \<times> queue" where
  "queue_Stop finished q =
     (if \<not> q_running q then (Some (ErrorString ''queue not running''), q)
      else (if finished then None else Some (ErrorString ''queue stop timeout''), q\<lparr>q_running := False\<rparr>))"

section \<open>Entering and leaving the queue\<close>

definition queue_Enqueue :: "'r JobRepository \<Rightarrow> time \<Rightarrow> Job \<Rightarrow> queue \<Rightarrow> 'r \<Rightarrow> error option \<times> Job \<times> queue \<times> 'r" where
  "queue_Enqueue R now job q r =
     (if \<not> q_running q then (Some (ErrorString ''queue not running''), job, q, r)
      else case Job_Validate job of
        Some e \<Rightarrow> (Some (WrapError ''invalid job: '' e), job, q, r)
      | None \<Rightarrow>
        let job1 = (if job_MaxRetries job = 0 then job\<lparr>job_MaxRetries := cfg_MaxRetries (q_config q)\<rparr> else job);
            job2 = (if job_RetryDelay job1 = 0 then job1\<lparr>job_RetryDelay := cfg_RetryDelay (q_config q)\<rparr> else job1)
        in (case Job_Queue now job2 of
              Inl e \<Rightarrow> (Some (WrapError ''failed to queue job: '' e), job2, q, r)
            | Inr job3 \<Rightarrow>
                (case repo_Create R job3 r of
                   (Some e, r') \<Rightarrow> (Some (WrapError ''failed to persist job: '' e), job3, q, r')
                 | (None, r') \<Rightarrow> (None, job3, q\<lparr>q_enqueuedCount := wrap64 (q_enqueuedCount q + 1)\<rparr>, r'))))"

definition queue_EnqueueWithDelay ::
    "'r JobRepository \<Rightarrow> time \<Rightarrow> time \<Rightarrow> duration \<Rightarrow> Job \<Rightarrow> queue \<Rightarrow> 'r \<Rightarrow> error option \<times> Job \<times> queue \<times> 'r" where
  "queue_EnqueueWithDelay R now now2 delay job q r =
     queue_Enqueue R now2 (job\<lparr>job_ScheduledAt := Some (time_Add now delay)\<rparr>) q r"

definition queue_Cancel :: "'r JobRepository \<Rightarrow> time \<Rightarrow> string \<Rightarrow> 'r \<Rightarrow> error option \<times> 'r" where
  "queue_Cancel R now jobID r = (case repo_Get R jobID r of
       Inl e \<Rightarrow> (Some (WrapError ''failed to get job: '' e), r)
     | Inr job \<Rightarrow>
         if Job_IsFinished job then (Some (ErrorString (''cannot cancel finished job: '' @ JobStatus_String (job_Status job))), r)
         else case Job_Cancel now job of
             Inl e \<Rightarrow> (Some (WrapError ''failed to cancel job: '' e), r)
           | Inr job' \<Rightarrow>
               (case repo_Update R job' r of
                  (Some e, r') \<Rightarrow> (Some (WrapError ''failed to update job: '' e), r')
                | (None, r') \<Rightarrow> (None, r')))"

definition quot_int :: "int \<Rightarrow> int \<Rightarrow> int" where
  "quot_int a b = sgn a * sgn b * (\<bar>a\<bar> div \<bar>b\<bar>)"

definition queue_GetStats :: "'r JobRepository \<Rightarrow> queue \<Rightarrow> 'r \<Rightarrow> QueueStats" where
  "queue_GetStats R q r =
     (let n = q_processedCount q;
          stats = \<lparr>qs_TotalJobs = 0, qs_JobsByStatus = [], qs_EnqueuedCount = q_enqueuedCount q,
            qs_ProcessedCount = n, qs_FailedCount = q_failedCount q, qs_RetryCount = q_retryCount q,
            qs_AverageWaitTime = (if n > 0 then quot_int (q_totalWaitTime q) n else 0),
            qs_AverageExecTime = (if n > 0 then quot_int (q_totalExecTime q) n else 0),
            qs_WorkersActive = cfg_Workers (q_config q) - int (length (q_workerIDs q)),
            qs_WorkersTotal = cfg_Workers (q_config q), qs_LastProcessedAt = time_zero, qs_QueueDepth = 0\<rparr>
      in case repo_CountByStatus R r of
           Inl _ \<Rightarrow> stats
         | Inr counts \<Rightarrow> stats\<lparr>qs_JobsByStatus := counts,
             qs_TotalJobs := fold (\<lambda>(_, c) acc. wrap64 (acc + c)) counts 0,
             qs_QueueDepth := (case map_of counts StatusQueued of None \<Rightarrow> 0 | Some c \<Rightarrow> c)\<rparr>)"

definition queue_GetJob :: "'r JobRepository \<Rightarrow> string \<Rightarrow> 'r \<Rightarrow> Job result" where
  "queue_GetJob R jobID r = repo_Get R jobID r"

definition queue_ListJobs :: "'r JobRepository \<Rightarrow> JobFilter \<Rightarrow> 'r \<Rightarrow> Job list result" where
  "queue_ListJobs R f r = repo_List R f r"

section \<open>Choosing a job\<close>

definition ErrNoJobsAvailable :: error where
  "ErrNoJobsAvailable = ErrorString ''no jobs available''"

fun check_deps :: "'r JobRepository \<Rightarrow> string list \<Rightarrow> 'r \<Rightarrow> bool result" where
  "check_deps R [] r = Inr True"
| "check_deps R (depID # ds) r = (case repo_Get R depID r of
       Inl e \<Rightarrow> Inl (WrapError (''failed to get dependency '' @ depID @ '': '') e)
     | Inr dep \<Rightarrow> if job_Status dep \<noteq> StatusCompleted then Inr False else check_deps R ds r)"

definition queue_checkDependencies :: "'r JobRepository \<Rightarrow> Job \<Rightarrow> 'r \<Rightarrow> bool result" where
  "queue_checkDependencies R job r = check_deps R (job_Dependencies job) r"

fun lock_first :: "'r JobRepository \<Rightarrow> Config \<Rightarrow> string \<Rightarrow> Job list \<Rightarrow> 'r \<Rightarrow> Job result \<times> 'r" where
  "lock_first R cfg workerID [] r = (Inl ErrNoJobsAvailable, r)"
| "lock_first R cfg workerID (job # js) r =
     (if Job_HasDependencies job \<and> queue_checkDependencies R job r \<noteq> Inr True then lock_first R cfg workerID js r
      else case repo_LockForProcessing R (job_ID job) workerID (cfg_LockDuration cfg) r of
          (Inr (Some lockedJob), r') \<Rightarrow> (Inr lockedJob, r')
        | (_, r') \<Rightarrow> lock_first R cfg workerID js r')"

definition queue_getNextJob :: "'r JobRepository \<Rightarrow> Config \<Rightarrow> string \<Rightarrow> 'r \<Rightarrow> Job result \<times> 'r" where
  "queue_getNextJob R cfg workerID r = (case repo_ListPending R 10 r of
       Inl e \<Rightarrow> (Inl (WrapError ''failed to list pending jobs: '' e), r)
     | Inr [] \<Rightarrow> (Inl ErrNoJobsAvailable, r)
     | Inr jobs \<Rightarrow> lock_first R cfg workerID jobs r)"

section \<open>Running a job\<close>

text \<open>\<open>proc deadline job r\<close> is \<open>processor.Process\<close> under a context with that deadline.\<close>

type_synonym 'r processor = "time \<Rightarrow> Job \<Rightarrow> 'r \<Rightarrow> error option \<times> Job \<times> 'r"

definition queue_handleJobError ::
    "'r JobRepository \<Rightarrow> (nat \<Rightarrow> time) \<Rightarrow> Job \<Rightarrow> error \<Rightarrow> queue \<Rightarrow> 'r \<Rightarrow> Job \<times> queue \<times> 'r" where
  "queue_handleJobError R clk job err q r =
     (let q1 = q\<lparr>q_failedCount := wrap64 (q_failedCount q + 1)\<rparr> in
      case Job_Fail (clk 0) (err_Error err) job of
        Inl _ \<Rightarrow> (job, q1, r)
      | Inr job1 \<Rightarrow>
          let (job2, q2) = (if Job_CanRetry job1
                then ((Job_IncrementRetries (clk 1) (clk 2) job1)\<lparr>job_Status := StatusQueued\<rparr>,
                      q1\<lparr>q_retryCount := wrap64 (q_retryCount q1 + 1)\<rparr>)
                else (job1, q1))
          in (job2, q2, snd (repo_Update R job2 r)))"

definition exec_deadline :: "time \<Rightarrow> time \<Rightarrow> Job \<Rightarrow> time" where
  "exec_deadline deadline now job =
     (if job_MaxDuration job > 0 then min deadline (time_Add now (job_MaxDuration job)) else deadline)"

definition queue_executeJob ::
    "'r JobRepository \<Rightarrow> 'r processor \<Rightarrow> (nat \<Rightarrow> time) \<Rightarrow> time \<Rightarrow> Job \<Rightarrow> string \<Rightarrow> queue \<Rightarrow> 'r \<Rightarrow> Job \<times> queue \<times> 'r" where
  "queue_executeJob R proc clk deadline job workerID q r =
     (let q1 = (case job_QueuedAt job of None \<Rightarrow> q
                | Some t \<Rightarrow> q\<lparr>q_totalWaitTime := wrap64 (q_totalWaitTime q + time_Sub (clk 0) t)\<rparr>) in
      case Job_Start (clk 1) job of
        Inl e \<Rightarrow> queue_handleJobError R (\<lambda>k. clk (k + 5)) job e q1 r
      | Inr job1 \<Rightarrow>
        (case repo_Update R job1 r of
           (Some _, r1) \<Rightarrow> (job1, q1, r1)
         | (None, r1) \<Rightarrow>
             let (res, job2, r2) = proc (exec_deadline deadline (clk 3) job1) job1 r1;
                 q2 = q1\<lparr>q_totalExecTime := wrap64 (q_totalExecTime q1 + time_Sub (clk 4) (clk 2))\<rparr>
             in case res of
                  Some e \<Rightarrow>
                    let (job3, q3, r3) = queue_handleJobError R (\<lambda>k. clk (k + 5)) job2 e q2 r2
                    in (job3, q3, snd (repo_UnlockJob R (job_ID job3) workerID r3))
                | None \<Rightarrow>
                    (case Job_Complete (clk 5) job2 of
                       Inl _ \<Rightarrow> (job2, q2, r2)
                     | Inr job3 \<Rightarrow>
                         (case repo_Update R job3 r2 of
                            (Some _, r3) \<Rightarrow> (job3, q2, r3)
                          | (None, r3) \<Rightarrow>
                              (job3, q2\<lparr>q_processedCount := wrap64 (q_processedCount q2 + 1)\<rparr>,
                               snd (repo_UnlockJob R (job_ID job3) workerID r3))))))"

text \<open>The context of one turn of a worker ends 30 seconds after it starts (\<open>clk 0\<close>).\<close>

definition queue_processNextJob ::
    "'r JobRepository \<Rightarrow> 'r processor \<Rightarrow> (nat \<Rightarrow> time) \<Rightarrow> string \<Rightarrow> queue \<Rightarrow> 'r \<Rightarrow> queue \<times> 'r" where
  "queue_processNextJob R proc clk workerID q r =
     (case queue_getNextJob R (q_config q) workerID r of
        (Inl _, r1) \<Rightarrow> (q, r1)
      | (Inr job, r1) \<Rightarrow>
          snd (queue_executeJob R proc (\<lambda>k. clk (k + 1)) (time_Add (clk 0) (30 * Second)) job workerID q r1))"

text \<open>A worker that finds the channel of IDs empty blocks: \<open>None\<close>.\<close>

definition worker_step ::
    "'r JobRepository \<Rightarrow> 'r processor \<Rightarrow> (nat \<Rightarrow> time) \<Rightarrow> queue \<Rightarrow> 'r \<Rightarrow> (queue \<times> 'r) option" where
  "worker_step R proc clk q r = (case q_workerIDs q of
       [] \<Rightarrow> None
     | wid # wids \<Rightarrow>
         let (q1, r1) = queue_processNextJob R proc clk wid (q\<lparr>q_workerIDs := wids\<rparr>) r
         in Some (q1\<lparr>q_workerIDs := q_workerIDs q1 @ [wid]\<rparr>, r1))"

section \<open>The pollers\<close>

fun queue_scheduled :: "'r JobRepository \<Rightarrow> (nat \<Rightarrow> time) \<Rightarrow> Job list \<Rightarrow> 'r \<Rightarrow> 'r" where
  "queue_scheduled R clk [] r = r"
| "queue_scheduled R clk (job # js) r = (case Job_Queue (clk 0) job of
       Inl _ \<Rightarrow> queue_scheduled R (\<lambda>k. clk (k + 1)) js r
     | Inr job' \<Rightarrow> queue_scheduled R (\<lambda>k. clk (k + 1)) js (snd (repo_Update R job' r)))"

definition queue_processScheduledJobs :: "'r JobRepository \<Rightarrow> (nat \<Rightarrow> time) \<Rightarrow> 'r \<Rightarrow> 'r" where
  "queue_processScheduledJobs R clk r = (case repo_ListScheduled R (clk 0) r of
       Inl _ \<Rightarrow> r | Inr jobs \<Rightarrow> queue_scheduled R (\<lambda>k. clk (k + 1)) jobs r)"

fun release_stale :: "'r JobRepository \<Rightarrow> (nat \<Rightarrow> time) \<Rightarrow> Job list \<Rightarrow> 'r \<Rightarrow> 'r" where
  "release_stale R clk [] r = r"
| "release_stale R clk (job # js) r =
     release_stale R (\<lambda>k. clk (k + 1)) js (snd (repo_Update R ((Job_Unlock (clk 0) job)\<lparr>job_Status := StatusQueued\<rparr>) r))"

definition queue_cleanStaleLocks :: "'r JobRepository \<Rightarrow> Config \<Rightarrow> (nat \<Rightarrow> time) \<Rightarrow> 'r \<Rightarrow> 'r" where
  "queue_cleanStaleLocks R cfg clk r = (case repo_GetStaleJobs R (cfg_StaleLockTimeout cfg) r of
       Inl _ \<Rightarrow> r | Inr jobs \<Rightarrow> release_stale R clk jobs r)"

section \<open>The priority scheduler\<close>

record PriorityScheduler =
  ps_queue :: queue
  ps_priorityQueue :: priorityQueue

definition NewPriorityScheduler :: "Config \<Rightarrow> PriorityScheduler" where
  "NewPriorityScheduler config =
     \<lparr>ps_queue = NewQueue (config\<lparr>cfg_EnablePriority := True\<rparr>), ps_priorityQueue = NewPriorityQueue\<rparr>"

text \<open>\<open>Push\<close> with its error only logged.\<close>

definition pq_push_ignore :: "Job \<Rightarrow> priorityQueue \<Rightarrow> priorityQueue" where
  "pq_push_ignore job pq = (case pq_Push (Some job) pq of Inl _ \<Rightarrow> pq | Inr pq' \<Rightarrow> pq')"

text \<open>One turn of the loop of \<open>getNextJob\<close>: a job to return, or the state to continue with.\<close>

definition ps_try ::
    "'r JobRepository \<Rightarrow> Config \<Rightarrow> string \<Rightarrow> priorityQueue \<Rightarrow> 'r \<Rightarrow> Job option \<times> priorityQueue \<times> 'r" where
  "ps_try R cfg workerID pq r = (case pq_Pop pq of
       Inl _ \<Rightarrow> (None, pq, r)
     | Inr (job, pq1) \<Rightarrow>
         (case repo_Get R (job_ID job) r of
            Inl _ \<Rightarrow> (None, pq1, r)
          | Inr currentJob \<Rightarrow>
              if job_Status currentJob \<noteq> StatusQueued then (None, pq1, r)
              else let ready = (if Job_HasDependencies currentJob then queue_checkDependencies R currentJob r else Inr True)
                   in case ready of
                        Inl _ \<Rightarrow> (None, pq1, r)
                      | Inr False \<Rightarrow> (None, pq_push_ignore currentJob pq1, r)
                      | Inr True \<Rightarrow>
                          (case repo_LockForProcessing R (job_ID currentJob) workerID (cfg_LockDuration cfg) r of
                             (Inl _, r1) \<Rightarrow> (None, pq_push_ignore currentJob pq1, r1)
                           | (Inr None, r1) \<Rightarrow> (None, pq1, r1)
                           | (Inr (Some lockedJob), r1) \<Rightarrow> (Some lockedJob, pq1, r1))))"

text \<open>\<open>None\<close> is a loop that does not end.\<close>

partial_function (option) ps_getNextJob ::
    "'r JobRepository \<Rightarrow> Config \<Rightarrow> string \<Rightarrow> priorityQueue \<Rightarrow> 'r \<Rightarrow> (Job result \<times> priorityQueue \<times> 'r) option" where
  "ps_getNextJob R cfg workerID pq r =
     (if pq_Size pq > 0 then
        (case ps_try R cfg workerID pq r of
           (Some job, pq', r') \<Rightarrow> Some (Inr job, pq', r')
         | (None, pq', r') \<Rightarrow> ps_getNextJob R cfg workerID pq' r')
      else (case queue_getNextJob R cfg workerID r of (res, r') \<Rightarrow> Some (res, pq, r')))"

definition ps_Enqueue ::
    "'r JobRepository \<Rightarrow> time \<Rightarrow> time \<Rightarrow> Job \<Rightarrow> PriorityScheduler \<Rightarrow> 'r \<Rightarrow> error option \<times> Job \<times> PriorityScheduler \<times> 'r" where
  "ps_Enqueue R now now2 job ps r = (case queue_Enqueue R now job (ps_queue ps) r of
       (Some e, job', q, r') \<Rightarrow> (Some e, job', ps\<lparr>ps_queue := q\<rparr>, r')
     | (None, job', q, r') \<Rightarrow>
         (None, job',
          ps\<lparr>ps_queue := q, ps_priorityQueue := (if Job_IsScheduled now2 job' then ps_priorityQueue ps
            else pq_push_ignore job' (ps_priorityQueue ps))\<rparr>, r'))"

fun ps_sync :: "(nat \<Rightarrow> time) \<Rightarrow> Job list \<Rightarrow> priorityQueue \<Rightarrow> priorityQueue" where
  "ps_sync clk [] pq = pq"
| "ps_sync clk (job # js) pq = ps_sync (\<lambda>k. clk (k + 2)) js
     (if \<not> Job_IsScheduled (clk 0) job \<and> \<not> Job_IsLocked (clk 1) job then pq_push_ignore job pq else pq)"

definition ps_processScheduledJobs ::
    "'r JobRepository \<Rightarrow> (nat \<Rightarrow> time) \<Rightarrow> (nat \<Rightarrow> time) \<Rightarrow> PriorityScheduler \<Rightarrow> 'r \<Rightarrow> PriorityScheduler \<times> 'r" where
  "ps_processScheduledJobs R clk clk2 ps r =
     (let r1 = queue_processScheduledJobs R clk r
      in case repo_ListByStatus R StatusQueued r1 of
           Inl _ \<Rightarrow> (ps, r1)
         | Inr jobs \<Rightarrow> (ps\<lparr>ps_priorityQueue := ps_sync clk2 jobs (pq_Clear (ps_priorityQueue ps))\<rparr>, r1))"

definition ps_GetStats :: "'r JobRepository \<Rightarrow> PriorityScheduler \<Rightarrow> 'r \<Rightarrow> QueueStats" where
  "ps_GetStats R ps r =
     (queue_GetStats R (ps_queue ps) r)\<lparr>qs_QueueDepth := int (pq_Size (ps_priorityQueue ps))\<rparr>"

definition ps_Cancel ::
    "'r JobRepository \<Rightarrow> time \<Rightarrow> string \<Rightarrow> PriorityScheduler \<Rightarrow> 'r \<Rightarrow> (error option \<times> PriorityScheduler \<times> 'r) go" where
  "ps_Cancel R now jobID ps r =
     (let cancel = (\<lambda>pq. let (e, r') = queue_Cancel R now jobID r in Ret (e, ps\<lparr>ps_priorityQueue := pq\<rparr>, r'))
      in if pq_Contains jobID (ps_priorityQueue ps)
         then case pq_Remove jobID (ps_priorityQueue ps) of
                Panic \<Rightarrow> Panic
              | Ret (Inl _) \<Rightarrow> cancel (ps_priorityQueue ps)
              | Ret (Inr pq) \<Rightarrow> cancel pq
         else cancel (ps_priorityQueue ps))"

section \<open>Choosing a job: the repository's laws at work\<close>

context job_repository
begin

lemma jobs_Get: "jobs r d = (case repo_Get R d r of Inl _ \<Rightarrow> None | Inr j \<Rightarrow> Some j)"
proof (cases "repo_Get R d r")
  case (Inl e)
  then have "jobs r d \<noteq> Some j" for j using Get [of d r j] by simp
  then have "jobs r d = None" by blast
  then show ?thesis using Inl by simp
next
  case (Inr j)
  then show ?thesis using Get [of d r j] by simp
qed

lemma check_deps_True:
  "check_deps R ds r = Inr True \<longleftrightarrow> (\<forall>d \<in> set ds. \<exists>dep. jobs r d = Some dep \<and> job_Status dep = StatusCompleted)"
proof (induction ds)
  case (Cons d ds)
  then show ?case using jobs_Get [of r d] by (cases "repo_Get R d r") auto
qed simp

lemma Lock_fail': "repo_LockForProcessing R jid w d r = (Inl e, r') \<Longrightarrow> jobs r' = jobs r"
  "repo_LockForProcessing R jid w d r = (Inr None, r') \<Longrightarrow> jobs r' = jobs r"
  using Lock_fail by blast+

definition next_job :: "string \<Rightarrow> 'r \<Rightarrow> Job \<Rightarrow> 'r \<Rightarrow> bool" where
  "next_job w r j r' \<longleftrightarrow> (\<exists>j0. jobs r (job_ID j) = Some j0 \<and> job_Status j0 = StatusQueued \<and>
     (\<forall>d \<in> set (job_Dependencies j0). \<exists>dep. jobs r d = Some dep \<and> job_Status dep = StatusCompleted) \<and>
     job_LockedBy j = w \<and> jobs r' = (jobs r)(job_ID j \<mapsto> j))"

lemma Lock_next:
  assumes lock: "repo_LockForProcessing R (job_ID job) w d r = (Inr (Some j), r')" and st: "jobs r (job_ID job) = Some job"
    and dep: "\<forall>d \<in> set (job_Dependencies job). \<exists>dep. jobs r d = Some dep \<and> job_Status dep = StatusCompleted"
  shows "next_job w r j r'"
proof -
  obtain t where t: "Job_Lock t w d job = Inr j" "jobs r' = (jobs r)(job_ID job \<mapsto> j)"
    using Lock [OF lock] st by auto
  then have "job_ID j = job_ID job" "job_Status job = StatusQueued" "job_LockedBy j = w"
    by (auto simp: Job_Lock_def split: if_splits)
  then show ?thesis using t st dep by (auto simp: next_job_def)
qed

lemma lock_first_sound:
  "lock_first R cfg w js r = (res, r') \<Longrightarrow> \<forall>j \<in> set js. jobs r (job_ID j) = Some j \<Longrightarrow>
     (case res of Inl e \<Rightarrow> jobs r' = jobs r | Inr j \<Rightarrow> next_job w r j r')"
proof (induction js arbitrary: r)
  case (Cons job js)
  obtain lr r1 where lock: "repo_LockForProcessing R (job_ID job) w (cfg_LockDuration cfg) r = (lr, r1)" by fastforce
  show ?case
  proof (cases "Job_HasDependencies job \<and> queue_checkDependencies R job r \<noteq> Inr True")
    case True
    then show ?thesis using Cons by simp
  next
    case False
    then have dep: "\<forall>d \<in> set (job_Dependencies job). \<exists>dep. jobs r d = Some dep \<and> job_Status dep = StatusCompleted"
      using check_deps_True [of "job_Dependencies job" r]
      by (cases "job_Dependencies job") (auto simp: Job_HasDependencies_def queue_checkDependencies_def)
    show ?thesis
    proof (cases "\<exists>j. lr = Inr (Some j)")
      case True
      then show ?thesis using Cons.prems False lock Lock_next [OF _ _ dep] by auto
    next
      case no: False
      then have "lr = Inr None \<or> (\<exists>e. lr = Inl e)" by (cases lr) auto
      then have eq: "jobs r1 = jobs r" "lock_first R cfg w js r1 = (res, r')"
        using lock Lock_fail' Cons.prems(1) False by (auto split: option.splits sum.splits)
      then have "case res of Inl e \<Rightarrow> jobs r' = jobs r1 | Inr j \<Rightarrow> next_job w r1 j r'"
        using Cons.IH [OF eq(2)] Cons.prems(2) by simp
      then show ?thesis by (cases res) (simp_all add: next_job_def eq(1))
    qed
  qed
qed auto

lemma getNextJob_sound:
  assumes "queue_getNextJob R cfg w r = (res, r')"
  shows "case res of Inl e \<Rightarrow> jobs r' = jobs r | Inr j \<Rightarrow> next_job w r j r'"
proof (cases "repo_ListPending R 10 r")
  case (Inl e)
  then show ?thesis using assms by (auto simp: queue_getNextJob_def)
next
  case (Inr js)
  have st: "\<forall>j \<in> set js. jobs r (job_ID j) = Some j" using ListPending [of r 10] Inr stored by simp
  show ?thesis
  proof (cases js)
    case Nil
    then show ?thesis using assms Inr by (auto simp: queue_getNextJob_def)
  next
    case (Cons j js')
    then show ?thesis using lock_first_sound [OF _ st] assms Inr by (auto simp: queue_getNextJob_def)
  qed
qed

end

section \<open>Properties of the queue\<close>

text \<open>C5: \<open>getNextJob\<close> hands a worker only a queued job of the store all of whose dependencies are
  completed, and the store then holds that job locked by the worker; when it returns an error the
  stored jobs are unchanged.
\<close>

theorem getNextJob_dependencies_done:
  assumes "job_repository R jobs" and "queue_getNextJob R cfg w r = (res, r')"
  shows "case res of Inl e \<Rightarrow> jobs r' = jobs r
    | Inr j \<Rightarrow> \<exists>j0. jobs r (job_ID j) = Some j0 \<and> job_Status j0 = StatusQueued \<and>
        (\<forall>d \<in> set (job_Dependencies j0). \<exists>dep. jobs r d = Some dep \<and> job_Status dep = StatusCompleted) \<and>
        job_LockedBy j = w \<and> jobs r' = (jobs r)(job_ID j \<mapsto> j)"
  using job_repository.getNextJob_sound [OF assms]
  by (cases res) (simp_all add: job_repository.next_job_def [OF assms(1)])

definition sample_store :: memRepo where
  "sample_store = \<lparr>mem_jobs = [(sample_job ''a'' 1 (Some 5))\<lparr>job_Status := StatusQueued\<rparr>,
     (sample_job ''b'' 2 (Some 7))\<lparr>job_Status := StatusQueued, job_Dependencies := [''a'']\<rparr>], mem_now = 100\<rparr>"

theorem getNextJob_dependencies_done_witness:
  "\<exists>j r'. queue_getNextJob mem_repo DefaultConfig ''worker-0'' sample_store = (Inr j, r') \<and>
     job_ID j = ''a'' \<and> job_LockedBy j = ''worker-0'' \<and> mem_lookup r' ''a'' = Some j"
proof -
  obtain res r' where n: "queue_getNextJob mem_repo DefaultConfig ''worker-0'' sample_store = (res, r')" by fastforce
  then obtain j where j: "res = Inr j" "job_ID j = ''a''"
    by (auto simp: queue_getNextJob_def mem_repo_def sample_store_def mem_select_def mem_lookup_def Job_HasDependencies_def
        queue_checkDependencies_def mem_Lock_def Job_IsLocked_def Job_Lock_def split: if_splits)
  then show ?thesis using getNextJob_dependencies_done [OF mem.job_repository_axioms n] n by auto
qed

text \<open>\<open>Enqueue\<close> succeeds only for a valid, pending job on a running queue; then the store gains
  exactly that job, queued now and with the configured retry settings for those that were zero. An
  error leaves the stored jobs and the counters as they were.
\<close>

theorem enqueue_exact:
  assumes "job_repository R jobs" and "queue_Enqueue R now job q r = (res, job', q', r')"
  shows "case res of
      Some e \<Rightarrow> jobs r' = jobs r \<and> q' = q
    | None \<Rightarrow> q_running q \<and> Job_Validate job = None \<and> job_Status job = StatusPending \<and> jobs r (job_ID job) = None \<and>
        jobs r' = (jobs r)(job_ID job \<mapsto> job') \<and> job_Status job' = StatusQueued \<and> job_QueuedAt job' = Some now \<and>
        job_MaxRetries job' = (if job_MaxRetries job = 0 then cfg_MaxRetries (q_config q) else job_MaxRetries job) \<and>
        job_RetryDelay job' = (if job_RetryDelay job = 0 then cfg_RetryDelay (q_config q) else job_RetryDelay job)"
  using assms(2) job_repository.Create [OF assms(1)] job_repository.Create_new [OF assms(1)]
  by (fastforce simp: queue_Enqueue_def Job_Queue_def Let_def split: if_splits option.splits prod.splits)

theorem enqueue_exact_witness:
  "\<exists>job' q' r'. queue_Enqueue mem_repo 50 (sample_job ''c'' 1 None) (projr (queue_Start (NewQueue DefaultConfig))) sample_store
     = (None, job', q', r') \<and> job_MaxRetries job' = 3 \<and> mem_lookup r' ''c'' = Some job'"
proof -
  obtain res job' q' r' where e: "queue_Enqueue mem_repo 50 (sample_job ''c'' 1 None)
      (projr (queue_Start (NewQueue DefaultConfig))) sample_store = (res, job', q', r')" by (metis prod_cases4)
  have "res = None"
    using e by (auto simp: queue_Enqueue_def queue_Start_def NewQueue_def sample_job_def NewJob_def Job_Validate_def
        Job_Queue_def mem_repo_def mem_lookup_def sample_store_def PriorityLow_def PriorityCritical_def Let_def split: if_splits)
  then show ?thesis
    using enqueue_exact [OF mem.job_repository_axioms e] e
    by (simp add: queue_Start_def NewQueue_def DefaultConfig_def)
qed

lemma exec_deadline_le: "exec_deadline d now j \<le> d"
  by (simp add: exec_deadline_def)

text \<open>Whatever maximal duration a job asks for, a worker runs the processor under a context that
  ends at most 30 seconds after the worker's turn began: two processors that agree on such contexts
  cannot be told apart.
\<close>

theorem processNextJob_deadline:
  assumes "\<And>d j r. d \<le> clk 0 + 30 * Second \<Longrightarrow> proc d j r = proc' d j r"
  shows "queue_processNextJob R proc clk w q r = queue_processNextJob R proc' clk w q r"
proof -
  have "queue_executeJob R proc c d j w q r = queue_executeJob R proc' c d j w q r" if "d \<le> clk 0 + 30 * Second" for c d j r
  proof -
    have "proc (exec_deadline d n j) = proc' (exec_deadline d n j)" for n j
      using assms exec_deadline_le [of d n j] that by (intro ext) simp
    then show ?thesis unfolding queue_executeJob_def by (intro arg_cong2 [of _ _ _ _ Let] refl ext sum.case_cong prod.case_cong option.case_cong) (simp_all)
  qed
  then show ?thesis by (simp add: queue_processNextJob_def time_Add_def split: prod.splits sum.splits)
qed

theorem processNextJob_deadline_witness:
  "queue_processNextJob mem_repo (\<lambda>d j r. (None, j, r)) (\<lambda>_. 0) ''worker-0'' (NewQueue DefaultConfig) sample_store =
   queue_processNextJob mem_repo (\<lambda>d j r. (if d > 31 * Second then Some ErrNoJobsAvailable else None, j, r)) (\<lambda>_. 0)
     ''worker-0'' (NewQueue DefaultConfig) sample_store"
  by (rule processNextJob_deadline) (simp add: Second_def)

section \<open>Retries\<close>

text \<open>\<open>n\<close> executions of a job in a row, each with its own clock.\<close>

fun exec_times ::
    "'r JobRepository \<Rightarrow> 'r processor \<Rightarrow> (nat \<Rightarrow> nat \<Rightarrow> time) \<Rightarrow> time \<Rightarrow> string \<Rightarrow> nat \<Rightarrow> Job \<times> queue \<times> 'r \<Rightarrow> Job \<times> queue \<times> 'r" where
  "exec_times R proc clks d w 0 st = st"
| "exec_times R proc clks d w (Suc n) (j, q, r) =
     exec_times R proc (\<lambda>i. clks (Suc i)) d w n (queue_executeJob R proc (clks 0) d j w q r)"

text \<open>A processor that fails every job and leaves its status and its retry fields alone.\<close>

definition always_fails :: "'r processor \<Rightarrow> bool" where
  "always_fails proc \<longleftrightarrow> (\<forall>d j r eo j' r'. proc d j r = (eo, j', r') \<longrightarrow> eo \<noteq> None \<and> job_Status j' = job_Status j \<and>
     job_RetryCount j' = job_RetryCount j \<and> job_MaxRetries j' = job_MaxRetries j)"

lemma always_failsD:
  assumes "always_fails proc" and "proc d j r = (eo, j', r')"
  shows "eo \<noteq> None \<and> job_Status j' = job_Status j \<and> job_RetryCount j' = job_RetryCount j \<and> job_MaxRetries j' = job_MaxRetries j"
  using assms unfolding always_fails_def by blast

definition retry_view :: "Job \<Rightarrow> JobStatus \<times> int \<times> int" where
  "retry_view j = (job_Status j, job_RetryCount j, job_MaxRetries j)"

lemma set_execution_time_fields [simp]:
  "job_Status (set_execution_time now j) = job_Status j" "job_RetryCount (set_execution_time now j) = job_RetryCount j"
  "job_MaxRetries (set_execution_time now j) = job_MaxRetries j" "job_StartedAt (set_execution_time now j) = job_StartedAt j"
  "job_CompletedAt (set_execution_time now j) = job_CompletedAt j" "job_ID (set_execution_time now j) = job_ID j"
  "job_MaxDuration (set_execution_time now j) = job_MaxDuration j"
  by (simp_all add: set_execution_time_def split: option.splits)

lemma IncrementRetries_fields [simp]:
  "job_RetryCount (Job_IncrementRetries t t' j) = wrap64 (job_RetryCount j + 1)"
  "job_MaxRetries (Job_IncrementRetries t t' j) = job_MaxRetries j"
  "job_StartedAt (Job_IncrementRetries t t' j) = job_StartedAt j"
  "job_CompletedAt (Job_IncrementRetries t t' j) = job_CompletedAt j"
  "job_ID (Job_IncrementRetries t t' j) = job_ID j"
  "job_MaxDuration (Job_IncrementRetries t t' j) = job_MaxDuration j"
  by (simp_all add: Job_IncrementRetries_def Let_def)

lemma handleJobError_view:
  assumes "job_Status j = StatusRunning" "job_RetryCount j < 2 ^ 63 - 1" "0 \<le> job_RetryCount j"
  shows "retry_view (fst (queue_handleJobError R clk j e q r)) =
    (if job_RetryCount j < job_MaxRetries j then (StatusQueued, job_RetryCount j + 1, job_MaxRetries j)
     else (StatusFailed, job_RetryCount j, job_MaxRetries j))"
  using assms by (simp add: queue_handleJobError_def retry_view_def Job_Fail_def Job_CanRetry_def Let_def wrap64_id int64_def)

lemma executeJob_fails:
  assumes f: "always_fails proc" and upd: "\<And>j r. fst (repo_Update R j r) = None"
    and j: "retry_view j = (StatusQueued, n, m)" "0 \<le> n" "n < 2 ^ 63 - 1"
  shows "retry_view (fst (queue_executeJob R proc clk d j w q r)) =
    (if n < m then (StatusQueued, n + 1, m) else (StatusFailed, n, m))"
proof -
  let ?j1 = "j\<lparr>job_Status := StatusRunning, job_StartedAt := Some (clk 1), job_UpdatedAt := clk 1\<rparr>"
  obtain r1 where r1: "repo_Update R ?j1 r = (None, r1)" using upd by (metis prod.collapse)
  obtain eo j2 r2 where p: "proc (exec_deadline d (clk 3) ?j1) ?j1 r1 = (eo, j2, r2)" by (metis prod_cases3)
  then obtain e where e: "eo = Some e" "job_Status j2 = StatusRunning" "job_RetryCount j2 = n" "job_MaxRetries j2 = m"
    using always_failsD [OF f p] j(1) by (auto simp: retry_view_def)
  have start: "Job_Start (clk 1) j = Inr ?j1" using j(1) by (simp add: Job_Start_def retry_view_def)
  have "\<exists>q'. fst (queue_executeJob R proc clk d j w q r) = fst (queue_handleJobError R (\<lambda>k. clk (k + 5)) j2 e q' r2)"
    using r1 p e(1) start by (auto simp: queue_executeJob_def Let_def split: prod.splits) (metis fst_conv)
  then show ?thesis using handleJobError_view [of j2] e(2-4) j(2,3) by auto
qed

lemma exec_times_view:
  assumes f: "always_fails proc" and upd: "\<And>j r. fst (repo_Update R j r) = None"
  shows "retry_view j = (StatusQueued, n, m) \<Longrightarrow> 0 \<le> n \<Longrightarrow> n + int k \<le> m \<Longrightarrow> m < 2 ^ 63 - 1 \<Longrightarrow>
    retry_view (fst (exec_times R proc clks d w k (j, q, r))) = (StatusQueued, n + int k, m) \<and>
    (n + int k = m \<longrightarrow> retry_view (fst (exec_times R proc clks d w (Suc k) (j, q, r))) = (StatusFailed, m, m))"
proof (induction k arbitrary: clks j q r n)
  case 0
  then show ?case
    using executeJob_fails [OF f upd, of j n m] by (auto simp: retry_view_def split: prod.splits)
next
  case (Suc k)
  obtain j' q' r' where x: "queue_executeJob R proc (clks 0) d j w q r = (j', q', r')" by (metis prod_cases3)
  have "retry_view j' = (StatusQueued, n + 1, m)"
    using executeJob_fails [OF f upd Suc.prems(1,2), of "clks 0" d w q r] x Suc.prems by simp
  from Suc.IH [OF this, of "\<lambda>i. clks (Suc i)" q' r'] show ?case using Suc.prems x by (simp add: algebra_simps)
qed



section \<open>The priority scheduler\<close>

lemma pq_push_ignore_wf:
  assumes "pq_wf pq"
  shows "pq_wf (pq_push_ignore j pq) \<and>
    mset (pq_Jobs (pq_push_ignore j pq)) =
      (if job_ID j \<in> job_ID ` set (pq_Jobs pq) then mset (pq_Jobs pq) else add_mset j (mset (pq_Jobs pq)))"
proof -
  have "job_ID j \<in> job_ID ` set (pq_Jobs pq) \<longleftrightarrow> pq_index pq (job_ID j) \<noteq> None"
    using assms by (auto simp: pq_wf_def ids_jobs)
  then show ?thesis
    using assms pq_wf_Push [OF assms, of j]
    by (auto simp: pq_push_ignore_def pq_Push_def Let_def split: option.splits sum.splits)
qed

lemma pq_Pop_nonempty: "pq_Size pq > 0 \<Longrightarrow> \<exists>j pq'. pq_Pop pq = Inr (j, pq')"
  by (simp add: pq_Pop_def split: prod.splits)

lemma pq_Size_Jobs: "pq_Size pq = length (pq_Jobs pq)"
  by (simp add: pq_Size_def pq_Jobs_def)

lemma pq_wf_Pop_fresh:
  assumes "pq_wf pq" and "pq_Pop pq = Inr (j, pq')"
  shows "job_ID j \<notin> job_ID ` set (pq_Jobs pq')"
proof -
  have m: "mset (pq_Jobs pq) = mset (j # pq_Jobs pq')" using pq_wf_Pop [OF assms] by simp
  have "mset (map job_ID (pq_Jobs pq)) = mset (map job_ID (j # pq_Jobs pq'))" using m by (metis mset_map)
  then have "distinct (map job_ID (j # pq_Jobs pq'))"
    using assms(1) mset_eq_imp_distinct_iff by (metis pq_wf_def ids_jobs)
  then show ?thesis by simp
qed

text \<open>Every queued job waits for a dependency that is stored but not completed.\<close>

definition all_wait :: "'r JobRepository \<Rightarrow> priorityQueue \<Rightarrow> 'r \<Rightarrow> bool" where
  "all_wait R pq r \<longleftrightarrow> pq_wf pq \<and> pq_Jobs pq \<noteq> [] \<and>
     (\<forall>j \<in> set (pq_Jobs pq). \<exists>cur. repo_Get R (job_ID j) r = Inr cur \<and> job_ID cur = job_ID j \<and>
        job_Status cur = StatusQueued \<and> Job_HasDependencies cur \<and> queue_checkDependencies R cur r = Inr False)"

lemma all_wait_try:
  assumes "all_wait R pq r"
  shows "\<exists>pq'. ps_try R cfg w pq r = (None, pq', r) \<and> all_wait R pq' r"
proof -
  have wf: "pq_wf pq" and ne: "pq_Size pq > 0" using assms by (auto simp: all_wait_def pq_Size_Jobs)
  obtain j pq1 where pop: "pq_Pop pq = Inr (j, pq1)" using pq_Pop_nonempty [OF ne] by blast
  have p: "pq_wf pq1" "mset (pq_Jobs pq) = add_mset j (mset (pq_Jobs pq1))" using pq_wf_Pop [OF wf pop] by auto
  have set: "set (pq_Jobs pq) = insert j (set (pq_Jobs pq1))" using arg_cong [OF p(2), of set_mset] by simp
  obtain cur where cur: "repo_Get R (job_ID j) r = Inr cur" "job_ID cur = job_ID j" "job_Status cur = StatusQueued"
      "Job_HasDependencies cur" "queue_checkDependencies R cur r = Inr False"
    using assms set by (auto simp: all_wait_def)
  let ?pq = "pq_push_ignore cur pq1"
  have ps: "ps_try R cfg w pq r = (None, ?pq, r)" using pop cur by (simp add: ps_try_def)
  have q: "pq_wf ?pq" "mset (pq_Jobs ?pq) = add_mset cur (mset (pq_Jobs pq1))"
    using pq_push_ignore_wf [OF p(1), of cur] pq_wf_Pop_fresh [OF wf pop] cur(2) by auto
  have "set (pq_Jobs ?pq) = insert cur (set (pq_Jobs pq1))" using arg_cong [OF q(2), of set_mset] by simp
  then have "all_wait R ?pq r" using assms set q(1) cur by (auto simp: all_wait_def)
  with ps show ?thesis by blast
qed

text \<open>The loop of the priority scheduler's \<open>getNextJob\<close> does not end when every job in the priority
  queue waits for a dependency that is not completed: each such job is pushed back and popped again
  under the scheduler's lock.
\<close>

theorem ps_getNextJob_livelock:
  assumes "all_wait R pq r"
  shows "ps_getNextJob R cfg w pq r = None"
proof -
  have "\<not> all_wait R pq r" if "ps_getNextJob R cfg w pq r = Some y" for pq r y
  proof (rule ps_getNextJob.raw_induct [where P = "\<lambda>R cfg w pq r y. \<not> all_wait R pq r", OF _ that])
    fix loop R cfg w pq r y
    assume IH: "\<And>R cfg w pq r y. loop R cfg w pq r = Some y \<Longrightarrow> \<not> all_wait R pq r"
      and step: "(if 0 < pq_Size pq
        then case ps_try R cfg w pq r of (None, pq', r') \<Rightarrow> loop R cfg w pq' r' | (Some job, pq', r') \<Rightarrow> Some (Inr job, pq', r')
        else case queue_getNextJob R cfg w r of (res, r') \<Rightarrow> Some (res, pq, r')) = Some y"
    show "\<not> all_wait R pq r"
    proof
      assume a: "all_wait R pq r"
      obtain pq' where t: "ps_try R cfg w pq r = (None, pq', r)" "all_wait R pq' r"
        using all_wait_try [OF a, of cfg w] by blast
      have "pq_Size pq > 0" using a by (auto simp: all_wait_def pq_Size_Jobs)
      then have "loop R cfg w pq' r = Some y" using step t(1) by simp
      then show False using IH t(2) by blast
    qed
  qed
  then show ?thesis using assms by (cases "ps_getNextJob R cfg w pq r") auto
qed

text \<open>A job waiting for itself, in the store and in the queue: the witness of the livelock.\<close>

definition waiting_job :: Job where
  "waiting_job = (sample_job ''b'' 2 (Some 7))\<lparr>job_Status := StatusQueued, job_Dependencies := [''b'']\<rparr>"

theorem ps_getNextJob_livelock_witness:
  "ps_getNextJob mem_repo DefaultConfig ''w'' (pq_push_ignore waiting_job NewPriorityQueue)
     \<lparr>mem_jobs = [waiting_job], mem_now = 0\<rparr> = None"
proof (rule ps_getNextJob_livelock)
  have q: "pq_wf (pq_push_ignore waiting_job NewPriorityQueue)"
      "mset (pq_Jobs (pq_push_ignore waiting_job NewPriorityQueue)) = {#waiting_job#}"
    using pq_push_ignore_wf [OF pq_wf_fresh(1), of waiting_job] by (auto simp: pq_Jobs_def)
  then have "pq_Jobs (pq_push_ignore waiting_job NewPriorityQueue) = [waiting_job]" by (metis mset_single_iff_right)
  then show "all_wait mem_repo (pq_push_ignore waiting_job NewPriorityQueue) \<lparr>mem_jobs = [waiting_job], mem_now = 0\<rparr>"
    using q(1) by (simp add: all_wait_def mem_repo_def mem_lookup_def waiting_job_def Job_HasDependencies_def queue_checkDependencies_def)
qed

text \<open>Without dependencies, and as long as the repository does not fail to lock a queued job, the
  loop of the priority scheduler's \<open>getNextJob\<close> ends.
\<close>

theorem ps_getNextJob_returns:
  assumes R: "job_repository R jobs" and pq: "pq_reach P pq"
    and dep: "\<And>jid j. jobs r jid = Some j \<Longrightarrow> job_Dependencies j = []"
    and lock: "\<And>jid j r e. jobs r jid = Some j \<Longrightarrow> job_Status j = StatusQueued \<Longrightarrow>
      fst (repo_LockForProcessing R jid w (cfg_LockDuration cfg) r) \<noteq> Inl e"
  shows "\<exists>x. ps_getNextJob R cfg w pq r = Some x"
proof -
  have "\<exists>x. ps_getNextJob R cfg w pq r' = Some x" if "pq_wf pq" "jobs r' = jobs r" for r'
    using that
  proof (induction "pq_Size pq" arbitrary: pq r')
    case 0
    then show ?case by (subst ps_getNextJob.simps) (simp split: prod.splits)
  next
    case (Suc n)
    obtain j pq1 where pop: "pq_Pop pq = Inr (j, pq1)" using pq_Pop_nonempty [of pq] Suc.hyps(2) by auto
    have p: "pq_wf pq1" "mset (pq_Jobs pq) = add_mset j (mset (pq_Jobs pq1))" using pq_wf_Pop [OF Suc.prems(1) pop] by auto
    have size: "n = pq_Size pq1" using arg_cong [OF p(2), of size] Suc.hyps(2) by (simp add: pq_Size_Jobs)
    have "\<exists>jo r1. ps_try R cfg w pq r' = (jo, pq1, r1) \<and> (jo = None \<longrightarrow> jobs r1 = jobs r)"
    proof (cases "repo_Get R (job_ID j) r'")
      case (Inl e)
      then show ?thesis using pop Suc.prems(2) by (simp add: ps_try_def)
    next
      case (Inr cur)
      have cur: "jobs r' (job_ID j) = Some cur" using Inr job_repository.Get [OF R] by blast
      then have nodep: "\<not> Job_HasDependencies cur" and id: "job_ID cur = job_ID j"
        using dep Suc.prems(2) job_repository.keyed [OF R cur] by (auto simp: Job_HasDependencies_def)
      obtain lr r1 where l: "repo_LockForProcessing R (job_ID j) w (cfg_LockDuration cfg) r' = (lr, r1)" by fastforce
      show ?thesis
      proof (cases "job_Status cur = StatusQueued")
        case True
        then have "lr \<noteq> Inl e" for e using lock [OF cur] l by (metis fst_conv)
        then obtain jo where jo: "lr = Inr jo" by (cases lr) auto
        have "jo = None \<Longrightarrow> jobs r1 = jobs r"
          using job_repository.Lock_fail [OF R l] jo Suc.prems(2) by simp
        then show ?thesis using pop Inr True nodep id l jo by (cases jo) (simp_all add: ps_try_def)
      qed (use pop Inr Suc.prems(2) in \<open>simp add: ps_try_def\<close>)
    qed
    then obtain jo r1 where t: "ps_try R cfg w pq r' = (jo, pq1, r1)" "jo = None \<longrightarrow> jobs r1 = jobs r" by blast
    show ?case
    proof (cases jo)
      case None
      then show ?thesis using t Suc.hyps(1) [OF size p(1), of r1] Suc.hyps(2) [symmetric]
        by (subst ps_getNextJob.simps) simp
    next
      case (Some j')
      then show ?thesis using t Suc.hyps(2) [symmetric] by (subst ps_getNextJob.simps) simp
    qed
  qed
  then show ?thesis using reach_wf [OF pq] by blast
qed

theorem ps_getNextJob_returns_witness:
  "\<exists>x. ps_getNextJob mem_repo DefaultConfig ''w'' sample_queue
     \<lparr>mem_jobs = [job_a\<lparr>job_Status := StatusQueued\<rparr>, job_b\<lparr>job_Status := StatusQueued\<rparr>], mem_now = 0\<rparr> = Some x"
proof (rule ps_getNextJob_returns [OF mem.job_repository_axioms sample_reach(1) [of "\<lambda>_. True"]])
  show "fst (repo_LockForProcessing mem_repo jid ''w'' (cfg_LockDuration DefaultConfig) r) \<noteq> Inl e"
    if "mem_lookup r jid = Some j" "job_Status j = StatusQueued" for jid j r e
    using that by (simp add: mem_repo_def mem_Lock_def Job_Lock_def)
qed (auto simp: mem_lookup_def split: if_splits)

lemma disjoint_insert_sub: "A \<subseteq> insert x B \<Longrightarrow> x \<notin> C \<Longrightarrow> C \<inter> B = {} \<Longrightarrow> C \<inter> A = {}"
  by blast

lemma ps_sync_exact:
  "pq_wf pq \<Longrightarrow> distinct (map job_ID js) \<Longrightarrow> job_ID ` set js \<inter> job_ID ` set (pq_Jobs pq) = {} \<Longrightarrow>
     pq_wf (ps_sync (\<lambda>_. now) js pq) \<and>
     mset (pq_Jobs (ps_sync (\<lambda>_. now) js pq)) =
       mset (filter (\<lambda>j. \<not> Job_IsScheduled now j \<and> \<not> Job_IsLocked now j) js) + mset (pq_Jobs pq)"
proof (induction js arbitrary: pq)
  case (Cons j js)
  define Q where "Q = (if \<not> Job_IsScheduled now j \<and> \<not> Job_IsLocked now j then pq_push_ignore j pq else pq)"
  have p: "pq_wf Q" "mset (pq_Jobs Q) =
      (if \<not> Job_IsScheduled now j \<and> \<not> Job_IsLocked now j then add_mset j (mset (pq_Jobs pq)) else mset (pq_Jobs pq))"
    using pq_push_ignore_wf [OF Cons.prems(1), of j] Cons.prems by (auto simp: Q_def)
  have "set (pq_Jobs Q) \<subseteq> insert j (set (pq_Jobs pq))"
    using arg_cong [OF p(2), of set_mset] by (auto split: if_splits)
  then have "job_ID ` set (pq_Jobs Q) \<subseteq> insert (job_ID j) (job_ID ` set (pq_Jobs pq))" by blast
  moreover have "job_ID j \<notin> job_ID ` set js" using Cons.prems(2) by simp
  moreover have "job_ID ` set js \<inter> job_ID ` set (pq_Jobs pq) = {}" using Cons.prems(3) by simp
  ultimately have "job_ID ` set js \<inter> job_ID ` set (pq_Jobs Q) = {}" by (rule disjoint_insert_sub)
  from Cons.IH [OF p(1) _ this] Cons.prems p(2) show ?case by (simp add: Q_def [symmetric])
qed simp



end
