(* ===== verification/Job_Recovery.thy ===== *)
theory Job_Recovery
  imports Scheduler_Queue
begin

text \<open>
  The recovery manager of \<open>pkg/domain/job/scheduler/job_recovery.go\<close>: the periodic check that
  releases stuck jobs, fails or resets timed-out jobs and recovers jobs with an expired lock. The
  ticker and the goroutine are left out; \<open>recoverJobs\<close> is what they run. The counters of \<open>stats\<close> are
  64-bit integers. In the loops \<open>clk\<close> is read once for each job that needs the time.
\<close>

section \<open>State\<close>

record RecoveryStats =
  rs_StuckJobsRecovered :: int
  rs_TimedOutJobsRecovered :: int
  rs_OrphanedJobsRecovered :: int
  rs_LastCheckTime :: time
  rs_TotalChecks :: int

record JobRecoveryManager =
  jrm_stuckJobThreshold :: duration
  jrm_checkInterval :: duration
  jrm_stats :: RecoveryStats

definition NewJobRecoveryManager :: JobRecoveryManager where
  "NewJobRecoveryManager = \<lparr>jrm_stuckJobThreshold = 30 * Minute, jrm_checkInterval = 1 * Minute,
     jrm_stats = \<lparr>rs_StuckJobsRecovered = 0, rs_TimedOutJobsRecovered = 0, rs_OrphanedJobsRecovered = 0,
       rs_LastCheckTime = time_zero, rs_TotalChecks = 0\<rparr>\<rparr>"

definition jrm_SetStuckJobThreshold :: "duration \<Rightarrow> JobRecoveryManager \<Rightarrow> JobRecoveryManager" where
  "jrm_SetStuckJobThreshold d jrm = jrm\<lparr>jrm_stuckJobThreshold := d\<rparr>"

definition jrm_SetCheckInterval :: "duration \<Rightarrow> JobRecoveryManager \<Rightarrow> JobRecoveryManager" where
  "jrm_SetCheckInterval d jrm = jrm\<lparr>jrm_checkInterval := d\<rparr>"

definition jrm_GetStats :: "JobRecoveryManager \<Rightarrow> RecoveryStats" where
  "jrm_GetStats jrm = jrm_stats jrm"

section \<open>The three checks\<close>

definition jrm_hasRecentProgress :: "time \<Rightarrow> Job \<Rightarrow> bool" where
  "jrm_hasRecentProgress now job \<longleftrightarrow> time_Sub now (job_UpdatedAt job) < 10 * Minute"

definition jrm_ValidateJobAssignment :: "time \<Rightarrow> Job \<Rightarrow> bool" where
  "jrm_ValidateJobAssignment now job = (case job_LockExpiresAt job of None \<Rightarrow> True | Some t \<Rightarrow> \<not> time_After now t)"

text \<open>The condition of the loop body of \<open>ReleaseStuckJobs\<close>.\<close>

definition job_stuck :: "duration \<Rightarrow> time \<Rightarrow> time \<Rightarrow> Job \<Rightarrow> bool" where
  "job_stuck threshold now now2 job = (case job_StartedAt job of
       None \<Rightarrow> False
     | Some st \<Rightarrow> time_Sub now st > threshold \<and> \<not> jrm_hasRecentProgress now2 job)"

text \<open>
  Unlock the job and set its status: the steps that all three checks start with. The result says
  whether both succeeded (otherwise the loop continues with the next job).
\<close>

definition unlock_and_set ::
    "'r JobRepository \<Rightarrow> bool \<Rightarrow> Job \<Rightarrow> JobStatus \<Rightarrow> JobStatus \<Rightarrow> 'r \<Rightarrow> bool \<times> 'r" where
  "unlock_and_set R unlock job s s' r =
     (let (e1, r1) = (if unlock then repo_UnlockJob R (job_ID job) (job_LockedBy job) r else (None, r))
      in if e1 \<noteq> None then (False, r1)
         else let (e2, r2) = repo_UpdateStatus R (job_ID job) s s' r1 in (e2 = None, r2))"

fun release_stuck ::
    "'r JobRepository \<Rightarrow> duration \<Rightarrow> time \<Rightarrow> (nat \<Rightarrow> time) \<Rightarrow> Job list \<Rightarrow> 'r \<Rightarrow> int \<times> 'r" where
  "release_stuck R thr now clk [] r = (0, r)"
| "release_stuck R thr now clk (job # js) r =
     (if job_stuck thr now (clk 0) job then
        let (ok, r1) = unlock_and_set R True job StatusRunning StatusPending r;
            (n, r2) = release_stuck R thr now (\<lambda>k. clk (k + 1)) js r1
        in (if ok then n + 1 else n, r2)
      else release_stuck R thr now (\<lambda>k. clk (k + 1)) js r)"

definition jrm_ReleaseStuckJobs ::
    "'r JobRepository \<Rightarrow> time \<Rightarrow> (nat \<Rightarrow> time) \<Rightarrow> JobRecoveryManager \<Rightarrow> 'r \<Rightarrow> error option \<times> JobRecoveryManager \<times> 'r" where
  "jrm_ReleaseStuckJobs R now clk jrm r = (case repo_ListByStatus R StatusRunning r of
       Inl e \<Rightarrow> (Some (WrapError ''failed to list running jobs: '' e), jrm, r)
     | Inr jobs \<Rightarrow>
         let (n, r') = release_stuck R (jrm_stuckJobThreshold jrm) now clk jobs r
         in (None, (if n > 0 then jrm\<lparr>jrm_stats := (jrm_stats jrm)\<lparr>rs_StuckJobsRecovered :=
                wrap64 (rs_StuckJobsRecovered (jrm_stats jrm) + n)\<rparr>\<rparr> else jrm), r'))"

definition job_timed_out :: "time \<Rightarrow> Job \<Rightarrow> bool" where
  "job_timed_out now job = (case job_StartedAt job of
       None \<Rightarrow> False
     | Some st \<Rightarrow> job_MaxDuration job > 0 \<and> time_After now (time_Add st (job_MaxDuration job)) \<and>
         (job_Status job = StatusRunning \<or> job_Status job = StatusQueued))"

definition reassign_one :: "'r JobRepository \<Rightarrow> Job \<Rightarrow> 'r \<Rightarrow> bool \<times> 'r" where
  "reassign_one R job r =
     (let (ok, r1) = unlock_and_set R (job_LockedBy job \<noteq> '''') job (job_Status job) StatusFailed r
      in if \<not> ok then (False, r1)
         else let r2 = snd (repo_IncrementRetries R (job_ID job) r1)
              in if job_RetryCount job < job_MaxRetries job
                 then let (e, r3) = repo_UpdateStatus R (job_ID job) StatusFailed StatusPending r2 in (e = None, r3)
                 else (True, r2))"

fun reassign_timed_out :: "'r JobRepository \<Rightarrow> time \<Rightarrow> Job list \<Rightarrow> 'r \<Rightarrow> int \<times> 'r" where
  "reassign_timed_out R now [] r = (0, r)"
| "reassign_timed_out R now (job # js) r =
     (if job_timed_out now job then
        let (ok, r1) = reassign_one R job r;
            (n, r2) = reassign_timed_out R now js r1
        in (if ok then n + 1 else n, r2)
      else reassign_timed_out R now js r)"

definition jrm_ReassignTimedOutJobs ::
    "'r JobRepository \<Rightarrow> time \<Rightarrow> JobRecoveryManager \<Rightarrow> 'r \<Rightarrow> error option \<times> JobRecoveryManager \<times> 'r" where
  "jrm_ReassignTimedOutJobs R now jrm r = (case repo_List R emptyFilter r of
       Inl e \<Rightarrow> (Some (WrapError ''failed to list jobs: '' e), jrm, r)
     | Inr jobs \<Rightarrow>
         let (n, r') = reassign_timed_out R now jobs r
         in (None, (if n > 0 then jrm\<lparr>jrm_stats := (jrm_stats jrm)\<lparr>rs_TimedOutJobsRecovered :=
                wrap64 (rs_TimedOutJobsRecovered (jrm_stats jrm) + n)\<rparr>\<rparr> else jrm), r'))"

fun recover_orphaned :: "'r JobRepository \<Rightarrow> (nat \<Rightarrow> time) \<Rightarrow> Job list \<Rightarrow> 'r \<Rightarrow> int \<times> 'r" where
  "recover_orphaned R clk [] r = (0, r)"
| "recover_orphaned R clk (job # js) r =
     (if job_LockedBy job \<noteq> '''' \<and> \<not> jrm_ValidateJobAssignment (clk 0) job then
        let (ok, r1) = unlock_and_set R True job (job_Status job) StatusPending r;
            (n, r2) = recover_orphaned R (\<lambda>k. clk (k + 1)) js r1
        in (if ok then n + 1 else n, r2)
      else recover_orphaned R (\<lambda>k. clk (k + 1)) js r)"

definition jrm_RecoverOrphanedJobs ::
    "'r JobRepository \<Rightarrow> (nat \<Rightarrow> time) \<Rightarrow> JobRecoveryManager \<Rightarrow> 'r \<Rightarrow> error option \<times> JobRecoveryManager \<times> 'r" where
  "jrm_RecoverOrphanedJobs R clk jrm r = (case repo_ListByStatus R StatusRunning r of
       Inl e \<Rightarrow> (Some (WrapError ''failed to list running jobs: '' e), jrm, r)
     | Inr runningJobs \<Rightarrow>
         (case repo_ListByStatus R StatusQueued r of
            Inl e \<Rightarrow> (Some (WrapError ''failed to list queued jobs: '' e), jrm, r)
          | Inr queuedJobs \<Rightarrow>
              let (n, r') = recover_orphaned R clk (runningJobs @ queuedJobs) r
              in (None, (if n > 0 then jrm\<lparr>jrm_stats := (jrm_stats jrm)\<lparr>rs_OrphanedJobsRecovered :=
                     wrap64 (rs_OrphanedJobsRecovered (jrm_stats jrm) + n)\<rparr>\<rparr> else jrm), r')))"

text \<open>Errors of the checks are only logged. The four clocks are those of the four phases.\<close>

definition jrm_recoverJobs ::
    "'r JobRepository \<Rightarrow> (nat \<Rightarrow> time) \<Rightarrow> (nat \<Rightarrow> time) \<Rightarrow> (nat \<Rightarrow> time) \<Rightarrow> JobRecoveryManager \<Rightarrow> 'r \<Rightarrow> JobRecoveryManager \<times> 'r" where
  "jrm_recoverJobs R clk clk1 clk2 jrm r =
     (let jrm0 = jrm\<lparr>jrm_stats := (jrm_stats jrm)\<lparr>rs_LastCheckTime := clk 0,
            rs_TotalChecks := wrap64 (rs_TotalChecks (jrm_stats jrm) + 1)\<rparr>\<rparr>;
          (_, jrm1, r1) = jrm_ReleaseStuckJobs R (clk 1) clk1 jrm0 r;
          (_, jrm2, r2) = jrm_ReassignTimedOutJobs R (clk 2) jrm1 r1;
          (_, jrm3, r3) = jrm_RecoverOrphanedJobs R clk2 jrm2 r2
      in (jrm3, r3))"

section \<open>What the checks touch\<close>

context job_repository
begin

lemma Unlock_frame: "repo_UnlockJob R jid w r = (eo, r') \<Longrightarrow> x \<noteq> jid \<Longrightarrow> jobs r' x = jobs r x"
  by (cases eo) (auto dest: Unlock Unlock_err)

lemma UpdateStatus_frame: "repo_UpdateStatus R jid s s' r = (eo, r') \<Longrightarrow> x \<noteq> jid \<Longrightarrow> jobs r' x = jobs r x"
  by (cases eo) (auto dest: UpdateStatus UpdateStatus_err)

lemma IncrementRetries_frame: "repo_IncrementRetries R jid r = (eo, r') \<Longrightarrow> x \<noteq> jid \<Longrightarrow> jobs r' x = jobs r x"
  by (cases eo) (auto dest: IncrementRetries IncrementRetries_err)

lemmas frames = Unlock_frame UpdateStatus_frame IncrementRetries_frame

lemma unlock_and_set_frame:
  "unlock_and_set R u job s s' r = (ok, r') \<Longrightarrow> x \<noteq> job_ID job \<Longrightarrow> jobs r' x = jobs r x"
  by (auto simp: unlock_and_set_def Let_def frames split: if_splits prod.splits)

lemma reassign_one_frame: "reassign_one R job r = (ok, r') \<Longrightarrow> x \<noteq> job_ID job \<Longrightarrow> jobs r' x = jobs r x"
  using unlock_and_set_frame IncrementRetries_frame UpdateStatus_frame
  by (auto simp: reassign_one_def Let_def split: if_splits prod.splits) (metis prod.collapse)+

lemma release_stuck_frame:
  "release_stuck R thr now clk js r = (n, r') \<Longrightarrow> \<forall>j \<in> set js. job_ID j = x \<longrightarrow> (\<forall>k. \<not> job_stuck thr now (clk k) j) \<Longrightarrow>
     jobs r' x = jobs r x"
proof (induction js arbitrary: n r clk)
  case (Cons job js)
  show ?case
  proof (cases "job_stuck thr now (clk 0) job")
    case True
    obtain ok r1 where u: "unlock_and_set R True job StatusRunning StatusPending r = (ok, r1)" by fastforce
    have "x \<noteq> job_ID job" using True Cons.prems(2) by auto
    then have "jobs r1 x = jobs r x" using unlock_and_set_frame [OF u] by simp
    moreover obtain n' where "release_stuck R thr now (\<lambda>k. clk (k + 1)) js r1 = (n', r')"
      using Cons.prems(1) True u by (auto split: prod.splits)
    ultimately show ?thesis using Cons.IH Cons.prems(2) by force
  next
    case False
    then show ?thesis using Cons.IH [of "\<lambda>k. clk (k + 1)" r n] Cons.prems by simp
  qed
qed simp

lemma reassign_timed_out_frame:
  "reassign_timed_out R now js r = (n, r') \<Longrightarrow> \<forall>j \<in> set js. job_ID j = x \<longrightarrow> \<not> job_timed_out now j \<Longrightarrow>
     jobs r' x = jobs r x"
proof (induction js arbitrary: n r)
  case (Cons job js)
  show ?case
  proof (cases "job_timed_out now job")
    case True
    obtain ok r1 where u: "reassign_one R job r = (ok, r1)" by fastforce
    have "x \<noteq> job_ID job" using True Cons.prems(2) by auto
    then have "jobs r1 x = jobs r x" using reassign_one_frame [OF u] by simp
    moreover obtain n' where "reassign_timed_out R now js r1 = (n', r')"
      using Cons.prems(1) True u by (auto split: prod.splits)
    ultimately show ?thesis using Cons.IH Cons.prems(2) by force
  next
    case False
    then show ?thesis using Cons.IH [of r n] Cons.prems by simp
  qed
qed simp

lemma recover_orphaned_frame:
  "recover_orphaned R clk js r = (n, r') \<Longrightarrow>
     \<forall>j \<in> set js. job_ID j = x \<longrightarrow> job_LockedBy j = '''' \<or> (\<forall>k. jrm_ValidateJobAssignment (clk k) j) \<Longrightarrow>
     jobs r' x = jobs r x"
proof (induction js arbitrary: n r clk)
  case (Cons job js)
  show ?case
  proof (cases "job_LockedBy job \<noteq> '''' \<and> \<not> jrm_ValidateJobAssignment (clk 0) job")
    case True
    obtain ok r1 where u: "unlock_and_set R True job (job_Status job) StatusPending r = (ok, r1)" by fastforce
    have "x \<noteq> job_ID job" using True Cons.prems(2) by auto
    then have "jobs r1 x = jobs r x" using unlock_and_set_frame [OF u] by simp
    moreover obtain n' where "recover_orphaned R (\<lambda>k. clk (k + 1)) js r1 = (n', r')"
      using Cons.prems(1) True u by (auto split: prod.splits)
    ultimately show ?thesis using Cons.IH Cons.prems(2) by force
  next
    case False
    then have "recover_orphaned R (\<lambda>k. clk (k + 1)) js r = (n, r')" using Cons.prems(1) by (simp split: if_splits)
    then show ?thesis using Cons.IH Cons.prems(2) by force
  qed
qed simp

text \<open>A listed job with the ID of a stored one is the stored one.\<close>

lemma listed: "stored_list (jobs r) (Inr js) \<Longrightarrow> jobs r x = Some j \<Longrightarrow> j' \<in> set js \<Longrightarrow> job_ID j' = x \<Longrightarrow> j' = j"
  using stored by fastforce

lemma ReleaseStuckJobs_keeps:
  assumes "jobs r x = Some j" and "job_Status j = StatusRunning \<Longrightarrow> \<forall>k. \<not> job_stuck (jrm_stuckJobThreshold jrm) now (clk k) j"
    and "jrm_ReleaseStuckJobs R now clk jrm r = (e, jrm', r')"
  shows "jobs r' x = Some j"
proof (cases "repo_ListByStatus R StatusRunning r")
  case (Inr js)
  have "\<forall>j' \<in> set js. job_ID j' = x \<longrightarrow> (\<forall>k. \<not> job_stuck (jrm_stuckJobThreshold jrm) now (clk k) j')"
    using assms(1,2) listed ListByStatus [of r StatusRunning] ListByStatus_status [OF Inr] Inr by metis
  then show ?thesis
    using assms release_stuck_frame [of "jrm_stuckJobThreshold jrm" now clk js r] Inr
    by (auto simp: jrm_ReleaseStuckJobs_def split: prod.splits)
qed (use assms in \<open>simp add: jrm_ReleaseStuckJobs_def\<close>)

lemma ReassignTimedOutJobs_keeps:
  assumes "jobs r x = Some j" and "\<not> job_timed_out now j"
    and "jrm_ReassignTimedOutJobs R now jrm r = (e, jrm', r')"
  shows "jobs r' x = Some j"
proof (cases "repo_List R emptyFilter r")
  case (Inr js)
  have "\<forall>j' \<in> set js. job_ID j' = x \<longrightarrow> \<not> job_timed_out now j'"
    using assms(1,2) listed List [of r emptyFilter] Inr by metis
  then show ?thesis
    using assms reassign_timed_out_frame [of now js r] Inr
    by (auto simp: jrm_ReassignTimedOutJobs_def split: prod.splits)
qed (use assms in \<open>simp add: jrm_ReassignTimedOutJobs_def\<close>)

lemma RecoverOrphanedJobs_keeps:
  assumes "jobs r x = Some j" and ok: "job_LockedBy j = '''' \<or> (\<forall>k. jrm_ValidateJobAssignment (clk k) j)"
    and "jrm_RecoverOrphanedJobs R clk jrm r = (e, jrm', r')"
  shows "jobs r' x = Some j"
proof -
  have "jobs r' x = jobs r x" if l: "repo_ListByStatus R StatusRunning r = Inr js" "repo_ListByStatus R StatusQueued r = Inr ks" for js ks
  proof -
    have st: "stored_list (jobs r) (Inr (js @ ks))"
      using ListByStatus [of r StatusRunning] ListByStatus [of r StatusQueued] l by (auto simp: stored_list_def)
    have "\<forall>j' \<in> set (js @ ks). job_ID j' = x \<longrightarrow> job_LockedBy j' = '''' \<or> (\<forall>k. jrm_ValidateJobAssignment (clk k) j')"
      using listed [OF st assms(1)] ok by blast
    then show ?thesis
      using assms recover_orphaned_frame [of clk "js @ ks" r _ r' x] l
      by (auto simp: jrm_RecoverOrphanedJobs_def split: prod.splits)
  qed
  then show ?thesis using assms by (auto simp: jrm_RecoverOrphanedJobs_def split: sum.splits)
qed

lemma unlock_and_set_ok:
  assumes "unlock_and_set R u job s s' r = (True, r')" and "jobs r (job_ID job) = Some job"
  shows "\<exists>j. jobs r' (job_ID job) = Some j \<and> job_Status j = s' \<and> job_RetryCount j = job_RetryCount job \<and> job_Status job = s"
proof -
  obtain r1 where r1: "(if u then repo_UnlockJob R (job_ID job) (job_LockedBy job) r else (None, r)) = (None, r1)"
      "repo_UpdateStatus R (job_ID job) s s' r1 = (None, r')"
    using assms(1) by (auto simp: unlock_and_set_def Let_def split: if_splits prod.splits)
  have "\<exists>j. jobs r1 (job_ID job) = Some j \<and> job_Status j = job_Status job \<and> job_RetryCount j = job_RetryCount job"
    using r1(1) assms(2) Unlock by (fastforce simp: Job_Unlock_def split: if_splits)
  then show ?thesis using UpdateStatus [OF r1(2)] by auto
qed

lemma reassign_one_ok:
  assumes "reassign_one R job r = (True, r')" and "jobs r (job_ID job) = Some job"
  shows "\<exists>j. jobs r' (job_ID job) = Some j \<and> job_RetryCount j \<in> {job_RetryCount job, job_RetryCount job + 1} \<and>
    job_Status j = (if job_RetryCount job < job_MaxRetries job then StatusPending else StatusFailed)"
proof -
  obtain r1 eo r2 where u: "unlock_and_set R (job_LockedBy job \<noteq> '''') job (job_Status job) StatusFailed r = (True, r1)"
      "repo_IncrementRetries R (job_ID job) r1 = (eo, r2)"
      "if job_RetryCount job < job_MaxRetries job
       then repo_UpdateStatus R (job_ID job) StatusFailed StatusPending r2 = (None, r') else r' = r2"
    using assms(1) by (auto simp: reassign_one_def Let_def split: if_splits prod.splits) (metis prod.collapse)+
  have "\<exists>j. jobs r2 (job_ID job) = Some j \<and> job_RetryCount j \<in> {job_RetryCount job, job_RetryCount job + 1} \<and> job_Status j = StatusFailed"
    using unlock_and_set_ok [OF u(1) assms(2)] u(2) by (cases eo) (auto dest!: IncrementRetries IncrementRetries_err)
  then show ?thesis using u(3) by (auto split: if_splits dest!: UpdateStatus)
qed

end

section \<open>Properties\<close>

text \<open>A recovery round leaves a job exactly as it is unless the job is running and stuck, has
  exceeded its maximal duration, or holds an expired lock.
\<close>

theorem recovery_spares_healthy_jobs:
  assumes "job_repository R jobs" and "jobs r jid = Some j"
    and "job_Status j = StatusRunning \<Longrightarrow> \<forall>k. \<not> job_stuck (jrm_stuckJobThreshold jrm) (clk 1) (clk1 k) j"
    and "\<not> job_timed_out (clk 2) j"
    and "job_LockedBy j = '''' \<or> (\<forall>k. jrm_ValidateJobAssignment (clk2 k) j)"
  shows "jobs (snd (jrm_recoverJobs R clk clk1 clk2 jrm r)) jid = Some j"
proof -
  let ?jrm0 = "jrm\<lparr>jrm_stats := (jrm_stats jrm)\<lparr>rs_LastCheckTime := clk 0, rs_TotalChecks := wrap64 (rs_TotalChecks (jrm_stats jrm) + 1)\<rparr>\<rparr>"
  obtain e1 jrm1 r1 where 1: "jrm_ReleaseStuckJobs R (clk 1) clk1 ?jrm0 r = (e1, jrm1, r1)" by (metis prod_cases3)
  obtain e2 jrm2 r2 where 2: "jrm_ReassignTimedOutJobs R (clk 2) jrm1 r1 = (e2, jrm2, r2)" by (metis prod_cases3)
  obtain e3 jrm3 r3 where 3: "jrm_RecoverOrphanedJobs R clk2 jrm2 r2 = (e3, jrm3, r3)" by (metis prod_cases3)
  have "jobs r1 jid = Some j" using assms(3) by (intro job_repository.ReleaseStuckJobs_keeps [OF assms(1,2) _ 1]) simp
  then have "jobs r2 jid = Some j" by (rule job_repository.ReassignTimedOutJobs_keeps [OF assms(1) _ assms(4) 2])
  then have "jobs r3 jid = Some j" by (rule job_repository.RecoverOrphanedJobs_keeps [OF assms(1) _ assms(5) 3])
  then show ?thesis using 1 2 3 by (simp add: jrm_recoverJobs_def)
qed

theorem recovery_spares_healthy_jobs_witness:
  "mem_lookup (snd (jrm_recoverJobs mem_repo (\<lambda>_. 0) (\<lambda>_. 0) (\<lambda>_. 0) NewJobRecoveryManager sample_store)) ''a''
     = Some (job_a\<lparr>job_Status := StatusQueued\<rparr>)"
  by (rule recovery_spares_healthy_jobs [OF mem.job_repository_axioms])
    (simp_all add: mem_lookup_def sample_store_def job_timed_out_def sample_job_def NewJob_def)

text \<open>A timed-out job that the recovery handles ends up pending while it has retries left and
  failed otherwise, with its retry count raised by at most one.
\<close>

theorem timed_out_job_outcome:
  assumes "job_repository R jobs" and "jobs r (job_ID job) = Some job" and "reassign_one R job r = (True, r')"
  shows "\<exists>j. jobs r' (job_ID job) = Some j \<and> job_RetryCount j \<in> {job_RetryCount job, job_RetryCount job + 1} \<and>
    job_Status j = (if job_RetryCount job < job_MaxRetries job then StatusPending else StatusFailed)"
  by (rule job_repository.reassign_one_ok [OF assms(1,3,2)])

theorem timed_out_job_outcome_witness:
  "\<exists>j r'. reassign_one mem_repo (job_a\<lparr>job_Status := StatusQueued\<rparr>) sample_store = (True, r') \<and>
     mem_lookup r' ''a'' = Some j \<and> job_Status j = StatusFailed"
proof -
  have "fst (reassign_one mem_repo (job_a\<lparr>job_Status := StatusQueued\<rparr>) sample_store)"
    by (simp add: reassign_one_def unlock_and_set_def mem_repo_def mem_change_def mem_lookup_def sample_store_def mem_put_def)
  then obtain r' where r: "reassign_one mem_repo (job_a\<lparr>job_Status := StatusQueued\<rparr>) sample_store = (True, r')"
    by (metis prod.collapse)
  then show ?thesis
    using timed_out_job_outcome [OF mem.job_repository_axioms _ r]
    by (auto simp: mem_lookup_def sample_store_def)
qed

text \<open>A failed job that is queued for a retry keeps the start and completion times of the failed run: it
  violates the entity's invariant, and while it waits in the queue the recovery counts it as timed out
  once its maximal duration after the old start has passed.
\<close>

theorem retry_inherits_timeout:
  assumes "job_Status j = StatusRunning" and "job_StartedAt j = Some st" and "0 < job_MaxDuration j"
    and "job_RetryCount j < job_MaxRetries j" and "now > st + job_MaxDuration j"
  shows "job_Status (fst (queue_handleJobError R clk j e q r)) = StatusQueued \<and>
    \<not> job_wf (fst (queue_handleJobError R clk j e q r)) \<and>
    job_timed_out now (fst (queue_handleJobError R clk j e q r))"
  using assms by (simp add: queue_handleJobError_def Job_Fail_def Job_CanRetry_def job_timed_out_def job_wf_def
      time_After_def time_Add_def Let_def)

theorem retry_inherits_timeout_witness:
  "\<exists>j. job_Status j = StatusRunning \<and>
     job_timed_out 100 (fst (queue_handleJobError mem_repo (\<lambda>_. 5) j ErrNoJobsAvailable (NewQueue DefaultConfig) sample_store))"
  using retry_inherits_timeout [of "job_a\<lparr>job_Status := StatusRunning, job_StartedAt := Some 1, job_MaxDuration := 9, job_MaxRetries := 3\<rparr>" 1 100
      mem_repo "\<lambda>_. 5" ErrNoJobsAvailable "NewQueue DefaultConfig" sample_store]
  by (intro exI [of _ "job_a\<lparr>job_Status := StatusRunning, job_StartedAt := Some 1, job_MaxDuration := 9, job_MaxRetries := 3\<rparr>"]) simp

end
