(* ===== verification/Campaign_Types.thy ===== *)
theory Campaign_Types
  imports Status_Machine
begin

text \<open>
  The campaign entity of \<open>pkg/domain/campaign/types\<close>: the state enumeration with its transition table
  (\<open>state.go\<close>), the entity (\<open>campaign.go\<close>) and the constructors of the campaign events (\<open>events.go\<close>).
  A \<open>State\<close> is a Go string, so a value outside the enumeration is \<open>StateOther\<close>.
\<close>

section \<open>States\<close>

datatype State = StateDraft | StateActive | StatePaused | StateCompleted | StateOther string

definition AllStates :: "State list" where
  "AllStates = [StateDraft, StateActive, StatePaused, StateCompleted]"

fun State_String :: "State \<Rightarrow> string" where
  "State_String StateDraft = ''draft''"
| "State_String StateActive = ''active''"
| "State_String StatePaused = ''paused''"
| "State_String StateCompleted = ''completed''"
| "State_String (StateOther s) = s"

text \<open>The conversion \<open>State(s)\<close>.\<close>

definition State_of :: "string \<Rightarrow> State" where
  "State_of s = (if s = ''draft'' then StateDraft else if s = ''active'' then StateActive
     else if s = ''paused'' then StatePaused else if s = ''completed'' then StateCompleted else StateOther s)"

fun State_Validate :: "State \<Rightarrow> error option" where
  "State_Validate (StateOther s) = Some (ErrorString (''invalid campaign state: '' @ s))"
| "State_Validate _ = None"

fun campaign_transitions :: "State \<Rightarrow> State list option" where
  "campaign_transitions StateDraft = Some [StateActive]"
| "campaign_transitions StateActive = Some [StatePaused, StateCompleted]"
| "campaign_transitions StatePaused = Some [StateActive, StateCompleted]"
| "campaign_transitions StateCompleted = Some []"
| "campaign_transitions (StateOther _) = None"

definition State_CanTransitionTo :: "State \<Rightarrow> State \<Rightarrow> bool" where
  "State_CanTransitionTo s target = table_allows campaign_transitions s target"

definition State_IsTerminal :: "State \<Rightarrow> bool" where
  "State_IsTerminal s \<longleftrightarrow> s = StateCompleted"

definition ParseState :: "string \<Rightarrow> State result" where
  "ParseState s = (case State_Validate (State_of s) of Some e \<Rightarrow> Inl e | None \<Rightarrow> Inr (State_of s))"

definition MustParseState :: "string \<Rightarrow> State go" where
  "MustParseState s = (case ParseState s of Inl _ \<Rightarrow> Panic | Inr st \<Rightarrow> Ret st)"

section \<open>The entity\<close>

record Campaign =
  camp_ID :: string
  camp_Name :: string
  camp_Description :: string
  camp_Status :: State
  camp_CreatedAt :: time
  camp_UpdatedAt :: time

definition NewCampaign :: "time \<Rightarrow> string \<Rightarrow> string \<Rightarrow> string \<Rightarrow> Campaign result" where
  "NewCampaign now i name description =
     (if i = '''' then Inl (ErrorString ''campaign ID cannot be empty'')
      else if name = '''' then Inl (ErrorString ''campaign name cannot be empty'')
      else Inr \<lparr>camp_ID = i, camp_Name = name, camp_Description = description, camp_Status = StateDraft,
        camp_CreatedAt = now, camp_UpdatedAt = now\<rparr>)"

definition Campaign_UpdateStatus :: "time \<Rightarrow> State \<Rightarrow> Campaign \<Rightarrow> Campaign result" where
  "Campaign_UpdateStatus now newStatus c = (case State_Validate newStatus of
       Some e \<Rightarrow> Inl e
     | None \<Rightarrow>
         if \<not> State_CanTransitionTo (camp_Status c) newStatus then Inl (ErrorString ''invalid status transition'')
         else Inr (c\<lparr>camp_Status := newStatus, camp_UpdatedAt := now\<rparr>))"

definition Campaign_IsActive :: "Campaign \<Rightarrow> bool" where
  "Campaign_IsActive c \<longleftrightarrow> camp_Status c = StateActive"

definition Campaign_CanBeModified :: "Campaign \<Rightarrow> bool" where
  "Campaign_CanBeModified c \<longleftrightarrow> camp_Status c = StateDraft \<or> camp_Status c = StatePaused"

definition Campaign_Validate :: "Campaign \<Rightarrow> error option" where
  "Campaign_Validate c =
     (if camp_ID c = '''' then Some (ErrorString ''campaign ID cannot be empty'')
      else if camp_Name c = '''' then Some (ErrorString ''campaign name cannot be empty'')
      else State_Validate (camp_Status c))"

section \<open>Events\<close>

datatype EventType = EventCampaignCreated | EventCampaignStarted | EventCampaignPaused | EventCampaignResumed
  | EventCampaignCompleted | EventCampaignFailed

record BaseEvent =
  ev_Type :: EventType
  ev_CampaignID :: string
  ev_Timestamp :: time
  ev_Data :: any

record CampaignCreatedEvent = BaseEvent +
  ev_Campaign :: Campaign

record CampaignStartedEvent = BaseEvent +
  ev_StartedBy :: string

record CampaignCompletedEvent = BaseEvent +
  ev_Duration :: duration
  ev_Results :: "(string \<rightharpoonup> any) option"

record CampaignFailedEvent = BaseEvent +
  ev_Error :: string
  ev_Reason :: string

definition NewCampaignCreatedEvent :: "time \<Rightarrow> Campaign \<Rightarrow> CampaignCreatedEvent" where
  "NewCampaignCreatedEvent now c = \<lparr>ev_Type = EventCampaignCreated, ev_CampaignID = camp_ID c, ev_Timestamp = now,
     ev_Data = ANil, ev_Campaign = c\<rparr>"

definition NewCampaignStartedEvent :: "time \<Rightarrow> string \<Rightarrow> string \<Rightarrow> CampaignStartedEvent" where
  "NewCampaignStartedEvent now i startedBy = \<lparr>ev_Type = EventCampaignStarted, ev_CampaignID = i, ev_Timestamp = now,
     ev_Data = ANil, ev_StartedBy = startedBy\<rparr>"

definition NewCampaignCompletedEvent ::
    "time \<Rightarrow> string \<Rightarrow> duration \<Rightarrow> (string \<rightharpoonup> any) option \<Rightarrow> CampaignCompletedEvent" where
  "NewCampaignCompletedEvent now i d results = \<lparr>ev_Type = EventCampaignCompleted, ev_CampaignID = i, ev_Timestamp = now,
     ev_Data = ANil, ev_Duration = d, ev_Results = results\<rparr>"

definition NewCampaignFailedEvent :: "time \<Rightarrow> string \<Rightarrow> string \<Rightarrow> string \<Rightarrow> CampaignFailedEvent" where
  "NewCampaignFailedEvent now i err reason = \<lparr>ev_Type = EventCampaignFailed, ev_CampaignID = i, ev_Timestamp = now,
     ev_Data = ANil, ev_Error = err, ev_Reason = reason\<rparr>"

section \<open>The state machine\<close>

lemmas campaign_state_defs = State_CanTransitionTo_def State_IsTerminal_def table_allows_def

interpretation campaign_state: terminating_status_machine
  "\<lambda>s. State_Validate s = None" State_IsTerminal State_CanTransitionTo
proof
  fix s t :: State
  show "State_CanTransitionTo s t \<Longrightarrow> State_Validate s = None \<and> State_Validate t = None"
    by (cases s) (auto simp: campaign_state_defs)
  show "\<not> State_CanTransitionTo s s"
    by (cases s) (auto simp: campaign_state_defs)
  show "State_IsTerminal s \<Longrightarrow> State_Validate s = None"
    by (auto simp: campaign_state_defs)
  show "State_IsTerminal s \<Longrightarrow> \<not> State_CanTransitionTo s t"
    by (auto simp: campaign_state_defs)
  show "State_Validate s = None \<Longrightarrow> \<not> State_IsTerminal s \<Longrightarrow> \<exists>t. State_CanTransitionTo s t"
    by (cases s) (auto simp: campaign_state_defs)
  assume v: "State_Validate s = None"
  have 1: "State_CanTransitionTo StateDraft StateActive" "State_CanTransitionTo StateActive StateCompleted"
      "State_CanTransitionTo StatePaused StateCompleted"
    by (simp_all add: campaign_state_defs)
  have "State_CanTransitionTo\<^sup>*\<^sup>* s StateCompleted"
    using v 1 by (cases s) (auto intro: rtranclp.intros converse_rtranclp_into_rtranclp)
  then show "\<exists>t. State_IsTerminal t \<and> State_CanTransitionTo\<^sup>*\<^sup>* s t" by (auto simp: State_IsTerminal_def)
qed

text \<open>A campaign after any sequence of successful status updates.\<close>

inductive campaign_run :: "Campaign \<Rightarrow> Campaign \<Rightarrow> bool" where
  start: "campaign_run c c"
| update: "campaign_run c c' \<Longrightarrow> Campaign_UpdateStatus now s c' = Inr c'' \<Longrightarrow> campaign_run c c''"

lemma Campaign_UpdateStatus_ok:
  "Campaign_UpdateStatus now s c = Inr c' \<longleftrightarrow>
     State_CanTransitionTo (camp_Status c) s \<and> c' = c\<lparr>camp_Status := s, camp_UpdatedAt := now\<rparr>"
  using campaign_state.can_valid [of "camp_Status c" s]
  by (auto simp: Campaign_UpdateStatus_def split: option.splits)

lemma campaign_run_state: "campaign_run c c' \<Longrightarrow> State_CanTransitionTo\<^sup>*\<^sup>* (camp_Status c) (camp_Status c')"
  by (induction rule: campaign_run.induct) (auto simp: Campaign_UpdateStatus_ok)

lemma campaign_run_identity:
  "campaign_run c c' \<Longrightarrow> camp_ID c' = camp_ID c \<and> camp_Name c' = camp_Name c \<and> camp_CreatedAt c' = camp_CreatedAt c"
  by (induction rule: campaign_run.induct) (auto simp: Campaign_UpdateStatus_ok)

lemma reaches_draft: "State_CanTransitionTo\<^sup>*\<^sup>* s StateDraft \<Longrightarrow> s = StateDraft"
proof (induction rule: converse_rtranclp_induct)
  case (step s t)
  then show ?case by (cases s) (auto simp: campaign_state_defs)
qed simp

section \<open>Properties\<close>

text \<open>C10: A campaign built by \<open>NewCampaign\<close> passes \<open>Validate\<close> after any sequence of status updates and
  keeps its identity; from every state it can still be brought to completion; once completed it accepts
  no update, and once it has left the draft state it never returns to it.\<close>

theorem campaign_lifecycle:
  assumes "NewCampaign now i name descr = Inr c" and "campaign_run c c'"
  shows "Campaign_Validate c' = None \<and> camp_ID c' = i \<and> camp_CreatedAt c' = now \<and>
    (\<exists>t. State_IsTerminal t \<and> State_CanTransitionTo\<^sup>*\<^sup>* (camp_Status c') t) \<and>
    (camp_Status c' = StateCompleted \<longrightarrow> (\<forall>t s. \<exists>e. Campaign_UpdateStatus t s c' = Inl e)) \<and>
    (\<forall>c''. campaign_run c' c'' \<and> camp_Status c'' = StateDraft \<longrightarrow> camp_Status c' = StateDraft)"
proof (intro conjI impI allI)
  have c: "camp_ID c = i" "camp_Name c = name" "camp_CreatedAt c = now" "camp_Status c = StateDraft" "i \<noteq> ''''" "name \<noteq> ''''"
    using assms(1) by (auto simp: NewCampaign_def split: if_splits)
  have run: "State_CanTransitionTo\<^sup>*\<^sup>* StateDraft (camp_Status c')" using campaign_run_state [OF assms(2)] c(4) by simp
  have v: "State_Validate (camp_Status c') = None" using campaign_state.run_valid [OF run] by simp
  show "camp_ID c' = i" "camp_CreatedAt c' = now" using campaign_run_identity [OF assms(2)] c by auto
  show "Campaign_Validate c' = None"
    using campaign_run_identity [OF assms(2)] c v by (simp add: Campaign_Validate_def)
  show "\<exists>t. State_IsTerminal t \<and> State_CanTransitionTo\<^sup>*\<^sup>* (camp_Status c') t"
    using campaign_state.terminal_reachable [OF v] .
  show "\<exists>e. Campaign_UpdateStatus t s c' = Inl e" if "camp_Status c' = StateCompleted" for t s
    using campaign_state.terminal_stuck [of StateCompleted s] that
    by (auto simp: Campaign_UpdateStatus_def State_IsTerminal_def split: option.splits)
  show "camp_Status c' = StateDraft" if "campaign_run c' c'' \<and> camp_Status c'' = StateDraft" for c''
    using campaign_run_state [of c' c''] reaches_draft that by metis
qed

theorem campaign_lifecycle_witness:
  "\<exists>c c'. NewCampaign 3 ''c1'' ''n'' '''' = Inr c \<and> campaign_run c c' \<and> camp_Status c' = StateActive \<and> Campaign_Validate c' = None"
proof -
  obtain c where c: "NewCampaign 3 ''c1'' ''n'' '''' = Inr c" "camp_Status c = StateDraft" by (simp add: NewCampaign_def)
  obtain c' where c': "Campaign_UpdateStatus 4 StateActive c = Inr c'" "camp_Status c' = StateActive"
    using c(2) by (simp add: Campaign_UpdateStatus_ok campaign_state_defs)
  have run: "campaign_run c c'" by (rule campaign_run.update [OF campaign_run.start c'(1)])
  then show ?thesis using campaign_lifecycle [OF c(1) run] c c' by blast
qed

end
