(* ===== verification/Bot_Types.thy ===== *)
theory Bot_Types
  imports Status_Machine
begin

text \<open>
  The bot agent of \<open>pkg/domain/bot/types\<close>: the status enumeration and its transition table
  (\<open>status.go\<close>), the agent entity (\<open>agent.go\<close>) and the bot events (\<open>events.go\<close>). A status is a Go
  string, so a value outside the enumeration is \<open>BotStatusOther\<close>; capabilities are plain strings.
\<close>

section \<open>Status\<close>

datatype Status = StatusIdle | StatusWorking | StatusOffline | StatusMaintenance | StatusError | BotStatusOther string

definition AllStatuses :: "Status list" where
  "AllStatuses = [StatusIdle, StatusWorking, StatusOffline, StatusMaintenance, StatusError]"

fun Status_String :: "Status \<Rightarrow> string" where
  "Status_String StatusIdle = ''idle''"
| "Status_String StatusWorking = ''working''"
| "Status_String StatusOffline = ''offline''"
| "Status_String StatusMaintenance = ''maintenance''"
| "Status_String StatusError = ''error''"
| "Status_String (BotStatusOther s) = s"

definition Status_of :: "string \<Rightarrow> Status" where
  "Status_of s = (if s = ''idle'' then StatusIdle else if s = ''working'' then StatusWorking
     else if s = ''offline'' then StatusOffline else if s = ''maintenance'' then StatusMaintenance
     else if s = ''error'' then StatusError else BotStatusOther s)"

fun Status_Validate :: "Status \<Rightarrow> error option" where
  "Status_Validate (BotStatusOther s) = Some (ErrorString (''invalid bot status: '' @ s))"
| "Status_Validate _ = None"

definition Status_IsOperational :: "Status \<Rightarrow> bool" where
  "Status_IsOperational s \<longleftrightarrow> s = StatusIdle \<or> s = StatusWorking"

definition Status_CanWork :: "Status \<Rightarrow> bool" where
  "Status_CanWork s \<longleftrightarrow> s = StatusIdle"

fun Status_Priority :: "Status \<Rightarrow> int" where
  "Status_Priority StatusIdle = 1"
| "Status_Priority StatusWorking = 2"
| "Status_Priority StatusMaintenance = 3"
| "Status_Priority StatusOffline = 4"
| "Status_Priority StatusError = 5"
| "Status_Priority (BotStatusOther _) = 0"

definition ParseStatus :: "string \<Rightarrow> Status result" where
  "ParseStatus s = (case Status_Validate (Status_of s) of Some e \<Rightarrow> Inl e | None \<Rightarrow> Inr (Status_of s))"

definition MustParseStatus :: "string \<Rightarrow> Status go" where
  "MustParseStatus s = (case ParseStatus s of Inl _ \<Rightarrow> Panic | Inr st \<Rightarrow> Ret st)"

fun bot_transitions :: "Status \<Rightarrow> Status list option" where
  "bot_transitions StatusIdle = Some [StatusWorking, StatusOffline, StatusMaintenance, StatusError]"
| "bot_transitions StatusWorking = Some [StatusIdle, StatusOffline, StatusError]"
| "bot_transitions StatusOffline = Some [StatusIdle, StatusMaintenance]"
| "bot_transitions StatusMaintenance = Some [StatusIdle, StatusOffline]"
| "bot_transitions StatusError = Some [StatusIdle, StatusOffline, StatusMaintenance]"
| "bot_transitions (BotStatusOther _) = None"

definition IsValidTransition :: "Status \<Rightarrow> Status \<Rightarrow> bool" where
  "IsValidTransition from to = table_allows bot_transitions from to"

section \<open>The agent\<close>

type_synonym Capability = string

definition CapabilityFuzzing :: Capability where "CapabilityFuzzing = ''fuzzing''"
definition CapabilityAnalysis :: Capability where "CapabilityAnalysis = ''analysis''"
definition CapabilityReporting :: Capability where "CapabilityReporting = ''reporting''"
definition CapabilityCoordination :: Capability where "CapabilityCoordination = ''coordination''"

record Agent =
  agent_ID :: string
  agent_Name :: string
  agent_Status :: Status
  agent_Capabilities :: "Capability list"
  agent_LastHeartbeat :: time
  agent_CreatedAt :: time
  agent_UpdatedAt :: time
  agent_Metadata :: "(string \<rightharpoonup> any) option"

definition NewAgent :: "time \<Rightarrow> string \<Rightarrow> string \<Rightarrow> Capability list \<Rightarrow> Agent result" where
  "NewAgent now i name capabilities =
     (if i = '''' then Inl (ErrorString ''agent ID cannot be empty'')
      else if name = '''' then Inl (ErrorString ''agent name cannot be empty'')
      else if capabilities = [] then Inl (ErrorString ''agent must have at least one capability'')
      else Inr \<lparr>agent_ID = i, agent_Name = name, agent_Status = StatusIdle, agent_Capabilities = capabilities,
        agent_LastHeartbeat = now, agent_CreatedAt = now, agent_UpdatedAt = now, agent_Metadata = Some Map.empty\<rparr>)"

definition Agent_UpdateStatus :: "time \<Rightarrow> Status \<Rightarrow> Agent \<Rightarrow> Agent result" where
  "Agent_UpdateStatus now newStatus a = (case Status_Validate newStatus of
       Some e \<Rightarrow> Inl e | None \<Rightarrow> Inr (a\<lparr>agent_Status := newStatus, agent_UpdatedAt := now\<rparr>))"

definition Agent_UpdateHeartbeat :: "time \<Rightarrow> time \<Rightarrow> Agent \<Rightarrow> Agent" where
  "Agent_UpdateHeartbeat now now2 a = a\<lparr>agent_LastHeartbeat := now, agent_UpdatedAt := now2\<rparr>"

definition Agent_IsOnline :: "time \<Rightarrow> Agent \<Rightarrow> bool" where
  "Agent_IsOnline now a \<longleftrightarrow> agent_Status a \<noteq> StatusOffline \<and> time_Sub now (agent_LastHeartbeat a) < 5 * Minute"

definition Agent_IsAvailable :: "time \<Rightarrow> Agent \<Rightarrow> bool" where
  "Agent_IsAvailable now a \<longleftrightarrow> agent_Status a = StatusIdle \<and> Agent_IsOnline now a"

definition Agent_HasCapability :: "Capability \<Rightarrow> Agent \<Rightarrow> bool" where
  "Agent_HasCapability cap a \<longleftrightarrow> cap \<in> set (agent_Capabilities a)"

definition Agent_AddCapability :: "time \<Rightarrow> Capability \<Rightarrow> Agent \<Rightarrow> Agent" where
  "Agent_AddCapability now cap a =
     (if \<not> Agent_HasCapability cap a then a\<lparr>agent_Capabilities := agent_Capabilities a @ [cap], agent_UpdatedAt := now\<rparr> else a)"

definition Agent_RemoveCapability :: "time \<Rightarrow> Capability \<Rightarrow> Agent \<Rightarrow> Agent" where
  "Agent_RemoveCapability now cap a =
     a\<lparr>agent_Capabilities := filter (\<lambda>c. c \<noteq> cap) (agent_Capabilities a), agent_UpdatedAt := now\<rparr>"

definition Agent_SetMetadata :: "time \<Rightarrow> string \<Rightarrow> any \<Rightarrow> Agent \<Rightarrow> Agent" where
  "Agent_SetMetadata now key v a = a\<lparr>agent_Metadata := map_put (agent_Metadata a) key v, agent_UpdatedAt := now\<rparr>"

definition Agent_GetMetadata :: "string \<Rightarrow> Agent \<Rightarrow> any option" where
  "Agent_GetMetadata key a = map_get (agent_Metadata a) key"

definition Agent_Validate :: "Agent \<Rightarrow> error option" where
  "Agent_Validate a =
     (if agent_ID a = '''' then Some (ErrorString ''agent ID cannot be empty'')
      else if agent_Name a = '''' then Some (ErrorString ''agent name cannot be empty'')
      else if agent_Capabilities a = [] then Some (ErrorString ''agent must have at least one capability'')
      else Status_Validate (agent_Status a))"

section \<open>Events\<close>

datatype BotEventType = EventBotRegistered | EventBotDeregistered | EventBotStatusChanged | EventBotHeartbeat
  | EventBotWorkAssigned | EventBotWorkCompleted | EventBotWorkFailed | EventBotHealthCheckFailed

text \<open>Every event carries the base event's fields: type, bot ID and timestamp.\<close>

datatype BotEvent =
    BaseBotEvent BotEventType string time
  | BotRegisteredEvent BotEventType string time Agent
  | BotStatusChangedEvent BotEventType string time Status Status string
  | BotWorkAssignedEvent BotEventType string time string string "(string \<rightharpoonup> any) option"
  | BotWorkCompletedEvent BotEventType string time string duration "(string \<rightharpoonup> any) option"
  | BotWorkFailedEvent BotEventType string time string string string
  | BotHealthCheckFailedEvent BotEventType string time string time duration int bool "time option"

fun BotEvent_GetType :: "BotEvent \<Rightarrow> BotEventType" where
  "BotEvent_GetType (BaseBotEvent t _ _) = t"
| "BotEvent_GetType (BotRegisteredEvent t _ _ _) = t"
| "BotEvent_GetType (BotStatusChangedEvent t _ _ _ _ _) = t"
| "BotEvent_GetType (BotWorkAssignedEvent t _ _ _ _ _) = t"
| "BotEvent_GetType (BotWorkCompletedEvent t _ _ _ _ _) = t"
| "BotEvent_GetType (BotWorkFailedEvent t _ _ _ _ _) = t"
| "BotEvent_GetType (BotHealthCheckFailedEvent t _ _ _ _ _ _ _ _) = t"

definition NewBotRegisteredEvent :: "time \<Rightarrow> Agent \<Rightarrow> BotEvent" where
  "NewBotRegisteredEvent now a = BotRegisteredEvent EventBotRegistered (agent_ID a) now a"

definition NewBotStatusChangedEvent :: "time \<Rightarrow> string \<Rightarrow> Status \<Rightarrow> Status \<Rightarrow> string \<Rightarrow> BotEvent" where
  "NewBotStatusChangedEvent now botID old new reason = BotStatusChangedEvent EventBotStatusChanged botID now old new reason"

definition NewBotWorkAssignedEvent :: "time \<Rightarrow> string \<Rightarrow> string \<Rightarrow> string \<Rightarrow> (string \<rightharpoonup> any) option \<Rightarrow> BotEvent" where
  "NewBotWorkAssignedEvent now botID jobID jobType metadata = BotWorkAssignedEvent EventBotWorkAssigned botID now jobID jobType metadata"

definition NewBotWorkCompletedEvent :: "time \<Rightarrow> string \<Rightarrow> string \<Rightarrow> duration \<Rightarrow> (string \<rightharpoonup> any) option \<Rightarrow> BotEvent" where
  "NewBotWorkCompletedEvent now botID jobID d results = BotWorkCompletedEvent EventBotWorkCompleted botID now jobID d results"

definition NewBotWorkFailedEvent :: "time \<Rightarrow> string \<Rightarrow> string \<Rightarrow> string \<Rightarrow> string \<Rightarrow> BotEvent" where
  "NewBotWorkFailedEvent now botID jobID err reason = BotWorkFailedEvent EventBotWorkFailed botID now jobID err reason"

text \<open>\<open>now2\<close> is the reading for \<open>time.Since(lastSeen)\<close>.\<close>

definition NewBotHealthCheckFailedEvent ::
    "time \<Rightarrow> time \<Rightarrow> string \<Rightarrow> string \<Rightarrow> time \<Rightarrow> int \<Rightarrow> bool \<Rightarrow> time option \<Rightarrow> BotEvent" where
  "NewBotHealthCheckFailedEvent now now2 botID err lastSeen attempts willRetry nextRetry =
     BotHealthCheckFailedEvent EventBotHealthCheckFailed botID now err lastSeen (time_Sub now2 lastSeen) attempts willRetry nextRetry"

section \<open>The status machine\<close>

lemmas bot_status_defs = IsValidTransition_def table_allows_def

text \<open>No bot status is terminal.\<close>

interpretation bot_status: status_machine "\<lambda>s. Status_Validate s = None" "\<lambda>_. False" IsValidTransition
proof
  fix s t :: Status
  show "IsValidTransition s t \<Longrightarrow> Status_Validate s = None \<and> Status_Validate t = None"
    by (cases s) (auto simp: bot_status_defs)
  show "\<not> IsValidTransition s s"
    by (cases s) (auto simp: bot_status_defs)
  show "Status_Validate s = None \<Longrightarrow> \<not> False \<Longrightarrow> \<exists>t. IsValidTransition s t"
    by (cases s) (auto simp: bot_status_defs)
qed simp_all

text \<open>Metadata: reading what was written.\<close>

lemma Agent_Get_Set [simp]:
  "Agent_GetMetadata k (Agent_SetMetadata now k' v a) = (if k = k' then Some v else Agent_GetMetadata k a)"
  by (auto simp: Agent_GetMetadata_def Agent_SetMetadata_def map_get_def map_put_def split: option.splits)

lemma Agent_SetMetadata_fields [simp]:
  "agent_ID (Agent_SetMetadata now k v a) = agent_ID a" "agent_Name (Agent_SetMetadata now k v a) = agent_Name a"
  "agent_Status (Agent_SetMetadata now k v a) = agent_Status a"
  "agent_Capabilities (Agent_SetMetadata now k v a) = agent_Capabilities a"
  "agent_LastHeartbeat (Agent_SetMetadata now k v a) = agent_LastHeartbeat a"
  by (simp_all add: Agent_SetMetadata_def)

end
