(* ===== verification/Bot_Registry.thy ===== *)
theory Bot_Registry
  imports Bot_Types
begin

text \<open>
  The bot registry of \<open>pkg/domain/bot/registry\<close>: the registration service (\<open>service.go\<close>) and the
  health checker (\<open>health.go\<close>), over the interface \<open>AgentRepository\<close> of
  \<open>pkg/domain/bot/repository/interface.go\<close>. The repository holds no implementation of that interface:
  it is a record of methods over an arbitrary store \<open>'r\<close>, with the documented behaviour as the locale
  \<open>agent_repository\<close> and a store in memory that satisfies it. \<open>FindByID\<close> returns an agent or an error,
  never two nils.

  \<open>PublishEvent\<close> is observed as the list of published events; its error is ignored everywhere.
  \<open>fmt\<close> and \<open>parse\<close> are \<open>Format(time.RFC3339)\<close> and \<open>time.Parse(time.RFC3339, _)\<close>. The service's lock
  serialises its operations.
\<close>

section \<open>The repository interface\<close>

record 'r AgentRepository =
  ar_Create :: "Agent \<Rightarrow> 'r \<Rightarrow> error option \<times> 'r"
  ar_Update :: "Agent \<Rightarrow> 'r \<Rightarrow> error option \<times> 'r"
  ar_Delete :: "string \<Rightarrow> 'r \<Rightarrow> error option \<times> 'r"
  ar_FindByID :: "string \<Rightarrow> 'r \<Rightarrow> Agent result"
  ar_FindByCapability :: "Capability \<Rightarrow> 'r \<Rightarrow> Agent list result"
  ar_FindOnline :: "'r \<Rightarrow> Agent list result"
  ar_FindAvailable :: "'r \<Rightarrow> Agent list result"
  ar_FindStale :: "duration \<Rightarrow> 'r \<Rightarrow> Agent list result"
  ar_UpdateHeartbeat :: "string \<Rightarrow> 'r \<Rightarrow> error option \<times> 'r"
  ar_UpdateStatus :: "string \<Rightarrow> Status \<Rightarrow> 'r \<Rightarrow> error option \<times> 'r"
  ar_List :: "int \<Rightarrow> int \<Rightarrow> 'r \<Rightarrow> (Agent list \<times> int) result"
  ar_CountByStatus :: "Status \<Rightarrow> 'r \<Rightarrow> int result"
  ar_CountByCapability :: "Capability \<Rightarrow> 'r \<Rightarrow> int result"

section \<open>The service\<close>

record Service =
  svc_staleTimeout :: duration
  svc_heartbeatTimeout :: duration

datatype ServiceOption = WithStaleTimeout duration | WithHeartbeatTimeout duration

fun apply_option :: "ServiceOption \<Rightarrow> Service \<Rightarrow> Service" where
  "apply_option (WithStaleTimeout d) s = s\<lparr>svc_staleTimeout := d\<rparr>"
| "apply_option (WithHeartbeatTimeout d) s = s\<lparr>svc_heartbeatTimeout := d\<rparr>"

record HealthChecker =
  hc_staleTimeout :: duration
  hc_running :: bool
  hc_failureCounts :: "string \<rightharpoonup> int"
  hc_lastCheckTime :: "string \<rightharpoonup> time"

definition NewHealthChecker :: "duration \<Rightarrow> HealthChecker" where
  "NewHealthChecker d = \<lparr>hc_staleTimeout = d, hc_running = False, hc_failureCounts = Map.empty, hc_lastCheckTime = Map.empty\<rparr>"

text \<open>The two arguments say whether the repository and the event publisher are non-nil.\<close>

definition NewService :: "bool \<Rightarrow> bool \<Rightarrow> ServiceOption list \<Rightarrow> (Service \<times> HealthChecker) result" where
  "NewService hasRepo hasPub opts =
     (if \<not> hasRepo then Inl (ErrorString ''repository cannot be nil'')
      else if \<not> hasPub then Inl (ErrorString ''event publisher cannot be nil'')
      else let s = fold apply_option opts \<lparr>svc_staleTimeout = 5 * Minute, svc_heartbeatTimeout = 30 * Second\<rparr>
           in Inr (s, NewHealthChecker (svc_staleTimeout s)))"

type_synonym 'r world = "'r \<times> BotEvent list"

definition RegisterBot ::
    "'r AgentRepository \<Rightarrow> time \<Rightarrow> time \<Rightarrow> string \<Rightarrow> string \<Rightarrow> Capability list \<Rightarrow> 'r world \<Rightarrow> Agent result \<times> 'r world" where
  "RegisterBot R now now2 i name caps w = (case w of (r, evs) \<Rightarrow>
     (case ar_FindByID R i r of
        Inr _ \<Rightarrow> (Inl (ErrorString (''bot with ID '' @ i @ '' already exists'')), w)
      | Inl _ \<Rightarrow>
          (case NewAgent now i name caps of
             Inl e \<Rightarrow> (Inl (WrapError ''failed to create agent: '' e), w)
           | Inr agent \<Rightarrow>
               (case ar_Create R agent r of
                  (Some e, r') \<Rightarrow> (Inl (WrapError ''failed to save agent: '' e), (r', evs))
                | (None, r') \<Rightarrow> (Inr agent, (r', evs @ [NewBotRegisteredEvent now2 agent]))))))"

definition DeregisterBot :: "'r AgentRepository \<Rightarrow> time \<Rightarrow> string \<Rightarrow> 'r world \<Rightarrow> error option \<times> 'r world" where
  "DeregisterBot R now i w = (case w of (r, evs) \<Rightarrow>
     (case ar_FindByID R i r of
        Inl e \<Rightarrow> (Some (WrapError ''bot not found: '' e), w)
      | Inr agent \<Rightarrow>
          if agent_Status agent = StatusWorking then (Some (ErrorString ''cannot deregister bot while it's working''), w)
          else (case ar_Delete R i r of
             (Some e, r') \<Rightarrow> (Some (WrapError ''failed to delete agent: '' e), (r', evs))
           | (None, r') \<Rightarrow> (None, (r', evs @ [BaseBotEvent EventBotDeregistered i now])))))"

definition UpdateBotStatus ::
    "'r AgentRepository \<Rightarrow> time \<Rightarrow> time \<Rightarrow> string \<Rightarrow> Status \<Rightarrow> string \<Rightarrow> 'r world \<Rightarrow> error option \<times> 'r world" where
  "UpdateBotStatus R now now2 i newStatus reason w = (case w of (r, evs) \<Rightarrow>
     (case ar_FindByID R i r of
        Inl e \<Rightarrow> (Some (WrapError ''bot not found: '' e), w)
      | Inr agent \<Rightarrow>
          if \<not> IsValidTransition (agent_Status agent) newStatus then
            (Some (ErrorString (''invalid status transition from '' @ Status_String (agent_Status agent) @ '' to '' @ Status_String newStatus)), w)
          else (case Agent_UpdateStatus now newStatus agent of
             Inl e \<Rightarrow> (Some (WrapError ''failed to update status: '' e), w)
           | Inr agent' \<Rightarrow>
               (case ar_Update R agent' r of
                  (Some e, r') \<Rightarrow> (Some (WrapError ''failed to save agent: '' e), (r', evs))
                | (None, r') \<Rightarrow> (None, (r', evs @ [NewBotStatusChangedEvent now2 i (agent_Status agent) newStatus reason]))))))"

definition RecordHeartbeat :: "'r AgentRepository \<Rightarrow> time \<Rightarrow> string \<Rightarrow> 'r world \<Rightarrow> error option \<times> 'r world" where
  "RecordHeartbeat R now i w = (case w of (r, evs) \<Rightarrow>
     (case ar_UpdateHeartbeat R i r of
        (Some e, r') \<Rightarrow> (Some (WrapError ''failed to update heartbeat: '' e), (r', evs))
      | (None, r') \<Rightarrow> (None, (r', evs @ [BaseBotEvent EventBotHeartbeat i now]))))"

definition FindAvailableBots :: "'r AgentRepository \<Rightarrow> 'r \<Rightarrow> Agent list result" where
  "FindAvailableBots R r = ar_FindAvailable R r"

text \<open>\<open>clk k\<close> is the reading of the clock for the k-th agent found.\<close>

definition FindBotsByCapability :: "'r AgentRepository \<Rightarrow> (nat \<Rightarrow> time) \<Rightarrow> Capability \<Rightarrow> 'r \<Rightarrow> Agent list result" where
  "FindBotsByCapability R clk cap r = (case ar_FindByCapability R cap r of
       Inl e \<Rightarrow> Inl e
     | Inr agents \<Rightarrow> Inr (map snd (filter (\<lambda>(k, a). Agent_IsAvailable (clk k) a) (enumerate 0 agents))))"

definition GetBot :: "'r AgentRepository \<Rightarrow> string \<Rightarrow> 'r \<Rightarrow> Agent result" where
  "GetBot R i r = ar_FindByID R i r"

definition ListBots :: "'r AgentRepository \<Rightarrow> int \<Rightarrow> int \<Rightarrow> 'r \<Rightarrow> (Agent list \<times> int) result" where
  "ListBots R offset limit r = ar_List R offset limit r"

record BotStatistics =
  bs_TotalBots :: int
  bs_OnlineBots :: int
  bs_AvailableBots :: int
  bs_StatusCounts :: "Status \<rightharpoonup> int"
  bs_CapabilityCounts :: "Capability \<rightharpoonup> int"

fun count_statuses :: "'r AgentRepository \<Rightarrow> 'r \<Rightarrow> Status list \<Rightarrow> BotStatistics \<Rightarrow> BotStatistics result" where
  "count_statuses R r [] st = Inr st"
| "count_statuses R r (s # ss) st = (case ar_CountByStatus R s r of
       Inl e \<Rightarrow> Inl (WrapError (''failed to count by status '' @ Status_String s @ '': '') e)
     | Inr n \<Rightarrow> count_statuses R r ss
         (st\<lparr>bs_StatusCounts := (bs_StatusCounts st)(s \<mapsto> n), bs_TotalBots := wrap64 (bs_TotalBots st + n)\<rparr>))"

fun count_capabilities :: "'r AgentRepository \<Rightarrow> 'r \<Rightarrow> Capability list \<Rightarrow> BotStatistics \<Rightarrow> BotStatistics result" where
  "count_capabilities R r [] st = Inr st"
| "count_capabilities R r (c # cs) st = (case ar_CountByCapability R c r of
       Inl e \<Rightarrow> Inl (WrapError (''failed to count by capability '' @ c @ '': '') e)
     | Inr n \<Rightarrow> count_capabilities R r cs (st\<lparr>bs_CapabilityCounts := (bs_CapabilityCounts st)(c \<mapsto> n)\<rparr>))"

definition GetBotStatistics :: "'r AgentRepository \<Rightarrow> 'r \<Rightarrow> BotStatistics result" where
  "GetBotStatistics R r =
     (case count_statuses R r AllStatuses \<lparr>bs_TotalBots = 0, bs_OnlineBots = 0, bs_AvailableBots = 0,
         bs_StatusCounts = Map.empty, bs_CapabilityCounts = Map.empty\<rparr> of
        Inl e \<Rightarrow> Inl e
      | Inr st1 \<Rightarrow>
          (case count_capabilities R r [CapabilityFuzzing, CapabilityAnalysis, CapabilityReporting, CapabilityCoordination] st1 of
             Inl e \<Rightarrow> Inl e
           | Inr st2 \<Rightarrow>
               (case ar_FindOnline R r of
                  Inl e \<Rightarrow> Inl (WrapError ''failed to find online bots: '' e)
                | Inr online \<Rightarrow>
                    (case ar_FindAvailable R r of
                       Inl e \<Rightarrow> Inl (WrapError ''failed to find available bots: '' e)
                     | Inr available \<Rightarrow>
                         Inr (st2\<lparr>bs_OnlineBots := int (length online), bs_AvailableBots := int (length available)\<rparr>)))))"

text \<open>\<open>clk 0\<close>: \<open>IsAvailable\<close>; 1: \<open>UpdateStatus\<close>; 2, 3, 5: \<open>UpdatedAt\<close> of the entries; 4: the start time; 6: the event.\<close>

definition AssignWork ::
    "(time \<Rightarrow> string) \<Rightarrow> 'r AgentRepository \<Rightarrow> (nat \<Rightarrow> time) \<Rightarrow> string \<Rightarrow> string \<Rightarrow> string \<Rightarrow> (string \<rightharpoonup> any) option \<Rightarrow>
       'r world \<Rightarrow> error option \<times> 'r world" where
  "AssignWork fmt R clk botID jobID jobType metadata w = (case w of (r, evs) \<Rightarrow>
     (case ar_FindByID R botID r of
        Inl e \<Rightarrow> (Some (WrapError ''bot not found: '' e), w)
      | Inr agent \<Rightarrow>
          if \<not> Agent_IsAvailable (clk 0) agent then (Some (ErrorString (''bot '' @ botID @ '' is not available for work'')), w)
          else (case Agent_UpdateStatus (clk 1) StatusWorking agent of
             Inl e \<Rightarrow> (Some (WrapError ''failed to update status: '' e), w)
           | Inr a0 \<Rightarrow>
               let a1 = Agent_SetMetadata (clk 2) ''current_job_id'' (AString jobID) a0;
                   a2 = Agent_SetMetadata (clk 3) ''current_job_type'' (AString jobType) a1;
                   a3 = Agent_SetMetadata (clk 5) ''job_start_time'' (AString (fmt (clk 4))) a2
               in (case ar_Update R a3 r of
                     (Some e, r') \<Rightarrow> (Some (WrapError ''failed to save agent: '' e), (r', evs))
                   | (None, r') \<Rightarrow> (None, (r', evs @ [NewBotWorkAssignedEvent (clk 6) botID jobID jobType metadata]))))))"

definition complete_agent :: "(time \<Rightarrow> string) \<Rightarrow> (nat \<Rightarrow> time) \<Rightarrow> string \<Rightarrow> Agent \<Rightarrow> Agent" where
  "complete_agent fmt clk jobID a0 =
     (let a1 = Agent_SetMetadata (clk 2) ''current_job_id'' ANil a0;
          a2 = Agent_SetMetadata (clk 3) ''current_job_type'' ANil a1;
          a3 = Agent_SetMetadata (clk 4) ''job_start_time'' ANil a2;
          a4 = Agent_SetMetadata (clk 5) ''last_job_id'' (AString jobID) a3
      in Agent_SetMetadata (clk 7) ''last_job_completed'' (AString (fmt (clk 6))) a4)"

definition CompleteWork ::
    "(time \<Rightarrow> string) \<Rightarrow> (string \<Rightarrow> time option) \<Rightarrow> 'r AgentRepository \<Rightarrow> (nat \<Rightarrow> time) \<Rightarrow> string \<Rightarrow> string \<Rightarrow> (string \<rightharpoonup> any) option \<Rightarrow>
       'r world \<Rightarrow> (error option \<times> 'r world) go" where
  "CompleteWork fmt parse R clk botID jobID results w = (case w of (r, evs) \<Rightarrow>
     (case ar_FindByID R botID r of
        Inl e \<Rightarrow> Ret (Some (WrapError ''bot not found: '' e), w)
      | Inr agent \<Rightarrow>
          if Agent_GetMetadata ''current_job_id'' agent \<noteq> Some (AString jobID)
          then Ret (Some (ErrorString (''job ID mismatch for bot '' @ botID)), w)
          else (case Agent_GetMetadata ''job_start_time'' agent of
             Some (AString startTimeStr) \<Rightarrow>
               let d = (case parse startTimeStr of None \<Rightarrow> 0 | Some startTime \<Rightarrow> time_Sub (clk 0) startTime)
               in (case Agent_UpdateStatus (clk 1) StatusIdle agent of
                     Inl e \<Rightarrow> Ret (Some (WrapError ''failed to update status: '' e), w)
                   | Inr a0 \<Rightarrow>
                       (case ar_Update R (complete_agent fmt clk jobID a0) r of
                          (Some e, r') \<Rightarrow> Ret (Some (WrapError ''failed to save agent: '' e), (r', evs))
                        | (None, r') \<Rightarrow> Ret (None, (r', evs @ [NewBotWorkCompletedEvent (clk 8) botID jobID d results]))))
           | _ \<Rightarrow> Panic)))"

definition FailWork ::
    "(time \<Rightarrow> string) \<Rightarrow> 'r AgentRepository \<Rightarrow> (nat \<Rightarrow> time) \<Rightarrow> string \<Rightarrow> string \<Rightarrow> string \<Rightarrow> string \<Rightarrow> 'r world \<Rightarrow> error option \<times> 'r world" where
  "FailWork fmt R clk botID jobID errorMsg reason w = (case w of (r, evs) \<Rightarrow>
     (case ar_FindByID R botID r of
        Inl e \<Rightarrow> (Some (WrapError ''bot not found: '' e), w)
      | Inr agent \<Rightarrow>
          (case Agent_UpdateStatus (clk 0) StatusError agent of
             Inl e \<Rightarrow> (Some (WrapError ''failed to update status: '' e), w)
           | Inr a0 \<Rightarrow>
               let a1 = Agent_SetMetadata (clk 1) ''last_error'' (AString errorMsg) a0;
                   a2 = Agent_SetMetadata (clk 3) ''last_error_time'' (AString (fmt (clk 2))) a1
               in (case ar_Update R a2 r of
                     (Some e, r') \<Rightarrow> (Some (WrapError ''failed to save agent: '' e), (r', evs))
                   | (None, r') \<Rightarrow> (None, (r', evs @ [NewBotWorkFailedEvent (clk 4) botID jobID errorMsg reason]))))))"

section \<open>The health checker\<close>

definition hc_Start :: "HealthChecker \<Rightarrow> HealthChecker" where
  "hc_Start hc = (if hc_running hc then hc else hc\<lparr>hc_running := True\<rparr>)"

definition hc_Stop :: "HealthChecker \<Rightarrow> HealthChecker" where
  "hc_Stop hc = (if \<not> hc_running hc then hc else hc\<lparr>hc_running := False\<rparr>)"

definition hc_count :: "HealthChecker \<Rightarrow> string \<Rightarrow> int" where
  "hc_count hc i = (case hc_failureCounts hc i of None \<Rightarrow> 0 | Some n \<Rightarrow> n)"

definition hc_handleWorkingBotOffline :: "time \<Rightarrow> Agent \<Rightarrow> BotEvent list \<Rightarrow> BotEvent list go" where
  "hc_handleWorkingBotOffline now agent evs = (case Agent_GetMetadata ''current_job_id'' agent of
       None \<Rightarrow> Ret evs
     | Some ANil \<Rightarrow> Ret evs
     | Some (AString jobID) \<Rightarrow>
         Ret (evs @ [NewBotWorkFailedEvent now (agent_ID agent) jobID ''bot went offline during work execution'' ''health check failure''])
     | Some _ \<Rightarrow> Panic)"

definition hc_handleStaleBot ::
    "'r AgentRepository \<Rightarrow> (nat \<Rightarrow> time) \<Rightarrow> Agent \<Rightarrow> HealthChecker \<Rightarrow> 'r world \<Rightarrow> (HealthChecker \<times> 'r world) go" where
  "hc_handleStaleBot R clk agent hc w = (case w of (r, evs) \<Rightarrow>
     let failureCount = wrap64 (hc_count hc (agent_ID agent) + 1);
         hc1 = hc\<lparr>hc_failureCounts := (hc_failureCounts hc)(agent_ID agent \<mapsto> failureCount),
                  hc_lastCheckTime := (hc_lastCheckTime hc)(agent_ID agent \<mapsto> clk 0)\<rparr>;
         willRetry = (failureCount < 3);
         nextRetry = (if willRetry then Some (time_Add (clk 1) (wrap64 (failureCount * Minute))) else None);
         evs1 = evs @ [NewBotHealthCheckFailedEvent (clk 2) (clk 3) (agent_ID agent) ''bot heartbeat timeout''
                         (agent_LastHeartbeat agent) failureCount willRetry nextRetry]
     in if failureCount \<ge> 3 then
          let r1 = snd (ar_UpdateStatus R (agent_ID agent) StatusOffline r)
          in if agent_Status agent = StatusWorking
             then (case hc_handleWorkingBotOffline (clk 4) agent evs1 of Panic \<Rightarrow> Panic | Ret evs2 \<Rightarrow> Ret (hc1, (r1, evs2)))
             else Ret (hc1, (r1, evs1))
        else if agent_Status agent \<noteq> StatusMaintenance
          then Ret (hc1, (snd (ar_UpdateStatus R (agent_ID agent) StatusError r), evs1))
        else Ret (hc1, (r, evs1)))"

definition hc_cleanupRecoveredBots :: "'r AgentRepository \<Rightarrow> time \<Rightarrow> 'r \<Rightarrow> HealthChecker \<Rightarrow> HealthChecker" where
  "hc_cleanupRecoveredBots R now r hc = (case ar_FindOnline R r of
       Inl _ \<Rightarrow> hc
     | Inr online \<Rightarrow>
         let isOnline = (\<lambda>i. i \<in> agent_ID ` set online);
             fc1 = (\<lambda>i. if isOnline i then None else hc_failureCounts hc i);
             lc1 = (\<lambda>i. if hc_failureCounts hc i \<noteq> None \<and> isOnline i then None else hc_lastCheckTime hc i);
             old = (\<lambda>i. case lc1 i of None \<Rightarrow> False | Some t \<Rightarrow> time_Before t (time_Add now (- 24 * Hour)))
         in hc\<lparr>hc_failureCounts := (\<lambda>i. if old i then None else fc1 i),
               hc_lastCheckTime := (\<lambda>i. if old i then None else lc1 i)\<rparr>)"

fun hc_stale_bots ::
    "'r AgentRepository \<Rightarrow> (nat \<Rightarrow> nat \<Rightarrow> time) \<Rightarrow> Agent list \<Rightarrow> HealthChecker \<Rightarrow> 'r world \<Rightarrow> (HealthChecker \<times> 'r world) go" where
  "hc_stale_bots R clks [] hc w = Ret (hc, w)"
| "hc_stale_bots R clks (agent # agents) hc w = (case hc_handleStaleBot R (clks 0) agent hc w of
       Panic \<Rightarrow> Panic | Ret (hc', w') \<Rightarrow> hc_stale_bots R (\<lambda>k. clks (Suc k)) agents hc' w')"

definition hc_performHealthCheck ::
    "'r AgentRepository \<Rightarrow> (nat \<Rightarrow> nat \<Rightarrow> time) \<Rightarrow> time \<Rightarrow> HealthChecker \<Rightarrow> 'r world \<Rightarrow> (HealthChecker \<times> 'r world) go" where
  "hc_performHealthCheck R clks now hc w = (case ar_FindStale R (hc_staleTimeout hc) (fst w) of
       Inl _ \<Rightarrow> Ret (hc, w)
     | Inr bots \<Rightarrow> (case hc_stale_bots R clks bots hc w of
          Panic \<Rightarrow> Panic
        | Ret (hc', w') \<Rightarrow> Ret (hc_cleanupRecoveredBots R now (fst w') hc', w')))"

record HealthStatus =
  hs_BotID :: string
  hs_FailureCount :: int
  hs_LastCheckTime :: time
  hs_IsHealthy :: bool

definition hc_last :: "HealthChecker \<Rightarrow> string \<Rightarrow> time" where
  "hc_last hc i = (case hc_lastCheckTime hc i of None \<Rightarrow> time_zero | Some t \<Rightarrow> t)"

definition hc_GetHealthStatus :: "string \<Rightarrow> HealthChecker \<Rightarrow> HealthStatus" where
  "hc_GetHealthStatus i hc = \<lparr>hs_BotID = i, hs_FailureCount = hc_count hc i, hs_LastCheckTime = hc_last hc i,
     hs_IsHealthy = (hc_count hc i = 0)\<rparr>"

definition hc_GetAllHealthStatuses :: "HealthChecker \<Rightarrow> string \<rightharpoonup> HealthStatus" where
  "hc_GetAllHealthStatuses hc = (\<lambda>i. case hc_failureCounts hc i of None \<Rightarrow> None
     | Some n \<Rightarrow> Some \<lparr>hs_BotID = i, hs_FailureCount = n, hs_LastCheckTime = hc_last hc i, hs_IsHealthy = (n = 0)\<rparr>)"

definition hc_ResetBotHealth :: "string \<Rightarrow> HealthChecker \<Rightarrow> HealthChecker" where
  "hc_ResetBotHealth i hc = hc\<lparr>hc_failureCounts := (hc_failureCounts hc)(i := None), hc_lastCheckTime := (hc_lastCheckTime hc)(i := None)\<rparr>"

section \<open>What the repository interface promises\<close>

locale agent_repository =
  fixes R :: "'r AgentRepository"
    and agents :: "'r \<Rightarrow> string \<rightharpoonup> Agent"
  assumes keyed: "agents r i = Some a \<Longrightarrow> agent_ID a = i"
    and FindByID: "ar_FindByID R i r = Inr a \<longleftrightarrow> agents r i = Some a"
    and Create: "ar_Create R a r = (eo, r') \<Longrightarrow> agents r' = (if eo = None then (agents r)(agent_ID a \<mapsto> a) else agents r)"
    and Update: "ar_Update R a r = (eo, r') \<Longrightarrow> agents r' = (if eo = None then (agents r)(agent_ID a \<mapsto> a) else agents r)"
    and Delete: "ar_Delete R i r = (eo, r') \<Longrightarrow> agents r' = (if eo = None then (agents r)(i := None) else agents r)"
    and UpdateHeartbeat: "ar_UpdateHeartbeat R i r = (None, r') \<Longrightarrow>
      \<exists>a t t'. agents r i = Some a \<and> agents r' = (agents r)(i \<mapsto> Agent_UpdateHeartbeat t t' a)"
    and UpdateHeartbeat_err: "ar_UpdateHeartbeat R i r = (Some e, r') \<Longrightarrow> agents r' = agents r"
    and UpdateStatus: "ar_UpdateStatus R i s r = (None, r') \<Longrightarrow>
      \<exists>a t. agents r i = Some a \<and> agents r' = (agents r)(i \<mapsto> a\<lparr>agent_Status := s, agent_UpdatedAt := t\<rparr>)"
    and UpdateStatus_err: "ar_UpdateStatus R i s r = (Some e, r') \<Longrightarrow> agents r' = agents r"
    and FindStale: "ar_FindStale R d r = Inr as \<Longrightarrow> a \<in> set as \<Longrightarrow> agents r (agent_ID a) = Some a"
begin
end

section \<open>A store in memory\<close>

record memAgents =
  ma_agents :: "Agent list"
  ma_now :: time

definition ma_lookup :: "memAgents \<Rightarrow> string \<rightharpoonup> Agent" where
  "ma_lookup r i = find (\<lambda>a. agent_ID a = i) (ma_agents r)"

definition ma_change :: "string \<Rightarrow> (Agent \<Rightarrow> Agent) \<Rightarrow> memAgents \<Rightarrow> error option \<times> memAgents" where
  "ma_change i f r = (if ma_lookup r i = None then (Some (ErrorString ''agent not found''), r)
     else (None, r\<lparr>ma_agents := map (\<lambda>a. if agent_ID a = i then f a else a) (ma_agents r)\<rparr>))"

definition ma_select :: "(Agent \<Rightarrow> bool) \<Rightarrow> memAgents \<Rightarrow> Agent list" where
  "ma_select p r = filter (\<lambda>a. p a \<and> ma_lookup r (agent_ID a) = Some a) (ma_agents r)"

definition mem_agents :: "memAgents AgentRepository" where
  "mem_agents = \<lparr>
     ar_Create = (\<lambda>a r. if ma_lookup r (agent_ID a) \<noteq> None then (Some (ErrorString ''agent already exists''), r)
       else (None, r\<lparr>ma_agents := a # ma_agents r\<rparr>)),
     ar_Update = (\<lambda>a r. ma_change (agent_ID a) (\<lambda>_. a) r),
     ar_Delete = (\<lambda>i r. if ma_lookup r i = None then (Some (ErrorString ''agent not found''), r)
       else (None, r\<lparr>ma_agents := filter (\<lambda>a. agent_ID a \<noteq> i) (ma_agents r)\<rparr>)),
     ar_FindByID = (\<lambda>i r. case ma_lookup r i of None \<Rightarrow> Inl (ErrorString ''agent not found'') | Some a \<Rightarrow> Inr a),
     ar_FindByCapability = (\<lambda>c r. Inr (ma_select (Agent_HasCapability c) r)),
     ar_FindOnline = (\<lambda>r. Inr (ma_select (Agent_IsOnline (ma_now r)) r)),
     ar_FindAvailable = (\<lambda>r. Inr (ma_select (Agent_IsAvailable (ma_now r)) r)),
     ar_FindStale = (\<lambda>d r. Inr (ma_select (\<lambda>a. time_Sub (ma_now r) (agent_LastHeartbeat a) > d) r)),
     ar_UpdateHeartbeat = (\<lambda>i r. ma_change i (Agent_UpdateHeartbeat (ma_now r) (ma_now r)) r),
     ar_UpdateStatus = (\<lambda>i s r. ma_change i (\<lambda>a. a\<lparr>agent_Status := s, agent_UpdatedAt := ma_now r\<rparr>) r),
     ar_List = (\<lambda>off lim r. Inr (take (nat lim) (drop (nat off) (ma_agents r)), int (length (ma_agents r)))),
     ar_CountByStatus = (\<lambda>s r. Inr (int (length (ma_select (\<lambda>a. agent_Status a = s) r)))),
     ar_CountByCapability = (\<lambda>c r. Inr (int (length (ma_select (Agent_HasCapability c) r))))
   \<rparr>"

lemma ma_lookup_ID: "ma_lookup r i = Some a \<Longrightarrow> agent_ID a = i"
  by (auto simp: ma_lookup_def find_Some_iff)

lemma ma_change_lookup:
  assumes "ma_lookup r i = Some a" and "\<And>a. agent_ID a = i \<Longrightarrow> agent_ID (f a) = i"
  shows "ma_lookup (r\<lparr>ma_agents := map (\<lambda>a. if agent_ID a = i then f a else a) (ma_agents r)\<rparr>) = (ma_lookup r)(i \<mapsto> f a)"
proof (rule ext)
  fix x
  have "find (\<lambda>a. agent_ID a = x) (map (\<lambda>a. if agent_ID a = i then f a else a) as) =
      (if x = i then map_option f (find (\<lambda>a. agent_ID a = i) as) else find (\<lambda>a. agent_ID a = x) as)" for as
    using assms(2) by (induction as) auto
  then show "ma_lookup (r\<lparr>ma_agents := map (\<lambda>a. if agent_ID a = i then f a else a) (ma_agents r)\<rparr>) x = ((ma_lookup r)(i \<mapsto> f a)) x"
    using assms(1) by (simp add: ma_lookup_def)
qed

lemma ma_change_ok:
  assumes "\<And>a. agent_ID a = i \<Longrightarrow> agent_ID (f a) = i" and "ma_change i f r = (None, r')"
  shows "\<exists>a. ma_lookup r i = Some a \<and> ma_lookup r' = (ma_lookup r)(i \<mapsto> f a)"
  using assms(2) ma_change_lookup [of r i _ f] assms(1) by (auto simp: ma_change_def split: if_splits)

lemma ma_change_err: "ma_change i f r = (Some e, r') \<Longrightarrow> r' = r"
  by (auto simp: ma_change_def split: if_splits)

lemma ma_delete_lookup: "ma_lookup (r\<lparr>ma_agents := filter (\<lambda>a. agent_ID a \<noteq> i) (ma_agents r)\<rparr>) = (ma_lookup r)(i := None)"
proof (rule ext)
  fix x
  have "find (\<lambda>a. agent_ID a = x) (filter (\<lambda>a. agent_ID a \<noteq> i) as) = (if x = i then None else find (\<lambda>a. agent_ID a = x) as)" for as
    by (induction as) auto
  from this [of "ma_agents r"] show "ma_lookup (r\<lparr>ma_agents := filter (\<lambda>a. agent_ID a \<noteq> i) (ma_agents r)\<rparr>) x = ((ma_lookup r)(i := None)) x"
    by (cases "x = i") (simp_all add: ma_lookup_def)
qed

interpretation mem_ag: agent_repository mem_agents ma_lookup
proof unfold_locales
  fix r r' :: memAgents and a i eo s e d as
  show "ma_lookup r i = Some a \<Longrightarrow> agent_ID a = i" by (rule ma_lookup_ID)
  show "(ar_FindByID mem_agents i r = Inr a) = (ma_lookup r i = Some a)"
    by (simp add: mem_agents_def split: option.splits)
  show "ar_Create mem_agents a r = (eo, r') \<Longrightarrow> ma_lookup r' = (if eo = None then (ma_lookup r)(agent_ID a \<mapsto> a) else ma_lookup r)"
    by (auto simp: mem_agents_def ma_lookup_def fun_eq_iff split: if_splits)
  show "ma_lookup r' = (if eo = None then (ma_lookup r)(agent_ID a \<mapsto> a) else ma_lookup r)" if "ar_Update mem_agents a r = (eo, r')"
  proof (cases eo)
    case None
    then show ?thesis using that ma_change_ok [of "agent_ID a" "\<lambda>_. a"] by (auto simp: mem_agents_def)
  qed (use that in \<open>auto simp: mem_agents_def dest: ma_change_err\<close>)
  show "ar_Delete mem_agents i r = (eo, r') \<Longrightarrow> ma_lookup r' = (if eo = None then (ma_lookup r)(i := None) else ma_lookup r)"
    by (auto simp: mem_agents_def ma_delete_lookup split: if_splits)
  show "\<exists>a t t'. ma_lookup r i = Some a \<and> ma_lookup r' = (ma_lookup r)(i \<mapsto> Agent_UpdateHeartbeat t t' a)"
    if "ar_UpdateHeartbeat mem_agents i r = (None, r')"
    using that ma_change_ok [of i "Agent_UpdateHeartbeat (ma_now r) (ma_now r)" r r'] by (auto simp: mem_agents_def Agent_UpdateHeartbeat_def)
  show "ar_UpdateHeartbeat mem_agents i r = (Some e, r') \<Longrightarrow> ma_lookup r' = ma_lookup r"
      "ar_UpdateStatus mem_agents i s r = (Some e, r') \<Longrightarrow> ma_lookup r' = ma_lookup r"
    by (auto simp: mem_agents_def dest: ma_change_err)
  show "\<exists>a t. ma_lookup r i = Some a \<and> ma_lookup r' = (ma_lookup r)(i \<mapsto> a\<lparr>agent_Status := s, agent_UpdatedAt := t\<rparr>)"
    if "ar_UpdateStatus mem_agents i s r = (None, r')"
    using that ma_change_ok [of i "\<lambda>a. a\<lparr>agent_Status := s, agent_UpdatedAt := ma_now r\<rparr>" r r'] by (auto simp: mem_agents_def)
  show "ar_FindStale mem_agents d r = Inr as \<Longrightarrow> a \<in> set as \<Longrightarrow> ma_lookup r (agent_ID a) = Some a"
    by (auto simp: mem_agents_def ma_select_def)
qed

section \<open>The invariant of the registry\<close>

text \<open>
  An agent is valid, the current job in its metadata is absent, nil or a string, and with a current
  job there is a start time.
\<close>

fun job_meta_ok :: "any option \<Rightarrow> any option \<Rightarrow> bool" where
  "job_meta_ok None st = True"
| "job_meta_ok (Some ANil) st = True"
| "job_meta_ok (Some (AString _)) st = (case st of Some (AString _) \<Rightarrow> True | _ \<Rightarrow> False)"
| "job_meta_ok (Some _) st = False"

definition agent_ok :: "Agent \<Rightarrow> bool" where
  "agent_ok a \<longleftrightarrow> Agent_Validate a = None \<and>
     job_meta_ok (Agent_GetMetadata ''current_job_id'' a) (Agent_GetMetadata ''job_start_time'' a)"

definition agents_ok :: "(string \<rightharpoonup> Agent) \<Rightarrow> bool" where
  "agents_ok m \<longleftrightarrow> (\<forall>i a. m i = Some a \<longrightarrow> agent_ok a)"

lemma agents_ok_upd: "agents_ok m \<Longrightarrow> agent_ok a \<Longrightarrow> agents_ok (m(i \<mapsto> a))"
  by (simp add: agents_ok_def)

lemma agents_okD: "agents_ok m \<Longrightarrow> m i = Some a \<Longrightarrow> agent_ok a"
  by (simp add: agents_ok_def)

lemma agent_ok_status: "agent_ok a \<Longrightarrow> Status_Validate s = None \<Longrightarrow> agent_ok (a\<lparr>agent_Status := s, agent_UpdatedAt := t\<rparr>)"
  by (simp add: agent_ok_def Agent_Validate_def Agent_GetMetadata_def split: if_splits)

lemma agent_ok_heartbeat: "agent_ok a \<Longrightarrow> agent_ok (Agent_UpdateHeartbeat t t' a)"
  by (simp add: agent_ok_def Agent_Validate_def Agent_UpdateHeartbeat_def Agent_GetMetadata_def split: if_splits)

lemma agent_ok_new: "NewAgent now i name caps = Inr a \<Longrightarrow> agent_ok a"
  by (auto simp: NewAgent_def agent_ok_def Agent_Validate_def Agent_GetMetadata_def map_get_def split: if_splits)

lemma Agent_Validate_Set [simp]: "Agent_Validate (Agent_SetMetadata now k v a) = Agent_Validate a"
  by (simp add: Agent_Validate_def)

lemma agent_ok_other:
  "agent_ok a \<Longrightarrow> k \<noteq> ''current_job_id'' \<Longrightarrow> k \<noteq> ''job_start_time'' \<Longrightarrow> agent_ok (Agent_SetMetadata now k v a)"
  by (simp add: agent_ok_def)

lemma agent_ok_assigned:
  "agent_ok a \<Longrightarrow> agent_ok (Agent_SetMetadata t3 ''job_start_time'' (AString s)
     (Agent_SetMetadata t2 ''current_job_type'' y (Agent_SetMetadata t1 ''current_job_id'' (AString j) a)))"
  by (simp add: agent_ok_def)

lemma agent_ok_complete: "agent_ok a \<Longrightarrow> agent_ok (complete_agent fmt clk j a)"
  by (simp add: agent_ok_def complete_agent_def)

lemmas agent_ok_intros = agent_ok_status agent_ok_heartbeat agent_ok_other agent_ok_assigned agent_ok_complete

text \<open>One call of the service or one health check.\<close>

inductive registry_step :: "'r AgentRepository \<Rightarrow> 'r world \<Rightarrow> 'r world \<Rightarrow> bool" for R where
  register: "RegisterBot R t t' i name caps w = (res, w') \<Longrightarrow> registry_step R w w'"
| deregister: "DeregisterBot R t i w = (eo, w') \<Longrightarrow> registry_step R w w'"
| status: "UpdateBotStatus R t t' i s reason w = (eo, w') \<Longrightarrow> registry_step R w w'"
| heartbeat: "RecordHeartbeat R t i w = (eo, w') \<Longrightarrow> registry_step R w w'"
| assign: "AssignWork fmt R clk i j jt md w = (eo, w') \<Longrightarrow> registry_step R w w'"
| complete: "CompleteWork fmt parse R clk i j results w = Ret (eo, w') \<Longrightarrow> registry_step R w w'"
| fail: "FailWork fmt R clk i j msg reason w = (eo, w') \<Longrightarrow> registry_step R w w'"
| health: "hc_performHealthCheck R clks t hc w = Ret (hc', w') \<Longrightarrow> registry_step R w w'"

context agent_repository
begin

lemma UpdateStatus_ok:
  "agents_ok (agents r) \<Longrightarrow> Status_Validate s = None \<Longrightarrow> ar_UpdateStatus R i s r = (eo, r') \<Longrightarrow> agents_ok (agents r')"
  by (cases eo) (auto dest!: UpdateStatus UpdateStatus_err intro!: agents_ok_upd agent_ok_status dest: agents_okD)

lemma UpdateStatus_snd_ok:
  "agents_ok (agents r) \<Longrightarrow> Status_Validate s = None \<Longrightarrow> agents_ok (agents (snd (ar_UpdateStatus R i s r)))"
  using UpdateStatus_ok by (metis prod.collapse)

lemma Update_ok: "agents_ok (agents r) \<Longrightarrow> agent_ok a \<Longrightarrow> ar_Update R a r = (eo, r') \<Longrightarrow> agents_ok (agents r')"
  by (simp add: Update agents_ok_upd)

lemma found_ok: "agents_ok (agents r) \<Longrightarrow> ar_FindByID R i r = Inr a \<Longrightarrow> agent_ok a"
  using FindByID agents_okD by blast

lemma stale_ok: "agents_ok (agents r) \<Longrightarrow> ar_FindStale R d r = Inr as \<Longrightarrow> \<forall>a \<in> set as. agent_ok a"
  using FindStale agents_okD by blast

lemma CompleteWork_returns:
  assumes "agents_ok (agents r)"
  shows "CompleteWork fmt parse R clk i j results (r, evs) \<noteq> Panic"
proof (cases "ar_FindByID R i r")
  case (Inr a)
  have "job_meta_ok (Agent_GetMetadata ''current_job_id'' a) (Agent_GetMetadata ''job_start_time'' a)"
    using found_ok [OF assms Inr] by (simp add: agent_ok_def)
  then show ?thesis
    using Inr by (auto simp: CompleteWork_def Let_def split: option.splits any.splits sum.splits prod.splits)
qed (simp add: CompleteWork_def)

lemma handleStaleBot_ok:
  assumes "agents_ok (agents r)" and "agent_ok a"
  shows "\<exists>hc' r' evs'. hc_handleStaleBot R clk a hc (r, evs) = Ret (hc', (r', evs')) \<and> agents_ok (agents r')"
proof -
  have "job_meta_ok (Agent_GetMetadata ''current_job_id'' a) (Agent_GetMetadata ''job_start_time'' a)"
    using assms(2) by (simp add: agent_ok_def)
  then have "\<exists>evs'. hc_handleWorkingBotOffline t a evs = Ret evs'" for t evs
    by (auto simp: hc_handleWorkingBotOffline_def split: option.splits any.splits)
  then obtain f where f: "\<And>t evs. hc_handleWorkingBotOffline t a evs = Ret (f t evs)" by metis
  show ?thesis
    using assms(1) UpdateStatus_snd_ok [OF assms(1)] by (simp add: hc_handleStaleBot_def Let_def f)
qed

lemma stale_bots_ok:
  "agents_ok (agents r) \<Longrightarrow> \<forall>a \<in> set as. agent_ok a \<Longrightarrow>
     \<exists>hc' r' evs'. hc_stale_bots R clks as hc (r, evs) = Ret (hc', (r', evs')) \<and> agents_ok (agents r')"
proof (induction as arbitrary: clks hc r evs)
  case (Cons a as)
  obtain hc' r' evs' where h: "hc_handleStaleBot R (clks 0) a hc (r, evs) = Ret (hc', (r', evs'))" "agents_ok (agents r')"
    using handleStaleBot_ok Cons.prems by fastforce
  then show ?case using Cons.IH [OF h(2)] Cons.prems(2) by simp
qed simp

lemma health_ok:
  assumes "agents_ok (agents r)"
  shows "\<exists>hc' r' evs'. hc_performHealthCheck R clks t hc (r, evs) = Ret (hc', (r', evs')) \<and> agents_ok (agents r')"
proof (cases "ar_FindStale R (hc_staleTimeout hc) r")
  case (Inr as)
  then show ?thesis
    using stale_bots_ok [OF assms stale_ok [OF assms Inr], of clks hc evs] by (auto simp: hc_performHealthCheck_def)
qed (use assms in \<open>simp add: hc_performHealthCheck_def\<close>)

lemma valid_target: "IsValidTransition s s' \<Longrightarrow> Status_Validate s' = None"
  using bot_status.can_valid by blast

lemma Update_status_ok:
  assumes "ar_Update R (a\<lparr>agent_Status := s, agent_UpdatedAt := t\<rparr>) r = (eo, r')" and "ar_FindByID R i r = Inr a"
    and "IsValidTransition s0 s" and "agents_ok (agents r)"
  shows "agents_ok (agents r')"
  by (rule Update_ok [OF assms(4) agent_ok_status [OF found_ok [OF assms(4,2)] valid_target [OF assms(3)]] assms(1)])

lemma Update_assigned_ok:
  assumes "ar_Update R (Agent_SetMetadata t3 ''job_start_time'' (AString s) (Agent_SetMetadata t2 ''current_job_type'' y
      (Agent_SetMetadata t1 ''current_job_id'' (AString j) (a\<lparr>agent_Status := StatusWorking, agent_UpdatedAt := t\<rparr>)))) r = (eo, r')"
    and "ar_FindByID R i r = Inr a" and "agents_ok (agents r)"
  shows "agents_ok (agents r')"
  by (rule Update_ok [OF assms(3) agent_ok_assigned [OF agent_ok_status [OF found_ok [OF assms(3,2)]]] assms(1)]) simp

lemma Update_complete_ok:
  assumes "ar_Update R (complete_agent fmt clk j (a\<lparr>agent_Status := StatusIdle, agent_UpdatedAt := t\<rparr>)) r = (eo, r')"
    and "ar_FindByID R i r = Inr a" and "agents_ok (agents r)"
  shows "agents_ok (agents r')"
  by (rule Update_ok [OF assms(3) agent_ok_complete [OF agent_ok_status [OF found_ok [OF assms(3,2)]]] assms(1)]) simp

lemma Update_failed_ok:
  assumes "ar_Update R (Agent_SetMetadata t3 ''last_error_time'' x (Agent_SetMetadata t2 ''last_error'' y
      (a\<lparr>agent_Status := StatusError, agent_UpdatedAt := t\<rparr>))) r = (eo, r')"
    and "ar_FindByID R i r = Inr a" and "agents_ok (agents r)"
  shows "agents_ok (agents r')"
  by (rule Update_ok [OF assms(3) agent_ok_other [OF agent_ok_other [OF agent_ok_status [OF found_ok [OF assms(3,2)]]]] assms(1)]) simp_all

lemma registry_step_ok:
  assumes "registry_step R w w'" and "agents_ok (agents (fst w))"
  shows "agents_ok (agents (fst w'))"
  using assms
proof cases
  case (register t t' i name caps res)
  then show ?thesis using assms(2)
    by (auto simp: RegisterBot_def Create agents_ok_upd agent_ok_new split: prod.splits sum.splits option.splits)
next
  case (deregister t i eo)
  then show ?thesis using assms(2)
    by (auto simp: DeregisterBot_def Delete agents_ok_def split: prod.splits sum.splits option.splits if_splits)
next
  case (status t t' i s reason eo)
  then show ?thesis using assms(2)
    by (auto simp: UpdateBotStatus_def Agent_UpdateStatus_def split: prod.splits sum.splits option.splits if_splits
        dest: Update_status_ok)
next
  case (heartbeat t i eo)
  then show ?thesis using assms(2)
    by (auto simp: RecordHeartbeat_def split: prod.splits option.splits dest!: UpdateHeartbeat UpdateHeartbeat_err
        intro!: agents_ok_upd agent_ok_heartbeat dest: agents_okD)
next
  case (assign fmt clk i j jt md eo)
  then show ?thesis using assms(2)
    by (auto simp: AssignWork_def Agent_UpdateStatus_def Let_def split: prod.splits sum.splits option.splits if_splits
        dest: Update_assigned_ok)
next
  case (complete fmt parse clk i j results eo)
  then show ?thesis using assms(2)
    by (auto simp: CompleteWork_def Agent_UpdateStatus_def Let_def
        split: prod.splits sum.splits option.splits if_splits any.splits
        dest: Update_complete_ok)
next
  case (fail fmt clk i j msg reason eo)
  then show ?thesis using assms(2)
    by (auto simp: FailWork_def Agent_UpdateStatus_def Let_def split: prod.splits sum.splits option.splits
        dest: Update_failed_ok)
next
  case (health clks t hc hc')
  then show ?thesis using assms(2) health_ok [of "fst w" clks t hc "snd w"] by auto
qed

lemma handleStaleBot_transient:
  assumes a: "agents r (agent_ID a) = Some a" "agent_Status a \<noteq> StatusMaintenance" and n: "hc_count hc (agent_ID a) = n" "0 \<le> n" "n < 2"
    and ok: "fst (ar_UpdateStatus R (agent_ID a) StatusError r) = None"
  shows "\<exists>hc' r' a' ev. hc_handleStaleBot R clk a hc (r, evs) = Ret (hc', (r', evs @ [ev])) \<and> agents r' (agent_ID a) = Some a' \<and>
    agent_ID a' = agent_ID a \<and> agent_Status a' = StatusError \<and> agent_Metadata a' = agent_Metadata a \<and>
    hc_count hc' (agent_ID a) = n + 1 \<and> BotEvent_GetType ev = EventBotHealthCheckFailed"
proof -
  obtain r' where r': "ar_UpdateStatus R (agent_ID a) StatusError r = (None, r')" using ok by (metis prod.collapse)
  have w: "wrap64 (n + 1) = n + 1" using n by (intro wrap64_id) (simp add: int64_def)
  obtain t where "agents r' (agent_ID a) = Some (a\<lparr>agent_Status := StatusError, agent_UpdatedAt := t\<rparr>)"
    using UpdateStatus [OF r'] a(1) by auto
  then show ?thesis
    using r' a n w by (simp add: hc_handleStaleBot_def Let_def hc_count_def NewBotHealthCheckFailedEvent_def)
qed

lemma handleStaleBot_final:
  assumes a: "agents r (agent_ID a) = Some a" "agent_Status a = StatusError" and n: "hc_count hc (agent_ID a) = 2"
    and ok: "fst (ar_UpdateStatus R (agent_ID a) StatusOffline r) = None"
  shows "\<exists>hc' r' a' ev. hc_handleStaleBot R clk a hc (r, evs) = Ret (hc', (r', evs @ [ev])) \<and> agents r' (agent_ID a) = Some a' \<and>
    agent_Status a' = StatusOffline \<and> agent_Metadata a' = agent_Metadata a \<and> BotEvent_GetType ev = EventBotHealthCheckFailed"
proof -
  obtain r' where r': "ar_UpdateStatus R (agent_ID a) StatusOffline r = (None, r')" using ok by (metis prod.collapse)
  obtain t where "agents r' (agent_ID a) = Some (a\<lparr>agent_Status := StatusOffline, agent_UpdatedAt := t\<rparr>)"
    using UpdateStatus [OF r'] a(1) by auto
  then show ?thesis
    using r' a n by (simp add: hc_handleStaleBot_def Let_def NewBotHealthCheckFailedEvent_def wrap64_def)
qed

end

text \<open>Three health checks in a row that each find the stored agent stale.\<close>

definition stale_thrice ::
    "'r AgentRepository \<Rightarrow> ('r \<Rightarrow> string \<rightharpoonup> Agent) \<Rightarrow> (nat \<Rightarrow> nat \<Rightarrow> time) \<Rightarrow> string \<Rightarrow> HealthChecker \<Rightarrow> 'r world \<Rightarrow> (HealthChecker \<times> 'r world) go" where
  "stale_thrice R agents clks i hc w = (case hc_handleStaleBot R (clks 0) (the (agents (fst w) i)) hc w of
       Panic \<Rightarrow> Panic
     | Ret (hc1, w1) \<Rightarrow> (case hc_handleStaleBot R (clks 1) (the (agents (fst w1) i)) hc1 w1 of
          Panic \<Rightarrow> Panic
        | Ret (hc2, w2) \<Rightarrow> hc_handleStaleBot R (clks 2) (the (agents (fst w2) i)) hc2 w2))"

section \<open>Properties\<close>

text \<open>C11: Starting from a store of valid agents whose current jobs have start times (an empty one, for
  instance), no sequence of service calls and health checks stores any other agent; so neither the
  type assertion in \<open>CompleteWork\<close> nor the one in the health checker ever panics.\<close>

theorem registry_never_panics:
  assumes "agent_repository R agents" and "agents_ok (agents (fst w0))" and "(registry_step R)\<^sup>*\<^sup>* w0 w"
  shows "agents_ok (agents (fst w)) \<and> CompleteWork fmt parse R clk i j results w \<noteq> Panic \<and>
    hc_performHealthCheck R clks t hc w \<noteq> Panic"
proof -
  have ok: "agents_ok (agents (fst w))"
    using assms(3,2) by (induction rule: rtranclp_induct) (auto dest: agent_repository.registry_step_ok [OF assms(1)])
  obtain r evs where w: "w = (r, evs)" by fastforce
  show ?thesis
    using ok agent_repository.CompleteWork_returns [OF assms(1), of r] agent_repository.health_ok [OF assms(1), of r clks t hc evs]
    by (auto simp: w)
qed

text \<open>A registered bot, for the witnesses.\<close>

definition sample_agent :: Agent where
  "sample_agent = \<lparr>agent_ID = ''b1'', agent_Name = ''n'', agent_Status = StatusIdle, agent_Capabilities = [''fuzzing''],
     agent_LastHeartbeat = 0, agent_CreatedAt = 0, agent_UpdatedAt = 0, agent_Metadata = Some Map.empty\<rparr>"

definition working_agent :: Agent where
  "working_agent = sample_agent\<lparr>agent_Status := StatusWorking,
     agent_Metadata := Some [''current_job_id'' \<mapsto> AString ''j1'', ''job_start_time'' \<mapsto> AString ''t'']\<rparr>"

theorem registry_never_panics_witness:
  "CompleteWork (\<lambda>_. ''t'') (\<lambda>_. None) mem_agents (\<lambda>_. 0) ''b1'' ''j1'' None (\<lparr>ma_agents = [working_agent], ma_now = 0\<rparr>, []) \<noteq> Panic"
proof -
  have "agents_ok (ma_lookup (fst (\<lparr>ma_agents = [working_agent], ma_now = 0\<rparr>, [] :: BotEvent list)))"
    by (auto simp: agents_ok_def ma_lookup_def agent_ok_def working_agent_def sample_agent_def Agent_Validate_def Agent_GetMetadata_def
        map_get_def split: if_splits)
  from registry_never_panics [OF mem_ag.agent_repository_axioms this rtranclp.rtrancl_refl] show ?thesis by blast
qed

text \<open>A working bot that misses its heartbeats is put into the error state by the first failed check, so
  at the third one, which takes it offline, it is no longer working: the three checks publish no event
  for the failure of its job, and the job stays in its metadata.\<close>

theorem stale_working_bot_loses_job:
  assumes R: "agent_repository R agents" and a: "agents r i = Some a" "agent_Status a = StatusWorking" and n: "hc_count hc i = 0"
    and ok: "\<And>r s. agents r i \<noteq> None \<Longrightarrow> fst (ar_UpdateStatus R i s r) = None"
  shows "\<exists>hc' r' e1 e2 e3 a'. stale_thrice R agents clks i hc (r, evs) = Ret (hc', (r', evs @ [e1, e2, e3])) \<and>
    BotEvent_GetType e1 \<noteq> EventBotWorkFailed \<and> BotEvent_GetType e2 \<noteq> EventBotWorkFailed \<and> BotEvent_GetType e3 \<noteq> EventBotWorkFailed \<and>
    agents r' i = Some a' \<and> agent_Status a' = StatusOffline \<and> agent_Metadata a' = agent_Metadata a"
proof -
  have i: "agent_ID a = i" using agent_repository.keyed [OF R a(1)] .
  obtain hc1 r1 a1 e1 where 1: "hc_handleStaleBot R (clks 0) a hc (r, evs) = Ret (hc1, (r1, evs @ [e1]))"
      "agents r1 i = Some a1" "agent_ID a1 = i" "agent_Status a1 = StatusError" "agent_Metadata a1 = agent_Metadata a"
      "hc_count hc1 i = 1" "BotEvent_GetType e1 = EventBotHealthCheckFailed"
    using agent_repository.handleStaleBot_transient [OF R, of r a hc 0 "clks 0" evs] a n ok [of r] i by auto
  obtain hc2 r2 a2 e2 where 2: "hc_handleStaleBot R (clks 1) a1 hc1 (r1, evs @ [e1]) = Ret (hc2, (r2, evs @ [e1, e2]))"
      "agents r2 i = Some a2" "agent_ID a2 = i" "agent_Status a2 = StatusError" "agent_Metadata a2 = agent_Metadata a"
      "hc_count hc2 i = 2" "BotEvent_GetType e2 = EventBotHealthCheckFailed"
    using agent_repository.handleStaleBot_transient [OF R, of r1 a1 hc1 1 "clks 1" "evs @ [e1]"] 1 ok [of r1] by auto
  obtain hc3 r3 a3 e3 where 3: "hc_handleStaleBot R (clks 2) a2 hc2 (r2, evs @ [e1, e2]) = Ret (hc3, (r3, evs @ [e1, e2, e3]))"
      "agents r3 i = Some a3" "agent_Status a3 = StatusOffline" "agent_Metadata a3 = agent_Metadata a"
      "BotEvent_GetType e3 = EventBotHealthCheckFailed"
    using agent_repository.handleStaleBot_final [OF R, of r2 a2 hc2 "clks 2" "evs @ [e1, e2]"] 2 ok [of r2] by auto
  have "stale_thrice R agents clks i hc (r, evs) = Ret (hc3, (r3, evs @ [e1, e2, e3]))"
    using a(1) 1(1,2) 2(1,2) 3(1) by (simp add: stale_thrice_def)
  then show ?thesis using 1(7) 2(7) 3 by auto
qed

theorem stale_working_bot_loses_job_witness:
  "\<exists>hc' r' e1 e2 e3. stale_thrice mem_agents ma_lookup (\<lambda>_ _. 0) ''b1'' (NewHealthChecker (5 * Minute))
     (\<lparr>ma_agents = [working_agent], ma_now = 0\<rparr>, []) = Ret (hc', (r', [e1, e2, e3])) \<and> BotEvent_GetType e3 \<noteq> EventBotWorkFailed"
proof -
  have ok: "fst (ar_UpdateStatus mem_agents ''b1'' s r) = None" if "ma_lookup r ''b1'' \<noteq> None" for r s
    using that by (simp add: mem_agents_def ma_change_def)
  show ?thesis
    using stale_working_bot_loses_job [OF mem_ag.agent_repository_axioms _ _ _ ok, of "\<lparr>ma_agents = [working_agent], ma_now = 0\<rparr>" working_agent
        "NewHealthChecker (5 * Minute)" "\<lambda>_ _. 0" "[]"]
    by (auto simp: ma_lookup_def working_agent_def sample_agent_def hc_count_def NewHealthChecker_def)
qed

text \<open>\<open>FailWork\<close> neither checks the job it is told about nor ends the assignment: after a failure of any
  job is reported, the bot's own job can still be completed, which returns the bot to the idle state.\<close>

theorem completed_after_failed:
  assumes R: "agent_repository R agents" and a: "agents r i = Some a"
    and job: "Agent_GetMetadata ''current_job_id'' a = Some (AString j)" "Agent_GetMetadata ''job_start_time'' a = Some (AString st)"
    and ok: "\<And>a r. agents r (agent_ID a) \<noteq> None \<Longrightarrow> fst (ar_Update R a r) = None"
  shows "\<exists>w1 w2 a2. FailWork fmt R clk i anyJob msg reason (r, evs) = (None, w1) \<and>
    CompleteWork fmt parse R clk2 i j results w1 = Ret (None, w2) \<and> agents (fst w2) i = Some a2 \<and> agent_Status a2 = StatusIdle"
proof -
  have i: "agent_ID a = i" using agent_repository.keyed [OF R a] .
  define a1 where "a1 = Agent_SetMetadata (clk 3) ''last_error_time'' (AString (fmt (clk 2)))
    (Agent_SetMetadata (clk 1) ''last_error'' (AString msg) (a\<lparr>agent_Status := StatusError, agent_UpdatedAt := clk 0\<rparr>))"
  have a1: "agent_ID a1 = i" "Agent_GetMetadata ''current_job_id'' a1 = Some (AString j)"
      "Agent_GetMetadata ''job_start_time'' a1 = Some (AString st)"
    using job i by (simp_all add: a1_def Agent_GetMetadata_def [of _ "a\<lparr>agent_Status := s, agent_UpdatedAt := t\<rparr>" for s t] flip: Agent_GetMetadata_def)
  obtain r1 where u1: "ar_Update R a1 r = (None, r1)" using ok [of r a1] a a1(1) by (metis option.simps(3) prod.collapse)
  have r1: "agents r1 i = Some a1" using agent_repository.Update [OF R u1] a1(1) by simp
  have f: "FailWork fmt R clk i anyJob msg reason (r, evs) = (None, (r1, evs @ [NewBotWorkFailedEvent (clk 4) i anyJob msg reason]))"
    using a agent_repository.FindByID [OF R, of i r a] u1 by (simp add: FailWork_def Agent_UpdateStatus_def a1_def)
  define a2 where "a2 = complete_agent fmt clk2 j (a1\<lparr>agent_Status := StatusIdle, agent_UpdatedAt := clk2 1\<rparr>)"
  have a2: "agent_ID a2 = i" "agent_Status a2 = StatusIdle" using a1 by (simp_all add: a2_def complete_agent_def)
  obtain r2 where u2: "ar_Update R a2 r1 = (None, r2)" using ok [of r1 a2] r1 a2(1) by (metis option.simps(3) prod.collapse)
  have r2: "agents r2 i = Some a2" using agent_repository.Update [OF R u2] a2(1) by simp
  have "\<exists>e. CompleteWork fmt parse R clk2 i j results (r1, evs') = Ret (None, (r2, evs' @ [e]))" for evs'
    using r1 agent_repository.FindByID [OF R, of i r1 a1] a1 u2 by (simp add: CompleteWork_def Agent_UpdateStatus_def a2_def Let_def)
  then show ?thesis using f r2 a2 by fastforce
qed

theorem completed_after_failed_witness:
  "\<exists>w1 w2. FailWork (\<lambda>_. ''t'') mem_agents (\<lambda>_. 0) ''b1'' ''j9'' ''m'' '''' (\<lparr>ma_agents = [working_agent], ma_now = 0\<rparr>, []) = (None, w1) \<and>
     CompleteWork (\<lambda>_. ''t'') (\<lambda>_. None) mem_agents (\<lambda>_. 0) ''b1'' ''j1'' None w1 = Ret (None, w2)"
proof -
  have ok: "fst (ar_Update mem_agents a r) = None" if "ma_lookup r (agent_ID a) \<noteq> None" for a r
    using that by (simp add: mem_agents_def ma_change_def)
  have l: "ma_lookup \<lparr>ma_agents = [working_agent], ma_now = 0\<rparr> ''b1'' = Some working_agent"
    by (simp add: ma_lookup_def working_agent_def sample_agent_def)
  show ?thesis
    using completed_after_failed [OF mem_ag.agent_repository_axioms l _ _ ok, of "''j1''" "''t''" "\<lambda>_. ''t''" "\<lambda>_. 0" "''j9''" "''m''" "''''" "[]"
        "\<lambda>_. None" "\<lambda>_. 0" None]
    by (auto simp: working_agent_def Agent_GetMetadata_def map_get_def)
qed

end
