(* ===== verification/Retry.thy ===== *)
theory Retry
  imports Go_Prelude
begin

text \<open>
  The package \<open>pkg/retry\<close>: retry policies and their validation (\<open>policy.go\<close>), the retry manager, the
  classification of errors, the circuit breaker and the client that combines them (\<open>manager.go\<close>).

  An operation \<open>func() error\<close> is a function on a state of its own, \<open>'s \<Rightarrow> error option \<times> 's\<close>. Sleeping
  is recorded: \<open>Execute\<close> returns the list of the delays it slept. \<open>Multiplier\<close> is a rational, and
  \<open>time.Duration(float64(d) * m)\<close> the product truncated towards zero, which is what the program
  computes as long as the product is an exact \<open>float64\<close>; the random numbers for the jitter are an
  argument.
\<close>

section \<open>Policies\<close>

record Policy =
  pol_MaxRetries :: int
  pol_InitialDelay :: duration
  pol_MaxDelay :: duration
  pol_Multiplier :: rat
  pol_Jitter :: bool
  pol_RetryableErrors :: "string list"

definition DefaultPolicy :: Policy where
  "DefaultPolicy = \<lparr>pol_MaxRetries = 3, pol_InitialDelay = 1 * Second, pol_MaxDelay = 10 * Second,
     pol_Multiplier = 2, pol_Jitter = True, pol_RetryableErrors = []\<rparr>"

definition DatabasePolicy :: Policy where
  "DatabasePolicy = \<lparr>pol_MaxRetries = 5, pol_InitialDelay = 100 * Millisecond, pol_MaxDelay = 5 * Second,
     pol_Multiplier = 3 / 2, pol_Jitter = True,
     pol_RetryableErrors = [''database is locked'', ''timeout'', ''temporary failure'', ''disk i/o error'']\<rparr>"

definition NetworkPolicy :: Policy where
  "NetworkPolicy = \<lparr>pol_MaxRetries = 3, pol_InitialDelay = 2 * Second, pol_MaxDelay = 30 * Second,
     pol_Multiplier = 2, pol_Jitter = True,
     pol_RetryableErrors = [''connection refused'', ''timeout'', ''network unreachable'', ''no route to host'', ''temporary failure'']\<rparr>"

definition UpdatePolicy :: Policy where
  "UpdatePolicy = \<lparr>pol_MaxRetries = 20, pol_InitialDelay = 5 * Second, pol_MaxDelay = 60 * Second,
     pol_Multiplier = 3 / 2, pol_Jitter = True, pol_RetryableErrors = []\<rparr>"

record PolicyError =
  pe_Field :: string
  pe_Message :: string

definition PolicyError_Error :: "PolicyError \<Rightarrow> string" where
  "PolicyError_Error e = ''retry policy error: '' @ pe_Field e @ '' '' @ pe_Message e"

definition Policy_Validate :: "Policy \<Rightarrow> PolicyError option" where
  "Policy_Validate p =
     (if pol_MaxRetries p < 0 then Some \<lparr>pe_Field = ''MaxRetries'', pe_Message = ''cannot be negative''\<rparr>
      else if pol_InitialDelay p < 0 then Some \<lparr>pe_Field = ''InitialDelay'', pe_Message = ''cannot be negative''\<rparr>
      else if pol_MaxDelay p < 0 then Some \<lparr>pe_Field = ''MaxDelay'', pe_Message = ''cannot be negative''\<rparr>
      else if pol_Multiplier p < 1 then Some \<lparr>pe_Field = ''Multiplier'', pe_Message = ''must be at least 1.0''\<rparr>
      else if pol_MaxDelay p > 0 \<and> pol_InitialDelay p > pol_MaxDelay p then
        Some \<lparr>pe_Field = ''InitialDelay'', pe_Message = ''cannot be greater than MaxDelay''\<rparr>
      else None)"

section \<open>Classification of errors\<close>

text \<open>The methods of \<open>net.Error\<close>, for the errors whose type implements it.\<close>

fun as_net_error :: "error \<Rightarrow> (bool \<times> bool) option" where
  "as_net_error (NetError _ temporary timeout) = Some (temporary, timeout)"
| "as_net_error (SyscallErrno _ temporary timeout _) = Some (temporary, timeout)"
| "as_net_error _ = None"

fun as_temporary :: "error \<Rightarrow> bool option" where
  "as_temporary (NetError _ temporary _) = Some temporary"
| "as_temporary (SyscallErrno _ temporary _ _) = Some temporary"
| "as_temporary (TempError _ temporary) = Some temporary"
| "as_temporary _ = None"

fun transient_errno :: "error \<Rightarrow> bool" where
  "transient_errno (SyscallErrno _ _ _ b) = b"
| "transient_errno _ = False"

definition mentions :: "string list \<Rightarrow> string \<Rightarrow> bool" where
  "mentions pats s \<longleftrightarrow> (\<exists>p \<in> set pats. str_contains s p)"

definition networkErrors :: "string list" where
  "networkErrors = [''connection refused'', ''connection reset'', ''network unreachable'', ''no route to host'',
     ''host unreachable'', ''connection timed out'', ''temporary failure'', ''name resolution failed'', ''dns lookup failed'']"

definition IsNetworkError :: "error option \<Rightarrow> bool" where
  "IsNetworkError eo = (case eo of None \<Rightarrow> False
     | Some e \<Rightarrow> (case as_net_error e of
         Some (temporary, timeout) \<Rightarrow> temporary \<or> timeout
       | None \<Rightarrow> mentions networkErrors (to_lower (err_Error e))))"

definition timeoutErrors :: "string list" where
  "timeoutErrors = [''timeout'', ''timed out'', ''deadline exceeded'', ''context deadline exceeded'', ''i/o timeout'']"

definition IsTimeoutError :: "error option \<Rightarrow> bool" where
  "IsTimeoutError eo = (case eo of None \<Rightarrow> False
     | Some e \<Rightarrow> (case as_net_error e of Some (_, timeout) \<Rightarrow> timeout | None \<Rightarrow> False) \<or>
         mentions timeoutErrors (to_lower (err_Error e)))"

definition temporaryErrors :: "string list" where
  "temporaryErrors = [''temporary failure'', ''service unavailable'', ''try again'', ''resource temporarily unavailable'',
     ''operation would block'']"

definition IsTemporaryError :: "error option \<Rightarrow> bool" where
  "IsTemporaryError eo = (case eo of None \<Rightarrow> False
     | Some e \<Rightarrow> (case as_temporary e of Some temporary \<Rightarrow> temporary | None \<Rightarrow> False) \<or> transient_errno e \<or>
         mentions temporaryErrors (to_lower (err_Error e)))"

definition databaseErrors :: "string list" where
  "databaseErrors = [''database is locked'', ''database disk image is malformed'', ''disk i/o error'', ''file is not a database'',
     ''unable to open database file'', ''sql: database is closed'', ''connection pool exhausted'', ''too many connections'']"

definition IsDatabaseError :: "error option \<Rightarrow> bool" where
  "IsDatabaseError eo = (case eo of None \<Rightarrow> False | Some e \<Rightarrow> mentions databaseErrors (to_lower (err_Error e)))"

definition isRetryableError :: "Policy \<Rightarrow> error \<Rightarrow> bool" where
  "isRetryableError p e =
     (if pol_RetryableErrors p \<noteq> [] then mentions (pol_RetryableErrors p) (err_Error e)
      else IsNetworkError (Some e) \<or> IsTimeoutError (Some e) \<or> IsTemporaryError (Some e) \<or> IsDatabaseError (Some e))"

section \<open>The retry manager\<close>

definition trunc_rat :: "rat \<Rightarrow> int" where
  "trunc_rat x = (if x < 0 then \<lceil>x\<rceil> else \<lfloor>x\<rfloor>)"

text \<open>\<open>u\<close> is the next random number of \<open>rm.random.Float64()\<close>.\<close>

definition calculateDelay :: "Policy \<Rightarrow> rat \<Rightarrow> duration \<Rightarrow> duration" where
  "calculateDelay p u baseDelay =
     (if \<not> pol_Jitter p then baseDelay else wrap64 (baseDelay + trunc_rat (u * of_int baseDelay * (1 / 10))))"

definition next_delay :: "Policy \<Rightarrow> duration \<Rightarrow> duration" where
  "next_delay p delay =
     (let d = trunc_rat (of_int delay * pol_Multiplier p) in if d > pol_MaxDelay p then pol_MaxDelay p else d)"

definition exhausted :: "Policy \<Rightarrow> error option \<Rightarrow> error" where
  "exhausted p lastErr =
     (let m = ''operation failed after '' @ itoa (wrap64 (pol_MaxRetries p + 1)) @ '' attempts: ''
      in case lastErr of Some e \<Rightarrow> WrapError m e | None \<Rightarrow> ErrorString (m @ ''%!w(<nil>)''))"

text \<open>The loop from attempt number \<open>attempt\<close> on: the error, the delays slept and the final state.\<close>

function exec_loop ::
    "Policy \<Rightarrow> ('s \<Rightarrow> error option \<times> 's) \<Rightarrow> (int \<Rightarrow> rat) \<Rightarrow> int \<Rightarrow> duration \<Rightarrow> error option \<Rightarrow> 's \<Rightarrow> error option \<times> duration list \<times> 's" where
  "exec_loop p operation rnd attempt delay lastErr s =
     (if attempt > pol_MaxRetries p then (Some (exhausted p lastErr), [], s)
      else case operation s of
        (None, s') \<Rightarrow> (None, [], s')
      | (Some e, s') \<Rightarrow>
          if \<not> isRetryableError p e then (Some (WrapError ''non-retryable error: '' e), [], s')
          else if attempt = pol_MaxRetries p then (Some (exhausted p (Some e)), [], s')
          else let (r, ds, s'') = exec_loop p operation rnd (attempt + 1) (next_delay p delay) (Some e) s'
               in (r, calculateDelay p (rnd attempt) delay # ds, s''))"
  by pat_completeness auto
termination
  by (relation "measure (\<lambda>(p, _, _, attempt, _, _, _). nat (pol_MaxRetries p + 1 - attempt))") auto

declare exec_loop.simps [simp del]

definition Manager_Execute ::
    "Policy \<Rightarrow> ('s \<Rightarrow> error option \<times> 's) \<Rightarrow> (int \<Rightarrow> rat) \<Rightarrow> 's \<Rightarrow> error option \<times> duration list \<times> 's" where
  "Manager_Execute p operation rnd s = exec_loop p operation rnd 0 (pol_InitialDelay p) None s"

text \<open>
  \<open>ExecuteWithContext\<close> returns the result of \<open>Execute\<close>, or a timeout error when the timer fires first;
  the goroutine then goes on, so the operation's state is the one \<open>Execute\<close> reaches in both cases.
  \<open>inTime\<close> says which of the two the \<open>select\<close> sees; \<open>ts\<close> is the timeout printed with \<open>%v\<close>.
\<close>

definition Manager_ExecuteWithContext ::
    "Policy \<Rightarrow> ('s \<Rightarrow> error option \<times> 's) \<Rightarrow> (int \<Rightarrow> rat) \<Rightarrow> bool \<Rightarrow> string \<Rightarrow> 's \<Rightarrow> error option \<times> duration list \<times> 's" where
  "Manager_ExecuteWithContext p operation rnd inTime ts s =
     (let (r, ds, s') = Manager_Execute p operation rnd s
      in (if inTime then r else Some (ErrorString (''operation timed out after '' @ ts)), ds, s'))"

section \<open>The circuit breaker\<close>

datatype CircuitState = CircuitClosed | CircuitOpen | CircuitHalfOpen

fun CircuitState_String :: "CircuitState \<Rightarrow> string" where
  "CircuitState_String CircuitClosed = ''closed''"
| "CircuitState_String CircuitOpen = ''open''"
| "CircuitState_String CircuitHalfOpen = ''half-open''"

record CircuitBreaker =
  cb_maxFailures :: int
  cb_resetTimeout :: duration
  cb_state :: CircuitState
  cb_failures :: int
  cb_lastFailTime :: time

definition NewCircuitBreaker :: "int \<Rightarrow> duration \<Rightarrow> CircuitBreaker" where
  "NewCircuitBreaker maxFailures resetTimeout = \<lparr>cb_maxFailures = maxFailures, cb_resetTimeout = resetTimeout,
     cb_state = CircuitClosed, cb_failures = 0, cb_lastFailTime = time_zero\<rparr>"

text \<open>\<open>now\<close> is the reading of the clock under the read lock, \<open>now2\<close> the one under the write lock.\<close>

definition canExecute :: "time \<Rightarrow> time \<Rightarrow> CircuitBreaker \<Rightarrow> bool \<times> CircuitBreaker" where
  "canExecute now now2 cb = (case cb_state cb of
       CircuitClosed \<Rightarrow> (True, cb)
     | CircuitOpen \<Rightarrow>
         if time_Sub now (cb_lastFailTime cb) \<ge> cb_resetTimeout cb then
           let cb' = (if cb_state cb = CircuitOpen \<and> time_Sub now2 (cb_lastFailTime cb) \<ge> cb_resetTimeout cb
                      then cb\<lparr>cb_state := CircuitHalfOpen\<rparr> else cb)
           in (cb_state cb' = CircuitHalfOpen, cb')
         else (False, cb)
     | CircuitHalfOpen \<Rightarrow> (True, cb))"

definition recordResult :: "time \<Rightarrow> error option \<Rightarrow> CircuitBreaker \<Rightarrow> CircuitBreaker" where
  "recordResult now eo cb = (case eo of
       Some _ \<Rightarrow>
         let cb1 = cb\<lparr>cb_failures := wrap64 (cb_failures cb + 1), cb_lastFailTime := now\<rparr>
         in if cb_failures cb1 \<ge> cb_maxFailures cb1 then cb1\<lparr>cb_state := CircuitOpen\<rparr> else cb1
     | None \<Rightarrow> cb\<lparr>cb_failures := 0, cb_state := CircuitClosed\<rparr>)"

definition cb_open_error :: error where
  "cb_open_error = ErrorString ''circuit breaker is open''"

definition CircuitBreaker_Execute ::
    "time \<times> time \<times> time \<Rightarrow> ('s \<Rightarrow> error option \<times> 's) \<Rightarrow> CircuitBreaker \<Rightarrow> 's \<Rightarrow> error option \<times> CircuitBreaker \<times> 's" where
  "CircuitBreaker_Execute ts operation cb s =
     (let (t1, t2, t3) = ts; (allowed, cb1) = canExecute t1 t2 cb
      in if \<not> allowed then (Some cb_open_error, cb1, s)
         else let (err, s') = operation s in (err, recordResult t3 err cb1, s'))"

definition CircuitBreaker_GetState :: "CircuitBreaker \<Rightarrow> CircuitState" where
  "CircuitBreaker_GetState cb = cb_state cb"

definition CircuitBreaker_GetFailures :: "CircuitBreaker \<Rightarrow> int" where
  "CircuitBreaker_GetFailures cb = cb_failures cb"

definition CircuitBreaker_GetStats :: "CircuitBreaker \<Rightarrow> (string \<times> any) list" where
  "CircuitBreaker_GetStats cb = [(''state'', AString (CircuitState_String (cb_state cb))), (''failures'', AInt (cb_failures cb)),
     (''max_failures'', AInt (cb_maxFailures cb)), (''reset_timeout'', AInt (cb_resetTimeout cb)), (''last_fail_time'', AInt (cb_lastFailTime cb))]"

section \<open>The resilient client\<close>

record ResilientClient =
  rc_retryManager :: Policy
  rc_circuitBreaker :: CircuitBreaker

definition NewResilientClient :: "Policy \<Rightarrow> int \<Rightarrow> duration \<Rightarrow> ResilientClient" where
  "NewResilientClient p maxFailures resetTimeout =
     \<lparr>rc_retryManager = p, rc_circuitBreaker = NewCircuitBreaker maxFailures resetTimeout\<rparr>"

definition ResilientClient_Execute ::
    "time \<times> time \<times> time \<Rightarrow> (int \<Rightarrow> rat) \<Rightarrow> ('s \<Rightarrow> error option \<times> 's) \<Rightarrow> ResilientClient \<Rightarrow> 's \<Rightarrow> error option \<times> ResilientClient \<times> 's" where
  "ResilientClient_Execute ts rnd operation rc s =
     (let (err, cb, s') = CircuitBreaker_Execute ts
            (\<lambda>s. let (r, _, s') = Manager_Execute (rc_retryManager rc) operation rnd s in (r, s')) (rc_circuitBreaker rc) s
      in (err, rc\<lparr>rc_circuitBreaker := cb\<rparr>, s'))"

definition ResilientClient_ExecuteWithContext ::
    "time \<times> time \<times> time \<Rightarrow> (int \<Rightarrow> rat) \<Rightarrow> bool \<Rightarrow> string \<Rightarrow> ('s \<Rightarrow> error option \<times> 's) \<Rightarrow> ResilientClient \<Rightarrow> 's \<Rightarrow>
       error option \<times> ResilientClient \<times> 's" where
  "ResilientClient_ExecuteWithContext ts rnd inTime tstr operation rc s =
     (let (err, cb, s') = CircuitBreaker_Execute ts
            (\<lambda>s. let (r, _, s') = Manager_ExecuteWithContext (rc_retryManager rc) operation rnd inTime tstr s in (r, s'))
            (rc_circuitBreaker rc) s
      in (err, rc\<lparr>rc_circuitBreaker := cb\<rparr>, s'))"

record ResilientClientStats =
  rcs_CircuitState :: CircuitState
  rcs_Failures :: int
  rcs_MaxFailures :: int
  rcs_ResetTimeout :: duration
  rcs_RetryPolicy :: Policy

definition ResilientClient_GetStats :: "ResilientClient \<Rightarrow> ResilientClientStats" where
  "ResilientClient_GetStats rc =
     \<lparr>rcs_CircuitState = CircuitBreaker_GetState (rc_circuitBreaker rc),
      rcs_Failures = CircuitBreaker_GetFailures (rc_circuitBreaker rc),
      rcs_MaxFailures = cb_maxFailures (rc_circuitBreaker rc), rcs_ResetTimeout = cb_resetTimeout (rc_circuitBreaker rc),
      rcs_RetryPolicy = rc_retryManager rc\<rparr>"

section \<open>Lemmas on the retry loop\<close>

text \<open>The state of an operation after \<open>n\<close> calls and the error of call number \<open>n\<close> (from 0).\<close>

primrec op_state :: "('s \<Rightarrow> error option \<times> 's) \<Rightarrow> nat \<Rightarrow> 's \<Rightarrow> 's" where
  "op_state operation 0 s = s"
| "op_state operation (Suc n) s = op_state operation n (snd (operation s))"

definition op_err :: "('s \<Rightarrow> error option \<times> 's) \<Rightarrow> nat \<Rightarrow> 's \<Rightarrow> error option" where
  "op_err operation n s = fst (operation (op_state operation n s))"

lemma op_err_0: "op_err operation 0 s = fst (operation s)"
  by (simp add: op_err_def)

lemma op_err_Suc: "op_err operation (Suc n) s = op_err operation n (snd (operation s))"
  by (simp add: op_err_def)

definition retryable_at :: "Policy \<Rightarrow> ('s \<Rightarrow> error option \<times> 's) \<Rightarrow> nat \<Rightarrow> 's \<Rightarrow> bool" where
  "retryable_at p operation n s \<longleftrightarrow> (\<exists>e. op_err operation n s = Some e \<and> isRetryableError p e)"

lemma all_less_Suc_shift: "(\<forall>i < Suc n. P i) \<longleftrightarrow> P 0 \<and> (\<forall>i < n. P (Suc i))"
  using less_Suc_eq_0_disj by auto

lemma exec_loop_outcome:
  assumes "exec_loop p operation rnd attempt delay lastErr s = (r, ds, s')" and "attempt \<le> pol_MaxRetries p"
  shows "attempt + int (length ds) \<le> pol_MaxRetries p \<and> s' = op_state operation (Suc (length ds)) s \<and>
    (\<forall>i < length ds. retryable_at p operation i s) \<and>
    (case op_err operation (length ds) s of
       None \<Rightarrow> r = None
     | Some e \<Rightarrow> if isRetryableError p e then attempt + int (length ds) = pol_MaxRetries p \<and> r = Some (exhausted p (Some e))
         else r = Some (WrapError ''non-retryable error: '' e))"
  using assms
proof (induction p operation rnd attempt delay lastErr s arbitrary: r ds s' rule: exec_loop.induct)
  case (1 p operation rnd attempt delay lastErr s)
  obtain eo s1 where op: "operation s = (eo, s1)" by fastforce
  note step = "1.prems"(1) [unfolded exec_loop.simps [of p operation rnd attempt]]
  show ?case
  proof (cases eo)
    case None
    then show ?thesis using step op "1.prems"(2) by (simp add: op_err_0)
  next
    case (Some e)
    show ?thesis
    proof (cases "isRetryableError p e \<and> attempt \<noteq> pol_MaxRetries p")
      case False
      then show ?thesis using step op Some "1.prems"(2) by (auto simp: op_err_0 split: if_splits)
    next
      case True
      obtain ds1 where rec: "exec_loop p operation rnd (attempt + 1) (next_delay p delay) (Some e) s1 = (r, ds1, s')"
          "ds = calculateDelay p (rnd attempt) delay # ds1"
        using step op Some True "1.prems"(2) by (auto simp: Let_def split: prod.splits)
      have "attempt + 1 \<le> pol_MaxRetries p" using True "1.prems"(2) by simp
      from "1.IH" [OF _ op [symmetric] Some _ _ rec(1) this] rec(2) True op Some "1.prems"(2)
      show ?thesis by (simp add: all_less_Suc_shift retryable_at_def op_err_0 op_err_Suc algebra_simps split: option.splits if_splits)
    qed
  qed
qed

lemma trunc_rat_ge: "of_int d \<le> x \<Longrightarrow> 0 \<le> d \<Longrightarrow> d \<le> trunc_rat x"
  by (simp add: trunc_rat_def le_floor_iff)

lemma trunc_rat_le: "0 \<le> x \<Longrightarrow> of_int (trunc_rat x) \<le> x"
  by (simp add: trunc_rat_def)

lemma trunc_rat_nonneg: "0 \<le> x \<Longrightarrow> 0 \<le> trunc_rat x"
  by (simp add: trunc_rat_def)

lemma next_delay_bounds:
  assumes "0 \<le> i" "i \<le> d" "d \<le> pol_MaxDelay p" "1 \<le> pol_Multiplier p"
  shows "i \<le> next_delay p d \<and> next_delay p d \<le> pol_MaxDelay p"
proof -
  have "of_int d * 1 \<le> of_int d * pol_Multiplier p" using assms by (intro mult_left_mono) auto
  then have "d \<le> trunc_rat (of_int d * pol_Multiplier p)" using assms by (intro trunc_rat_ge) auto
  then show ?thesis using assms by (simp add: next_delay_def Let_def)
qed

lemma calculateDelay_bounds:
  assumes "0 \<le> d" "d \<le> m" "m \<le> 2 ^ 62" "0 \<le> u" "u \<le> 1"
  shows "d \<le> calculateDelay p u d \<and> 10 * calculateDelay p u d \<le> 11 * m"
proof -
  let ?j = "trunc_rat (u * of_int d * (1 / 10))"
  have "0 \<le> u * of_int d * (1 / 10)" using assms by simp
  then have j: "0 \<le> ?j" "of_int ?j \<le> u * of_int d * (1 / 10)" using trunc_rat_nonneg trunc_rat_le by blast+
  have "u * of_int d \<le> 1 * (of_int d :: rat)" using assms by (intro mult_right_mono) auto
  then have "10 * (of_int ?j :: rat) \<le> of_int d" using j(2) by linarith
  then have "10 * ?j \<le> d" by (metis of_int_le_iff of_int_mult of_int_numeral)
  moreover from this have "wrap64 (d + ?j) = d + ?j" using assms j(1) by (intro wrap64_id) (simp add: int64_def)
  ultimately show ?thesis using assms j(1) by (auto simp: calculateDelay_def)
qed

lemma exec_loop_delays:
  assumes "exec_loop p operation rnd attempt delay lastErr s = (r, ds, s')"
    and "0 \<le> i" "i \<le> delay" "delay \<le> pol_MaxDelay p" "1 \<le> pol_Multiplier p" "pol_MaxDelay p \<le> 2 ^ 62"
    and "\<And>k. 0 \<le> rnd k \<and> rnd k \<le> 1"
  shows "\<forall>d \<in> set ds. i \<le> d \<and> 10 * d \<le> 11 * pol_MaxDelay p"
  using assms
proof (induction p operation rnd attempt delay lastErr s arbitrary: r ds s' rule: exec_loop.induct)
  case (1 p operation rnd attempt delay lastErr s)
  note step = "1.prems"(1) [unfolded exec_loop.simps [of p operation rnd attempt]]
  show ?case
  proof (cases "ds = []")
    case False
    obtain e s1 ds1 where rec: "\<not> attempt > pol_MaxRetries p" "operation s = (Some e, s1)" "isRetryableError p e" "attempt \<noteq> pol_MaxRetries p"
        "exec_loop p operation rnd (attempt + 1) (next_delay p delay) (Some e) s1 = (r, ds1, s')"
        "ds = calculateDelay p (rnd attempt) delay # ds1"
      using step False by (auto simp: Let_def split: prod.splits if_splits option.splits)
    have b: "i \<le> next_delay p delay" "next_delay p delay \<le> pol_MaxDelay p"
      using next_delay_bounds [OF "1.prems"(2-5)] by auto
    have "\<forall>d \<in> set ds1. i \<le> d \<and> 10 * d \<le> 11 * pol_MaxDelay p"
      using "1.IH" [OF rec(1) rec(2) [symmetric] refl _ rec(4,5)] rec(3) "1.prems"(2,5,6,7) b by simp
    moreover have "i \<le> calculateDelay p (rnd attempt) delay \<and> 10 * calculateDelay p (rnd attempt) delay \<le> 11 * pol_MaxDelay p"
      using calculateDelay_bounds [of delay "pol_MaxDelay p" "rnd attempt" p] "1.prems" by fastforce
    ultimately show ?thesis using rec(6) by simp
  qed simp
qed

lemma exec_loop_zero:
  assumes "exec_loop p operation rnd attempt 0 lastErr s = (r, ds, s')" and "pol_MaxDelay p = 0"
  shows "\<forall>d \<in> set ds. d = 0"
  using assms
proof (induction p operation rnd attempt "0 :: duration" lastErr s arbitrary: r ds s' rule: exec_loop.induct)
  case (1 p operation rnd attempt lastErr s)
  note step = "1.prems"(1) [unfolded exec_loop.simps [of p operation rnd attempt]]
  have z: "next_delay p 0 = 0" "calculateDelay p u 0 = 0" for u
    using "1.prems"(2) by (simp_all add: next_delay_def calculateDelay_def trunc_rat_def wrap64_def)
  show ?case
  proof (cases "ds = []")
    case False
    obtain e s1 ds1 where rec: "\<not> attempt > pol_MaxRetries p" "operation s = (Some e, s1)" "isRetryableError p e" "attempt \<noteq> pol_MaxRetries p"
        "exec_loop p operation rnd (attempt + 1) (next_delay p 0) (Some e) s1 = (r, ds1, s')"
        "ds = calculateDelay p (rnd attempt) 0 # ds1"
      using step False by (auto simp: Let_def split: prod.splits if_splits option.splits)
    then show ?thesis using "1.hyps" [OF rec(1) rec(2) [symmetric] refl _ rec(4) z(1) rec(5) [unfolded z(1)]] "1.prems"(2) z by simp
  qed simp
qed

section \<open>Properties of the retry manager\<close>

text \<open>C8: \<open>Execute\<close> calls the operation once more than it sleeps and at most \<open>MaxRetries + 1\<close> times; every
  call but the last failed with a retryable error; and the result is success, the non-retryable error
  of the last call, or, only after all attempts, the last retryable error.
\<close>

theorem retry_execute_outcome:
  assumes "0 \<le> pol_MaxRetries p" and "Manager_Execute p operation rnd s = (r, ds, s')"
  shows "int (length ds) \<le> pol_MaxRetries p \<and> s' = op_state operation (Suc (length ds)) s \<and>
    (\<forall>i < length ds. \<exists>e. op_err operation i s = Some e \<and> isRetryableError p e) \<and>
    (case op_err operation (length ds) s of
       None \<Rightarrow> r = None
     | Some e \<Rightarrow> if isRetryableError p e then int (length ds) = pol_MaxRetries p \<and> r = Some (exhausted p (Some e))
         else r = Some (WrapError ''non-retryable error: '' e))"
  using exec_loop_outcome [OF assms(2) [unfolded Manager_Execute_def] assms(1)] by (simp add: retryable_at_def split: option.splits if_splits)

text \<open>An operation that fails until its counter reaches zero, for the witnesses.\<close>

definition fails_until_0 :: "nat \<Rightarrow> error option \<times> nat" where
  "fails_until_0 n = (case n of 0 \<Rightarrow> (None, 0) | Suc k \<Rightarrow> (Some (TempError ''busy'' True), k))"

lemma busy_retryable: "isRetryableError DefaultPolicy (TempError ''busy'' True)"
  by (simp add: isRetryableError_def DefaultPolicy_def IsTemporaryError_def)

theorem retry_execute_outcome_witness:
  "\<exists>ds. length ds = 2 \<and> Manager_Execute DefaultPolicy fails_until_0 (\<lambda>_. 0) 2 = (None, ds, 0)"
proof -
  obtain r ds s' where e: "Manager_Execute DefaultPolicy fails_until_0 (\<lambda>_. 0) 2 = (r, ds, s')" by (metis prod_cases3)
  have st: "op_state fails_until_0 n 2 = 2 - n" for n
  proof -
    have "op_state fails_until_0 n k = k - n" for k
      by (induction n arbitrary: k) (auto simp: fails_until_0_def split: nat.splits)
    then show ?thesis by simp
  qed
  have err: "op_err fails_until_0 n 2 = (if n < 2 then Some (TempError ''busy'' True) else None)" for n
    by (auto simp: op_err_def st fails_until_0_def split: nat.splits)
  have "0 \<le> pol_MaxRetries DefaultPolicy" by (simp add: DefaultPolicy_def)
  note o = retry_execute_outcome [OF this e]
  have "\<not> length ds < 2" using o err [of "length ds"] busy_retryable by (auto simp: DefaultPolicy_def)
  moreover have "\<not> 2 < length ds" using o err [of 2] by force
  ultimately have "length ds = 2" by simp
  then show ?thesis using e o err [of 2] st [of 3] by (simp add: numeral_3_eq_3)
qed

text \<open>Under a valid policy with a positive cap every delay slept is at least the initial delay and at
  most the cap plus ten percent of jitter, in 64-bit arithmetic.
\<close>

theorem retry_delays_bounded:
  assumes "Policy_Validate p = None" and "0 < pol_MaxDelay p" and "pol_MaxDelay p \<le> 2 ^ 62"
    and "\<And>k. 0 \<le> rnd k \<and> rnd k \<le> 1" and "Manager_Execute p operation rnd s = (r, ds, s')"
  shows "\<forall>d \<in> set ds. pol_InitialDelay p \<le> d \<and> 10 * d \<le> 11 * pol_MaxDelay p"
  using assms exec_loop_delays [of p operation rnd 0 "pol_InitialDelay p" None s r ds s' "pol_InitialDelay p"]
  by (auto simp: Policy_Validate_def Manager_Execute_def split: if_splits)

theorem retry_delays_bounded_witness:
  "list_all (\<lambda>d. 1 * Second \<le> d \<and> 10 * d \<le> 11 * (10 * Second)) (fst (snd (Manager_Execute DefaultPolicy fails_until_0 (\<lambda>_. 1 / 2) 9)))"
  using retry_delays_bounded [of DefaultPolicy "\<lambda>_. 1 / 2" fails_until_0 9]
  by (cases "Manager_Execute DefaultPolicy fails_until_0 (\<lambda>_. 1 / 2) 9") (simp add: list_all_iff DefaultPolicy_def Policy_Validate_def Second_def)

text \<open>\<open>Validate\<close> accepts a policy without a cap (\<open>MaxDelay\<close> zero), but \<open>Execute\<close> takes the zero as the
  cap: only the first retry is delayed, all others follow at once.
\<close>

theorem retry_zero_cap:
  assumes "Policy_Validate p = None" and "pol_MaxDelay p = 0" and "Manager_Execute p operation rnd s = (r, ds, s')"
  shows "\<forall>d \<in> set (tl ds). d = 0"
proof (cases "ds = []")
  case False
  have z: "next_delay p (pol_InitialDelay p) = 0"
  proof -
    have "0 \<le> of_int (pol_InitialDelay p) * pol_Multiplier p"
      using assms(1) by (intro mult_nonneg_nonneg) (auto simp: Policy_Validate_def split: if_splits)
    from trunc_rat_nonneg [OF this] show ?thesis using assms(2) by (simp add: next_delay_def Let_def)
  qed
  obtain e s1 where "exec_loop p operation rnd (0 + 1) (next_delay p (pol_InitialDelay p)) (Some e) s1 = (r, tl ds, s')"
    using assms(3) False unfolding Manager_Execute_def
    by (subst (asm) exec_loop.simps) (auto simp: Let_def split: prod.splits if_splits option.splits)
  then show ?thesis using exec_loop_zero assms(2) z by metis
qed simp

theorem retry_zero_cap_witness:
  "list_all (\<lambda>d. d = 0) (tl (fst (snd (Manager_Execute (DefaultPolicy\<lparr>pol_MaxDelay := 0\<rparr>) fails_until_0 (\<lambda>_. 0) 9))))"
  using retry_zero_cap [of "DefaultPolicy\<lparr>pol_MaxDelay := 0\<rparr>" fails_until_0 "\<lambda>_. 0" 9]
  by (cases "Manager_Execute (DefaultPolicy\<lparr>pol_MaxDelay := 0\<rparr>) fails_until_0 (\<lambda>_. 0) 9")
    (simp add: list_all_iff DefaultPolicy_def Policy_Validate_def Second_def)

text \<open>Wrapping an error that is recognised by its text keeps it retryable under every policy, whereas
  the classification by type does not look through wrapping: a temporary network error stops being
  retryable once it is wrapped.
\<close>

theorem retryable_under_wrapping:
  "(\<forall>p m e. as_temporary e = None \<and> isRetryableError p e \<longrightarrow> isRetryableError p (WrapError m e)) \<and>
   isRetryableError DefaultPolicy (NetError ''eof'' True True) \<and>
   \<not> isRetryableError DefaultPolicy (WrapError ''read: '' (NetError ''eof'' True True))"
proof (intro conjI allI impI)
  fix p m e
  have m: "mentions pats t \<Longrightarrow> mentions pats (u @ t)" for pats t u
    unfolding mentions_def using str_contains_mono [of t _ u "[]"] by auto
  assume "as_temporary e = None \<and> isRetryableError p e"
  moreover from this have "as_net_error e = None" "\<not> transient_errno e" by (cases e; simp)+
  ultimately show "isRetryableError p (WrapError m e)"
    by (auto simp: isRetryableError_def IsNetworkError_def IsTimeoutError_def IsTemporaryError_def IsDatabaseError_def
        intro!: m split: if_splits)
next
  show "isRetryableError DefaultPolicy (NetError ''eof'' True True)"
    by (simp add: isRetryableError_def DefaultPolicy_def IsNetworkError_def)
  show "\<not> isRetryableError DefaultPolicy (WrapError ''read: '' (NetError ''eof'' True True))"
    by code_simp
qed

theorem retryable_under_wrapping_witness:
  "isRetryableError DatabasePolicy (WrapError ''store: '' (ErrorString ''database is locked''))"
proof -
  have "as_temporary (ErrorString ''database is locked'') = None \<and> isRetryableError DatabasePolicy (ErrorString ''database is locked'')"
    by code_simp
  then show ?thesis using retryable_under_wrapping by blast
qed

section \<open>The breaker as a state machine\<close>

text \<open>
  Calls of \<open>canExecute\<close> and \<open>recordResult\<close> in any order, as concurrent users of one breaker interleave
  them; \<open>n\<close> counts the recorded results.
\<close>

inductive breaker_reach :: "int \<Rightarrow> duration \<Rightarrow> nat \<Rightarrow> CircuitBreaker \<Rightarrow> bool" for m d where
  new: "breaker_reach m d 0 (NewCircuitBreaker m d)"
| can: "breaker_reach m d n cb \<Longrightarrow> breaker_reach m d n (snd (canExecute now now2 cb))"
| rec: "breaker_reach m d n cb \<Longrightarrow> breaker_reach m d (Suc n) (recordResult now eo cb)"

lemma breaker_inv:
  assumes "breaker_reach m d n cb" and "1 \<le> m" and "int n < 2 ^ 63"
  shows "cb_maxFailures cb = m \<and> cb_resetTimeout cb = d \<and> 0 \<le> cb_failures cb \<and> cb_failures cb \<le> int n \<and>
    (cb_state cb = CircuitClosed \<longleftrightarrow> cb_failures cb < m)"
  using assms
proof (induction rule: breaker_reach.induct)
  case (can n cb now now2)
  then show ?case by (auto simp: canExecute_def Let_def split: CircuitState.splits)
next
  case (rec n cb now eo)
  moreover have "wrap64 (cb_failures cb + 1) = cb_failures cb + 1"
    using rec by (intro wrap64_id) (auto simp: int64_def)
  ultimately show ?case by (auto simp: recordResult_def Let_def split: option.splits)
qed (simp add: NewCircuitBreaker_def)


lemma breaker_opens:
  "\<exists>cb. breaker_reach 2 d 2 cb \<and> cb_state cb = CircuitOpen \<and> cb_lastFailTime cb = 100 \<and> cb_failures cb = 2"
proof -
  have "breaker_reach 2 d (Suc (Suc 0)) (recordResult 100 (Some cb_open_error) (recordResult 100 (Some cb_open_error) (NewCircuitBreaker 2 d)))"
    by (intro breaker_reach.rec breaker_reach.new)
  then show ?thesis
    by (intro exI [of _ "recordResult 100 (Some cb_open_error) (recordResult 100 (Some cb_open_error) (NewCircuitBreaker 2 d))"])
      (simp add: recordResult_def NewCircuitBreaker_def wrap64_def numeral_2_eq_2)
qed


text \<open>An open breaker rejects without calling the operation until the reset timeout has passed since
  the last failure. After that (the clock not running backwards) it lets one call through, and that
  call's result decides: success closes it with no failures, failure opens it again at once.
\<close>

theorem breaker_open_behaviour:
  assumes "breaker_reach m d n cb" and "1 \<le> m" and "int n < 2 ^ 63 - 1" and "cb_state cb = CircuitOpen" and "t1 \<le> t2"
  shows "if time_Sub t1 (cb_lastFailTime cb) < d
    then CircuitBreaker_Execute (t1, t2, t3) operation cb s = (Some cb_open_error, cb, s)
    else case operation s of (err, s') \<Rightarrow> \<exists>cb'. CircuitBreaker_Execute (t1, t2, t3) operation cb s = (err, cb', s') \<and>
      (if err = None then cb_state cb' = CircuitClosed \<and> cb_failures cb' = 0
       else cb_state cb' = CircuitOpen \<and> cb_lastFailTime cb' = t3)"
proof -
  have inv: "cb_maxFailures cb = m" "cb_resetTimeout cb = d" "m \<le> cb_failures cb" "cb_failures cb \<le> int n"
    using breaker_inv [OF assms(1,2)] assms(3,4) by auto
  have w: "wrap64 (cb_failures cb + 1) = cb_failures cb + 1"
    using inv assms(2,3) by (intro wrap64_id) (auto simp: int64_def)
  have mono: "time_Sub t1 (cb_lastFailTime cb) \<le> time_Sub t2 (cb_lastFailTime cb)"
    using assms(5) by (simp add: time_Sub_def sat64_def)
  show ?thesis
  proof (cases "time_Sub t1 (cb_lastFailTime cb) < d")
    case True
    then show ?thesis using inv assms(4) by (simp add: CircuitBreaker_Execute_def canExecute_def)
  next
    case False
    then have "canExecute t1 t2 cb = (True, cb\<lparr>cb_state := CircuitHalfOpen\<rparr>)"
      using inv assms(4) mono by (simp add: canExecute_def)
    then show ?thesis using False w inv
      by (auto simp: CircuitBreaker_Execute_def recordResult_def Let_def split: prod.splits option.splits)
  qed
qed

theorem breaker_open_behaviour_witness:
  "\<exists>cb. cb_state cb = CircuitOpen \<and> CircuitBreaker_Execute (103, 103, 104) fails_until_0 cb 5 = (Some cb_open_error, cb, 5)"
  using breaker_opens [of 7] breaker_open_behaviour [of 2 7 2 _ 103 103 104 fails_until_0 5]
  by (auto simp: time_Sub_def sat64_def)

end
