(* ===== verification/Storage_Retry.thy ===== *)
theory Storage_Retry
  imports Retry
begin

text \<open>
  The retry layer below the storage (\<open>pkg/storage/retry.go\<close>), the health gate of the connection pool
  (\<open>ExecuteWithRetry\<close> of \<open>pkg/storage/pool.go\<close>) and \<open>SQLiteStorage.Transaction\<close>
  (\<open>pkg/storage/sqlite.go\<close>).

  The SQL driver is third-party code: the record \<open>Database\<close> has one field for each of its operations
  the code calls, on a state \<open>'d\<close> that stands for the database and everything around it (faults,
  contention, the caller's context). The locale \<open>transactional\<close> states what the code relies on.
  Sleeping between attempts changes no state and is not recorded.
\<close>

section \<open>Errors seen through wrapping\<close>

text \<open>\<open>errors.Is\<close> for a target without methods of its own; sentinel errors are told apart by their text.\<close>

fun errors_Is :: "error \<Rightarrow> error \<Rightarrow> bool" where
  "errors_Is (WrapError m e) t = (WrapError m e = t \<or> errors_Is e t)"
| "errors_Is (PandaFuzzError ty op e) t = (PandaFuzzError ty op e = t \<or> errors_Is e t)"
| "errors_Is e t = (e = t)"

text \<open>\<open>errors.As\<close> with a target of type \<open>sqlite3.Error\<close>, and of type \<open>*common.PandaFuzzError\<close>.\<close>

fun as_sqlite :: "error \<Rightarrow> (int \<times> int) option" where
  "as_sqlite (SqliteError _ code ext) = Some (code, ext)"
| "as_sqlite (WrapError _ e) = as_sqlite e"
| "as_sqlite (PandaFuzzError _ _ e) = as_sqlite e"
| "as_sqlite _ = None"

fun as_PandaFuzzError :: "error \<Rightarrow> ErrorType option" where
  "as_PandaFuzzError (PandaFuzzError ty _ _) = Some ty"
| "as_PandaFuzzError (WrapError _ e) = as_PandaFuzzError e"
| "as_PandaFuzzError _ = None"

section \<open>Retryable errors\<close>

text \<open>The byte-wise search of \<open>containsIgnoreCase\<close>; \<open>toLower\<close> is \<open>lower_char\<close>.\<close>

definition match_at :: "string \<Rightarrow> string \<Rightarrow> nat \<Rightarrow> bool" where
  "match_at s substr i \<longleftrightarrow> list_all (\<lambda>j. lower_char (s ! (i + j)) = lower_char (substr ! j)) [0..<length substr]"

definition containsIgnoreCase :: "string \<Rightarrow> string \<Rightarrow> bool" where
  "containsIgnoreCase s substr =
     (if length substr = 0 then True
      else if length s < length substr then False
      else list_ex (match_at s substr) [0..<length s - length substr + 1])"

definition contains_ci :: "string \<Rightarrow> string \<Rightarrow> bool" where
  "contains_ci s substr \<longleftrightarrow> length s \<ge> length substr \<and> containsIgnoreCase s substr"

definition sqlitePatterns :: "string list" where
  "sqlitePatterns = [''database is locked'', ''database table is locked'', ''SQLITE_BUSY'', ''SQLITE_LOCKED'',
     ''cannot commit - no transaction is active'', ''cannot commit transaction - SQL statements in progress'',
     ''cannot start a transaction within a transaction'']"

text \<open>The result codes \<open>ErrBusy\<close> 5, \<open>ErrLocked\<close> 6, \<open>ErrConstraint\<close> 19 and \<open>ErrConstraintUnique\<close> 2067 are
  SQLite's. A constraint violation that is not one of uniqueness returns at once.\<close>

definition isSQLiteRetryable :: "error \<Rightarrow> bool" where
  "isSQLiteRetryable e =
     (let by_text = list_ex (contains_ci (err_Error e)) sqlitePatterns
      in case as_sqlite e of
        Some (code, ext) \<Rightarrow> if code = 6 \<or> code = 5 then True else if code = 19 then ext = 2067 else by_text
      | None \<Rightarrow> by_text)"

definition databasePatterns :: "string list" where
  "databasePatterns = [''connection reset by peer'', ''broken pipe'', ''no such host'', ''connection refused'', ''i/o timeout'',
     ''context deadline exceeded'', ''too many connections'']"

definition isRetryableDatabaseError :: "string \<Rightarrow> bool" where
  "isRetryableDatabaseError errMsg = list_ex (contains_ci errMsg) databasePatterns"

definition isRetryable :: "error \<Rightarrow> error list \<Rightarrow> bool" where
  "isRetryable e retryableErrors =
     (if isSQLiteRetryable e then True
      else if list_ex (errors_Is e) retryableErrors then True
      else if as_PandaFuzzError e = Some ErrorTypeDatabase then isRetryableDatabaseError (err_Error e)
      else False)"

section \<open>The retry loop\<close>

record RetryOptions =
  ro_MaxRetries :: int
  ro_InitialDelay :: duration
  ro_MaxDelay :: duration
  ro_Multiplier :: rat
  ro_Jitter :: bool
  ro_RetryableErrors :: "error list"

definition DefaultRetryOptions :: RetryOptions where
  "DefaultRetryOptions = \<lparr>ro_MaxRetries = 3, ro_InitialDelay = 100 * Millisecond, ro_MaxDelay = 5 * Second,
     ro_Multiplier = 2, ro_Jitter = True,
     ro_RetryableErrors = [ErrorString ''sql: connection is already closed'',
       ErrorString ''sql: transaction has already been committed or rolled back'']\<rparr>"

text \<open>\<open>u\<close> is the random number of \<open>rand.Float64()\<close>; arithmetic is exact instead of \<open>float64\<close>.\<close>

definition storage_calculateDelay :: "rat \<Rightarrow> nat \<Rightarrow> RetryOptions \<Rightarrow> duration" where
  "storage_calculateDelay u attempt opts =
     (let d = of_int (ro_InitialDelay opts) * ro_Multiplier opts ^ attempt;
          d1 = (if d > of_int (ro_MaxDelay opts) then of_int (ro_MaxDelay opts) else d)
      in trunc_rat (if ro_Jitter opts then d1 * (1 + (u - 1 / 2) * (1 / 2)) else d1))"

definition attempts_error :: "RetryOptions \<Rightarrow> error option \<Rightarrow> error" where
  "attempts_error opts lastErr =
     (let m = ''operation failed after '' @ itoa (wrap64 (ro_MaxRetries opts + 1)) @ '' attempts: ''
      in case lastErr of Some e \<Rightarrow> WrapError m e | None \<Rightarrow> ErrorString (m @ ''%!w(<nil>)''))"

text \<open>\<open>WithRetry\<close> from attempt number \<open>attempt\<close> on. \<open>ctxErr\<close> is the error of the context at the moment
  of the call, \<open>None\<close> while it is live.\<close>

function WithRetry_loop ::
    "RetryOptions \<Rightarrow> ('s \<Rightarrow> error option \<times> 's) \<Rightarrow> ('s \<Rightarrow> 'a result \<times> 's) \<Rightarrow> int \<Rightarrow> error option \<Rightarrow> 's \<Rightarrow> 'a result \<times> 's" where
  "WithRetry_loop opts ctxErr fn attempt lastErr s =
     (if attempt > ro_MaxRetries opts then (Inl (attempts_error opts lastErr), s)
      else case ctxErr s of
        (Some c, s1) \<Rightarrow> (Inl c, s1)
      | (None, s1) \<Rightarrow> (case fn s1 of
          (Inr v, s2) \<Rightarrow> (Inr v, s2)
        | (Inl e, s2) \<Rightarrow>
            if attempt = ro_MaxRetries opts \<or> \<not> isRetryable e (ro_RetryableErrors opts) then (Inl (attempts_error opts (Some e)), s2)
            else (case ctxErr s2 of
                (Some c, s3) \<Rightarrow> (Inl c, s3)
              | (None, s3) \<Rightarrow> WithRetry_loop opts ctxErr fn (attempt + 1) (Some e) s3)))"
  by pat_completeness auto
termination
  by (relation "measure (\<lambda>(opts, _, _, attempt, _, _). nat (ro_MaxRetries opts + 1 - attempt))") auto

declare WithRetry_loop.simps [simp del]

definition WithRetry :: "RetryOptions \<Rightarrow> ('s \<Rightarrow> error option \<times> 's) \<Rightarrow> ('s \<Rightarrow> 'a result \<times> 's) \<Rightarrow> 's \<Rightarrow> 'a result \<times> 's" where
  "WithRetry opts ctxErr fn s = WithRetry_loop opts ctxErr fn 0 None s"

definition WithRetryVoid :: "RetryOptions \<Rightarrow> ('s \<Rightarrow> error option \<times> 's) \<Rightarrow> ('s \<Rightarrow> error option \<times> 's) \<Rightarrow> 's \<Rightarrow> error option \<times> 's" where
  "WithRetryVoid opts ctxErr fn s =
     (case WithRetry opts ctxErr (\<lambda>s. case fn s of (None, s') \<Rightarrow> (Inr (), s') | (Some e, s') \<Rightarrow> (Inl e, s')) s of
        (Inr _, s') \<Rightarrow> (None, s')
      | (Inl e, s') \<Rightarrow> (Some e, s'))"

section \<open>Transactions\<close>

record ('d, 'v) Database =
  db_Begin :: "'d \<Rightarrow> error option \<times> 'd"
  tx_Store :: "string \<Rightarrow> 'v \<Rightarrow> 'd \<Rightarrow> error option \<times> 'd"
  tx_Delete :: "string \<Rightarrow> 'd \<Rightarrow> error option \<times> 'd"
  tx_Commit :: "'d \<Rightarrow> error option \<times> 'd"
  tx_Rollback :: "'d \<Rightarrow> error option \<times> 'd"
  db_Get :: "string \<Rightarrow> 'd \<Rightarrow> 'v result \<times> 'd"
  db_IsHealthy :: "'d \<Rightarrow> bool \<times> 'd"
  db_CtxErr :: "'d \<Rightarrow> error option \<times> 'd"
  db_RetryOptions :: RetryOptions

definition NewValidationError :: "string \<Rightarrow> error \<Rightarrow> error" where
  "NewValidationError op e = PandaFuzzError ErrorTypeValidation op e"

definition NewDatabaseError :: "string \<Rightarrow> error \<Rightarrow> error" where
  "NewDatabaseError op e = PandaFuzzError ErrorTypeDatabase op e"

definition NewSystemError :: "string \<Rightarrow> error \<Rightarrow> error" where
  "NewSystemError op e = PandaFuzzError ErrorTypeSystem op e"

text \<open>The context of a call, asked from inside a state \<open>'d \<times> 'x\<close>.\<close>

definition ctx_err :: "('d, 'v, 'z) Database_scheme \<Rightarrow> 'd \<times> 'x \<Rightarrow> error option \<times> ('d \<times> 'x)" where
  "ctx_err db s = (case db_CtxErr db (fst s) of (e, d) \<Rightarrow> (e, (d, snd s)))"

definition pool_ExecuteWithRetry ::
    "('d, 'v, 'z) Database_scheme \<Rightarrow> string \<Rightarrow> ('d \<times> 'x \<Rightarrow> error option \<times> ('d \<times> 'x)) \<Rightarrow> 'd \<times> 'x \<Rightarrow> error option \<times> ('d \<times> 'x)" where
  "pool_ExecuteWithRetry db operation fn s = (case db_IsHealthy db (fst s) of
       (False, d) \<Rightarrow> (Some (NewDatabaseError operation (ErrorString ''connection pool is unhealthy'')), (d, snd s))
     | (True, d) \<Rightarrow> WithRetryVoid (db_RetryOptions db) (ctx_err db) fn (d, snd s))"

text \<open>One run of the function that \<open>Transaction\<close> retries. \<open>fn\<close> works on the database and on what else
  it captures.\<close>

definition tx_attempt ::
    "('d, 'v, 'z) Database_scheme \<Rightarrow> ('d \<times> 'x \<Rightarrow> error option \<times> ('d \<times> 'x)) \<Rightarrow> 'd \<times> 'x \<Rightarrow> error option \<times> ('d \<times> 'x)" where
  "tx_attempt db fn s = (case ctx_err db s of
       (Some c, s1) \<Rightarrow> (Some c, s1)
     | (None, s1) \<Rightarrow> (case db_Begin db (fst s1) of
         (Some e, d) \<Rightarrow> (Some (NewDatabaseError ''begin_transaction'' e), (d, snd s1))
       | (None, d) \<Rightarrow> (case fn (d, snd s1) of
           (Some e, s2) \<Rightarrow> (Some e, (snd (tx_Rollback db (fst s2)), snd s2))
         | (None, s2) \<Rightarrow> (case tx_Commit db (fst s2) of
             (Some e, d) \<Rightarrow> (Some (NewDatabaseError ''commit_transaction'' e), (d, snd s2))
           | (None, d) \<Rightarrow> (None, (d, snd s2))))))"

definition Transaction ::
    "('d, 'v, 'z) Database_scheme \<Rightarrow> ('d \<times> 'x \<Rightarrow> error option \<times> ('d \<times> 'x)) \<Rightarrow> 'd \<times> 'x \<Rightarrow> error option \<times> ('d \<times> 'x)" where
  "Transaction db fn s = pool_ExecuteWithRetry db ''transaction'' (tx_attempt db fn) s"

section \<open>Lemmas on the retry loop\<close>

text \<open>The byte loop is a search in the lower-case texts.\<close>

lemma match_at_take: "i + length p \<le> length s \<Longrightarrow> match_at s p i \<longleftrightarrow> to_lower (take (length p) (drop i s)) = to_lower p"
  unfolding match_at_def list_all_iff to_lower_def list_eq_iff_nth_eq by (simp add: atLeast0LessThan Ball_def)

lemma take_drop_contains:
  "str_contains s p \<longleftrightarrow> (\<exists>i. i + length p \<le> length s \<and> take (length p) (drop i s) = p)"
proof
  assume "str_contains s p"
  then obtain xs ys where "s = xs @ p @ ys" by (auto simp: str_contains_iff)
  then show "\<exists>i. i + length p \<le> length s \<and> take (length p) (drop i s) = p" by (intro exI [of _ "length xs"]) simp
next
  assume "\<exists>i. i + length p \<le> length s \<and> take (length p) (drop i s) = p"
  then obtain i where "take (length p) (drop i s) = p" by blast
  then have "s = take i s @ p @ drop (length p) (drop i s)" by (metis append_take_drop_id)
  then show "str_contains s p" unfolding str_contains_iff by blast
qed

lemma containsIgnoreCase_search: "containsIgnoreCase s p \<longleftrightarrow> str_contains (to_lower s) (to_lower p)"
proof (cases "length p = 0 \<or> length s < length p")
  case True
  then show ?thesis by (auto simp: containsIgnoreCase_def take_drop_contains to_lower_def)
next
  case False
  then have "containsIgnoreCase s p \<longleftrightarrow> (\<exists>i. i + length p \<le> length s \<and> match_at s p i)"
    by (auto simp: containsIgnoreCase_def list_ex_iff simp del: upt_Suc intro: exI [of _ "_ :: nat"]) (metis add.commute le_diff_conv2 linorder_not_less less_Suc_eq_le)+
  also have "\<dots> \<longleftrightarrow> str_contains (to_lower s) (to_lower p)"
    by (auto simp: match_at_take take_drop_contains to_lower_def take_map drop_map)
  finally show ?thesis .
qed

lemma storage_delay_cap:
  assumes "0 \<le> ro_InitialDelay opts" "0 \<le> ro_MaxDelay opts" "1 \<le> ro_Multiplier opts" "0 \<le> u" "u \<le> 1"
  shows "0 \<le> storage_calculateDelay u n opts \<and> 4 * storage_calculateDelay u n opts \<le> 5 * ro_MaxDelay opts"
proof -
  let ?d = "of_int (ro_InitialDelay opts) * ro_Multiplier opts ^ n"
  define d1 where "d1 = (if ?d > of_int (ro_MaxDelay opts) then of_int (ro_MaxDelay opts) else ?d)"
  define d2 where "d2 = (if ro_Jitter opts then d1 * (1 + (u - 1 / 2) * (1 / 2)) else d1)"
  have d1: "0 \<le> d1" "d1 \<le> of_int (ro_MaxDelay opts)" using assms by (auto simp: d1_def)
  have "1 + (u - 1 / 2) * (1 / 2) \<le> 5 / 4" "0 \<le> 1 + (u - 1 / 2) * (1 / 2)" using assms(4,5) by (simp_all add: field_simps)
  then have "d1 * (1 + (u - 1 / 2) * (1 / 2)) \<le> d1 * (5 / 4)" "0 \<le> d1 * (1 + (u - 1 / 2) * (1 / 2))"
    using d1(1) mult_left_mono [of _ "5 / 4" d1] by (auto intro: mult_nonneg_nonneg)
  then have d2: "0 \<le> d2" "4 * d2 \<le> 5 * of_int (ro_MaxDelay opts)" using d1 by (auto simp: d2_def)
  have "4 * (of_int (trunc_rat d2) :: rat) \<le> of_int (5 * ro_MaxDelay opts)" using trunc_rat_le [OF d2(1)] d2(2) by simp
  then have "4 * trunc_rat d2 \<le> 5 * ro_MaxDelay opts" by (metis of_int_le_iff of_int_mult of_int_numeral)
  moreover have "storage_calculateDelay u n opts = trunc_rat d2"
    by (simp only: storage_calculateDelay_def Let_def d1_def d2_def)
  ultimately show ?thesis using trunc_rat_nonneg [OF d2(1)] by simp
qed

text \<open>Rules for both retry loops: what every failing call keeps, and what a succeeding call
  establishes from it.\<close>

lemma exec_loop_rule:
  assumes "I s" and "\<And>s. I s \<Longrightarrow> (case operation s of (None, s') \<Rightarrow> Q s' | (Some e, s') \<Rightarrow> I s')"
  shows "case exec_loop p operation rnd attempt delay lastErr s of (None, _, s') \<Rightarrow> Q s' | (Some e, _, s') \<Rightarrow> I s'"
  using assms
proof (induction p operation rnd attempt delay lastErr s rule: exec_loop.induct)
  case (1 p operation rnd attempt delay lastErr s)
  obtain eo s1 where op: "operation s = (eo, s1)" by fastforce
  have s1: "case eo of None \<Rightarrow> Q s1 | Some e \<Rightarrow> I s1" using "1.prems"(2) [OF "1.prems"(1)] op by (simp split: option.splits)
  show ?case
  proof (cases "attempt > pol_MaxRetries p \<or> eo = None \<or> (\<exists>e. eo = Some e \<and> (\<not> isRetryableError p e \<or> attempt = pol_MaxRetries p))")
    case True
    then show ?thesis using op s1 "1.prems"(1) by (subst exec_loop.simps) (auto split: option.splits)
  next
    case False
    then obtain e where e: "eo = Some e" "isRetryableError p e" "attempt \<noteq> pol_MaxRetries p" "\<not> attempt > pol_MaxRetries p" by auto
    have "case exec_loop p operation rnd (attempt + 1) (next_delay p delay) (Some e) s1 of (None, _, s') \<Rightarrow> Q s' | (Some e, _, s') \<Rightarrow> I s'"
      using "1.IH" [OF e(4) op [symmetric] e(1) _ e(3)] e(1,2) s1 "1.prems"(2) by simp
    then show ?thesis using op e
      by (subst exec_loop.simps) (auto simp: Let_def split: prod.splits option.splits)
  qed
qed

lemma WithRetry_loop_rule:
  assumes "I s" and "\<And>s e s'. I s \<Longrightarrow> ctxErr s = (e, s') \<Longrightarrow> I s'"
    and "\<And>s. I s \<Longrightarrow> (case fn s of (Inr v, s') \<Rightarrow> Q v s' | (Inl e, s') \<Rightarrow> I s')"
  shows "case WithRetry_loop opts ctxErr fn attempt lastErr s of (Inr v, s') \<Rightarrow> Q v s' | (Inl e, s') \<Rightarrow> I s'"
  using assms
proof (induction opts ctxErr fn attempt lastErr s rule: WithRetry_loop.induct)
  case (1 opts ctxErr fn attempt lastErr s)
  obtain c1 s1 where c1: "ctxErr s = (c1, s1)" by fastforce
  obtain r s2 where r: "fn s1 = (r, s2)" by fastforce
  obtain c2 s3 where c2: "ctxErr s2 = (c2, s3)" by fastforce
  have s1: "I s1" using "1.prems"(1,2) c1 by blast
  then have s2: "case r of Inr v \<Rightarrow> Q v s2 | Inl e \<Rightarrow> I s2" using "1.prems"(3) [OF s1] r by (simp split: sum.splits)
  show ?case
  proof (cases "attempt > ro_MaxRetries opts \<or> c1 \<noteq> None \<or> c2 \<noteq> None \<or> (\<exists>v. r = Inr v) \<or>
      (\<exists>e. r = Inl e \<and> (attempt = ro_MaxRetries opts \<or> \<not> isRetryable e (ro_RetryableErrors opts)))")
    case True
    then show ?thesis using c1 r c2 s1 s2 "1.prems"(1,2)
      by (subst WithRetry_loop.simps) (auto split: option.splits sum.splits)
  next
    case False
    then obtain e where e: "r = Inl e" "c1 = None" "c2 = None" "\<not> attempt > ro_MaxRetries opts"
        "\<not> (attempt = ro_MaxRetries opts \<or> \<not> isRetryable e (ro_RetryableErrors opts))"
      by (cases r) auto
    have "I s3" using s2 e(1) "1.prems"(2) c2 by auto
    note ih = "1.IH" [OF e(4) c1 [symmetric] e(2) r [symmetric] e(1,5) c2 [symmetric] e(3) this]
    have "case WithRetry_loop opts ctxErr fn (attempt + 1) (Some e) s3 of (Inr v, s') \<Rightarrow> Q v s' | (Inl e, s') \<Rightarrow> I s'"
      by (rule ih, erule (1) "1.prems"(2), erule "1.prems"(3))
    then show ?thesis using c1 r c2 e by (subst WithRetry_loop.simps) simp
  qed
qed

lemma WithRetryVoid_rule:
  assumes "I s" and "\<And>s e s'. I s \<Longrightarrow> ctxErr s = (e, s') \<Longrightarrow> I s'"
    and "\<And>s. I s \<Longrightarrow> (case fn s of (None, s') \<Rightarrow> Q s' | (Some e, s') \<Rightarrow> I s')"
  shows "case WithRetryVoid opts ctxErr fn s of (None, s') \<Rightarrow> Q s' | (Some e, s') \<Rightarrow> I s'"
proof -
  let ?fn = "\<lambda>s. case fn s of (None, s') \<Rightarrow> (Inr (), s') | (Some e, s') \<Rightarrow> (Inl e, s')"
  have "case WithRetry opts ctxErr ?fn s of (Inr v, s') \<Rightarrow> (\<lambda>_. Q) v s' | (Inl e, s') \<Rightarrow> I s'"
    unfolding WithRetry_def
  proof (rule WithRetry_loop_rule)
    fix s
    assume "I s"
    then show "case ?fn s of (Inr v, s') \<Rightarrow> Q s' | (Inl e, s') \<Rightarrow> I s'"
      using assms(3) [of s] by (auto split: prod.splits option.splits)
  qed (use assms in auto)
  then show ?thesis by (auto simp: WithRetryVoid_def split: prod.splits sum.splits)
qed

text \<open>What a transaction does to the captured state alone, whatever the database does.\<close>

lemma Transaction_mem_rule:
  fixes fn :: "'d \<times> 'x \<Rightarrow> error option \<times> ('d \<times> 'x)"
  assumes "I (snd s)"
    and body: "\<And>d x. I x \<Longrightarrow> (case fn (d, x) of (eo, (d', x')) \<Rightarrow> I x' \<and> (eo = None \<longrightarrow> Q x'))"
  shows "case Transaction db fn s of (None, (d', x')) \<Rightarrow> Q x' | (Some e, (d', x')) \<Rightarrow> I x'"
proof -
  let ?I = "\<lambda>s :: 'd \<times> 'x. I (snd s)" and ?Q = "\<lambda>s :: 'd \<times> 'x. Q (snd s)"
  have ctx: "?I s'" if "?I s" "ctx_err db s = (e, s')" for s s' e
    using that by (auto simp: ctx_err_def split: prod.splits)
  have att: "case tx_attempt db fn s of (None, s') \<Rightarrow> ?Q s' | (Some e, s') \<Rightarrow> ?I s'" if "?I s" for s
  proof -
    obtain c d1 x1 where c: "ctx_err db s = (c, (d1, x1))" by (metis prod.exhaust)
    obtain b d2 where b: "db_Begin db d1 = (b, d2)" by fastforce
    obtain eo d3 x3 where f: "fn (d2, x1) = (eo, (d3, x3))" by (metis prod.exhaust)
    obtain k d4 where k: "tx_Commit db d3 = (k, d4)" by fastforce
    have "I x1" using ctx [OF that c] by simp
    then show ?thesis using body [of x1 d2] c b f k by (auto simp: tx_attempt_def split: option.splits)
  qed
  obtain h d where h: "db_IsHealthy db (fst s) = (h, d)" by fastforce
  have "?I (d, snd s)" using assms(1) by simp
  then have "case WithRetryVoid (db_RetryOptions db) (ctx_err db) (tx_attempt db fn) (d, snd s) of (None, s') \<Rightarrow> ?Q s' | (Some e, s') \<Rightarrow> ?I s'"
    using ctx att by (rule WithRetryVoid_rule [of ?I])
  then show ?thesis using h assms(1)
    by (auto simp: Transaction_def pool_ExecuteWithRetry_def split: bool.splits option.splits prod.splits)
qed

section \<open>The contract of a transactional store\<close>

text \<open>
  \<open>committed\<close> is what other connections see: under each key the value last written by a committed
  transaction; \<open>working\<close> is the view of the open transaction.
\<close>

locale transactional =
  fixes db :: "('d, 'v, 'z) Database_scheme"
    and committed :: "'d \<Rightarrow> string \<rightharpoonup> 'v"
    and working :: "'d \<Rightarrow> string \<rightharpoonup> 'v"
  assumes Begin_law: "db_Begin db d = (eo, d') \<Longrightarrow> committed d' = committed d \<and> (eo = None \<longrightarrow> working d' = committed d)"
    and Store_law: "tx_Store db k v d = (eo, d') \<Longrightarrow> committed d' = committed d \<and> (eo = None \<longrightarrow> working d' = (working d)(k \<mapsto> v))"
    and Delete_law: "tx_Delete db k d = (eo, d') \<Longrightarrow> committed d' = committed d \<and> (eo = None \<longrightarrow> working d' = (working d)(k := None))"
    and Commit_law: "tx_Commit db d = (eo, d') \<Longrightarrow> committed d' = (if eo = None then working d else committed d)"
    and Rollback_law: "tx_Rollback db d = (eo, d') \<Longrightarrow> committed d' = committed d"
    and Get_law: "db_Get db k d = (r, d') \<Longrightarrow> committed d' = committed d"
    and IsHealthy_law: "db_IsHealthy db d = (b, d') \<Longrightarrow> committed d' = committed d"
    and CtxErr_law: "db_CtxErr db d = (eo, d') \<Longrightarrow> committed d' = committed d"
begin

text \<open>A transaction whose body, run on a view that equals the committed data, keeps an invariant of the
  captured state persists either nothing or the whole effect of one run of the body.\<close>

lemma Transaction_rule:
  fixes fn :: "'d \<times> 'x \<Rightarrow> error option \<times> ('d \<times> 'x)"
  assumes m: "committed (fst s) = m" and I: "I (snd s)"
    and body: "\<And>d x. committed d = m \<Longrightarrow> working d = m \<Longrightarrow> I x \<Longrightarrow>
      (case fn (d, x) of (eo, (d', x')) \<Rightarrow> committed d' = m \<and> I x' \<and> (eo = None \<longrightarrow> Q (working d') x'))"
  shows "case Transaction db fn s of (None, (d', x')) \<Rightarrow> Q (committed d') x' | (Some e, (d', x')) \<Rightarrow> committed d' = m \<and> I x'"
proof -
  let ?I = "\<lambda>(d, x). committed d = m \<and> I x" and ?Q = "\<lambda>(d, x). Q (committed d) x"
  have ctx: "?I s'" if "?I s" "ctx_err db s = (e, s')" for s e and s' :: "'d \<times> 'x"
    using that CtxErr_law by (auto simp: ctx_err_def split: prod.splits)
  have att: "case tx_attempt db fn s of (None, s') \<Rightarrow> ?Q s' | (Some e, s') \<Rightarrow> ?I s'" if "?I s" for s
  proof -
    obtain c d1 x1 where c: "ctx_err db s = (c, (d1, x1))" by (metis prod.exhaust)
    obtain b d2 where b: "db_Begin db d1 = (b, d2)" by fastforce
    obtain eo d3 x3 where f: "fn (d2, x1) = (eo, (d3, x3))" by (metis prod.exhaust)
    obtain k d4 where k: "tx_Commit db d3 = (k, d4)" by fastforce
    obtain rb d5 where rb: "tx_Rollback db d3 = (rb, d5)" by fastforce
    have "committed d1 = m" "I x1" using ctx [OF that c] by auto
    then show ?thesis
      using body [of d2 x1] Begin_law [OF b] Commit_law [OF k] Rollback_law [OF rb] c b f k rb
      by (auto simp: tx_attempt_def split: option.splits)
  qed
  obtain h d where h: "db_IsHealthy db (fst s) = (h, d)" by fastforce
  then have "?I (d, snd s)" using IsHealthy_law m I by auto
  then have "case WithRetryVoid (db_RetryOptions db) (ctx_err db) (tx_attempt db fn) (d, snd s) of (None, s') \<Rightarrow> ?Q s' | (Some e, s') \<Rightarrow> ?I s'"
    using ctx att by (rule WithRetryVoid_rule [of ?I])
  then show ?thesis using h IsHealthy_law [OF h] m I
    by (auto simp: Transaction_def pool_ExecuteWithRetry_def split: bool.splits option.splits prod.splits)
qed

end

end
