(* ===== verification/Master_State.thy ===== *)
theory Master_State
  imports Storage_Retry "HOL-Library.AList"
begin

text \<open>
  The master's state manager: \<open>PersistentState\<close> of \<open>pkg/master/state_core.go\<close> with its operations on bots
  (\<open>state_bot.go\<close>), jobs (\<open>state_job.go\<close>) and metadata (\<open>state.go\<close>). It keeps bots and jobs in memory and
  writes them through a transactional store, retrying both inside the store (\<open>Storage_Retry\<close>) and
  around it (\<open>Retry\<close>).

  \<^item> The caches are Go maps: association lists with one entry per key. The order in which \<open>range\<close> visits
    the keys, the clock and the formatting of an instant are in the record \<open>Env\<close>; \<open>mem_tick\<close> counts the
    questions put to it, so that every answer may be different.
  \<^item> A cached \<open>*Job\<close> or \<open>*Bot\<close> that an operation changes in place is the cache entry: it is changed at the
    point of the assignment, whether or not the transaction succeeds later. What is stored is a
    copy, as \<open>Store\<close> marshals its argument.
  \<^item> Every operation runs on a state \<open>'d \<times> Mem\<close> (the database, the memory of the process); the lock
    \<open>ps.mu\<close> makes the blocks it protects atomic, and one operation is modelled at a time.
  \<^item> Logging is left out. \<open>IsNotFoundError\<close> compares sentinel errors by their text.
\<close>

named_theorems master_defs \<open>the operations of the master's state manager\<close>

section \<open>Data\<close>

datatype BotStatus = BotStatusRegistering | BotStatusIdle | BotStatusBusy | BotStatusTimedOut | BotStatusFailed | BotStatusAny string

fun BotStatus_String :: "BotStatus \<Rightarrow> string" where
  "BotStatus_String BotStatusRegistering = ''registering''"
| "BotStatus_String BotStatusIdle = ''idle''"
| "BotStatus_String BotStatusBusy = ''busy''"
| "BotStatus_String BotStatusTimedOut = ''timed_out''"
| "BotStatus_String BotStatusFailed = ''failed''"
| "BotStatus_String (BotStatusAny s) = s"

record MasterBot =
  mb_ID :: string
  mb_Name :: string
  mb_Hostname :: string
  mb_Status :: BotStatus
  mb_LastSeen :: time
  mb_RegisteredAt :: time
  mb_CurrentJob :: "string option"
  mb_Capabilities :: "string list"
  mb_TimeoutAt :: time
  mb_IsOnline :: bool
  mb_FailureCount :: int
  mb_APIEndpoint :: string

datatype MasterJobStatus = JobPending | JobAssigned | JobStarting | JobRunning | JobCompleted | JobFailed | JobTimedOut
  | JobCancelled | JobStatusAny string

record MasterJobConfig =
  mjc_Duration :: duration
  mjc_MemoryLimit :: int
  mjc_Timeout :: duration
  mjc_Dictionary :: string
  mjc_SeedCorpus :: "string list"
  mjc_OutputDir :: string

record MasterJob =
  mj_ID :: string
  mj_Name :: string
  mj_Target :: string
  mj_Fuzzer :: string
  mj_Type :: string
  mj_Status :: MasterJobStatus
  mj_AssignedBot :: "string option"
  mj_CreatedAt :: time
  mj_StartedAt :: "time option"
  mj_CompletedAt :: "time option"
  mj_TimeoutAt :: time
  mj_WorkDir :: string
  mj_Config :: MasterJobConfig
  mj_Progress :: int
  mj_CampaignID :: "string option"
  mj_CollectionID :: "string option"
  mj_UseCampaignCorpus :: bool
  mj_Metadata :: "(string \<rightharpoonup> any) option"
  mj_Priority :: int
  mj_EnableCoverage :: bool
  mj_CoverageFormat :: string
  mj_RecoveryTimeout :: "time option"
  mj_LeaseToken :: "string option"
  mj_LeaseExpiresAt :: "time option"
  mj_LastHeartbeat :: "time option"

record JobAssignment =
  ja_JobID :: string
  ja_BotID :: string
  ja_Timestamp :: time
  ja_Status :: string

text \<open>The events the timeout manager stores as metadata.\<close>

datatype TimeoutType = TimeoutTypeBot | TimeoutTypeJob | TimeoutTypeAny string

record TimeoutEvent =
  te_Type :: TimeoutType
  te_EntityID :: string
  te_Timestamp :: time
  te_Duration :: duration
  te_Reason :: string

text \<open>The values that the state manager stores.\<close>

datatype dbval = VBot MasterBot | VJob MasterJob | VAssignment JobAssignment | VEvent TimeoutEvent | VAny any

record StateStats =
  st_BotsRegistered :: int
  st_JobsCreated :: int
  st_CrashesRecorded :: int
  st_CoverageReports :: int
  st_CorpusUpdates :: int
  st_TransactionCount :: int
  st_LastRecovery :: time
  st_LastBackup :: time
  st_Uptime :: time

record PersistentState =
  ps_bots :: "(string \<times> MasterBot) list"
  ps_jobs :: "(string \<times> MasterJob) list"
  ps_metadata :: "(string \<times> dbval) list"
  ps_retryManager :: Policy
  ps_stats :: StateStats
  ps_maxCacheSize :: int
  ps_cacheAccessTime :: "(string \<times> time) list"

text \<open>The process's memory and its environment.\<close>

record Mem =
  mem_ps :: PersistentState
  mem_tick :: nat

record Env =
  env_clock :: "nat \<Rightarrow> time"
  env_range :: "nat \<Rightarrow> string list \<Rightarrow> string list"
  env_format :: "time \<Rightarrow> string"

text \<open>The methods of \<open>*storage.SQLiteStorage\<close> that the state manager calls after a type assertion; the
  assertion fails when the store is wrapped by \<open>database.WithMiddleware\<close>.\<close>

record 'd MasterDatabase = "('d, dbval) Database" +
  db_isSQLite :: bool
  db_GetJob :: "string \<Rightarrow> 'd \<Rightarrow> MasterJob result \<times> 'd"
  db_ListJobs :: "'d \<Rightarrow> MasterJob list result \<times> 'd"

type_synonym 'd mworld = "'d \<times> Mem"

definition NewPersistentState :: "time \<Rightarrow> Policy \<Rightarrow> int \<Rightarrow> PersistentState" where
  "NewPersistentState now cfgRetry cfgMaxCacheSize =
     \<lparr>ps_bots = [], ps_jobs = [], ps_metadata = [],
      ps_retryManager = (if pol_MaxRetries cfgRetry = 0 then DatabasePolicy else cfgRetry),
      ps_stats = \<lparr>st_BotsRegistered = 0, st_JobsCreated = 0, st_CrashesRecorded = 0, st_CoverageReports = 0, st_CorpusUpdates = 0,
        st_TransactionCount = 0, st_LastRecovery = time_zero, st_LastBackup = time_zero, st_Uptime = now\<rparr>,
      ps_maxCacheSize = (if cfgMaxCacheSize > 0 then cfgMaxCacheSize else 1000), ps_cacheAccessTime = []\<rparr>"

section \<open>Helpers\<close>

definition IsNotFoundError :: "error option \<Rightarrow> bool" where
  "IsNotFoundError eo = (case eo of None \<Rightarrow> False
     | Some e \<Rightarrow> if e = ErrorString ''key not found'' then True
         else (case e of PandaFuzzError _ _ _ \<Rightarrow> False
           | _ \<Rightarrow> str_contains (err_Error e) ''not found'' \<or> str_contains (err_Error e) ''no such'' \<or>
                 str_contains (err_Error e) ''does not exist''))"

definition time_Now :: "Env \<Rightarrow> Mem \<Rightarrow> time \<times> Mem" where
  "time_Now env m = (env_clock env (mem_tick m), m\<lparr>mem_tick := Suc (mem_tick m)\<rparr>)"

definition range_keys :: "Env \<Rightarrow> (string \<times> 'v) list \<Rightarrow> Mem \<Rightarrow> string list \<times> Mem" where
  "range_keys env al m = (env_range env (mem_tick m) (map fst al), m\<lparr>mem_tick := Suc (mem_tick m)\<rparr>)"

definition upd_ps :: "(PersistentState \<Rightarrow> PersistentState) \<Rightarrow> Mem \<Rightarrow> Mem" where
  "upd_ps f m = m\<lparr>mem_ps := f (mem_ps m)\<rparr>"

definition put_bot :: "string \<Rightarrow> MasterBot \<Rightarrow> Mem \<Rightarrow> Mem" where
  "put_bot k b = upd_ps (\<lambda>ps. ps\<lparr>ps_bots := AList.update k b (ps_bots ps)\<rparr>)"

definition put_job :: "string \<Rightarrow> MasterJob \<Rightarrow> Mem \<Rightarrow> Mem" where
  "put_job k j = upd_ps (\<lambda>ps. ps\<lparr>ps_jobs := AList.update k j (ps_jobs ps)\<rparr>)"

definition put_access :: "string \<Rightarrow> time \<Rightarrow> Mem \<Rightarrow> Mem" where
  "put_access k t = upd_ps (\<lambda>ps. ps\<lparr>ps_cacheAccessTime := AList.update k t (ps_cacheAccessTime ps)\<rparr>)"

definition count_tx :: "Mem \<Rightarrow> Mem" where
  "count_tx = upd_ps (\<lambda>ps. ps\<lparr>ps_stats := (ps_stats ps)\<lparr>st_TransactionCount := wrap64 (st_TransactionCount (ps_stats ps) + 1)\<rparr>\<rparr>)"

definition cached_bot :: "Mem \<Rightarrow> string \<Rightarrow> MasterBot option" where
  "cached_bot m = map_of (ps_bots (mem_ps m))"

definition cached_job :: "Mem \<Rightarrow> string \<Rightarrow> MasterJob option" where
  "cached_job m = map_of (ps_jobs (mem_ps m))"

text \<open>\<open>retryManager.Execute\<close>: the random numbers of the jitter only change how long it sleeps.\<close>

definition retry_Execute :: "Policy \<Rightarrow> ('s \<Rightarrow> error option \<times> 's) \<Rightarrow> 's \<Rightarrow> error option \<times> 's" where
  "retry_Execute p operation s = (case Manager_Execute p operation (\<lambda>_. 0) s of (r, _, s') \<Rightarrow> (r, s'))"

definition not_found :: "string \<Rightarrow> string \<Rightarrow> string \<Rightarrow> error" where
  "not_found op what k = NewValidationError op (ErrorString (what @ '' not found: '' @ k))"

text \<open>One step of a transaction body that stores a value and returns the wrapped error.\<close>

definition store_step :: "'d MasterDatabase \<Rightarrow> string \<Rightarrow> string \<Rightarrow> dbval \<Rightarrow> 'd \<Rightarrow> error option \<times> 'd" where
  "store_step db op k v d = (case tx_Store db k v d of (None, d') \<Rightarrow> (None, d') | (Some e, d') \<Rightarrow> (Some (NewDatabaseError op e), d'))"

text \<open>The eviction loops: the first key without an access time, or else the oldest of those before the
  current time.\<close>

fun oldest_key :: "(string \<times> time) list \<Rightarrow> string \<Rightarrow> string list \<Rightarrow> string \<Rightarrow> time \<Rightarrow> string" where
  "oldest_key access prefix [] oldestKey oldestTime = oldestKey"
| "oldest_key access prefix (k # ks) oldestKey oldestTime = (case map_of access (prefix @ k) of
       Some t \<Rightarrow> if time_Before t oldestTime then oldest_key access prefix ks k t else oldest_key access prefix ks oldestKey oldestTime
     | None \<Rightarrow> k)"

section \<open>Bots\<close>

definition SaveBotWithRetry :: "'d MasterDatabase \<Rightarrow> MasterBot \<Rightarrow> 'd mworld \<Rightarrow> error option \<times> 'd mworld" where
  "SaveBotWithRetry db b w = retry_Execute (ps_retryManager (mem_ps (snd w))) (\<lambda>(d, m).
     Transaction db (\<lambda>(d, m). case store_step db ''save_bot'' (''bot:'' @ mb_ID b) (VBot b) d of
         (Some e, d') \<Rightarrow> (Some e, (d', m))
       | (None, d') \<Rightarrow> (None, (d', count_tx m)))
     (d, put_bot (mb_ID b) b m)) w"

definition evictOldestBotFromCache :: "Env \<Rightarrow> Mem \<Rightarrow> Mem" where
  "evictOldestBotFromCache env m =
     (let (now, m1) = time_Now env m;
          (ks, m2) = range_keys env (ps_bots (mem_ps m1)) m1;
          k = oldest_key (ps_cacheAccessTime (mem_ps m2)) ''bot:'' ks [] now
      in if k \<noteq> [] then
           upd_ps (\<lambda>ps. ps\<lparr>ps_bots := AList.delete k (ps_bots ps), ps_cacheAccessTime := AList.delete (''bot:'' @ k) (ps_cacheAccessTime ps)\<rparr>) m2
         else m2)"

text \<open>\<open>ps.db.Get\<close> under the retry manager; the value read, if any, is a variable of the caller.\<close>

definition get_with_retry :: "'d MasterDatabase \<Rightarrow> string \<Rightarrow> 'd mworld \<Rightarrow> error option \<times> dbval option \<times> 'd mworld" where
  "get_with_retry db k w =
     (case retry_Execute (ps_retryManager (mem_ps (snd w))) (\<lambda>(v, (d, m)). case db_Get db k d of
            (Inr x, d') \<Rightarrow> (None, (Some x, (d', m)))
          | (Inl e, d') \<Rightarrow> (Some e, (v, (d', m)))) (None, w)
      of (eo, (v, w')) \<Rightarrow> (eo, v, w'))"

definition unmarshal_error :: error where
  "unmarshal_error = NewDatabaseError ''unmarshal_value'' (ErrorString ''json: cannot unmarshal value'')"

definition ps_GetBot :: "'d MasterDatabase \<Rightarrow> Env \<Rightarrow> string \<Rightarrow> 'd mworld \<Rightarrow> MasterBot result \<times> 'd mworld" where
  "ps_GetBot db env botID w = (case cached_bot (snd w) botID of
       Some b \<Rightarrow> (let (now, m1) = time_Now env (snd w) in (Inr b, (fst w, put_access (''bot:'' @ botID) now m1)))
     | None \<Rightarrow> (case get_with_retry db (''bot:'' @ botID) w of
         (Some e, _, w') \<Rightarrow>
           (Inl (if IsNotFoundError (Some e) then not_found ''get_bot'' ''bot'' botID else NewDatabaseError ''get_bot'' e), w')
       | (None, v, w') \<Rightarrow> (case v of
           Some (VBot b) \<Rightarrow> (case cached_bot (snd w') botID of
               Some b' \<Rightarrow> (Inr b', w')
             | None \<Rightarrow>
                 (let m1 = snd w';
                      m2 = (if int (length (ps_bots (mem_ps m1))) \<ge> ps_maxCacheSize (mem_ps m1) then evictOldestBotFromCache env m1 else m1);
                      (now, m3) = time_Now env (put_bot botID b m2)
                  in (Inr b, (fst w', put_access (''bot:'' @ botID) now m3))))
         | _ \<Rightarrow> (Inl (NewDatabaseError ''get_bot'' unmarshal_error), w'))))"

definition delete_bot :: "string \<Rightarrow> Mem \<Rightarrow> Mem" where
  "delete_bot botID = upd_ps (\<lambda>ps. ps\<lparr>ps_bots := AList.delete botID (ps_bots ps),
     ps_cacheAccessTime := AList.delete (''bot:'' @ botID) (ps_cacheAccessTime ps)\<rparr>)"

definition DeleteBot :: "'d MasterDatabase \<Rightarrow> string \<Rightarrow> 'd mworld \<Rightarrow> error option \<times> 'd mworld" where
  "DeleteBot db botID w = retry_Execute (ps_retryManager (mem_ps (snd w))) (\<lambda>(d, m).
     Transaction db (\<lambda>(d, m). case tx_Delete db (''bot:'' @ botID) d of
         (Some e, d') \<Rightarrow> (Some (NewDatabaseError ''delete_bot'' e), (d', m))
       | (None, d') \<Rightarrow> (None, (d', count_tx m)))
     (d, delete_bot botID m)) w"

definition ps_ListBots :: "Env \<Rightarrow> Mem \<Rightarrow> MasterBot list \<times> Mem" where
  "ps_ListBots env m = (let (ks, m') = range_keys env (ps_bots (mem_ps m)) m in (List.map_filter (cached_bot m) ks, m'))"

definition FindTimedOutBots :: "Env \<Rightarrow> Mem \<Rightarrow> string list \<times> Mem" where
  "FindTimedOutBots env m =
     (let (now, m1) = time_Now env m;
          (bs, m2) = ps_ListBots env m1
      in (map mb_ID (filter (\<lambda>b. time_After now (mb_TimeoutAt b) \<and> mb_Status b \<noteq> BotStatusTimedOut) bs), m2))"

definition ResetBot :: "'d MasterDatabase \<Rightarrow> string \<Rightarrow> 'd mworld \<Rightarrow> error option \<times> 'd mworld" where
  "ResetBot db botID w = retry_Execute (ps_retryManager (mem_ps (snd w))) (Transaction db (\<lambda>(d, m).
     case cached_bot m botID of
       None \<Rightarrow> (Some (not_found ''reset_bot'' ''bot'' botID), (d, m))
     | Some b \<Rightarrow>
         let b' = b\<lparr>mb_Status := BotStatusTimedOut, mb_CurrentJob := None, mb_FailureCount := wrap64 (mb_FailureCount b + 1)\<rparr>;
             m1 = put_bot botID b' m
         in case store_step db ''reset_bot'' (''bot:'' @ botID) (VBot b') d of
              (Some e, d') \<Rightarrow> (Some e, (d', m1))
            | (None, d') \<Rightarrow> (None, (d', count_tx (put_bot botID b' m1))))) w"

definition UpdateBotInCache :: "string \<Rightarrow> BotStatus \<Rightarrow> string option \<Rightarrow> time \<Rightarrow> time \<Rightarrow> Mem \<Rightarrow> Mem" where
  "UpdateBotInCache botID status currentJob lastSeen timeoutAt m = (case cached_bot m botID of
       Some b \<Rightarrow> put_bot botID (b\<lparr>mb_Status := status, mb_CurrentJob := currentJob, mb_LastSeen := lastSeen,
         mb_TimeoutAt := timeoutAt, mb_IsOnline := True\<rparr>) m
     | None \<Rightarrow> m)"

definition UpdateBotInCacheForJob :: "Env \<Rightarrow> string \<Rightarrow> string option \<Rightarrow> BotStatus \<Rightarrow> Mem \<Rightarrow> Mem" where
  "UpdateBotInCacheForJob env botID jobID status m = (case cached_bot m botID of
       Some b \<Rightarrow> (let (now, m1) = time_Now env m in put_bot botID (b\<lparr>mb_Status := status, mb_CurrentJob := jobID, mb_LastSeen := now\<rparr>) m1)
     | None \<Rightarrow> m)"

section \<open>Jobs\<close>

definition SaveJobWithRetry :: "'d MasterDatabase \<Rightarrow> MasterJob \<Rightarrow> 'd mworld \<Rightarrow> error option \<times> 'd mworld" where
  "SaveJobWithRetry db j w = retry_Execute (ps_retryManager (mem_ps (snd w))) (\<lambda>(d, m).
     Transaction db (\<lambda>(d, m). case store_step db ''save_job'' (''job:'' @ mj_ID j) (VJob j) d of
         (Some e, d') \<Rightarrow> (Some e, (d', m))
       | (None, d') \<Rightarrow> (None, (d', count_tx m)))
     (d, put_job (mj_ID j) j m)) w"

definition evictOldestJobFromCache :: "Env \<Rightarrow> Mem \<Rightarrow> Mem" where
  "evictOldestJobFromCache env m =
     (let (now, m1) = time_Now env m;
          (ks, m2) = range_keys env (ps_jobs (mem_ps m1)) m1;
          k = oldest_key (ps_cacheAccessTime (mem_ps m2)) ''job:'' ks [] now
      in if k \<noteq> [] then
           upd_ps (\<lambda>ps. ps\<lparr>ps_jobs := AList.delete k (ps_jobs ps), ps_cacheAccessTime := AList.delete (''job:'' @ k) (ps_cacheAccessTime ps)\<rparr>) m2
         else m2)"

definition job_lookup_error :: "string \<Rightarrow> error \<Rightarrow> error" where
  "job_lookup_error jobID e = (if IsNotFoundError (Some e) then not_found ''get_job'' ''job'' jobID else NewDatabaseError ''get_job'' e)"

definition GetJob :: "'d MasterDatabase \<Rightarrow> Env \<Rightarrow> string \<Rightarrow> 'd mworld \<Rightarrow> MasterJob result \<times> 'd mworld" where
  "GetJob db env jobID w = (case cached_job (snd w) jobID of
       Some j \<Rightarrow> (let (now, m1) = time_Now env (snd w) in (Inr j, (fst w, put_access (''job:'' @ jobID) now m1)))
     | None \<Rightarrow>
         if db_isSQLite db then (case db_GetJob db jobID (fst w) of
             (Inl e, d') \<Rightarrow> (Inl (job_lookup_error jobID e), (d', snd w))
           | (Inr j, d') \<Rightarrow> (let (now, m1) = time_Now env (put_job jobID j (snd w)) in (Inr j, (d', put_access (''job:'' @ jobID) now m1))))
         else (case get_with_retry db (''job:'' @ jobID) w of
             (Some e, _, w') \<Rightarrow> (Inl (job_lookup_error jobID e), w')
           | (None, v, w') \<Rightarrow> (case v of
               Some (VJob j) \<Rightarrow> (case cached_job (snd w') jobID of
                   Some j' \<Rightarrow> (Inr j', w')
                 | None \<Rightarrow>
                     (let m1 = snd w';
                          m2 = (if int (length (ps_jobs (mem_ps m1))) \<ge> ps_maxCacheSize (mem_ps m1) then evictOldestJobFromCache env m1 else m1);
                          (now, m3) = time_Now env (put_job jobID j m2)
                      in (Inr j, (fst w', put_access (''job:'' @ jobID) now m3))))
             | _ \<Rightarrow> (Inl (NewDatabaseError ''get_job'' unmarshal_error), w'))))"

definition delete_job :: "string \<Rightarrow> Mem \<Rightarrow> Mem" where
  "delete_job jobID = upd_ps (\<lambda>ps. ps\<lparr>ps_jobs := AList.delete jobID (ps_jobs ps),
     ps_cacheAccessTime := AList.delete (''job:'' @ jobID) (ps_cacheAccessTime ps)\<rparr>)"

definition DeleteJob :: "'d MasterDatabase \<Rightarrow> string \<Rightarrow> 'd mworld \<Rightarrow> error option \<times> 'd mworld" where
  "DeleteJob db jobID w = retry_Execute (ps_retryManager (mem_ps (snd w))) (\<lambda>(d, m).
     Transaction db (\<lambda>(d, m). case tx_Delete db (''job:'' @ jobID) d of
         (Some e, d') \<Rightarrow> (Some (NewDatabaseError ''delete_job'' e), (d', m))
       | (None, d') \<Rightarrow> (None, (d', count_tx m)))
     (d, delete_job jobID m)) w"

definition cache_jobs :: "Env \<Rightarrow> Mem \<Rightarrow> MasterJob list \<times> Mem" where
  "cache_jobs env m = (let (ks, m') = range_keys env (ps_jobs (mem_ps m)) m in (List.map_filter (cached_job m) ks, m'))"

definition ListJobs :: "'d MasterDatabase \<Rightarrow> Env \<Rightarrow> 'd mworld \<Rightarrow> MasterJob list \<times> 'd mworld" where
  "ListJobs db env w =
     (if db_isSQLite db then (case db_ListJobs db (fst w) of
          (Inl e, d') \<Rightarrow> (let (js, m') = cache_jobs env (snd w) in (js, (d', m')))
        | (Inr js, d') \<Rightarrow> (js, (d', fold (\<lambda>j. put_job (mj_ID j) j) js (snd w))))
      else (let (js, m') = cache_jobs env (snd w) in (js, (fst w, m'))))"

section \<open>Assignment and completion\<close>

definition normalizeCapability :: "string \<Rightarrow> string" where
  "normalizeCapability s =
     (let c = to_lower (trim_space s)
      in if c = ''aflplusplus'' \<or> c = ''afl++'' then ''afl++''
         else if c = ''libfuzzer'' then ''libfuzzer''
         else if c = ''honggfuzz'' then ''honggfuzz''
         else c)"

definition normalizeFuzzer :: "string \<Rightarrow> string" where
  "normalizeFuzzer s =
     (let f = to_lower (trim_space s)
      in if f = ''aflplusplus'' \<or> f = ''afl++'' then ''afl++''
         else if f = ''libfuzzer'' then ''libfuzzer''
         else if f = ''honggfuzz'' then ''honggfuzz''
         else f)"

definition available_for :: "time \<Rightarrow> MasterBot \<Rightarrow> MasterJob \<Rightarrow> bool" where
  "available_for now b j \<longleftrightarrow> mj_Status j = JobPending \<and> time_Before now (mj_TimeoutAt j) \<and>
     normalizeFuzzer (mj_Fuzzer j) \<in> set (map normalizeCapability (mb_Capabilities b))"

text \<open>The job found is the cache entry of the returned key.\<close>

definition findAvailableJobTx :: "Env \<Rightarrow> string \<Rightarrow> Mem \<Rightarrow> (string \<times> MasterJob) option result \<times> Mem" where
  "findAvailableJobTx env botID m = (case cached_bot m botID of
       None \<Rightarrow> (Inl (ErrorString (''bot not found: '' @ botID)), m)
     | Some b \<Rightarrow>
         (let (now, m1) = time_Now env m;
              (ks, m2) = range_keys env (ps_jobs (mem_ps m1)) m1
          in (Inr (List.find (\<lambda>(_, j). available_for now b j)
                     (List.map_filter (\<lambda>k. map_option (Pair k) (cached_job m2 k)) ks)), m2)))"

text \<open>The transaction body of \<open>AtomicJobAssignmentWithRetry\<close>. It captures \<open>b\<close>, the caller's copy of the
  bot, and \<open>asg\<close>, the variable \<open>assignedJob\<close>: the key of the cache entry it points to.\<close>

definition assignment_body ::
    "'d MasterDatabase \<Rightarrow> Env \<Rightarrow> string \<Rightarrow> 'd \<times> (Mem \<times> MasterBot \<times> string option) \<Rightarrow>
       error option \<times> ('d \<times> (Mem \<times> MasterBot \<times> string option))" where
  "assignment_body db env botID = (\<lambda>(d, (m, b, asg)). case findAvailableJobTx env botID m of
       (Inl e, m1) \<Rightarrow> (Some e, (d, (m1, b, asg)))
     | (Inr None, m1) \<Rightarrow>
         (Some (NewValidationError ''job_assignment'' (ErrorString ''no jobs available for bot capabilities'')), (d, (m1, b, asg)))
     | (Inr (Some (k, j)), m1) \<Rightarrow>
         if mb_Status b \<noteq> BotStatusIdle then
           (Some (NewValidationError ''job_assignment'' (ErrorString (''bot not available: '' @ BotStatus_String (mb_Status b)))),
             (d, (m1, b, asg)))
         else
           (let (now, m2) = time_Now env m1;
                j' = j\<lparr>mj_Status := JobAssigned, mj_AssignedBot := Some botID, mj_StartedAt := Some now\<rparr>;
                m3 = put_job k j' m2;
                b' = b\<lparr>mb_Status := BotStatusBusy, mb_CurrentJob := Some (mj_ID j), mb_LastSeen := now\<rparr>;
                asgn = \<lparr>ja_JobID = mj_ID j, ja_BotID = botID, ja_Timestamp = now, ja_Status = ''assigned''\<rparr>
            in case store_step db ''save_job_assignment'' (''job:'' @ mj_ID j) (VJob j') d of
                 (Some e, d1) \<Rightarrow> (Some e, (d1, (m3, b', asg)))
               | (None, d1) \<Rightarrow> (case store_step db ''save_bot_assignment'' (''bot:'' @ botID) (VBot b') d1 of
                   (Some e, d2) \<Rightarrow> (Some e, (d2, (m3, b', asg)))
                 | (None, d2) \<Rightarrow> (case store_step db ''save_assignment'' (''assignment:'' @ mj_ID j) (VAssignment asgn) d2 of
                     (Some e, d3) \<Rightarrow> (Some e, (d3, (m3, b', asg)))
                   | (None, d3) \<Rightarrow> (None, (d3, (m3, b', Some k)))))))"

definition assignment_attempt ::
    "'d MasterDatabase \<Rightarrow> Env \<Rightarrow> string \<Rightarrow> 'd \<times> (Mem \<times> string option) \<Rightarrow> error option \<times> ('d \<times> (Mem \<times> string option))" where
  "assignment_attempt db env botID = (\<lambda>(d, (m, asg)). case cached_bot m botID of
       None \<Rightarrow> (Some (not_found ''job_assignment'' ''bot'' botID), (d, (m, asg)))
     | Some b \<Rightarrow> (case Transaction db (assignment_body db env botID) (d, (m, b, asg)) of
         (eo, (d', (m', _, asg'))) \<Rightarrow> (eo, (d', (m', asg')))))"

definition AtomicJobAssignmentWithRetry ::
    "'d MasterDatabase \<Rightarrow> Env \<Rightarrow> string \<Rightarrow> 'd mworld \<Rightarrow> MasterJob option \<times> error option \<times> 'd mworld" where
  "AtomicJobAssignmentWithRetry db env botID w =
     (case retry_Execute (ps_retryManager (mem_ps (snd w))) (assignment_attempt db env botID) (fst w, (snd w, None)) of
        (eo, (d, (m, asg))) \<Rightarrow> (case Option.bind asg (cached_job m) of
          None \<Rightarrow> (None, eo, (d, m))
        | Some j \<Rightarrow>
            if eo \<noteq> None then (Some j, eo, (d, m))
            else
              (let m1 = put_job (mj_ID j) j m;
                   m2 = (case cached_bot m1 botID of
                       Some b \<Rightarrow> (let (now, m') = time_Now env m1
                                in put_bot botID (b\<lparr>mb_Status := BotStatusBusy, mb_CurrentJob := Some (mj_ID j), mb_LastSeen := now\<rparr>) m')
                     | None \<Rightarrow> m1)
               in (Some j, None, (d, count_tx m2)))))"

definition UpdateJobStatusToTimedOut :: "'d MasterDatabase \<Rightarrow> Env \<Rightarrow> string \<Rightarrow> 'd mworld \<Rightarrow> error option \<times> 'd mworld" where
  "UpdateJobStatusToTimedOut db env jobID w = retry_Execute (ps_retryManager (mem_ps (snd w))) (Transaction db (\<lambda>(d, m).
     case cached_job m jobID of
       None \<Rightarrow> (Some (not_found ''update_job_timeout'' ''job'' jobID), (d, m))
     | Some j \<Rightarrow>
         if mj_Status j \<noteq> JobPending then (None, (d, m))
         else
           (let (now, m1) = time_Now env m;
                md = map_put (map_put (mj_Metadata j) ''failure_reason'' (AString ''timeout'')) ''timed_out_at'' (AString (env_format env now));
                j' = j\<lparr>mj_Status := JobFailed, mj_CompletedAt := Some now, mj_Metadata := md\<rparr>;
                m2 = put_job jobID j' m1
            in case store_step db ''save_job_timeout'' (''job:'' @ jobID) (VJob j') d of
                 (Some e, d') \<Rightarrow> (Some e, (d', m2))
               | (None, d') \<Rightarrow> (None, (d', count_tx m2))))) w"

definition complete_body ::
    "'d MasterDatabase \<Rightarrow> Env \<Rightarrow> string \<Rightarrow> string \<Rightarrow> bool \<Rightarrow> 'd mworld \<Rightarrow> error option \<times> 'd mworld" where
  "complete_body db env jobID botID success = (\<lambda>(d, m). case cached_job m jobID of
       None \<Rightarrow> (Some (not_found ''complete_job'' ''job'' jobID), (d, m))
     | Some j \<Rightarrow> (case cached_bot m botID of
         None \<Rightarrow> (Some (not_found ''complete_job'' ''bot'' botID), (d, m))
       | Some b \<Rightarrow>
           if mj_AssignedBot j \<noteq> Some botID then
             (Some (NewValidationError ''complete_job'' (ErrorString ''job not assigned to bot'')), (d, m))
           else
             (let (now, m1) = time_Now env m;
                  j' = j\<lparr>mj_Status := (if success then JobCompleted else JobFailed), mj_CompletedAt := Some now, mj_AssignedBot := None\<rparr>;
                  b' = b\<lparr>mb_Status := BotStatusIdle, mb_CurrentJob := None, mb_LastSeen := now\<rparr>;
                  m2 = put_bot botID b' (put_job jobID j' m1);
                  asgn = \<lparr>ja_JobID = jobID, ja_BotID = botID, ja_Timestamp = now, ja_Status = ''completed''\<rparr>
              in case store_step db ''save_job_completion'' (''job:'' @ jobID) (VJob j') d of
                   (Some e, d1) \<Rightarrow> (Some e, (d1, m2))
                 | (None, d1) \<Rightarrow> (case store_step db ''save_bot_completion'' (''bot:'' @ botID) (VBot b') d1 of
                     (Some e, d2) \<Rightarrow> (Some e, (d2, m2))
                   | (None, d2) \<Rightarrow> (case store_step db ''save_assignment_completion'' (''assignment:'' @ jobID) (VAssignment asgn) d2 of
                       (Some e, d3) \<Rightarrow> (Some e, (d3, m2))
                     | (None, d3) \<Rightarrow> (None, (d3, count_tx (put_bot botID b' (put_job jobID j' m2)))))))))"

definition CompleteJobWithRetry ::
    "'d MasterDatabase \<Rightarrow> Env \<Rightarrow> string \<Rightarrow> string \<Rightarrow> bool \<Rightarrow> 'd mworld \<Rightarrow> error option \<times> 'd mworld" where
  "CompleteJobWithRetry db env jobID botID success w =
     retry_Execute (ps_retryManager (mem_ps (snd w))) (Transaction db (complete_body db env jobID botID success)) w"

definition UpdateJobInCache :: "MasterJob \<Rightarrow> Mem \<Rightarrow> Mem" where
  "UpdateJobInCache j m = put_job (mj_ID j) j m"

definition UpdateJobStatusInCache :: "string \<Rightarrow> MasterJobStatus \<Rightarrow> time option \<Rightarrow> Mem \<Rightarrow> Mem" where
  "UpdateJobStatusInCache jobID status completedAt m = (case cached_job m jobID of
       Some j \<Rightarrow> put_job jobID (j\<lparr>mj_Status := status, mj_CompletedAt := completedAt,
         mj_AssignedBot := (if completedAt \<noteq> None then None else mj_AssignedBot j)\<rparr>) m
     | None \<Rightarrow> m)"

definition GetCampaignJobs :: "'d MasterDatabase \<Rightarrow> Env \<Rightarrow> string \<Rightarrow> 'd mworld \<Rightarrow> MasterJob list \<times> 'd mworld" where
  "GetCampaignJobs db env campaignID w =
     (let (js, w') = ListJobs db env w in (filter (\<lambda>j. mj_CampaignID j = Some campaignID) js, w'))"

definition GetJobsInTimeRange :: "'d MasterDatabase \<Rightarrow> Env \<Rightarrow> time \<Rightarrow> time \<Rightarrow> 'd mworld \<Rightarrow> MasterJob list \<times> 'd mworld" where
  "GetJobsInTimeRange db env startTime endTime w =
     (let (js, w') = ListJobs db env w
      in (filter (\<lambda>j. time_After (mj_CreatedAt j) startTime \<and> time_Before (mj_CreatedAt j) endTime) js, w'))"

section \<open>Orphaned jobs, metadata and cache maintenance\<close>

definition gracePeriod :: duration where "gracePeriod = 10 * Second"

definition orphaned :: "time \<Rightarrow> Mem \<Rightarrow> MasterJob \<Rightarrow> bool" where
  "orphaned now m j =
     (if mj_Status j \<noteq> JobAssigned \<and> mj_Status j \<noteq> JobStarting \<and> mj_Status j \<noteq> JobRunning then False
      else case mj_AssignedBot j of
        None \<Rightarrow> True
      | Some botID \<Rightarrow> (case cached_bot m botID of
          None \<Rightarrow> True
        | Some b \<Rightarrow>
            if mb_Status b = BotStatusFailed \<or> mb_Status b = BotStatusTimedOut \<or> \<not> mb_IsOnline b then True
            else if (\<exists>t \<in> set_option (mj_LeaseExpiresAt j). time_After (time_Add now (- gracePeriod)) t) then True
            else time_After now (time_Add (mj_TimeoutAt j) gracePeriod) \<and> mb_CurrentJob b \<noteq> Some (mj_ID j)))"

definition FindOrphanedJobs :: "Env \<Rightarrow> Mem \<Rightarrow> MasterJob list \<times> Mem" where
  "FindOrphanedJobs env m =
     (let (now, m1) = time_Now env m; (js, m2) = cache_jobs env m1 in (filter (orphaned now m2) js, m2))"

definition put_metadata :: "string \<Rightarrow> dbval \<Rightarrow> Mem \<Rightarrow> Mem" where
  "put_metadata k v = upd_ps (\<lambda>ps. ps\<lparr>ps_metadata := AList.update k v (ps_metadata ps)\<rparr>)"

definition SetMetadata :: "'d MasterDatabase \<Rightarrow> string \<Rightarrow> dbval \<Rightarrow> 'd mworld \<Rightarrow> error option \<times> 'd mworld" where
  "SetMetadata db k v w = retry_Execute (ps_retryManager (mem_ps (snd w))) (\<lambda>(d, m).
     Transaction db (\<lambda>(d, m). case store_step db ''set_metadata'' (''metadata:'' @ k) v d of
         (Some e, d') \<Rightarrow> (Some e, (d', m))
       | (None, d') \<Rightarrow> (None, (d', count_tx m)))
     (d, put_metadata k v m)) w"

definition GetMetadata :: "'d MasterDatabase \<Rightarrow> string \<Rightarrow> 'd mworld \<Rightarrow> dbval result \<times> 'd mworld" where
  "GetMetadata db k w = (case map_of (ps_metadata (mem_ps (snd w))) k of
       Some v \<Rightarrow> (Inr v, w)
     | None \<Rightarrow> (case get_with_retry db (''metadata:'' @ k) w of
         (Some e, _, w') \<Rightarrow>
           (Inl (if IsNotFoundError (Some e) then not_found ''get_metadata'' ''metadata'' k else NewDatabaseError ''get_metadata'' e), w')
       | (None, v, w') \<Rightarrow> (case map_of (ps_metadata (mem_ps (snd w'))) k of
           Some v' \<Rightarrow> (Inr v', w')
         | None \<Rightarrow> (let x = (case v of Some x \<Rightarrow> x | None \<Rightarrow> VAny ANil) in (Inr x, (fst w', put_metadata k x (snd w')))))))"

definition state_GetStats :: "PersistentState \<Rightarrow> StateStats" where
  "state_GetStats ps = (ps_stats ps)\<lparr>st_BotsRegistered := int (length (ps_bots ps)), st_JobsCreated := int (length (ps_jobs ps))\<rparr>"

definition cleanupCacheAccessTimes :: "PersistentState \<Rightarrow> PersistentState" where
  "cleanupCacheAccessTimes ps = ps\<lparr>ps_cacheAccessTime := filter (\<lambda>(k, _).
       if has_prefix k ''bot:'' then map_of (ps_bots ps) (drop 4 k) \<noteq> None
       else if has_prefix k ''job:'' then map_of (ps_jobs ps) (drop 4 k) \<noteq> None
       else True) (ps_cacheAccessTime ps)\<rparr>"

section \<open>The contract of the database\<close>

locale master_database = transactional db committed working
  for db :: "'d MasterDatabase" and committed working +
  assumes GetJob_law: "db_GetJob db k d = (r, d') \<Longrightarrow> committed d' = committed d"
    and ListJobs_law: "db_ListJobs db d = (rs, d') \<Longrightarrow> committed d' = committed d"

section \<open>A database in memory\<close>

text \<open>An instance of the contract: committed and working data, and a script of the faults of the next
  calls (none once the script is used up).\<close>

record memDB =
  md_committed :: "(string \<times> dbval) list"
  md_working :: "(string \<times> dbval) list"
  md_faults :: "error option list"

definition md_op :: "(memDB \<Rightarrow> memDB) \<Rightarrow> memDB \<Rightarrow> error option \<times> memDB" where
  "md_op f d = (case md_faults d of
       [] \<Rightarrow> (None, f d)
     | None # fs \<Rightarrow> (None, f (d\<lparr>md_faults := fs\<rparr>))
     | Some e # fs \<Rightarrow> (Some e, d\<lparr>md_faults := fs\<rparr>))"

definition as_job :: "string \<times> dbval \<Rightarrow> MasterJob option" where
  "as_job kv = (case snd kv of VJob j \<Rightarrow> Some j | _ \<Rightarrow> None)"

definition mem_database :: "memDB MasterDatabase" where
  "mem_database = \<lparr>db_Begin = md_op (\<lambda>d. d\<lparr>md_working := md_committed d\<rparr>),
     tx_Store = (\<lambda>k v. md_op (\<lambda>d. d\<lparr>md_working := AList.update k v (md_working d)\<rparr>)),
     tx_Delete = (\<lambda>k. md_op (\<lambda>d. d\<lparr>md_working := AList.delete k (md_working d)\<rparr>)),
     tx_Commit = md_op (\<lambda>d. d\<lparr>md_committed := md_working d\<rparr>),
     tx_Rollback = (\<lambda>d. (None, d)),
     db_Get = (\<lambda>k d. (case map_of (md_committed d) k of Some v \<Rightarrow> Inr v | None \<Rightarrow> Inl (ErrorString ''key not found''), d)),
     db_IsHealthy = (\<lambda>d. (True, d)), db_CtxErr = (\<lambda>d. (None, d)), db_RetryOptions = DefaultRetryOptions,
     db_isSQLite = True,
     db_GetJob = (\<lambda>k d. (case Option.bind (map_of (md_committed d) (''job:'' @ k)) (\<lambda>v. as_job (k, v)) of
         Some j \<Rightarrow> Inr j | None \<Rightarrow> Inl (ErrorString ''key not found''), d)),
     db_ListJobs = (\<lambda>d. (Inr (List.map_filter as_job (md_committed d)), d))\<rparr>"

definition md_store :: "memDB \<Rightarrow> string \<rightharpoonup> dbval" where "md_store d = map_of (md_committed d)"
definition md_view :: "memDB \<Rightarrow> string \<rightharpoonup> dbval" where "md_view d = map_of (md_working d)"

lemma md_op_cases:
  assumes "md_op f d = (eo, d')"
  shows "(\<exists>fs. eo = None \<and> d' = f (d\<lparr>md_faults := fs\<rparr>)) \<or> (\<exists>fs e. eo = Some e \<and> d' = d\<lparr>md_faults := fs\<rparr>)"
proof (cases "md_faults d")
  case Nil
  then have "d\<lparr>md_faults := []\<rparr> = d" by (cases d) simp
  moreover have "eo = None" "d' = f d" using assms Nil by (simp_all add: md_op_def)
  ultimately have "eo = None \<and> d' = f (d\<lparr>md_faults := []\<rparr>)" by simp
  then show ?thesis by blast
next
  case (Cons a list)
  then show ?thesis using assms by (cases a) (auto simp: md_op_def)
qed

interpretation mem_db: master_database mem_database md_store md_view
  by unfold_locales (auto simp: mem_database_def md_store_def md_view_def update_conv' delete_conv' fun_upd_def dest!: md_op_cases)

section \<open>Lemmas\<close>

lemma put_simps [simp]:
  "cached_bot (put_bot k b m) = (cached_bot m)(k \<mapsto> b)" "cached_job (put_bot k b m) = cached_job m"
  "cached_job (put_job k j m) = (cached_job m)(k \<mapsto> j)" "cached_bot (put_job k j m) = cached_bot m"
  "cached_bot (put_access k t m) = cached_bot m" "cached_job (put_access k t m) = cached_job m"
  "cached_bot (count_tx m) = cached_bot m" "cached_job (count_tx m) = cached_job m"
  "cached_bot (m\<lparr>mem_tick := n\<rparr>) = cached_bot m" "cached_job (m\<lparr>mem_tick := n\<rparr>) = cached_job m"
  by (simp_all add: put_bot_def put_job_def put_access_def count_tx_def upd_ps_def cached_bot_def cached_job_def update_conv')

lemma put_policy [simp]:
  "ps_retryManager (mem_ps (put_bot k b m)) = ps_retryManager (mem_ps m)"
  "ps_retryManager (mem_ps (put_job k j m)) = ps_retryManager (mem_ps m)"
  "ps_retryManager (mem_ps (put_access k t m)) = ps_retryManager (mem_ps m)"
  "ps_retryManager (mem_ps (count_tx m)) = ps_retryManager (mem_ps m)"
  by (simp_all add: put_bot_def put_job_def put_access_def count_tx_def upd_ps_def)

text \<open>Rules for one operation: the retry manager around the store's own retries.\<close>

lemma retry_Execute_rule:
  assumes "I s" and "\<And>s. I s \<Longrightarrow> (case operation s of (None, s') \<Rightarrow> Q s' | (Some e, s') \<Rightarrow> I s')"
  shows "case retry_Execute p operation s of (None, s') \<Rightarrow> Q s' | (Some e, s') \<Rightarrow> I s'"
  using exec_loop_rule [where I = I and s = s and operation = operation and Q = Q and p = p and rnd = "\<lambda>_. 0" and attempt = 0
      and delay = "pol_InitialDelay p" and lastErr = None, OF assms]
  by (auto simp: retry_Execute_def Manager_Execute_def split: prod.splits option.splits)

lemma retried_Transaction_rule:
  fixes fn :: "'d \<times> 'm \<Rightarrow> error option \<times> ('d \<times> 'm)"
  assumes "I m" and body: "\<And>d x. I x \<Longrightarrow> (case fn (d, x) of (eo, (d', x')) \<Rightarrow> I x' \<and> (eo = None \<longrightarrow> Q x'))"
  shows "case retry_Execute p (Transaction db fn) (d, m) of (None, (d', m')) \<Rightarrow> Q m' | (Some e, (d', m')) \<Rightarrow> I m'"
proof -
  have "case retry_Execute p (Transaction db fn) (d, m) of (None, s') \<Rightarrow> Q (snd s') | (Some e, s') \<Rightarrow> I (snd s')"
  proof (rule retry_Execute_rule)
    fix s :: "'d \<times> 'm"
    assume "I (snd s)"
    then have "case Transaction db fn s of (None, (d', x')) \<Rightarrow> Q x' | (Some e, (d', x')) \<Rightarrow> I x'"
      by (rule Transaction_mem_rule) (erule body)
    then show "case Transaction db fn s of (None, s') \<Rightarrow> Q (snd s') | (Some e, s') \<Rightarrow> I (snd s')"
      by (auto split: prod.splits option.splits)
  qed (simp add: assms(1))
  then show ?thesis by (auto split: prod.splits option.splits)
qed

lemma find_SomeD: "List.find P xs = Some x \<Longrightarrow> x \<in> set xs \<and> P x"
  by (auto simp: find_Some_iff)

lemma set_map_filter_iff: "y \<in> set (List.map_filter f xs) \<longleftrightarrow> (\<exists>x \<in> set xs. f x = Some y)"
  by (induction xs) (auto simp: List.map_filter_simps split: option.splits)

lemma find_available:
  assumes "findAvailableJobTx env botID m = (r, m')"
  shows "(\<exists>n. m' = m\<lparr>mem_tick := n\<rparr>) \<and> (case r of
      Inl e \<Rightarrow> cached_bot m botID = None
    | Inr None \<Rightarrow> True
    | Inr (Some (k, j)) \<Rightarrow> cached_job m k = Some j \<and> (\<exists>b now. cached_bot m botID = Some b \<and> available_for now b j))"
proof (cases "cached_bot m botID")
  case None
  have "\<exists>n. m = m\<lparr>mem_tick := n\<rparr>" by (rule exI [of _ "mem_tick m"]) simp
  then show ?thesis using None assms by (auto simp: findAvailableJobTx_def)
next
  case (Some b)
  then show ?thesis using assms
    by (auto simp: findAvailableJobTx_def time_Now_def range_keys_def set_map_filter_iff dest!: sym [of _ r] find_SomeD
        split: option.splits)
qed

text \<open>What a failed attempt keeps: the bots, the persisted data and every job that is still pending.\<close>

definition assign_inv :: "Mem \<Rightarrow> Mem \<Rightarrow> bool" where
  "assign_inv m0 m \<longleftrightarrow> cached_bot m = cached_bot m0 \<and>
     (\<forall>k j. cached_job m k = Some j \<and> mj_Status j = JobPending \<longrightarrow> cached_job m0 k = Some j)"

definition assigned_to :: "string \<Rightarrow> time \<Rightarrow> MasterJob \<Rightarrow> MasterJob" where
  "assigned_to botID t j = j\<lparr>mj_Status := JobAssigned, mj_AssignedBot := Some botID, mj_StartedAt := Some t\<rparr>"

definition busy_with :: "string \<Rightarrow> time \<Rightarrow> MasterBot \<Rightarrow> MasterBot" where
  "busy_with jobID t b = b\<lparr>mb_Status := BotStatusBusy, mb_CurrentJob := Some jobID, mb_LastSeen := t\<rparr>"

definition assignment_of :: "string \<Rightarrow> string \<Rightarrow> time \<Rightarrow> JobAssignment" where
  "assignment_of jobID botID t = \<lparr>ja_JobID = jobID, ja_BotID = botID, ja_Timestamp = t, ja_Status = ''assigned''\<rparr>"

text \<open>What a successful assignment of the job cached under \<open>k\<close> establishes.\<close>

definition assign_done :: "string \<Rightarrow> Mem \<Rightarrow> (string \<rightharpoonup> dbval) \<Rightarrow> (string \<rightharpoonup> dbval) \<Rightarrow> Mem \<Rightarrow> string \<Rightarrow> bool" where
  "assign_done botID m0 old new m k \<longleftrightarrow> assign_inv m0 m \<and> (\<exists>j b t now.
     cached_bot m0 botID = Some b \<and> mb_Status b = BotStatusIdle \<and> cached_job m0 k = Some j \<and> available_for now b j \<and>
     cached_job m k = Some (assigned_to botID t j) \<and>
     new = old(''job:'' @ mj_ID j \<mapsto> VJob (assigned_to botID t j), ''bot:'' @ botID \<mapsto> VBot (busy_with (mj_ID j) t b),
       ''assignment:'' @ mj_ID j \<mapsto> VAssignment (assignment_of (mj_ID j) botID t)))"

lemma assign_inv_tick: "assign_inv m0 m \<Longrightarrow> assign_inv m0 (m\<lparr>mem_tick := n\<rparr>)"
  by (simp add: assign_inv_def)

context master_database
begin

lemma store_step_law:
  "store_step db op k v d = (eo, d') \<Longrightarrow> committed d' = committed d \<and> (eo = None \<longrightarrow> working d' = (working d)(k \<mapsto> v))"
  by (auto simp: store_step_def split: prod.splits option.splits dest: Store_law)

lemma assignment_body_law:
  assumes "committed d = M" "working d = M" "assign_inv m0 m" "cached_bot m0 botID = Some b0"
    and "mb_Status b = BotStatusIdle \<Longrightarrow> b = b0"
    and body: "assignment_body db env botID (d, (m, b, asg)) = (eo, (d', (m', b', asg')))"
  shows "committed d' = M \<and> assign_inv m0 m' \<and> (mb_Status b' = BotStatusIdle \<longrightarrow> b' = b0) \<and>
    (eo = None \<longrightarrow> (\<exists>k. asg' = Some k \<and> assign_done botID m0 M (working d') m' k))"
proof -
  obtain r m1 where f: "findAvailableJobTx env botID m = (r, m1)" by fastforce
  note fa = find_available [OF f]
  then obtain n where m1: "m1 = m\<lparr>mem_tick := n\<rparr>" by blast
  show ?thesis
  proof (cases "\<exists>k j. r = Inr (Some (k, j)) \<and> mb_Status b = BotStatusIdle")
    case False
    then show ?thesis using body f m1 assms(1-5)
      by (auto simp: assignment_body_def assign_inv_tick split: sum.splits option.splits if_splits)
  next
    case True
    then obtain k j where r: "r = Inr (Some (k, j))" and b: "mb_Status b = BotStatusIdle" "b = b0" using assms(5) by blast
    have j: "cached_job m k = Some j" "mj_Status j = JobPending" and av: "\<exists>now. available_for now b0 j"
      using fa r assms(3,4) by (auto simp: assign_inv_def available_for_def)
    define t where "t = env_clock env n"
    define m3 where "m3 = put_job k (assigned_to botID t j) (m\<lparr>mem_tick := Suc n\<rparr>)"
    have inv: "assign_inv m0 m3" using assms(3) by (simp add: assign_inv_def m3_def assigned_to_def)
    obtain e1 d1 where s1: "store_step db ''save_job_assignment'' (''job:'' @ mj_ID j) (VJob (assigned_to botID t j)) d = (e1, d1)" by fastforce
    obtain e2 d2 where s2: "store_step db ''save_bot_assignment'' (''bot:'' @ botID) (VBot (busy_with (mj_ID j) t b)) d1 = (e2, d2)" by fastforce
    obtain e3 d3 where s3: "store_step db ''save_assignment'' (''assignment:'' @ mj_ID j) (VAssignment (assignment_of (mj_ID j) botID t)) d2 = (e3, d3)" by fastforce
    note laws = store_step_law [OF s1] store_step_law [OF s2] store_step_law [OF s3]
    have run: "(eo, (d', (m', b', asg'))) =
        (if e1 \<noteq> None then (e1, (d1, (m3, busy_with (mj_ID j) t b, asg)))
         else if e2 \<noteq> None then (e2, (d2, (m3, busy_with (mj_ID j) t b, asg)))
         else if e3 \<noteq> None then (e3, (d3, (m3, busy_with (mj_ID j) t b, asg)))
         else (None, (d3, (m3, busy_with (mj_ID j) t b, Some k))))"
      using body f r b m1 s1 s2 s3
      by (auto simp: assignment_body_def time_Now_def m3_def t_def assigned_to_def busy_with_def assignment_of_def split: option.splits)
    have upd: "assign_done botID m0 M (working d3) m3 k" if "e1 = None" "e2 = None" "e3 = None"
      unfolding assign_done_def
    proof (intro conjI exI)
      show "cached_job m0 k = Some j" using assms(3) j by (simp add: assign_inv_def)
      show "working d3 = M(''job:'' @ mj_ID j \<mapsto> VJob (assigned_to botID t j), ''bot:'' @ botID \<mapsto> VBot (busy_with (mj_ID j) t b0),
          ''assignment:'' @ mj_ID j \<mapsto> VAssignment (assignment_of (mj_ID j) botID t))"
        using laws that assms(2) b(2) by simp
      show "available_for (SOME now. available_for now b0 j) b0 j" using av by (rule someI_ex)
    qed (use inv assms(4) b in \<open>simp_all add: m3_def\<close>)
    show ?thesis using run laws inv assms(1) upd
      by (auto simp: busy_with_def split: if_splits)
  qed
qed

lemma assignment_attempt_law:
  assumes "committed d = M" "assign_inv m0 m"
  shows "case assignment_attempt db env botID (d, (m, asg)) of
      (None, (d', (m', asg'))) \<Rightarrow> \<exists>k. asg' = Some k \<and> assign_done botID m0 M (committed d') m' k
    | (Some e, (d', (m', asg'))) \<Rightarrow> committed d' = M \<and> assign_inv m0 m'"
proof (cases "cached_bot m botID")
  case None
  then show ?thesis using assms by (simp add: assignment_attempt_def)
next
  case (Some b)
  let ?I = "\<lambda>(m, b', asg :: string option). assign_inv m0 m \<and> (mb_Status b' = BotStatusIdle \<longrightarrow> b' = b)"
  let ?Q = "\<lambda>M' (m, b', asg). \<exists>k. asg = Some k \<and> assign_done botID m0 M M' m k"
  have b: "cached_bot m0 botID = Some b" using Some assms(2) by (simp add: assign_inv_def)
  have "case Transaction db (assignment_body db env botID) (d, (m, b, asg)) of
      (None, (d', x')) \<Rightarrow> ?Q (committed d') x' | (Some e, (d', x')) \<Rightarrow> committed d' = M \<and> ?I x'"
  proof (rule Transaction_rule)
    fix d x
    assume d: "committed d = M" "working d = M" and x: "?I x"
    obtain m1 b1 a1 where x': "x = (m1, b1, a1)" by (metis prod_cases3)
    obtain eo d' m' b' a' where run: "assignment_body db env botID (d, (m1, b1, a1)) = (eo, (d', (m', b', a')))" by (metis prod_cases5)
    show "case assignment_body db env botID (d, x) of
        (eo, (d', x')) \<Rightarrow> committed d' = M \<and> ?I x' \<and> (eo = None \<longrightarrow> ?Q (working d') x')"
      using assignment_body_law [OF d _ b _ run] x run unfolding x' by simp
  qed (use assms in auto)
  then show ?thesis using Some by (auto simp: assignment_attempt_def split: prod.splits option.splits)
qed

lemma assignment_law:
  assumes "AtomicJobAssignmentWithRetry db env botID (d, m) = (jo, eo, (d', m'))"
  shows "case eo of Some e \<Rightarrow> committed d' = committed d \<and> assign_inv m m'
    | None \<Rightarrow> (\<exists>k m1. assign_done botID m (committed d) (committed d') m1 k \<and> jo = cached_job m1 k \<and>
        (\<forall>j b. cached_job m1 k = Some j \<and> cached_bot m botID = Some b \<longrightarrow>
          cached_job m' = (cached_job m1)(mj_ID j \<mapsto> j) \<and> (\<exists>t. cached_bot m' botID = Some (busy_with (mj_ID j) t b))))"
proof -
  let ?Q = "\<lambda>(d', (m', asg')). \<exists>k. asg' = Some k \<and> assign_done botID m (committed d) (committed d') m' k"
  let ?I = "\<lambda>(d', (m', asg')). committed d' = committed d \<and> assign_inv m m'"
  let ?p = "ps_retryManager (mem_ps m)"
  have rule: "case retry_Execute ?p (assignment_attempt db env botID) (d, (m, None)) of (None, s') \<Rightarrow> ?Q s' | (Some e, s') \<Rightarrow> ?I s'"
  proof (rule retry_Execute_rule)
    fix s :: "'d \<times> Mem \<times> string option"
    assume "case s of (d', (m', asg')) \<Rightarrow> committed d' = committed d \<and> assign_inv m m'"
    then show "case assignment_attempt db env botID s of (None, s') \<Rightarrow> ?Q s' | (Some e, s') \<Rightarrow> case s' of (d', (m', asg')) \<Rightarrow> committed d' = committed d \<and> assign_inv m m'"
      using assignment_attempt_law [of "fst s" "committed d" m "fst (snd s)" botID env "snd (snd s)"]
      by (cases s) (auto split: prod.splits option.splits)
  qed (simp add: assign_inv_def)
  obtain eo1 d1 m1 asg where run: "retry_Execute ?p (assignment_attempt db env botID) (d, (m, None)) = (eo1, (d1, (m1, asg)))"
    by (metis prod_cases4)
  show ?thesis
  proof (cases eo1)
    case (Some e)
    then show ?thesis using assms rule run by (auto simp: AtomicJobAssignmentWithRetry_def split: option.splits)
  next
    case None
    then obtain k where k: "asg = Some k" and ad: "assign_done botID m (committed d) (committed d1) m1 k" using rule run by auto
    then obtain j b where j: "cached_job m1 k = Some j" "cached_bot m1 botID = Some b" "cached_bot m botID = Some b"
      by (auto simp: assign_done_def assign_inv_def)
    have "jo = Some j \<and> eo = None \<and> d' = d1 \<and> m' = count_tx (let (now, m') = time_Now env (put_job (mj_ID j) j m1) in
        put_bot botID (busy_with (mj_ID j) now b) m')"
      using assms run None k j by (auto simp: AtomicJobAssignmentWithRetry_def busy_with_def)
    then show ?thesis using ad j by (auto simp: time_Now_def intro!: exI [of _ k] exI [of _ m1])
  qed
qed

end

section \<open>Retried transactions on the database in memory\<close>

lemma mem_database_ops:
  "db_Begin mem_database = md_op (\<lambda>d. d\<lparr>md_working := md_committed d\<rparr>)"
  "tx_Store mem_database k v = md_op (\<lambda>d. d\<lparr>md_working := AList.update k v (md_working d)\<rparr>)"
  "tx_Commit mem_database = md_op (\<lambda>d. d\<lparr>md_committed := md_working d\<rparr>)"
  "tx_Rollback mem_database d = (None, d)" "db_IsHealthy mem_database d = (True, d)"
  "db_CtxErr mem_database d = (None, d)" "db_RetryOptions mem_database = DefaultRetryOptions"
  by (simp_all add: mem_database_def)

lemma mem_ctx: "ctx_err mem_database s = (None, s)"
  by (simp add: ctx_err_def mem_database_ops)

lemma retry_Execute_non_retryable:
  assumes "operation s = (Some e, s')" "\<not> isRetryableError p e" "0 \<le> pol_MaxRetries p"
  shows "retry_Execute p operation s = (Some (WrapError ''non-retryable error: '' e), s')"
  using assms by (simp add: retry_Execute_def Manager_Execute_def exec_loop.simps [of p operation _ 0])

text \<open>A first run that fails with a retryable error and a second one that fails for good.\<close>

lemma mem_Transaction_twice:
  assumes "tx_attempt mem_database fn s = (Some e1, s1)" "isRetryable e1 (ro_RetryableErrors DefaultRetryOptions)"
    and "tx_attempt mem_database fn s1 = (Some e2, s2)" "\<not> isRetryable e2 (ro_RetryableErrors DefaultRetryOptions)"
  shows "Transaction mem_database fn s = (Some (attempts_error DefaultRetryOptions (Some e2)), s2)"
proof -
  have "ro_MaxRetries DefaultRetryOptions = 3" by (simp add: DefaultRetryOptions_def)
  then show ?thesis using assms
    by (simp add: Transaction_def pool_ExecuteWithRetry_def WithRetryVoid_def WithRetry_def mem_ctx mem_database_ops
        WithRetry_loop.simps [of _ _ _ 0] WithRetry_loop.simps [of _ _ _ 1])
qed

definition locked :: "string \<Rightarrow> int \<Rightarrow> error" where
  "locked msg x = SqliteError msg 5 x"

lemma locked_retryable: "isRetryable (NewDatabaseError op (locked msg x)) es"
  by (simp add: isRetryable_def isSQLiteRetryable_def NewDatabaseError_def locked_def)

text \<open>A fault at one call of the first transaction: a \<open>Store\<close> (1 to 3) or the \<open>Commit\<close> (4).\<close>

definition fault_at :: "nat \<Rightarrow> error \<Rightarrow> memDB \<Rightarrow> bool" where
  "fault_at i e d \<longleftrightarrow> i \<in> {1, 2, 3, 4} \<and> md_faults d = replicate i None @ [Some e]"

lemma fault_cases:
  "fault_at i e d \<Longrightarrow> md_faults d \<in> {[None, Some e], [None, None, Some e], [None, None, None, Some e], [None, None, None, None, Some e]}"
  by (auto simp: fault_at_def numeral_eq_Suc)

lemma assignment_first_attempt:
  assumes "findAvailableJobTx env botID m = (Inr (Some (k, j)), m1)" "mb_Status b = BotStatusIdle"
    and "fault_at i (locked msg x) d" and "t = fst (time_Now env m1)"
  shows "\<exists>op d' asg'. tx_attempt mem_database (assignment_body mem_database env botID) (d, (m, b, asg)) =
    (Some (NewDatabaseError op (locked msg x)), (d', (put_job k (assigned_to botID t j) (snd (time_Now env m1)), busy_with (mj_ID j) t b, asg'))) \<and>
    md_faults d' = [] \<and> md_committed d' = md_committed d"
  using fault_cases [OF assms(3)] assms(1,2,4)
  by (auto simp: tx_attempt_def mem_ctx mem_database_ops assignment_body_def store_step_def md_op_def time_Now_def assigned_to_def busy_with_def Let_def)

lemma assignment_second_attempt:
  assumes "cached_bot m botID = Some b0" "mb_Status b = BotStatusBusy" "md_faults d = []"
  shows "\<exists>msg d' n. msg \<in> {''no jobs available for bot capabilities'', ''bot not available: busy''} \<and>
    tx_attempt mem_database (assignment_body mem_database env botID) (d, (m, b, asg)) =
      (Some (NewValidationError ''job_assignment'' (ErrorString msg)), (d', (m\<lparr>mem_tick := n\<rparr>, b, asg))) \<and>
    md_committed d' = md_committed d"
proof -
  obtain r m1 where f: "findAvailableJobTx env botID m = (r, m1)" by fastforce
  then obtain n where "m1 = m\<lparr>mem_tick := n\<rparr>" using find_available by blast
  then show ?thesis using find_available [OF f] f assms
    by (auto simp: tx_attempt_def mem_ctx mem_database_ops assignment_body_def md_op_def split: sum.splits option.splits)
qed

text \<open>Every pattern of the storage layer's retry contains one of four letters.\<close>

lemma contains_ci_letters: "contains_ci s p \<Longrightarrow> set (to_lower p) \<subseteq> set (to_lower s)"
  by (auto simp: contains_ci_def containsIgnoreCase_search str_contains_iff)

lemma sqlite_pattern_letters: "list_all (\<lambda>p. list_ex (\<lambda>c. c \<in> set (to_lower p)) ''kqmw'') sqlitePatterns"
  by code_simp

lemma validation_not_retryable:
  assumes "list_all (\<lambda>c. c \<notin> set (to_lower msg)) ''kqmw''"
  shows "\<not> isRetryable (NewValidationError op (ErrorString msg)) (ro_RetryableErrors DefaultRetryOptions)"
proof -
  let ?e = "PandaFuzzError ErrorTypeValidation op (ErrorString msg)"
  have "\<not> contains_ci msg p" if "p \<in> set sqlitePatterns" for p
  proof
    assume "contains_ci msg p"
    then have "set (to_lower p) \<subseteq> set (to_lower msg)" by (rule contains_ci_letters)
    then show False using that assms sqlite_pattern_letters
      unfolding list_all_iff list_ex_iff by blast
  qed
  then have "\<not> isSQLiteRetryable ?e" by (auto simp: isSQLiteRetryable_def list_ex_iff)
  moreover have "to_lower msg \<noteq> ''sql: connection is already closed''" "to_lower msg \<noteq> ''sql: transaction has already been committed or rolled back''"
    using assms by auto
  then have "msg \<noteq> ''sql: connection is already closed''" "msg \<noteq> ''sql: transaction has already been committed or rolled back''"
    by (auto simp: to_lower_def lower_char_def)
  ultimately show ?thesis by (simp add: NewValidationError_def isRetryable_def DefaultRetryOptions_def)
qed

lemma assignment_refused:
  assumes "msg \<in> {''no jobs available for bot capabilities'', ''bot not available: busy''}"
  shows "\<not> isRetryable (NewValidationError ''job_assignment'' (ErrorString msg)) (ro_RetryableErrors DefaultRetryOptions)"
    and "\<not> isRetryableError DatabasePolicy (attempts_error DefaultRetryOptions (Some (NewValidationError ''job_assignment'' (ErrorString msg))))"
proof -
  have "list_all (\<lambda>c. c \<notin> set (to_lower ''no jobs available for bot capabilities'')) ''kqmw''"
    "list_all (\<lambda>c. c \<notin> set (to_lower ''bot not available: busy'')) ''kqmw''"
    by code_simp+
  then show "\<not> isRetryable (NewValidationError ''job_assignment'' (ErrorString msg)) (ro_RetryableErrors DefaultRetryOptions)"
    using assms validation_not_retryable by blast
  have "\<not> isRetryableError DatabasePolicy (attempts_error DefaultRetryOptions
      (Some (NewValidationError ''job_assignment'' (ErrorString ''no jobs available for bot capabilities''))))"
    by code_simp
  moreover have "\<not> isRetryableError DatabasePolicy (attempts_error DefaultRetryOptions
      (Some (NewValidationError ''job_assignment'' (ErrorString ''bot not available: busy''))))"
    by code_simp
  ultimately show "\<not> isRetryableError DatabasePolicy (attempts_error DefaultRetryOptions (Some (NewValidationError ''job_assignment'' (ErrorString msg))))"
    using assms by blast
qed

section \<open>Completion under a fault\<close>

definition completed_by :: "bool \<Rightarrow> time \<Rightarrow> MasterJob \<Rightarrow> MasterJob" where
  "completed_by success t j = j\<lparr>mj_Status := (if success then JobCompleted else JobFailed), mj_CompletedAt := Some t, mj_AssignedBot := None\<rparr>"

definition idle_again :: "time \<Rightarrow> MasterBot \<Rightarrow> MasterBot" where
  "idle_again t b = b\<lparr>mb_Status := BotStatusIdle, mb_CurrentJob := None, mb_LastSeen := t\<rparr>"

lemma complete_first_attempt:
  assumes "cached_job m jobID = Some j" "cached_bot m botID = Some b" "mj_AssignedBot j = Some botID"
    and "fault_at i (locked msg x) d" and "t = fst (time_Now env m)"
  shows "\<exists>op d' m'. tx_attempt mem_database (complete_body mem_database env jobID botID success) (d, m) =
      (Some (NewDatabaseError op (locked msg x)), (d', m')) \<and>
    cached_job m' = (cached_job m)(jobID \<mapsto> completed_by success t j) \<and> cached_bot m' = (cached_bot m)(botID \<mapsto> idle_again t b) \<and>
    md_faults d' = [] \<and> md_committed d' = md_committed d"
  using fault_cases [OF assms(4)] assms(1,2,3,5)
  by (auto simp: tx_attempt_def mem_ctx mem_database_ops complete_body_def store_step_def md_op_def time_Now_def completed_by_def idle_again_def Let_def)

lemma complete_second_attempt:
  assumes "cached_job m jobID = Some j" "cached_bot m botID = Some b" "mj_AssignedBot j = None" "md_faults d = []"
  shows "\<exists>d'. tx_attempt mem_database (complete_body mem_database env jobID botID success) (d, m) =
      (Some (NewValidationError ''complete_job'' (ErrorString ''job not assigned to bot'')), (d', m)) \<and>
    md_committed d' = md_committed d"
  using assms by (simp add: tx_attempt_def mem_ctx mem_database_ops complete_body_def md_op_def)

definition not_assigned :: error where
  "not_assigned = NewValidationError ''complete_job'' (ErrorString ''job not assigned to bot'')"

lemma completion_refused:
  "\<not> isRetryable not_assigned (ro_RetryableErrors DefaultRetryOptions)"
  "\<not> isRetryableError DatabasePolicy (attempts_error DefaultRetryOptions (Some not_assigned))"
proof -
  have "list_all (\<lambda>c. c \<notin> set (to_lower ''job not assigned to bot'')) ''kqmw''" by code_simp
  then show "\<not> isRetryable not_assigned (ro_RetryableErrors DefaultRetryOptions)"
    unfolding not_assigned_def by (rule validation_not_retryable)
  show "\<not> isRetryableError DatabasePolicy (attempts_error DefaultRetryOptions (Some not_assigned))" by code_simp
qed

lemma DatabasePolicy_retries: "0 \<le> pol_MaxRetries DatabasePolicy"
  by (simp add: DatabasePolicy_def)

section \<open>A sample state\<close>

definition sample_env :: Env where
  "sample_env = \<lparr>env_clock = (\<lambda>n. 100 + int n), env_range = (\<lambda>_ ks. ks), env_format = (\<lambda>_. [])\<rparr>"

definition sample_bot :: MasterBot where
  "sample_bot = \<lparr>mb_ID = ''b1'', mb_Name = ''bot'', mb_Hostname = ''h'', mb_Status = BotStatusIdle, mb_LastSeen = 0, mb_RegisteredAt = 0,
     mb_CurrentJob = None, mb_Capabilities = [''AFLplusplus''], mb_TimeoutAt = 900, mb_IsOnline = True, mb_FailureCount = 0, mb_APIEndpoint = []\<rparr>"

definition sample_mjob :: MasterJob where
  "sample_mjob = \<lparr>mj_ID = ''j1'', mj_Name = ''job'', mj_Target = ''t'', mj_Fuzzer = ''afl++'', mj_Type = ''fuzzing'', mj_Status = JobPending,
     mj_AssignedBot = None, mj_CreatedAt = 0, mj_StartedAt = None, mj_CompletedAt = None, mj_TimeoutAt = 500, mj_WorkDir = [],
     mj_Config = \<lparr>mjc_Duration = 0, mjc_MemoryLimit = 0, mjc_Timeout = 0, mjc_Dictionary = [], mjc_SeedCorpus = [], mjc_OutputDir = []\<rparr>,
     mj_Progress = 0, mj_CampaignID = None, mj_CollectionID = None, mj_UseCampaignCorpus = False, mj_Metadata = None, mj_Priority = 0,
     mj_EnableCoverage = False, mj_CoverageFormat = [], mj_RecoveryTimeout = None, mj_LeaseToken = None, mj_LeaseExpiresAt = None,
     mj_LastHeartbeat = None\<rparr>"

definition sample_mem :: "MasterJob \<Rightarrow> MasterBot \<Rightarrow> Mem" where
  "sample_mem j b = put_job (mj_ID j) j (put_bot (mb_ID b) b
     \<lparr>mem_ps = NewPersistentState 0 (DatabasePolicy\<lparr>pol_MaxRetries := 0\<rparr>) 0, mem_tick = 0\<rparr>)"

definition sample_db :: "error option list \<Rightarrow> memDB" where
  "sample_db fs = \<lparr>md_committed = [], md_working = [], md_faults = fs\<rparr>"

lemma sample_mem_simps [simp]:
  "cached_job (sample_mem j b) = [mj_ID j \<mapsto> j]" "cached_bot (sample_mem j b) = [mb_ID b \<mapsto> b]"
  "ps_retryManager (mem_ps (sample_mem j b)) = DatabasePolicy" "mem_tick (sample_mem j b) = 0" "map fst (ps_jobs (mem_ps (sample_mem j b))) = [mj_ID j]"
  by (simp_all add: sample_mem_def cached_job_def cached_bot_def NewPersistentState_def put_job_def put_bot_def upd_ps_def)

lemma sample_fields [simp]: "mb_ID sample_bot = ''b1''" "mj_ID sample_mjob = ''j1''" "mb_Status sample_bot = BotStatusIdle"
  by (simp_all add: sample_bot_def sample_mjob_def)

lemma sample_available: "available_for 100 sample_bot sample_mjob"
  by code_simp

lemma sample_find:
  "findAvailableJobTx sample_env ''b1'' (sample_mem sample_mjob sample_bot) =
     (Inr (Some (''j1'', sample_mjob)), (sample_mem sample_mjob sample_bot)\<lparr>mem_tick := 2\<rparr>)"
  using sample_available
  by (simp add: findAvailableJobTx_def time_Now_def range_keys_def sample_env_def List.map_filter_simps)

section \<open>Properties\<close>


text \<open>While the store works, an idle bot gets a job whenever one is available to it.\<close>

lemma mem_Transaction_once:
  "tx_attempt mem_database fn s = (None, s') \<Longrightarrow> Transaction mem_database fn s = (None, s')"
  by (simp add: Transaction_def pool_ExecuteWithRetry_def WithRetryVoid_def WithRetry_def mem_ctx mem_database_ops
      WithRetry_loop.simps [of _ _ _ 0] DefaultRetryOptions_def)

lemma retry_Execute_success:
  "operation s = (None, s') \<Longrightarrow> 0 \<le> pol_MaxRetries p \<Longrightarrow> retry_Execute p operation s = (None, s')"
  by (simp add: retry_Execute_def Manager_Execute_def exec_loop.simps [of p operation _ 0])

lemma assignment_succeeds:
  assumes "md_faults d = []" "cached_bot m botID = Some b" "mb_Status b = BotStatusIdle"
    and "findAvailableJobTx env botID m = (Inr (Some (k, j)), m1)" "0 \<le> pol_MaxRetries (ps_retryManager (mem_ps m))"
  shows "fst (snd (AtomicJobAssignmentWithRetry mem_database env botID (d, m))) = None"
proof -
  have "\<exists>s. tx_attempt mem_database (assignment_body mem_database env botID) (d, (m, b, None)) = (None, s)"
    using assms by (simp add: tx_attempt_def mem_ctx mem_database_ops assignment_body_def store_step_def md_op_def time_Now_def Let_def)
  then obtain s where "Transaction mem_database (assignment_body mem_database env botID) (d, (m, b, None)) = (None, s)"
    using mem_Transaction_once by blast
  then have "\<exists>s'. assignment_attempt mem_database env botID (d, (m, None)) = (None, s')"
    using assms(2) by (auto simp: assignment_attempt_def split: prod.splits)
  then show ?thesis using assms(5) retry_Execute_success [of "assignment_attempt mem_database env botID" "(d, (m, None))"]
    by (auto simp: AtomicJobAssignmentWithRetry_def Let_def split: prod.splits option.splits)
qed


text \<open>A transient lock in the assignment's transaction loses the job. The storage layer runs the
  transaction again on the state that the first run has already changed, so the second run refuses:
  the call fails although the lock has gone, nothing is persisted and the bot stays idle, but the
  cached job is assigned and will never be found as available again.
\<close>

theorem assignment_strands_job:
  assumes "ps_retryManager (mem_ps m) = DatabasePolicy" and "cached_bot m botID = Some b" and "mb_Status b = BotStatusIdle"
    and "findAvailableJobTx env botID m = (Inr (Some (k, j)), m1)" and "fault_at i (locked msg x) d"
  shows "\<exists>jo e d' m' t. AtomicJobAssignmentWithRetry mem_database env botID (d, m) = (jo, Some e, (d', m')) \<and>
    md_committed d' = md_committed d \<and> cached_bot m' = cached_bot m \<and> cached_job m' k = Some (assigned_to botID t j) \<and>
    (\<forall>now b'. \<not> available_for now b' (assigned_to botID t j))"
proof -
  define t where "t = fst (time_Now env m1)"
  define m3 where "m3 = put_job k (assigned_to botID t j) (snd (time_Now env m1))"
  obtain n where m1: "m1 = m\<lparr>mem_tick := n\<rparr>" using find_available [OF assms(4)] by blast
  obtain op d1 asg where first: "tx_attempt mem_database (assignment_body mem_database env botID) (d, (m, b, None)) =
      (Some (NewDatabaseError op (locked msg x)), (d1, (m3, busy_with (mj_ID j) t b, asg)))" "md_faults d1 = []" "md_committed d1 = md_committed d"
    using assignment_first_attempt [OF assms(4,3,5) t_def, of None] unfolding m3_def by blast
  have "cached_bot m3 botID = Some b" using assms(2) m1 by (simp add: m3_def time_Now_def)
  from assignment_second_attempt [OF this _ first(2), of "busy_with (mj_ID j) t b" env asg]
  obtain msg2 d2 n2 where second: "msg2 \<in> {''no jobs available for bot capabilities'', ''bot not available: busy''}"
      "tx_attempt mem_database (assignment_body mem_database env botID) (d1, (m3, busy_with (mj_ID j) t b, asg)) =
        (Some (NewValidationError ''job_assignment'' (ErrorString msg2)), (d2, (m3\<lparr>mem_tick := n2\<rparr>, busy_with (mj_ID j) t b, asg)))"
      "md_committed d2 = md_committed d1"
    by (auto simp: busy_with_def)
  from mem_Transaction_twice [OF first(1) locked_retryable second(2) assignment_refused(1) [OF second(1)]]
  have att: "assignment_attempt mem_database env botID (d, (m, None)) =
      (Some (attempts_error DefaultRetryOptions (Some (NewValidationError ''job_assignment'' (ErrorString msg2)))), (d2, (m3\<lparr>mem_tick := n2\<rparr>, asg)))"
    using assms(2) by (simp add: assignment_attempt_def)
  have "retry_Execute DatabasePolicy (assignment_attempt mem_database env botID) (d, (m, None)) =
      (Some (WrapError ''non-retryable error: '' (attempts_error DefaultRetryOptions
        (Some (NewValidationError ''job_assignment'' (ErrorString msg2))))), (d2, (m3\<lparr>mem_tick := n2\<rparr>, asg)))"
    using att assignment_refused(2) [OF second(1)] DatabasePolicy_retries by (rule retry_Execute_non_retryable)
  then show ?thesis using assms(1) first(3) second(3) m1
    by (auto simp: AtomicJobAssignmentWithRetry_def m3_def time_Now_def available_for_def assigned_to_def split: option.splits
        intro!: exI [of _ t])
qed

theorem assignment_strands_job_witness:
  "\<exists>jo e d' m' t. AtomicJobAssignmentWithRetry mem_database sample_env ''b1'' (sample_db [None, Some (locked ''busy'' 5)], sample_mem sample_mjob sample_bot) =
     (jo, Some e, (d', m')) \<and> cached_job m' ''j1'' = Some (assigned_to ''b1'' t sample_mjob)"
proof -
  have "fault_at 1 (locked ''busy'' 5) (sample_db [None, Some (locked ''busy'' 5)])" by (simp add: fault_at_def sample_db_def)
  from assignment_strands_job [OF _ _ _ sample_find this] show ?thesis by fastforce
qed

text \<open>C13: A transient lock in the completion's transaction makes the completion of a job fail for good: the
  report of the bot that holds the job is refused as not assigned to it. The cache already has the
  job finished and the bot idle, the database still has what was there before.
\<close>

theorem completion_lost_on_retry:
  assumes "ps_retryManager (mem_ps m) = DatabasePolicy" and "cached_job m jobID = Some j" and "cached_bot m botID = Some b"
    and "mj_AssignedBot j = Some botID" and "fault_at i (locked msg x) d"
  shows "\<exists>d' m' t. CompleteJobWithRetry mem_database env jobID botID success (d, m) =
      (Some (WrapError ''non-retryable error: '' (attempts_error DefaultRetryOptions (Some not_assigned))), (d', m')) \<and>
    md_committed d' = md_committed d \<and> cached_job m' jobID = Some (completed_by success t j) \<and> cached_bot m' botID = Some (idle_again t b)"
proof -
  define t where "t = fst (time_Now env m)"
  obtain op d1 m1 where first: "tx_attempt mem_database (complete_body mem_database env jobID botID success) (d, m) =
      (Some (NewDatabaseError op (locked msg x)), (d1, m1))" "cached_job m1 = (cached_job m)(jobID \<mapsto> completed_by success t j)"
      "cached_bot m1 = (cached_bot m)(botID \<mapsto> idle_again t b)" "md_faults d1 = []" "md_committed d1 = md_committed d"
    using complete_first_attempt [OF assms(2-5) t_def] by blast
  have "cached_job m1 jobID = Some (completed_by success t j)" "cached_bot m1 botID = Some (idle_again t b)"
      "mj_AssignedBot (completed_by success t j) = None"
    using first by (simp_all add: completed_by_def)
  from complete_second_attempt [OF this first(4), folded not_assigned_def]
  obtain d2 where second: "tx_attempt mem_database (complete_body mem_database env jobID botID success) (d1, m1) = (Some not_assigned, (d2, m1))"
      "md_committed d2 = md_committed d1" by blast
  have "Transaction mem_database (complete_body mem_database env jobID botID success) (d, m) =
      (Some (attempts_error DefaultRetryOptions (Some not_assigned)), (d2, m1))"
    using first(1) locked_retryable second(1) completion_refused(1) by (rule mem_Transaction_twice)
  then have "CompleteJobWithRetry mem_database env jobID botID success (d, m) =
      (Some (WrapError ''non-retryable error: '' (attempts_error DefaultRetryOptions (Some not_assigned))), (d2, m1))"
    using completion_refused(2) DatabasePolicy_retries assms(1)
    by (simp add: CompleteJobWithRetry_def retry_Execute_non_retryable)
  then show ?thesis using first second by auto
qed

theorem completion_lost_on_retry_witness:
  "\<exists>e d' m'. CompleteJobWithRetry mem_database sample_env ''j1'' ''b1'' True
      (sample_db [None, None, Some (locked ''busy'' 5)], sample_mem (assigned_to ''b1'' 7 sample_mjob) (busy_with ''j1'' 7 sample_bot)) = (Some e, (d', m')) \<and>
    md_committed d' = []"
proof -
  let ?d = "sample_db [None, None, Some (locked ''busy'' 5)]"
  have "fault_at 2 (locked ''busy'' 5) ?d" by (simp add: fault_at_def sample_db_def numeral_eq_Suc)
  from completion_lost_on_retry [where env = sample_env and success = True and jobID = "''j1''" and botID = "''b1''", OF _ _ _ _ this,
      of "sample_mem (assigned_to ''b1'' 7 sample_mjob) (busy_with ''j1'' 7 sample_bot)" "assigned_to ''b1'' 7 sample_mjob" "busy_with ''j1'' 7 sample_bot"]
  show ?thesis by (auto simp: assigned_to_def busy_with_def sample_db_def)
qed

end
