(* ===== verification/Timeout_Manager.thy ===== *)
theory Timeout_Manager
  imports Master_State
begin

text \<open>
  The timeout manager of the master, \<open>pkg/master/timeouts.go\<close>: it tracks a deadline for every bot and job
  and, when one has passed, resets the bot or fails the job through the state manager
  (\<open>Master_State\<close>).

  An operation runs on \<open>'d tworld\<close>: the manager, the database and the memory of the process. \<open>Start\<close>,
  \<open>Stop\<close> and \<open>run\<close> (the ticker goroutine that calls \<open>performTimeoutCheck\<close> every 30 seconds) are not
  modelled; \<open>performTimeoutCheck\<close> is.
\<close>

section \<open>State\<close>

record TimeoutStats =
  ts_BotsTimedOut :: int
  ts_JobsTimedOut :: int
  ts_TimeoutChecks :: int
  ts_LastCheck :: time
  ts_AverageCheckDuration :: duration
  ts_ActiveBotTimeouts :: int
  ts_ActiveJobTimeouts :: int

text \<open>\<open>tm_BotHeartbeat\<close> and \<open>tm_JobExecution\<close> are \<open>config.Timeouts\<close>.\<close>

record TimeoutManager =
  tm_botTimeouts :: "(string \<times> time) list"
  tm_jobTimeouts :: "(string \<times> time) list"
  tm_retryManager :: Policy
  tm_stats :: TimeoutStats
  tm_BotHeartbeat :: duration
  tm_JobExecution :: duration

type_synonym 'd tworld = "TimeoutManager \<times> 'd mworld"

definition NewTimeoutManager :: "Policy \<Rightarrow> duration \<Rightarrow> duration \<Rightarrow> TimeoutManager" where
  "NewTimeoutManager cfgRetry botHeartbeat jobExecution =
     \<lparr>tm_botTimeouts = [], tm_jobTimeouts = [],
      tm_retryManager = (if pol_MaxRetries cfgRetry = 0 then DefaultPolicy else cfgRetry),
      tm_stats = \<lparr>ts_BotsTimedOut = 0, ts_JobsTimedOut = 0, ts_TimeoutChecks = 0, ts_LastCheck = time_zero,
        ts_AverageCheckDuration = 0, ts_ActiveBotTimeouts = 0, ts_ActiveJobTimeouts = 0\<rparr>,
      tm_BotHeartbeat = botHeartbeat, tm_JobExecution = jobExecution\<rparr>"

definition put_botTimeout :: "string \<Rightarrow> time \<Rightarrow> TimeoutManager \<Rightarrow> TimeoutManager" where
  "put_botTimeout k t tm = tm\<lparr>tm_botTimeouts := AList.update k t (tm_botTimeouts tm)\<rparr>"

definition put_jobTimeout :: "string \<Rightarrow> time \<Rightarrow> TimeoutManager \<Rightarrow> TimeoutManager" where
  "put_jobTimeout k t tm = tm\<lparr>tm_jobTimeouts := AList.update k t (tm_jobTimeouts tm)\<rparr>"

section \<open>Tracking\<close>

definition SetBotTimeout :: "Env \<Rightarrow> string \<Rightarrow> duration \<Rightarrow> TimeoutManager \<times> Mem \<Rightarrow> TimeoutManager \<times> Mem" where
  "SetBotTimeout env botID timeout = (\<lambda>(tm, m). let (now, m') = time_Now env m in (put_botTimeout botID (time_Add now timeout) tm, m'))"

definition SetJobTimeout :: "Env \<Rightarrow> string \<Rightarrow> duration \<Rightarrow> TimeoutManager \<times> Mem \<Rightarrow> TimeoutManager \<times> Mem" where
  "SetJobTimeout env jobID timeout = (\<lambda>(tm, m). let (now, m') = time_Now env m in (put_jobTimeout jobID (time_Add now timeout) tm, m'))"

definition ExtendBotTimeout :: "string \<Rightarrow> duration \<Rightarrow> TimeoutManager \<Rightarrow> TimeoutManager" where
  "ExtendBotTimeout botID extension tm = (case map_of (tm_botTimeouts tm) botID of
       Some t \<Rightarrow> put_botTimeout botID (time_Add t extension) tm | None \<Rightarrow> tm)"

definition ExtendJobTimeout :: "string \<Rightarrow> duration \<Rightarrow> TimeoutManager \<Rightarrow> TimeoutManager" where
  "ExtendJobTimeout jobID extension tm = (case map_of (tm_jobTimeouts tm) jobID of
       Some t \<Rightarrow> put_jobTimeout jobID (time_Add t extension) tm | None \<Rightarrow> tm)"

definition RemoveBotTimeout :: "string \<Rightarrow> TimeoutManager \<Rightarrow> TimeoutManager" where
  "RemoveBotTimeout botID tm = tm\<lparr>tm_botTimeouts := AList.delete botID (tm_botTimeouts tm)\<rparr>"

definition RemoveJobTimeout :: "string \<Rightarrow> TimeoutManager \<Rightarrow> TimeoutManager" where
  "RemoveJobTimeout jobID tm = tm\<lparr>tm_jobTimeouts := AList.delete jobID (tm_jobTimeouts tm)\<rparr>"

definition GetBotTimeout :: "TimeoutManager \<Rightarrow> string \<Rightarrow> time option" where
  "GetBotTimeout tm botID = map_of (tm_botTimeouts tm) botID"

definition GetJobTimeout :: "TimeoutManager \<Rightarrow> string \<Rightarrow> time option" where
  "GetJobTimeout tm jobID = map_of (tm_jobTimeouts tm) jobID"

definition GetActiveTimeouts :: "TimeoutManager \<Rightarrow> int \<times> int" where
  "GetActiveTimeouts tm = (int (length (tm_botTimeouts tm)), int (length (tm_jobTimeouts tm)))"

definition tm_GetStats :: "TimeoutManager \<Rightarrow> TimeoutStats" where
  "tm_GetStats tm = (tm_stats tm)\<lparr>ts_ActiveBotTimeouts := int (length (tm_botTimeouts tm)), ts_ActiveJobTimeouts := int (length (tm_jobTimeouts tm))\<rparr>"

definition IsExpiredBot :: "time \<Rightarrow> TimeoutManager \<Rightarrow> string \<Rightarrow> bool" where
  "IsExpiredBot now tm botID = (case map_of (tm_botTimeouts tm) botID of Some t \<Rightarrow> time_After now t | None \<Rightarrow> False)"

definition IsExpiredJob :: "time \<Rightarrow> TimeoutManager \<Rightarrow> string \<Rightarrow> bool" where
  "IsExpiredJob now tm jobID = (case map_of (tm_jobTimeouts tm) jobID of Some t \<Rightarrow> time_After now t | None \<Rightarrow> False)"

definition UpdateBotHeartbeat :: "Env \<Rightarrow> string \<Rightarrow> TimeoutManager \<times> Mem \<Rightarrow> TimeoutManager \<times> Mem" where
  "UpdateBotHeartbeat env botID s = SetBotTimeout env botID (tm_BotHeartbeat (fst s)) s"

definition UpdateJobTimeout :: "Env \<Rightarrow> string \<Rightarrow> TimeoutManager \<times> Mem \<Rightarrow> TimeoutManager \<times> Mem" where
  "UpdateJobTimeout env jobID s = SetJobTimeout env jobID (tm_JobExecution (fst s)) s"

definition tm_HealthCheck :: "time \<Rightarrow> TimeoutManager \<Rightarrow> error option" where
  "tm_HealthCheck now tm =
     (if ts_LastCheck (tm_stats tm) = time_zero then None
      else if time_Sub now (ts_LastCheck (tm_stats tm)) > 2 * Minute then
        Some (NewSystemError ''timeout_manager_health'' (ErrorString ''no recent timeout checks''))
      else None)"

text \<open>Both lists come from the state manager, whose \<open>ps_ListBots\<close> and \<open>ListJobs\<close> never return an error.\<close>

definition initializeTimeouts :: "'d MasterDatabase \<Rightarrow> Env \<Rightarrow> 'd tworld \<Rightarrow> 'd tworld" where
  "initializeTimeouts db env = (\<lambda>(tm, (d, m)).
     (let (bs, m1) = ps_ListBots env m;
          tm1 = fold (\<lambda>b. put_botTimeout (mb_ID b) (mb_TimeoutAt b)) bs tm;
          (js, w) = ListJobs db env (d, m1)
      in (fold (\<lambda>j. put_jobTimeout (mj_ID j) (mj_TimeoutAt j)) js tm1, w)))"

section \<open>Checking\<close>

definition expired_keys :: "Env \<Rightarrow> (string \<times> time) list \<Rightarrow> Mem \<Rightarrow> string list \<times> Mem" where
  "expired_keys env al m =
     (let (now, m1) = time_Now env m; (ks, m2) = range_keys env al m1
      in (filter (\<lambda>k. case map_of al k of Some t \<Rightarrow> time_After now t | None \<Rightarrow> False) ks, m2))"

definition checkBotTimeouts :: "Env \<Rightarrow> TimeoutManager \<Rightarrow> Mem \<Rightarrow> string list \<times> Mem" where
  "checkBotTimeouts env tm m = expired_keys env (tm_botTimeouts tm) m"

definition checkJobTimeouts :: "Env \<Rightarrow> TimeoutManager \<Rightarrow> Mem \<Rightarrow> string list \<times> Mem" where
  "checkJobTimeouts env tm m = expired_keys env (tm_jobTimeouts tm) m"

definition event_key :: "TimeoutEvent \<Rightarrow> string" where
  "event_key ev = ''timeout_event_'' @ te_EntityID ev @ ''_'' @ itoa (te_Timestamp ev div Second)"

definition logTimeoutEvent :: "'d MasterDatabase \<Rightarrow> TimeoutEvent \<Rightarrow> 'd mworld \<Rightarrow> error option \<times> 'd mworld" where
  "logTimeoutEvent db ev w = SetMetadata db (event_key ev) (VEvent ev) w"

definition count_bot :: "TimeoutManager \<Rightarrow> TimeoutManager" where
  "count_bot tm = tm\<lparr>tm_stats := (tm_stats tm)\<lparr>ts_BotsTimedOut := wrap64 (ts_BotsTimedOut (tm_stats tm) + 1)\<rparr>\<rparr>"

definition count_job :: "TimeoutManager \<Rightarrow> TimeoutManager" where
  "count_job tm = tm\<lparr>tm_stats := (tm_stats tm)\<lparr>ts_JobsTimedOut := wrap64 (ts_JobsTimedOut (tm_stats tm) + 1)\<rparr>\<rparr>"

text \<open>One attempt of the function that \<open>handleBotTimeout\<close> retries. The event's timestamp and the end of
  its duration are two readings of the clock.\<close>

definition bot_timeout_attempt :: "'d MasterDatabase \<Rightarrow> Env \<Rightarrow> string \<Rightarrow> 'd tworld \<Rightarrow> error option \<times> 'd tworld" where
  "bot_timeout_attempt db env botID = (\<lambda>(tm, w). case ps_GetBot db env botID w of
       (Inl e, w1) \<Rightarrow> (Some e, (tm, w1))
     | (Inr b, (d, m)) \<Rightarrow>
         (let (ts, m1) = time_Now env m; (now, m2) = time_Now env m1;
              ev = \<lparr>te_Type = TimeoutTypeBot, te_EntityID = botID, te_Timestamp = ts, te_Duration = time_Sub now (mb_LastSeen b),
                te_Reason = ''Heartbeat timeout''\<rparr>
          in case ResetBot db botID (d, m2) of
               (Some e, w3) \<Rightarrow> (Some e, (tm, w3))
             | (None, w3) \<Rightarrow>
                 (case logTimeoutEvent db ev w3 of (eo, w4) \<Rightarrow> (eo, (count_bot (RemoveBotTimeout botID tm), w4)))))"

definition handleBotTimeout :: "'d MasterDatabase \<Rightarrow> Env \<Rightarrow> string \<Rightarrow> 'd tworld \<Rightarrow> error option \<times> 'd tworld" where
  "handleBotTimeout db env botID s = (case retry_Execute (tm_retryManager (fst s)) (bot_timeout_attempt db env botID) s of
       (None, s') \<Rightarrow> (None, s')
     | (Some e, s') \<Rightarrow> (Some (NewSystemError ''handle_bot_timeout'' e), s'))"

text \<open>What happens to the job itself: a job that a bot has is completed as failed, which frees the bot; a
  pending one is failed directly.\<close>

definition expire_job :: "'d MasterDatabase \<Rightarrow> Env \<Rightarrow> string \<Rightarrow> MasterJob \<Rightarrow> 'd mworld \<Rightarrow> error option \<times> 'd mworld" where
  "expire_job db env jobID j w = (case mj_AssignedBot j of
       Some botID \<Rightarrow> CompleteJobWithRetry db env jobID botID False w
     | None \<Rightarrow> if mj_Status j = JobPending then UpdateJobStatusToTimedOut db env jobID w else (None, w))"

definition job_timeout_attempt :: "'d MasterDatabase \<Rightarrow> Env \<Rightarrow> string \<Rightarrow> 'd tworld \<Rightarrow> error option \<times> 'd tworld" where
  "job_timeout_attempt db env jobID = (\<lambda>(tm, w). case GetJob db env jobID w of
       (Inl e, w1) \<Rightarrow> (Some e, (tm, w1))
     | (Inr j, (d, m)) \<Rightarrow>
         (let (ts, m1) = time_Now env m; (now, m2) = time_Now env m1;
              ev = \<lparr>te_Type = TimeoutTypeJob, te_EntityID = jobID, te_Timestamp = ts, te_Duration = time_Sub now (mj_CreatedAt j),
                te_Reason = ''Execution timeout''\<rparr>
          in case expire_job db env jobID j (d, m2) of
               (Some e, w3) \<Rightarrow> (Some e, (tm, w3))
             | (None, w3) \<Rightarrow> (case logTimeoutEvent db ev w3 of (eo', w4) \<Rightarrow> (eo', (count_job (RemoveJobTimeout jobID tm), w4)))))"

definition handleJobTimeout :: "'d MasterDatabase \<Rightarrow> Env \<Rightarrow> string \<Rightarrow> 'd tworld \<Rightarrow> error option \<times> 'd tworld" where
  "handleJobTimeout db env jobID s = (case retry_Execute (tm_retryManager (fst s)) (job_timeout_attempt db env jobID) s of
       (None, s') \<Rightarrow> (None, s')
     | (Some e, s') \<Rightarrow> (Some (NewSystemError ''handle_job_timeout'' e), s'))"

text \<open>Errors of the handlers are only logged. Integer division truncates towards zero.\<close>

definition performTimeoutCheck :: "'d MasterDatabase \<Rightarrow> Env \<Rightarrow> 'd tworld \<Rightarrow> 'd tworld" where
  "performTimeoutCheck db env = (\<lambda>(tm, (d, m)).
     (let (start, m1) = time_Now env m;
          (bs, m2) = checkBotTimeouts env tm m1;
          (tm1, (d1, m3)) = fold (\<lambda>k s. snd (handleBotTimeout db env k s)) bs (tm, (d, m2));
          (js, m4) = checkJobTimeouts env tm1 m3;
          (tm2, (d2, m5)) = fold (\<lambda>k s. snd (handleJobTimeout db env k s)) js (tm1, (d1, m4));
          (t1, m6) = time_Now env m5;
          (t2, m7) = time_Now env m6;
          sum = wrap64 (ts_AverageCheckDuration (tm_stats tm2) + time_Sub t1 start)
      in (tm2\<lparr>tm_stats := (tm_stats tm2)\<lparr>ts_TimeoutChecks := wrap64 (ts_TimeoutChecks (tm_stats tm2) + 1), ts_LastCheck := t2,
            ts_AverageCheckDuration := sgn sum * (\<bar>sum\<bar> div 2), ts_ActiveBotTimeouts := int (length (tm_botTimeouts tm2)),
            ts_ActiveJobTimeouts := int (length (tm_jobTimeouts tm2))\<rparr>\<rparr>, (d2, m7))))"

definition ForceTimeoutTyped :: "'d MasterDatabase \<Rightarrow> Env \<Rightarrow> TimeoutType \<Rightarrow> string \<Rightarrow> 'd tworld \<Rightarrow> error option \<times> 'd tworld" where
  "ForceTimeoutTyped db env entityType entityID s = (case entityType of
       TimeoutTypeBot \<Rightarrow> handleBotTimeout db env entityID s
     | TimeoutTypeJob \<Rightarrow> handleJobTimeout db env entityID s
     | TimeoutTypeAny t \<Rightarrow> (Some (NewValidationError ''force_timeout'' (ErrorString (''invalid timeout type: '' @ t))), s))"

definition ForceTimeout :: "'d MasterDatabase \<Rightarrow> Env \<Rightarrow> string \<Rightarrow> string \<Rightarrow> 'd tworld \<Rightarrow> error option \<times> 'd tworld" where
  "ForceTimeout db env entityType entityID s =
     (if entityType = ''bot'' then ForceTimeoutTyped db env TimeoutTypeBot entityID s
      else if entityType = ''job'' then ForceTimeoutTyped db env TimeoutTypeJob entityID s
      else (Some (NewValidationError ''force_timeout'' (ErrorString (''invalid timeout type: '' @ entityType))), s))"

section \<open>Lemmas\<close>

lemma put_metadata_simps [simp]: "cached_job (put_metadata k v m) = cached_job m" "cached_bot (put_metadata k v m) = cached_bot m"
  by (simp_all add: put_metadata_def upd_ps_def cached_job_def cached_bot_def)

lemma SetMetadata_caches:
  assumes "SetMetadata db k v (d, m) = (eo, (d', m'))"
  shows "cached_job m' = cached_job m \<and> cached_bot m' = cached_bot m"
proof -
  let ?J = "\<lambda>m'. cached_job m' = cached_job m \<and> cached_bot m' = cached_bot m"
  let ?I = "\<lambda>s. ?J (snd s)"
  let ?fn = "\<lambda>(d, m). case store_step db ''set_metadata'' (''metadata:'' @ k) v d of (Some e, d') \<Rightarrow> (Some e, (d', m)) | (None, d') \<Rightarrow> (None, (d', count_tx m))"
  have "case retry_Execute (ps_retryManager (mem_ps m)) (\<lambda>(d, m). Transaction db ?fn (d, put_metadata k v m)) (d, m) of
      (None, s') \<Rightarrow> ?I s' | (Some e, s') \<Rightarrow> ?I s'"
  proof (rule retry_Execute_rule)
    fix s :: "'a \<times> Mem"
    assume "?I s"
    then have "case Transaction db ?fn (fst s, put_metadata k v (snd s)) of (None, (d', x')) \<Rightarrow> ?J x' | (Some e, (d', x')) \<Rightarrow> ?J x'"
      by (intro Transaction_mem_rule) (auto split: prod.splits option.splits)
    then show "case (case s of (d, m) \<Rightarrow> Transaction db ?fn (d, put_metadata k v m)) of (None, s') \<Rightarrow> ?I s' | (Some e, s') \<Rightarrow> ?I s'"
      by (cases s) (auto split: prod.splits option.splits)
  qed simp
  then show ?thesis using assms by (auto simp: SetMetadata_def split: option.splits)
qed

text \<open>A job that the timeout has failed: it belongs to no bot any more, and the bot it had is idle.\<close>

definition failed_by_timeout :: "MasterJob \<Rightarrow> Mem \<Rightarrow> MasterJob \<Rightarrow> bool" where
  "failed_by_timeout j m j' \<longleftrightarrow> (mj_AssignedBot j \<noteq> None \<or> mj_Status j = JobPending) \<and>
     mj_ID j' = mj_ID j \<and> mj_Status j' = JobFailed \<and> mj_AssignedBot j' = None \<and> mj_CompletedAt j' \<noteq> None \<and>
     (case mj_AssignedBot j of None \<Rightarrow> True | Some botID \<Rightarrow>
        (case cached_bot m botID of None \<Rightarrow> False | Some b \<Rightarrow> mb_Status b = BotStatusIdle \<and> mb_CurrentJob b = None))"

definition timeout_inv :: "string \<Rightarrow> MasterJob \<Rightarrow> Mem \<Rightarrow> bool" where
  "timeout_inv jobID j m \<longleftrightarrow> (\<exists>j'. cached_job m jobID = Some j' \<and> (j' = j \<or> failed_by_timeout j m j'))"

definition timeout_done :: "string \<Rightarrow> MasterJob \<Rightarrow> Mem \<Rightarrow> bool" where
  "timeout_done jobID j m \<longleftrightarrow> (\<exists>j'. cached_job m jobID = Some j' \<and>
     (if mj_AssignedBot j \<noteq> None \<or> mj_Status j = JobPending then failed_by_timeout j m j' else j' = j))"

lemma timeout_cong:
  assumes "cached_job m' = cached_job m" "cached_bot m' = cached_bot m"
  shows "timeout_inv jobID j m' = timeout_inv jobID j m" "timeout_done jobID j m' = timeout_done jobID j m"
  unfolding timeout_inv_def timeout_done_def failed_by_timeout_def assms by (rule refl)+

lemma timeout_done_inv: "timeout_done jobID j m \<Longrightarrow> timeout_inv jobID j m"
  by (auto simp: timeout_done_def timeout_inv_def split: if_splits)

lemma complete_body_timeout:
  assumes "timeout_inv jobID j m" "mj_AssignedBot j = Some botID"
  shows "case complete_body db env jobID botID False (d, m) of (eo, (d', m')) \<Rightarrow> timeout_inv jobID j m' \<and> (eo = None \<longrightarrow> timeout_done jobID j m')"
proof -
  obtain j' where j': "cached_job m jobID = Some j'" "j' = j \<or> failed_by_timeout j m j'" using assms(1) by (auto simp: timeout_inv_def)
  show ?thesis
  proof (cases "cached_bot m botID = None \<or> mj_AssignedBot j' \<noteq> Some botID")
    case True
    then show ?thesis using j' assms by (auto simp: complete_body_def split: option.splits)
  next
    case False
    then obtain b where "cached_bot m botID = Some b" "j' = j" using j'(2) by (auto simp: failed_by_timeout_def)
    then show ?thesis using j' assms
      by (auto simp: complete_body_def time_Now_def Let_def timeout_inv_def timeout_done_def failed_by_timeout_def split: option.splits prod.splits)
  qed
qed

lemma CompleteJob_timeout:
  assumes "timeout_inv jobID j m" "mj_AssignedBot j = Some botID"
  shows "case CompleteJobWithRetry db env jobID botID False (d, m) of
      (None, (d', m')) \<Rightarrow> timeout_done jobID j m' | (Some e, (d', m')) \<Rightarrow> timeout_inv jobID j m'"
  unfolding CompleteJobWithRetry_def
  using assms(1) by (rule retried_Transaction_rule) (erule complete_body_timeout [OF _ assms(2)])

lemma UpdateJobStatus_timeout:
  assumes "timeout_inv jobID j m" "mj_AssignedBot j = None" "mj_Status j = JobPending"
  shows "case UpdateJobStatusToTimedOut db env jobID (d, m) of
      (None, (d', m')) \<Rightarrow> timeout_done jobID j m' | (Some e, (d', m')) \<Rightarrow> timeout_inv jobID j m'"
  unfolding UpdateJobStatusToTimedOut_def using assms(1)
proof (rule retried_Transaction_rule)
  fix d m
  assume inv: "timeout_inv jobID j m"
  obtain j' where j': "cached_job m jobID = Some j'" "j' = j \<or> failed_by_timeout j m j'" using inv by (auto simp: timeout_inv_def)
  have pend: "j' = j" if "mj_Status j' = JobPending" using that j'(2) by (auto simp: failed_by_timeout_def)
  have fin: "timeout_done jobID j m" if "mj_Status j' \<noteq> JobPending" using that j' assms(2,3) by (auto simp: timeout_done_def)
  show "case (case (d, m) of (d, m) \<Rightarrow> case cached_job m jobID of
         None \<Rightarrow> (Some (not_found ''update_job_timeout'' ''job'' jobID), (d, m))
       | Some j \<Rightarrow>
           if mj_Status j \<noteq> JobPending then (None, (d, m))
           else
             (let (now, m1) = time_Now env m;
                  md = map_put (map_put (mj_Metadata j) ''failure_reason'' (AString ''timeout'')) ''timed_out_at'' (AString (env_format env now));
                  j' = j\<lparr>mj_Status := JobFailed, mj_CompletedAt := Some now, mj_Metadata := md\<rparr>;
                  m2 = put_job jobID j' m1
              in case store_step db ''save_job_timeout'' (''job:'' @ jobID) (VJob j') d of
                   (Some e, d') \<Rightarrow> (Some e, (d', m2))
                 | (None, d') \<Rightarrow> (None, (d', count_tx m2)))) of
      (eo, (d', x')) \<Rightarrow> timeout_inv jobID j x' \<and> (eo = None \<longrightarrow> timeout_done jobID j x')"
  proof (cases "mj_Status j' = JobPending")
    case True
    then show ?thesis using j'(1) pend assms(2)
      by (auto simp: time_Now_def Let_def timeout_inv_def timeout_done_def failed_by_timeout_def split: option.splits prod.splits)
  next
    case False
    then show ?thesis using j'(1) fin inv by simp
  qed
qed

lemma GetJob_cached:
  assumes "cached_job m jobID = Some j'"
  shows "\<exists>m1. GetJob db env jobID (d, m) = (Inr j', (d, m1)) \<and> cached_job m1 = cached_job m \<and> cached_bot m1 = cached_bot m"
  using assms by (simp add: GetJob_def time_Now_def)

text \<open>One attempt: it ends the timeout, or keeps the job as it was or already failed.\<close>

lemma expire_job_law:
  assumes "timeout_inv jobID j m" "cached_job m jobID = Some j'"
  shows "case expire_job db env jobID j' (d, m) of
      (None, (d', m')) \<Rightarrow> timeout_done jobID j m' | (Some e, (d', m')) \<Rightarrow> timeout_inv jobID j m'"
proof (cases "j' = j \<and> (mj_AssignedBot j \<noteq> None \<or> mj_Status j = JobPending)")
  case True
  show ?thesis
  proof (cases "mj_AssignedBot j")
    case None
    then show ?thesis using UpdateJobStatus_timeout [OF assms(1) None, of db env d] True by (simp add: expire_job_def)
  next
    case (Some botID)
    then show ?thesis using CompleteJob_timeout [OF assms(1) Some, of db env d] True by (simp add: expire_job_def)
  qed
next
  case False
  have "j' = j \<or> failed_by_timeout j m j'" using assms by (simp add: timeout_inv_def)
  then have "expire_job db env jobID j' (d, m) = (None, (d, m))" "timeout_done jobID j m"
    using False assms(2) by (auto simp: expire_job_def timeout_done_def failed_by_timeout_def)
  then show ?thesis by simp
qed

lemma job_timeout_attempt_law:
  assumes "timeout_inv jobID j m"
  shows "case job_timeout_attempt db env jobID (tm, (d, m)) of
      (None, (tm', (d', m'))) \<Rightarrow> timeout_done jobID j m' \<and> GetJobTimeout tm' jobID = None
    | (Some e, (tm', (d', m'))) \<Rightarrow> timeout_inv jobID j m'"
proof -
  obtain j' where j': "cached_job m jobID = Some j'" using assms by (auto simp: timeout_inv_def)
  obtain m1 where m1: "GetJob db env jobID (d, m) = (Inr j', (d, m1))" "cached_job m1 = cached_job m" "cached_bot m1 = cached_bot m"
    using GetJob_cached [OF j', of db env d] by blast
  define m2 where "m2 = snd (time_Now env (snd (time_Now env m1)))"
  have m2: "cached_job m2 = cached_job m" "cached_bot m2 = cached_bot m" using m1 by (simp_all add: m2_def time_Now_def)
  have inv2: "timeout_inv jobID j m2" "cached_job m2 jobID = Some j'" using assms j' by (simp_all only: timeout_cong(1) [OF m2] m2)
  obtain eo d3 m3 where r3: "expire_job db env jobID j' (d, m2) = (eo, (d3, m3))" by (metis prod_cases3)
  have log: "timeout_inv jobID j m4 = timeout_inv jobID j m3 \<and> timeout_done jobID j m4 = timeout_done jobID j m3"
    if "logTimeoutEvent db ev (d3, m3) = (eo', (d4, m4))" for ev eo' d4 m4
    using SetMetadata_caches [OF that [unfolded logTimeoutEvent_def]] timeout_cong by blast
  have unt: "GetJobTimeout (count_job (RemoveJobTimeout jobID tm)) jobID = None"
    by (simp add: GetJobTimeout_def count_job_def RemoveJobTimeout_def delete_conv')
  show ?thesis
  proof (cases eo)
    case None
    then show ?thesis using m1(1) expire_job_law [OF inv2, of db env d] r3 log unt timeout_done_inv
      by (auto simp: job_timeout_attempt_def Let_def m2_def split: prod.splits option.splits)
  next
    case (Some e)
    then show ?thesis using m1(1) expire_job_law [OF inv2, of db env d] r3
      by (auto simp: job_timeout_attempt_def Let_def m2_def split: prod.splits option.splits)
  qed
qed

lemma handleJobTimeout_law:
  assumes "cached_job m jobID = Some j"
  shows "case handleJobTimeout db env jobID (tm, (d, m)) of
      (None, (tm', (d', m'))) \<Rightarrow> timeout_done jobID j m' \<and> GetJobTimeout tm' jobID = None
    | (Some e, (tm', (d', m'))) \<Rightarrow> timeout_inv jobID j m'"
proof -
  let ?I = "\<lambda>s. timeout_inv jobID j (snd (snd s))" and ?Q = "\<lambda>s. timeout_done jobID j (snd (snd s)) \<and> GetJobTimeout (fst s) jobID = None"
  have "case retry_Execute (tm_retryManager tm) (job_timeout_attempt db env jobID) (tm, (d, m)) of (None, s') \<Rightarrow> ?Q s' | (Some e, s') \<Rightarrow> ?I s'"
  proof (rule retry_Execute_rule [of ?I])
    show "?I (tm, (d, m))" using assms by (simp add: timeout_inv_def)
    show "case job_timeout_attempt db env jobID s of (None, s') \<Rightarrow> ?Q s' | (Some e, s') \<Rightarrow> ?I s'" if "?I s" for s
      using job_timeout_attempt_law [OF that, of db env "fst s" "fst (snd s)"] by (cases s) (auto split: prod.splits option.splits)
  qed
  then show ?thesis by (auto simp: handleJobTimeout_def split: prod.splits option.splits)
qed

text \<open>On a database without faults every step succeeds.\<close>

lemma mem_SetMetadata:
  assumes "md_faults d = []" "0 \<le> pol_MaxRetries (ps_retryManager (mem_ps m))"
  shows "\<exists>d' m'. SetMetadata mem_database k v (d, m) = (None, (d', m')) \<and> md_store d' (''metadata:'' @ k) = Some v \<and> md_faults d' = []"
proof -
  let ?fn = "\<lambda>(d, m). case store_step mem_database ''set_metadata'' (''metadata:'' @ k) v d of (Some e, d') \<Rightarrow> (Some e, (d', m)) | (None, d') \<Rightarrow> (None, (d', count_tx m))"
  have "\<exists>d' m'. tx_attempt mem_database ?fn (d, put_metadata k v m) = (None, (d', m')) \<and> md_store d' (''metadata:'' @ k) = Some v \<and> md_faults d' = []"
    using assms(1) by (simp add: tx_attempt_def mem_ctx mem_database_ops store_step_def md_op_def md_store_def update_conv')
  then obtain d' m' where a: "tx_attempt mem_database ?fn (d, put_metadata k v m) = (None, (d', m'))"
      and t: "md_store d' (''metadata:'' @ k) = Some v" "md_faults d' = []" by blast
  have "retry_Execute (ps_retryManager (mem_ps m)) (\<lambda>(d, m). Transaction mem_database ?fn (d, put_metadata k v m)) (d, m) = (None, (d', m'))"
    using mem_Transaction_once [OF a] assms(2) by (intro retry_Execute_success) simp_all
  then show ?thesis using t by (simp add: SetMetadata_def)
qed

lemma mem_Complete:
  assumes "md_faults d = []" "0 \<le> pol_MaxRetries (ps_retryManager (mem_ps m))"
    and "cached_job m jobID = Some j" "mj_AssignedBot j = Some botID" "cached_bot m botID = Some b"
  shows "\<exists>d' m'. CompleteJobWithRetry mem_database env jobID botID success (d, m) = (None, (d', m')) \<and> md_faults d' = [] \<and>
    ps_retryManager (mem_ps m') = ps_retryManager (mem_ps m)"
proof -
  have "\<exists>d' m'. tx_attempt mem_database (complete_body mem_database env jobID botID success) (d, m) = (None, (d', m')) \<and> md_faults d' = [] \<and>
      ps_retryManager (mem_ps m') = ps_retryManager (mem_ps m)"
    using assms by (simp add: tx_attempt_def mem_ctx mem_database_ops complete_body_def store_step_def md_op_def time_Now_def Let_def)
  then obtain d' m' where a: "tx_attempt mem_database (complete_body mem_database env jobID botID success) (d, m) = (None, (d', m'))"
      and t: "md_faults d' = []" "ps_retryManager (mem_ps m') = ps_retryManager (mem_ps m)" by blast
  show ?thesis using mem_Transaction_once [OF a] t assms(2) by (simp add: CompleteJobWithRetry_def retry_Execute_success)
qed

lemma mem_timeout_succeeds:
  assumes "cached_job m jobID = Some j" and "0 \<le> pol_MaxRetries (tm_retryManager tm)"
    and "0 \<le> pol_MaxRetries (ps_retryManager (mem_ps m))"
    and e: "\<And>m2. cached_job m2 = cached_job m \<Longrightarrow> cached_bot m2 = cached_bot m \<Longrightarrow> ps_retryManager (mem_ps m2) = ps_retryManager (mem_ps m) \<Longrightarrow>
      \<exists>d3 m3. expire_job mem_database env jobID j (d, m2) = (None, (d3, m3)) \<and> md_faults d3 = [] \<and>
        ps_retryManager (mem_ps m3) = ps_retryManager (mem_ps m)"
  shows "\<exists>d' m' ev. handleJobTimeout mem_database env jobID (tm, (d, m)) = (None, (count_job (RemoveJobTimeout jobID tm), (d', m'))) \<and>
    te_EntityID ev = jobID \<and> md_store d' (''metadata:'' @ event_key ev) = Some (VEvent ev)"
proof -
  define m1 where "m1 = put_access (''job:'' @ jobID) (env_clock env (mem_tick m)) (m\<lparr>mem_tick := Suc (mem_tick m)\<rparr>)"
  define m2 where "m2 = snd (time_Now env (snd (time_Now env m1)))"
  have g: "GetJob mem_database env jobID (d, m) = (Inr j, (d, m1))" using assms(1) by (simp add: GetJob_def time_Now_def m1_def)
  have "cached_job m2 = cached_job m" "cached_bot m2 = cached_bot m" "ps_retryManager (mem_ps m2) = ps_retryManager (mem_ps m)"
    by (simp_all add: m2_def m1_def time_Now_def)
  from e [OF this] obtain d3 m3 where x: "expire_job mem_database env jobID j (d, m2) = (None, (d3, m3))" "md_faults d3 = []"
      "ps_retryManager (mem_ps m3) = ps_retryManager (mem_ps m)" by blast
  define ev where "ev = \<lparr>te_Type = TimeoutTypeJob, te_EntityID = jobID, te_Timestamp = fst (time_Now env m1),
    te_Duration = time_Sub (fst (time_Now env (snd (time_Now env m1)))) (mj_CreatedAt j), te_Reason = ''Execution timeout''\<rparr>"
  obtain d' m' where l: "logTimeoutEvent mem_database ev (d3, m3) = (None, (d', m'))" "md_store d' (''metadata:'' @ event_key ev) = Some (VEvent ev)"
    using mem_SetMetadata [OF x(2), of m3 "event_key ev" "VEvent ev"] assms(3) x(3) by (auto simp: logTimeoutEvent_def)
  have "job_timeout_attempt mem_database env jobID (tm, (d, m)) = (None, (count_job (RemoveJobTimeout jobID tm), (d', m')))"
    using g x(1) l(1) by (simp add: job_timeout_attempt_def Let_def m2_def ev_def case_prod_unfold)
  then have "handleJobTimeout mem_database env jobID (tm, (d, m)) = (None, (count_job (RemoveJobTimeout jobID tm), (d', m')))"
    using assms(2) by (simp add: handleJobTimeout_def retry_Execute_success)
  moreover have "te_EntityID ev = jobID" by (simp add: ev_def)
  ultimately show ?thesis using l(2) by blast
qed

text \<open>The initial tracking takes every listed job, whatever its status.\<close>

lemma fold_put_jobTimeout:
  "GetJobTimeout (fold (\<lambda>j. put_jobTimeout (mj_ID j) (mj_TimeoutAt j)) js tm) k =
     (case List.find (\<lambda>j. mj_ID j = k) (rev js) of Some j \<Rightarrow> Some (mj_TimeoutAt j) | None \<Rightarrow> GetJobTimeout tm k)"
  by (induction js rule: rev_induct) (simp_all add: GetJobTimeout_def put_jobTimeout_def update_conv')

lemma find_by_key: "distinct (map f xs) \<Longrightarrow> x \<in> set xs \<Longrightarrow> List.find (\<lambda>y. f y = f x) xs = Some x"
  by (induction xs) (auto simp: image_iff)

lemma init_tracks_every_job:
  assumes "initializeTimeouts db env (tm, (d, m)) = (tm', w')" and "fst (ListJobs db env (d, snd (ps_ListBots env m))) = js"
    and "distinct (map mj_ID js)" and "j \<in> set js"
  shows "GetJobTimeout tm' (mj_ID j) = Some (mj_TimeoutAt j)"
proof -
  have "List.find (\<lambda>i. mj_ID i = mj_ID j) (rev js) = Some j"
    using assms(3,4) by (intro find_by_key) (simp_all flip: rev_map)
  then show ?thesis using assms(1,2) by (auto simp: initializeTimeouts_def fold_put_jobTimeout split: prod.splits)
qed

section \<open>Properties\<close>

text \<open>C14: A job timeout that is handled without an error leaves the job untracked and, in memory, settled: a
  pending or assigned job is failed, belongs to no bot and has its completion time, the bot that had
  it is idle and without a job, and a job that was neither pending nor assigned is left exactly as
  it was. This holds for every behaviour of the database and for any number of retries.
\<close>

theorem job_timeout_outcome:
  assumes "cached_job m jobID = Some j" and "handleJobTimeout db env jobID (tm, (d, m)) = (None, (tm', (d', m')))"
  shows "GetJobTimeout tm' jobID = None \<and> (\<exists>j'. cached_job m' jobID = Some j' \<and>
    (if mj_AssignedBot j = None \<and> mj_Status j \<noteq> JobPending then j' = j
     else mj_Status j' = JobFailed \<and> mj_AssignedBot j' = None \<and> mj_CompletedAt j' \<noteq> None \<and>
       (case mj_AssignedBot j of None \<Rightarrow> True | Some botID \<Rightarrow>
         \<exists>b. cached_bot m' botID = Some b \<and> mb_Status b = BotStatusIdle \<and> mb_CurrentJob b = None)))"
  using handleJobTimeout_law [OF assms(1), of db env tm d] assms(2)
  by (auto simp: timeout_done_def failed_by_timeout_def split: if_splits option.splits)

definition sample_tm :: TimeoutManager where
  "sample_tm = put_jobTimeout ''j1'' 50 (NewTimeoutManager DefaultPolicy 0 0)"

lemma sample_tm_retries: "0 \<le> pol_MaxRetries (tm_retryManager sample_tm)"
  by (simp add: sample_tm_def put_jobTimeout_def NewTimeoutManager_def DefaultPolicy_def)

theorem job_timeout_outcome_witness:
  "\<exists>tm' d' m' j' b. handleJobTimeout mem_database sample_env ''j1''
      (sample_tm, (sample_db [], sample_mem (assigned_to ''b1'' 7 sample_mjob) (busy_with ''j1'' 7 sample_bot))) = (None, (tm', (d', m'))) \<and>
    cached_job m' ''j1'' = Some j' \<and> mj_Status j' = JobFailed \<and> cached_bot m' ''b1'' = Some b \<and> mb_Status b = BotStatusIdle"
proof -
  let ?j = "assigned_to ''b1'' 7 sample_mjob" and ?b = "busy_with ''j1'' 7 sample_bot"
  let ?m = "sample_mem ?j ?b"
  have f: "cached_job ?m ''j1'' = Some ?j" "cached_bot ?m ''b1'' = Some ?b" "mj_AssignedBot ?j = Some ''b1''" "mj_Status ?j = JobAssigned"
    by (simp_all add: assigned_to_def busy_with_def)
  have "\<exists>d' m' ev. handleJobTimeout mem_database sample_env ''j1'' (sample_tm, (sample_db [], ?m)) =
      (None, (count_job (RemoveJobTimeout ''j1'' sample_tm), (d', m'))) \<and>
    te_EntityID ev = ''j1'' \<and> md_store d' (''metadata:'' @ event_key ev) = Some (VEvent ev)"
  proof (rule mem_timeout_succeeds [OF f(1) sample_tm_retries])
    show "0 \<le> pol_MaxRetries (ps_retryManager (mem_ps ?m))" using DatabasePolicy_retries by simp
    fix m2
    assume m2: "cached_job m2 = cached_job ?m" "cached_bot m2 = cached_bot ?m" "ps_retryManager (mem_ps m2) = ps_retryManager (mem_ps ?m)"
    then show "\<exists>d3 m3. expire_job mem_database sample_env ''j1'' ?j (sample_db [], m2) = (None, (d3, m3)) \<and> md_faults d3 = [] \<and>
        ps_retryManager (mem_ps m3) = ps_retryManager (mem_ps ?m)"
      using mem_Complete [of "sample_db []" m2 "''j1''" ?j "''b1''" ?b sample_env False] f DatabasePolicy_retries
      by (simp add: expire_job_def sample_db_def)
  qed
  then obtain tm' d' m' where r: "handleJobTimeout mem_database sample_env ''j1'' (sample_tm, (sample_db [], ?m)) = (None, (tm', (d', m')))" by blast
  from job_timeout_outcome [OF f(1) r] f(3,4) r show ?thesis by auto
qed

text \<open>The timeout of a job that has already finished (the manager tracks every listed job at start-up,
  whatever its status) is handled like any other: while the store works, the job is left as it is,
  yet it is counted as timed out and a timeout event is recorded for it.
\<close>

theorem finished_job_counted_as_timeout:
  assumes "cached_job m jobID = Some j" and "mj_AssignedBot j = None" and "mj_Status j \<noteq> JobPending" and "md_faults d = []"
    and "0 \<le> pol_MaxRetries (tm_retryManager tm)" and "0 \<le> pol_MaxRetries (ps_retryManager (mem_ps m))"
  shows "\<exists>tm' d' m' ev. handleJobTimeout mem_database env jobID (tm, (d, m)) = (None, (tm', (d', m'))) \<and>
    cached_job m' jobID = Some j \<and> ts_JobsTimedOut (tm_stats tm') = wrap64 (ts_JobsTimedOut (tm_stats tm) + 1) \<and>
    te_EntityID ev = jobID \<and> md_store d' (''metadata:'' @ event_key ev) = Some (VEvent ev)"
proof -
  have "\<exists>d3 m3. expire_job mem_database env jobID j (d, m2) = (None, (d3, m3)) \<and> md_faults d3 = [] \<and>
      ps_retryManager (mem_ps m3) = ps_retryManager (mem_ps m)" if "ps_retryManager (mem_ps m2) = ps_retryManager (mem_ps m)" for m2
    using that assms(2-4) by (simp add: expire_job_def)
  from mem_timeout_succeeds [OF assms(1,5,6) this]
  obtain d' m' ev where r: "handleJobTimeout mem_database env jobID (tm, (d, m)) = (None, (count_job (RemoveJobTimeout jobID tm), (d', m')))"
      "te_EntityID ev = jobID" "md_store d' (''metadata:'' @ event_key ev) = Some (VEvent ev)" by blast
  have "timeout_done jobID j m'" using handleJobTimeout_law [OF assms(1), of mem_database env tm d] r(1) by simp
  then have "cached_job m' jobID = Some j" using assms(2,3) by (simp add: timeout_done_def)
  then show ?thesis using r by (auto simp: count_job_def RemoveJobTimeout_def)
qed

theorem finished_job_counted_as_timeout_witness:
  "\<exists>tm' d' m'. handleJobTimeout mem_database sample_env ''j1''
      (sample_tm, (sample_db [], sample_mem (completed_by True 7 sample_mjob) sample_bot)) = (None, (tm', (d', m'))) \<and>
    ts_JobsTimedOut (tm_stats tm') = 1"
proof -
  have "cached_job (sample_mem (completed_by True 7 sample_mjob) sample_bot) ''j1'' = Some (completed_by True 7 sample_mjob)"
    by (simp add: completed_by_def)
  from finished_job_counted_as_timeout [OF this, of "sample_db []" sample_tm sample_env] sample_tm_retries DatabasePolicy_retries
  show ?thesis
    by (auto simp: completed_by_def sample_db_def sample_tm_def put_jobTimeout_def NewTimeoutManager_def wrap64_def)
qed

end
