(* ===== verification/Master_Recovery.thy ===== *)
theory Master_Recovery
  imports Timeout_Manager
begin

text \<open>
  The recovery manager of the master, \<open>pkg/master/recovery.go\<close>, and \<open>LoadPersistedState\<close> of
  \<open>pkg/master/state.go\<close>: what the master does with the persisted state when it starts and at each
  maintenance run, through the state manager (\<open>Master_State\<close>) and the timeout manager
  (\<open>Timeout_Manager\<close>).

  An operation runs on \<open>'d rworld\<close>: the recovery manager's counters and the world of the timeout manager.
  A job or bot that a list operation returns is the cache entry of its ID, and assignments to its fields
  are assignments to that entry. \<open>AdvDatabase\<close> has the operations of the store that only the recovery
  uses: \<open>Iterate\<close> (the values it visits, decoded, then its error), \<open>Ping\<close> and the campaign queries of
  \<open>SQLiteStorage\<close>. Log lines are left out.
\<close>

section \<open>State\<close>

record MasterRecoveryStats =
  rs_TotalRecoveries :: int
  rs_LastRecovery :: time
  rs_OrphanedJobsRecovered :: int
  rs_TimedOutBotsReset :: int
  rs_StaleDataCleaned :: int
  rs_RecoveryDuration :: duration
  rs_RecoveryErrors :: int

text \<open>The counters \<open>stats\<close> change and are kept beside the manager, in \<open>'d rworld\<close>; \<open>rm_JobExecution\<close> is
  \<open>config.Timeouts.JobExecution\<close>.\<close>

record RecoveryManager =
  rm_retryManager :: Policy
  rm_JobExecution :: duration

record MasterCampaign =
  mc_ID :: string
  mc_Status :: string
  mc_CompletedAt :: "time option"
  mc_AutoRestart :: bool

text \<open>\<open>UpdateCampaign\<close> is called with a status and a completion time only.\<close>

record 'd AdvDatabase =
  adv_isAdvanced :: bool
  adv_Iterate :: "string \<Rightarrow> 'd \<Rightarrow> ((string \<times> dbval option) list \<times> error option) \<times> 'd"
  adv_Ping :: "'d \<Rightarrow> error option \<times> 'd"
  adv_hasCampaignManager :: bool
  adv_ListCampaigns :: "int \<Rightarrow> 'd \<Rightarrow> MasterCampaign list result \<times> 'd"
  adv_GetCampaignJobs :: "string \<Rightarrow> 'd \<Rightarrow> MasterJob list result \<times> 'd"
  adv_UpdateCampaign :: "string \<Rightarrow> string \<Rightarrow> time option \<Rightarrow> 'd \<Rightarrow> error option \<times> 'd"

type_synonym 'd rworld = "MasterRecoveryStats \<times> 'd tworld"

definition zeroRecoveryStats :: MasterRecoveryStats where
  "zeroRecoveryStats = \<lparr>rs_TotalRecoveries = 0, rs_LastRecovery = time_zero, rs_OrphanedJobsRecovered = 0, rs_TimedOutBotsReset = 0,
     rs_StaleDataCleaned = 0, rs_RecoveryDuration = 0, rs_RecoveryErrors = 0\<rparr>"

definition recoveryPolicy :: Policy where
  "recoveryPolicy = \<lparr>pol_MaxRetries = 5, pol_InitialDelay = 2 * Second, pol_MaxDelay = 30 * Second, pol_Multiplier = 2, pol_Jitter = True,
     pol_RetryableErrors = [''database is locked'', ''connection refused'', ''timeout'', ''temporary failure'']\<rparr>"

definition NewRecoveryManager :: "duration \<Rightarrow> RecoveryManager \<times> MasterRecoveryStats" where
  "NewRecoveryManager jobExecution =
     (\<lparr>rm_retryManager = recoveryPolicy, rm_JobExecution = jobExecution\<rparr>, zeroRecoveryStats)"

section \<open>Loading\<close>

fun load_jobs :: "'d MasterDatabase \<Rightarrow> (string \<times> dbval option) list \<Rightarrow> 'd mworld \<Rightarrow> 'd mworld" where
  "load_jobs db [] w = w"
| "load_jobs db ((key, val) # kvs) (d, m) =
     (let from_json = (case val of Some (VJob j) \<Rightarrow> put_job (mj_ID j) j m | _ \<Rightarrow> m)
      in if db_isSQLite db then
           if \<not> has_prefix key ''job:'' then load_jobs db kvs (d, m)
           else (case db_GetJob db (drop 4 key) d of
               (Inr j, d') \<Rightarrow> load_jobs db kvs (d', put_job (mj_ID j) j m)
             | (Inl _, d') \<Rightarrow> load_jobs db kvs (d', from_json))
         else load_jobs db kvs (d, from_json))"

definition load_bots :: "(string \<times> dbval option) list \<Rightarrow> Mem \<Rightarrow> Mem" where
  "load_bots kvs m = fold (\<lambda>(_, v) m. case v of Some (VBot b) \<Rightarrow> put_bot (mb_ID b) b m | _ \<Rightarrow> m) kvs m"

definition set_LastRecovery :: "time \<Rightarrow> Mem \<Rightarrow> Mem" where
  "set_LastRecovery t = upd_ps (\<lambda>ps. ps\<lparr>ps_stats := (ps_stats ps)\<lparr>st_LastRecovery := t\<rparr>\<rparr>)"

definition LoadPersistedState :: "'d MasterDatabase \<Rightarrow> 'd AdvDatabase \<Rightarrow> Env \<Rightarrow> 'd mworld \<Rightarrow> error option \<times> 'd mworld" where
  "LoadPersistedState db adv env w = retry_Execute (ps_retryManager (mem_ps (snd w))) (\<lambda>(d, m).
     let (d2, m2) =
        (if adv_isAdvanced adv then
           (case adv_Iterate adv ''job:'' d of ((kvs, _), d1) \<Rightarrow> (case load_jobs db kvs (d1, m) of (d1', m1) \<Rightarrow>
              (case adv_Iterate adv ''bot:'' d1' of ((bvs, _), d2) \<Rightarrow> (d2, load_bots bvs m1))))
         else (d, m));
        (now, m3) = time_Now env m2
     in (None, (d2, set_LastRecovery now m3))) w"

section \<open>Steps of the recovery\<close>

definition reset_job :: "MasterJob \<Rightarrow> MasterJob" where
  "reset_job j = j\<lparr>mj_Status := JobPending, mj_AssignedBot := None, mj_StartedAt := None\<rparr>"

text \<open>\<open>RemoveJobTimeout\<close> followed by \<open>UpdateJobTimeout\<close>.\<close>

definition renew_timeout :: "Env \<Rightarrow> string \<Rightarrow> TimeoutManager \<times> Mem \<Rightarrow> TimeoutManager \<times> Mem" where
  "renew_timeout env jobID = (\<lambda>(tm, m). UpdateJobTimeout env jobID (RemoveJobTimeout jobID tm, m))"

definition recover_orphan :: "'d MasterDatabase \<Rightarrow> Env \<Rightarrow> RecoveryManager \<Rightarrow> MasterJob \<Rightarrow> 'd tworld \<Rightarrow> error option \<times> 'd tworld" where
  "recover_orphan db env rm j s = retry_Execute (rm_retryManager rm) (\<lambda>(tm, (d, m)).
     case SaveJobWithRetry db (reset_job j) (d, put_job (mj_ID j) (reset_job j) m) of
       (Some e, w1) \<Rightarrow> (Some e, (tm, w1))
     | (None, (d1, m1)) \<Rightarrow> (case renew_timeout env (mj_ID j) (tm, m1) of (tm2, m2) \<Rightarrow> (None, (tm2, (d1, m2))))) s"

fun orphan_loop :: "'d MasterDatabase \<Rightarrow> Env \<Rightarrow> RecoveryManager \<Rightarrow> MasterJob list \<Rightarrow> 'd rworld \<Rightarrow> 'd rworld" where
  "orphan_loop db env rm [] w = w"
| "orphan_loop db env rm (j # js) (st, s) = (case recover_orphan db env rm j s of
       (Some _, s') \<Rightarrow> orphan_loop db env rm js (st, s')
     | (None, s') \<Rightarrow> orphan_loop db env rm js
         (st\<lparr>rs_OrphanedJobsRecovered := wrap64 (rs_OrphanedJobsRecovered st + 1)\<rparr>, s'))"

text \<open>\<open>FindOrphanedJobs\<close>, \<open>FindTimedOutBots\<close>, \<open>ListJobs\<close> and \<open>ListBots\<close> never return an error.\<close>

definition recoverOrphanedJobs :: "'d MasterDatabase \<Rightarrow> Env \<Rightarrow> RecoveryManager \<Rightarrow> 'd rworld \<Rightarrow> error option \<times> 'd rworld" where
  "recoverOrphanedJobs db env rm = (\<lambda>(st, (tm, (d, m))).
     case FindOrphanedJobs env m of (js, m1) \<Rightarrow> (None, orphan_loop db env rm js (st, (tm, (d, m1)))))"

definition reset_timed_out :: "'d MasterDatabase \<Rightarrow> RecoveryManager \<Rightarrow> string \<Rightarrow> 'd tworld \<Rightarrow> error option \<times> 'd tworld" where
  "reset_timed_out db rm botID s = retry_Execute (rm_retryManager rm) (\<lambda>(tm, w). case ResetBot db botID w of
       (Some e, w1) \<Rightarrow> (Some e, (tm, w1))
     | (None, w1) \<Rightarrow> (None, (RemoveBotTimeout botID tm, w1))) s"

fun bot_loop :: "'d MasterDatabase \<Rightarrow> RecoveryManager \<Rightarrow> string list \<Rightarrow> 'd rworld \<Rightarrow> 'd rworld" where
  "bot_loop db rm [] w = w"
| "bot_loop db rm (b # bs) (st, s) = (case reset_timed_out db rm b s of
       (Some _, s') \<Rightarrow> bot_loop db rm bs (st, s')
     | (None, s') \<Rightarrow> bot_loop db rm bs (st\<lparr>rs_TimedOutBotsReset := wrap64 (rs_TimedOutBotsReset st + 1)\<rparr>, s'))"

definition resetTimedOutBots :: "'d MasterDatabase \<Rightarrow> Env \<Rightarrow> RecoveryManager \<Rightarrow> 'd rworld \<Rightarrow> error option \<times> 'd rworld" where
  "resetTimedOutBots db env rm = (\<lambda>(st, (tm, (d, m))).
     case FindTimedOutBots env m of (bs, m1) \<Rightarrow> (None, bot_loop db rm bs (st, (tm, (d, m1)))))"

fun resume_loop :: "'d MasterDatabase \<Rightarrow> Env \<Rightarrow> RecoveryManager \<Rightarrow> MasterJob list \<Rightarrow> 'd tworld \<Rightarrow> 'd tworld" where
  "resume_loop db env rm [] s = s"
| "resume_loop db env rm (j # js) (tm, (d, m)) =
     (if mj_Status j \<noteq> JobPending then resume_loop db env rm js (tm, (d, m))
      else
        (let (now, m1) = time_Now env m
         in if time_Before (mj_TimeoutAt j) now then
              (let (now2, m2) = time_Now env m1; j' = j\<lparr>mj_TimeoutAt := time_Add now2 (rm_JobExecution rm)\<rparr>
               in case SaveJobWithRetry db j' (d, put_job (mj_ID j) j' m2) of
                    (Some _, w3) \<Rightarrow> resume_loop db env rm js (tm, w3)
                  | (None, (d3, m3)) \<Rightarrow> (case UpdateJobTimeout env (mj_ID j) (tm, m3) of (tm4, m4) \<Rightarrow> resume_loop db env rm js (tm4, (d3, m4))))
            else (case UpdateJobTimeout env (mj_ID j) (tm, m1) of (tm4, m4) \<Rightarrow> resume_loop db env rm js (tm4, (d, m4)))))"

definition resumePendingJobs :: "'d MasterDatabase \<Rightarrow> Env \<Rightarrow> RecoveryManager \<Rightarrow> 'd rworld \<Rightarrow> error option \<times> 'd rworld" where
  "resumePendingJobs db env rm = (\<lambda>(st, (tm, w)). case ListJobs db env w of (js, w1) \<Rightarrow> (None, (st, resume_loop db env rm js (tm, w1))))"

text \<open>\<open>cleanupStaleData\<close>: the clock is read for a finished job and for a pending one, and not for others.\<close>

definition finished :: "MasterJob \<Rightarrow> bool" where
  "finished j \<longleftrightarrow> mj_Status j = JobCompleted \<or> mj_Status j = JobFailed \<or> mj_Status j = JobCancelled"

definition is_stale :: "Env \<Rightarrow> MasterJob \<Rightarrow> Mem \<Rightarrow> bool \<times> Mem" where
  "is_stale env j m =
     (if finished j then
        (let (now, m1) = time_Now env m
         in (time_Sub now (case mj_CompletedAt j of Some t \<Rightarrow> t | None \<Rightarrow> mj_CreatedAt j) > 24 * Hour, m1))
      else if mj_Status j = JobPending then
        (let (now, m1) = time_Now env m in (time_Sub now (mj_CreatedAt j) > 24 * Hour, m1))
      else (False, m))"

definition clean_job :: "'d MasterDatabase \<Rightarrow> RecoveryManager \<Rightarrow> string \<Rightarrow> 'd tworld \<Rightarrow> error option \<times> 'd tworld" where
  "clean_job db rm jobID s = retry_Execute (rm_retryManager rm) (\<lambda>(tm, w).
     case DeleteJob db jobID w of (eo, w1) \<Rightarrow> (eo, (RemoveJobTimeout jobID tm, w1))) s"

fun clean_loop :: "'d MasterDatabase \<Rightarrow> Env \<Rightarrow> RecoveryManager \<Rightarrow> MasterJob list \<Rightarrow> int \<Rightarrow> 'd tworld \<Rightarrow> int \<times> 'd tworld" where
  "clean_loop db env rm [] n s = (n, s)"
| "clean_loop db env rm (j # js) n (tm, (d, m)) = (case is_stale env j m of
       (False, m1) \<Rightarrow> clean_loop db env rm js n (tm, (d, m1))
     | (True, m1) \<Rightarrow> (case clean_job db rm (mj_ID j) (tm, (d, m1)) of
         (Some _, s') \<Rightarrow> clean_loop db env rm js n s'
       | (None, s') \<Rightarrow> clean_loop db env rm js (wrap64 (n + 1)) s'))"

definition cleanupStaleData :: "'d MasterDatabase \<Rightarrow> Env \<Rightarrow> RecoveryManager \<Rightarrow> 'd rworld \<Rightarrow> error option \<times> 'd rworld" where
  "cleanupStaleData db env rm = (\<lambda>(st, (tm, w)). case ListJobs db env w of (js, w1) \<Rightarrow>
     (case clean_loop db env rm js 0 (tm, w1) of (n, s) \<Rightarrow> (None, (st\<lparr>rs_StaleDataCleaned := wrap64 (rs_StaleDataCleaned st + n)\<rparr>, s))))"

text \<open>The two repairs of \<open>validateSystemState\<close>.\<close>

fun fix_bots :: "'d MasterDatabase \<Rightarrow> string set \<Rightarrow> MasterBot list \<Rightarrow> 'd mworld \<Rightarrow> 'd mworld" where
  "fix_bots db jobIDSet [] w = w"
| "fix_bots db jobIDSet (b # bs) (d, m) = (case mb_CurrentJob b of
       None \<Rightarrow> fix_bots db jobIDSet bs (d, m)
     | Some k \<Rightarrow>
         if k \<in> jobIDSet then fix_bots db jobIDSet bs (d, m)
         else let b' = b\<lparr>mb_Status := BotStatusIdle, mb_CurrentJob := None\<rparr>
              in fix_bots db jobIDSet bs (snd (SaveBotWithRetry db b' (d, put_bot (mb_ID b) b' m))))"

fun fix_jobs :: "'d MasterDatabase \<Rightarrow> string set \<Rightarrow> MasterJob list \<Rightarrow> 'd mworld \<Rightarrow> 'd mworld" where
  "fix_jobs db botIDs [] w = w"
| "fix_jobs db botIDs (j # js) (d, m) =
     (if mj_Status j = JobAssigned \<or> mj_Status j = JobRunning then
        (case mj_AssignedBot j of
           None \<Rightarrow> fix_jobs db botIDs js (d, m)
         | Some b \<Rightarrow>
             if b \<in> botIDs then fix_jobs db botIDs js (d, m)
             else fix_jobs db botIDs js (snd (SaveJobWithRetry db (reset_job j) (d, put_job (mj_ID j) (reset_job j) m))))
      else fix_jobs db botIDs js (d, m))"

definition validateSystemState ::
    "'d MasterDatabase \<Rightarrow> 'd AdvDatabase \<Rightarrow> Env \<Rightarrow> 'd rworld \<Rightarrow> error option \<times> 'd rworld" where
  "validateSystemState db adv env = (\<lambda>(st, (tm, (d, m))). case adv_Ping adv d of
       (Some e, d1) \<Rightarrow> (Some (WrapError ''database health check failed: '' e), (st, (tm, (d1, m))))
     | (None, d1) \<Rightarrow>
         (let (now, m1) = time_Now env m
          in case tm_HealthCheck now tm of
               Some e \<Rightarrow> (Some (WrapError ''timeout manager health check failed: '' e), (st, (tm, (d1, m1))))
             | None \<Rightarrow>
                 (let (bs, m2) = ps_ListBots env m1; (js, w3) = ListJobs db env (d1, m2);
                      w4 = fix_bots db (set (map mj_ID js)) bs w3;
                      w5 = fix_jobs db (set (map mb_ID bs)) js w4
                  in (None, (st, (tm, w5))))))"

section \<open>Campaigns\<close>

text \<open>A campaign that is only logged as eligible for a restart is not changed.\<close>

definition all_complete :: "MasterJob list \<Rightarrow> bool" where
  "all_complete js \<longleftrightarrow> list_all (\<lambda>j. mj_Status j = JobCompleted \<or> mj_Status j = JobFailed) js"

fun campaign_loop :: "'d AdvDatabase \<Rightarrow> Env \<Rightarrow> MasterCampaign list \<Rightarrow> 'd mworld \<Rightarrow> 'd mworld" where
  "campaign_loop adv env [] w = w"
| "campaign_loop adv env (c # cs) (d, m) =
     (if mc_Status c \<noteq> ''running'' then campaign_loop adv env cs (d, m)
      else (case adv_GetCampaignJobs adv (mc_ID c) d of
          (Inl _, d1) \<Rightarrow> campaign_loop adv env cs (d1, m)
        | (Inr js, d1) \<Rightarrow>
            if all_complete js then
              (let (now, m1) = time_Now env m
               in campaign_loop adv env cs (snd (adv_UpdateCampaign adv (mc_ID c) ''completed'' (Some now) d1), m1))
            else campaign_loop adv env cs (d1, m)))"

definition recoverCampaigns :: "'d MasterDatabase \<Rightarrow> 'd AdvDatabase \<Rightarrow> Env \<Rightarrow> 'd mworld \<Rightarrow> error option \<times> 'd mworld" where
  "recoverCampaigns db adv env w =
     (if \<not> adv_hasCampaignManager adv then (None, w)
      else if \<not> db_isSQLite db then (None, w)
      else (case adv_ListCampaigns adv 1000 (fst w) of
          (Inl e, d) \<Rightarrow> (Some (WrapError ''failed to list campaigns: '' e), (d, snd w))
        | (Inr cs, d) \<Rightarrow> (None, campaign_loop adv env cs (d, snd w))))"

section \<open>Startup, bot failures and maintenance\<close>

text \<open>Run a step and wrap its error.\<close>

definition step :: "string \<Rightarrow> ('s \<Rightarrow> error option \<times> 's) \<Rightarrow> error option \<times> 's \<Rightarrow> error option \<times> 's" where
  "step msg f = (\<lambda>(eo, s). case eo of
       Some e \<Rightarrow> (Some e, s)
     | None \<Rightarrow> (case f s of (Some e, s') \<Rightarrow> (Some (WrapError msg e), s') | (None, s') \<Rightarrow> (None, s')))"

definition on_mworld :: "('d mworld \<Rightarrow> error option \<times> 'd mworld) \<Rightarrow> 'd rworld \<Rightarrow> error option \<times> 'd rworld" where
  "on_mworld f = (\<lambda>(st, (tm, w)). case f w of (eo, w') \<Rightarrow> (eo, (st, (tm, w'))))"

definition startup_attempt ::
    "'d MasterDatabase \<Rightarrow> 'd AdvDatabase \<Rightarrow> Env \<Rightarrow> RecoveryManager \<Rightarrow> 'd rworld \<Rightarrow> error option \<times> 'd rworld" where
  "startup_attempt db adv env rm w =
     step ''system state validation failed: '' (validateSystemState db adv env)
       (step ''failed to cleanup stale data: '' (cleanupStaleData db env rm)
         (step ''failed to resume pending jobs: '' (resumePendingJobs db env rm)
           (step ''failed to reset timed-out bots: '' (resetTimedOutBots db env rm)
             (step ''failed to recover orphaned jobs: '' (recoverOrphanedJobs db env rm)
               (step ''failed to recover campaigns: '' (on_mworld (recoverCampaigns db adv env))
                 (step ''failed to load persisted state: '' (on_mworld (LoadPersistedState db adv env)) (None, w)))))))"

definition RecoverOnStartup ::
    "'d MasterDatabase \<Rightarrow> 'd AdvDatabase \<Rightarrow> Env \<Rightarrow> RecoveryManager \<Rightarrow> 'd rworld \<Rightarrow> error option \<times> 'd rworld" where
  "RecoverOnStartup db adv env rm = (\<lambda>(st, (tm, (d, m))).
     let (start, m0) = time_Now env m;
         (eo, (st1, (tm1, (d1, m1)))) = retry_Execute (rm_retryManager rm) (startup_attempt db adv env rm) (st, (tm, (d, m0)));
         (t1, m2) = time_Now env m1
     in case eo of
          Some e \<Rightarrow> (Some (NewSystemError ''recovery_on_startup'' e),
            (st1\<lparr>rs_RecoveryErrors := wrap64 (rs_RecoveryErrors st1 + 1)\<rparr>, (tm1, (d1, m2))))
        | None \<Rightarrow>
            (let (t2, m3) = time_Now env m2
             in (None, (st1\<lparr>rs_TotalRecoveries := wrap64 (rs_TotalRecoveries st1 + 1), rs_LastRecovery := t2,
                   rs_RecoveryDuration := time_Sub t1 start\<rparr>, (tm1, (d1, m3))))))"

text \<open>
  The body of the transaction of \<open>HandleBotFailureWithRetry\<close> does not use the transaction: it saves through
  the state manager, which opens transactions of its own.
\<close>

definition bot_failure_body ::
    "'d MasterDatabase \<Rightarrow> Env \<Rightarrow> string \<Rightarrow> 'd \<times> (TimeoutManager \<times> Mem) \<Rightarrow> error option \<times> ('d \<times> (TimeoutManager \<times> Mem))" where
  "bot_failure_body db env botID = (\<lambda>(d, (tm, m)). case ps_GetBot db env botID (d, m) of
       (Inl e, (d1, m1)) \<Rightarrow> (Some e, (d1, (tm, m1)))
     | (Inr b, (d1, m1)) \<Rightarrow>
         (let b1 = b\<lparr>mb_Status := BotStatusFailed, mb_FailureCount := wrap64 (mb_FailureCount b + 1)\<rparr>;
              m2 = put_bot botID b1 m1;
              finish = (\<lambda>(d, (tm, m)). let b2 = b1\<lparr>mb_CurrentJob := None\<rparr>
                 in case SaveBotWithRetry db b2 (d, put_bot botID b2 m) of
                      (Some e, (d', m')) \<Rightarrow> (Some e, (d', (tm, m')))
                    | (None, (d', m')) \<Rightarrow> (None, (d', (RemoveBotTimeout botID tm, m'))))
          in case mb_CurrentJob b of
               None \<Rightarrow> finish (d1, (tm, m2))
             | Some k \<Rightarrow> (case GetJob db env k (d1, m2) of
                 (Inl e, (d3, m3)) \<Rightarrow> (Some e, (d3, (tm, m3)))
               | (Inr j, (d3, m3)) \<Rightarrow> (case SaveJobWithRetry db (reset_job j) (d3, put_job k (reset_job j) m3) of
                   (Some e, (d4, m4)) \<Rightarrow> (Some e, (d4, (tm, m4)))
                 | (None, (d4, m4)) \<Rightarrow> (case renew_timeout env (mj_ID j) (tm, m4) of (tm5, m5) \<Rightarrow> finish (d4, (tm5, m5)))))))"

definition HandleBotFailureWithRetry ::
    "'d MasterDatabase \<Rightarrow> Env \<Rightarrow> RecoveryManager \<Rightarrow> string \<Rightarrow> 'd tworld \<Rightarrow> error option \<times> 'd tworld" where
  "HandleBotFailureWithRetry db env rm botID = (\<lambda>(tm, (d, m)).
     case retry_Execute (rm_retryManager rm) (Transaction db (bot_failure_body db env botID)) (d, (tm, m)) of
       (eo, (d', (tm', m'))) \<Rightarrow> (eo, (tm', (d', m'))))"

fun light_loop :: "'d MasterDatabase \<Rightarrow> Env \<Rightarrow> MasterJob list \<Rightarrow> 'd mworld \<Rightarrow> 'd mworld" where
  "light_loop db env [] w = w"
| "light_loop db env (j # js) (d, m) = (case mj_CompletedAt j of
       Some t \<Rightarrow>
         if mj_Status j = JobCompleted \<or> mj_Status j = JobFailed then
           (let (now, m1) = time_Now env m
            in if time_Sub now t > 48 * Hour then light_loop db env js (snd (DeleteJob db (mj_ID j) (d, m1)))
               else light_loop db env js (d, m1))
         else light_loop db env js (d, m)
     | None \<Rightarrow> light_loop db env js (d, m))"

definition lightCleanup :: "'d MasterDatabase \<Rightarrow> Env \<Rightarrow> 'd mworld \<Rightarrow> error option \<times> 'd mworld" where
  "lightCleanup db env w = (case ListJobs db env w of (js, w1) \<Rightarrow> (None, light_loop db env js w1))"

definition PerformMaintenanceRecovery :: "'d MasterDatabase \<Rightarrow> Env \<Rightarrow> RecoveryManager \<Rightarrow> 'd rworld \<Rightarrow> 'd rworld" where
  "PerformMaintenanceRecovery db env rm = (\<lambda>(st, (tm, (d, m))).
     let (start, m0) = time_Now env m;
         w1 = snd (recoverOrphanedJobs db env rm (st, (tm, (d, m0))));
         w2 = snd (resetTimedOutBots db env rm w1);
         (st3, (tm3, (d3, m3))) = snd (on_mworld (lightCleanup db env) w2);
         (t1, m4) = time_Now env m3; (t2, m5) = time_Now env m4
     in (st3\<lparr>rs_TotalRecoveries := wrap64 (rs_TotalRecoveries st3 + 1), rs_LastRecovery := t2, rs_RecoveryDuration := time_Sub t1 start\<rparr>,
         (tm3, (d3, m5))))"

definition rm_ResetStats :: "MasterRecoveryStats \<Rightarrow> MasterRecoveryStats" where
  "rm_ResetStats st = zeroRecoveryStats"

section \<open>Orphaned jobs\<close>

text \<open>What every attempt establishes and keeps holds after the retries, as there is at least one attempt.\<close>

lemma retry_Execute_once:
  assumes "0 \<le> pol_MaxRetries p" and first: "\<And>e s'. operation s = (e, s') \<Longrightarrow> I s'"
    and again: "\<And>s e s'. I s \<Longrightarrow> operation s = (e, s') \<Longrightarrow> I s'"
    and "retry_Execute p operation s = (eo, t)"
  shows "I t"
proof -
  obtain e1 s1 where op: "operation s = (e1, s1)" by fastforce
  have I1: "I s1" using first [OF op] .
  have rest: "I t'" if "exec_loop p operation rnd a dl l s1 = (r, ds, t')" for rnd a dl l r ds t'
  proof -
    have "case exec_loop p operation rnd a dl l s1 of (None, _, s') \<Rightarrow> I s' | (Some e, _, s') \<Rightarrow> I s'"
    proof (rule exec_loop_rule [where I = I and Q = I, OF I1])
      fix s
      assume "I s"
      then show "case operation s of (None, s') \<Rightarrow> I s' | (Some e, s') \<Rightarrow> I s'"
        using again by (cases "operation s") (auto split: option.splits)
    qed
    then show ?thesis using that by (auto split: option.splits)
  qed
  show ?thesis
    using assms(4) op I1 rest assms(1)
    by (auto simp: retry_Execute_def Manager_Execute_def exec_loop.simps [of p operation _ 0] Let_def
        split: option.splits prod.splits if_splits)
qed

lemma SaveJob_same:
  assumes "cached_job m (mj_ID j) = Some j" and "SaveJobWithRetry db j (d, m) = (eo, (d', m'))"
  shows "cached_job m' = cached_job m"
proof -
  let ?J = "\<lambda>m'. cached_job m' = cached_job m"
  let ?I = "\<lambda>s. ?J (snd s)"
  let ?fn = "\<lambda>(d, m). case store_step db ''save_job'' (''job:'' @ mj_ID j) (VJob j) d of (Some e, d') \<Rightarrow> (Some e, (d', m)) | (None, d') \<Rightarrow> (None, (d', count_tx m))"
  have "case retry_Execute (ps_retryManager (mem_ps m)) (\<lambda>(d, m). Transaction db ?fn (d, put_job (mj_ID j) j m)) (d, m) of
      (None, s') \<Rightarrow> ?I s' | (Some e, s') \<Rightarrow> ?I s'"
  proof (rule retry_Execute_rule)
    fix s :: "'a \<times> Mem"
    assume "?I s"
    then have "cached_job (put_job (mj_ID j) j (snd s)) = cached_job m" using assms(1) by (simp add: fun_upd_idem)
    then have "case Transaction db ?fn (fst s, put_job (mj_ID j) j (snd s)) of (None, (d', x')) \<Rightarrow> ?J x' | (Some e, (d', x')) \<Rightarrow> ?J x'"
      by (intro Transaction_mem_rule) (auto split: prod.splits option.splits)
    then show "case (case s of (d, m) \<Rightarrow> Transaction db ?fn (d, put_job (mj_ID j) j m)) of (None, s') \<Rightarrow> ?I s' | (Some e, s') \<Rightarrow> ?I s'"
      by (cases s) (auto split: prod.splits option.splits)
  qed simp
  then show ?thesis using assms(2) by (auto simp: SaveJobWithRetry_def split: option.splits)
qed

lemma reset_job_ID [simp]: "mj_ID (reset_job j) = mj_ID j"
  by (simp add: reset_job_def)

lemma renew_timeout_job: "renew_timeout env k (tm, m) = (tm', m') \<Longrightarrow> cached_job m' = cached_job m"
  by (auto simp: renew_timeout_def UpdateJobTimeout_def SetJobTimeout_def time_Now_def)

text \<open>One attempt resets the job in the cache, whatever the database does.\<close>

lemma recover_attempt:
  assumes "(case SaveJobWithRetry db (reset_job j) (d, put_job (mj_ID j) (reset_job j) m) of
       (Some e, w1) \<Rightarrow> (Some e, (tm, w1))
     | (None, (d1, m1)) \<Rightarrow> (case renew_timeout env (mj_ID j) (tm, m1) of (tm2, m2) \<Rightarrow> (None, (tm2, (d1, m2))))) = (eo, (tm', (d', m')))"
  shows "cached_job m' = (cached_job m)(mj_ID j \<mapsto> reset_job j)"
proof -
  obtain e1 d1 m1 where s: "SaveJobWithRetry db (reset_job j) (d, put_job (mj_ID j) (reset_job j) m) = (e1, (d1, m1))"
    by (metis prod.exhaust)
  have "cached_job m1 = (cached_job m)(mj_ID j \<mapsto> reset_job j)"
    using SaveJob_same [OF _ s] by simp
  then show ?thesis
    using assms s renew_timeout_job by (cases e1) (auto split: prod.splits)
qed

lemma recover_orphan_job:
  assumes "0 \<le> pol_MaxRetries (rm_retryManager rm)" and "recover_orphan db env rm j (tm, (d, m)) = (eo, (tm', (d', m')))"
  shows "cached_job m' = (cached_job m)(mj_ID j \<mapsto> reset_job j)"
proof -
  let ?op = "\<lambda>(tm, (d, m)). case SaveJobWithRetry db (reset_job j) (d, put_job (mj_ID j) (reset_job j) m) of
       (Some e, w1) \<Rightarrow> (Some e, (tm, w1))
     | (None, (d1, m1)) \<Rightarrow> (case renew_timeout env (mj_ID j) (tm, m1) of (tm2, m2) \<Rightarrow> (None, (tm2, (d1, m2))))"
  let ?I = "\<lambda>s. cached_job (snd (snd s)) = (cached_job m)(mj_ID j \<mapsto> reset_job j)"
  have step: "?I s'" if "?I s \<or> s = (tm, (d, m))" "?op s = (e, s')" for s s' e
  proof -
    obtain a b c where s: "s = (a, (b, c))" by (metis prod.exhaust)
    obtain a' b' c' where s': "s' = (a', (b', c'))" by (metis prod.exhaust)
    show ?thesis using recover_attempt [where db = db and j = j and d = b and m = c and tm = a and env = env and eo = e and tm' = a' and d' = b' and m' = c'] that unfolding s s' by auto
  qed
  have "?I (tm', (d', m'))"
  proof (rule retry_Execute_once [where I = ?I and operation = ?op and s = "(tm, (d, m))", OF assms(1)])
    show "?I s'" if "?op (tm, (d, m)) = (e, s')" for e s' using step that by blast
    show "?I s'" if "?I s" "?op s = (e, s')" for s e s' using step that by blast
    show "retry_Execute (rm_retryManager rm) ?op (tm, (d, m)) = (eo, (tm', (d', m')))"
      using assms(2) by (simp only: recover_orphan_def)
  qed
  then show ?thesis by simp
qed

lemma orphan_loop_jobs:
  assumes "0 \<le> pol_MaxRetries (rm_retryManager rm)" and "orphan_loop db env rm js (st, (tm, (d, m))) = (st', (tm', (d', m')))"
  shows "cached_job m' = cached_job m ++ map_of (rev (map (\<lambda>j. (mj_ID j, reset_job j)) js))"
  using assms(2)
proof (induction js arbitrary: st tm d m)
  case (Cons j js)
  obtain eo tm1 d1 m1 where r: "recover_orphan db env rm j (tm, (d, m)) = (eo, (tm1, (d1, m1)))" by (metis prod.exhaust)
  have m1: "cached_job m1 = (cached_job m)(mj_ID j \<mapsto> reset_job j)" by (rule recover_orphan_job [OF assms(1) r])
  obtain st1 where "orphan_loop db env rm js (st1, (tm1, (d1, m1))) = (st', (tm', (d', m')))"
    using Cons.prems r by (cases eo) auto
  from Cons.IH [OF this] show ?case
    by (simp only: m1 list.map rev.simps map_of_append map_of.simps fst_conv snd_conv map_add_assoc map_add_upd map_add_empty)
qed simp


definition sample_orphan :: MasterJob where
  "sample_orphan = sample_mjob\<lparr>mj_Status := JobRunning, mj_TimeoutAt := 50\<rparr>"


section \<open>Stale jobs\<close>

lemma DeleteJob_mem:
  assumes "0 \<le> pol_MaxRetries (ps_retryManager (mem_ps m))" and "DeleteJob db k (d, m) = (eo, (d', m'))"
  shows "cached_job m' = (cached_job m)(k := None) \<and> ps_retryManager (mem_ps m') = ps_retryManager (mem_ps m) \<and> mem_tick m' = mem_tick m"
proof -
  let ?J = "\<lambda>x. cached_job x = (cached_job m)(k := None) \<and> ps_retryManager (mem_ps x) = ps_retryManager (mem_ps m) \<and> mem_tick x = mem_tick m"
  let ?fn = "\<lambda>(d, m). case tx_Delete db (''job:'' @ k) d of (Some e, d') \<Rightarrow> (Some (NewDatabaseError ''delete_job'' e), (d', m)) | (None, d') \<Rightarrow> (None, (d', count_tx m))"
  let ?op = "\<lambda>(d, m). Transaction db ?fn (d, delete_job k m)"
  have tx: "?J (snd s')" if "?J (delete_job k (snd s))" "?op s = (e, s')" for s s' e
  proof -
    have "case Transaction db ?fn (fst s, delete_job k (snd s)) of (None, (d', x')) \<Rightarrow> ?J x' | (Some e, (d', x')) \<Rightarrow> ?J x'"
      using that(1) by (intro Transaction_mem_rule) (auto simp: count_tx_def upd_ps_def cached_job_def split: prod.splits option.splits)
    then show ?thesis using that(2) by (cases s) (auto split: prod.splits option.splits)
  qed
  have del: "cached_job (delete_job k x) = (cached_job x)(k := None)" "ps_retryManager (mem_ps (delete_job k x)) = ps_retryManager (mem_ps x)"
    "mem_tick (delete_job k x) = mem_tick x" for x
    by (simp_all add: delete_job_def upd_ps_def cached_job_def AList.delete_conv')
  have "?J (snd (d', m'))"
  proof (rule retry_Execute_once [where I = "\<lambda>s. ?J (snd s)" and operation = ?op and s = "(d, m)", OF assms(1)])
    show "?J (snd s')" if "?op (d, m) = (e, s')" for e s' by (rule tx [OF _ that]) (simp add: del)
    show "?J (snd s')" if "?J (snd s)" "?op s = (e, s')" for s e s' by (rule tx [OF _ that(2)]) (use that(1) in \<open>simp add: del\<close>)
    show "retry_Execute (ps_retryManager (mem_ps m)) ?op (d, m) = (eo, (d', m'))" using assms(2) by (simp add: DeleteJob_def)
  qed
  then show ?thesis by simp
qed

lemma clean_job_mem:
  assumes "0 \<le> pol_MaxRetries (ps_retryManager (mem_ps m))" and "0 \<le> pol_MaxRetries (rm_retryManager rm)"
    and "clean_job db rm k (tm, (d, m)) = (eo, (tm', (d', m')))"
  shows "cached_job m' = (cached_job m)(k := None) \<and> ps_retryManager (mem_ps m') = ps_retryManager (mem_ps m) \<and> mem_tick m' = mem_tick m"
proof -
  let ?J = "\<lambda>x. cached_job x = (cached_job m)(k := None) \<and> ps_retryManager (mem_ps x) = ps_retryManager (mem_ps m) \<and> mem_tick x = mem_tick m"
  let ?op = "\<lambda>(tm, w). case DeleteJob db k w of (eo, w1) \<Rightarrow> (eo, (RemoveJobTimeout k tm, w1))"
  have del: "?J (snd (snd s'))" if "?J (snd (snd s)) \<or> snd (snd s) = m" "?op s = (e, s')" for s s' e
  proof -
    obtain a b c where s: "s = (a, (b, c))" by (metis prod.exhaust)
    obtain e1 d1 m1 where dj: "DeleteJob db k (b, c) = (e1, (d1, m1))" by (metis prod.exhaust)
    then show ?thesis using DeleteJob_mem [OF _ dj] that assms(1) unfolding s by auto
  qed
  have "?J (snd (snd (tm', (d', m'))))"
  proof (rule retry_Execute_once [where I = "\<lambda>s. ?J (snd (snd s))" and operation = ?op and s = "(tm, (d, m))", OF assms(2)])
    show "?J (snd (snd s'))" if "?op (tm, (d, m)) = (e, s')" for e s' by (rule del [OF _ that]) simp
    show "?J (snd (snd s'))" if "?J (snd (snd s))" "?op s = (e, s')" for s e s' by (rule del [OF _ that(2)]) (use that(1) in blast)
    show "retry_Execute (rm_retryManager rm) ?op (tm, (d, m)) = (eo, (tm', (d', m')))" using assms(3) by (simp only: clean_job_def)
  qed
  then show ?thesis by simp
qed

text \<open>A job is stale from the moment on at which it has been finished, or has existed as a pending job, for
  more than 24 hours.\<close>

definition stale_at :: "time \<Rightarrow> MasterJob \<Rightarrow> bool" where
  "stale_at now j \<longleftrightarrow> finished j \<and> time_Sub now (case mj_CompletedAt j of Some t \<Rightarrow> t | None \<Rightarrow> mj_CreatedAt j) > 24 * Hour \<or>
     mj_Status j = JobPending \<and> time_Sub now (mj_CreatedAt j) > 24 * Hour"

lemma stale_at_mono: "stale_at t j \<Longrightarrow> t \<le> t' \<Longrightarrow> stale_at t' j"
proof -
  assume "stale_at t j" "t \<le> t'"
  moreover have "time_Sub t u \<le> time_Sub t' u" for u using \<open>t \<le> t'\<close> by (simp add: time_Sub_def sat64_mono)
  ultimately show ?thesis unfolding stale_at_def by (meson order_less_le_trans)
qed

lemma is_stale_cases:
  assumes "is_stale env j m = (b, m')"
  shows "cached_job m' = cached_job m \<and> ps_retryManager (mem_ps m') = ps_retryManager (mem_ps m) \<and> mem_tick m \<le> mem_tick m' \<and>
    b = stale_at (env_clock env (mem_tick m)) j"
  using assms by (auto simp: is_stale_def stale_at_def time_Now_def Let_def cached_job_def finished_def split: if_splits)

lemma clean_loop_mem:
  assumes mono: "\<And>i j. i \<le> j \<Longrightarrow> env_clock env i \<le> env_clock env j" and rm: "0 \<le> pol_MaxRetries (rm_retryManager rm)"
    and "0 \<le> pol_MaxRetries (ps_retryManager (mem_ps m))" and "clean_loop db env rm js n (tm, (d, m)) = (n', (tm', (d', m')))"
  shows "(\<forall>j \<in> set js. stale_at (env_clock env (mem_tick m)) j \<longrightarrow> cached_job m' (mj_ID j) = None) \<and>
     (\<forall>k. cached_job m' k = None \<or> cached_job m' k = cached_job m k) \<and>
     (\<forall>k. (\<forall>j \<in> set js. mj_ID j = k \<longrightarrow> \<not> finished j \<and> mj_Status j \<noteq> JobPending) \<longrightarrow> cached_job m' k = cached_job m k)"
  using assms(3,4)
proof (induction js arbitrary: n tm d m)
  case (Cons j js)
  obtain b m1 where b: "is_stale env j m = (b, m1)" by fastforce
  note m1 = is_stale_cases [OF b]
  have later: "stale_at (env_clock env (mem_tick m1)) x" if "stale_at (env_clock env (mem_tick m)) x" for x
    using that mono m1 by (blast intro: stale_at_mono)
  show ?case
  proof (cases b)
    case False
    then have "clean_loop db env rm js n (tm, (d, m1)) = (n', (tm', (d', m')))" using Cons.prems(2) b by simp
    from Cons.IH [OF _ this] m1 Cons.prems(1) later False show ?thesis by auto
  next
    case True
    obtain eo tm2 d2 m2 where c: "clean_job db rm (mj_ID j) (tm, (d, m1)) = (eo, (tm2, (d2, m2)))" by (metis prod.exhaust)
    have m2: "cached_job m2 = (cached_job m1)(mj_ID j := None)" "ps_retryManager (mem_ps m2) = ps_retryManager (mem_ps m1)"
      "mem_tick m2 = mem_tick m1" using clean_job_mem [OF _ rm c] m1 Cons.prems(1) by simp_all
    obtain n2 where "clean_loop db env rm js n2 (tm2, (d2, m2)) = (n', (tm', (d', m')))"
      using Cons.prems(2) b True c by (cases eo) auto
    from Cons.IH [OF _ this] m1 m2 Cons.prems(1)
    have IH: "\<forall>x \<in> set js. stale_at (env_clock env (mem_tick m1)) x \<longrightarrow> cached_job m' (mj_ID x) = None"
      "\<forall>k. cached_job m' k = None \<or> cached_job m' k = ((cached_job m)(mj_ID j := None)) k"
      "\<forall>k. (\<forall>x \<in> set js. mj_ID x = k \<longrightarrow> \<not> finished x \<and> mj_Status x \<noteq> JobPending) \<longrightarrow> cached_job m' k = ((cached_job m)(mj_ID j := None)) k"
      by auto
    have s: "finished j \<or> mj_Status j = JobPending" using True m1 by (auto simp: stale_at_def)
    have "cached_job m' (mj_ID j) = None" using IH(2) by (metis fun_upd_same)
    moreover have "cached_job m' k = None \<or> cached_job m' k = cached_job m k" for k
      using IH(2) calculation by (cases "k = mj_ID j") (auto simp: fun_upd_def split: if_splits)
    moreover have "cached_job m' k = cached_job m k"
      if "\<forall>x \<in> set (j # js). mj_ID x = k \<longrightarrow> \<not> finished x \<and> mj_Status x \<noteq> JobPending" for k
      using that s IH(3) by (cases "k = mj_ID j") auto
    ultimately show ?thesis using IH(1) later by auto
  qed
qed simp

text \<open>The cleanup removes from the cache every listed job that was stale when the jobs were listed,
  whatever the database does, pending jobs that have not run for 24 hours included; jobs that are neither
  finished nor pending are kept, and no entry is changed.\<close>

theorem cleanup_exact:
  assumes "\<And>i j. i \<le> j \<Longrightarrow> env_clock env i \<le> env_clock env j" and "0 \<le> pol_MaxRetries (ps_retryManager (mem_ps m1))"
    and "ListJobs db env w = (js, (d1, m1))"
    and "cleanupStaleData db env (fst (NewRecoveryManager x)) (st, (tm, w)) = (eo, (st', (tm', (d', m'))))"
  shows "(\<forall>j \<in> set js. stale_at (env_clock env (mem_tick m1)) j \<longrightarrow> cached_job m' (mj_ID j) = None) \<and>
     (\<forall>k. cached_job m' k = None \<or> cached_job m' k = cached_job m1 k) \<and>
     (\<forall>k. (\<forall>j \<in> set js. mj_ID j = k \<longrightarrow> \<not> finished j \<and> mj_Status j \<noteq> JobPending) \<longrightarrow> cached_job m' k = cached_job m1 k)"
proof -
  obtain n where "clean_loop db env (fst (NewRecoveryManager x)) js 0 (tm, (d1, m1)) = (n, (tm', (d', m')))"
    using assms(3,4) by (auto simp: cleanupStaleData_def split: prod.splits)
  then show ?thesis
    using assms(1,2) by (intro clean_loop_mem) (simp_all add: NewRecoveryManager_def recoveryPolicy_def)
qed

theorem cleanup_exact_witness:
  "\<exists>m'. cached_job m' ''j1'' = None"
proof -
  let ?env = "sample_env\<lparr>env_clock := (\<lambda>n. 25 * Hour)\<rparr>"
  let ?m = "(sample_mem sample_mjob sample_bot)"
  let ?d = "sample_db []\<lparr>md_committed := [(''job:j1'', VJob sample_mjob)]\<rparr>"
  have l: "ListJobs mem_database ?env (?d, ?m) = ([sample_mjob], (?d, put_job ''j1'' sample_mjob ?m))"
    by (simp add: ListJobs_def mem_database_def sample_db_def as_job_def List.map_filter_simps)
  have p: "0 \<le> pol_MaxRetries (ps_retryManager (mem_ps (put_job ''j1'' sample_mjob ?m)))"
    using DatabasePolicy_retries sample_mem_simps(3) [of sample_mjob sample_bot] by (simp add: put_job_def upd_ps_def)
  obtain eo st' tm' d' m' where
    c: "cleanupStaleData mem_database ?env (fst (NewRecoveryManager 9)) (zeroRecoveryStats, (sample_tm, (?d, ?m))) = (eo, (st', (tm', (d', m'))))"
    by (metis prod.exhaust)
  have "stale_at (25 * Hour) sample_mjob"
    by (simp add: stale_at_def sample_mjob_def time_Sub_def sat64_def Hour_def)
  then show ?thesis using cleanup_exact [OF _ p l c] by (intro exI [of _ m']) simp
qed

end
