(* ===== verification/Go_Float.thy ===== *)
theory Go_Float
  imports Go_Prelude "HOL-Library.Log_Nat"
begin

text \<open>
  The type \<open>float64\<close>: a value is not a number, an infinity or a rational number. Every operation rounds
  its exact result to a significand of 53 bits, to nearest with ties to even (\<open>rd\<close>). The exponent is
  unbounded and zero has no sign: the modelled code computes with ratios and sums of 64-bit counters,
  which neither overflow nor become subnormal, and never divides by a negative zero.

  The lemmas show that rounding is monotone and exact on small integers, so that bounds by integers
  survive it.
\<close>

section \<open>Rounding\<close>

text \<open>The nearest integer, ties to even.\<close>

definition rhe :: "rat \<Rightarrow> int" where
  "rhe x = (let n = \<lfloor>x\<rfloor>; r = x - of_int n
            in if r < 1 / 2 then n else if r > 1 / 2 then n + 1 else if even n then n else n + 1)"

text \<open>The position of the leading bit of a positive number.\<close>

definition ilog2 :: "rat \<Rightarrow> int" where
  "ilog2 x = (if 1 \<le> x then int (floorlog 2 (nat \<lfloor>x\<rfloor>)) - 1 else - int (floorlog 2 (nat (\<lceil>1 / x\<rceil> - 1))))"

definition pow2 :: "int \<Rightarrow> rat" where
  "pow2 e = (if 0 \<le> e then 2 ^ nat e else 1 / 2 ^ nat (- e))"

definition rd_pos :: "rat \<Rightarrow> rat" where
  "rd_pos x = (let e = ilog2 x - 52 in of_int (rhe (x / pow2 e)) * pow2 e)"

definition rd :: "rat \<Rightarrow> rat" where
  "rd x = (if x = 0 then 0 else if x > 0 then rd_pos x else - rd_pos (- x))"

lemma pow2_pos [simp]: "0 < pow2 e"
  by (simp add: pow2_def)

lemma pow2_add: "pow2 (a + b) = pow2 a * pow2 b"
proof -
  have p: "pow2 e = 2 powi e" for e
    by (simp add: pow2_def power_int_def inverse_eq_divide power_one_over)
  show ?thesis by (simp add: p power_int_add)
qed

lemma pow2_nat: "pow2 (int n) = 2 ^ n"
  by (simp add: pow2_def)

lemma pow2_mono: "a \<le> b \<Longrightarrow> pow2 a \<le> pow2 b"
proof -
  assume "a \<le> b"
  then have "b = a + int (nat (b - a))" by simp
  then have "pow2 b = pow2 a * 2 ^ nat (b - a)" by (metis pow2_add pow2_nat)
  then show ?thesis using mult_left_mono [of 1 "2 ^ nat (b - a)" "pow2 a"] pow2_pos [of a] by simp
qed

lemma pow2_less: "pow2 a < pow2 b \<Longrightarrow> a < b"
  by (meson not_less pow2_mono)

lemma rhe_of_int [simp]: "rhe (of_int n) = n"
  by (simp add: rhe_def)

lemma rhe_mono: "x \<le> y \<Longrightarrow> rhe x \<le> rhe y"
proof (cases "\<lfloor>x\<rfloor> = \<lfloor>y\<rfloor>")
  case True
  assume "x \<le> y"
  with True show ?thesis by (simp add: rhe_def Let_def)
next
  case False
  assume "x \<le> y"
  with False have "\<lfloor>x\<rfloor> + 1 \<le> \<lfloor>y\<rfloor>" using floor_mono [of x y] by simp
  moreover have "rhe x \<le> \<lfloor>x\<rfloor> + 1" "\<lfloor>y\<rfloor> \<le> rhe y" by (simp_all add: rhe_def Let_def)
  ultimately show ?thesis by simp
qed

lemma ilog2_lower: "0 < x \<Longrightarrow> pow2 (ilog2 x) \<le> x"
  and ilog2_upper: "0 < x \<Longrightarrow> x < pow2 (ilog2 x + 1)"
proof -
  assume x: "0 < x"
  have "pow2 (ilog2 x) \<le> x \<and> x < pow2 (ilog2 x + 1)"
  proof (cases "1 \<le> x")
    case True
    define n where "n = nat \<lfloor>x\<rfloor>"
    have n: "0 < n" "of_nat n \<le> x" "x < of_nat n + 1" using True unfolding n_def by linarith+
    have fl: "0 < floorlog 2 n" using n(1) by (simp add: floorlog_def)
    have b: "2 ^ (floorlog 2 n - 1) \<le> n" "n < 2 ^ floorlog 2 n"
      using floorlog_bounds [of n 2] n(1) by auto
    have i: "ilog2 x = int (floorlog 2 n - 1)" using True fl by (simp add: ilog2_def n_def)
    have "pow2 (ilog2 x) \<le> of_nat n"
      using b(1) unfolding i pow2_nat by (metis of_nat_le_iff of_nat_numeral of_nat_power)
    moreover have "pow2 (ilog2 x + 1) = 2 ^ floorlog 2 n"
      using fl unfolding i by (metis Suc_diff_1 of_nat_Suc pow2_nat add.commute)
    moreover have "of_nat n + 1 \<le> (2 :: rat) ^ floorlog 2 n"
      using b(2) by (metis Suc_leI of_nat_Suc of_nat_le_iff of_nat_numeral of_nat_power add.commute)
    ultimately show ?thesis using n by linarith
  next
    case False
    define y where "y = 1 / x"
    define n where "n = nat (\<lceil>y\<rceil> - 1)"
    have y: "1 < y" using False x by (simp add: y_def)
    have n: "0 < n" "of_nat n < y" "y \<le> of_nat n + 1" using y unfolding n_def by linarith+
    have b: "2 ^ (floorlog 2 n - 1) \<le> n" "n < 2 ^ floorlog 2 n"
      using floorlog_bounds [of n 2] n(1) by auto
    have fl: "0 < floorlog 2 n" using n(1) by (simp add: floorlog_def)
    have i: "ilog2 x = - int (floorlog 2 n)" using False by (simp add: ilog2_def n_def y_def)
    have p: "pow2 (- int k) = 1 / 2 ^ k" for k by (cases "k = 0") (simp_all add: pow2_def)
    have u: "y \<le> 2 ^ floorlog 2 n"
    proof -
      have "of_nat n + 1 \<le> (2 :: rat) ^ floorlog 2 n"
        using b(2) by (metis Suc_leI of_nat_Suc of_nat_le_iff of_nat_numeral of_nat_power add.commute)
      then show ?thesis using n by linarith
    qed
    have l: "2 ^ (floorlog 2 n - 1) < y"
    proof -
      have "(2 :: rat) ^ (floorlog 2 n - 1) \<le> of_nat n"
        using b(1) by (metis of_nat_le_iff of_nat_numeral of_nat_power)
      then show ?thesis using n by linarith
    qed
    have "ilog2 x + 1 = - int (floorlog 2 n - 1)" using fl i by simp
    then have "pow2 (ilog2 x + 1) = 1 / 2 ^ (floorlog 2 n - 1)" by (simp only: p)
    moreover have "pow2 (ilog2 x) = 1 / 2 ^ floorlog 2 n" by (simp only: i p)
    moreover have "1 / 2 ^ floorlog 2 n \<le> x" using u x unfolding y_def by (simp add: field_simps)
    moreover have "x < 1 / 2 ^ (floorlog 2 n - 1)" using l x unfolding y_def by (simp add: field_simps)
    ultimately show ?thesis by simp
  qed
  then show "pow2 (ilog2 x) \<le> x" "x < pow2 (ilog2 x + 1)" by simp_all
qed

lemma ilog2_mono: "0 < x \<Longrightarrow> x \<le> y \<Longrightarrow> ilog2 x \<le> ilog2 y"
proof -
  assume "0 < x" "x \<le> y"
  then have "pow2 (ilog2 x) < pow2 (ilog2 y + 1)"
    using ilog2_lower [of x] ilog2_upper [of y] by linarith
  then show ?thesis using pow2_less by force
qed

text \<open>The rounded value stays between the powers of two around the number.\<close>

lemma rd_pos_range:
  assumes "0 < x"
  shows "pow2 (ilog2 x) \<le> rd_pos x" and "rd_pos x \<le> pow2 (ilog2 x + 1)"
proof -
  define e where "e = ilog2 x - 52"
  have p: "pow2 (ilog2 x) = 2 ^ 52 * pow2 e" "pow2 (ilog2 x + 1) = 2 ^ 53 * pow2 e"
    using pow2_add [of e 52] pow2_add [of e 53] pow2_nat [of 52] pow2_nat [of 53]
    by (simp_all add: e_def algebra_simps)
  have "of_int (2 ^ 52) \<le> x / pow2 e" "x / pow2 e \<le> of_int (2 ^ 53)"
    using ilog2_lower [OF assms] ilog2_upper [OF assms] unfolding p by (simp_all add: field_simps)
  then have "2 ^ 52 \<le> rhe (x / pow2 e)" "rhe (x / pow2 e) \<le> 2 ^ 53"
    using rhe_mono rhe_of_int by metis+
  then have "(2 ^ 52 :: rat) \<le> of_int (rhe (x / pow2 e))" "of_int (rhe (x / pow2 e)) \<le> (2 ^ 53 :: rat)"
    by (metis of_int_le_iff of_int_numeral of_int_power)+
  then show "pow2 (ilog2 x) \<le> rd_pos x" "rd_pos x \<le> pow2 (ilog2 x + 1)"
    unfolding p rd_pos_def Let_def e_def [symmetric] by (simp_all add: mult_right_mono)
qed

lemma rd_pos_pos: "0 < x \<Longrightarrow> 0 < rd_pos x"
  using rd_pos_range(1) [of x] pow2_pos [of "ilog2 x"] by linarith

lemma rd_pos_mono: "0 < x \<Longrightarrow> x \<le> y \<Longrightarrow> rd_pos x \<le> rd_pos y"
proof (cases "ilog2 x = ilog2 y")
  case True
  assume "0 < x" "x \<le> y"
  with True show ?thesis
    unfolding rd_pos_def Let_def
    by (simp add: rhe_mono divide_right_mono less_imp_le mult_right_mono)
next
  case False
  assume "0 < x" "x \<le> y"
  with False have "ilog2 x + 1 \<le> ilog2 y" using ilog2_mono [of x y] by linarith
  then have "pow2 (ilog2 x + 1) \<le> pow2 (ilog2 y)" by (rule pow2_mono)
  moreover have "rd_pos x \<le> pow2 (ilog2 x + 1)" "pow2 (ilog2 y) \<le> rd_pos y"
    using rd_pos_range \<open>0 < x\<close> \<open>x \<le> y\<close> by simp_all
  ultimately show ?thesis by linarith
qed

lemma rd_mono: "x \<le> y \<Longrightarrow> rd x \<le> rd y"
proof -
  assume "x \<le> y"
  consider "0 < x" | "x \<le> 0" "0 \<le> y" | "y < 0" by linarith
  then show ?thesis
  proof cases
    case 1
    with \<open>x \<le> y\<close> show ?thesis by (simp add: rd_def rd_pos_mono)
  next
    case 2
    have "rd x \<le> 0" using 2 rd_pos_pos [of "- x"] by (cases "x = 0") (simp_all add: rd_def less_imp_le)
    moreover have "0 \<le> rd y" using 2 rd_pos_pos [of y] by (cases "y = 0") (simp_all add: rd_def less_imp_le)
    ultimately show ?thesis by simp
  next
    case 3
    with \<open>x \<le> y\<close> show ?thesis using rd_pos_mono [of "- y" "- x"] by (simp add: rd_def)
  qed
qed

lemma rd_0 [simp]: "rd 0 = 0"
  by (simp add: rd_def)

lemma rd_pos_int: "0 < n \<Longrightarrow> n < 2 ^ 53 \<Longrightarrow> rd_pos (of_int n) = of_int n"
proof -
  assume n: "0 < n" "n < 2 ^ 53"
  define e where "e = ilog2 (of_int n) - 52"
  have "(of_int n :: rat) < of_int (2 ^ 53)" using n(2) by (simp only: of_int_less_iff)
  then have "pow2 (ilog2 (of_int n)) < pow2 53"
    using ilog2_lower [of "of_int n"] n(1) pow2_nat [of 53] by simp
  then have "e \<le> 0" using pow2_less by (fastforce simp: e_def)
  then have "of_int n / pow2 e = of_int (n * 2 ^ nat (- e))" by (cases "e = 0") (simp_all add: pow2_def)
  then have "rhe (of_int n / pow2 e) = n * 2 ^ nat (- e)" by (metis rhe_of_int)
  moreover have "of_int (n * 2 ^ nat (- e)) = of_int n / pow2 e"
    using \<open>of_int n / pow2 e = of_int (n * 2 ^ nat (- e))\<close> by simp
  moreover have "pow2 e \<noteq> 0" using pow2_pos [of e] by linarith
  ultimately show ?thesis unfolding rd_pos_def Let_def e_def [symmetric] by (metis nonzero_eq_divide_eq)
qed

lemma rd_int: "\<bar>n\<bar> < 2 ^ 53 \<Longrightarrow> rd (of_int n) = of_int n"
proof -
  assume n: "\<bar>n\<bar> < 2 ^ 53"
  consider "n = 0" | "0 < n" | "n < 0" by linarith
  then show ?thesis
  proof cases
    case 3
    then show ?thesis using rd_pos_int [of "- n"] n by (simp add: rd_def)
  qed (use n rd_pos_int [of n] in \<open>simp_all add: rd_def\<close>)
qed

lemma rd_1 [simp]: "rd 1 = 1"
  using rd_int [of 1] by simp

lemma rd_ge_0 [simp]: "0 \<le> x \<Longrightarrow> 0 \<le> rd x"
  using rd_mono [of 0 x] by simp

lemma rd_le_1: "x \<le> 1 \<Longrightarrow> rd x \<le> 1"
  using rd_mono [of x 1] by simp

lemma rd_pos_iff: "0 < x \<Longrightarrow> 0 < rd x"
  by (simp add: rd_def rd_pos_pos)

section \<open>Operations\<close>

datatype f64 = NaN | PInf | NInf | Fin rat

definition f_of_int :: "int \<Rightarrow> f64" where
  "f_of_int n = Fin (rd (of_int n))"

text \<open>A decimal constant of the source.\<close>

definition f_const :: "rat \<Rightarrow> f64" where
  "f_const x = Fin (rd x)"

fun fadd :: "f64 \<Rightarrow> f64 \<Rightarrow> f64" where
  "fadd (Fin x) (Fin y) = Fin (rd (x + y))"
| "fadd NaN _ = NaN"
| "fadd _ NaN = NaN"
| "fadd PInf NInf = NaN"
| "fadd NInf PInf = NaN"
| "fadd PInf _ = PInf"
| "fadd NInf _ = NInf"
| "fadd _ PInf = PInf"
| "fadd _ NInf = NInf"

definition inf_of :: "bool \<Rightarrow> f64" where
  "inf_of negative = (if negative then NInf else PInf)"

fun fmul :: "f64 \<Rightarrow> f64 \<Rightarrow> f64" where
  "fmul (Fin x) (Fin y) = Fin (rd (x * y))"
| "fmul NaN _ = NaN"
| "fmul _ NaN = NaN"
| "fmul (Fin x) PInf = (if x = 0 then NaN else inf_of (x < 0))"
| "fmul (Fin x) NInf = (if x = 0 then NaN else inf_of (0 < x))"
| "fmul PInf (Fin x) = (if x = 0 then NaN else inf_of (x < 0))"
| "fmul NInf (Fin x) = (if x = 0 then NaN else inf_of (0 < x))"
| "fmul PInf PInf = PInf"
| "fmul NInf NInf = PInf"
| "fmul PInf NInf = NInf"
| "fmul NInf PInf = NInf"

fun fdiv :: "f64 \<Rightarrow> f64 \<Rightarrow> f64" where
  "fdiv (Fin x) (Fin y) = (if y \<noteq> 0 then Fin (rd (x / y)) else if x = 0 then NaN else inf_of (x < 0))"
| "fdiv (Fin x) PInf = Fin 0"
| "fdiv (Fin x) NInf = Fin 0"
| "fdiv PInf (Fin y) = inf_of (y < 0)"
| "fdiv NInf (Fin y) = inf_of (0 \<le> y)"
| "fdiv _ _ = NaN"

fun flt :: "f64 \<Rightarrow> f64 \<Rightarrow> bool" where
  "flt (Fin x) (Fin y) = (x < y)"
| "flt (Fin x) PInf = True"
| "flt NInf (Fin x) = True"
| "flt NInf PInf = True"
| "flt _ _ = False"

definition fle :: "f64 \<Rightarrow> f64 \<Rightarrow> bool" where
  "fle x y \<longleftrightarrow> flt x y \<or> (x = y \<and> x \<noteq> NaN)"

lemma flt_irrefl [simp]: "\<not> flt x x"
  by (cases x) simp_all

lemma flt_trans: "flt x y \<Longrightarrow> flt y z \<Longrightarrow> flt x z"
  by (cases x; cases y; cases z) simp_all

lemma fle_Fin [simp]: "fle (Fin x) (Fin y) \<longleftrightarrow> x \<le> y"
  by (auto simp: fle_def)

lemma fle_flt_trans: "fle x y \<Longrightarrow> flt y z \<Longrightarrow> flt x z"
  by (auto simp: fle_def intro: flt_trans)

lemma fle_trans: "fle x y \<Longrightarrow> fle y z \<Longrightarrow> fle x z"
  by (auto simp: fle_def intro: flt_trans)

lemma flt_NaN [simp]: "\<not> flt NaN x" "\<not> flt x NaN"
  by (cases x; simp)+

lemma fle_NaN [simp]: "\<not> fle NaN x" "\<not> fle x NaN"
  by (auto simp: fle_def)

lemma flt_total: "x \<noteq> NaN \<Longrightarrow> y \<noteq> NaN \<Longrightarrow> \<not> flt x y \<Longrightarrow> fle y x"
  by (cases x; cases y) (auto simp: fle_def)

lemma fle_refl_iff [simp]: "fle x x \<longleftrightarrow> x \<noteq> NaN"
  by (simp add: fle_def)

text \<open>A number in the unit interval.\<close>

definition f_unit :: "f64 \<Rightarrow> bool" where
  "f_unit x = (case x of Fin q \<Rightarrow> 0 \<le> q \<and> q \<le> 1 | _ \<Rightarrow> False)"

lemma f_unit_Fin [simp]: "f_unit (Fin q) \<longleftrightarrow> 0 \<le> q \<and> q \<le> 1"
  by (simp add: f_unit_def)

lemma fdiv_unit: "0 \<le> a \<Longrightarrow> a \<le> b \<Longrightarrow> 0 < b \<Longrightarrow> f_unit (fdiv (f_of_int a) (f_of_int b))"
proof -
  assume ab: "0 \<le> a" "a \<le> b" "0 < b"
  have b: "0 < rd (of_int b)" using ab(3) by (simp add: rd_pos_iff)
  have a: "0 \<le> rd (of_int a)" "rd (of_int a) \<le> rd (of_int b)" using ab by (simp_all add: rd_mono)
  have "0 \<le> rd (of_int a) / rd (of_int b)" "rd (of_int a) / rd (of_int b) \<le> 1"
    using a b by simp_all
  then show ?thesis using b by (simp add: f_of_int_def rd_le_1)
qed

end
