(* ===== verification/Corpus_Collection.thy ===== *)
theory Corpus_Collection
  imports Go_Float "HOL-Library.Word" "HOL-Library.AList" "HOL-Library.Multiset"
begin

text \<open>
  The corpus of \<open>pkg/domain/corpus/types\<close>: the entries (\<open>entry.go\<close>) and the bounded collection of them
  (\<open>collection.go\<close>).

  \<^item> Unsigned integers are words of their width, coverage scores are \<open>float64\<close> values (\<open>Go_Float\<close>).
  \<^item> The collection holds pointers to entries; the model holds their contents at the time of the call.
    The map is an association list with one entry per key. What \<open>range\<close> visits first and what the clock
    shows is not determined by the program: \<open>Scan\<close> supplies both, for every scan of the map anew, and
    the theorems hold for all of them.
  \<^item> \<open>sha\<close> is the hexadecimal SHA-256 digest, and \<open>sort.Slice\<close> is a parameter with its documented
    contract.
\<close>

section \<open>Entries\<close>

record CoverageInfo =
  ci_TotalBlocks :: "32 word"
  ci_CoveredBlocks :: "32 word"
  ci_TotalEdges :: "32 word"
  ci_CoveredEdges :: "32 word"
  ci_CoverageScore :: f64
  ci_NewCoverage :: bool
  ci_CoverageGained :: "32 word"

record MutationInfo =
  mi_ParentID :: string
  mi_MutationMethod :: string
  mi_Generation :: "32 word"
  mi_CreatedAt :: time

record CorpusEntry =
  ce_ID :: string
  ce_Input :: "8 word list"
  ce_Hash :: string
  ce_Size :: int
  ce_CreatedAt :: time
  ce_LastExecutedAt :: "time option"
  ce_ExecutionCount :: "64 word"
  ce_Coverage :: CoverageInfo
  ce_MutationInfo :: MutationInfo
  ce_Tags :: "string list"
  ce_Metadata :: "(string \<rightharpoonup> string) option"

definition NewCorpusEntry :: "(8 word list \<Rightarrow> string) \<Rightarrow> time \<Rightarrow> time \<Rightarrow> 8 word list \<Rightarrow> CorpusEntry result" where
  "NewCorpusEntry sha now now2 input =
     (if input = [] then Inl (ErrorString ''input cannot be empty'')
      else Inr \<lparr>ce_ID = take 16 (sha input), ce_Input = input, ce_Hash = sha input, ce_Size = int (length input),
        ce_CreatedAt = now, ce_LastExecutedAt = None, ce_ExecutionCount = 0,
        ce_Coverage = \<lparr>ci_TotalBlocks = 0, ci_CoveredBlocks = 0, ci_TotalEdges = 0, ci_CoveredEdges = 0,
          ci_CoverageScore = Fin 0, ci_NewCoverage = False, ci_CoverageGained = 0\<rparr>,
        ce_MutationInfo = \<lparr>mi_ParentID = '''', mi_MutationMethod = '''', mi_Generation = 0, mi_CreatedAt = now2\<rparr>,
        ce_Tags = [], ce_Metadata = Some Map.empty\<rparr>)"

definition NewCorpusEntryWithParent ::
    "(8 word list \<Rightarrow> string) \<Rightarrow> time \<Rightarrow> time \<Rightarrow> 8 word list \<Rightarrow> string \<Rightarrow> string \<Rightarrow> CorpusEntry result" where
  "NewCorpusEntryWithParent sha now now2 input parentID mutationMethod =
     (case NewCorpusEntry sha now now2 input of
        Inl e \<Rightarrow> Inl e
      | Inr entry \<Rightarrow> Inr (entry\<lparr>ce_MutationInfo := (ce_MutationInfo entry)\<lparr>mi_ParentID := parentID,
            mi_MutationMethod := mutationMethod, mi_Generation := 1\<rparr>\<rparr>))"

definition calculateCoverageScore :: "CoverageInfo \<Rightarrow> f64" where
  "calculateCoverageScore c =
     (if ci_TotalBlocks c = 0 \<and> ci_TotalEdges c = 0 then Fin 0
      else let blockScore = fdiv (f_of_int (uint (ci_CoveredBlocks c))) (f_of_int (uint (ci_TotalBlocks c)));
               edgeScore = fdiv (f_of_int (uint (ci_CoveredEdges c))) (f_of_int (uint (ci_TotalEdges c)))
           in fadd (fmul blockScore (f_const (3 / 10))) (fmul edgeScore (f_const (7 / 10))))"

definition UpdateCoverage :: "CoverageInfo \<Rightarrow> CorpusEntry \<Rightarrow> CorpusEntry" where
  "UpdateCoverage coverage c = c\<lparr>ce_Coverage := coverage\<lparr>ci_CoverageScore := calculateCoverageScore coverage\<rparr>\<rparr>"

definition Execute :: "time \<Rightarrow> CorpusEntry \<Rightarrow> CorpusEntry" where
  "Execute now c = c\<lparr>ce_LastExecutedAt := Some now, ce_ExecutionCount := ce_ExecutionCount c + 1\<rparr>"

definition CorpusEntry_AddTag :: "string \<Rightarrow> CorpusEntry \<Rightarrow> CorpusEntry" where
  "CorpusEntry_AddTag tag c = (if tag \<in> set (ce_Tags c) then c else c\<lparr>ce_Tags := ce_Tags c @ [tag]\<rparr>)"

definition CorpusEntry_RemoveTag :: "string \<Rightarrow> CorpusEntry \<Rightarrow> CorpusEntry" where
  "CorpusEntry_RemoveTag tag c = c\<lparr>ce_Tags := remove1 tag (ce_Tags c)\<rparr>"

definition CorpusEntry_SetMetadata :: "string \<Rightarrow> string \<Rightarrow> CorpusEntry \<Rightarrow> CorpusEntry" where
  "CorpusEntry_SetMetadata key v c = c\<lparr>ce_Metadata := map_put (ce_Metadata c) key v\<rparr>"

definition IsInteresting :: "CorpusEntry \<Rightarrow> bool" where
  "IsInteresting c \<longleftrightarrow> ci_NewCoverage (ce_Coverage c) \<or> ci_CoverageGained (ce_Coverage c) > 0"

definition Age :: "time \<Rightarrow> CorpusEntry \<Rightarrow> duration" where
  "Age now c = time_Sub now (ce_CreatedAt c)"

definition CorpusEntry_Validate :: "CorpusEntry \<Rightarrow> error option" where
  "CorpusEntry_Validate c =
     (if ce_ID c = '''' then Some (ErrorString ''corpus entry ID cannot be empty'')
      else if ce_Input c = [] then Some (ErrorString ''corpus entry input cannot be empty'')
      else if ce_Hash c = '''' then Some (ErrorString ''corpus entry hash cannot be empty'')
      else if ce_Size c \<noteq> int (length (ce_Input c)) then Some (ErrorString ''corpus entry size does not match input length'')
      else None)"

abbreviation score :: "CorpusEntry \<Rightarrow> f64" where
  "score e \<equiv> ci_CoverageScore (ce_Coverage e)"

section \<open>The collection\<close>

type_synonym entries = "(string \<times> CorpusEntry) list"

record CorpusCollection =
  cc_entries :: entries
  cc_name :: string
  cc_description :: string
  cc_createdAt :: time
  cc_maxSize :: int

record CollectionStats =
  cs_TotalEntries :: int
  cs_TotalSize :: int
  cs_TotalExecutions :: "64 word"
  cs_AverageCoverage :: f64
  cs_UniqueEdges :: "32 word"
  cs_InterestingInputs :: int
  cs_LastUpdated :: time

text \<open>
  \<open>scan_order k es\<close> is the order in which the loop number \<open>k\<close> of an operation visits the map \<open>es\<close>;
  \<open>scan_clock k i\<close> is the i-th reading of the clock in that loop.
\<close>

record Scan =
  scan_order :: "nat \<Rightarrow> entries \<Rightarrow> entries"
  scan_clock :: "nat \<Rightarrow> nat \<Rightarrow> time"

definition scan_ok :: "Scan \<Rightarrow> bool" where
  "scan_ok sc \<longleftrightarrow> (\<forall>k es. mset (scan_order sc k es) = mset es)"

definition visit :: "Scan \<Rightarrow> nat \<Rightarrow> CorpusCollection \<Rightarrow> CorpusEntry list" where
  "visit sc k c = map snd (scan_order sc k (cc_entries c))"

definition NewCorpusCollection :: "time \<Rightarrow> string \<Rightarrow> int \<Rightarrow> CorpusCollection result" where
  "NewCorpusCollection now name maxSize =
     (if name = '''' then Inl (ErrorString ''collection name cannot be empty'')
      else if maxSize < 0 then Inl (ErrorString ''max size cannot be negative'')
      else Inr \<lparr>cc_entries = [], cc_name = name, cc_description = '''', cc_createdAt = now, cc_maxSize = maxSize\<rparr>)"

definition put_entry :: "CorpusEntry \<Rightarrow> CorpusCollection \<Rightarrow> CorpusCollection" where
  "put_entry e c = c\<lparr>cc_entries := AList.update (ce_ID e) e (cc_entries c)\<rparr>"

definition delete_entry :: "string \<Rightarrow> CorpusCollection \<Rightarrow> CorpusCollection" where
  "delete_entry i c = c\<lparr>cc_entries := AList.delete i (cc_entries c)\<rparr>"

text \<open>The two loops of \<open>findLeastInteresting\<close>, with the variables they update.\<close>

fun least_dull :: "(nat \<Rightarrow> time) \<Rightarrow> nat \<Rightarrow> CorpusEntry list \<Rightarrow> CorpusEntry option \<times> f64 \<Rightarrow> CorpusEntry option \<times> f64" where
  "least_dull clk i [] st = st"
| "least_dull clk i (e # es) (leastInteresting, lowestScore) =
     (if \<not> IsInteresting e \<and> fle (score e) lowestScore then
        (case leastInteresting of
           None \<Rightarrow> least_dull clk i es (Some e, score e)
         | Some l \<Rightarrow>
             if Age (clk i) e > Age (clk (i + 1)) l then least_dull clk (i + 2) es (Some e, score e)
             else least_dull clk (i + 2) es (leastInteresting, lowestScore))
      else least_dull clk i es (leastInteresting, lowestScore))"

fun least_score :: "CorpusEntry list \<Rightarrow> CorpusEntry option \<times> f64 \<Rightarrow> CorpusEntry option \<times> f64" where
  "least_score [] st = st"
| "least_score (e # es) (leastInteresting, lowestScore) =
     (if flt (score e) lowestScore then least_score es (Some e, score e)
      else least_score es (leastInteresting, lowestScore))"

definition findLeastInteresting :: "Scan \<Rightarrow> nat \<Rightarrow> CorpusCollection \<Rightarrow> CorpusEntry option" where
  "findLeastInteresting sc k c =
     (let (l, lowest) = least_dull (scan_clock sc k) 0 (visit sc k c) (None, Fin 1)
      in case l of Some e \<Rightarrow> Some e | None \<Rightarrow> fst (least_score (visit sc (k + 1) c) (None, lowest)))"

definition shouldReplaceEntry :: "Scan \<Rightarrow> nat \<Rightarrow> CorpusEntry \<Rightarrow> CorpusCollection \<Rightarrow> bool" where
  "shouldReplaceEntry sc k entry c =
     (if ci_NewCoverage (ce_Coverage entry) then True
      else case findLeastInteresting sc k c of
             Some l \<Rightarrow> flt (score l) (score entry)
           | None \<Rightarrow> False)"

definition removeLeastInteresting :: "Scan \<Rightarrow> nat \<Rightarrow> CorpusCollection \<Rightarrow> CorpusCollection" where
  "removeLeastInteresting sc k c =
     (case findLeastInteresting sc k c of Some e \<Rightarrow> delete_entry (ce_ID e) c | None \<Rightarrow> c)"

text \<open>The loops of \<open>Add\<close> have the numbers \<open>k\<close> to \<open>k + 3\<close>. A nil entry is \<open>None\<close>.\<close>

definition corpus_Add :: "Scan \<Rightarrow> nat \<Rightarrow> CorpusEntry option \<Rightarrow> CorpusCollection \<Rightarrow> error option \<times> CorpusCollection" where
  "corpus_Add sc k entry c = (case entry of
       None \<Rightarrow> (Some (ErrorString ''cannot add nil entry to collection''), c)
     | Some e \<Rightarrow> (case CorpusEntry_Validate e of
         Some err \<Rightarrow> (Some err, c)
       | None \<Rightarrow>
           if cc_maxSize c > 0 \<and> int (length (cc_entries c)) \<ge> cc_maxSize c then
             if \<not> shouldReplaceEntry sc k e c then
               (Some (ErrorString ''corpus collection is full and new entry is not interesting enough''), c)
             else (None, put_entry e (removeLeastInteresting sc (k + 2) c))
           else (None, put_entry e c)))"

definition corpus_Get :: "string \<Rightarrow> CorpusCollection \<Rightarrow> CorpusEntry option" where
  "corpus_Get i c = map_of (cc_entries c) i"

definition GetByHash :: "Scan \<Rightarrow> nat \<Rightarrow> string \<Rightarrow> CorpusCollection \<Rightarrow> CorpusEntry option" where
  "GetByHash sc k hash c = List.find (\<lambda>e. ce_Hash e = hash) (visit sc k c)"

definition corpus_Remove :: "string \<Rightarrow> CorpusCollection \<Rightarrow> bool \<times> CorpusCollection" where
  "corpus_Remove i c = (case map_of (cc_entries c) i of Some _ \<Rightarrow> (True, delete_entry i c) | None \<Rightarrow> (False, c))"

definition corpus_Size :: "CorpusCollection \<Rightarrow> int" where
  "corpus_Size c = int (length (cc_entries c))"

definition corpus_IsEmpty :: "CorpusCollection \<Rightarrow> bool" where
  "corpus_IsEmpty c \<longleftrightarrow> corpus_Size c = 0"

definition GetAll :: "Scan \<Rightarrow> nat \<Rightarrow> CorpusCollection \<Rightarrow> CorpusEntry list" where
  "GetAll sc k c = visit sc k c"

definition GetInteresting :: "Scan \<Rightarrow> nat \<Rightarrow> CorpusCollection \<Rightarrow> CorpusEntry list" where
  "GetInteresting sc k c = filter IsInteresting (visit sc k c)"

definition GetByTag :: "Scan \<Rightarrow> nat \<Rightarrow> string \<Rightarrow> CorpusCollection \<Rightarrow> CorpusEntry list" where
  "GetByTag sc k tag c = filter (\<lambda>e. tag \<in> set (ce_Tags e)) (visit sc k c)"

text \<open>\<open>srt less xs\<close> is \<open>sort.Slice\<close>. A negative \<open>n\<close> makes the slice expression panic.\<close>

definition GetTopCoverage ::
    "((CorpusEntry \<Rightarrow> CorpusEntry \<Rightarrow> bool) \<Rightarrow> CorpusEntry list \<Rightarrow> CorpusEntry list) \<Rightarrow> Scan \<Rightarrow> nat \<Rightarrow> int \<Rightarrow>
       CorpusCollection \<Rightarrow> CorpusEntry list go" where
  "GetTopCoverage srt sc k n c =
     (let entries = srt (\<lambda>a b. flt (score b) (score a)) (visit sc k c);
          n' = (if n > int (length entries) then int (length entries) else n)
      in if n' < 0 then Panic else Ret (take (nat n') entries))"

definition stats_entry :: "CorpusEntry \<Rightarrow> CollectionStats \<times> f64 \<times> nat set \<Rightarrow> CollectionStats \<times> f64 \<times> nat set" where
  "stats_entry e = (\<lambda>(st, totalCoverage, edgeSet).
     (st\<lparr>cs_TotalSize := wrap64 (cs_TotalSize st + ce_Size e),
         cs_TotalExecutions := cs_TotalExecutions st + ce_ExecutionCount e,
         cs_InterestingInputs := (if IsInteresting e then wrap64 (cs_InterestingInputs st + 1) else cs_InterestingInputs st)\<rparr>,
      fadd totalCoverage (score e),
      edgeSet \<union> {0 ..< unat (ci_CoveredEdges (ce_Coverage e))}))"

definition corpus_GetStats :: "Scan \<Rightarrow> nat \<Rightarrow> time \<Rightarrow> CorpusCollection \<Rightarrow> CollectionStats" where
  "corpus_GetStats sc k now c =
     (let (st, totalCoverage, edgeSet) = fold stats_entry (visit sc k c)
            (\<lparr>cs_TotalEntries = int (length (cc_entries c)), cs_TotalSize = 0, cs_TotalExecutions = 0, cs_AverageCoverage = Fin 0,
              cs_UniqueEdges = 0, cs_InterestingInputs = 0, cs_LastUpdated = now\<rparr>, Fin 0, {});
          st1 = (if cs_TotalEntries st > 0 then st\<lparr>cs_AverageCoverage := fdiv totalCoverage (f_of_int (cs_TotalEntries st))\<rparr> else st)
      in st1\<lparr>cs_UniqueEdges := word_of_nat (card edgeSet)\<rparr>)"

text \<open>Each call of \<open>Add\<close> takes four loop numbers. The other collection is a different object.\<close>

fun merge_loop :: "Scan \<Rightarrow> nat \<Rightarrow> CorpusEntry list \<Rightarrow> CorpusCollection \<Rightarrow> CorpusCollection" where
  "merge_loop sc k [] c = c"
| "merge_loop sc k (e # es) c = merge_loop sc (k + 4) es (snd (corpus_Add sc k (Some e) c))"

definition corpus_Merge :: "Scan \<Rightarrow> nat \<Rightarrow> CorpusCollection option \<Rightarrow> CorpusCollection \<Rightarrow> error option \<times> CorpusCollection" where
  "corpus_Merge sc k other c = (case other of
       None \<Rightarrow> (Some (ErrorString ''cannot merge nil collection''), c)
     | Some oc \<Rightarrow> (None, merge_loop sc (k + 1) (visit sc k oc) c))"

definition corpus_Clear :: "CorpusCollection \<Rightarrow> CorpusCollection" where
  "corpus_Clear c = c\<lparr>cc_entries := []\<rparr>"

definition SetDescription :: "string \<Rightarrow> CorpusCollection \<Rightarrow> CorpusCollection" where
  "SetDescription desc c = c\<lparr>cc_description := desc\<rparr>"

section \<open>Well-formed collections\<close>

text \<open>Every key is the ID of its entry, every entry is valid and no key occurs twice.\<close>

definition corpus_wf :: "CorpusCollection \<Rightarrow> bool" where
  "corpus_wf c \<longleftrightarrow> distinct (map fst (cc_entries c)) \<and>
     (\<forall>(k, e) \<in> set (cc_entries c). k = ce_ID e \<and> CorpusEntry_Validate e = None)"

text \<open>An entry that \<open>findLeastInteresting\<close> can return.\<close>

definition evictable :: "CorpusEntry \<Rightarrow> bool" where
  "evictable e \<longleftrightarrow> (\<not> IsInteresting e \<and> fle (score e) (Fin 1)) \<or> flt (score e) (Fin 1)"

definition corpus_set :: "CorpusCollection \<Rightarrow> CorpusEntry set" where
  "corpus_set c = snd ` set (cc_entries c)"

section \<open>Choosing the entry to evict\<close>

definition dull :: "CorpusEntry \<Rightarrow> bool" where
  "dull e \<longleftrightarrow> \<not> IsInteresting e \<and> fle (score e) (Fin 1)"

lemma visit_set: "scan_ok sc \<Longrightarrow> set (visit sc k c) = corpus_set c"
  unfolding visit_def corpus_set_def scan_ok_def by (metis list.set_map set_mset_mset)

lemma least_dull_Some:
  assumes "least_dull clk i es (Some l, s) = (r, s')" and "fle s (Fin 1)"
  shows "\<exists>x. r = Some x \<and> (x = l \<or> x \<in> set es \<and> dull x)"
  using assms
proof (induction es arbitrary: i l s)
  case (Cons e es)
  show ?case
  proof (cases "\<not> IsInteresting e \<and> fle (score e) s")
    case True
    then have "dull e" "fle (score e) (Fin 1)" using fle_trans Cons.prems(2) by (auto simp: dull_def)
    then show ?thesis
      using Cons.prems Cons.IH [of "i + 2" e "score e"] Cons.IH [of "i + 2" l s] True
      by (cases "Age (clk i) e > Age (clk (i + 1)) l") auto
  next
    case False
    then have "least_dull clk i es (Some l, s) = (r, s')" using Cons.prems by auto
    then show ?thesis using Cons.prems Cons.IH [of i l s] by auto
  qed
qed simp

lemma least_dull_None:
  assumes "least_dull clk i es (None, Fin 1) = (r, s')"
  shows "case r of Some x \<Rightarrow> x \<in> set es \<and> dull x | None \<Rightarrow> s' = Fin 1 \<and> (\<forall>e \<in> set es. \<not> dull e)"
  using assms
proof (induction es)
  case (Cons e es)
  show ?case
  proof (cases "dull e")
    case True
    then have "least_dull clk i es (Some e, score e) = (r, s')" using Cons.prems by (simp add: dull_def)
    from least_dull_Some [OF this] True show ?thesis by (auto simp: dull_def)
  next
    case False
    then have "least_dull clk i es (None, Fin 1) = (r, s')" using Cons.prems by (auto simp: dull_def)
    with Cons.IH False show ?thesis by (auto split: option.splits)
  qed
qed simp

lemma least_score_min:
  assumes "least_score es (l, s) = (r, s')" and "s \<noteq> NaN"
  shows "fle s' s \<and> (\<forall>e \<in> set es. \<not> flt (score e) s') \<and>
     (r = l \<and> s' = s \<or> (\<exists>x \<in> set es. r = Some x \<and> score x = s' \<and> flt s' s))"
  using assms
proof (induction es arbitrary: l s)
  case (Cons e es)
  show ?case
  proof (cases "flt (score e) s")
    case True
    then have "score e \<noteq> NaN" by auto
    moreover have "least_score es (Some e, score e) = (r, s')" using Cons.prems True by simp
    ultimately have IH: "fle s' (score e) \<and> (\<forall>e \<in> set es. \<not> flt (score e) s') \<and>
       (r = Some e \<and> s' = score e \<or> (\<exists>x \<in> set es. r = Some x \<and> score x = s' \<and> flt s' (score e)))"
      using Cons.IH by blast
    then have "flt s' s" using True fle_flt_trans by blast
    moreover have "\<not> flt (score e) s'" using IH fle_flt_trans flt_irrefl by blast
    ultimately show ?thesis using IH by (auto simp: fle_def)
  next
    case False
    then have IH: "fle s' s \<and> (\<forall>e \<in> set es. \<not> flt (score e) s') \<and>
       (r = l \<and> s' = s \<or> (\<exists>x \<in> set es. r = Some x \<and> score x = s' \<and> flt s' s))"
      using Cons.IH [of l s] Cons.prems by simp
    moreover have "\<not> flt (score e) s'" using False IH by (auto simp: fle_def dest: flt_trans)
    ultimately show ?thesis by auto
  qed
qed simp

text \<open>
  The entry that \<open>findLeastInteresting\<close> returns: a dull one if there is one, else one of minimal score,
  provided that score is below 1; otherwise none.
\<close>

lemma findLeastInteresting_cases:
  assumes "scan_ok sc"
  shows "case findLeastInteresting sc k c of
       None \<Rightarrow> \<forall>e \<in> corpus_set c. \<not> evictable e
     | Some l \<Rightarrow> l \<in> corpus_set c \<and> evictable l \<and>
         (if \<exists>e \<in> corpus_set c. dull e then dull l else \<forall>e \<in> corpus_set c. \<not> flt (score e) (score l))"
proof -
  obtain r s where rs: "least_dull (scan_clock sc k) 0 (visit sc k c) (None, Fin 1) = (r, s)" by force
  note d = least_dull_None [OF rs, unfolded visit_set [OF assms]]
  show ?thesis
  proof (cases r)
    case (Some x)
    then show ?thesis using d rs by (auto simp: findLeastInteresting_def evictable_def dull_def)
  next
    case None
    then have s: "s = Fin 1" and nd: "\<forall>e \<in> corpus_set c. \<not> dull e" using d by auto
    obtain q t where qt: "least_score (visit sc (k + 1) c) (None, Fin 1) = (q, t)" by force
    from least_score_min [OF qt] have m: "fle t (Fin 1) \<and> (\<forall>e \<in> corpus_set c. \<not> flt (score e) t) \<and>
       (q = None \<and> t = Fin 1 \<or> (\<exists>x \<in> corpus_set c. q = Some x \<and> score x = t \<and> flt t (Fin 1)))"
      using visit_set [OF assms] by simp
    have "findLeastInteresting sc k c = q" using rs None s qt by (simp add: findLeastInteresting_def)
    then show ?thesis using m nd by (auto simp: evictable_def dull_def)
  qed
qed

lemma findLeastInteresting_None_iff:
  "scan_ok sc \<Longrightarrow> findLeastInteresting sc k c = None \<longleftrightarrow> (\<forall>e \<in> corpus_set c. \<not> evictable e)"
  using findLeastInteresting_cases [of sc c k] by (auto split: option.splits)

lemma findLeastInteresting_in: "scan_ok sc \<Longrightarrow> findLeastInteresting sc k c = Some l \<Longrightarrow> l \<in> corpus_set c"
  using findLeastInteresting_cases [of sc c k] by simp

section \<open>Size and well-formedness\<close>

lemma entries_update_length:
  "length (AList.update k v al) = (if k \<in> fst ` set al then length al else Suc (length al))"
  by (induction al) auto

lemma entries_delete_length:
  "distinct (map fst al) \<Longrightarrow> length (AList.delete k al) = (if k \<in> fst ` set al then length al - 1 else length al)"
proof (induction al)
  case (Cons x al)
  then show ?case by (cases al) (auto simp: AList.delete_eq)
qed simp

lemma alist_update_set: "set (AList.update k v al) \<subseteq> insert (k, v) (set al)"
  by (induction al) auto

lemma put_entry_set: "corpus_set (put_entry e c) \<subseteq> insert e (corpus_set c)"
  using alist_update_set [of "ce_ID e" e "cc_entries c"] by (fastforce simp: corpus_set_def put_entry_def)

lemma delete_entry_set: "corpus_set (delete_entry i c) \<subseteq> corpus_set c"
  by (auto simp: corpus_set_def delete_entry_def AList.delete_eq)

lemma delete_entry_fields [simp]:
  "cc_maxSize (delete_entry i c) = cc_maxSize c" "cc_maxSize (put_entry e c) = cc_maxSize c"
  by (simp_all add: delete_entry_def put_entry_def)

lemma removeLeastInteresting_set: "corpus_set (removeLeastInteresting sc k c) \<subseteq> corpus_set c"
  using delete_entry_set by (simp add: removeLeastInteresting_def split: option.splits)

lemma put_entry_wf: "corpus_wf c \<Longrightarrow> CorpusEntry_Validate e = None \<Longrightarrow> corpus_wf (put_entry e c)"
  using alist_update_set [of "ce_ID e" e "cc_entries c"]
  by (fastforce simp: corpus_wf_def put_entry_def intro: AList.distinct_update)

lemma delete_entry_wf: "corpus_wf c \<Longrightarrow> corpus_wf (delete_entry i c)"
  by (auto simp: corpus_wf_def delete_entry_def AList.delete_eq distinct_map_filter)

lemma removeLeastInteresting_wf: "corpus_wf c \<Longrightarrow> corpus_wf (removeLeastInteresting sc k c)"
  using delete_entry_wf by (simp add: removeLeastInteresting_def split: option.splits)

lemma corpus_Add_wf: "corpus_wf c \<Longrightarrow> corpus_wf (snd (corpus_Add sc k e c))"
  by (simp add: corpus_Add_def put_entry_wf removeLeastInteresting_wf split: option.splits)

lemma corpus_Add_set: "corpus_set (snd (corpus_Add sc k e c)) \<subseteq> set_option e \<union> corpus_set c"
proof (cases e)
  case (Some x)
  have "corpus_set (put_entry x c) \<subseteq> insert x (corpus_set c)"
    and "corpus_set (put_entry x (removeLeastInteresting sc (k + 2) c)) \<subseteq> insert x (corpus_set c)"
    using put_entry_set [of x] removeLeastInteresting_set by blast+
  then show ?thesis using Some by (auto simp: corpus_Add_def split: option.splits)
qed (simp add: corpus_Add_def)

lemma corpus_key_iff: "corpus_wf c \<Longrightarrow> i \<in> fst ` set (cc_entries c) \<longleftrightarrow> (\<exists>e \<in> corpus_set c. ce_ID e = i)"
  by (force simp: corpus_wf_def corpus_set_def)

lemma corpus_Size_put:
  "corpus_wf c \<Longrightarrow> corpus_Size (put_entry e c) = corpus_Size c + (if \<exists>x \<in> corpus_set c. ce_ID x = ce_ID e then 0 else 1)"
  using corpus_key_iff [of c "ce_ID e"]
  by (auto simp: corpus_Size_def put_entry_def entries_update_length)

lemma corpus_Size_delete:
  "corpus_wf c \<Longrightarrow> e \<in> corpus_set c \<Longrightarrow> corpus_Size (delete_entry (ce_ID e) c) = corpus_Size c - 1"
proof -
  assume wf: "corpus_wf c" and e: "e \<in> corpus_set c"
  then have "ce_ID e \<in> fst ` set (cc_entries c)" using corpus_key_iff by blast
  moreover have "cc_entries c \<noteq> []" using e by (auto simp: corpus_set_def)
  ultimately show ?thesis
    using wf entries_delete_length [of "cc_entries c" "ce_ID e"]
    by (simp add: corpus_Size_def delete_entry_def corpus_wf_def Suc_leI)
qed

lemma corpus_Size_delete_le: "corpus_Size (delete_entry i c) \<le> corpus_Size c"
  by (simp add: corpus_Size_def delete_entry_def AList.delete_eq)

text \<open>The size after a successful eviction.\<close>

lemma corpus_Size_remove:
  assumes "scan_ok sc" and "corpus_wf c"
  shows "corpus_Size (removeLeastInteresting sc k c) = corpus_Size c - (if \<exists>e \<in> corpus_set c. evictable e then 1 else 0)"
proof (cases "findLeastInteresting sc k c")
  case None
  then show ?thesis using findLeastInteresting_None_iff [OF assms(1), of k c] by (auto simp: removeLeastInteresting_def)
next
  case (Some l)
  then show ?thesis
    using findLeastInteresting_None_iff [OF assms(1), of k c] findLeastInteresting_in [OF assms(1) Some]
      corpus_Size_delete [OF assms(2)]
    by (auto simp: removeLeastInteresting_def)
qed

section \<open>Reachable collections\<close>

text \<open>
  A collection is built by its operations; an entry it holds may be changed through its pointer by the
  operations of the entry. \<open>Q\<close> restricts the entries that occur.
\<close>

datatype entry_op =
    OpUpdateCoverage CoverageInfo | OpExecute time | OpAddTag string | OpRemoveTag string | OpSetMetadata string string

fun entry_apply :: "entry_op \<Rightarrow> CorpusEntry \<Rightarrow> CorpusEntry" where
  "entry_apply (OpUpdateCoverage ci) e = UpdateCoverage ci e"
| "entry_apply (OpExecute now) e = Execute now e"
| "entry_apply (OpAddTag t) e = CorpusEntry_AddTag t e"
| "entry_apply (OpRemoveTag t) e = CorpusEntry_RemoveTag t e"
| "entry_apply (OpSetMetadata k v) e = CorpusEntry_SetMetadata k v e"

definition touch :: "string \<Rightarrow> entry_op \<Rightarrow> CorpusCollection \<Rightarrow> CorpusCollection" where
  "touch i opn c = c\<lparr>cc_entries := map (\<lambda>(k, e). (k, if k = i then entry_apply opn e else e)) (cc_entries c)\<rparr>"

inductive corpus_reach :: "(CorpusEntry \<Rightarrow> bool) \<Rightarrow> CorpusCollection \<Rightarrow> bool" for Q where
  reach_new: "NewCorpusCollection now name maxSize = Inr c \<Longrightarrow> corpus_reach Q c"
| reach_Add: "corpus_reach Q c \<Longrightarrow> scan_ok sc \<Longrightarrow> Q e \<Longrightarrow> corpus_reach Q (snd (corpus_Add sc k (Some e) c))"
| reach_Remove: "corpus_reach Q c \<Longrightarrow> corpus_reach Q (snd (corpus_Remove i c))"
| reach_Merge: "corpus_reach Q c \<Longrightarrow> corpus_reach Q d \<Longrightarrow> scan_ok sc \<Longrightarrow> corpus_reach Q (snd (corpus_Merge sc k (Some d) c))"
| reach_Clear: "corpus_reach Q c \<Longrightarrow> corpus_reach Q (corpus_Clear c)"
| reach_SetDescription: "corpus_reach Q c \<Longrightarrow> corpus_reach Q (SetDescription desc c)"
| reach_touch: "corpus_reach Q c \<Longrightarrow> \<forall>e \<in> corpus_set (touch i opn c). Q e \<Longrightarrow> corpus_reach Q (touch i opn c)"

definition corpus_inv :: "(CorpusEntry \<Rightarrow> bool) \<Rightarrow> CorpusCollection \<Rightarrow> bool" where
  "corpus_inv Q c \<longleftrightarrow> corpus_wf c \<and> (\<forall>e \<in> corpus_set c. Q e) \<and> 0 \<le> cc_maxSize c \<and>
     ((\<forall>e. Q e \<longrightarrow> evictable e) \<and> cc_maxSize c > 0 \<longrightarrow> corpus_Size c \<le> cc_maxSize c)"

lemma entry_apply_ID [simp]: "ce_ID (entry_apply opn e) = ce_ID e"
  and entry_apply_Validate [simp]: "CorpusEntry_Validate (entry_apply opn e) = CorpusEntry_Validate e"
  by (cases opn; simp add: CorpusEntry_Validate_def UpdateCoverage_def Execute_def CorpusEntry_AddTag_def
    CorpusEntry_RemoveTag_def CorpusEntry_SetMetadata_def)+

lemma touch_wf: "corpus_wf c \<Longrightarrow> corpus_wf (touch i opn c)"
proof -
  have "map fst (cc_entries (touch i opn c)) = map fst (cc_entries c)" by (auto simp: touch_def)
  moreover have "\<forall>(k, e) \<in> set (cc_entries (touch i opn c)). k = ce_ID e \<and> CorpusEntry_Validate e = None" if "corpus_wf c"
    using that by (auto simp: corpus_wf_def touch_def split: if_splits)
  ultimately show "corpus_wf c \<Longrightarrow> corpus_wf (touch i opn c)" by (simp add: corpus_wf_def)
qed

lemma corpus_Add_maxSize [simp]: "cc_maxSize (snd (corpus_Add sc k e c)) = cc_maxSize c"
  by (simp add: corpus_Add_def removeLeastInteresting_def split: option.splits)

lemma corpus_Add_size:
  assumes "scan_ok sc" and "corpus_wf c" and "0 < cc_maxSize c" and "corpus_Size c \<le> cc_maxSize c"
  shows "corpus_Size (snd (corpus_Add sc k (Some e) c)) > cc_maxSize c \<longleftrightarrow>
     CorpusEntry_Validate e = None \<and> corpus_Size c = cc_maxSize c \<and> ci_NewCoverage (ce_Coverage e) \<and>
     (\<forall>x \<in> corpus_set c. \<not> evictable x) \<and> (\<forall>x \<in> corpus_set c. ce_ID x \<noteq> ce_ID e)"
proof (cases "CorpusEntry_Validate e = None \<and> corpus_Size c = cc_maxSize c \<and> shouldReplaceEntry sc k e c")
  case True
  let ?c = "removeLeastInteresting sc (k + 2) c"
  have add: "snd (corpus_Add sc k (Some e) c) = put_entry e ?c"
    using True assms by (simp add: corpus_Add_def corpus_Size_def)
  have sz: "corpus_Size (put_entry e ?c) = corpus_Size c - (if \<exists>x \<in> corpus_set c. evictable x then 1 else 0)
      + (if \<exists>x \<in> corpus_set ?c. ce_ID x = ce_ID e then 0 else 1)"
    using corpus_Size_put [OF removeLeastInteresting_wf] corpus_Size_remove assms by simp
  show ?thesis
  proof (cases "\<exists>x \<in> corpus_set c. evictable x")
    case ev: True
    then show ?thesis using add sz True by auto
  next
    case ev: False
    have none: "findLeastInteresting sc n c = None" for n
      using ev findLeastInteresting_None_iff [OF assms(1)] by blast
    then have "?c = c" and "ci_NewCoverage (ce_Coverage e)"
      using True by (auto simp: removeLeastInteresting_def shouldReplaceEntry_def split: if_splits)
    then show ?thesis using add sz True ev by auto
  qed
next
  case False
  have "corpus_Size (put_entry e c) \<le> cc_maxSize c" if "corpus_Size c \<noteq> cc_maxSize c"
    using corpus_Size_put [OF assms(2), of e] that assms(4) by simp
  then show ?thesis
    using False assms by (auto simp: corpus_Add_def corpus_Size_def shouldReplaceEntry_def split: option.splits)
qed

lemma corpus_Add_inv: "corpus_inv Q c \<Longrightarrow> scan_ok sc \<Longrightarrow> Q e \<Longrightarrow> corpus_inv Q (snd (corpus_Add sc k (Some e) c))"
proof -
  assume inv: "corpus_inv Q c" and sc: "scan_ok sc" and e: "Q e"
  let ?c = "snd (corpus_Add sc k (Some e) c)"
  have "\<forall>x \<in> corpus_set ?c. Q x"
    using corpus_Add_set [of sc k "Some e" c] inv e by (auto simp: corpus_inv_def)
  moreover have "corpus_Size ?c \<le> cc_maxSize c"
    if ev: "\<forall>e. Q e \<longrightarrow> evictable e" and "cc_maxSize c > 0"
  proof (rule ccontr)
    assume "\<not> corpus_Size ?c \<le> cc_maxSize c"
    then have "corpus_Size c = cc_maxSize c" and "\<forall>x \<in> corpus_set c. \<not> evictable x"
      using corpus_Add_size [OF sc, of c k e] inv that by (auto simp: corpus_inv_def)
    then have "corpus_set c = {}" using ev inv by (auto simp: corpus_inv_def)
    then show False using \<open>corpus_Size c = cc_maxSize c\<close> that by (simp add: corpus_set_def corpus_Size_def)
  qed
  ultimately show ?thesis using inv corpus_Add_wf by (auto simp: corpus_inv_def)
qed

lemma merge_loop_inv:
  "corpus_inv Q c \<Longrightarrow> scan_ok sc \<Longrightarrow> \<forall>e \<in> set es. Q e \<Longrightarrow> corpus_inv Q (merge_loop sc k es c)"
  by (induction es arbitrary: k c) (simp_all add: corpus_Add_inv)

lemma delete_entry_inv: "corpus_inv Q c \<Longrightarrow> corpus_inv Q (delete_entry i c)"
  using delete_entry_set [of i c] delete_entry_wf [of c i] corpus_Size_delete_le [of i c]
  by (auto simp: corpus_inv_def)

lemma corpus_reach_inv: "corpus_reach Q c \<Longrightarrow> corpus_inv Q c"
proof (induction rule: corpus_reach.induct)
  case (reach_new now name maxSize c)
  then show ?case
    by (auto simp: NewCorpusCollection_def corpus_inv_def corpus_wf_def corpus_set_def corpus_Size_def split: if_splits)
next
  case (reach_Add c sc e k)
  then show ?case by (simp add: corpus_Add_inv)
next
  case (reach_Remove c i)
  then show ?case by (simp add: corpus_Remove_def delete_entry_inv split: option.splits)
next
  case (reach_Merge c d sc k)
  then have "\<forall>e \<in> set (visit sc k d). Q e" by (simp add: visit_set corpus_inv_def)
  with reach_Merge show ?case by (simp add: corpus_Merge_def merge_loop_inv)
next
  case (reach_Clear c)
  then show ?case by (auto simp: corpus_inv_def corpus_Clear_def corpus_wf_def corpus_set_def corpus_Size_def)
next
  case (reach_SetDescription c desc)
  then show ?case by (simp add: corpus_inv_def SetDescription_def corpus_wf_def corpus_set_def corpus_Size_def)
next
  case (reach_touch c i opn)
  then show ?case using touch_wf [of c i opn]
    by (auto simp: corpus_inv_def corpus_Size_def touch_def)
qed

section \<open>Coverage scores\<close>

lemma weights_sum: "rd (rd (rd (3 / 10)) + rd (rd (7 / 10))) = 1"
  by code_simp

lemma weights_pos: "0 \<le> rd (3 / 10)" "0 \<le> rd (7 / 10)"
  by simp_all

lemma weighted_unit:
  assumes "f_unit x" and "f_unit y"
  shows "f_unit (fadd (fmul x (f_const (3 / 10))) (fmul y (f_const (7 / 10))))"
proof -
  obtain a b where ab: "x = Fin a" "y = Fin b" "0 \<le> a" "a \<le> 1" "0 \<le> b" "b \<le> 1"
    using assms by (cases x; cases y) (auto simp: f_unit_def)
  have p: "0 \<le> rd (a * rd (3 / 10))" "0 \<le> rd (b * rd (7 / 10))" using ab weights_pos by simp_all
  have "rd (a * rd (3 / 10)) \<le> rd (rd (3 / 10))" "rd (b * rd (7 / 10)) \<le> rd (rd (7 / 10))"
    using ab weights_pos by (simp_all add: rd_mono mult_left_le_one_le)
  then have "rd (rd (a * rd (3 / 10)) + rd (b * rd (7 / 10))) \<le> 1"
    using rd_mono [OF add_mono] weights_sum by metis
  then show ?thesis using ab p by (simp add: f_const_def)
qed

lemma fdiv_same: "0 < b \<Longrightarrow> fdiv (f_of_int b) (f_of_int b) = Fin 1"
  using rd_pos_iff [of "of_int b"] by (simp add: f_of_int_def)

text \<open>A coverage score is a number between 0 and 1 whenever no more blocks and edges are covered than
  there are, except that it is not a number when exactly one of the two totals is zero; full coverage of
  blocks and edges scores exactly 1, in spite of rounding.\<close>

theorem coverage_score_range:
  assumes "ci_CoveredBlocks c \<le> ci_TotalBlocks c" and "ci_CoveredEdges c \<le> ci_TotalEdges c"
  shows "(if (ci_TotalBlocks c = 0) \<noteq> (ci_TotalEdges c = 0) then calculateCoverageScore c = NaN
          else f_unit (calculateCoverageScore c)) \<and>
     (0 < ci_TotalBlocks c \<and> 0 < ci_TotalEdges c \<and> ci_CoveredBlocks c = ci_TotalBlocks c \<and>
      ci_CoveredEdges c = ci_TotalEdges c \<longrightarrow> calculateCoverageScore c = Fin 1)"
proof -
  have le: "uint (ci_CoveredBlocks c) \<le> uint (ci_TotalBlocks c)" "uint (ci_CoveredEdges c) \<le> uint (ci_TotalEdges c)"
    using assms by (simp_all add: word_le_def)
  have pos: "0 < uint w" if "w \<noteq> 0" for w :: "32 word"
    using that uint_ge_0 [of w] word_uint_eq_iff [of w 0] by (metis order_less_le uint_0_eq)
  have nan: "fdiv (f_of_int (uint v)) (f_of_int (uint w)) = NaN" if "v \<le> w" "w = 0" for v w :: "32 word"
    using that by (simp add: f_of_int_def)
  have full: "calculateCoverageScore c = Fin 1"
    if "0 < ci_TotalBlocks c" "0 < ci_TotalEdges c" "ci_CoveredBlocks c = ci_TotalBlocks c" "ci_CoveredEdges c = ci_TotalEdges c"
    using that pos [of "ci_TotalBlocks c"] pos [of "ci_TotalEdges c"] weights_sum
    by (auto simp: calculateCoverageScore_def fdiv_same f_const_def)
  consider "ci_TotalBlocks c = 0" "ci_TotalEdges c = 0" | "ci_TotalBlocks c = 0" "ci_TotalEdges c \<noteq> 0"
    | "ci_TotalBlocks c \<noteq> 0" "ci_TotalEdges c = 0" | "ci_TotalBlocks c \<noteq> 0" "ci_TotalEdges c \<noteq> 0" by blast
  then show ?thesis
  proof cases
    case 1
    then show ?thesis by (simp add: calculateCoverageScore_def)
  next
    case 2
    then show ?thesis using nan [OF assms(1)] by (simp add: calculateCoverageScore_def Let_def)
  next
    case 3
    obtain z where "fmul (fdiv (f_of_int (uint (ci_CoveredBlocks c))) (f_of_int (uint (ci_TotalBlocks c)))) (f_const (3 / 10)) = z" by blast
    with 3 show ?thesis using nan [OF assms(2)] by (cases z) (simp_all add: calculateCoverageScore_def Let_def)
  next
    case 4
    then have "f_unit (calculateCoverageScore c)"
      using weighted_unit fdiv_unit le pos by (simp add: calculateCoverageScore_def Let_def)
    with 4 full show ?thesis by simp
  qed
qed

definition sample_cov :: CoverageInfo where
  "sample_cov = \<lparr>ci_TotalBlocks = 10, ci_CoveredBlocks = 10, ci_TotalEdges = 20, ci_CoveredEdges = 20,
     ci_CoverageScore = Fin 0, ci_NewCoverage = True, ci_CoverageGained = 3\<rparr>"

theorem coverage_score_range_witness:
  "calculateCoverageScore sample_cov = Fin 1 \<and> calculateCoverageScore (sample_cov\<lparr>ci_TotalBlocks := 0, ci_CoveredBlocks := 0\<rparr>) = NaN"
  using coverage_score_range [of sample_cov] coverage_score_range [of "sample_cov\<lparr>ci_TotalBlocks := 0, ci_CoveredBlocks := 0\<rparr>"]
  by (simp add: sample_cov_def)

section \<open>The properties of the collection\<close>

text \<open>C15: in every reachable collection the keys are the IDs of valid entries and no ID occurs twice; if
  all entries that occur can be evicted (e.g. they score below 1), the size never exceeds a positive
  maximum.\<close>

theorem corpus_reachable:
  assumes "corpus_reach Q c"
  shows "corpus_wf c \<and> (\<forall>e \<in> corpus_set c. Q e) \<and>
     ((\<forall>e. Q e \<longrightarrow> evictable e) \<and> 0 < cc_maxSize c \<longrightarrow> corpus_Size c \<le> cc_maxSize c)"
  using corpus_reach_inv [OF assms] by (simp add: corpus_inv_def)

definition sample_entry :: "string \<Rightarrow> time \<Rightarrow> rat \<Rightarrow> bool \<Rightarrow> CorpusEntry" where
  "sample_entry i t s new = \<lparr>ce_ID = i, ce_Input = [1], ce_Hash = i, ce_Size = 1, ce_CreatedAt = t, ce_LastExecutedAt = None,
     ce_ExecutionCount = 0, ce_Coverage = sample_cov\<lparr>ci_CoverageScore := Fin s, ci_NewCoverage := new, ci_CoverageGained := 0\<rparr>,
     ce_MutationInfo = \<lparr>mi_ParentID = '''', mi_MutationMethod = '''', mi_Generation = 0, mi_CreatedAt = t\<rparr>,
     ce_Tags = [], ce_Metadata = None\<rparr>"

definition sample_corpus :: "int \<Rightarrow> CorpusEntry list \<Rightarrow> CorpusCollection" where
  "sample_corpus n es = \<lparr>cc_entries = map (\<lambda>e. (ce_ID e, e)) es, cc_name = ''c'', cc_description = '''', cc_createdAt = 0, cc_maxSize = n\<rparr>"

definition sample_scan :: Scan where
  "sample_scan = \<lparr>scan_order = (\<lambda>_ es. es), scan_clock = (\<lambda>_ i. 100 + int i)\<rparr>"

lemma sample_scan_ok [simp]: "scan_ok sample_scan"
  by (simp add: scan_ok_def sample_scan_def)

lemmas sample_simps = sample_entry_def sample_corpus_def sample_scan_def sample_cov_def corpus_Add_def CorpusEntry_Validate_def
  put_entry_def delete_entry_def shouldReplaceEntry_def removeLeastInteresting_def findLeastInteresting_def visit_def
  IsInteresting_def Age_def time_Sub_def sat64_def

lemma corpus_sample_reach: "corpus_reach (\<lambda>e. score e = Fin (1 / 2)) (sample_corpus 1 [sample_entry ''a'' 0 (1 / 2) True])"
proof -
  have "corpus_reach (\<lambda>e. score e = Fin (1 / 2)) (sample_corpus 1 [])"
    by (rule reach_new [of 0 "''c''" 1]) (simp add: NewCorpusCollection_def sample_corpus_def)
  then have "corpus_reach (\<lambda>e. score e = Fin (1 / 2)) (snd (corpus_Add sample_scan 0 (Some (sample_entry ''a'' 0 (1 / 2) True)) (sample_corpus 1 [])))"
    by (rule reach_Add) (simp_all add: sample_entry_def)
  then show ?thesis by (simp add: sample_simps)
qed

theorem corpus_reachable_witness:
  "corpus_wf (sample_corpus 1 [sample_entry ''a'' 0 (1 / 2) True]) \<and> corpus_Size (sample_corpus 1 [sample_entry ''a'' 0 (1 / 2) True]) \<le> 1"
  using corpus_reachable [OF corpus_sample_reach] by (simp add: evictable_def sample_corpus_def)



text \<open>Adding an entry takes a bounded collection above its maximum exactly when the collection is full,
  the entry is new and brings new coverage, and no entry can be evicted, i.e. none scores below 1 and the
  dull ones do not score 1 either.\<close>

theorem corpus_overflow:
  assumes "scan_ok sc" and "corpus_wf c" and "0 < cc_maxSize c" and "corpus_Size c \<le> cc_maxSize c"
  shows "corpus_Size (snd (corpus_Add sc k (Some e) c)) > cc_maxSize c \<longleftrightarrow>
     CorpusEntry_Validate e = None \<and> corpus_Size c = cc_maxSize c \<and> ci_NewCoverage (ce_Coverage e) \<and>
     (\<forall>x \<in> corpus_set c. \<not> evictable x) \<and> (\<forall>x \<in> corpus_set c. ce_ID x \<noteq> ce_ID e)"
  using corpus_Add_size [OF assms] .

theorem corpus_overflow_witness:
  "corpus_Size (snd (corpus_Add sample_scan 0 (Some (sample_entry ''b'' 5 1 True)) (sample_corpus 1 [sample_entry ''a'' 0 1 True]))) > 1"
proof -
  let ?c = "sample_corpus 1 [sample_entry ''a'' 0 1 True]"
  have "corpus_wf ?c" "corpus_Size ?c = 1" "\<forall>x \<in> corpus_set ?c. \<not> evictable x \<and> ce_ID x \<noteq> ''b''"
    by (simp_all add: corpus_wf_def corpus_Size_def corpus_set_def evictable_def sample_simps)
  then show ?thesis
    using corpus_overflow [of sample_scan ?c 0 "sample_entry ''b'' 5 1 True"]
    by (simp add: sample_corpus_def sample_entry_def CorpusEntry_Validate_def)
qed

text \<open>A full collection loses another entry when an entry it already holds is added again.\<close>

lemma corpus_readd_evicts:
  "map fst (cc_entries (snd (corpus_Add sample_scan 0 (Some (sample_entry ''b'' 5 (1 / 2) True))
     (sample_corpus 2 [sample_entry ''a'' 0 (1 / 4) False, sample_entry ''b'' 5 (1 / 2) True])))) = [''b'']"
  by (simp add: sample_simps)

text \<open>
  The entry found is not the one with the lowest score: an older entry that scores higher is preferred if
  it is visited first, so the choice depends on the order of \<open>range\<close>.
\<close>

lemma findLeastInteresting_order_dependent:
  "map_option ce_ID (findLeastInteresting sample_scan 0
     (sample_corpus 2 [sample_entry ''a'' 0 (3 / 4) False, sample_entry ''b'' 50 (1 / 4) False])) = Some ''a''"
  "map_option ce_ID (findLeastInteresting sample_scan 0
     (sample_corpus 2 [sample_entry ''b'' 50 (1 / 4) False, sample_entry ''a'' 0 (3 / 4) False])) = Some ''b''"
  by (simp_all add: sample_simps)

text \<open>The number of unique edges is the largest number of covered edges of an entry.\<close>

lemma edge_union: "fold (\<lambda>e S. S \<union> {0 ..< (f e :: nat)}) es {0 ..< m} = {0 ..< fold (\<lambda>e. max (f e)) es m}"
proof (induction es arbitrary: m)
  case (Cons e es)
  have "{0 ..< m} \<union> {0 ..< f e} = {0 ..< max (f e) m}" by auto
  then show ?case using Cons by simp
qed simp

lemma stats_edges:
  "snd (snd (fold stats_entry es (st, t, S))) = fold (\<lambda>e S. S \<union> {0 ..< unat (ci_CoveredEdges (ce_Coverage e))}) es S"
  by (induction es arbitrary: st t S) (simp_all add: stats_entry_def)

lemma unat_lt2p_32: "unat w < 2 ^ 32" for w :: "32 word"
proof -
  have "unat w < 2 ^ LENGTH(32)" by (rule unsigned_less)
  then show ?thesis by simp
qed

lemma fold_max_less: "m < n \<Longrightarrow> \<forall>e \<in> set es. f e < n \<Longrightarrow> fold (\<lambda>e. max (f e)) es m < (n :: nat)"
  by (induction es arbitrary: m) auto

lemma unique_edges_max:
  "unat (cs_UniqueEdges (corpus_GetStats sc k now c)) = fold (\<lambda>e. max (unat (ci_CoveredEdges (ce_Coverage e)))) (visit sc k c) 0"
proof -
  let ?st = "(\<lparr>cs_TotalEntries = int (length (cc_entries c)), cs_TotalSize = 0, cs_TotalExecutions = 0, cs_AverageCoverage = Fin 0,
      cs_UniqueEdges = 0, cs_InterestingInputs = 0, cs_LastUpdated = now\<rparr>, Fin 0, {})"
  let ?m = "fold (\<lambda>e. max (unat (ci_CoveredEdges (ce_Coverage e)))) (visit sc k c) 0"
  obtain st t S where f: "fold stats_entry (visit sc k c) ?st = (st, t, S)" by (metis prod_cases3)
  have "S = {0 ..< ?m}"
    using stats_edges [of "visit sc k c" "fst ?st" "Fin 0" "{}"] f
      edge_union [of "\<lambda>e. unat (ci_CoveredEdges (ce_Coverage e))" "visit sc k c" 0] by simp
  moreover have "?m < 2 ^ 32" using unat_lt2p_32 by (intro fold_max_less) auto
  ultimately show ?thesis
    using f by (simp add: corpus_GetStats_def unsigned_of_nat take_bit_nat_eq_self)
qed

end
