(* ===== verification/Go_Regexp.thy ===== *)
theory Go_Regexp
  imports Go_Prelude
begin

text \<open>
  The parts of the packages \<open>regexp\<close>, \<open>strings\<close> and \<open>strconv\<close> that the code on stack traces uses.

  A regular expression is matched by backtracking: \<open>rx_match r s c\<close> lists the ways in which \<open>r\<close> matches
  a prefix of \<open>s\<close>, in the order in which Go's leftmost-first semantics prefers them, each with the rest of
  the input and the captured groups. Only character classes are repeated (all expressions of the modelled
  code have this form), so the list is finite and every repetition is a run of characters. Strings are
  lists of ASCII characters.
\<close>

section \<open>Matching\<close>

datatype rx =
    Cls "char \<Rightarrow> bool"
  | StarC "char \<Rightarrow> bool"
  | PlusC "char \<Rightarrow> bool"
  | Eps
  | Seq rx rx
  | Opt rx
  | Grp nat rx

type_synonym captures = "(nat \<times> string) list"

text \<open>The suffixes left by a greedy run, the longest run first.\<close>

fun runs :: "(char \<Rightarrow> bool) \<Rightarrow> string \<Rightarrow> string list" where
  "runs p [] = [[]]"
| "runs p (x # xs) = (if p x then runs p xs @ [x # xs] else [x # xs])"

fun rx_match :: "rx \<Rightarrow> string \<Rightarrow> captures \<Rightarrow> (string \<times> captures) list" where
  "rx_match (Cls p) s c = (case s of [] \<Rightarrow> [] | x # xs \<Rightarrow> if p x then [(xs, c)] else [])"
| "rx_match (StarC p) s c = map (\<lambda>t. (t, c)) (runs p s)"
| "rx_match (PlusC p) s c = (case s of [] \<Rightarrow> [] | x # xs \<Rightarrow> if p x then map (\<lambda>t. (t, c)) (runs p xs) else [])"
| "rx_match Eps s c = [(s, c)]"
| "rx_match (Seq a b) s c = concat (map (\<lambda>(s', c'). rx_match b s' c') (rx_match a s c))"
| "rx_match (Opt a) s c = rx_match a s c @ [(s, c)]"
| "rx_match (Grp n a) s c = map (\<lambda>(s', c'). (s', (n, take (length s - length s') s) # c')) (rx_match a s c)"

text \<open>The leftmost match: the text before it, the match, the text after it and the groups.\<close>

fun rx_find :: "rx \<Rightarrow> string \<Rightarrow> (string \<times> string \<times> string \<times> captures) option" where
  "rx_find r s = (case rx_match r s [] of
       (t, c) # _ \<Rightarrow> Some ([], take (length s - length t) s, t, c)
     | [] \<Rightarrow> (case s of
         [] \<Rightarrow> None
       | x # xs \<Rightarrow> map_option (\<lambda>(pre, m, t, c). (x # pre, m, t, c)) (rx_find r xs)))"

declare rx_find.simps [simp del]

definition capture :: "captures \<Rightarrow> nat \<Rightarrow> string" where
  "capture c n = (case map_of c n of Some t \<Rightarrow> t | None \<Rightarrow> [])"

text \<open>\<open>FindString\<close>: the empty string when there is no match.\<close>

definition rx_FindString :: "rx \<Rightarrow> string \<Rightarrow> string" where
  "rx_FindString r s = (case rx_find r s of Some (_, m, _, _) \<Rightarrow> m | None \<Rightarrow> [])"

text \<open>
  The successive matches of \<open>FindAllStringSubmatch(s, -1)\<close>, and \<open>ReplaceAllString(s, "")\<close>, for
  expressions that do not match the empty string (a search that makes no progress ends both).
\<close>

function rx_find_all :: "rx \<Rightarrow> string \<Rightarrow> captures list" where
  "rx_find_all r s = (case rx_find r s of
       None \<Rightarrow> []
     | Some (_, _, t, c) \<Rightarrow> if length t < length s then c # rx_find_all r t else [])"
  by pat_completeness auto
termination by (relation "measure (\<lambda>(_, s). length s)") auto

function rx_delete_all :: "rx \<Rightarrow> string \<Rightarrow> string" where
  "rx_delete_all r s = (case rx_find r s of
       None \<Rightarrow> s
     | Some (pre, _, t, _) \<Rightarrow> if length t < length s then pre @ rx_delete_all r t else s)"
  by pat_completeness auto
termination by (relation "measure (\<lambda>(_, s). length s)") auto

declare rx_find_all.simps [simp del] rx_delete_all.simps [simp del]

section \<open>Expressions\<close>

definition lit :: "string \<Rightarrow> rx" where
  "lit s = foldr (\<lambda>x r. Seq (Cls ((=) x)) r) s Eps"

definition seqs :: "rx list \<Rightarrow> rx" where
  "seqs rs = foldr Seq rs Eps"

text \<open>The classes \<open>\\d\<close>, \<open>\\s\<close> (which has no vertical tab) and \<open>[0-9a-fA-F]\<close>.\<close>

definition is_digit :: "char \<Rightarrow> bool" where
  "is_digit x \<longleftrightarrow> (let n = of_char x :: nat in 48 \<le> n \<and> n \<le> 57)"

definition rx_space :: "char \<Rightarrow> bool" where
  "rx_space x \<longleftrightarrow> (let n = of_char x :: nat in n = 9 \<or> n = 10 \<or> n = 12 \<or> n = 13 \<or> n = 32)"

definition is_hex :: "char \<Rightarrow> bool" where
  "is_hex x \<longleftrightarrow> (let n = of_char x :: nat in (48 \<le> n \<and> n \<le> 57) \<or> (97 \<le> n \<and> n \<le> 102) \<or> (65 \<le> n \<and> n \<le> 70))"

abbreviation non_space :: "char \<Rightarrow> bool" where
  "non_space x \<equiv> \<not> rx_space x"

section \<open>Strings\<close>

text \<open>\<open>strings.Split\<close> by a one-character separator.\<close>

fun split_on :: "char \<Rightarrow> string \<Rightarrow> string list" where
  "split_on d [] = [[]]"
| "split_on d (x # xs) = (if x = d then [] # split_on d xs else case split_on d xs of y # ys \<Rightarrow> (x # y) # ys | [] \<Rightarrow> [[x]])"

lemma split_on_none: "d \<notin> set a \<Longrightarrow> split_on d a = [a]"
  by (induction a) auto

lemma split_on_sep: "d \<notin> set a \<Longrightarrow> split_on d (a @ d # s) = a # split_on d s"
  by (induction a) auto

lemma split_on_elems: "e \<in> set (split_on d s) \<Longrightarrow> d \<notin> set e"
proof (induction s arbitrary: e)
  case (Cons x s)
  then show ?case by (cases "split_on d s") (auto split: if_splits)
qed simp

text \<open>\<open>strings.Join\<close>\<close>

fun join :: "string \<Rightarrow> string list \<Rightarrow> string" where
  "join sep [] = []"
| "join sep [x] = x"
| "join sep (x # y # ys) = x @ sep @ join sep (y # ys)"

definition trim_prefix :: "string \<Rightarrow> string \<Rightarrow> string" where
  "trim_prefix s p = (if has_prefix s p then drop (length p) s else s)"

definition trim_suffix :: "string \<Rightarrow> string \<Rightarrow> string" where
  "trim_suffix s p = (if has_prefix (rev s) (rev p) then take (length s - length p) s else s)"

text \<open>\<open>strings.Fields\<close>\<close>

function str_fields :: "string \<Rightarrow> string list" where
  "str_fields s = (let t = dropWhile is_space s in
     if t = [] then [] else takeWhile (\<lambda>x. \<not> is_space x) t # str_fields (dropWhile (\<lambda>x. \<not> is_space x) t))"
  by pat_completeness auto
termination
proof (relation "measure length")
  fix s t :: string
  assume "t = dropWhile is_space s" and "t \<noteq> []"
  then obtain y ys where t: "t = y # ys" "\<not> is_space y" 
    by (metis hd_dropWhile list.exhaust list.sel(1) dropWhile_eq_Nil_conv)
  have "length t \<le> length s" unfolding \<open>t = dropWhile is_space s\<close> by (rule length_dropWhile_le)
  moreover have "length (dropWhile (\<lambda>x. \<not> is_space x) t) < length t"
    using t length_dropWhile_le [of "\<lambda>x. \<not> is_space x" ys] by simp
  ultimately show "(dropWhile (\<lambda>x. \<not> is_space x) t, s) \<in> measure length" by simp
qed simp

declare str_fields.simps [simp del]

text \<open>\<open>strings.Index\<close>: the position of the first occurrence.\<close>

fun str_index :: "string \<Rightarrow> string \<Rightarrow> nat option" where
  "str_index [] p = (if p = [] then Some 0 else None)"
| "str_index (x # s) p = (if has_prefix (x # s) p then Some 0 else map_option Suc (str_index s p))"

text \<open>\<open>strconv.Atoi\<close> on a string of decimal digits, without its error: a value out of range gives the
  largest 64-bit integer.\<close>

definition digits_value :: "string \<Rightarrow> int" where
  "digits_value s = fold (\<lambda>x v. 10 * v + int (of_char x - (48 :: nat))) s 0"

definition atoi_digits :: "string \<Rightarrow> int" where
  "atoi_digits s = (if digits_value s < 2 ^ 63 then digits_value s else 2 ^ 63 - 1)"

section \<open>What is matched\<close>

lemma runs_suffix: "t \<in> set (runs p s) \<Longrightarrow> \<exists>u. s = u @ t \<and> (\<forall>x \<in> set u. p x)"
proof (induction s)
  case (Cons x xs)
  show ?case
  proof (cases "t = x # xs")
    case False
    with Cons.prems have "p x" "t \<in> set (runs p xs)" by (auto split: if_splits)
    with Cons.IH obtain u where "xs = u @ t" "\<forall>x \<in> set u. p x" by blast
    with \<open>p x\<close> have "x # xs = (x # u) @ t \<and> (\<forall>y \<in> set (x # u). p y)" by simp
    then show ?thesis by blast
  qed simp
qed simp

text \<open>A match consumes a prefix of the input.\<close>

lemma rx_match_suffix: "(t, c') \<in> set (rx_match r s c) \<Longrightarrow> \<exists>u. s = u @ t"
proof (induction r arbitrary: s c t c')
  case (Seq a b)
  then obtain s1 c1 where "(s1, c1) \<in> set (rx_match a s c)" "(t, c') \<in> set (rx_match b s1 c1)" by auto
  with Seq.IH obtain u v where "s = u @ s1" "s1 = v @ t" by blast
  then show ?case by auto
next
  case (StarC p)
  then show ?case using runs_suffix by fastforce
next
  case (PlusC p)
  show ?case
  proof (cases s)
    case (Cons x xs)
    with PlusC have "t \<in> set (runs p xs)" by (auto split: if_splits)
    then show ?thesis using runs_suffix [of t p xs] Cons by (metis append_Cons)
  qed (use PlusC in simp)
next
  case (Opt a)
  then show ?case by (metis Un_iff append_Nil empty_iff fst_conv insert_iff list.set(1) list.set(2) rx_match.simps(6) set_append)
qed (auto split: list.splits if_splits)

lemma rx_find_split: "rx_find r s = Some (pre, m, t, c) \<Longrightarrow> s = pre @ m @ t"
proof (induction s arbitrary: pre)
  case Nil
  then show ?case
    using rx_match_suffix [of _ _ r "[]" "[]"] by (auto simp: rx_find.simps [of r "[]"] split: list.splits)
next
  case (Cons x xs)
  show ?case
  proof (cases "rx_match r (x # xs) []")
    case Nil
    with Cons show ?thesis by (auto simp: rx_find.simps [of r "x # xs"])
  next
    case (Cons y ys)
    obtain t' c' where y: "y = (t', c')" by (cases y)
    have p: "pre = []" "m = take (length (x # xs) - length t') (x # xs)" "t = t'"
      using Cons.prems Cons y by (auto simp: rx_find.simps [of r "x # xs"])
    obtain u where "x # xs = u @ t'" using rx_match_suffix [of t' c' r "x # xs" "[]"] Cons y by auto
    then have "m = u" using p by simp
    then show ?thesis using p \<open>x # xs = u @ t'\<close> by simp
  qed
qed

section \<open>Which expressions match\<close>

text \<open>The suffixes a match can leave, without priorities and groups.\<close>

definition rests :: "rx \<Rightarrow> string \<Rightarrow> string set" where
  "rests r s = fst ` set (rx_match r s [])"

lemma rests_any: "fst ` set (rx_match r s c) = rests r s"
  unfolding rests_def
proof (induction r arbitrary: s c)
  case (Seq a b)
  have e: "fst ` set (rx_match (Seq a b) s c) = (\<Union>t \<in> fst ` set (rx_match a s c). fst ` set (rx_match b t []))" for c
  proof -
    have "fst ` set (rx_match (Seq a b) s c) = (\<Union>x \<in> set (rx_match a s c). fst ` set (rx_match b (fst x) (snd x)))"
      by (simp add: case_prod_unfold image_UN)
    also have "\<dots> = (\<Union>x \<in> set (rx_match a s c). fst ` set (rx_match b (fst x) []))"
      by (rule SUP_cong [OF refl]) (rule Seq.IH(2))
    finally show ?thesis by simp
  qed
  show ?case unfolding e Seq.IH(1) [of s c] ..
next
  case (Opt a)
  from Opt [of s c] show ?case by simp
next
  case (Grp n a)
  from Grp [of s c] show ?case by (simp add: image_image case_prod_unfold)
next
  case (Cls p)
  show ?case by (cases s; cases "p (hd s)") simp_all
next
  case (PlusC p)
  show ?case by (cases s; cases "p (hd s)") (simp_all add: image_image)
qed (simp_all add: image_image)

lemma rests_Seq [simp]: "rests (Seq a b) s = (\<Union>t \<in> rests a s. rests b t)"
proof -
  have "rests (Seq a b) s = (\<Union>x \<in> set (rx_match a s []). rests b (fst x))"
    unfolding rests_def [of "Seq a b"] by (simp add: case_prod_unfold image_UN rests_any)
  then show ?thesis unfolding rests_def [of a] by simp
qed

lemma rests_Opt [simp]: "rests (Opt a) s = insert s (rests a s)"
  by (simp add: rests_def)

lemma rests_Grp [simp]: "rests (Grp n a) s = rests a s"
  by (simp add: rests_def image_image case_prod_unfold)

lemma rests_Eps [simp]: "rests Eps s = {s}"
  by (simp add: rests_def)

lemma rx_match_Nil_iff: "rx_match r s [] = [] \<longleftrightarrow> rests r s = {}"
  by (simp add: rests_def)

lemma rx_find_None_iff: "rx_find r s = None \<longleftrightarrow> (\<forall>u v. s = u @ v \<longrightarrow> rests r v = {})"
proof (induction s)
  case Nil
  then show ?case by (simp add: rx_find.simps [of r "[]"] rx_match_Nil_iff [symmetric] split: list.splits prod.splits)
next
  case (Cons x xs)
  have "rx_find r (x # xs) = None \<longleftrightarrow> rests r (x # xs) = {} \<and> rx_find r xs = None"
    by (simp add: rx_find.simps [of r "x # xs"] rx_match_Nil_iff [symmetric] split: list.splits prod.splits)
  also have "\<dots> \<longleftrightarrow> (\<forall>u v. x # xs = u @ v \<longrightarrow> rests r v = {})"
    unfolding Cons.IH by (auto simp: Cons_eq_append_conv)
  finally show ?case .
qed

text \<open>An expression that matches wherever another one does finds a match wherever the other does.\<close>

lemma rx_find_mono:
  assumes "\<And>v. rests a v \<noteq> {} \<Longrightarrow> rests b v \<noteq> {}" and "rx_find b s = None"
  shows "rx_find a s = None"
  using assms unfolding rx_find_None_iff by blast

text \<open>An expression that begins with a literal consumes at least one character.\<close>

lemma rests_length: "t \<in> rests r s \<Longrightarrow> length t \<le> length s"
  unfolding rests_def using rx_match_suffix by fastforce

lemma rests_Cls [simp]: "rests (Cls p) s = (case s of [] \<Rightarrow> {} | x # xs \<Rightarrow> if p x then {xs} else {})"
  by (cases s) (simp_all add: rests_def)

lemma lit_progress: "t \<in> rests (lit (x # xs)) s \<Longrightarrow> length t < length s"
  by (cases s) (auto simp: lit_def dest: rests_length split: if_splits)

lemma rx_find_rests: "rx_find r s = Some (pre, m, t, c) \<Longrightarrow> \<exists>v. s = pre @ v \<and> t \<in> rests r v"
proof (induction s arbitrary: pre)
  case Nil
  then show ?case by (force simp: rx_find.simps [of r "[]"] rests_def split: list.splits)
next
  case (Cons x xs)
  show ?case
  proof (cases "rx_match r (x # xs) []")
    case Nil
    then obtain q where "rx_find r xs = Some (q, m, t, c)" "pre = x # q"
      using Cons.prems by (auto simp: rx_find.simps [of r "x # xs"])
    with Cons.IH show ?thesis by fastforce
  next
    case (Cons y ys)
    then have "pre = []" "(t, c) \<in> set (rx_match r (x # xs) [])"
      using Cons.prems by (auto simp: rx_find.simps [of r "x # xs"] split: prod.splits)
    then show ?thesis by (force simp: rests_def)
  qed
qed

lemma rx_find_progress:
  "rx_find (seqs (lit (x # xs) # rs)) s = Some (pre, m, t, c) \<Longrightarrow> length t < length s"
proof -
  assume "rx_find (seqs (lit (x # xs) # rs)) s = Some (pre, m, t, c)"
  then obtain v where "s = pre @ v" "t \<in> rests (seqs (lit (x # xs) # rs)) v" using rx_find_rests by blast
  moreover from this(2) obtain u where "u \<in> rests (lit (x # xs)) v" "t \<in> rests (seqs rs) u"
    by (auto simp: seqs_def)
  ultimately show ?thesis using lit_progress [of u x xs v] rests_length [of t "seqs rs" u] by simp
qed

end
