(* ===== verification/Crash_Signature.thy ===== *)
theory Crash_Signature
  imports Go_Regexp Go_Float "HOL-Library.Word"
begin

text \<open>
  Crashes and their signatures, \<open>pkg/domain/crash/types\<close> (\<open>signature.go\<close> and \<open>crash.go\<close>).

  \<open>sha\<close> is \<open>hex.EncodeToString\<close> of \<open>sha256.Sum256\<close> on a string, \<open>shab\<close> the same on a byte slice.
  Severities and crash types are strings, as in the source, so that an undeclared value can be passed to
  \<open>UpdateSeverity\<close>. The rendering \<open>Crash.String\<close> is not modelled.
\<close>

section \<open>Stack traces\<close>

record CrashSignature =
  sig_Hash :: string
  sig_TopFrames :: "string list"
  sig_FunctionNames :: "string list"
  sig_LibraryNames :: "string list"
  sig_SignatureType :: string
  sig_Confidence :: f64

record Frame =
  fr_Address :: string
  fr_Function :: string
  fr_Library :: string
  fr_SourceFile :: string
  fr_LineNumber :: int
  fr_IsSymbolized :: bool

abbreviation not_char :: "char \<Rightarrow> char \<Rightarrow> bool" where
  "not_char a x \<equiv> x \<noteq> a"

definition genericFramePattern :: rx where
  "genericFramePattern = seqs [lit ''#'', PlusC is_digit, PlusC rx_space,
     Opt (seqs [lit ''0x'', PlusC is_hex, PlusC rx_space]),
     Opt (seqs [lit ''in'', PlusC rx_space]),
     Grp 1 (PlusC non_space),
     Opt (seqs [PlusC rx_space, lit ''at'', PlusC rx_space, Grp 2 (PlusC (not_char (CHR '':''))), lit '':'', Grp 3 (PlusC is_digit)])]"

definition addressPattern :: rx where
  "addressPattern = seqs [lit ''0x'', PlusC is_hex]"

definition templatePattern :: rx where
  "templatePattern = seqs [lit ''<'', PlusC (not_char (CHR ''>'')), lit ''>'']"

definition paramPattern :: rx where
  "paramPattern = seqs [lit ''('', StarC (not_char (CHR '')'')), lit '')'']"

definition cleanFunctionName :: "string \<Rightarrow> string" where
  "cleanFunctionName name =
     trim_suffix (trim_prefix (rx_delete_all paramPattern (rx_delete_all templatePattern name)) ''_'') ''_''"

definition is_library_part :: "string \<Rightarrow> bool" where
  "is_library_part part \<longleftrightarrow> str_contains part ''.so'' \<or> str_contains part ''.dll'' \<or> str_contains part ''.dylib''"

text \<open>The line number is always 0: the source leaves the conversion out.\<close>

definition parseFrame :: "string \<Rightarrow> Frame option" where
  "parseFrame line = (case rx_find genericFramePattern line of
       None \<Rightarrow> None
     | Some (_, _, _, matches) \<Rightarrow>
         let fn = capture matches 1; src = capture matches 2;
             f0 = \<lparr>fr_Address = '''', fr_Function = '''', fr_Library = '''', fr_SourceFile = '''', fr_LineNumber = 0, fr_IsSymbolized = True\<rparr>;
             f1 = (if fn \<noteq> '''' then
                     let f = cleanFunctionName fn
                     in f0\<lparr>fr_Function := f, fr_IsSymbolized := \<not> (str_contains f ''0x'' \<or> f = ''???'')\<rparr>
                   else f0);
             f2 = (if src \<noteq> '''' then
                     f1\<lparr>fr_SourceFile := src,
                        fr_Library := (case List.find is_library_part (split_on (CHR ''/'') src) of Some part \<Rightarrow> part | None \<Rightarrow> '''')\<rparr>
                   else f1);
             addr = rx_FindString addressPattern line
         in Some (if addr \<noteq> '''' then f2\<lparr>fr_Address := addr\<rparr> else f2))"

definition crash_parseStackTrace :: "string \<Rightarrow> Frame list" where
  "crash_parseStackTrace stackTrace =
     List.map_filter parseFrame (filter (\<lambda>l. l \<noteq> '''') (map trim_space (split_on (CHR 0x0A) stackTrace)))"

section \<open>Signatures\<close>

definition systemFunctions :: "string list" where
  "systemFunctions = [''malloc'', ''free'', ''calloc'', ''realloc'', ''memcpy'', ''memset'', ''memmove'',
     ''__libc_start_main'', ''_start'', ''raise'', ''abort'', ''__assert_fail'', ''pthread_'', ''dl_'', ''__cxa_'']"

definition isSystemFunction :: "string \<Rightarrow> bool" where
  "isSystemFunction fn = list_ex (has_prefix (to_lower fn)) systemFunctions"

text \<open>\<open>acc\<close> is \<open>topFrames\<close>. The loop tests its length after each append.\<close>

fun top_loop :: "int \<Rightarrow> Frame list \<Rightarrow> string list \<Rightarrow> string list" where
  "top_loop n [] acc = acc"
| "top_loop n (f # fs) acc =
     (if \<not> fr_IsSymbolized f \<or> fr_Function f = '''' then top_loop n fs acc
      else if isSystemFunction (fr_Function f) then top_loop n fs acc
      else let acc' = acc @ [fr_Function f] in if int (length acc') \<ge> n then acc' else top_loop n fs acc')"

definition extractTopFrames :: "Frame list \<Rightarrow> int \<Rightarrow> string list" where
  "extractTopFrames frames n = top_loop n frames []"

text \<open>The map \<open>seen\<close> holds exactly the names collected so far.\<close>

definition extractFunctionNames :: "Frame list \<Rightarrow> string list" where
  "extractFunctionNames frames =
     fold (\<lambda>f acc. if fr_Function f \<noteq> '''' \<and> fr_Function f \<notin> set acc \<and> \<not> isSystemFunction (fr_Function f)
                   then acc @ [fr_Function f] else acc) frames []"

definition extractLibraryNames :: "Frame list \<Rightarrow> string list" where
  "extractLibraryNames frames =
     fold (\<lambda>f acc. if fr_Library f \<noteq> '''' \<and> fr_Library f \<notin> set acc then acc @ [fr_Library f] else acc) frames []"

definition count_frames :: "(Frame \<Rightarrow> bool) \<Rightarrow> Frame list \<Rightarrow> int" where
  "count_frames p frames = int (length (filter p frames))"

definition frame_ratio :: "int \<Rightarrow> Frame list \<Rightarrow> f64" where
  "frame_ratio k frames = fdiv (f_of_int k) (f_of_int (int (length frames)))"

definition determineSignatureType :: "Frame list \<Rightarrow> string" where
  "determineSignatureType frames =
     (let symbolizationRatio = frame_ratio (count_frames fr_IsSymbolized frames) frames
      in if flt (f_const (8 / 10)) symbolizationRatio then ''fully_symbolized''
         else if flt (f_const (3 / 10)) symbolizationRatio then ''partially_symbolized''
         else ''address_based'')"

definition calculateConfidence :: "Frame list \<Rightarrow> f64" where
  "calculateConfidence frames =
     (if frames = [] then Fin 0
      else let symbolizationScore = frame_ratio (count_frames fr_IsSymbolized frames) frames;
               sourceInfoScore = frame_ratio (count_frames (\<lambda>f. fr_SourceFile f \<noteq> '''') frames) frames;
               uniqueFunctions = set (filter (\<lambda>g. g \<noteq> '''' \<and> \<not> isSystemFunction g) (map fr_Function frames));
               uniquenessScore = frame_ratio (int (card uniqueFunctions)) frames;
               confidence = fadd (fadd (fmul symbolizationScore (f_const (5 / 10))) (fmul sourceInfoScore (f_const (3 / 10))))
                 (fmul uniquenessScore (f_const (2 / 10)))
           in if flt (Fin 1) confidence then Fin 1 else confidence)"

definition generateSignatureHash :: "(string \<Rightarrow> string) \<Rightarrow> CrashSignature \<Rightarrow> string" where
  "generateSignatureHash sha s = sha (join ''|'' (sig_TopFrames s @ sig_LibraryNames s))"

definition NewCrashSignature :: "(string \<Rightarrow> string) \<Rightarrow> string \<Rightarrow> CrashSignature result" where
  "NewCrashSignature sha stackTrace =
     (if stackTrace = '''' then Inl (ErrorString ''stack trace cannot be empty'')
      else let frames = crash_parseStackTrace stackTrace
           in if frames = [] then Inl (ErrorString ''no valid frames found in stack trace'')
              else let s = \<lparr>sig_Hash = '''', sig_TopFrames = extractTopFrames frames 5, sig_FunctionNames = extractFunctionNames frames,
                     sig_LibraryNames = extractLibraryNames frames, sig_SignatureType = determineSignatureType frames,
                     sig_Confidence = calculateConfidence frames\<rparr>
                   in Inr (s\<lparr>sig_Hash := generateSignatureHash sha s\<rparr>))"

definition sig_Equals :: "CrashSignature \<Rightarrow> CrashSignature option \<Rightarrow> bool" where
  "sig_Equals s other = (case other of None \<Rightarrow> False | Some t \<Rightarrow> sig_Hash s = sig_Hash t)"

definition IsSimilar :: "CrashSignature \<Rightarrow> CrashSignature option \<Rightarrow> f64 \<Rightarrow> bool" where
  "IsSimilar s other threshold = (case other of
       None \<Rightarrow> False
     | Some t \<Rightarrow>
         if sig_Equals s other then True
         else let commonFunctions = int (length (filter (\<lambda>f1. f1 \<in> set (sig_FunctionNames t)) (sig_FunctionNames s)));
                  totalFunctions = int (length (sig_FunctionNames s)) + int (length (sig_FunctionNames t)) - commonFunctions
              in if totalFunctions = 0 then False
                 else fle threshold (fdiv (f_of_int commonFunctions) (f_of_int totalFunctions)))"

text \<open>The slice of the hash panics when the hash has fewer than 16 characters.\<close>

definition sig_String :: "CrashSignature \<Rightarrow> string go" where
  "sig_String s =
     (if sig_TopFrames s \<noteq> [] then Ret (join '' -> '' (take (min 3 (length (sig_TopFrames s))) (sig_TopFrames s)))
      else if length (sig_Hash s) < 16 then Panic
      else Ret (take 16 (sig_Hash s) @ ''...''))"

section \<open>Crashes\<close>

type_synonym Severity = string
type_synonym CrashType = string

definition severities :: "Severity list" where
  "severities = [''critical'', ''high'', ''medium'', ''low'', ''unknown'']"

definition crashTypes :: "CrashType list" where
  "crashTypes = [''segmentation_fault'', ''heap_overflow'', ''stack_overflow'', ''assertion'', ''timeout'', ''memory_leak'',
     ''unhandled_exception'', ''other'']"

record TargetInfo =
  ti_Name :: string
  ti_Version :: string
  ti_Command :: string
  ti_Environment :: string

record Crash =
  cr_ID :: string
  cr_Signature :: "CrashSignature option"
  cr_Input :: "8 word list"
  cr_InputHash :: string
  cr_StackTrace :: string
  cr_Severity :: Severity
  cr_Type :: CrashType
  cr_DiscoveredAt :: time
  cr_LastSeenAt :: time
  cr_OccurrenceCount :: "64 word"
  cr_CorpusEntryID :: string
  cr_TargetInfo :: TargetInfo
  cr_Metadata :: "(string \<rightharpoonup> string) option"
  cr_Reproducible :: bool
  cr_Fixed :: bool
  cr_FixedAt :: "time option"
  cr_Tags :: "string list"

definition generateCrashID :: "(string \<Rightarrow> string) \<Rightarrow> string \<Rightarrow> string \<Rightarrow> string" where
  "generateCrashID sha inputHash stackTrace = take 16 (sha (inputHash @ stackTrace))"

definition determineCrashType :: "string \<Rightarrow> CrashType" where
  "determineCrashType stackTrace =
     (let t = to_lower stackTrace
      in if str_contains t ''segmentation fault'' \<or> str_contains t ''sigsegv'' then ''segmentation_fault''
         else if str_contains t ''heap overflow'' \<or> str_contains t ''heap-buffer-overflow'' then ''heap_overflow''
         else if str_contains t ''stack overflow'' \<or> str_contains t ''stack-buffer-overflow'' then ''stack_overflow''
         else if str_contains t ''assertion'' \<or> str_contains t ''assert'' then ''assertion''
         else if str_contains t ''timeout'' then ''timeout''
         else if str_contains t ''memory leak'' \<or> str_contains t ''leak'' then ''memory_leak''
         else if str_contains t ''exception'' then ''unhandled_exception''
         else ''other'')"

definition determineSeverity :: "CrashType \<Rightarrow> string \<Rightarrow> Severity" where
  "determineSeverity ty stackTrace =
     (if str_contains (to_lower stackTrace) ''arbitrary code execution'' \<or> str_contains (to_lower stackTrace) ''remote code execution''
      then ''critical''
      else if ty = ''heap_overflow'' \<or> ty = ''stack_overflow'' then ''high''
      else if ty = ''segmentation_fault'' then ''medium''
      else if ty = ''assertion'' \<or> ty = ''unhandled_exception'' then ''medium''
      else if ty = ''timeout'' then ''low''
      else if ty = ''memory_leak'' then ''low''
      else ''unknown'')"

definition NewCrash ::
    "(8 word list \<Rightarrow> string) \<Rightarrow> (string \<Rightarrow> string) \<Rightarrow> time \<Rightarrow> 8 word list \<Rightarrow> string \<Rightarrow> TargetInfo \<Rightarrow> Crash result" where
  "NewCrash shab sha now input stackTrace targetInfo =
     (if input = [] then Inl (ErrorString ''crash input cannot be empty'')
      else if stackTrace = '''' then Inl (ErrorString ''stack trace cannot be empty'')
      else if ti_Name targetInfo = '''' then Inl (ErrorString ''target name cannot be empty'')
      else case NewCrashSignature sha stackTrace of
        Inl e \<Rightarrow> Inl (WrapError ''failed to create crash signature: '' e)
      | Inr s \<Rightarrow>
          let ty = determineCrashType stackTrace
          in Inr \<lparr>cr_ID = generateCrashID sha (shab input) stackTrace, cr_Signature = Some s, cr_Input = input, cr_InputHash = shab input,
               cr_StackTrace = stackTrace, cr_Severity = determineSeverity ty stackTrace, cr_Type = ty, cr_DiscoveredAt = now,
               cr_LastSeenAt = now, cr_OccurrenceCount = 1, cr_CorpusEntryID = '''', cr_TargetInfo = targetInfo,
               cr_Metadata = Some Map.empty, cr_Reproducible = True, cr_Fixed = False, cr_FixedAt = None, cr_Tags = []\<rparr>)"

definition RecordOccurrence :: "time \<Rightarrow> Crash \<Rightarrow> Crash" where
  "RecordOccurrence now c = c\<lparr>cr_OccurrenceCount := cr_OccurrenceCount c + 1, cr_LastSeenAt := now\<rparr>"

definition MarkAsFixed :: "time \<Rightarrow> Crash \<Rightarrow> Crash" where
  "MarkAsFixed now c = c\<lparr>cr_Fixed := True, cr_FixedAt := Some now\<rparr>"

definition MarkAsNotReproducible :: "Crash \<Rightarrow> Crash" where
  "MarkAsNotReproducible c = c\<lparr>cr_Reproducible := False\<rparr>"

definition isValidSeverity :: "Severity \<Rightarrow> bool" where
  "isValidSeverity s \<longleftrightarrow> s \<in> set severities"

definition isValidCrashType :: "CrashType \<Rightarrow> bool" where
  "isValidCrashType t \<longleftrightarrow> t \<in> set crashTypes"

definition UpdateSeverity :: "Severity \<Rightarrow> Crash \<Rightarrow> Crash result" where
  "UpdateSeverity s c = (if \<not> isValidSeverity s then Inl (ErrorString ''invalid severity level'') else Inr (c\<lparr>cr_Severity := s\<rparr>))"

definition Crash_AddTag :: "string \<Rightarrow> Crash \<Rightarrow> Crash" where
  "Crash_AddTag tag c = (if tag \<in> set (cr_Tags c) then c else c\<lparr>cr_Tags := cr_Tags c @ [tag]\<rparr>)"

definition Crash_RemoveTag :: "string \<Rightarrow> Crash \<Rightarrow> Crash" where
  "Crash_RemoveTag tag c = c\<lparr>cr_Tags := remove1 tag (cr_Tags c)\<rparr>"

definition Crash_SetMetadata :: "string \<Rightarrow> string \<Rightarrow> Crash \<Rightarrow> Crash" where
  "Crash_SetMetadata key v c = c\<lparr>cr_Metadata := map_put (cr_Metadata c) key v\<rparr>"

definition Crash_GetMetadata :: "string \<Rightarrow> Crash \<Rightarrow> string option" where
  "Crash_GetMetadata key c = map_get (cr_Metadata c) key"

definition Crash_Age :: "time \<Rightarrow> Crash \<Rightarrow> duration" where
  "Crash_Age now c = time_Sub now (cr_DiscoveredAt c)"

definition IsRecent :: "time \<Rightarrow> duration \<Rightarrow> Crash \<Rightarrow> bool" where
  "IsRecent now d c \<longleftrightarrow> time_Sub now (cr_LastSeenAt c) \<le> d"

definition IsDuplicate :: "Crash \<Rightarrow> Crash option \<Rightarrow> bool" where
  "IsDuplicate c other = (case other of
       None \<Rightarrow> False
     | Some d \<Rightarrow> (case (cr_Signature c, cr_Signature d) of
         (Some s, Some t) \<Rightarrow> sig_Hash s = sig_Hash t
       | _ \<Rightarrow> cr_InputHash c = cr_InputHash d))"

definition Crash_Validate :: "Crash \<Rightarrow> error option" where
  "Crash_Validate c =
     (if cr_ID c = '''' then Some (ErrorString ''crash ID cannot be empty'')
      else if cr_Input c = [] then Some (ErrorString ''crash input cannot be empty'')
      else if cr_StackTrace c = '''' then Some (ErrorString ''stack trace cannot be empty'')
      else if cr_Signature c = None then Some (ErrorString ''crash signature cannot be nil'')
      else if \<not> isValidSeverity (cr_Severity c) then Some (ErrorString ''invalid severity level'')
      else if \<not> isValidCrashType (cr_Type c) then Some (ErrorString ''invalid crash type'')
      else if ti_Name (cr_TargetInfo c) = '''' then Some (ErrorString ''target name cannot be empty'')
      else None)"

section \<open>The parts of a signature\<close>

lemma top_loop_bound: "int (length acc) < n \<Longrightarrow> int (length (top_loop n fs acc)) \<le> n"
  by (induction fs arbitrary: acc) (auto simp: Let_def)

lemma top_loop_set:
  "set (top_loop n fs acc) \<subseteq> set acc \<union> {g. g \<noteq> '''' \<and> \<not> isSystemFunction g \<and> (\<exists>f \<in> set fs. fr_IsSymbolized f \<and> fr_Function f = g)}"
proof (induction fs arbitrary: acc)
  case (Cons f fs)
  show ?case
  proof (cases "\<not> fr_IsSymbolized f \<or> fr_Function f = '''' \<or> isSystemFunction (fr_Function f)")
    case True
    then have "top_loop n (f # fs) acc = top_loop n fs acc" by auto
    with Cons show ?thesis by fastforce
  next
    case False
    then have "set (top_loop n (f # fs) acc) \<subseteq> insert (fr_Function f) (set acc \<union> set (top_loop n fs (acc @ [fr_Function f])))"
      by (auto simp: Let_def)
    also have "\<dots> \<subseteq> set acc \<union> {g. g \<noteq> '''' \<and> \<not> isSystemFunction g \<and> (\<exists>f \<in> set (f # fs). fr_IsSymbolized f \<and> fr_Function f = g)}"
      using False Cons [of "acc @ [fr_Function f]"] by auto
    finally show ?thesis .
  qed
qed simp

text \<open>The loops that collect names without repetition.\<close>

lemma collect_distinct:
  "distinct acc \<Longrightarrow> distinct (fold (\<lambda>f acc. if Q f \<and> g f \<notin> set acc then acc @ [g f] else acc) fs acc)"
  by (induction fs arbitrary: acc) simp_all

lemma collect_set:
  "set (fold (\<lambda>f acc. if Q f \<and> g f \<notin> set acc then acc @ [g f] else acc) fs acc) = set acc \<union> g ` {f \<in> set fs. Q f}"
proof (induction fs arbitrary: acc)
  case (Cons f fs)
  show ?case by (simp only: fold_Cons comp_apply Cons) auto
qed simp

lemma extractFunctionNames_eq:
  "extractFunctionNames frames =
     fold (\<lambda>f acc. if (fr_Function f \<noteq> '''' \<and> \<not> isSystemFunction (fr_Function f)) \<and> fr_Function f \<notin> set acc
                   then acc @ [fr_Function f] else acc) frames []"
  unfolding extractFunctionNames_def by (intro arg_cong [of _ _ "\<lambda>h. fold h frames []"] ext) auto

lemma extractFunctionNames_distinct: "distinct (extractFunctionNames frames)"
  unfolding extractFunctionNames_eq by (rule collect_distinct) simp

lemma extractFunctionNames_set:
  "set (extractFunctionNames frames) = fr_Function ` {f \<in> set frames. fr_Function f \<noteq> '''' \<and> \<not> isSystemFunction (fr_Function f)}"
  unfolding extractFunctionNames_eq by (simp only: collect_set) simp

lemma extractLibraryNames_distinct: "distinct (extractLibraryNames frames)"
  unfolding extractLibraryNames_def by (rule collect_distinct) simp

lemma extractLibraryNames_set: "set (extractLibraryNames frames) = fr_Library ` {f \<in> set frames. fr_Library f \<noteq> ''''}"
  unfolding extractLibraryNames_def by (simp add: collect_set)

definition f_nonneg :: "f64 \<Rightarrow> bool" where
  "f_nonneg x = (case x of Fin q \<Rightarrow> 0 \<le> q | _ \<Rightarrow> False)"

lemma f_nonneg_fadd: "f_nonneg x \<Longrightarrow> f_nonneg y \<Longrightarrow> f_nonneg (fadd x y)"
  and f_nonneg_fmul: "f_nonneg x \<Longrightarrow> f_nonneg y \<Longrightarrow> f_nonneg (fmul x y)"
  by (cases x; cases y; simp add: f_nonneg_def)+

lemma f_nonneg_const: "0 \<le> q \<Longrightarrow> f_nonneg (f_const q)"
  by (simp add: f_nonneg_def f_const_def)

lemma f_nonneg_cap: "f_nonneg x \<Longrightarrow> f_unit (if flt (Fin 1) x then Fin 1 else x)"
  by (cases x) (auto simp: f_nonneg_def)

lemma frame_ratio_nonneg: "0 \<le> k \<Longrightarrow> frames \<noteq> [] \<Longrightarrow> f_nonneg (frame_ratio k frames)"
proof -
  assume "0 \<le> k" "frames \<noteq> []"
  then have "0 < rd (of_nat (length frames))" by (simp add: rd_pos_iff)
  then show ?thesis using \<open>0 \<le> k\<close> by (simp add: frame_ratio_def f_of_int_def f_nonneg_def)
qed

lemma calculateConfidence_unit: "f_unit (calculateConfidence frames)"
proof (cases "frames = []")
  case False
  then have r: "f_nonneg (frame_ratio k frames)" if "0 \<le> k" for k using that by (rule frame_ratio_nonneg [rotated])
  show ?thesis unfolding calculateConfidence_def Let_def
    using False by (simp only: if_False) (intro f_nonneg_cap f_nonneg_fadd f_nonneg_fmul r f_nonneg_const; simp add: count_frames_def)
qed (simp add: calculateConfidence_def)

lemma NewCrashSignature_cases:
  assumes "NewCrashSignature sha t = Inr s"
  obtains frames where "frames = crash_parseStackTrace t" "frames \<noteq> []" "sig_TopFrames s = extractTopFrames frames 5"
    "sig_FunctionNames s = extractFunctionNames frames" "sig_LibraryNames s = extractLibraryNames frames"
    "sig_SignatureType s = determineSignatureType frames" "sig_Confidence s = calculateConfidence frames"
    "sig_Hash s = sha (join ''|'' (sig_TopFrames s @ sig_LibraryNames s))"
  using assms by (auto simp: NewCrashSignature_def generateSignatureHash_def Let_def split: if_splits)

text \<open>C17: a signature has at most five top frames; they are among the function names, which are distinct, not
  empty and no system functions; the library names are distinct and not empty, the confidence is a number
  between 0 and 1, and the hash is that of the top frames and the libraries.\<close>

theorem signature_wf:
  assumes "NewCrashSignature sha t = Inr s"
  shows "length (sig_TopFrames s) \<le> 5 \<and> set (sig_TopFrames s) \<subseteq> set (sig_FunctionNames s) \<and>
    distinct (sig_FunctionNames s) \<and> (\<forall>f \<in> set (sig_FunctionNames s). f \<noteq> '''' \<and> \<not> isSystemFunction f) \<and>
    distinct (sig_LibraryNames s) \<and> '''' \<notin> set (sig_LibraryNames s) \<and> f_unit (sig_Confidence s) \<and>
    sig_Hash s = sha (join ''|'' (sig_TopFrames s @ sig_LibraryNames s))"
proof -
  obtain frames where fr: "sig_TopFrames s = extractTopFrames frames 5" "sig_FunctionNames s = extractFunctionNames frames"
    "sig_LibraryNames s = extractLibraryNames frames" "sig_Confidence s = calculateConfidence frames"
    "sig_Hash s = sha (join ''|'' (sig_TopFrames s @ sig_LibraryNames s))"
    using assms by (rule NewCrashSignature_cases)
  have "length (sig_TopFrames s) \<le> 5"
    using top_loop_bound [of "[]" 5 frames] by (simp add: fr(1) extractTopFrames_def)
  moreover have "set (sig_TopFrames s) \<subseteq> set (sig_FunctionNames s)"
    using top_loop_set [of 5 frames "[]"] by (auto simp: fr(1,2) extractTopFrames_def extractFunctionNames_set)
  ultimately show ?thesis
    using extractFunctionNames_distinct extractLibraryNames_distinct calculateConfidence_unit fr
    by (auto simp: extractFunctionNames_set extractLibraryNames_set)
qed

definition sample_trace :: "char \<Rightarrow> string" where
  "sample_trace x = ''#0 0x41 in f'' @ [x] @ '' at a.c:1''"

lemma NewCrashSignature_ok: "t \<noteq> '''' \<Longrightarrow> crash_parseStackTrace t \<noteq> [] \<Longrightarrow> \<exists>s. NewCrashSignature sha t = Inr s"
  by (simp add: NewCrashSignature_def Let_def)

lemma sample_trace_sig: "\<exists>s. NewCrashSignature id (sample_trace (CHR ''x'')) = Inr s"
proof -
  have "crash_parseStackTrace (sample_trace (CHR ''x'')) \<noteq> []" by code_simp
  then show ?thesis by (intro NewCrashSignature_ok) (simp_all add: sample_trace_def)
qed

theorem signature_wf_witness:
  "\<exists>s. NewCrashSignature id (sample_trace (CHR ''x'')) = Inr s \<and> length (sig_TopFrames s) \<le> 5 \<and> f_unit (sig_Confidence s)"
  using sample_trace_sig signature_wf [of id "sample_trace (CHR ''x'')"] by metis

section \<open>Similarity\<close>

text \<open>The counts of the nested loops are the sizes of the intersection and of the union.\<close>

lemma jaccard_counts:
  assumes "distinct xs" and "distinct ys"
  shows "int (length (filter (\<lambda>x. x \<in> set ys) xs)) = int (card (set xs \<inter> set ys))"
    and "int (length xs) + int (length ys) - int (length (filter (\<lambda>x. x \<in> set ys) xs)) = int (card (set xs \<union> set ys))"
proof -
  have f: "length (filter (\<lambda>x. x \<in> set ys) xs) = card (set xs \<inter> set ys)"
    using distinct_card [OF distinct_filter [OF assms(1)], of "\<lambda>x. x \<in> set ys"] by (simp add: Int_def conj_commute)
  show "int (length (filter (\<lambda>x. x \<in> set ys) xs)) = int (card (set xs \<inter> set ys))" by (simp add: f)
  have "card (set xs) + card (set ys) = card (set xs \<union> set ys) + card (set xs \<inter> set ys)"
    by (rule card_Un_Int) simp_all
  then show "int (length xs) + int (length ys) - int (length (filter (\<lambda>x. x \<in> set ys) xs)) = int (card (set xs \<union> set ys))"
    using assms f by (simp add: distinct_card)
qed



section \<open>Duplicates\<close>

text \<open>Crashes of stack traces without a symbolized function of their own and without a library all have
  the same signature hash: any two of them are duplicates of each other, whatever their addresses and
  inputs.\<close>

theorem unsymbolized_all_duplicates:
  assumes "NewCrash shab sha now input t ti = Inr c" and "NewCrash shab sha now' input' t' ti' = Inr d"
    and "\<forall>f \<in> set (crash_parseStackTrace t @ crash_parseStackTrace t'). \<not> fr_IsSymbolized f \<and> fr_Library f = ''''"
  shows "IsDuplicate c (Some d)"
proof -
  have "top_loop 5 fs [] = []" if "\<forall>f \<in> set fs. \<not> fr_IsSymbolized f" for fs
    using that by (induction fs) auto
  then have e: "sig_Hash s = sha ''''"
    if "NewCrashSignature sha u = Inr s" "\<forall>f \<in> set (crash_parseStackTrace u). \<not> fr_IsSymbolized f \<and> fr_Library f = ''''" for u s
  proof -
    have none: "{f \<in> set (crash_parseStackTrace u). fr_Library f \<noteq> ''''} = {}" using that(2) by auto
    have "set (extractLibraryNames (crash_parseStackTrace u)) = {}" unfolding extractLibraryNames_set none by simp
    then have "extractLibraryNames (crash_parseStackTrace u) = []" by simp
    then show ?thesis using that \<open>\<And>fs. \<forall>f \<in> set fs. \<not> fr_IsSymbolized f \<Longrightarrow> top_loop 5 fs [] = []\<close>
      by (auto elim!: NewCrashSignature_cases simp: extractTopFrames_def)
  qed
  show ?thesis
    using assms e by (fastforce simp: NewCrash_def Let_def IsDuplicate_def split: if_splits sum.splits)
qed

theorem unsymbolized_all_duplicates_witness:
  "\<exists>c d. cr_Input c \<noteq> cr_Input d \<and> cr_StackTrace c \<noteq> cr_StackTrace d \<and> IsDuplicate c (Some d)"
proof -
  let ?ti = "\<lparr>ti_Name = ''t'', ti_Version = '''', ti_Command = '''', ti_Environment = ''''\<rparr>"
  let ?t = "''#0 0x41 in ???''" and ?u = "''#0 0x9f''"
  have nz: "crash_parseStackTrace ?t \<noteq> []" "crash_parseStackTrace ?u \<noteq> []" by code_simp+
  have un: "list_all (\<lambda>f. \<not> fr_IsSymbolized f \<and> fr_Library f = '''') (crash_parseStackTrace ?t @ crash_parseStackTrace ?u)" by code_simp
  obtain s where s: "NewCrashSignature id ?t = Inr s" using NewCrashSignature_ok nz(1) by blast
  obtain s' where s': "NewCrashSignature id ?u = Inr s'" using NewCrashSignature_ok nz(2) by blast
  obtain c where c: "NewCrash (\<lambda>_. '''') id 0 [1] ?t ?ti = Inr c" and c1: "cr_Input c = [1]" "cr_StackTrace c = ?t"
    using s by (simp add: NewCrash_def Let_def)
  obtain d where d: "NewCrash (\<lambda>_. '''') id 5 [2] ?u ?ti = Inr d" and d1: "cr_Input d = [2]" "cr_StackTrace d = ?u"
    using s' by (simp add: NewCrash_def Let_def)
  have "IsDuplicate c (Some d)" using unsymbolized_all_duplicates [OF c d] un by (simp add: list_all_iff)
  then show ?thesis using c1 d1 by (intro exI [of _ c] exI [of _ d]) simp
qed

text \<open>
  The names of system functions with leading underscores never match: \<open>cleanFunctionName\<close> removes one
  underscore before \<open>isSystemFunction\<close> looks for the full name.
\<close>

lemma underscore_functions_not_skipped:
  "list_all (\<lambda>f. \<not> isSystemFunction (cleanFunctionName f)) [''__libc_start_main'', ''_start'', ''__assert_fail'', ''__cxa_throw'']"
  by code_simp

section \<open>Reachable crashes\<close>

inductive crash_reach :: "(8 word list \<Rightarrow> string) \<Rightarrow> (string \<Rightarrow> string) \<Rightarrow> Crash \<Rightarrow> bool" for shab sha where
  crash_new: "NewCrash shab sha now input t ti = Inr c \<Longrightarrow> crash_reach shab sha c"
| crash_occ: "crash_reach shab sha c \<Longrightarrow> crash_reach shab sha (RecordOccurrence now c)"
| crash_fix: "crash_reach shab sha c \<Longrightarrow> crash_reach shab sha (MarkAsFixed now c)"
| crash_notrep: "crash_reach shab sha c \<Longrightarrow> crash_reach shab sha (MarkAsNotReproducible c)"
| crash_sev: "crash_reach shab sha c \<Longrightarrow> UpdateSeverity v c = Inr c' \<Longrightarrow> crash_reach shab sha c'"
| crash_tag: "crash_reach shab sha c \<Longrightarrow> crash_reach shab sha (Crash_AddTag t c)"
| crash_untag: "crash_reach shab sha c \<Longrightarrow> crash_reach shab sha (Crash_RemoveTag t c)"
| crash_meta: "crash_reach shab sha c \<Longrightarrow> crash_reach shab sha (Crash_SetMetadata k v c)"

definition crash_inv :: "(8 word list \<Rightarrow> string) \<Rightarrow> (string \<Rightarrow> string) \<Rightarrow> Crash \<Rightarrow> bool" where
  "crash_inv shab sha c \<longleftrightarrow> Crash_Validate c = None \<and> distinct (cr_Tags c) \<and> (cr_Fixed c \<longleftrightarrow> cr_FixedAt c \<noteq> None) \<and>
     cr_Type c = determineCrashType (cr_StackTrace c) \<and> cr_InputHash c = shab (cr_Input c) \<and>
     cr_ID c = generateCrashID sha (cr_InputHash c) (cr_StackTrace c) \<and>
     (\<exists>s. cr_Signature c = Some s \<and> NewCrashSignature sha (cr_StackTrace c) = Inr s)"

lemma determineCrashType_valid: "isValidCrashType (determineCrashType t)"
  by (simp add: determineCrashType_def isValidCrashType_def crashTypes_def Let_def)

lemma determineSeverity_valid: "isValidSeverity (determineSeverity ty t)"
  by (simp add: determineSeverity_def isValidSeverity_def severities_def)

lemma NewCrash_inv:
  assumes "NewCrash shab sha now input t ti = Inr c" and "\<And>x. sha x \<noteq> ''''"
  shows "crash_inv shab sha c"
proof -
  have "generateCrashID sha h u \<noteq> ''''" for h u using assms(2) by (simp add: generateCrashID_def)
  then show ?thesis
    using assms(1) determineCrashType_valid [of t] determineSeverity_valid
    by (auto simp: NewCrash_def Let_def crash_inv_def Crash_Validate_def split: if_splits sum.splits)
qed

text \<open>A crash built by \<open>NewCrash\<close> and changed by any sequence of its operations passes \<open>Validate\<close>; its
  ID, type, input hash and signature stay those of its input and stack trace, its tags are distinct, and
  it has a fixing time exactly when it is fixed.\<close>

theorem crash_reachable:
  assumes "crash_reach shab sha c" and "\<And>x. sha x \<noteq> ''''"
  shows "crash_inv shab sha c"
  using assms(1)
proof (induction rule: crash_reach.induct)
  case (crash_new now input t ti c)
  then show ?case using assms(2) by (rule NewCrash_inv)
next
  case (crash_sev c v c')
  then show ?case by (auto simp: UpdateSeverity_def crash_inv_def Crash_Validate_def split: if_splits)
qed (auto simp: crash_inv_def Crash_Validate_def RecordOccurrence_def MarkAsFixed_def MarkAsNotReproducible_def
  Crash_AddTag_def Crash_RemoveTag_def Crash_SetMetadata_def split: if_splits)

theorem crash_reachable_witness:
  "\<exists>c. cr_Tags c = [''x''] \<and> crash_inv (\<lambda>_. ''h'') (\<lambda>x. CHR ''h'' # x) c"
proof -
  let ?ti = "\<lparr>ti_Name = ''t'', ti_Version = '''', ti_Command = '''', ti_Environment = ''''\<rparr>"
  have nz: "crash_parseStackTrace ''#0 f'' \<noteq> []" by code_simp
  obtain s where s: "NewCrashSignature (\<lambda>x. CHR ''h'' # x) ''#0 f'' = Inr s" using NewCrashSignature_ok nz by blast
  obtain c where c: "NewCrash (\<lambda>_. ''h'') (\<lambda>x. CHR ''h'' # x) 0 [1] ''#0 f'' ?ti = Inr c" and t: "cr_Tags c = []"
    using s by (simp add: NewCrash_def Let_def)
  have "crash_reach (\<lambda>_. ''h'') (\<lambda>x. CHR ''h'' # x) (Crash_AddTag ''x'' c)" using c by (intro crash_tag crash_new)
  then have "crash_inv (\<lambda>_. ''h'') (\<lambda>x. CHR ''h'' # x) (Crash_AddTag ''x'' c)" by (rule crash_reachable) simp
  moreover have "cr_Tags (Crash_AddTag ''x'' c) = [''x'']" using t by (simp add: Crash_AddTag_def)
  ultimately show ?thesis by blast
qed

end
