(* ===== verification/Sqlite_Layer.thy ===== *)
theory Sqlite_Layer
  imports Storage_Retry
begin

text \<open>
  The layer between the queries of \<open>SQLiteStorage\<close> and the SQL driver: \<open>ExecuteWithRetry\<close> of
  \<open>pkg/storage/retry.go\<close> with the configuration of the database, and the calls of \<open>database/sql\<close>.

  \<open>'t\<close> is the type of the tables. The SQL driver can fail at every call: \<open>Driver\<close> says which call (by its
  number) fails, after how many rows an iteration breaks off, and whether the context has ended. The lemmas
  carry invariants of the tables through the retries, and say which errors a query can see.
\<close>

section \<open>The driver and the retries\<close>

record DatabaseConfig =
  dbc_MaxRetries :: int
  dbc_RetryDelay :: duration
  dbc_MaxRetryDelay :: duration
  dbc_RetryMultiplier :: rat

text \<open>
  The number of the call selects its fault. \<open>drv_rows\<close> gives the number of rows after which an iteration
  fails; \<open>drv_ctx\<close> is \<open>Some True\<close> when the context was cancelled, \<open>Some False\<close> when its deadline passed.
\<close>

record Driver =
  drv_fault :: "nat \<Rightarrow> error option"
  drv_rows :: "nat \<Rightarrow> (nat \<times> error) option"
  drv_ctx :: "nat \<Rightarrow> bool option"

type_synonym 't sqlw = "'t \<times> nat"

definition ErrNoRows :: error where
  "ErrNoRows = ErrorString ''sql: no rows in result set''"

definition ctx_error :: "bool \<Rightarrow> error" where
  "ctx_error cancelled = ErrorString (if cancelled then ''context canceled'' else ''context deadline exceeded'')"

definition drv_ctxErr :: "Driver \<Rightarrow> 't sqlw \<times> 'x \<Rightarrow> error option \<times> ('t sqlw \<times> 'x)" where
  "drv_ctxErr drv = (\<lambda>((t, n), x). (map_option ctx_error (drv_ctx drv n), ((t, Suc n), x)))"

text \<open>\<open>'x\<close> holds the variables that the retried function captures.\<close>

definition ExecuteWithRetry ::
    "Driver \<Rightarrow> DatabaseConfig \<Rightarrow> ('t sqlw \<times> 'x \<Rightarrow> error option \<times> ('t sqlw \<times> 'x)) \<Rightarrow> 't sqlw \<times> 'x \<Rightarrow> error option \<times> ('t sqlw \<times> 'x)" where
  "ExecuteWithRetry drv cfg fn s =
     WithRetryVoid \<lparr>ro_MaxRetries = dbc_MaxRetries cfg, ro_InitialDelay = dbc_RetryDelay cfg, ro_MaxDelay = dbc_MaxRetryDelay cfg,
         ro_Multiplier = dbc_RetryMultiplier cfg, ro_Jitter = True, ro_RetryableErrors = ro_RetryableErrors DefaultRetryOptions\<rparr>
       (drv_ctxErr drv) fn s"

text \<open>\<open>ExecContext\<close> (the number of affected rows), \<open>QueryRowContext(...).Scan\<close>, and the loop over the rows of
  \<open>QueryContext\<close> that appends to a captured list.\<close>

definition db_exec ::
    "Driver \<Rightarrow> ('t \<Rightarrow> (nat \<times> 't) result) \<Rightarrow> 't sqlw \<times> 'x \<Rightarrow> nat result \<times> ('t sqlw \<times> 'x)" where
  "db_exec drv stmt = (\<lambda>((t, n), x). case drv_fault drv n of
       Some e \<Rightarrow> (Inl e, ((t, Suc n), x))
     | None \<Rightarrow> (case stmt t of Inl e \<Rightarrow> (Inl e, ((t, Suc n), x)) | Inr (k, t') \<Rightarrow> (Inr k, ((t', Suc n), x))))"

definition db_row ::
    "Driver \<Rightarrow> ('t \<Rightarrow> 'a option) \<Rightarrow> 't sqlw \<times> 'a option \<Rightarrow> error option \<times> ('t sqlw \<times> 'a option)" where
  "db_row drv q = (\<lambda>((t, n), x). case drv_fault drv n of
       Some e \<Rightarrow> (Some e, ((t, Suc n), x))
     | None \<Rightarrow> (case q t of None \<Rightarrow> (Some ErrNoRows, ((t, Suc n), x)) | Some v \<Rightarrow> (None, ((t, Suc n), Some v))))"

definition db_rows ::
    "Driver \<Rightarrow> ('t \<Rightarrow> 'a list) \<Rightarrow> 't sqlw \<times> 'a list \<Rightarrow> error option \<times> ('t sqlw \<times> 'a list)" where
  "db_rows drv q = (\<lambda>((t, n), xs). case drv_fault drv n of
       Some e \<Rightarrow> (Some e, ((t, Suc n), xs))
     | None \<Rightarrow> (case drv_rows drv n of
         Some (k, e) \<Rightarrow> (Some e, ((t, Suc n), xs @ take k (q t)))
       | None \<Rightarrow> (None, ((t, Suc n), xs @ q t))))"

text \<open>\<open>QueryRowContext\<close> on a table that may be missing.\<close>

definition db_row_of ::
    "Driver \<Rightarrow> ('t \<Rightarrow> 'a option result) \<Rightarrow> 't sqlw \<times> 'a option \<Rightarrow> error option \<times> ('t sqlw \<times> 'a option)" where
  "db_row_of drv q = (\<lambda>((t, n), x). case drv_fault drv n of
       Some e \<Rightarrow> (Some e, ((t, Suc n), x))
     | None \<Rightarrow> (case q t of
           Inl e \<Rightarrow> (Some e, ((t, Suc n), x))
         | Inr None \<Rightarrow> (Some ErrNoRows, ((t, Suc n), x))
         | Inr (Some v) \<Rightarrow> (None, ((t, Suc n), Some v))))"

text \<open>A single row behind the retries: \<open>none\<close> is the error for \<open>sql.ErrNoRows\<close>.\<close>

definition get_row ::
    "Driver \<Rightarrow> DatabaseConfig \<Rightarrow> ('t \<Rightarrow> 'a option result) \<Rightarrow> 'a result \<Rightarrow> 't sqlw \<Rightarrow> 'a result \<times> 't sqlw" where
  "get_row drv cfg q none w =
     (case ExecuteWithRetry drv cfg (db_row_of drv q) (w, None) of
        (Some e, s) \<Rightarrow> (if e = ErrNoRows then none else Inl e, fst s)
      | (None, s) \<Rightarrow> (case snd s of Some v \<Rightarrow> Inr v | None \<Rightarrow> none, fst s))"

definition get_rows :: "Driver \<Rightarrow> DatabaseConfig \<Rightarrow> ('t \<Rightarrow> 'a list) \<Rightarrow> 't sqlw \<Rightarrow> 'a list result \<times> 't sqlw" where
  "get_rows drv cfg q w =
     (case ExecuteWithRetry drv cfg (db_rows drv q) (w, []) of
        (Some e, s) \<Rightarrow> (Inl e, fst s)
      | (None, s) \<Rightarrow> (Inr (snd s), fst s))"

definition exec_void :: "nat result \<times> ('t sqlw \<times> 'x) \<Rightarrow> error option \<times> ('t sqlw \<times> 'x)" where
  "exec_void = (\<lambda>(r, s). (case r of Inl e \<Rightarrow> Some e | Inr _ \<Rightarrow> None, s))"

text \<open>An update that reports an error when no row was affected.\<close>

definition exec_one :: "error \<Rightarrow> nat result \<times> ('t sqlw \<times> 'x) \<Rightarrow> error option \<times> ('t sqlw \<times> 'x)" where
  "exec_one none = (\<lambda>(r, s). (case r of Inl e \<Rightarrow> Some e | Inr k \<Rightarrow> if k = 0 then Some none else None, s))"

definition retry_void ::
    "Driver \<Rightarrow> DatabaseConfig \<Rightarrow> ('t sqlw \<times> unit \<Rightarrow> error option \<times> ('t sqlw \<times> unit)) \<Rightarrow> 't sqlw \<Rightarrow> error option \<times> 't sqlw" where
  "retry_void drv cfg fn w = (let (err, s) = ExecuteWithRetry drv cfg fn (w, ()) in (err, fst s))"

definition constraint_error :: "string \<Rightarrow> int \<Rightarrow> error" where
  "constraint_error cols ext = SqliteError (''UNIQUE constraint failed: '' @ cols) 19 ext"

definition ErrKeyNotFound :: error where
  "ErrKeyNotFound = ErrorString ''key not found''"

section \<open>Errors\<close>

lemma WithRetry_loop_error:
  "WithRetry_loop opts ctxErr fn attempt lastErr s = (Inl e, s') \<Longrightarrow>
   (\<exists>s0. fst (ctxErr s0) = Some e) \<or> (\<exists>l. e = attempts_error opts l)"
proof (induction opts ctxErr fn attempt lastErr s rule: WithRetry_loop.induct)
  case (1 opts ctxErr fn attempt lastErr s)
  obtain c1 s1 where c1: "ctxErr s = (c1, s1)" by fastforce
  obtain r s2 where r: "fn s1 = (r, s2)" by fastforce
  obtain c2 s3 where c2: "ctxErr s2 = (c2, s3)" by fastforce
  show ?case
  proof (cases "attempt > ro_MaxRetries opts \<or> c1 \<noteq> None \<or> c2 \<noteq> None \<or> (\<exists>v. r = Inr v) \<or>
      (\<exists>e. r = Inl e \<and> (attempt = ro_MaxRetries opts \<or> \<not> isRetryable e (ro_RetryableErrors opts)))")
    case True
    then show ?thesis using c1 r c2 "1.prems"
      by (subst (asm) WithRetry_loop.simps) (auto split: option.splits sum.splits if_splits intro: exI [of _ s] exI [of _ s2])
  next
    case False
    then obtain e0 where e0: "r = Inl e0" "c1 = None" "c2 = None" "\<not> attempt > ro_MaxRetries opts"
        "\<not> (attempt = ro_MaxRetries opts \<or> \<not> isRetryable e0 (ro_RetryableErrors opts))"
      by (cases r) auto
    have "WithRetry_loop opts ctxErr fn (attempt + 1) (Some e0) s3 = (Inl e, s')"
      using "1.prems" c1 r c2 e0 by (subst (asm) WithRetry_loop.simps) simp
    with "1.IH" [OF e0(4) c1 [symmetric] e0(2) r [symmetric] e0(1,5) c2 [symmetric] e0(3)] show ?thesis by blast
  qed
qed

lemma attempts_error_not:
  "hd m \<noteq> CHR ''o'' \<Longrightarrow> m \<noteq> [] \<Longrightarrow> attempts_error opts l \<noteq> ErrorString m"
  by (cases m) (auto simp: attempts_error_def Let_def split: option.splits)

text \<open>The error of \<open>ExecuteWithRetry\<close> is that of the context or wraps that of the last attempt.\<close>

lemma ExecuteWithRetry_error:
  fixes s s' :: "'t sqlw \<times> 'x"
  assumes "ExecuteWithRetry drv cfg fn s = (Some e, s')"
  shows "(\<exists>b. e = ctx_error b) \<or> (\<exists>opts l. e = attempts_error opts l)"
proof -
  have "(\<exists>s0 :: 't sqlw \<times> 'x. fst (drv_ctxErr drv s0) = Some e) \<or> (\<exists>opts l. e = attempts_error opts l)"
    using assms unfolding ExecuteWithRetry_def WithRetryVoid_def WithRetry_def
    by (auto split: prod.splits sum.splits dest!: WithRetry_loop_error)
  then show ?thesis by (auto simp: drv_ctxErr_def split: prod.splits)
qed

lemma ExecuteWithRetry_not_sentinel:
  assumes "ExecuteWithRetry drv cfg fn s = (Some e, s')" and "m \<noteq> []" and "hd m \<noteq> CHR ''o''"
    and "m \<noteq> ''context canceled''" and "m \<noteq> ''context deadline exceeded''"
  shows "e \<noteq> ErrorString m"
  using ExecuteWithRetry_error [OF assms(1)]
proof
  assume "\<exists>b. e = ctx_error b"
  then show ?thesis using assms(4,5) by (auto simp: ctx_error_def split: if_splits)
next
  assume "\<exists>opts l. e = attempts_error opts l"
  then show ?thesis using attempts_error_not [OF assms(3,2)] by auto
qed

lemma ExecuteWithRetry_not_NoRows: "ExecuteWithRetry drv cfg fn s = (Some e, s') \<Longrightarrow> e \<noteq> ErrNoRows"
  unfolding ErrNoRows_def by (erule ExecuteWithRetry_not_sentinel) simp_all

section \<open>Invariants\<close>

text \<open>Invariants of the tables and of the captured variables.\<close>

lemma ExecuteWithRetry_rule:
  assumes "P (fst (fst s)) (snd s)"
    and "\<And>t n x. P t x \<Longrightarrow> (case fn ((t, n), x) of (None, ((t', _), x')) \<Rightarrow> Q t' x' | (Some _, ((t', _), x')) \<Rightarrow> P t' x')"
  shows "case ExecuteWithRetry drv cfg fn s of (None, ((t', _), x')) \<Rightarrow> Q t' x' | (Some _, ((t', _), x')) \<Rightarrow> P t' x'"
proof -
  have "case ExecuteWithRetry drv cfg fn s of (None, s') \<Rightarrow> Q (fst (fst s')) (snd s') | (Some e, s') \<Rightarrow> P (fst (fst s')) (snd s')"
    unfolding ExecuteWithRetry_def
  proof (rule WithRetryVoid_rule [where I = "\<lambda>s. P (fst (fst s)) (snd s)"])
    show "P (fst (fst s)) (snd s)" by (rule assms(1))
  next
    fix s :: "('a \<times> nat) \<times> 'b" and e s'
    assume "P (fst (fst s)) (snd s)" "drv_ctxErr drv s = (e, s')"
    then show "P (fst (fst s')) (snd s')" by (cases s; cases "fst s") (auto simp: drv_ctxErr_def)
  next
    fix s :: "('a \<times> nat) \<times> 'b"
    assume "P (fst (fst s)) (snd s)"
    then show "case fn s of (None, s') \<Rightarrow> Q (fst (fst s')) (snd s') | (Some e, s') \<Rightarrow> P (fst (fst s')) (snd s')"
      using assms(2) [of "fst (fst s)" "snd s" "snd (fst s)"] by (auto split: prod.splits option.splits)
  qed
  then show ?thesis by (auto split: prod.splits option.splits)
qed

lemma exec_keeps:
  assumes "\<And>t k t'. stmt t = Inr (k, t') \<Longrightarrow> P t \<Longrightarrow> P t'" and "P t"
  shows "P (fst (fst (snd (exec_void (db_exec drv stmt ((t, n), x))))))"
    and "P (fst (fst (snd (exec_one e (db_exec drv stmt ((t, n), x))))))"
  using assms by (auto simp: db_exec_def exec_void_def exec_one_def split: option.splits sum.splits prod.splits)

lemma retry_void_keeps:
  assumes "\<And>t n. P t \<Longrightarrow> P (fst (fst (snd (fn ((t, n), ())))))" and "P (fst w)"
  shows "P (fst (snd (retry_void drv cfg fn w)))"
proof -
  have "case ExecuteWithRetry drv cfg fn (w, ()) of (None, ((t', _), x')) \<Rightarrow> P t' | (Some _, ((t', _), x')) \<Rightarrow> P t'"
  proof (rule ExecuteWithRetry_rule [where P = "\<lambda>t _. P t" and Q = "\<lambda>t _. P t"])
    fix t n and x :: unit
    assume "P t"
    then show "case fn ((t, n), x) of (None, ((t', _), x')) \<Rightarrow> P t' | (Some _, ((t', _), x')) \<Rightarrow> P t'"
      using assms(1) [of t n] by (auto split: prod.splits option.splits)
  qed (use assms(2) in simp)
  then show ?thesis by (auto simp: retry_void_def split: prod.splits option.splits)
qed

lemma retry_exec_keeps:
  assumes "\<And>t k t'. stmt t = Inr (k, t') \<Longrightarrow> P t \<Longrightarrow> P t'" and "P (fst w)"
  shows "P (fst (snd (retry_void drv cfg (\<lambda>s. exec_void (db_exec drv stmt s)) w)))"
    and "P (fst (snd (retry_void drv cfg (\<lambda>s. exec_one e (db_exec drv stmt s)) w)))"
proof -
  note ex = exec_keeps [where P = P and stmt = stmt, OF assms(1)]
  show "P (fst (snd (retry_void drv cfg (\<lambda>s. exec_void (db_exec drv stmt s)) w)))"
    by (rule retry_void_keeps [where P = P]) (simp_all add: ex(1) assms(2))
  show "P (fst (snd (retry_void drv cfg (\<lambda>s. exec_one e (db_exec drv stmt s)) w)))"
    by (rule retry_void_keeps [where P = P]) (simp_all add: ex(2) assms(2))
qed

lemma read_keeps:
  fixes fn :: "'t sqlw \<times> 'x \<Rightarrow> error option \<times> ('t sqlw \<times> 'x)"
  assumes "\<And>t n x. fst (fst (snd (fn ((t, n), x)))) = t"
  shows "fst (fst (snd (ExecuteWithRetry drv cfg fn s))) = fst (fst s)"
proof -
  have "case ExecuteWithRetry drv cfg fn s of (None, ((t', _), x')) \<Rightarrow> t' = fst (fst s) | (Some _, ((t', _), x')) \<Rightarrow> t' = fst (fst s)"
  proof (rule ExecuteWithRetry_rule [where P = "\<lambda>t _. t = fst (fst s)" and Q = "\<lambda>t _. t = fst (fst s)"])
    fix t n and x :: 'x
    assume "t = fst (fst s)"
    then show "case fn ((t, n), x) of (None, ((t', _), x')) \<Rightarrow> t' = fst (fst s) | (Some _, ((t', _), x')) \<Rightarrow> t' = fst (fst s)"
      using assms [of t n x] by (auto split: prod.splits option.splits)
  qed simp
  then show ?thesis by (auto split: prod.splits option.splits)
qed

lemma db_row_keeps: "fst (fst (snd (db_row drv q ((t, n), x)))) = t"
  by (simp add: db_row_def split: option.splits)

lemma db_rows_keeps: "fst (fst (snd (db_rows drv q ((t, n), x)))) = t"
  by (simp add: db_rows_def split: option.splits prod.splits)

lemma reads_keep:
  "fst (fst (snd (ExecuteWithRetry drv cfg (db_row drv q) s))) = fst (fst s)"
  "fst (fst (snd (ExecuteWithRetry drv cfg (db_rows drv r) s'))) = fst (fst s')"
  by (rule read_keeps, rule db_row_keeps) (rule read_keeps, rule db_rows_keeps)

lemma ExecuteWithRetry_first:
  assumes "drv_ctx drv n = None" and "0 \<le> dbc_MaxRetries cfg" and "fn ((t, Suc n), x) = (None, s')"
  shows "ExecuteWithRetry drv cfg fn ((t, n), x) = (None, s')"
  using assms unfolding ExecuteWithRetry_def WithRetryVoid_def WithRetry_def
  by (subst WithRetry_loop.simps) (simp add: drv_ctxErr_def)

section \<open>Rows and statements\<close>

lemma db_row_of_keeps: "fst (fst (snd (db_row_of drv q ((t, n), x)))) = t"
  by (simp add: db_row_of_def split: option.splits sum.splits)

lemma get_row_keeps: "get_row drv cfg q none w = (r, w') \<Longrightarrow> fst w' = fst w"
  using read_keeps [of "db_row_of drv q" drv cfg "(w, None)", OF db_row_of_keeps]
  by (auto simp: get_row_def split: prod.splits option.splits if_splits)

lemma get_rows_keeps: "get_rows drv cfg q w = (r, w') \<Longrightarrow> fst w' = fst w"
  using reads_keep(2) [of drv cfg q "(w, [])"] by (auto simp: get_rows_def split: prod.splits option.splits)

text \<open>A repeated attempt can return rows twice, but no others.\<close>

lemma get_rows_subset:
  assumes "get_rows drv cfg q w = (Inr xs, w')"
  shows "set xs \<subseteq> set (q (fst w))"
proof -
  have "case ExecuteWithRetry drv cfg (db_rows drv q) (w, []) of
      (None, ((t', _), x')) \<Rightarrow> t' = fst w \<and> set x' \<subseteq> set (q (fst w)) | (Some _, ((t', _), x')) \<Rightarrow> t' = fst w \<and> set x' \<subseteq> set (q (fst w))"
    by (rule ExecuteWithRetry_rule) (auto simp: db_rows_def split: option.splits prod.splits dest: in_set_takeD)
  then show ?thesis using assms by (auto simp: get_rows_def split: prod.splits option.splits)
qed

lemma get_row_sound:
  assumes "get_row drv cfg q none w = (Inr v, w')"
  shows "q (fst w) = Inr (Some v) \<or> none = Inr v"
proof -
  have "case ExecuteWithRetry drv cfg (db_row_of drv q) (w, None) of
      (None, ((t', _), x')) \<Rightarrow> t' = fst w \<and> (\<exists>v. x' = Some v \<and> q (fst w) = Inr (Some v)) | (Some _, ((t', _), x')) \<Rightarrow> t' = fst w"
    by (rule ExecuteWithRetry_rule [where P = "\<lambda>t _. t = fst w"]) (auto simp: db_row_of_def split: option.splits sum.splits)
  then show ?thesis using assms by (auto simp: get_row_def split: prod.splits option.splits if_splits)
qed

text \<open>A statement that is refused on the tables stays refused over all attempts and changes nothing.\<close>

lemma retry_void_fails:
  assumes "\<And>n. \<exists>e n'. fn ((fst w, n), ()) = (Some e, ((fst w, n'), ()))"
  shows "\<exists>e w'. retry_void drv cfg fn w = (Some e, w') \<and> fst w' = fst w"
proof -
  have "case ExecuteWithRetry drv cfg fn (w, ()) of (None, ((t', _), x')) \<Rightarrow> False | (Some _, ((t', _), x')) \<Rightarrow> t' = fst w"
  proof (rule ExecuteWithRetry_rule [where P = "\<lambda>t _. t = fst w" and Q = "\<lambda>_ _. False"])
    fix t n and x :: unit
    assume "t = fst w"
    then show "case fn ((t, n), x) of (None, ((t', _), x')) \<Rightarrow> False | (Some _, ((t', _), x')) \<Rightarrow> t' = fst w"
      using assms [of n] by auto
  qed simp
  then show ?thesis by (auto simp: retry_void_def split: prod.splits option.splits)
qed

lemma retry_exec_fails:
  assumes "stmt (fst w) = Inl e0"
  shows "\<exists>e w'. retry_void drv cfg (\<lambda>s. exec_void (db_exec drv stmt s)) w = (Some e, w') \<and> fst w' = fst w"
    and "\<exists>e w'. retry_void drv cfg (\<lambda>s. exec_one e1 (db_exec drv stmt s)) w = (Some e, w') \<and> fst w' = fst w"
  by (rule retry_void_fails, simp add: db_exec_def exec_void_def assms split: option.splits)
    (rule retry_void_fails, simp add: db_exec_def exec_one_def assms split: option.splits)

lemma find_row: "find P xs = Some x \<Longrightarrow> x \<in> set xs \<and> P x"
  by (auto simp: find_Some_iff dest: nth_mem)

lemma retry_exec_inv:
  "retry_void drv cfg (\<lambda>s. exec_void (db_exec drv stmt s)) w = (e, w') \<Longrightarrow>
     (\<And>t k t'. stmt t = Inr (k, t') \<Longrightarrow> P t \<Longrightarrow> P t') \<Longrightarrow> P (fst w) \<Longrightarrow> P (fst w')"
  "retry_void drv cfg (\<lambda>s. exec_one e1 (db_exec drv stmt s)) w = (e, w') \<Longrightarrow>
     (\<And>t k t'. stmt t = Inr (k, t') \<Longrightarrow> P t \<Longrightarrow> P t') \<Longrightarrow> P (fst w) \<Longrightarrow> P (fst w')"
  using retry_exec_keeps [where P = P and stmt = stmt and drv = drv and cfg = cfg and w = w] by (metis snd_conv)+

section \<open>A driver without faults\<close>

definition healthy :: Driver where
  "healthy = \<lparr>drv_fault = (\<lambda>_. None), drv_rows = (\<lambda>_. None), drv_ctx = (\<lambda>_. None)\<rparr>"

definition sample_cfg :: DatabaseConfig where
  "sample_cfg = \<lparr>dbc_MaxRetries = 3, dbc_RetryDelay = 0, dbc_MaxRetryDelay = 0, dbc_RetryMultiplier = 2\<rparr>"

lemma get_rows_healthy: "0 \<le> dbc_MaxRetries cfg \<Longrightarrow> get_rows healthy cfg q (t, n) = (Inr (q t), (t, Suc (Suc n)))"
  by (simp add: get_rows_def ExecuteWithRetry_first [where s' = "((t, Suc (Suc n)), q t)"] healthy_def db_rows_def)

lemma get_row_healthy:
  "0 \<le> dbc_MaxRetries cfg \<Longrightarrow> q t = Inr (Some v) \<Longrightarrow> get_row healthy cfg q none (t, n) = (Inr v, (t, Suc (Suc n)))"
  by (simp add: get_row_def ExecuteWithRetry_first [where s' = "((t, Suc (Suc n)), Some v)"] healthy_def db_row_of_def)

lemma retry_exec_healthy:
  assumes "0 \<le> dbc_MaxRetries cfg" and "stmt t = Inr (k, t')"
  shows "retry_void healthy cfg (\<lambda>s. exec_void (db_exec healthy stmt s)) (t, n) = (None, (t', Suc (Suc n)))"
  using assms by (simp add: retry_void_def ExecuteWithRetry_first [where s' = "((t', Suc (Suc n)), ())"] healthy_def db_exec_def exec_void_def)

lemma retry_one_healthy:
  assumes "0 \<le> dbc_MaxRetries cfg" and "stmt t = Inr (k, t')" and "k \<noteq> 0"
  shows "retry_void healthy cfg (\<lambda>s. exec_one e (db_exec healthy stmt s)) (t, n) = (None, (t', Suc (Suc n)))"
  using assms by (simp add: retry_void_def ExecuteWithRetry_first [where s' = "((t', Suc (Suc n)), ())"] healthy_def db_exec_def exec_one_def)

end
