(* ===== verification/Crash_Dedup.thy ===== *)
theory Crash_Dedup
  imports Sqlite_Layer Go_Regexp "HOL-Library.AList"
begin

text \<open>
  The deduplication of crashes by stack trace: the service (\<open>pkg/service/dedup_service.go\<close>) and the SQLite
  queries it runs on (\<open>pkg/storage/dedup_queries.go\<close>, and \<open>ListCampaigns\<close>, \<open>GetCampaignJobs\<close> and \<open>GetJob\<close>
  as far as the service reads their results), each of which goes through \<open>ExecuteWithRetry\<close>
  (\<open>Sqlite_Layer\<close>).

  \<^item> The service calls its storage through the record \<open>DedupStorage\<close>, over an arbitrary state.
  \<^item> The tables are a record of lists. Jobs and campaigns are represented by their IDs, the only field the
    service reads; campaigns are in the order of the query (\<open>ORDER BY created_at DESC\<close>).
  \<^item> The SQL driver can fail at every call: \<open>Driver\<close> says which call (by its number) fails, after how many
    rows an iteration breaks off, and whether the context has ended. Statements act as SQLite executes
    them, including the constraint \<open>UNIQUE(campaign_id, stack_hash)\<close> and the primary keys; foreign keys are
    not enforced by this driver's default. The JSON encoding of frames is left out (it is decoded to the
    same value).
  \<^item> \<open>sha\<close> is the hexadecimal SHA-256 digest of a string, \<open>uuid\<close> the next random UUID. Log lines are left out.
\<close>

section \<open>Data\<close>

record StackFrame =
  sf_Function :: string
  sf_File :: string
  sf_Line :: int
  sf_Offset :: int

record StackTrace =
  st_Frames :: "StackFrame list"
  st_TopNHash :: string
  st_FullHash :: string
  st_RawTrace :: string

record CrashGroup =
  cg_ID :: string
  cg_CampaignID :: string
  cg_StackHash :: string
  cg_FirstSeen :: time
  cg_LastSeen :: time
  cg_Count :: int
  cg_Severity :: string
  cg_StackFrames :: "StackFrame list"
  cg_ExampleCrash :: string

text \<open>The fields of \<open>common.CrashResult\<close> the service reads.\<close>

record CrashResult =
  crr_ID :: string
  crr_JobID :: string
  crr_Type :: string
  crr_Signal :: int
  crr_Timestamp :: time
  crr_Output :: string
  crr_StackTrace :: string

definition ErrCrashGroupNotFound :: error where
  "ErrCrashGroupNotFound = ErrorString ''crash group not found''"

section \<open>Parsing\<close>

definition frame_head :: "rx list" where
  "frame_head = [lit ''#'', PlusC is_digit, PlusC rx_space, lit ''0x'', PlusC is_hex, PlusC rx_space, lit ''in'', PlusC rx_space,
     Grp 1 (PlusC non_space), PlusC rx_space]"

definition file_line :: "rx list" where
  "file_line = [Grp 2 (PlusC (\<lambda>x. x \<noteq> CHR '':'')), lit '':'', Grp 3 (PlusC is_digit)]"

definition gdbPattern :: rx where
  "gdbPattern = seqs (frame_head @ [Opt (seqs [lit ''at'', PlusC rx_space])] @ file_line)"

definition asanPattern :: rx where
  "asanPattern = seqs (frame_head @ file_line @ [Opt (seqs [lit '':'', PlusC is_digit])])"

definition simplePattern :: rx where
  "simplePattern = seqs ([Grp 1 (PlusC non_space), PlusC rx_space, lit ''at'', PlusC rx_space] @ file_line)"

definition match_frame :: "captures \<Rightarrow> StackFrame" where
  "match_frame c = \<lparr>sf_Function = capture c 1, sf_File = capture c 2, sf_Line = atoi_digits (capture c 3), sf_Offset = 0\<rparr>"

text \<open>The fourth format, for one trimmed line: the function name or the empty string.\<close>

fun after_address :: "string list \<Rightarrow> string" where
  "after_address (part # next_part # rest) =
     (if has_prefix part ''0x'' then next_part else after_address (next_part # rest))"
| "after_address _ = ''''"

definition line_function :: "string \<Rightarrow> string" where
  "line_function line = (case str_index line '' in '' of
       Some (Suc k) \<Rightarrow> (case str_fields (drop (Suc k + 4) line) of p # _ \<Rightarrow> p | [] \<Rightarrow> '''')
     | _ \<Rightarrow> if str_contains line ''0x'' then after_address (str_fields line) else '''')"

definition line_frame :: "string \<Rightarrow> StackFrame option" where
  "line_frame line =
     (if line = '''' \<or> has_prefix line ''=='' then None
      else let fn = line_function line
           in if fn \<noteq> '''' \<and> fn \<noteq> ''??'' \<and> fn \<noteq> ''<unknown>''
              then Some \<lparr>sf_Function = fn, sf_File = '''', sf_Line = 0, sf_Offset = 0\<rparr> else None)"

definition extractFrames :: "string \<Rightarrow> StackFrame list" where
  "extractFrames trace =
     (let gdb = rx_find_all gdbPattern trace; asan = rx_find_all asanPattern trace; simple = rx_find_all simplePattern trace
      in if gdb \<noteq> [] then map match_frame gdb
         else if asan \<noteq> [] then map match_frame asan
         else if simple \<noteq> [] then map match_frame simple
         else List.map_filter line_frame (map trim_space (split_on (CHR 0x0A) trace)))"

definition computeStackHash :: "(string \<Rightarrow> string) \<Rightarrow> StackFrame list \<Rightarrow> int \<Rightarrow> string" where
  "computeStackHash sha frames n =
     (let n' = (if n > int (length frames) then int (length frames) else n)
      in sha (join ''|'' (map (\<lambda>f. sf_Function f @ ''@'' @ sf_File f) (take (nat n') frames))))"

definition topNFrames :: int where
  "topNFrames = 5"

definition dedup_parseStackTrace :: "(string \<Rightarrow> string) \<Rightarrow> string \<Rightarrow> StackTrace result" where
  "dedup_parseStackTrace sha rawTrace =
     (if rawTrace = '''' then Inl (ErrorString ''empty stack trace'')
      else let frames = extractFrames rawTrace
           in if frames = [] then Inl (ErrorString ''no frames found in stack trace'')
              else Inr \<lparr>st_Frames = frames, st_TopNHash = computeStackHash sha frames topNFrames,
                     st_FullHash = computeStackHash sha frames (int (length frames)), st_RawTrace = rawTrace\<rparr>)"

definition calculateSeverity :: "CrashResult \<Rightarrow> string" where
  "calculateSeverity c =
     (let by_type = (if crr_Type c \<in> {''heap_overflow'', ''stack_overflow'', ''use_after_free''} then ''critical''
                     else if crr_Type c \<in> {''segfault'', ''null_deref''} then ''high''
                     else if crr_Type c \<in> {''assertion'', ''timeout''} then ''low'' else ''medium'')
      in if crr_Signal c = 11 then
           (if str_contains (crr_Output c) ''heap'' \<or> str_contains (crr_Output c) ''buffer overflow'' then ''critical'' else ''high'')
         else if crr_Signal c = 6 then
           (if str_contains (crr_Output c) ''double free'' \<or> str_contains (crr_Output c) ''heap corruption'' then ''critical'' else ''medium'')
         else if crr_Signal c = 4 then ''high''
         else if crr_Signal c = 8 then ''medium''
         else by_type)"

section \<open>The service\<close>

text \<open>\<open>GetCrashGroup\<close> returns a pointer and an error, both possibly nil.\<close>

record 's DedupStorage =
  ds_CreateStackTrace :: "string \<Rightarrow> StackTrace \<Rightarrow> 's \<Rightarrow> error option \<times> 's"
  ds_GetJob :: "string \<Rightarrow> 's \<Rightarrow> string result \<times> 's"
  ds_ListCampaigns :: "'s \<Rightarrow> string list result \<times> 's"
  ds_GetCampaignJobs :: "string \<Rightarrow> 's \<Rightarrow> string list result \<times> 's"
  ds_UpdateCrashWithCampaign :: "string \<Rightarrow> string \<Rightarrow> 's \<Rightarrow> error option \<times> 's"
  ds_GetCrashGroup :: "string \<Rightarrow> string \<Rightarrow> 's \<Rightarrow> (CrashGroup option \<times> error option) \<times> 's"
  ds_UpdateCrashGroupCount :: "string \<Rightarrow> 's \<Rightarrow> error option \<times> 's"
  ds_LinkCrashToGroup :: "string \<Rightarrow> string \<Rightarrow> 's \<Rightarrow> error option \<times> 's"
  ds_CreateCrashGroup :: "CrashGroup \<Rightarrow> 's \<Rightarrow> error option \<times> 's"
  ds_ListCrashGroups :: "string \<Rightarrow> 's \<Rightarrow> CrashGroup list result \<times> 's"
  ds_GetStackTrace :: "string \<Rightarrow> 's \<Rightarrow> StackTrace option result \<times> 's"

text \<open>The search for the campaign of a job; the empty string when there is none.\<close>

fun find_campaign :: "'s DedupStorage \<Rightarrow> string \<Rightarrow> string list \<Rightarrow> 's \<Rightarrow> string \<times> 's" where
  "find_campaign S jobID [] s = ('''', s)"
| "find_campaign S jobID (c # cs) s = (case ds_GetCampaignJobs S c s of
       (Inl _, s') \<Rightarrow> find_campaign S jobID cs s'
     | (Inr jobs, s') \<Rightarrow> if jobID \<in> set jobs \<and> c \<noteq> '''' then (c, s') else find_campaign S jobID cs s')"

definition new_group :: "string \<Rightarrow> string \<Rightarrow> StackTrace \<Rightarrow> CrashResult \<Rightarrow> CrashGroup" where
  "new_group uuid campaignID st crash =
     \<lparr>cg_ID = ''group-'' @ uuid, cg_CampaignID = campaignID, cg_StackHash = st_TopNHash st,
      cg_FirstSeen = crr_Timestamp crash, cg_LastSeen = crr_Timestamp crash, cg_Count = 1,
      cg_Severity = calculateSeverity crash, cg_StackFrames = take (min (length (st_Frames st)) (nat topNFrames)) (st_Frames st),
      cg_ExampleCrash = crr_ID crash\<rparr>"

text \<open>From the lookup of the group on: the group, whether the crash is unique, and the error.\<close>

definition group_crash ::
    "'s DedupStorage \<Rightarrow> string \<Rightarrow> string \<Rightarrow> StackTrace \<Rightarrow> CrashResult \<Rightarrow> 's \<Rightarrow> (CrashGroup option \<times> bool \<times> error option) \<times> 's" where
  "group_crash S uuid campaignID st crash s =
     (case ds_GetCrashGroup S campaignID (st_TopNHash st) s of ((existing, err), s1) \<Rightarrow>
        if (case err of Some e \<Rightarrow> e \<noteq> ErrCrashGroupNotFound | None \<Rightarrow> False) then
          ((None, True, map_option (WrapError ''failed to check existing crash group: '') err), s1)
        else (case existing of
            Some g \<Rightarrow>
              let s2 = snd (ds_UpdateCrashGroupCount S (cg_ID g) s1); s3 = snd (ds_LinkCrashToGroup S (crr_ID crash) (cg_ID g) s2)
              in ((Some g, False, None), s3)
          | None \<Rightarrow>
              let g = new_group uuid campaignID st crash
              in (case ds_CreateCrashGroup S g s1 of
                    (Some e, s2) \<Rightarrow> ((None, True, Some (WrapError ''failed to create crash group: '' e)), s2)
                  | (None, s2) \<Rightarrow> ((Some g, True, None), snd (ds_LinkCrashToGroup S (crr_ID crash) (cg_ID g) s2)))))"

definition ProcessCrash ::
    "'s DedupStorage \<Rightarrow> (string \<Rightarrow> string) \<Rightarrow> string \<Rightarrow> CrashResult \<Rightarrow> 's \<Rightarrow> (CrashGroup option \<times> bool \<times> error option) \<times> 's" where
  "ProcessCrash S sha uuid crash s = (case dedup_parseStackTrace sha (crr_StackTrace crash) of
       Inl _ \<Rightarrow> ((None, True, None), s)
     | Inr st \<Rightarrow>
         let s1 = snd (ds_CreateStackTrace S (crr_ID crash) st s)
         in (case ds_GetJob S (crr_JobID crash) s1 of
               (Inl e, s2) \<Rightarrow> ((None, True, Some (WrapError ''failed to get job: '' e)), s2)
             | (Inr jobID, s2) \<Rightarrow> (case ds_ListCampaigns S s2 of
                   (Inl e, s3) \<Rightarrow> ((None, True, Some (WrapError ''failed to list campaigns: '' e)), s3)
                 | (Inr campaigns, s3) \<Rightarrow> (case find_campaign S jobID campaigns s3 of (campaignID, s4) \<Rightarrow>
                     if campaignID = '''' then ((None, True, None), s4)
                     else group_crash S uuid campaignID st crash (snd (ds_UpdateCrashWithCampaign S (crr_ID crash) campaignID s4))))))"

definition GetCrashGroups :: "'s DedupStorage \<Rightarrow> string \<Rightarrow> 's \<Rightarrow> CrashGroup list result \<times> 's" where
  "GetCrashGroups S campaignID s = (case ds_ListCrashGroups S campaignID s of
       (Inl e, s') \<Rightarrow> (Inl (WrapError ''failed to list crash groups: '' e), s')
     | (Inr gs, s') \<Rightarrow> (Inr gs, s'))"

definition dedup_GetStackTrace :: "'s DedupStorage \<Rightarrow> string \<Rightarrow> 's \<Rightarrow> StackTrace option result \<times> 's" where
  "dedup_GetStackTrace S crashID s = (case ds_GetStackTrace S crashID s of
       (Inl e, s') \<Rightarrow> (Inl (WrapError ''failed to get stack trace: '' e), s')
     | (Inr t, s') \<Rightarrow> (Inr t, s'))"

section \<open>The SQLite storage\<close>

record DedupTables =
  dt_jobs :: "string list"
  dt_campaigns :: "string list"
  dt_campaign_jobs :: "(string \<times> string) list"
  dt_crashes :: "(string \<times> string \<times> string) list"
  dt_crash_groups :: "CrashGroup list"
  dt_stack_traces :: "(string \<times> StackTrace) list"

text \<open>The SQL statements.\<close>

definition insert_group :: "CrashGroup \<Rightarrow> DedupTables \<Rightarrow> (nat \<times> DedupTables) result" where
  "insert_group g t =
     (if list_ex (\<lambda>h. cg_ID h = cg_ID g) (dt_crash_groups t) then Inl (constraint_error ''crash_groups.id'' 1555)
      else if list_ex (\<lambda>h. cg_CampaignID h = cg_CampaignID g \<and> cg_StackHash h = cg_StackHash g) (dt_crash_groups t) then
        Inl (constraint_error ''crash_groups.campaign_id, crash_groups.stack_hash'' 2067)
      else Inr (1, t\<lparr>dt_crash_groups := dt_crash_groups t @ [g]\<rparr>))"

definition select_group :: "string \<Rightarrow> string \<Rightarrow> DedupTables \<Rightarrow> CrashGroup option" where
  "select_group campaignID stackHash t =
     List.find (\<lambda>g. cg_CampaignID g = campaignID \<and> cg_StackHash g = stackHash) (dt_crash_groups t)"

definition count_group :: "time \<Rightarrow> string \<Rightarrow> DedupTables \<Rightarrow> (nat \<times> DedupTables) result" where
  "count_group now i t =
     Inr (length (filter (\<lambda>g. cg_ID g = i) (dt_crash_groups t)),
          t\<lparr>dt_crash_groups := map (\<lambda>g. if cg_ID g = i then g\<lparr>cg_Count := cg_Count g + 1, cg_LastSeen := now\<rparr> else g) (dt_crash_groups t)\<rparr>)"

definition insert_trace :: "string \<Rightarrow> StackTrace \<Rightarrow> DedupTables \<Rightarrow> (nat \<times> DedupTables) result" where
  "insert_trace crashID st t =
     (if map_of (dt_stack_traces t) crashID \<noteq> None then Inl (constraint_error ''stack_traces.crash_id'' 1555)
      else Inr (1, t\<lparr>dt_stack_traces := dt_stack_traces t @ [(crashID, st)]\<rparr>))"

definition update_crash :: "(string \<times> string \<Rightarrow> string \<times> string) \<Rightarrow> string \<Rightarrow> DedupTables \<Rightarrow> (nat \<times> DedupTables) result" where
  "update_crash f crashID t =
     Inr (length (filter (\<lambda>(i, _). i = crashID) (dt_crashes t)),
          t\<lparr>dt_crashes := map (\<lambda>(i, r). (i, if i = crashID then f r else r)) (dt_crashes t)\<rparr>)"

definition crash_not_found :: "string \<Rightarrow> error" where
  "crash_not_found crashID = ErrorString (''crash not found: '' @ crashID)"

definition sqlite_CreateCrashGroup :: "Driver \<Rightarrow> DatabaseConfig \<Rightarrow> CrashGroup \<Rightarrow> DedupTables sqlw \<Rightarrow> error option \<times> DedupTables sqlw" where
  "sqlite_CreateCrashGroup drv cfg g w = retry_void drv cfg (\<lambda>s. exec_void (db_exec drv (insert_group g) s)) w"

text \<open>The comparison with \<open>sql.ErrNoRows\<close> is on the error that \<open>ExecuteWithRetry\<close> returns.\<close>

definition sqlite_GetCrashGroup ::
    "Driver \<Rightarrow> DatabaseConfig \<Rightarrow> string \<Rightarrow> string \<Rightarrow> DedupTables sqlw \<Rightarrow> (CrashGroup option \<times> error option) \<times> DedupTables sqlw" where
  "sqlite_GetCrashGroup drv cfg campaignID stackHash w =
     (case ExecuteWithRetry drv cfg (db_row drv (select_group campaignID stackHash)) (w, None) of
        (Some e, s) \<Rightarrow> ((None, Some (if e = ErrNoRows then ErrCrashGroupNotFound else e)), fst s)
      | (None, s) \<Rightarrow> ((snd s, None), fst s))"

text \<open>\<open>now\<close> is SQLite's \<open>CURRENT_TIMESTAMP\<close>.\<close>

definition sqlite_UpdateCrashGroupCount :: "Driver \<Rightarrow> DatabaseConfig \<Rightarrow> time \<Rightarrow> string \<Rightarrow> DedupTables sqlw \<Rightarrow> error option \<times> DedupTables sqlw" where
  "sqlite_UpdateCrashGroupCount drv cfg now i w =
     retry_void drv cfg (\<lambda>s. exec_one ErrCrashGroupNotFound (db_exec drv (count_group now i) s)) w"

text \<open>\<open>srt\<close> is the order of the query (\<open>ORDER BY count DESC, last_seen DESC\<close>).\<close>

definition sqlite_ListCrashGroups ::
    "Driver \<Rightarrow> DatabaseConfig \<Rightarrow> (CrashGroup list \<Rightarrow> CrashGroup list) \<Rightarrow> string \<Rightarrow> DedupTables sqlw \<Rightarrow> CrashGroup list result \<times> DedupTables sqlw" where
  "sqlite_ListCrashGroups drv cfg srt campaignID w =
     (case ExecuteWithRetry drv cfg (db_rows drv (\<lambda>t. srt (filter (\<lambda>g. cg_CampaignID g = campaignID) (dt_crash_groups t)))) (w, []) of
        (Some e, s) \<Rightarrow> (Inl e, fst s)
      | (None, s) \<Rightarrow> (Inr (snd s), fst s))"

definition sqlite_CreateStackTrace :: "Driver \<Rightarrow> DatabaseConfig \<Rightarrow> string \<Rightarrow> StackTrace \<Rightarrow> DedupTables sqlw \<Rightarrow> error option \<times> DedupTables sqlw" where
  "sqlite_CreateStackTrace drv cfg crashID st w = retry_void drv cfg (\<lambda>s. exec_void (db_exec drv (insert_trace crashID st) s)) w"

definition sqlite_GetStackTrace :: "Driver \<Rightarrow> DatabaseConfig \<Rightarrow> string \<Rightarrow> DedupTables sqlw \<Rightarrow> StackTrace option result \<times> DedupTables sqlw" where
  "sqlite_GetStackTrace drv cfg crashID w =
     (case ExecuteWithRetry drv cfg (db_row drv (\<lambda>t. map_of (dt_stack_traces t) crashID)) (w, None) of
        (Some e, s) \<Rightarrow> (if e = ErrNoRows then Inr None else Inl e, fst s)
      | (None, s) \<Rightarrow> (Inr (snd s), fst s))"

definition sqlite_LinkCrashToGroup :: "Driver \<Rightarrow> DatabaseConfig \<Rightarrow> string \<Rightarrow> string \<Rightarrow> DedupTables sqlw \<Rightarrow> error option \<times> DedupTables sqlw" where
  "sqlite_LinkCrashToGroup drv cfg crashID groupID w =
     retry_void drv cfg (\<lambda>s. exec_one (crash_not_found crashID) (db_exec drv (update_crash (\<lambda>(c, _). (c, groupID)) crashID) s)) w"

definition sqlite_UpdateCrashWithCampaign :: "Driver \<Rightarrow> DatabaseConfig \<Rightarrow> string \<Rightarrow> string \<Rightarrow> DedupTables sqlw \<Rightarrow> error option \<times> DedupTables sqlw" where
  "sqlite_UpdateCrashWithCampaign drv cfg crashID campaignID w =
     retry_void drv cfg (\<lambda>s. exec_one (crash_not_found crashID) (db_exec drv (update_crash (\<lambda>(_, g). (campaignID, g)) crashID) s)) w"

definition sqlite_GetJob :: "Driver \<Rightarrow> DatabaseConfig \<Rightarrow> string \<Rightarrow> DedupTables sqlw \<Rightarrow> string result \<times> DedupTables sqlw" where
  "sqlite_GetJob drv cfg i w =
     (case ExecuteWithRetry drv cfg (db_row drv (\<lambda>t. List.find (\<lambda>j. j = i) (dt_jobs t))) (w, None) of
        (Some e, s) \<Rightarrow> (Inl (if e = ErrNoRows then ErrKeyNotFound else e), fst s)
      | (None, s) \<Rightarrow> (Inr (case snd s of Some j \<Rightarrow> j | None \<Rightarrow> ''''), fst s))"

text \<open>\<open>ListCampaigns\<close> with limit and offset 0 and no status.\<close>

definition sqlite_ListCampaigns :: "Driver \<Rightarrow> DatabaseConfig \<Rightarrow> DedupTables sqlw \<Rightarrow> string list result \<times> DedupTables sqlw" where
  "sqlite_ListCampaigns drv cfg w = (case ExecuteWithRetry drv cfg (db_rows drv dt_campaigns) (w, []) of
        (Some e, s) \<Rightarrow> (Inl e, fst s)
      | (None, s) \<Rightarrow> (Inr (snd s), fst s))"

definition sqlite_GetCampaignJobs :: "Driver \<Rightarrow> DatabaseConfig \<Rightarrow> string \<Rightarrow> DedupTables sqlw \<Rightarrow> string list result \<times> DedupTables sqlw" where
  "sqlite_GetCampaignJobs drv cfg campaignID w =
     (case ExecuteWithRetry drv cfg
         (db_rows drv (\<lambda>t. map snd (filter (\<lambda>(c, j). c = campaignID \<and> j \<in> set (dt_jobs t)) (dt_campaign_jobs t)))) (w, []) of
        (Some e, s) \<Rightarrow> (Inl e, fst s)
      | (None, s) \<Rightarrow> (Inr (snd s), fst s))"

definition sqlite_storage ::
    "Driver \<Rightarrow> DatabaseConfig \<Rightarrow> time \<Rightarrow> (CrashGroup list \<Rightarrow> CrashGroup list) \<Rightarrow> DedupTables sqlw DedupStorage" where
  "sqlite_storage drv cfg now srt =
     \<lparr>ds_CreateStackTrace = sqlite_CreateStackTrace drv cfg, ds_GetJob = sqlite_GetJob drv cfg,
      ds_ListCampaigns = sqlite_ListCampaigns drv cfg, ds_GetCampaignJobs = sqlite_GetCampaignJobs drv cfg,
      ds_UpdateCrashWithCampaign = sqlite_UpdateCrashWithCampaign drv cfg, ds_GetCrashGroup = sqlite_GetCrashGroup drv cfg,
      ds_UpdateCrashGroupCount = sqlite_UpdateCrashGroupCount drv cfg now, ds_LinkCrashToGroup = sqlite_LinkCrashToGroup drv cfg,
      ds_CreateCrashGroup = sqlite_CreateCrashGroup drv cfg, ds_ListCrashGroups = sqlite_ListCrashGroups drv cfg srt,
      ds_GetStackTrace = sqlite_GetStackTrace drv cfg\<rparr>"

section \<open>Trace formats\<close>

lemma rests_seqs_append: "rests (seqs (xs @ ys)) s = (\<Union>t \<in> rests (seqs xs) s. rests (seqs ys) t)"
  by (induction xs arbitrary: s) (simp_all add: seqs_def)

text \<open>Wherever the AddressSanitizer expression matches, the GDB expression, which is tried first, matches too.\<close>

lemma asan_after_gdb:
  "rx_find_all gdbPattern trace = [] \<Longrightarrow> rx_find_all asanPattern trace = []"
proof -
  assume "rx_find_all gdbPattern trace = []"
  then have "rx_find gdbPattern trace = None"
    using rx_find_progress [of "CHR ''#''" "[]" _ trace]
    by (subst (asm) rx_find_all.simps) (force simp: gdbPattern_def frame_head_def split: option.splits if_splits)
  then have "rx_find asanPattern trace = None"
  proof (rule rx_find_mono [rotated])
    fix v
    assume "rests asanPattern v \<noteq> {}"
    then obtain t u where "t \<in> rests (seqs frame_head) v" "u \<in> rests (seqs file_line) t"
      by (auto simp: asanPattern_def rests_seqs_append)
    moreover have "t \<in> rests (seqs [Opt (seqs [lit ''at'', PlusC rx_space])]) t" by (simp add: seqs_def)
    ultimately have "u \<in> rests gdbPattern v" unfolding gdbPattern_def rests_seqs_append by blast
    then show "rests gdbPattern v \<noteq> {}" by blast
  qed
  then show ?thesis by (simp add: rx_find_all.simps)
qed

text \<open>The branch of \<open>extractFrames\<close> for the AddressSanitizer format never runs: on every trace
  \<open>extractFrames\<close> is the function that tries the GDB expression, then the simple one, then the line format.\<close>

theorem asan_format_unreachable:
  "extractFrames trace =
     (if rx_find_all gdbPattern trace \<noteq> [] then map match_frame (rx_find_all gdbPattern trace)
      else if rx_find_all simplePattern trace \<noteq> [] then map match_frame (rx_find_all simplePattern trace)
      else List.map_filter line_frame (map trim_space (split_on (CHR 0x0A) trace)))"
  using asan_after_gdb [of trace] by (simp add: extractFrames_def Let_def)

text \<open>
  The class \<open>[^:]\<close> matches line ends: a frame without a source position takes the following lines, up to the
  next colon, as its file name, and the frames on them are lost.
\<close>

lemma frames_swallowed:
  "map (\<lambda>f. (sf_Function f, sf_File f, sf_Line f)) (extractFrames (''#0 0x4 in f (x+0x1)'' @ [CHR 0x0A] @ ''#1 0x5 in g b.c:7''))
     = [(''f'', ''(x+0x1)'' @ [CHR 0x0A] @ ''#1 0x5 in g b.c'', 7)]"
  by code_simp

section \<open>Groups\<close>

text \<open>the hash that groups crashes depends only on the functions and files of the first five frames;
  line numbers and deeper frames do not matter.\<close>

theorem group_hash_top_frames:
  "map (\<lambda>f. (sf_Function f, sf_File f)) (take 5 xs) = map (\<lambda>f. (sf_Function f, sf_File f)) (take 5 ys) \<Longrightarrow>
   computeStackHash sha xs topNFrames = computeStackHash sha ys topNFrames"
proof -
  assume eq: "map (\<lambda>f. (sf_Function f, sf_File f)) (take 5 xs) = map (\<lambda>f. (sf_Function f, sf_File f)) (take 5 ys)"
  have "map (\<lambda>f. sf_Function f @ ''@'' @ sf_File f) (take 5 zs)
     = map (\<lambda>(a, b). a @ ''@'' @ b) (map (\<lambda>f. (sf_Function f, sf_File f)) (take 5 zs))" for zs :: "StackFrame list"
    by simp
  then have "map (\<lambda>f. sf_Function f @ ''@'' @ sf_File f) (take 5 xs) = map (\<lambda>f. sf_Function f @ ''@'' @ sf_File f) (take 5 ys)"
    by (simp only: eq)
  moreover have "take (nat (if 5 > int (length zs) then int (length zs) else 5)) zs = take 5 zs" for zs :: "StackFrame list"
    by simp
  ultimately show ?thesis by (simp only: computeStackHash_def topNFrames_def Let_def)
qed

theorem group_hash_top_frames_witness:
  "computeStackHash id [\<lparr>sf_Function = ''f'', sf_File = ''a.c'', sf_Line = 1, sf_Offset = 0\<rparr>] topNFrames
     = computeStackHash id [\<lparr>sf_Function = ''f'', sf_File = ''a.c'', sf_Line = 2, sf_Offset = 0\<rparr>] topNFrames"
  by (rule group_hash_top_frames) simp

section \<open>The storage never reports a missing group\<close>

text \<open>The error of \<open>ExecuteWithRetry\<close> is never one of the sentinel errors the queries compare it with.\<close>

lemma ExecuteWithRetry_no_sentinel:
  "ExecuteWithRetry drv cfg fn s = (Some e, s') \<Longrightarrow> e \<noteq> ErrNoRows \<and> e \<noteq> ErrCrashGroupNotFound"
  using ExecuteWithRetry_not_NoRows [of drv cfg fn s e s']
    ExecuteWithRetry_not_sentinel [of drv cfg fn s e s' "''crash group not found''"]
  by (simp add: ErrCrashGroupNotFound_def)

lemma sqlite_reads_keep:
  "fst (snd (sqlite_GetJob drv cfg i w)) = fst w"
  "fst (snd (sqlite_ListCampaigns drv cfg w)) = fst w"
  "fst (snd (sqlite_GetCampaignJobs drv cfg c w)) = fst w"
  "fst (snd (sqlite_GetCrashGroup drv cfg c h w)) = fst w"
proof -
  show "fst (snd (sqlite_GetJob drv cfg i w)) = fst w"
    using reads_keep(1) [of drv cfg "\<lambda>t. List.find (\<lambda>j. j = i) (dt_jobs t)" "(w, None)"]
    by (auto simp: sqlite_GetJob_def split: prod.splits option.splits)
  show "fst (snd (sqlite_ListCampaigns drv cfg w)) = fst w"
    using reads_keep(2) [of drv cfg dt_campaigns "(w, [])"]
    by (auto simp: sqlite_ListCampaigns_def split: prod.splits option.splits)
  show "fst (snd (sqlite_GetCampaignJobs drv cfg c w)) = fst w"
    using reads_keep(2) [of drv cfg "\<lambda>t. map snd (filter (\<lambda>(c', j). c' = c \<and> j \<in> set (dt_jobs t)) (dt_campaign_jobs t))" "(w, [])"]
    by (auto simp: sqlite_GetCampaignJobs_def split: prod.splits option.splits)
  show "fst (snd (sqlite_GetCrashGroup drv cfg c h w)) = fst w"
    using reads_keep(1) [of drv cfg "select_group c h" "(w, None)"]
    by (auto simp: sqlite_GetCrashGroup_def split: prod.splits option.splits)
qed

text \<open>The IDs of the stored groups.\<close>

definition group_ids :: "DedupTables \<Rightarrow> string list" where
  "group_ids t = map cg_ID (dt_crash_groups t)"

lemma sqlite_writes_keep_ids:
  "group_ids (fst (snd (sqlite_CreateStackTrace drv cfg i st w))) = group_ids (fst w)"
  "group_ids (fst (snd (sqlite_UpdateCrashGroupCount drv cfg now i w))) = group_ids (fst w)"
  "group_ids (fst (snd (sqlite_LinkCrashToGroup drv cfg i g w))) = group_ids (fst w)"
  "group_ids (fst (snd (sqlite_UpdateCrashWithCampaign drv cfg i c w))) = group_ids (fst w)"
proof -
  let ?P = "\<lambda>t. group_ids t = group_ids (fst w)"
  show "group_ids (fst (snd (sqlite_CreateStackTrace drv cfg i st w))) = group_ids (fst w)"
    unfolding sqlite_CreateStackTrace_def
    by (rule retry_exec_keeps(1) [where P = ?P]) (auto simp: insert_trace_def group_ids_def split: if_splits)
  show "group_ids (fst (snd (sqlite_UpdateCrashGroupCount drv cfg now i w))) = group_ids (fst w)"
    unfolding sqlite_UpdateCrashGroupCount_def
    by (rule retry_exec_keeps(2) [where P = ?P]) (auto simp: count_group_def group_ids_def comp_def if_distrib [of cg_ID] cong: if_cong)
  show "group_ids (fst (snd (sqlite_LinkCrashToGroup drv cfg i g w))) = group_ids (fst w)"
    unfolding sqlite_LinkCrashToGroup_def
    by (rule retry_exec_keeps(2) [where P = ?P]) (auto simp: update_crash_def group_ids_def)
  show "group_ids (fst (snd (sqlite_UpdateCrashWithCampaign drv cfg i c w))) = group_ids (fst w)"
    unfolding sqlite_UpdateCrashWithCampaign_def
    by (rule retry_exec_keeps(2) [where P = ?P]) (auto simp: update_crash_def group_ids_def)
qed

text \<open>A lookup never says that the group does not exist: it returns a stored group or another error.\<close>

lemma sqlite_GetCrashGroup_cases:
  obtains g w' where "sqlite_GetCrashGroup drv cfg c h w = ((Some g, None), w')" "g \<in> set (dt_crash_groups (fst w))"
      "cg_CampaignID g = c" "cg_StackHash g = h"
  | e w' where "sqlite_GetCrashGroup drv cfg c h w = ((None, Some e), w')" "e \<noteq> ErrCrashGroupNotFound"
proof -
  let ?q = "db_row drv (select_group c h)"
  have r: "case ExecuteWithRetry drv cfg ?q (w, None) of
      (None, ((t', _), x')) \<Rightarrow> x' = select_group c h (fst w) \<and> x' \<noteq> None | (Some _, ((t', _), x')) \<Rightarrow> t' = fst w \<and> x' = None"
  proof (rule ExecuteWithRetry_rule [where P = "\<lambda>t x. t = fst w \<and> x = None"
        and Q = "\<lambda>t x. x = select_group c h (fst w) \<and> x \<noteq> None"])
    fix t n and x :: "CrashGroup option"
    assume "t = fst w \<and> x = None"
    then show "case ?q ((t, n), x) of (None, ((t', _), x')) \<Rightarrow> x' = select_group c h (fst w) \<and> x' \<noteq> None
        | (Some _, ((t', _), x')) \<Rightarrow> t' = fst w \<and> x' = None"
      by (auto simp: db_row_def split: option.splits)
  qed simp
  obtain eo t n x where e: "ExecuteWithRetry drv cfg ?q (w, None) = (eo, ((t, n), x))" by (metis prod.exhaust)
  show thesis
  proof (cases eo)
    case None
    then obtain g where g: "select_group c h (fst w) = Some g" "x = Some g" using e r by auto
    then have "g \<in> set (dt_crash_groups (fst w))" "cg_CampaignID g = c" "cg_StackHash g = h"
      by (auto simp: select_group_def find_Some_iff)
    then show thesis using that(1) [of g "(t, n)"] e None g by (simp add: sqlite_GetCrashGroup_def)
  next
    case (Some a)
    then show thesis
      using that(2) [of a "(t, n)"] ExecuteWithRetry_no_sentinel [of drv cfg ?q "(w, None)" a] e
      by (simp add: sqlite_GetCrashGroup_def)
  qed
qed

lemma find_campaign_keeps:
  "fst (snd (find_campaign (sqlite_storage drv cfg now srt) j cs w)) = fst w"
proof (induction cs arbitrary: w)
  case (Cons c cs)
  then show ?case
    using sqlite_reads_keep(3) [of drv cfg c w]
    by (auto simp: sqlite_storage_def split: prod.splits sum.splits)
qed simp

lemma group_crash_sqlite:
  assumes "group_crash (sqlite_storage drv cfg now srt) uuid c st crash w = ((g, u, e), w')"
  shows "group_ids (fst w') = group_ids (fst w) \<and> (g = None \<or> cg_ID (the g) \<in> set (group_ids (fst w)) \<and> \<not> u)"
proof (rule sqlite_GetCrashGroup_cases [of drv cfg c "st_TopNHash st" w])
  fix h w1
  assume get: "sqlite_GetCrashGroup drv cfg c (st_TopNHash st) w = ((Some h, None), w1)" and h: "h \<in> set (dt_crash_groups (fst w))"
  have "fst w1 = fst w" using sqlite_reads_keep(4) [of drv cfg c "st_TopNHash st" w] get by simp
  then have "group_ids (fst w') = group_ids (fst w)"
    using assms get by (auto simp: group_crash_def sqlite_storage_def Let_def sqlite_writes_keep_ids)
  moreover have "g = Some h" "\<not> u" using assms get by (auto simp: group_crash_def sqlite_storage_def Let_def)
  ultimately show ?thesis using h by (simp add: group_ids_def)
next
  fix e1 w1
  assume get: "sqlite_GetCrashGroup drv cfg c (st_TopNHash st) w = ((None, Some e1), w1)" and "e1 \<noteq> ErrCrashGroupNotFound"
  moreover have "fst w1 = fst w" using sqlite_reads_keep(4) [of drv cfg c "st_TopNHash st" w] get by simp
  ultimately show ?thesis using assms by (auto simp: group_crash_def sqlite_storage_def)
qed

lemma ProcessCrash_sqlite:
  assumes "ProcessCrash (sqlite_storage drv cfg now srt) sha uuid crash w = ((g, u, e), w')"
  shows "group_ids (fst w') = group_ids (fst w) \<and> (g = None \<or> cg_ID (the g) \<in> set (group_ids (fst w)) \<and> \<not> u)"
proof (cases "dedup_parseStackTrace sha (crr_StackTrace crash)")
  case (Inl a)
  then show ?thesis using assms by (simp add: ProcessCrash_def)
next
  case (Inr st)
  let ?S = "sqlite_storage drv cfg now srt"
  let ?w1 = "snd (sqlite_CreateStackTrace drv cfg (crr_ID crash) st w)"
  obtain r2 w2 where 2: "sqlite_GetJob drv cfg (crr_JobID crash) ?w1 = (r2, w2)" by (meson surj_pair)
  obtain r3 w3 where 3: "sqlite_ListCampaigns drv cfg w2 = (r3, w3)" by (meson surj_pair)
  have ids: "group_ids (fst w3) = group_ids (fst w)" "group_ids (fst w2) = group_ids (fst w)"
    using sqlite_reads_keep(1) [of drv cfg "crr_JobID crash" ?w1] sqlite_reads_keep(2) [of drv cfg w2] 2 3
      sqlite_writes_keep_ids(1) [of drv cfg "crr_ID crash" st w] by simp_all
  show ?thesis
  proof (cases "(\<exists>j. r2 = Inr j) \<and> (\<exists>cs. r3 = Inr cs)")
    case False
    then show ?thesis using assms Inr 2 3 ids by (cases r2; cases r3) (auto simp: ProcessCrash_def sqlite_storage_def)
  next
    case True
    then obtain j cs where jc: "r2 = Inr j" "r3 = Inr cs" by blast
    obtain c w4 where 4: "find_campaign ?S j cs w3 = (c, w4)" by (meson surj_pair)
    let ?w5 = "snd (sqlite_UpdateCrashWithCampaign drv cfg (crr_ID crash) c w4)"
    have w4: "group_ids (fst w4) = group_ids (fst w)"
      using find_campaign_keeps [of drv cfg now srt j cs w3] 4 ids by simp
    have w5: "group_ids (fst ?w5) = group_ids (fst w)" using sqlite_writes_keep_ids(4) w4 by simp
    have "ProcessCrash ?S sha uuid crash w = (if c = '''' then ((None, True, None), w4) else group_crash ?S uuid c st crash ?w5)"
      using Inr 2 3 4 jc by (simp add: ProcessCrash_def) (simp add: sqlite_storage_def)
    then show ?thesis using assms w4 w5 group_crash_sqlite [of drv cfg now srt uuid c st crash ?w5 g u e w'] by (auto split: if_splits)
  qed
qed

text \<open>A sequence of crashes, each with the next UUID.\<close>

fun process_all ::
    "'s DedupStorage \<Rightarrow> (string \<Rightarrow> string) \<Rightarrow> (string \<times> CrashResult) list \<Rightarrow> 's \<Rightarrow> (CrashGroup option \<times> bool \<times> error option) list \<times> 's" where
  "process_all S sha [] s = ([], s)"
| "process_all S sha ((uuid, crash) # cs) s =
     (let (r, s1) = ProcessCrash S sha uuid crash s; (rs, s2) = process_all S sha cs s1 in (r # rs, s2))"

text \<open>C19: on the SQLite storage no crash group is ever created, whatever the driver does: a missing group is
  reported with the sentinel wrapped by the retry layer, which the comparisons with \<open>sql.ErrNoRows\<close> and
  \<open>ErrCrashGroupNotFound\<close> do not recognise. The stored groups keep their IDs through any sequence of crashes,
  and with an empty table no crash is ever found to be a duplicate.\<close>

theorem sqlite_never_creates_groups:
  "process_all (sqlite_storage drv cfg now srt) sha crashes w = (rs, w') \<Longrightarrow>
   group_ids (fst w') = group_ids (fst w) \<and> (group_ids (fst w) = [] \<longrightarrow> (\<forall>(g, u, e) \<in> set rs. g = None))"
proof (induction crashes arbitrary: w rs)
  case (Cons c cs)
  obtain uuid crash where c: "c = (uuid, crash)" by fastforce
  obtain g u e w1 where p: "ProcessCrash (sqlite_storage drv cfg now srt) sha uuid crash w = ((g, u, e), w1)" by (metis prod.exhaust)
  obtain rs1 w2 where q: "process_all (sqlite_storage drv cfg now srt) sha cs w1 = (rs1, w2)" by (meson surj_pair)
  have "rs = (g, u, e) # rs1" "w' = w2" using Cons.prems c p q by simp_all
  then show ?case using Cons.IH [of w1 rs1] q ProcessCrash_sqlite [OF p] by auto
qed simp

definition dedup_tables :: DedupTables where
  "dedup_tables = \<lparr>dt_jobs = [''j''], dt_campaigns = [''c''], dt_campaign_jobs = [(''c'', ''j'')], dt_crashes = [(''x'', '''', '''')],
     dt_crash_groups = [], dt_stack_traces = []\<rparr>"

definition sample_crash :: CrashResult where
  "sample_crash = \<lparr>crr_ID = ''x'', crr_JobID = ''j'', crr_Type = ''segfault'', crr_Signal = 11, crr_Timestamp = 7, crr_Output = '''',
     crr_StackTrace = ''f at a.c:1''\<rparr>"

theorem sqlite_never_creates_groups_witness:
  "group_ids (fst (snd (process_all (sqlite_storage healthy sample_cfg 0 id) id [(''u'', sample_crash)] (dedup_tables, 0)))) = []"
proof -
  obtain rs w' where "process_all (sqlite_storage healthy sample_cfg 0 id) id [(''u'', sample_crash)] (dedup_tables, 0) = (rs, w')"
    by (metis prod.exhaust)
  from sqlite_never_creates_groups [OF this] this show ?thesis by (simp add: group_ids_def dedup_tables_def)
qed

section \<open>Duplicates of a stored group\<close>

text \<open>On a driver without faults, a crash whose group is stored is reported as a duplicate of it; the
  group's count rises by one and the crash is linked to the group, while everything else in the tables
  stays.\<close>

theorem duplicate_counted:
  assumes "\<And>n. drv_ctx drv n = None" and "\<And>n. drv_fault drv n = None" and "0 \<le> dbc_MaxRetries cfg"
    and "select_group c (st_TopNHash st) t = Some g" and "crr_ID crash \<in> fst ` set (dt_crashes t)"
  shows "\<exists>n'. group_crash (sqlite_storage drv cfg now srt) uuid c st crash (t, n) = ((Some g, False, None),
     (t\<lparr>dt_crash_groups := map (\<lambda>h. if cg_ID h = cg_ID g then h\<lparr>cg_Count := cg_Count h + 1, cg_LastSeen := now\<rparr> else h) (dt_crash_groups t),
        dt_crashes := map (\<lambda>(i, k). (i, if i = crr_ID crash then (fst k, cg_ID g) else k)) (dt_crashes t)\<rparr>, n'))"
proof -
  let ?t1 = "t\<lparr>dt_crash_groups := map (\<lambda>h. if cg_ID h = cg_ID g then h\<lparr>cg_Count := cg_Count h + 1, cg_LastSeen := now\<rparr> else h) (dt_crash_groups t)\<rparr>"
  have get: "sqlite_GetCrashGroup drv cfg c (st_TopNHash st) (t, n) = ((Some g, None), (t, n + 2))"
    using ExecuteWithRetry_first [of drv n cfg "db_row drv (select_group c (st_TopNHash st))" t None "((t, n + 2), Some g)"] assms
    by (simp add: sqlite_GetCrashGroup_def db_row_def)
  have "g \<in> set (dt_crash_groups t)" using assms(4) by (auto simp: select_group_def find_Some_iff)
  then have gs: "filter (\<lambda>h. cg_ID h = cg_ID g) (dt_crash_groups t) \<noteq> []" by (auto simp: filter_empty_conv)
  have upd: "sqlite_UpdateCrashGroupCount drv cfg now (cg_ID g) (t, n + 2) = (None, (?t1, n + 4))"
    using ExecuteWithRetry_first [of drv "n + 2" cfg "\<lambda>s. exec_one ErrCrashGroupNotFound (db_exec drv (count_group now (cg_ID g)) s)" t "()"
        "((?t1, n + 4), ())"] assms(1-3) gs
    by (simp add: sqlite_UpdateCrashGroupCount_def retry_void_def exec_one_def db_exec_def count_group_def eval_nat_numeral)
  have cs: "filter (\<lambda>(i, _). i = crr_ID crash) (dt_crashes ?t1) \<noteq> []" using assms(5) by (auto simp: filter_empty_conv)
  let ?t2 = "?t1\<lparr>dt_crashes := map (\<lambda>(i, k). (i, if i = crr_ID crash then (fst k, cg_ID g) else k)) (dt_crashes t)\<rparr>"
  have lnk: "sqlite_LinkCrashToGroup drv cfg (crr_ID crash) (cg_ID g) (?t1, n + 4) = (None, (?t2, n + 6))"
    using ExecuteWithRetry_first [of drv "n + 4" cfg
        "\<lambda>s. exec_one (crash_not_found (crr_ID crash)) (db_exec drv (update_crash (\<lambda>(c, _). (c, cg_ID g)) (crr_ID crash)) s)" ?t1 "()"
        "((?t2, n + 6), ())"] assms(1-3) cs
    by (simp add: sqlite_LinkCrashToGroup_def retry_void_def exec_one_def db_exec_def update_crash_def case_prod_unfold eval_nat_numeral)
  have "group_crash (sqlite_storage drv cfg now srt) uuid c st crash (t, n) = ((Some g, False, None), (?t2, n + 6))"
    using get upd lnk by (simp add: group_crash_def sqlite_storage_def)
  then show ?thesis by blast
qed

definition sample_group :: CrashGroup where
  "sample_group = \<lparr>cg_ID = ''group-u'', cg_CampaignID = ''c'', cg_StackHash = ''f@a.c'', cg_FirstSeen = 1, cg_LastSeen = 1, cg_Count = 1,
     cg_Severity = ''high'', cg_StackFrames = [], cg_ExampleCrash = ''w''\<rparr>"

definition sample_st :: StackTrace where
  "sample_st = \<lparr>st_Frames = [], st_TopNHash = ''f@a.c'', st_FullHash = ''f@a.c'', st_RawTrace = ''''\<rparr>"

theorem duplicate_counted_witness:
  "fst (group_crash (sqlite_storage healthy sample_cfg 9 id) ''v'' ''c'' sample_st sample_crash
      (dedup_tables\<lparr>dt_crash_groups := [sample_group]\<rparr>, 0)) = (Some sample_group, False, None)"
proof -
  have "select_group ''c'' (st_TopNHash sample_st) (dedup_tables\<lparr>dt_crash_groups := [sample_group]\<rparr>) = Some sample_group"
    by (simp add: select_group_def sample_st_def sample_group_def)
  moreover have "crr_ID sample_crash \<in> fst ` set (dt_crashes (dedup_tables\<lparr>dt_crash_groups := [sample_group]\<rparr>))"
    by (simp add: sample_crash_def dedup_tables_def)
  ultimately show ?thesis
    using duplicate_counted [of healthy sample_cfg "''c''" sample_st "dedup_tables\<lparr>dt_crash_groups := [sample_group]\<rparr>" sample_group
        sample_crash 9 id "''v''" 0]
    by (auto simp: healthy_def sample_cfg_def)
qed

text \<open>
  A list that is filled inside the retried function keeps the rows of a broken-off attempt: they occur
  twice in the result.
\<close>

lemma rows_repeated_on_retry:
  assumes "\<And>n. drv_ctx drv n = None" and "\<And>n. drv_fault drv n = None" and "1 \<le> dbc_MaxRetries cfg"
    and "drv_rows drv (n + 1) = Some (k, SqliteError m 5 0)" and "drv_rows drv (n + 4) = None"
  shows "fst (sqlite_ListCampaigns drv cfg (t, n)) = Inr (take k (dt_campaigns t) @ dt_campaigns t)"
  using assms unfolding sqlite_ListCampaigns_def ExecuteWithRetry_def WithRetryVoid_def WithRetry_def
  by (subst WithRetry_loop.simps, simp add: drv_ctxErr_def db_rows_def isRetryable_def isSQLiteRetryable_def)
     (subst WithRetry_loop.simps, simp add: drv_ctxErr_def db_rows_def eval_nat_numeral)

end
