(* ===== verification/Job_Outcome.thy ===== *)
theory Job_Outcome
  imports Retry
begin

text \<open>
  The classification of finished jobs on the bot, \<open>pkg/bot/job_status_classifier.go\<close>. Log lines are left
  out. \<open>mentions pats s\<close> (\<open>Retry\<close>) says that one of the patterns occurs in the text.
\<close>

record JobOutcome =
  jo_Success :: bool
  jo_Message :: string
  jo_Reason :: string

definition expectedSignals :: "string list" where
  "expectedSignals = [''signal: killed'', ''signal: terminated'', ''signal: interrupt'', ''sigterm'', ''sigint'', ''cancelled'',
     ''context deadline exceeded'', ''timeout'', ''duration reached'', ''user requested'']"

fun signal_loop :: "string list \<Rightarrow> string \<Rightarrow> duration \<Rightarrow> duration \<Rightarrow> bool" where
  "signal_loop [] errLower d expected = False"
| "signal_loop (signal # rest) errLower d expected =
     (if str_contains errLower signal then
        (if expected > 0 \<and> d \<ge> wrap64 (expected - 5 * Second) then True else True)
      else signal_loop rest errLower d expected)"

definition isExpectedTermination :: "string \<Rightarrow> duration \<Rightarrow> duration \<Rightarrow> bool" where
  "isExpectedTermination errLower d expected =
     (if signal_loop expectedSignals errLower d expected then True
      else if str_contains errLower ''afl++'' \<and> str_contains errLower ''completed'' then True
      else False)"

definition crashIndicators :: "string list" where
  "crashIndicators = [''segmentation fault'', ''sigsegv'', ''sigabrt'', ''sigbus'', ''sigfpe'', ''sigill'', ''core dumped'', ''assertion failed'']"

fun indicator_loop :: "string list \<Rightarrow> string \<Rightarrow> duration \<Rightarrow> bool" where
  "indicator_loop [] errLower d = False"
| "indicator_loop (indicator # rest) errLower d =
     (if str_contains errLower indicator \<and> (d < 5 * Second \<or> str_contains errLower ''libfuzzer'' \<and> d < Second) then True
      else indicator_loop rest errLower d)"

definition isHarnessCrash :: "string \<Rightarrow> duration \<Rightarrow> bool" where
  "isHarnessCrash errLower d \<longleftrightarrow> indicator_loop crashIndicators errLower d \<or> str_contains errLower ''no such file'' \<or>
     str_contains errLower ''permission denied'' \<or> str_contains errLower ''cannot execute''"

definition ClassifyJobOutcome :: "error option \<Rightarrow> duration \<Rightarrow> int \<Rightarrow> duration \<Rightarrow> JobOutcome" where
  "ClassifyJobOutcome executionError d crashesFound expected =
     (if crashesFound > 0 then
        \<lparr>jo_Success = True, jo_Message = ''Fuzzing completed successfully - found '' @ itoa crashesFound @ '' crashes'', jo_Reason = ''crashes_found''\<rparr>
      else case executionError of
        None \<Rightarrow> \<lparr>jo_Success = True, jo_Message = ''Fuzzing completed successfully'', jo_Reason = ''clean_exit''\<rparr>
      | Some e \<Rightarrow>
          let errLower = to_lower (err_Error e)
          in if isExpectedTermination errLower d expected then
               \<lparr>jo_Success = True, jo_Message = ''Fuzzing completed (duration reached)'', jo_Reason = ''expected_termination''\<rparr>
             else if isHarnessCrash errLower d then
               \<lparr>jo_Success = False, jo_Message = ''Fuzzer harness failed: '' @ err_Error e, jo_Reason = ''harness_crash''\<rparr>
             else \<lparr>jo_Success = False, jo_Message = ''Job failed: '' @ err_Error e, jo_Reason = ''unknown_error''\<rparr>)"

lemma signal_loop_mentions: "signal_loop pats s d expected = mentions pats s"
  by (induction pats) (simp_all add: mentions_def)

lemma indicator_loop_mentions: "indicator_loop pats s d \<longleftrightarrow> mentions pats s \<and> d < 5 * Second"
  by (induction pats) (auto simp: mentions_def Second_def)

text \<open>A finished job counts as successful exactly if it found crashes, ended without an error, or ended
  with an error whose text names a termination signal, a timeout or a request to stop (or the completion of
  AFL++); how long it ran and how long it should have run plays no role. Otherwise the reason is a harness
  crash if the text names a crash and the job ran for less than five seconds, or if the binary could not be
  run.\<close>

theorem job_outcome_exact:
  "let r = ClassifyJobOutcome eo d n expected;
       stopped = (\<lambda>e. mentions expectedSignals (to_lower (err_Error e)) \<or>
         str_contains (to_lower (err_Error e)) ''afl++'' \<and> str_contains (to_lower (err_Error e)) ''completed'');
       broken = (\<lambda>e. mentions crashIndicators (to_lower (err_Error e)) \<and> d < 5 * Second \<or>
         mentions [''no such file'', ''permission denied'', ''cannot execute''] (to_lower (err_Error e)))
   in (jo_Success r \<longleftrightarrow> 0 < n \<or> eo = None \<or> stopped (the eo)) \<and>
      (jo_Reason r = ''harness_crash'' \<longleftrightarrow> \<not> jo_Success r \<and> broken (the eo)) \<and>
      (jo_Reason r = ''unknown_error'' \<longleftrightarrow> \<not> jo_Success r \<and> \<not> broken (the eo))"
  by (cases eo) (auto simp: ClassifyJobOutcome_def Let_def isExpectedTermination_def isHarnessCrash_def
      signal_loop_mentions indicator_loop_mentions mentions_def)

text \<open>
  The error of a cancelled context (\<open>context.Canceled\<close>) is spelled with one \<open>l\<close>: a job that is stopped by
  cancelling its context counts as failed for an unknown reason.
\<close>

lemma cancelled_context_fails:
  "jo_Reason (ClassifyJobOutcome (Some (ErrorString ''context canceled'')) d 0 expected) = ''unknown_error''"
proof -
  have "\<not> mentions expectedSignals (to_lower ''context canceled'')" "\<not> mentions crashIndicators (to_lower ''context canceled'')"
    "\<not> str_contains (to_lower ''context canceled'') ''afl++''"
    "\<not> mentions [''no such file'', ''permission denied'', ''cannot execute''] (to_lower ''context canceled'')"
    unfolding mentions_def by code_simp+
  then show ?thesis
    by (simp add: ClassifyJobOutcome_def isExpectedTermination_def isHarnessCrash_def signal_loop_mentions indicator_loop_mentions mentions_def)
qed

end
