(* ===== verification/SSE_Events.thy ===== *)
theory SSE_Events
  imports Go_Regexp
begin

text \<open>
  The server-sent events of \<open>pkg/api/v1/sse\<close>: the events (\<open>events.go\<close>), the filters that select the events
  of a client (\<open>filters.go\<close>) and the ring buffer of recent events (\<open>EventHistory\<close> of \<open>types.go\<close>).

  \<^item> A UUID is its canonical text, which is all the code compares. The data of an event is a possibly nil
    map; \<open>marshal\<close> is \<open>json.Marshal\<close> on it.
  \<^item> \<open>compile\<close> is \<open>regexp.Compile\<close>: an error, or the test \<open>MatchString\<close> of the compiled expression.
  \<^item> The rendering of a filter for log lines (\<open>String\<close>) and the constructors of events that carry
    floating-point data are not modelled.
\<close>

section \<open>Events\<close>

type_synonym data = "(string \<rightharpoonup> any) option"

record SSE_BaseEvent =
  be_ID :: string
  be_Type :: string
  be_Timestamp :: time
  be_Data :: data

datatype Event =
    PlainEvent SSE_BaseEvent
  | BotEvent SSE_BaseEvent (bot_ev_BotID: string) (bot_ev_BotName: string) (bot_ev_CampaignID: "string option")
  | JobEvent SSE_BaseEvent (job_ev_JobID: string) (job_ev_BotID: "string option") (job_ev_CampaignID: string) (job_ev_Status: string)
  | CampaignEvent SSE_BaseEvent (camp_ev_CampaignID: string) (camp_ev_State: string)
  | CorpusEvent SSE_BaseEvent (corp_ev_CorpusID: "string option") (corp_ev_JobID: "string option")
      (corp_ev_CampaignID: "string option") (corp_ev_Operation: string)
  | CrashEvent SSE_BaseEvent (crash_ev_CrashID: string) (crash_ev_JobID: string) (crash_ev_CampaignID: string)
      (crash_ev_CrashType: string) (crash_ev_Severity: string)
  | SystemEvent SSE_BaseEvent (sys_ev_Component: string) (sys_ev_Severity: string)

fun event_base :: "Event \<Rightarrow> SSE_BaseEvent" where
  "event_base (PlainEvent b) = b"
| "event_base (BotEvent b _ _ _) = b"
| "event_base (JobEvent b _ _ _ _) = b"
| "event_base (CampaignEvent b _ _) = b"
| "event_base (CorpusEvent b _ _ _ _) = b"
| "event_base (CrashEvent b _ _ _ _ _) = b"
| "event_base (SystemEvent b _ _) = b"

definition event_GetID :: "Event \<Rightarrow> string" where
  "event_GetID e = be_ID (event_base e)"

definition event_GetType :: "Event \<Rightarrow> string" where
  "event_GetType e = be_Type (event_base e)"

definition quote :: "string \<Rightarrow> string" where
  "quote s = [CHR 0x22] @ s @ [CHR 0x22]"

definition event_GetData :: "(data \<Rightarrow> string result) \<Rightarrow> Event \<Rightarrow> string" where
  "event_GetData marshal e =
     (case marshal (be_Data (event_base e)) of
        Inr s \<Rightarrow> s
      | Inl err \<Rightarrow> ''{'' @ quote ''error'' @ '': '' @ quote (''failed to marshal event data: '' @ err_Error err) @ ''}'')"

text \<open>The identity of a new event: the reading of the clock, wrapped to 64 bits by \<open>UnixNano\<close>, and a UUID.\<close>

definition generateEventID :: "time \<Rightarrow> string \<Rightarrow> string" where
  "generateEventID now uuid = ''evt_'' @ itoa (wrap64 now) @ ''_'' @ take 8 uuid"

definition NewBaseEvent :: "time \<times> string \<times> time \<Rightarrow> string \<Rightarrow> data \<Rightarrow> SSE_BaseEvent" where
  "NewBaseEvent = (\<lambda>(now1, uuid, now2) eventType d.
     \<lparr>be_ID = generateEventID now1 uuid, be_Type = eventType, be_Timestamp = now2, be_Data = d\<rparr>)"

text \<open>The loop that copies \<open>data\<close> over the given entries; ranging over a nil map does nothing.\<close>

definition merge_data :: "(string \<rightharpoonup> any) \<Rightarrow> data \<Rightarrow> data" where
  "merge_data base d = Some (base ++ (case d of None \<Rightarrow> Map.empty | Some m \<Rightarrow> m))"

definition NewBotEvent :: "time \<times> string \<times> time \<Rightarrow> string \<Rightarrow> string \<Rightarrow> data \<Rightarrow> Event" where
  "NewBotEvent fresh eventType botID d =
     BotEvent (NewBaseEvent fresh eventType (merge_data [''bot_id'' \<mapsto> AString botID] d)) botID '''' None"

definition NewJobEvent :: "time \<times> string \<times> time \<Rightarrow> string \<Rightarrow> string \<Rightarrow> string \<Rightarrow> data \<Rightarrow> Event" where
  "NewJobEvent fresh eventType jobID campaignID d =
     JobEvent (NewBaseEvent fresh eventType
       (merge_data [''job_id'' \<mapsto> AString jobID, ''campaign_id'' \<mapsto> AString campaignID] d)) jobID None campaignID ''''"

definition NewCampaignEvent :: "time \<times> string \<times> time \<Rightarrow> string \<Rightarrow> string \<Rightarrow> data \<Rightarrow> Event" where
  "NewCampaignEvent fresh eventType campaignID d =
     CampaignEvent (NewBaseEvent fresh eventType (merge_data [''campaign_id'' \<mapsto> AString campaignID] d)) campaignID ''''"

definition NewCorpusEvent :: "time \<times> string \<times> time \<Rightarrow> string \<Rightarrow> data \<Rightarrow> Event" where
  "NewCorpusEvent fresh eventType d = CorpusEvent (NewBaseEvent fresh eventType d) None None None ''''"

definition NewCrashEvent :: "time \<times> string \<times> time \<Rightarrow> string \<Rightarrow> string \<Rightarrow> string \<Rightarrow> string \<Rightarrow> data \<Rightarrow> Event" where
  "NewCrashEvent fresh eventType crashID jobID campaignID d =
     CrashEvent (NewBaseEvent fresh eventType
       (merge_data [''crash_id'' \<mapsto> AString crashID, ''job_id'' \<mapsto> AString jobID, ''campaign_id'' \<mapsto> AString campaignID] d))
       crashID jobID campaignID '''' ''''"

definition NewSystemEvent :: "time \<times> string \<times> time \<Rightarrow> string \<Rightarrow> data \<Rightarrow> Event" where
  "NewSystemEvent fresh eventType d = SystemEvent (NewBaseEvent fresh eventType d) '''' ''''"

definition CreateBotRegisteredEvent :: "time \<times> string \<times> time \<Rightarrow> string \<Rightarrow> string \<Rightarrow> string list \<Rightarrow> Event" where
  "CreateBotRegisteredEvent fresh botID botName capabilities =
     NewBotEvent fresh ''bot.registered'' botID
       (Some [''bot_name'' \<mapsto> AString botName, ''capabilities'' \<mapsto> AList (map AString capabilities)])"

definition CreateBotStatusChangedEvent :: "time \<times> string \<times> time \<Rightarrow> string \<Rightarrow> string \<Rightarrow> string \<Rightarrow> Event" where
  "CreateBotStatusChangedEvent fresh botID oldStatus newStatus =
     NewBotEvent fresh ''bot.status_changed'' botID
       (Some [''old_status'' \<mapsto> AString oldStatus, ''new_status'' \<mapsto> AString newStatus])"

definition CreateCrashDetectedEvent ::
    "time \<times> string \<times> time \<Rightarrow> string \<Rightarrow> string \<Rightarrow> string \<Rightarrow> string \<Rightarrow> string \<Rightarrow> Event" where
  "CreateCrashDetectedEvent fresh crashID jobID campaignID crashType stackTrace =
     NewCrashEvent fresh ''crash.detected'' crashID jobID campaignID
       (Some [''crash_type'' \<mapsto> AString crashType, ''stack_trace'' \<mapsto> AString stackTrace])"

definition CreateCampaignStateChangeEvent :: "time \<times> string \<times> time \<Rightarrow> string \<Rightarrow> string \<Rightarrow> string \<Rightarrow> Event" where
  "CreateCampaignStateChangeEvent fresh campaignID oldState newState =
     NewCampaignEvent fresh ''campaign.updated'' campaignID
       (Some [''old_state'' \<mapsto> AString oldState, ''new_state'' \<mapsto> AString newState])"

definition CreateCorpusSyncEvent :: "time \<times> string \<times> time \<Rightarrow> string \<Rightarrow> string \<Rightarrow> string \<Rightarrow> int \<Rightarrow> Event" where
  "CreateCorpusSyncEvent fresh jobID campaignID operation n =
     (let d = Some [''job_id'' \<mapsto> AString jobID, ''campaign_id'' \<mapsto> AString campaignID,
         ''operation'' \<mapsto> AString operation, ''count'' \<mapsto> AInt n]
      in case NewCorpusEvent fresh ''corpus.sync'' d of
           CorpusEvent b c _ _ _ \<Rightarrow> CorpusEvent b c (Some jobID) (Some campaignID) operation
         | e \<Rightarrow> e)"

definition CreateSystemAlertEvent :: "time \<times> string \<times> time \<Rightarrow> string \<Rightarrow> string \<Rightarrow> string \<Rightarrow> data \<Rightarrow> Event" where
  "CreateSystemAlertEvent fresh component severity message details =
     (let d = merge_data [''component'' \<mapsto> AString component, ''severity'' \<mapsto> AString severity, ''message'' \<mapsto> AString message] details
      in case NewSystemEvent fresh ''system.alert'' d of
           SystemEvent b _ _ \<Rightarrow> SystemEvent b component severity
         | e \<Rightarrow> e)"

section \<open>Filters\<close>

datatype Filter =
    TypeFilter "string list"
  | ResourceFilter string string
  | PatternFilter string "string \<Rightarrow> bool"
  | SeverityFilter string "string \<rightharpoonup> int"
  | CompoundFilter "Filter list" string
  | AllowAllFilter

definition upper_char :: "char \<Rightarrow> char" where
  "upper_char c = (let n = of_char c :: nat in if 97 \<le> n \<and> n \<le> 122 then char_of (n - 32) else c)"

definition to_upper :: "string \<Rightarrow> string" where
  "to_upper s = map upper_char s"

text \<open>The keys of the map \<open>EventTypes\<close>.\<close>

definition NewTypeFilter :: "string list \<Rightarrow> Filter" where
  "NewTypeFilter eventTypes = TypeFilter (remdups eventTypes)"

definition NewResourceFilter :: "string \<Rightarrow> string \<Rightarrow> Filter" where
  "NewResourceFilter resourceType resourceID = ResourceFilter resourceType resourceID"

definition NewPatternFilter :: "(string \<Rightarrow> (string \<Rightarrow> bool) result) \<Rightarrow> string \<Rightarrow> Filter result" where
  "NewPatternFilter compile pattern = (case compile pattern of Inl err \<Rightarrow> Inl err | Inr p \<Rightarrow> Inr (PatternFilter pattern p))"

definition severityLevels :: "string \<rightharpoonup> int" where
  "severityLevels = map_of [(''debug'', 0), (''info'', 1), (''warning'', 2), (''error'', 3), (''critical'', 4)]"

definition NewSeverityFilter :: "string \<Rightarrow> Filter" where
  "NewSeverityFilter minSeverity = SeverityFilter minSeverity severityLevels"

definition NewCompoundFilter :: "string \<Rightarrow> Filter list \<Rightarrow> Filter" where
  "NewCompoundFilter logic filters = CompoundFilter filters (to_upper logic)"

definition resource_matches :: "string \<Rightarrow> string \<Rightarrow> Event \<Rightarrow> bool" where
  "resource_matches rt rid event =
     (if rt = ''bot'' then (case event of BotEvent _ b _ _ \<Rightarrow> b = rid | _ \<Rightarrow> False)
      else if rt = ''job'' then (case event of JobEvent _ j _ _ _ \<Rightarrow> j = rid | _ \<Rightarrow> False)
      else if rt = ''campaign'' then
        (case event of
           CampaignEvent _ c _ \<Rightarrow> c = rid
         | JobEvent _ _ _ c _ \<Rightarrow> c = rid
         | CrashEvent _ _ _ c _ _ \<Rightarrow> c = rid
         | CorpusEvent _ _ _ c _ \<Rightarrow> c = Some rid
         | _ \<Rightarrow> False)
      else if rt = ''crash'' then (case event of CrashEvent _ c _ _ _ _ \<Rightarrow> c = rid | _ \<Rightarrow> False)
      else if rt = ''corpus'' then (case event of CorpusEvent _ c _ _ _ \<Rightarrow> c = Some rid | _ \<Rightarrow> False)
      else False)"

text \<open>The severity of an event, \<open>None\<close> where the filter lets the event pass without one.\<close>

definition data_severity :: "string \<Rightarrow> string option" where
  "data_severity d =
     (if str_contains d (quote ''severity'') then
        Some (if str_contains d (quote ''critical'') then ''critical''
              else if str_contains d (quote ''error'') then ''error''
              else if str_contains d (quote ''warning'') then ''warning''
              else if str_contains d (quote ''info'') then ''info'' else ''debug'')
      else None)"

definition event_severity :: "(data \<Rightarrow> string result) \<Rightarrow> Event \<Rightarrow> string option" where
  "event_severity marshal event =
     (case event of
        SystemEvent _ _ s \<Rightarrow> Some s
      | CrashEvent _ _ _ _ _ s \<Rightarrow> Some s
      | _ \<Rightarrow> data_severity (event_GetData marshal event))"

definition severity_matches :: "(data \<Rightarrow> string result) \<Rightarrow> string \<Rightarrow> (string \<rightharpoonup> int) \<Rightarrow> Event \<Rightarrow> bool" where
  "severity_matches marshal minSeverity levels event =
     (case levels minSeverity of
        None \<Rightarrow> True
      | Some minLevel \<Rightarrow>
          (case event_severity marshal event of
             None \<Rightarrow> True
           | Some s \<Rightarrow>
               if s = '''' then True
               else (case levels s of None \<Rightarrow> True | Some level \<Rightarrow> level \<ge> minLevel)))"

fun filter_Matches :: "(data \<Rightarrow> string result) \<Rightarrow> Filter \<Rightarrow> Event \<Rightarrow> bool" where
  "filter_Matches marshal (TypeFilter types) event = (types = [] \<or> event_GetType event \<in> set types)"
| "filter_Matches marshal (ResourceFilter rt rid) event = resource_matches rt rid event"
| "filter_Matches marshal (PatternFilter _ p) event = p (event_GetType event)"
| "filter_Matches marshal (SeverityFilter s levels) event = severity_matches marshal s levels event"
| "filter_Matches marshal (CompoundFilter fs logic) event =
     (if fs = [] then True
      else if logic = ''OR'' then list_ex (\<lambda>f. filter_Matches marshal f event) fs
      else list_all (\<lambda>f. filter_Matches marshal f event) fs)"
| "filter_Matches marshal AllowAllFilter event = True"

text \<open>The builder is its list of filters.\<close>

definition AddTypeFilter :: "string \<Rightarrow> Filter list \<Rightarrow> Filter list" where
  "AddTypeFilter types fb =
     (if types \<noteq> '''' then fb @ [NewTypeFilter (map trim_space (split_on (CHR '','') types))] else fb)"

definition AddResourceFilter :: "string \<Rightarrow> string \<Rightarrow> Filter list \<Rightarrow> Filter list" where
  "AddResourceFilter resourceType resourceID fb =
     (if resourceType \<noteq> '''' \<and> resourceID \<noteq> '''' then fb @ [NewResourceFilter resourceType resourceID] else fb)"

definition AddPatternFilter :: "(string \<Rightarrow> (string \<Rightarrow> bool) result) \<Rightarrow> string \<Rightarrow> Filter list \<Rightarrow> Filter list" where
  "AddPatternFilter compile pattern fb =
     (if pattern \<noteq> '''' then (case NewPatternFilter compile pattern of Inr f \<Rightarrow> fb @ [f] | Inl _ \<Rightarrow> fb) else fb)"

definition AddSeverityFilter :: "string \<Rightarrow> Filter list \<Rightarrow> Filter list" where
  "AddSeverityFilter minSeverity fb = (if minSeverity \<noteq> '''' then fb @ [NewSeverityFilter minSeverity] else fb)"

definition build_with :: "string \<Rightarrow> Filter list \<Rightarrow> Filter" where
  "build_with logic fb = (case fb of [] \<Rightarrow> AllowAllFilter | [f] \<Rightarrow> f | _ \<Rightarrow> NewCompoundFilter logic fb)"

definition Build :: "Filter list \<Rightarrow> Filter" where
  "Build fb = build_with ''AND'' fb"

definition BuildOr :: "Filter list \<Rightarrow> Filter" where
  "BuildOr fb = build_with ''OR'' fb"

definition if_present :: "'v option \<Rightarrow> ('v \<Rightarrow> 'b \<Rightarrow> 'b) \<Rightarrow> 'b \<Rightarrow> 'b" where
  "if_present x f b = (case x of None \<Rightarrow> b | Some v \<Rightarrow> f v b)"

definition ParseFiltersFromParams :: "(string \<Rightarrow> (string \<Rightarrow> bool) result) \<Rightarrow> (string \<rightharpoonup> string) \<Rightarrow> Filter" where
  "ParseFiltersFromParams compile params =
     (let b1 = if_present (params ''types'') AddTypeFilter [];
          b2 = if_present (params ''bot_id'') (AddResourceFilter ''bot'') b1;
          b3 = if_present (params ''job_id'') (AddResourceFilter ''job'') b2;
          b4 = if_present (params ''campaign_id'') (AddResourceFilter ''campaign'') b3;
          b5 = if_present (params ''crash_id'') (AddResourceFilter ''crash'') b4;
          b6 = if_present (params ''corpus_id'') (AddResourceFilter ''corpus'') b5;
          b7 = if_present (params ''pattern'') (AddPatternFilter compile) b6;
          b8 = if_present (params ''min_severity'') AddSeverityFilter b7
      in Build b8)"

section \<open>The event history\<close>

text \<open>
  A slot that was not written holds the zero value of \<open>StoredEvent\<close>: no event and an empty ID. \<open>make\<close> panics
  on a negative size, \<open>Add\<close> on an empty buffer.
\<close>

record StoredEvent =
  st_Event :: "Event option"
  st_Timestamp :: time
  st_ID :: string

record EventHistory =
  eh_events :: "StoredEvent list"
  eh_maxSize :: int
  eh_current :: int
  eh_full :: bool

definition zeroStored :: StoredEvent where
  "zeroStored = \<lparr>st_Event = None, st_Timestamp = time_zero, st_ID = ''''\<rparr>"

definition NewEventHistory :: "int \<Rightarrow> EventHistory go" where
  "NewEventHistory maxSize =
     (if maxSize < 0 then Panic
      else Ret \<lparr>eh_events = replicate (nat maxSize) zeroStored, eh_maxSize = maxSize, eh_current = 0, eh_full = False\<rparr>)"

definition stored :: "time \<Rightarrow> Event \<Rightarrow> StoredEvent" where
  "stored now event = \<lparr>st_Event = Some event, st_Timestamp = now, st_ID = event_GetID event\<rparr>"

definition history_Add :: "time \<Rightarrow> Event \<Rightarrow> EventHistory \<Rightarrow> EventHistory go" where
  "history_Add now event eh =
     (if eh_current eh < 0 \<or> int (length (eh_events eh)) \<le> eh_current eh then Panic
      else let c = (eh_current eh + 1) mod eh_maxSize eh
           in Ret (eh\<lparr>eh_events := (eh_events eh)[nat (eh_current eh) := stored now event], eh_current := c,
                eh_full := eh_full eh \<or> c = 0\<rparr>))"

text \<open>The loop of \<open>GetEventsAfter\<close> over the positions \<open>(start + i) mod maxSize\<close>.\<close>

fun after_loop :: "string \<Rightarrow> StoredEvent list \<Rightarrow> bool \<Rightarrow> StoredEvent list" where
  "after_loop eventID [] found = []"
| "after_loop eventID (e # es) found =
     (if \<not> found then after_loop eventID es (st_ID e = eventID)
      else if st_Event e \<noteq> None then e # after_loop eventID es found
      else after_loop eventID es found)"

definition GetEventsAfter :: "string \<Rightarrow> EventHistory \<Rightarrow> StoredEvent list" where
  "GetEventsAfter eventID eh =
     (let size = (if eh_full eh then eh_maxSize eh else eh_current eh);
          start = (if eh_full eh then 0 else eh_current eh)
      in after_loop eventID (map (\<lambda>i. eh_events eh ! nat ((start + int i) mod eh_maxSize eh)) [0 ..< nat size]) (eventID = ''''))"

fun add_events :: "(time \<times> Event) list \<Rightarrow> EventHistory \<Rightarrow> EventHistory go" where
  "add_events [] eh = Ret eh"
| "add_events ((now, e) # es) eh = (case history_Add now e eh of Panic \<Rightarrow> Panic | Ret eh' \<Rightarrow> add_events es eh')"

section \<open>What filters accept\<close>

lemma Build_Matches: "filter_Matches marshal (Build fb) event \<longleftrightarrow> (\<forall>f \<in> set fb. filter_Matches marshal f event)"
proof -
  have "to_upper ''AND'' \<noteq> ''OR''" by code_simp
  then show ?thesis
    by (auto simp: Build_def build_with_def NewCompoundFilter_def list_all_iff split: list.splits)
qed

text \<open>\<open>accepts fb event\<close>: all filters of the builder accept the event.\<close>

definition accepts :: "(data \<Rightarrow> string result) \<Rightarrow> Filter list \<Rightarrow> Event \<Rightarrow> bool" where
  "accepts marshal fb event \<longleftrightarrow> (\<forall>f \<in> set fb. filter_Matches marshal f event)"

lemma accepts_Nil [simp]: "accepts marshal [] event"
  by (simp add: accepts_def)

lemma accepts_if_present:
  "accepts marshal (if_present x f fb) event \<longleftrightarrow> (case x of None \<Rightarrow> accepts marshal fb event | Some v \<Rightarrow> accepts marshal (f v fb) event)"
  by (simp add: if_present_def split: option.splits)

lemma split_on_nonempty: "split_on c s \<noteq> []"
  by (induction s) (auto split: list.splits)

lemma accepts_AddTypeFilter:
  "accepts marshal (AddTypeFilter types fb) event \<longleftrightarrow>
     accepts marshal fb event \<and> (types \<noteq> '''' \<longrightarrow> event_GetType event \<in> trim_space ` set (split_on (CHR '','') types))"
  using split_on_nonempty by (auto simp: accepts_def AddTypeFilter_def NewTypeFilter_def remdups_eq_nil_iff)

lemma accepts_AddResourceFilter:
  "accepts marshal (AddResourceFilter rt rid fb) event \<longleftrightarrow>
     accepts marshal fb event \<and> (rt \<noteq> '''' \<and> rid \<noteq> '''' \<longrightarrow> resource_matches rt rid event)"
  by (auto simp: accepts_def AddResourceFilter_def NewResourceFilter_def)

lemma accepts_AddPatternFilter:
  "accepts marshal (AddPatternFilter compile pattern fb) event \<longleftrightarrow>
     accepts marshal fb event \<and> (\<forall>p. pattern \<noteq> '''' \<and> compile pattern = Inr p \<longrightarrow> p (event_GetType event))"
  by (auto simp: accepts_def AddPatternFilter_def NewPatternFilter_def split: sum.splits)

lemma accepts_AddSeverityFilter:
  "accepts marshal (AddSeverityFilter s fb) event \<longleftrightarrow>
     accepts marshal fb event \<and> (s \<noteq> '''' \<longrightarrow> severity_matches marshal s severityLevels event)"
  by (auto simp: accepts_def AddSeverityFilter_def NewSeverityFilter_def)

lemmas accepts_simps = accepts_if_present accepts_AddTypeFilter accepts_AddResourceFilter accepts_AddPatternFilter accepts_AddSeverityFilter

text \<open>A parameter that is given and not empty.\<close>

definition given :: "(string \<rightharpoonup> string) \<Rightarrow> string \<Rightarrow> string \<Rightarrow> bool" where
  "given params k v \<longleftrightarrow> params k = Some v \<and> v \<noteq> ''''"

lemma ParseFiltersFromParams_Matches:
  "filter_Matches marshal (ParseFiltersFromParams compile params) event \<longleftrightarrow>
     (\<forall>v. given params ''types'' v \<longrightarrow> event_GetType event \<in> trim_space ` set (split_on (CHR '','') v)) \<and>
     (\<forall>v. given params ''bot_id'' v \<longrightarrow> resource_matches ''bot'' v event) \<and>
     (\<forall>v. given params ''job_id'' v \<longrightarrow> resource_matches ''job'' v event) \<and>
     (\<forall>v. given params ''campaign_id'' v \<longrightarrow> resource_matches ''campaign'' v event) \<and>
     (\<forall>v. given params ''crash_id'' v \<longrightarrow> resource_matches ''crash'' v event) \<and>
     (\<forall>v. given params ''corpus_id'' v \<longrightarrow> resource_matches ''corpus'' v event) \<and>
     (\<forall>v p. given params ''pattern'' v \<and> compile v = Inr p \<longrightarrow> p (event_GetType event)) \<and>
     (\<forall>v. given params ''min_severity'' v \<longrightarrow> severity_matches marshal v severityLevels event)"
  unfolding ParseFiltersFromParams_def Let_def Build_Matches accepts_def [symmetric]
  by (simp add: accepts_simps given_def split: option.splits)

text \<open>The parameter that names the events of a kind.\<close>

definition resource_key :: "Event \<Rightarrow> string" where
  "resource_key event = (case event of BotEvent _ _ _ _ \<Rightarrow> ''bot_id'' | JobEvent _ _ _ _ _ \<Rightarrow> ''job_id'' | CrashEvent _ _ _ _ _ _ \<Rightarrow> ''crash_id''
     | CorpusEvent _ _ _ _ _ \<Rightarrow> ''corpus_id'' | _ \<Rightarrow> '''')"

definition exclusive_keys :: "string set" where
  "exclusive_keys = {''bot_id'', ''job_id'', ''crash_id'', ''corpus_id''}"

lemma resource_event_key:
  "resource_matches ''bot'' v event \<Longrightarrow> resource_key event = ''bot_id''"
  "resource_matches ''job'' v event \<Longrightarrow> resource_key event = ''job_id''"
  "resource_matches ''crash'' v event \<Longrightarrow> resource_key event = ''crash_id''"
  "resource_matches ''corpus'' v event \<Longrightarrow> resource_key event = ''corpus_id''"
  by (simp_all add: resource_matches_def resource_key_def split: Event.splits)

lemma Matches_event_key:
  assumes "filter_Matches marshal (ParseFiltersFromParams compile params) event"
    and "k \<in> exclusive_keys" and "given params k v"
  shows "resource_key event = k"
proof -
  have m: "\<forall>v. given params ''bot_id'' v \<longrightarrow> resource_matches ''bot'' v event"
    "\<forall>v. given params ''job_id'' v \<longrightarrow> resource_matches ''job'' v event"
    "\<forall>v. given params ''crash_id'' v \<longrightarrow> resource_matches ''crash'' v event"
    "\<forall>v. given params ''corpus_id'' v \<longrightarrow> resource_matches ''corpus'' v event"
    using assms(1) unfolding ParseFiltersFromParams_Matches by simp_all
  from assms(2) consider "k = ''bot_id''" | "k = ''job_id''" | "k = ''crash_id''" | "k = ''corpus_id''"
    unfolding exclusive_keys_def by blast
  then show ?thesis
  proof cases
    case 1 then show ?thesis using assms(3) m(1) resource_event_key(1) by metis
  next
    case 2 then show ?thesis using assms(3) m(2) resource_event_key(2) by metis
  next
    case 3 then show ?thesis using assms(3) m(3) resource_event_key(3) by metis
  next
    case 4 then show ?thesis using assms(3) m(4) resource_event_key(4) by metis
  qed
qed

text \<open>The filter built from the query parameters accepts an event exactly if every given parameter that is
  not empty does: the type is in the comma-separated list, the event carries the given IDs, the pattern (if
  it compiles) matches the type, the severity is high enough. Bot, job, crash and corpus IDs exclude each
  other: with two of them no event passes, not even a job event that carries both IDs.\<close>

theorem stream_filter_exact:
  "(filter_Matches marshal (ParseFiltersFromParams compile params) event \<longleftrightarrow>
     (\<forall>v. given params ''types'' v \<longrightarrow> event_GetType event \<in> trim_space ` set (split_on (CHR '','') v)) \<and>
     (\<forall>v. given params ''bot_id'' v \<longrightarrow> resource_matches ''bot'' v event) \<and>
     (\<forall>v. given params ''job_id'' v \<longrightarrow> resource_matches ''job'' v event) \<and>
     (\<forall>v. given params ''campaign_id'' v \<longrightarrow> resource_matches ''campaign'' v event) \<and>
     (\<forall>v. given params ''crash_id'' v \<longrightarrow> resource_matches ''crash'' v event) \<and>
     (\<forall>v. given params ''corpus_id'' v \<longrightarrow> resource_matches ''corpus'' v event) \<and>
     (\<forall>v p. given params ''pattern'' v \<and> compile v = Inr p \<longrightarrow> p (event_GetType event)) \<and>
     (\<forall>v. given params ''min_severity'' v \<longrightarrow> severity_matches marshal v severityLevels event)) \<and>
   (\<forall>k k' v v'. k \<in> exclusive_keys \<and> k' \<in> exclusive_keys \<and> k \<noteq> k' \<and> given params k v \<and> given params k' v' \<longrightarrow>
      \<not> filter_Matches marshal (ParseFiltersFromParams compile params) event)"
proof (intro conjI allI impI, goal_cases)
  case 1
  show ?case by (rule ParseFiltersFromParams_Matches)
next
  case (2 k k' v v')
  then show ?case using Matches_event_key [of marshal compile params event] by metis
qed

theorem stream_filter_exact_witness:
  "\<not> filter_Matches (\<lambda>_. Inr '''') (ParseFiltersFromParams (\<lambda>_. Inl (ErrorString ''x'')) [''bot_id'' \<mapsto> ''b'', ''job_id'' \<mapsto> ''j''])
     (NewJobEvent (0, ''u'', 0) ''job.started'' ''j'' ''c'' None)"
  using stream_filter_exact [of "\<lambda>_. Inr ''''" "\<lambda>_. Inl (ErrorString ''x'')" "[''bot_id'' \<mapsto> ''b'', ''job_id'' \<mapsto> ''j'']"
      "NewJobEvent (0, ''u'', 0) ''job.started'' ''j'' ''c'' None"]
  by (simp add: given_def resource_matches_def NewJobEvent_def)

section \<open>What the history replays\<close>

text \<open>The slots after \<open>es\<close> has been added to an empty history of size \<open>n\<close>.\<close>

definition ring :: "nat \<Rightarrow> StoredEvent list \<Rightarrow> nat \<Rightarrow> StoredEvent" where
  "ring n xs i = (let k = length xs; q = k mod n
     in if i < q then xs ! (k - q + i) else if n \<le> k then xs ! (k - q - n + i) else zeroStored)"

lemma mod_room: "0 < n \<Longrightarrow> n \<le> k \<Longrightarrow> n + k mod n \<le> (k :: nat)"
proof -
  assume n: "0 < n" "n \<le> k"
  have "1 \<le> k div n" using n by (simp add: Suc_le_eq div_greater_zero_iff)
  then have "n * 1 \<le> n * (k div n)" by (rule mult_le_mono2)
  then show "n + k mod n \<le> k" by (metis add_le_mono1 mult_div_mod_eq nat_mult_1_right)
qed

lemma ring_snoc:
  assumes "0 < n" and "i < n"
  shows "ring n (xs @ [x]) i = (if i = length xs mod n then x else ring n xs i)"
proof -
  let ?k = "length xs"
  let ?q = "?k mod n"
  have q: "?q < n" "?q \<le> ?k" using assms by simp_all
  have ge: "n \<le> ?k - ?q" if "n \<le> ?k" using mod_room [OF assms(1) that] by simp
  show ?thesis
  proof (cases "Suc ?q = n")
    case True
    then have "Suc ?k mod n = 0" by (simp add: mod_Suc)
    moreover have "n \<le> Suc ?k" using True q(2) by linarith
    moreover have "Suc ?k - n = ?k - ?q" using True by simp
    ultimately show ?thesis
      using assms True q by (auto simp: ring_def Let_def nth_append)
  next
    case False
    then have s: "Suc ?k mod n = Suc ?q" by (simp add: mod_Suc)
    have le: "n \<le> Suc ?k \<longleftrightarrow> n \<le> ?k" 
    proof -
      have "?k \<noteq> n - 1" using False q by (cases "?k < n") auto
      then show ?thesis using assms(1) by linarith
    qed
    show ?thesis
      using assms False q s le ge by (auto simp: ring_def Let_def nth_append less_Suc_eq)
  qed
qed

definition history_inv :: "nat \<Rightarrow> StoredEvent list \<Rightarrow> EventHistory \<Rightarrow> bool" where
  "history_inv n xs eh \<longleftrightarrow> eh_events eh = map (ring n xs) [0 ..< n] \<and> eh_maxSize eh = int n \<and>
     eh_current eh = int (length xs mod n) \<and> (eh_full eh \<longleftrightarrow> n \<le> length xs)"

lemma NewEventHistory_inv: "0 < n \<Longrightarrow> \<exists>eh. NewEventHistory (int n) = Ret eh \<and> history_inv n [] eh"
  by (auto simp: NewEventHistory_def history_inv_def ring_def intro: nth_equalityI)

lemma history_Add_inv:
  assumes "0 < n" and "history_inv n xs eh"
  shows "\<exists>eh'. history_Add now e eh = Ret eh' \<and> history_inv n (xs @ [stored now e]) eh'"
proof -
  let ?q = "length xs mod n"
  have q: "?q < n" using assms(1) by simp
  have c: "(int ?q + 1) mod int n = int (Suc (length xs) mod n)"
    by (metis Suc_eq_plus1 mod_Suc_eq of_nat_1 of_nat_add of_nat_mod)
  have full: "n \<le> length xs \<or> Suc (length xs) mod n = 0 \<longleftrightarrow> n \<le> Suc (length xs)"
    using assms(1) by (metis le_Suc_eq mod_less mod_self nat_le_linear not_less zero_less_Suc less_numeral_extra(3) le_SucI)
  have ev: "(map (ring n xs) [0 ..< n])[?q := stored now e] = map (ring n (xs @ [stored now e])) [0 ..< n]"
    using assms(1) q by (intro nth_equalityI) (auto simp: nth_list_update ring_snoc)
  show ?thesis using assms q c full ev by (simp add: history_inv_def history_Add_def Let_def)
qed

lemma add_events_inv:
  assumes "0 < n" and "history_inv n xs eh"
  shows "\<exists>eh'. add_events es eh = Ret eh' \<and> history_inv n (xs @ map (\<lambda>(now, e). stored now e) es) eh'"
  using assms(2)
proof (induction es arbitrary: xs eh)
  case (Cons x es)
  obtain now e where x: "x = (now, e)" by fastforce
  obtain eh1 where 1: "history_Add now e eh = Ret eh1" "history_inv n (xs @ [stored now e]) eh1"
    using history_Add_inv [OF assms(1) Cons.prems] by blast
  then show ?case using Cons.IH [OF 1(2)] x by simp
qed simp

lemma after_loop_found: "after_loop eventID xs True = filter (\<lambda>s. st_Event s \<noteq> None) xs"
  by (induction xs) auto

lemma after_loop_search:
  "after_loop eventID xs False = filter (\<lambda>s. st_Event s \<noteq> None) (tl (dropWhile (\<lambda>s. st_ID s \<noteq> eventID) xs))"
  by (induction xs) (auto simp: after_loop_found)

text \<open>The events that a history of size \<open>n\<close> replays after \<open>xs\<close> was added.\<close>

definition replayed :: "nat \<Rightarrow> StoredEvent list \<Rightarrow> StoredEvent list" where
  "replayed n xs = (let k = length xs
     in if k < n then take (2 * k - n) xs else drop (k - k mod n) xs @ take (n - k mod n) (drop (k - n) xs))"

lemma visited_full:
  assumes "0 < n" and "n \<le> length xs"
  shows "map (ring n xs) [0 ..< n] = replayed n xs"
proof (rule nth_equalityI)
  have q: "length xs mod n < n" "length xs mod n \<le> length xs" using assms by simp_all
  then show "length (map (ring n xs) [0 ..< n]) = length (replayed n xs)" using assms by (simp add: replayed_def Let_def)
  fix i
  assume "i < length (map (ring n xs) [0 ..< n])"
  then show "map (ring n xs) [0 ..< n] ! i = replayed n xs ! i"
    using assms q mod_room [OF assms] by (auto simp: replayed_def ring_def Let_def nth_append intro!: arg_cong [of _ _ "nth xs"])
qed

lemma visited_part:
  assumes "length xs < n"
  shows "map (\<lambda>i. ring n xs ((length xs + i) mod n)) [0 ..< length xs] =
    replicate (min (length xs) (n - length xs)) zeroStored @ replayed n xs"
proof (rule nth_equalityI)
  let ?k = "length xs"
  show "length (map (\<lambda>i. ring n xs ((?k + i) mod n)) [0 ..< ?k]) =
      length (replicate (min ?k (n - ?k)) zeroStored @ replayed n xs)"
    using assms by (simp add: replayed_def)
  fix i
  assume "i < length (map (\<lambda>i. ring n xs ((?k + i) mod n)) [0 ..< ?k])"
  then have i: "i < ?k" by simp
  show "map (\<lambda>i. ring n xs ((?k + i) mod n)) [0 ..< ?k] ! i = (replicate (min ?k (n - ?k)) zeroStored @ replayed n xs) ! i"
  proof (cases "?k + i < n")
    case True
    then show ?thesis using i assms by (simp add: ring_def nth_append)
  next
    case False
    then have "(?k + i) mod n = ?k + i - n" using i assms by (simp add: mod_if)
    then show ?thesis using i assms False by (auto simp: ring_def Let_def nth_append replayed_def add.commute intro!: arg_cong [of _ _ "nth xs"])
  qed
qed

lemma set_tl_subset: "set (tl xs) \<subseteq> set xs"
  by (cases xs) auto

lemma GetEventsAfter_inv:
  assumes "0 < n" and "history_inv n xs eh" and "\<forall>s \<in> set xs. st_Event s \<noteq> None"
  shows "GetEventsAfter eventID eh = (if eventID = '''' then replayed n xs else tl (dropWhile (\<lambda>s. st_ID s \<noteq> eventID) (replayed n xs)))"
proof -
  let ?k = "length xs"
  let ?seen = "if n \<le> ?k then map (ring n xs) [0 ..< n] else map (\<lambda>i. ring n xs ((?k + i) mod n)) [0 ..< ?k]"
  have 1: "GetEventsAfter eventID eh = after_loop eventID ?seen (eventID = '''')"
    using assms(1,2)
    by (auto simp: GetEventsAfter_def history_inv_def Let_def nat_mod_distrib nat_add_distrib intro!: arg_cong [of _ _ "\<lambda>l. after_loop _ l _"])
  have 2: "\<exists>m. ?seen = replicate m zeroStored @ replayed n xs"
    using visited_full [OF assms(1), of xs] visited_part [of xs n] by (metis append_Nil not_le replicate_0)
  have "set (replayed n xs) \<subseteq> set xs"
    by (auto simp: replayed_def Let_def dest: in_set_takeD in_set_dropD split: if_splits)
  then have 3: "filter (\<lambda>s. st_Event s \<noteq> None) (replayed n xs) = replayed n xs"
    "filter (\<lambda>s. st_Event s \<noteq> None) (tl (dropWhile p (replayed n xs))) = tl (dropWhile p (replayed n xs))" for p
    using assms(3) set_tl_subset set_dropWhileD by (fastforce simp: filter_id_conv)+
  have 4: "dropWhile (\<lambda>s. st_ID s \<noteq> eventID) (replicate m zeroStored @ ys) = dropWhile (\<lambda>s. st_ID s \<noteq> eventID) ys"
    if "eventID \<noteq> ''''" for m ys
    using that by (induction m) (auto simp: zeroStored_def)
  show ?thesis
    using 2 3 4 unfolding 1 by (auto simp: after_loop_found after_loop_search zeroStored_def)
qed

text \<open>C21: a history never panics on its events, but it does not replay them in order. While it is not full
  it starts reading behind the newest event and returns only the first \<open>2k - n\<close> of \<open>k\<close> events (none as long
  as it is at most half full); once it is full it starts at slot 0, so the events written since the last
  wrap-around come before older ones. After an ID come the events that follow it in this sequence.\<close>

theorem history_replay:
  assumes "0 < n"
  shows "\<exists>eh0 eh. NewEventHistory (int n) = Ret eh0 \<and> add_events es eh0 = Ret eh \<and>
     (let xs = map (\<lambda>(now, e). stored now e) es; k = length es;
          ys = (if k < n then take (2 * k - n) xs else drop (k - k mod n) xs @ take (n - k mod n) (drop (k - n) xs))
      in GetEventsAfter eventID eh = (if eventID = '''' then ys else tl (dropWhile (\<lambda>s. st_ID s \<noteq> eventID) ys)))"
proof -
  obtain eh0 where 0: "NewEventHistory (int n) = Ret eh0" "history_inv n [] eh0" using NewEventHistory_inv [OF assms] by blast
  obtain eh where 1: "add_events es eh0 = Ret eh" "history_inv n (map (\<lambda>(now, e). stored now e) es) eh"
    using add_events_inv [OF assms 0(2)] by auto
  have "\<forall>s \<in> set (map (\<lambda>(now, e). stored now e) es). st_Event s \<noteq> None" by (auto simp: stored_def)
  from GetEventsAfter_inv [OF assms 1(2) this] show ?thesis
    using 0(1) 1(1) by (simp add: replayed_def Let_def)
qed

theorem history_replay_witness:
  "\<exists>eh0 eh. NewEventHistory 3 = Ret eh0 \<and> add_events [(0, NewCorpusEvent (0, ''u'', 0) ''t'' None)] eh0 = Ret eh \<and>
     GetEventsAfter '''' eh = []"
  using history_replay [of 3 "[(0, NewCorpusEvent (0, ''u'', 0) ''t'' None)]" "''''"] by simp

end
