(* ===== verification/SSE_Manager.thy ===== *)
theory SSE_Manager
  imports SSE_Events "HOL-Library.AList"
begin

text \<open>
  The connections of the event stream: clients (\<open>pkg/api/v1/sse/client.go\<close>), the manager that registers them
  and broadcasts events (\<open>manager.go\<close>) and its counters (\<open>Metrics\<close> of \<open>types.go\<close>).

  \<^item> Clients are shared by pointer between the tables, the channels and the goroutines: the manager keeps them
    in a list of objects, and a pointer is a position in it.
  \<^item> A buffered channel is the list of its elements, bounded by its capacity (positive in every
    configuration of the code). When a \<open>select\<close> finds both the channel and \<open>ctx.Done()\<close> ready, it takes either:
    the argument \<open>pick\<close> says whether it takes \<open>ctx.Done()\<close>.
  \<^item> \<open>Range\<close> over a table visits every entry once, in an unspecified order; the effects on different clients
    are independent of each other.
  \<^item> The rate limiter is a third-party package: \<open>allow\<close> is the answer of \<open>limiter.Allow()\<close> for a client.
  \<^item> The goroutines are their turns: \<open>run\<close> takes one element from one channel, \<open>heartbeatLoop\<close> and \<open>cleanupLoop\<close>
    do one tick. The HTTP headers and log lines are left out.
\<close>

section \<open>Clients\<close>

definition ErrManagerAlreadyRunning :: error where "ErrManagerAlreadyRunning = ErrorString ''SSE manager is already running''"
definition ErrManagerNotRunning :: error where "ErrManagerNotRunning = ErrorString ''SSE manager is not running''"
definition ErrManagerStopped :: error where "ErrManagerStopped = ErrorString ''SSE manager has been stopped''"
definition ErrMaxClientsReached :: error where "ErrMaxClientsReached = ErrorString ''maximum number of clients reached''"
definition ErrRegistrationQueueFull :: error where "ErrRegistrationQueueFull = ErrorString ''client registration queue is full''"
definition ErrUnregistrationQueueFull :: error where "ErrUnregistrationQueueFull = ErrorString ''client unregistration queue is full''"
definition ErrBroadcastQueueFull :: error where "ErrBroadcastQueueFull = ErrorString ''broadcast queue is full''"
definition ErrClientNotFound :: error where "ErrClientNotFound = ErrorString ''client not found''"
definition ErrClientClosed :: error where "ErrClientClosed = ErrorString ''client connection is closed''"
definition ErrRateLimited :: error where "ErrRateLimited = ErrorString ''event dropped due to rate limiting''"
definition ErrBufferFull :: error where "ErrBufferFull = ErrorString ''client buffer is full''"

record ClientConfig =
  clc_BufferSize :: int
  clc_WriteTimeout :: duration
  clc_MaxEventsPerSec :: int
  clc_BurstSize :: int
  clc_EnableCompression :: bool

definition DefaultClientConfig :: ClientConfig where
  "DefaultClientConfig = \<lparr>clc_BufferSize = 100, clc_WriteTimeout = 10 * Second, clc_MaxEventsPerSec = 10, clc_BurstSize = 20,
     clc_EnableCompression = False\<rparr>"

text \<open>\<open>cl_ctxDone\<close>: the context of the request has ended or \<open>cancel\<close> was called. The channel \<open>Send\<close> is closed
  exactly when \<open>cl_closed\<close> holds.\<close>

record Client =
  cl_ID :: string
  cl_Send :: "Event list"
  cl_Topics :: "string list"
  cl_Filters :: "Filter list"
  cl_LastEventID :: string
  cl_Connected :: time
  cl_ctxDone :: bool
  cl_closed :: bool
  cl_config :: ClientConfig
  cl_eventsSent :: int
  cl_eventsDropped :: int
  cl_lastActivity :: time

record ClientInfo =
  cli_ID :: string
  cli_Connected :: time
  cli_LastEventID :: string
  cli_Topics :: "string list"
  cli_IsAlive :: bool
  cli_EventsSent :: int

definition NewClient :: "string \<Rightarrow> string \<Rightarrow> ClientConfig \<Rightarrow> time \<times> time \<Rightarrow> Client go" where
  "NewClient ident lastEventID config = (\<lambda>(now1, now2).
     if clc_BufferSize config < 0 then Panic
     else Ret \<lparr>cl_ID = ident, cl_Send = [], cl_Topics = [], cl_Filters = [], cl_LastEventID = lastEventID, cl_Connected = now1,
       cl_ctxDone = False, cl_closed = False, cl_config = config, cl_eventsSent = 0, cl_eventsDropped = 0, cl_lastActivity = now2\<rparr>)"

definition passesFilters :: "(data \<Rightarrow> string result) \<Rightarrow> Event \<Rightarrow> Client \<Rightarrow> bool" where
  "passesFilters marshal event c = list_all (\<lambda>f. filter_Matches marshal f event) (cl_Filters c)"

text \<open>
  \<open>SendEvent\<close> tests \<open>closed\<close> under the lock and releases it before it sends. Its two parts can be separated by
  steps of other goroutines: \<open>send_enter\<close> answers \<open>Some r\<close> if the call returns \<open>r\<close> at once, and \<open>send_put\<close> is the
  rest, which panics if the channel has been closed meanwhile.
\<close>

definition send_enter :: "(data \<Rightarrow> string result) \<Rightarrow> Event \<Rightarrow> Client \<Rightarrow> error option option" where
  "send_enter marshal event c =
     (if cl_closed c then Some (Some ErrClientClosed) else if \<not> passesFilters marshal event c then Some None else None)"

definition send_put :: "bool \<Rightarrow> Event \<Rightarrow> Client \<Rightarrow> (error option \<times> Client) go" where
  "send_put allow event c =
     (if \<not> allow then Ret (Some ErrRateLimited, c\<lparr>cl_eventsDropped := wrap64 (cl_eventsDropped c + 1)\<rparr>)
      else if cl_closed c then Panic
      else if int (length (cl_Send c)) < clc_BufferSize (cl_config c) then Ret (None, c\<lparr>cl_Send := cl_Send c @ [event]\<rparr>)
      else Ret (Some ErrBufferFull, c\<lparr>cl_eventsDropped := wrap64 (cl_eventsDropped c + 1)\<rparr>))"

definition SendEvent :: "(data \<Rightarrow> string result) \<Rightarrow> bool \<Rightarrow> Event \<Rightarrow> Client \<Rightarrow> (error option \<times> Client) go" where
  "SendEvent marshal allow event c = (case send_enter marshal event c of Some r \<Rightarrow> Ret (r, c) | None \<Rightarrow> send_put allow event c)"

definition client_Close :: "Client \<Rightarrow> Client" where
  "client_Close c = (if cl_closed c then c else c\<lparr>cl_closed := True, cl_ctxDone := True\<rparr>)"

definition IsAlive :: "Client \<Rightarrow> bool" where
  "IsAlive c \<longleftrightarrow> \<not> cl_closed c \<and> \<not> cl_ctxDone c"

definition AddFilter :: "Filter \<Rightarrow> Client \<Rightarrow> Client" where
  "AddFilter f c = c\<lparr>cl_Filters := cl_Filters c @ [f]\<rparr>"

definition RemoveFilter :: "int \<Rightarrow> Client \<Rightarrow> Client" where
  "RemoveFilter i c =
     (if 0 \<le> i \<and> i < int (length (cl_Filters c))
      then c\<lparr>cl_Filters := take (nat i) (cl_Filters c) @ drop (nat (i + 1)) (cl_Filters c)\<rparr> else c)"

definition GetInfo :: "Client \<Rightarrow> ClientInfo" where
  "GetInfo c = \<lparr>cli_ID = cl_ID c, cli_Connected = cl_Connected c, cli_LastEventID = cl_LastEventID c, cli_Topics = cl_Topics c,
     cli_IsAlive = IsAlive c, cli_EventsSent = cl_eventsSent c\<rparr>"

section \<open>The manager\<close>

record SSE_Config =
  ssc_MaxClients :: int
  ssc_ClientTimeout :: duration
  ssc_WriteTimeout :: duration
  ssc_HeartbeatInterval :: duration
  ssc_EventBufferSize :: int
  ssc_ClientBufferSize :: int
  ssc_BroadcastBufferSize :: int
  ssc_MaxEventsPerSecond :: int
  ssc_BurstSize :: int
  ssc_CleanupInterval :: duration
  ssc_MaxEventHistory :: int

definition SSE_DefaultConfig :: SSE_Config where
  "SSE_DefaultConfig = \<lparr>ssc_MaxClients = 1000, ssc_ClientTimeout = 5 * Minute, ssc_WriteTimeout = 10 * Second,
     ssc_HeartbeatInterval = 30 * Second, ssc_EventBufferSize = 1000, ssc_ClientBufferSize = 100, ssc_BroadcastBufferSize = 10000,
     ssc_MaxEventsPerSecond = 100, ssc_BurstSize = 200, ssc_CleanupInterval = 1 * Minute, ssc_MaxEventHistory = 10000\<rparr>"

record SSE_Metrics =
  me_activeClients :: int
  me_totalClients :: int
  me_eventsSent :: int
  me_eventsDropped :: int

definition NewMetrics :: SSE_Metrics where
  "NewMetrics = \<lparr>me_activeClients = 0, me_totalClients = 0, me_eventsSent = 0, me_eventsDropped = 0\<rparr>"

definition IncrementActiveClients :: "SSE_Metrics \<Rightarrow> SSE_Metrics" where
  "IncrementActiveClients me = me\<lparr>me_activeClients := me_activeClients me + 1, me_totalClients := me_totalClients me + 1\<rparr>"

definition DecrementActiveClients :: "SSE_Metrics \<Rightarrow> SSE_Metrics" where
  "DecrementActiveClients me = me\<lparr>me_activeClients := me_activeClients me - 1\<rparr>"

definition IncrementEventsSent :: "SSE_Metrics \<Rightarrow> SSE_Metrics" where
  "IncrementEventsSent me = me\<lparr>me_eventsSent := me_eventsSent me + 1\<rparr>"

text \<open>\<open>em_objs\<close>: all clients there are; \<open>em_clients\<close>, \<open>em_topics\<close> and the channels hold positions in it.\<close>

record EventManager =
  em_objs :: "Client list"
  em_clients :: "(string \<times> nat) list"
  em_register :: "nat list"
  em_unregister :: "nat list"
  em_broadcast :: "Event list"
  em_topics :: "(string \<times> (string \<times> nat) list) list"
  em_config :: SSE_Config
  em_ctxDone :: bool
  em_metrics :: SSE_Metrics
  em_running :: bool

definition NewManager :: "SSE_Config \<Rightarrow> EventManager" where
  "NewManager config = \<lparr>em_objs = [], em_clients = [], em_register = [], em_unregister = [], em_broadcast = [], em_topics = [],
     em_config = config, em_ctxDone = False, em_metrics = NewMetrics, em_running = False\<rparr>"

definition on_client :: "nat \<Rightarrow> (Client \<Rightarrow> Client) \<Rightarrow> EventManager \<Rightarrow> EventManager" where
  "on_client a f m = m\<lparr>em_objs := (em_objs m)[a := f (em_objs m ! a)]\<rparr>"

definition on_metrics :: "(SSE_Metrics \<Rightarrow> SSE_Metrics) \<Rightarrow> EventManager \<Rightarrow> EventManager" where
  "on_metrics f m = m\<lparr>em_metrics := f (em_metrics m)\<rparr>"

definition em_Start :: "EventManager \<Rightarrow> error option \<times> EventManager" where
  "em_Start m = (if em_running m then (Some ErrManagerAlreadyRunning, m) else (None, m\<lparr>em_running := True\<rparr>))"

definition em_Stop :: "EventManager \<Rightarrow> error option \<times> EventManager" where
  "em_Stop m =
     (if \<not> em_running m then (Some ErrManagerNotRunning, m)
      else (None, fold (\<lambda>(_, a). on_client a client_Close) (em_clients m) (m\<lparr>em_running := False, em_ctxDone := True\<rparr>)))"

definition em_Register :: "bool \<Rightarrow> nat \<Rightarrow> EventManager \<Rightarrow> error option \<times> EventManager" where
  "em_Register pick a m =
     (if \<not> em_running m then (Some ErrManagerNotRunning, m)
      else if me_activeClients (em_metrics m) \<ge> ssc_MaxClients (em_config m) then (Some ErrMaxClientsReached, m)
      else let room = int (length (em_register m)) < ssc_BroadcastBufferSize (em_config m)
           in if em_ctxDone m \<and> (pick \<or> \<not> room) then (Some ErrManagerStopped, m)
              else if room then (None, m\<lparr>em_register := em_register m @ [a]\<rparr>)
              else (Some ErrRegistrationQueueFull, m))"

definition em_Unregister :: "bool \<Rightarrow> nat \<Rightarrow> EventManager \<Rightarrow> error option \<times> EventManager" where
  "em_Unregister pick a m =
     (if \<not> em_running m then (None, m)
      else let room = int (length (em_unregister m)) < ssc_BroadcastBufferSize (em_config m)
           in if em_ctxDone m \<and> (pick \<or> \<not> room) then (Some ErrManagerStopped, m)
              else if room then (None, m\<lparr>em_unregister := em_unregister m @ [a]\<rparr>)
              else (Some ErrUnregistrationQueueFull, m))"

definition em_Broadcast :: "bool \<Rightarrow> Event \<Rightarrow> EventManager \<Rightarrow> error option \<times> EventManager" where
  "em_Broadcast pick event m =
     (if \<not> em_running m then (Some ErrManagerNotRunning, m)
      else let room = int (length (em_broadcast m)) < ssc_EventBufferSize (em_config m)
           in if em_ctxDone m \<and> (pick \<or> \<not> room) then (Some ErrManagerStopped, m)
              else if room then (None, on_metrics IncrementEventsSent (m\<lparr>em_broadcast := em_broadcast m @ [event]\<rparr>))
              else (Some ErrBroadcastQueueFull, m))"

text \<open>The loop over the clients of a table: \<open>SendEvent\<close> on each that is alive, errors are logged.\<close>

fun send_all :: "(data \<Rightarrow> string result) \<Rightarrow> (string \<Rightarrow> bool) \<Rightarrow> Event \<Rightarrow> (string \<times> nat) list \<Rightarrow> EventManager \<Rightarrow> EventManager go" where
  "send_all marshal allow event [] m = Ret m"
| "send_all marshal allow event ((k, a) # cs) m =
     (let c = em_objs m ! a
      in if IsAlive c then
           (case SendEvent marshal (allow (cl_ID c)) event c of
              Panic \<Rightarrow> Panic
            | Ret (_, c') \<Rightarrow> send_all marshal allow event cs (on_client a (\<lambda>_. c') m))
         else send_all marshal allow event cs m)"

definition BroadcastToTopic ::
    "(data \<Rightarrow> string result) \<Rightarrow> (string \<Rightarrow> bool) \<Rightarrow> string \<Rightarrow> Event \<Rightarrow> EventManager \<Rightarrow> (error option \<times> EventManager) go" where
  "BroadcastToTopic marshal allow topic event m =
     (if \<not> em_running m then Ret (Some ErrManagerNotRunning, m)
      else (case map_of (em_topics m) topic of
              None \<Rightarrow> Ret (None, m)
            | Some cs \<Rightarrow>
                (case send_all marshal allow event cs m of
                   Panic \<Rightarrow> Panic
                 | Ret m' \<Rightarrow> Ret (None, on_metrics IncrementEventsSent m'))))"

definition Subscribe :: "string \<Rightarrow> string \<Rightarrow> EventManager \<Rightarrow> error option \<times> EventManager" where
  "Subscribe clientID topic m =
     (case map_of (em_clients m) clientID of
        None \<Rightarrow> (Some ErrClientNotFound, m)
      | Some a \<Rightarrow>
          (let cs = (case map_of (em_topics m) topic of None \<Rightarrow> [] | Some cs \<Rightarrow> cs);
               m1 = m\<lparr>em_topics := AList.update topic (AList.update clientID a cs) (em_topics m)\<rparr>
           in (None, on_client a (\<lambda>c. c\<lparr>cl_Topics := List.insert topic (cl_Topics c)\<rparr>) m1)))"

definition drop_subscriber :: "string \<Rightarrow> (string \<times> nat) list \<Rightarrow> (string \<times> nat) list" where
  "drop_subscriber clientID cs = AList.delete clientID cs"

definition Unsubscribe :: "string \<Rightarrow> string \<Rightarrow> EventManager \<Rightarrow> EventManager" where
  "Unsubscribe clientID topic m =
     (let m1 = (case map_of (em_topics m) topic of
                  None \<Rightarrow> m
                | Some cs \<Rightarrow>
                    (let cs' = drop_subscriber clientID cs
                     in m\<lparr>em_topics := (if cs' = [] then AList.delete topic (em_topics m) else AList.update topic cs' (em_topics m))\<rparr>))
      in case map_of (em_clients m1) clientID of
           None \<Rightarrow> m1
         | Some a \<Rightarrow> on_client a (\<lambda>c. c\<lparr>cl_Topics := remove1 topic (cl_Topics c)\<rparr>) m1)"

definition GetClients :: "EventManager \<Rightarrow> ClientInfo list" where
  "GetClients m = map (\<lambda>(_, a). (GetInfo (em_objs m ! a))\<lparr>cli_EventsSent := 0\<rparr>) (em_clients m)"

definition handleRegister :: "(data \<Rightarrow> string result) \<Rightarrow> bool \<Rightarrow> time \<times> string \<times> time \<Rightarrow> any \<Rightarrow> nat \<Rightarrow> EventManager \<Rightarrow> EventManager go" where
  "handleRegister marshal allow fresh timestamp a m =
     (let c = em_objs m ! a;
          m1 = on_metrics IncrementActiveClients (m\<lparr>em_clients := AList.update (cl_ID c) a (em_clients m)\<rparr>);
          welcome = NewSystemEvent fresh ''client.connected'' (Some [''client_id'' \<mapsto> AString (cl_ID c), ''timestamp'' \<mapsto> timestamp])
      in case SendEvent marshal allow welcome c of
           Panic \<Rightarrow> Panic
         | Ret (_, c') \<Rightarrow> Ret (on_client a (\<lambda>_. c') m1))"

definition handleUnregister :: "nat \<Rightarrow> EventManager \<Rightarrow> EventManager" where
  "handleUnregister a m =
     (let k = cl_ID (em_objs m ! a);
          m1 = (if map_of (em_clients m) k \<noteq> None
                then on_metrics DecrementActiveClients (m\<lparr>em_clients := AList.delete k (em_clients m)\<rparr>) else m);
          m2 = m1\<lparr>em_topics := filter (\<lambda>(_, cs). cs \<noteq> []) (map (\<lambda>(t, cs). (t, drop_subscriber k cs)) (em_topics m1))\<rparr>
      in on_client a client_Close m2)"

definition handleBroadcast :: "(data \<Rightarrow> string result) \<Rightarrow> (string \<Rightarrow> bool) \<Rightarrow> Event \<Rightarrow> EventManager \<Rightarrow> EventManager go" where
  "handleBroadcast marshal allow event m = send_all marshal allow event (em_clients m) m"

definition heartbeat :: "bool \<Rightarrow> time \<times> string \<times> time \<Rightarrow> any \<Rightarrow> EventManager \<Rightarrow> EventManager" where
  "heartbeat pick fresh timestamp m = snd (em_Broadcast pick (NewSystemEvent fresh ''heartbeat'' (Some [''timestamp'' \<mapsto> timestamp])) m)"

definition performCleanup :: "(nat \<Rightarrow> bool) \<Rightarrow> EventManager \<Rightarrow> EventManager" where
  "performCleanup pick m =
     fold (\<lambda>(_, a) m. snd (em_Unregister (pick a) a m)) (filter (\<lambda>(_, a). \<not> IsAlive (em_objs m ! a)) (em_clients m)) m"

section \<open>The steps of the manager\<close>

text \<open>
  The states that any interleaving of API calls, turns of the goroutines and steps of the clients reaches. A
  client's own steps (receiving from its channel, closing, the end of its request, changes of its filters)
  keep its ID.
\<close>

inductive em_reach :: "(data \<Rightarrow> string result) \<Rightarrow> SSE_Config \<Rightarrow> EventManager \<Rightarrow> bool" for marshal cfg where
  reach_new: "em_reach marshal cfg (NewManager cfg)"
| reach_client: "em_reach marshal cfg m \<Longrightarrow> em_reach marshal cfg (m\<lparr>em_objs := em_objs m @ [c]\<rparr>)"
| reach_client_step: "em_reach marshal cfg m \<Longrightarrow> cl_ID (f (em_objs m ! a)) = cl_ID (em_objs m ! a) \<Longrightarrow> em_reach marshal cfg (on_client a f m)"
| reach_start: "em_reach marshal cfg m \<Longrightarrow> em_reach marshal cfg (snd (em_Start m))"
| reach_stop: "em_reach marshal cfg m \<Longrightarrow> em_reach marshal cfg (snd (em_Stop m))"
| reach_register: "em_reach marshal cfg m \<Longrightarrow> a < length (em_objs m) \<Longrightarrow> em_reach marshal cfg (snd (em_Register pick a m))"
| reach_unregister: "em_reach marshal cfg m \<Longrightarrow> a < length (em_objs m) \<Longrightarrow> em_reach marshal cfg (snd (em_Unregister pick a m))"
| reach_broadcast: "em_reach marshal cfg m \<Longrightarrow> em_reach marshal cfg (snd (em_Broadcast pick event m))"
| reach_topic: "em_reach marshal cfg m \<Longrightarrow> BroadcastToTopic marshal allow topic event m = Ret (eo, m') \<Longrightarrow> em_reach marshal cfg m'"
| reach_subscribe: "em_reach marshal cfg m \<Longrightarrow> em_reach marshal cfg (snd (Subscribe k topic m))"
| reach_unsubscribe: "em_reach marshal cfg m \<Longrightarrow> em_reach marshal cfg (Unsubscribe k topic m)"
| reach_run_register: "em_reach marshal cfg m \<Longrightarrow> em_register m = a # q \<Longrightarrow>
    handleRegister marshal al fresh ts a (m\<lparr>em_register := q\<rparr>) = Ret m' \<Longrightarrow> em_reach marshal cfg m'"
| reach_run_unregister: "em_reach marshal cfg m \<Longrightarrow> em_unregister m = a # q \<Longrightarrow>
    em_reach marshal cfg (handleUnregister a (m\<lparr>em_unregister := q\<rparr>))"
| reach_run_broadcast: "em_reach marshal cfg m \<Longrightarrow> em_broadcast m = event # q \<Longrightarrow>
    handleBroadcast marshal allow event (m\<lparr>em_broadcast := q\<rparr>) = Ret m' \<Longrightarrow> em_reach marshal cfg m'"
| reach_heartbeat: "em_reach marshal cfg m \<Longrightarrow> em_reach marshal cfg (heartbeat pick fresh ts m)"
| reach_cleanup: "em_reach marshal cfg m \<Longrightarrow> em_reach marshal cfg (performCleanup picks m)"

definition client_limit :: "SSE_Config \<Rightarrow> int" where
  "client_limit cfg = (if 0 < ssc_MaxClients cfg \<and> 0 < ssc_BroadcastBufferSize cfg
     then ssc_MaxClients cfg - 1 + ssc_BroadcastBufferSize cfg else 0)"

text \<open>A client is registered under its own ID, and a topic has at least one subscriber, all of them registered.\<close>

definition topic_ok :: "(string \<times> nat) list \<Rightarrow> (string \<times> nat) list \<Rightarrow> bool" where
  "topic_ok clients cs \<longleftrightarrow> cs \<noteq> [] \<and> distinct (map fst cs) \<and> fst ` set cs \<subseteq> fst ` set clients"

definition tables_ok :: "string list \<Rightarrow> (string \<times> nat) list \<Rightarrow> (string \<times> (string \<times> nat) list) list \<Rightarrow> bool" where
  "tables_ok ids clients topics \<longleftrightarrow> distinct (map fst clients) \<and> (\<forall>c \<in> set clients. snd c < length ids \<and> ids ! snd c = fst c) \<and>
     distinct (map fst topics) \<and> (\<forall>t \<in> set topics. topic_ok clients (snd t))"

definition counts_ok :: "SSE_Config \<Rightarrow> nat \<Rightarrow> nat \<Rightarrow> int \<Rightarrow> bool" where
  "counts_ok cfg clients queued active \<longleftrightarrow> int clients \<le> active \<and> active + int queued \<le> client_limit cfg"

definition em_inv :: "SSE_Config \<Rightarrow> EventManager \<Rightarrow> bool" where
  "em_inv cfg m \<longleftrightarrow> em_config m = cfg \<and> tables_ok (map cl_ID (em_objs m)) (em_clients m) (em_topics m) \<and>
     set (em_register m) \<union> set (em_unregister m) \<subseteq> {..< length (em_objs m)} \<and>
     counts_ok cfg (length (em_clients m)) (length (em_register m)) (me_activeClients (em_metrics m))"

lemma ids_update: "cl_ID (f (xs ! a)) = cl_ID (xs ! a) \<Longrightarrow> map cl_ID (xs[a := f (xs ! a)]) = map cl_ID xs"
  by (cases "a < length xs") (simp_all add: map_update list_update_same_conv list_update_beyond)

lemma em_inv_on_client: "cl_ID (f (em_objs m ! a)) = cl_ID (em_objs m ! a) \<Longrightarrow> em_inv cfg (on_client a f m) = em_inv cfg m"
  by (simp add: em_inv_def on_client_def ids_update)

lemma client_Close_ID [simp]: "cl_ID (client_Close c) = cl_ID c"
  by (simp add: client_Close_def)

lemma SendEvent_ID: "SendEvent marshal al event c = Ret (eo, c') \<Longrightarrow> cl_ID c' = cl_ID c"
  by (auto simp: SendEvent_def send_put_def split: option.splits if_splits)

lemma send_all_inv: "send_all marshal allow event cs m = Ret m' \<Longrightarrow> em_inv cfg m \<Longrightarrow> em_inv cfg m'"
proof (induction cs arbitrary: m)
  case (Cons x cs)
  obtain k a where x: "x = (k, a)" by fastforce
  show ?case
    using Cons x SendEvent_ID em_inv_on_client [of "\<lambda>_. c'" m a cfg for c']
    by (fastforce simp: Let_def split: if_splits go.splits)
qed simp

lemma close_all_inv: "em_inv cfg m \<Longrightarrow> em_inv cfg (fold (\<lambda>(_, a). on_client a client_Close) cs m)"
  by (induction cs arbitrary: m) (auto simp: em_inv_on_client)

lemma em_Unregister_inv: "em_inv cfg m \<Longrightarrow> a < length (em_objs m) \<Longrightarrow> em_inv cfg (snd (em_Unregister pick a m))"
  by (auto simp: em_Unregister_def em_inv_def Let_def)

lemma em_Unregister_objs [simp]: "em_objs (snd (em_Unregister pick a m)) = em_objs m"
  by (simp add: em_Unregister_def Let_def)

lemma performCleanup_inv: "em_inv cfg m \<Longrightarrow> em_inv cfg (performCleanup picks m)"
proof -
  have "em_inv cfg (fold (\<lambda>(_, a) m. snd (em_Unregister (picks a) a m)) cs m)"
    if "em_inv cfg m" "\<forall>(k, a) \<in> set cs. a < length (em_objs m)" for cs m
    using that by (induction cs arbitrary: m) (auto simp: em_Unregister_inv)
  note fold = this
  assume inv: "em_inv cfg m"
  then have "\<forall>(k, a) \<in> set (filter (\<lambda>(_, a). \<not> IsAlive (em_objs m ! a)) (em_clients m)). a < length (em_objs m)"
    by (auto simp: em_inv_def tables_ok_def)
  from fold [OF inv this] show ?thesis by (simp add: performCleanup_def)
qed

lemma set_update_subset: "set (AList.update k v xs) \<subseteq> insert (k, v) (set xs)"
  by (induction xs) auto

lemma keys_update: "fst ` set (AList.update k v xs) = insert k (fst ` set xs)"
  by (induction xs) auto

lemma length_update: "length (AList.update k v xs) = (if k \<in> fst ` set xs then length xs else Suc (length xs))"
  by (induction xs) auto

lemma length_delete: "distinct (map fst xs) \<Longrightarrow> length (AList.delete k xs) = (if k \<in> fst ` set xs then length xs - 1 else length xs)"
proof (induction xs)
  case (Cons x xs)
  then show ?case by (cases "xs = []") (auto simp: AList.delete_eq)
qed simp

lemma keys_delete: "fst ` set (AList.delete k xs) = fst ` set xs - {k}"
  by (auto simp: AList.delete_eq)

lemma tables_ok_put:
  assumes "tables_ok ids cs ts" and "a < length ids"
  shows "tables_ok ids (AList.update (ids ! a) a cs) ts"
proof -
  have "\<forall>c \<in> set (AList.update (ids ! a) a cs). snd c < length ids \<and> ids ! snd c = fst c"
    using assms set_update_subset [of "ids ! a" a cs] by (fastforce simp: tables_ok_def)
  moreover have "topic_ok (AList.update (ids ! a) a cs) xs" if "topic_ok cs xs" for xs
    using that by (auto simp: topic_ok_def keys_update)
  ultimately show ?thesis using assms(1) by (simp add: tables_ok_def distinct_update)
qed

lemma tables_ok_remove:
  assumes "tables_ok ids cs ts"
  shows "tables_ok ids (AList.delete k cs) (filter (\<lambda>(_, xs). xs \<noteq> []) (map (\<lambda>(t, xs). (t, drop_subscriber k xs)) ts))"
proof -
  let ?ts = "map (\<lambda>(t, xs). (t, drop_subscriber k xs)) ts"
  have "map fst ?ts = map fst ts" by (induction ts) auto
  then have d: "distinct (map fst ?ts)" using assms by (simp only: tables_ok_def)
  have drop: "topic_ok (AList.delete k cs) (AList.delete k xs)" if "topic_ok cs xs" "AList.delete k xs \<noteq> []" for xs
    using that by (auto simp: topic_ok_def keys_delete distinct_delete)
  have "\<forall>t \<in> set (filter (\<lambda>(_, xs). xs \<noteq> []) ?ts). topic_ok (AList.delete k cs) (snd t)"
    using assms by (auto simp: tables_ok_def drop_subscriber_def intro!: drop)
  moreover have "\<forall>c \<in> set (AList.delete k cs). snd c < length ids \<and> ids ! snd c = fst c"
    using assms by (auto simp: tables_ok_def AList.delete_eq)
  ultimately show ?thesis
    using assms d by (simp add: tables_ok_def distinct_delete distinct_map_filter del: set_filter set_map map_map)
qed

lemma tables_ok_topic:
  assumes "tables_ok ids cs ts" and "topic_ok cs xs"
  shows "tables_ok ids cs (AList.update t xs ts)"
proof -
  have "\<forall>y \<in> set (AList.update t xs ts). topic_ok cs (snd y)"
    using assms set_update_subset [of t xs ts] by (fastforce simp: tables_ok_def)
  then show ?thesis using assms(1) by (simp add: tables_ok_def distinct_update)
qed

lemma tables_ok_topic_members: "tables_ok ids cs ts \<Longrightarrow> map_of ts t = Some xs \<Longrightarrow> topic_ok cs xs"
  by (fastforce simp: tables_ok_def dest: map_of_SomeD)

lemma handleRegister_inv:
  assumes "em_inv cfg m" and "em_register m = a # q" and "handleRegister marshal al fresh ts a (m\<lparr>em_register := q\<rparr>) = Ret m'"
  shows "em_inv cfg m'"
proof -
  let ?k = "cl_ID (em_objs m ! a)"
  let ?m1 = "on_metrics IncrementActiveClients (m\<lparr>em_register := q, em_clients := AList.update ?k a (em_clients m)\<rparr>)"
  have a: "a < length (em_objs m)" using assms(1,2) by (auto simp: em_inv_def)
  obtain eo c' where c': "SendEvent marshal al (NewSystemEvent fresh ''client.connected''
      (Some [''client_id'' \<mapsto> AString ?k, ''timestamp'' \<mapsto> ts])) (em_objs m ! a) = Ret (eo, c')" and m': "m' = on_client a (\<lambda>_. c') ?m1"
    using assms(3) by (auto simp: handleRegister_def Let_def split: go.splits)
  have "tables_ok (map cl_ID (em_objs m)) (AList.update ?k a (em_clients m)) (em_topics m)"
    using assms(1) a tables_ok_put [of "map cl_ID (em_objs m)" "em_clients m" "em_topics m" a] by (simp add: em_inv_def)
  then have "em_inv cfg ?m1"
    using assms(1,2) by (auto simp: em_inv_def on_metrics_def IncrementActiveClients_def counts_ok_def length_update)
  then show ?thesis
    using SendEvent_ID [OF c'] by (simp add: m' em_inv_on_client on_metrics_def)
qed

lemma handleUnregister_inv:
  assumes "em_inv cfg m" and "em_unregister m = a # q"
  shows "em_inv cfg (handleUnregister a (m\<lparr>em_unregister := q\<rparr>))"
proof -
  let ?k = "cl_ID (em_objs m ! a)"
  have t: "tables_ok (map cl_ID (em_objs m)) (em_clients m) (em_topics m)" using assms(1) by (simp add: em_inv_def)
  have "map_of (em_clients m) ?k = None \<Longrightarrow> AList.delete ?k (em_clients m) = em_clients m"
    by (simp add: map_of_eq_None_iff)
  moreover have "counts_ok cfg (length (AList.delete ?k (em_clients m))) (length (em_register m))
      (me_activeClients (em_metrics m) - (if map_of (em_clients m) ?k \<noteq> None then 1 else 0))"
  proof (cases "map_of (em_clients m) ?k = None")
    case True
    then show ?thesis using assms(1) by (simp add: em_inv_def map_of_eq_None_iff)
  next
    case False
    then have k: "?k \<in> fst ` set (em_clients m)" by (simp add: map_of_eq_None_iff)
    then obtain n where "length (em_clients m) = Suc n" by (cases "em_clients m") auto
    moreover have "distinct (map fst (em_clients m))" using t by (simp add: tables_ok_def)
    ultimately show ?thesis using assms(1) False k by (auto simp: em_inv_def counts_ok_def length_delete)
  qed
  ultimately show ?thesis
    unfolding handleUnregister_def Let_def using assms tables_ok_remove [OF t, of ?k]
    by (subst em_inv_on_client) (auto simp: em_inv_def on_metrics_def DecrementActiveClients_def)
qed

lemma Subscribe_inv:
  assumes "em_inv cfg m"
  shows "em_inv cfg (snd (Subscribe k topic m))"
proof (cases "map_of (em_clients m) k")
  case (Some a)
  define cs where "cs = (case map_of (em_topics m) topic of None \<Rightarrow> [] | Some cs \<Rightarrow> cs)"
  have t: "tables_ok (map cl_ID (em_objs m)) (em_clients m) (em_topics m)" using assms by (simp add: em_inv_def)
  have k: "k \<in> fst ` set (em_clients m)" using Some by (metis domI dom_map_of_conv_image_fst)
  have "cs = [] \<or> topic_ok (em_clients m) cs"
    using tables_ok_topic_members [OF t] by (simp add: cs_def split: option.splits)
  then have "topic_ok (em_clients m) (AList.update k a cs)"
    using k by (auto simp: topic_ok_def keys_update distinct_update)
  then have "tables_ok (map cl_ID (em_objs m)) (em_clients m) (AList.update topic (AList.update k a cs) (em_topics m))"
    by (rule tables_ok_topic [OF t])
  then show ?thesis using assms Some by (simp add: Subscribe_def Let_def em_inv_on_client cs_def [symmetric]) (simp add: em_inv_def)
qed (use assms in \<open>simp add: Subscribe_def\<close>)

lemma Unsubscribe_inv:
  assumes "em_inv cfg m"
  shows "em_inv cfg (Unsubscribe k topic m)"
proof -
  have t: "tables_ok (map cl_ID (em_objs m)) (em_clients m) (em_topics m)" using assms by (simp add: em_inv_def)
  have d: "tables_ok (map cl_ID (em_objs m)) (em_clients m) (AList.delete topic (em_topics m))"
    using t by (auto simp: tables_ok_def AList.delete_eq distinct_map_filter)
  have u: "tables_ok (map cl_ID (em_objs m)) (em_clients m) (AList.update topic (drop_subscriber k cs) (em_topics m))"
    if "map_of (em_topics m) topic = Some cs" "drop_subscriber k cs \<noteq> []" for cs
    using tables_ok_topic_members [OF t that(1)] that(2) by (intro tables_ok_topic [OF t]) (auto simp: topic_ok_def drop_subscriber_def keys_delete distinct_delete)
  have "em_inv cfg (case map_of (em_topics m) topic of None \<Rightarrow> m
     | Some cs \<Rightarrow> m\<lparr>em_topics := if drop_subscriber k cs = [] then AList.delete topic (em_topics m) else AList.update topic (drop_subscriber k cs) (em_topics m)\<rparr>)"
    using assms d u by (auto simp: em_inv_def split: option.splits)
  then show ?thesis by (auto simp: Unsubscribe_def Let_def em_inv_on_client split: option.splits)
qed

lemma em_Register_inv: "em_inv cfg m \<Longrightarrow> a < length (em_objs m) \<Longrightarrow> em_inv cfg (snd (em_Register pick a m))"
  by (auto simp: em_Register_def em_inv_def Let_def counts_ok_def client_limit_def)

lemma em_Broadcast_inv: "em_inv cfg m \<Longrightarrow> em_inv cfg (snd (em_Broadcast pick event m))"
  by (auto simp: em_Broadcast_def em_inv_def Let_def on_metrics_def IncrementEventsSent_def)

lemma NewManager_inv: "em_inv cfg (NewManager cfg)"
  by (simp add: NewManager_def em_inv_def tables_ok_def counts_ok_def client_limit_def NewMetrics_def)

lemma em_reach_inv: "em_reach marshal cfg m \<Longrightarrow> em_inv cfg m"
proof (induction rule: em_reach.induct)
  case (reach_client m c)
  then show ?case by (auto simp: em_inv_def tables_ok_def nth_append)
next
  case (reach_new) show ?case by (rule NewManager_inv)
next
  case (reach_client_step m f a) then show ?case by (simp add: em_inv_on_client)
next
  case (reach_start m) then show ?case by (simp add: em_Start_def em_inv_def)
next
  case (reach_register m a pick) then show ?case by (intro em_Register_inv)
next
  case (reach_unregister m a pick) then show ?case by (intro em_Unregister_inv)
next
  case (reach_broadcast m pick event) then show ?case by (intro em_Broadcast_inv)
next
  case (reach_heartbeat m pick fresh ts) then show ?case unfolding heartbeat_def by (intro em_Broadcast_inv)
next
  case (reach_stop m)
  then show ?case by (auto simp: em_Stop_def intro!: close_all_inv) (simp add: em_inv_def)
next
  case (reach_topic m allow topic event eo m')
  then show ?case
    by (auto simp: BroadcastToTopic_def split: if_splits option.splits go.splits dest!: send_all_inv)
      (auto simp: em_inv_def on_metrics_def IncrementEventsSent_def)
next
  case (reach_run_broadcast m event q allow m')
  then have "em_inv cfg (m\<lparr>em_broadcast := q\<rparr>)" by (simp add: em_inv_def)
  then show ?case using reach_run_broadcast.hyps send_all_inv unfolding handleBroadcast_def by blast
qed (rule Subscribe_inv Unsubscribe_inv performCleanup_inv handleRegister_inv handleUnregister_inv; assumption)+

section \<open>Properties of the manager\<close>


definition small_config :: SSE_Config where
  "small_config = SSE_DefaultConfig\<lparr>ssc_MaxClients := 1, ssc_BroadcastBufferSize := 2\<rparr>"

definition small_client :: "string \<Rightarrow> Client" where
  "small_client k = \<lparr>cl_ID = k, cl_Send = [], cl_Topics = [], cl_Filters = [], cl_LastEventID = '''', cl_Connected = 0,
       cl_ctxDone = False, cl_closed = False, cl_config = DefaultClientConfig, cl_eventsSent = 0, cl_eventsDropped = 0, cl_lastActivity = 0\<rparr>"

text \<open>Two clients register before the loop takes the first one from the channel.\<close>

definition two_queued :: "string \<Rightarrow> string \<Rightarrow> EventManager" where
  "two_queued x y = (NewManager small_config)\<lparr>em_objs := [small_client x, small_client y], em_running := True, em_register := [0, 1]\<rparr>"

lemma two_queued_reach: "em_reach marshal small_config (two_queued x y)"
proof -
  let ?m = "(NewManager small_config)\<lparr>em_objs := [small_client x, small_client y], em_running := True\<rparr>"
  have "em_reach marshal small_config ((NewManager small_config)\<lparr>em_objs := [small_client x, small_client y]\<rparr>)"
    using reach_client [OF reach_client [OF reach_new [of marshal small_config], of "small_client x"], of "small_client y"]
    by (simp add: NewManager_def)
  from reach_start [OF this] have "em_reach marshal small_config ?m" by (simp add: em_Start_def NewManager_def)
  from reach_register [OF this, of 0 False] have "em_reach marshal small_config (?m\<lparr>em_register := [0]\<rparr>)"
    by (simp add: em_Register_def NewManager_def NewMetrics_def small_config_def SSE_DefaultConfig_def)
  from reach_register [OF this, of 1 False] show ?thesis
    by (simp add: em_Register_def NewManager_def NewMetrics_def small_config_def SSE_DefaultConfig_def two_queued_def)
qed

lemma handleRegister_open:
  assumes "\<not> cl_closed (em_objs m ! a)"
  shows "\<exists>m'. handleRegister marshal False fresh ts a m = Ret m' \<and> em_register m' = em_register m \<and>
    me_activeClients (em_metrics m') = me_activeClients (em_metrics m) + 1 \<and>
    em_clients m' = AList.update (cl_ID (em_objs m ! a)) a (em_clients m) \<and>
    map (\<lambda>c. (cl_ID c, cl_closed c)) (em_objs m') = map (\<lambda>c. (cl_ID c, cl_closed c)) (em_objs m)"
  using assms
  by (cases "a < length (em_objs m)")
    (auto simp: handleRegister_def Let_def SendEvent_def send_enter_def send_put_def on_client_def on_metrics_def
      IncrementActiveClients_def map_update list_update_same_conv list_update_beyond split: option.splits)

lemma two_registered:
  "\<exists>m. em_reach marshal small_config m \<and> me_activeClients (em_metrics m) = 2 \<and>
    em_clients m = AList.update y 1 [(x, 0)]"
proof -
  let ?m = "two_queued x y"
  let ?fr = "(0, ''u'', 0)"
  have q: "\<not> cl_closed (em_objs ?m ! 0)" "map (\<lambda>c. (cl_ID c, cl_closed c)) (em_objs ?m) = [(x, False), (y, False)]"
    "em_register ?m = [0, 1]" "me_activeClients (em_metrics ?m) = 0" "em_clients ?m = []" "cl_ID (em_objs ?m ! 0) = x"
    by (simp_all add: two_queued_def small_client_def NewManager_def NewMetrics_def)
  obtain m1 where m1: "handleRegister marshal False ?fr ANil 0 (?m\<lparr>em_register := [1]\<rparr>) = Ret m1" "em_register m1 = [1]"
    "me_activeClients (em_metrics m1) = 1" "em_clients m1 = [(x, 0)]"
    "map (\<lambda>c. (cl_ID c, cl_closed c)) (em_objs m1) = [(x, False), (y, False)]"
    using handleRegister_open [of "?m\<lparr>em_register := [1]\<rparr>" 0 marshal ?fr ANil] q by auto
  have r1: "em_reach marshal small_config m1" using reach_run_register [OF two_queued_reach q(3) m1(1)] .
  have "length (em_objs m1) = 2" using m1(5) by (metis length_map length_Cons list.size(3) numeral_2_eq_2)
  then have y: "\<not> cl_closed (em_objs m1 ! 1) \<and> cl_ID (em_objs m1 ! 1) = y"
    using m1(5) nth_map [of 1 "em_objs m1" "\<lambda>c. (cl_ID c, cl_closed c)"] by simp
  obtain m2 where m2: "handleRegister marshal False ?fr ANil 1 (m1\<lparr>em_register := []\<rparr>) = Ret m2"
    "me_activeClients (em_metrics m2) = 2" "em_clients m2 = AList.update y 1 [(x, 0)]"
    using handleRegister_open [of "m1\<lparr>em_register := []\<rparr>" 1 marshal ?fr ANil] y m1(3,4) by auto
  show ?thesis using reach_run_register [OF r1 m1(2) m2(1)] m2(2,3) by blast
qed


text \<open>A client that is registered twice is counted twice, and unregistering it once leaves it counted for ever.\<close>

lemma registered_twice_counted_twice:
  "\<exists>m. em_reach marshal small_config m \<and> me_activeClients (em_metrics m) = 2 \<and> length (em_clients m) = 1"
  using two_registered [of marshal "''x''" "''x''"] by auto

section \<open>Sending while the client closes\<close>

text \<open>
  One client and the goroutines that use it: the calls of \<open>SendEvent\<close> that have passed the test of \<open>closed\<close> and
  not yet sent, and whether the process has panicked. With \<open>serial\<close>, a client closes only while no such call is
  under way, as it would if \<open>SendEvent\<close> kept its lock.
\<close>

type_synonym race_state = "Client \<times> Event list \<times> bool"

inductive race :: "(data \<Rightarrow> string result) \<Rightarrow> bool \<Rightarrow> race_state \<Rightarrow> race_state \<Rightarrow> bool" for marshal serial where
  race_enter: "send_enter marshal event c = None \<Longrightarrow> race marshal serial (c, ps, False) (c, ps @ [event], False)"
| race_put: "i < length ps \<Longrightarrow> send_put al (ps ! i) c = Ret (eo, c') \<Longrightarrow>
    race marshal serial (c, ps, False) (c', take i ps @ drop (Suc i) ps, False)"
| race_panic: "i < length ps \<Longrightarrow> send_put al (ps ! i) c = Panic \<Longrightarrow> race marshal serial (c, ps, False) (c, ps, True)"
| race_close: "(serial \<longrightarrow> ps = []) \<Longrightarrow> race marshal serial (c, ps, False) (client_Close c, ps, False)"
| race_receive: "cl_Send c = event # q \<Longrightarrow> race marshal serial (c, ps, False) (c\<lparr>cl_Send := q\<rparr>, ps, False)"

inductive_cases race_elim: "race marshal serial s s'"

lemma send_put_closed: "send_put al event c = Ret (eo, c') \<Longrightarrow> cl_closed c' = cl_closed c"
  by (auto simp: send_put_def split: if_splits)

lemma serial_race_inv:
  assumes "(race marshal True)\<^sup>*\<^sup>* (c, [], False) s"
  shows "\<not> snd (snd s) \<and> (cl_closed (fst s) \<longrightarrow> fst (snd s) = [])"
  using assms
proof (induction rule: rtranclp_induct)
  case (step s s')
  from step.hyps(2) step.IH show ?case
  proof cases
    case (race_put i ps al c eo c')
    then show ?thesis using step.IH send_put_closed [OF race_put(4)] by auto
  qed (auto simp: send_enter_def send_put_def client_Close_def split: if_splits)
qed simp

text \<open>C23: \<open>SendEvent\<close> releases the lock between its test of \<open>closed\<close> and the send. If a client closed only
  between complete calls, no interleaving would panic; as it is, every event that passes the filters of an
  open client can meet a \<open>Close\<close> (by the end of its connection, by \<open>handleUnregister\<close> or by \<open>Stop\<close>) and send
  on the closed channel, which panics.\<close>

theorem send_close_race:
  "(\<forall>s. (race marshal True)\<^sup>*\<^sup>* (c, [], False) s \<longrightarrow> \<not> snd (snd s)) \<and>
   (\<not> cl_closed c \<and> passesFilters marshal event c \<longrightarrow>
      (\<exists>s. (race marshal False)\<^sup>*\<^sup>* (c, [], False) s \<and> cl_closed (fst s) \<and> snd (snd s)))"
proof (intro conjI impI)
  show "\<forall>s. (race marshal True)\<^sup>*\<^sup>* (c, [], False) s \<longrightarrow> \<not> snd (snd s)" using serial_race_inv by blast
  assume c: "\<not> cl_closed c \<and> passesFilters marshal event c"
  have "race marshal False (c, [], False) (c, [event], False)"
    using race_enter [of marshal event c False "[]"] c by (simp add: send_enter_def)
  moreover have "race marshal False (c, [event], False) (client_Close c, [event], False)" by (rule race_close) simp
  moreover have "race marshal False (client_Close c, [event], False) (client_Close c, [event], True)"
    by (rule race_panic [of 0 _ True]) (simp_all add: send_put_def client_Close_def)
  ultimately have "(race marshal False)\<^sup>*\<^sup>* (c, [], False) (client_Close c, [event], True)"
    by (meson converse_rtranclp_into_rtranclp rtranclp.rtrancl_refl)
  then show "\<exists>s. (race marshal False)\<^sup>*\<^sup>* (c, [], False) s \<and> cl_closed (fst s) \<and> snd (snd s)"
    by (intro exI [of _ "(client_Close c, [event], True)"]) (simp add: client_Close_def)
qed

theorem send_close_race_witness:
  "\<exists>s. (race (\<lambda>_. Inr '''') False)\<^sup>*\<^sup>* (small_client ''x'', [], False) s \<and> snd (snd s)"
proof -
  have "\<not> cl_closed (small_client ''x'') \<and> passesFilters (\<lambda>_. Inr '''') (NewSystemEvent (0, ''u'', 0) ''heartbeat'' None) (small_client ''x'')"
    by (simp add: small_client_def passesFilters_def)
  with send_close_race [of "\<lambda>_. Inr ''''" "small_client ''x''" "NewSystemEvent (0, ''u'', 0) ''heartbeat'' None"] show ?thesis by blast
qed

section \<open>Delivery\<close>

text \<open>What a broadcast does to one registered client.\<close>

definition deliver :: "(data \<Rightarrow> string result) \<Rightarrow> (string \<Rightarrow> bool) \<Rightarrow> Event \<Rightarrow> Client \<Rightarrow> Client" where
  "deliver marshal allow event c =
     (if \<not> IsAlive c \<or> \<not> passesFilters marshal event c then c
      else if allow (cl_ID c) \<and> int (length (cl_Send c)) < clc_BufferSize (cl_config c) then c\<lparr>cl_Send := cl_Send c @ [event]\<rparr>
      else c\<lparr>cl_eventsDropped := wrap64 (cl_eventsDropped c + 1)\<rparr>)"

lemma SendEvent_alive: "IsAlive c \<Longrightarrow> \<exists>eo. SendEvent marshal (allow (cl_ID c)) event c = Ret (eo, deliver marshal allow event c)"
  by (auto simp: IsAlive_def SendEvent_def send_enter_def send_put_def deliver_def split: option.splits)

lemma send_all_objs:
  assumes "distinct (map snd cs)" and "\<forall>x \<in> set cs. snd x < length (em_objs m)"
  shows "\<exists>m'. send_all marshal allow event cs m = Ret m' \<and>
     m' = m\<lparr>em_objs := map (\<lambda>(i, c). if i \<in> snd ` set cs then deliver marshal allow event c else c) (enumerate 0 (em_objs m))\<rparr>"
  using assms
proof (induction cs arbitrary: m)
  case Nil
  have "map snd (enumerate 0 (em_objs m)) = em_objs m" by simp
  then have "map (\<lambda>(i, c). c) (enumerate 0 (em_objs m)) = em_objs m" by (simp add: case_prod_unfold)
  then show ?case by simp
next
  case (Cons x cs)
  obtain k a where x: "x = (k, a)" by fastforce
  let ?m1 = "on_client a (\<lambda>_. deliver marshal allow event (em_objs m ! a)) m"
  have step: "send_all marshal allow event ((k, a) # cs) m = send_all marshal allow event cs ?m1"
  proof (cases "IsAlive (em_objs m ! a)")
    case True
    obtain eo where "SendEvent marshal (allow (cl_ID (em_objs m ! a))) event (em_objs m ! a) =
        Ret (eo, deliver marshal allow event (em_objs m ! a))" using SendEvent_alive [OF True] by blast
    then show ?thesis using True by simp
  next
    case False
    then show ?thesis by (simp add: deliver_def on_client_def)
  qed
  have e: "map (\<lambda>(i, c). if i \<in> snd ` set cs then deliver marshal allow event c else c) (enumerate 0 (em_objs ?m1)) =
      map (\<lambda>(i, c). if i \<in> snd ` set ((k, a) # cs) then deliver marshal allow event c else c) (enumerate 0 (em_objs m))"
    using Cons.prems x by (intro nth_equalityI) (auto simp: on_client_def nth_enumerate_eq nth_list_update)
  have "\<exists>m'. send_all marshal allow event cs ?m1 = Ret m' \<and> m' = ?m1\<lparr>em_objs := map (\<lambda>(i, c). if i \<in> snd ` set cs then deliver marshal allow event c else c) (enumerate 0 (em_objs ?m1))\<rparr>"
    using Cons.prems x by (intro Cons.IH) (auto simp: on_client_def)
  then show ?case unfolding step x e by (simp add: on_client_def)
qed

lemma handleBroadcast_exact:
  assumes "em_reach marshal cfg m"
  shows "\<exists>m'. handleBroadcast marshal allow event m = Ret m' \<and> length (em_objs m') = length (em_objs m) \<and>
    (\<forall>i < length (em_objs m). em_objs m' ! i =
       (if i \<in> snd ` set (em_clients m) then deliver marshal allow event (em_objs m ! i) else em_objs m ! i))"
proof -
  have t: "tables_ok (map cl_ID (em_objs m)) (em_clients m) (em_topics m)" using em_reach_inv [OF assms] by (simp add: em_inv_def)
  have same: "fst x = fst y" if "x \<in> set (em_clients m)" "y \<in> set (em_clients m)" "snd x = snd y" for x y
    using t that by (metis tables_ok_def)
  have "distinct (map snd (em_clients m))"
  proof -
    have "distinct (em_clients m)" "inj_on fst (set (em_clients m))" using t by (simp_all add: tables_ok_def distinct_map)
    then have "inj_on snd (set (em_clients m))" using same by (metis inj_on_def)
    with \<open>distinct (em_clients m)\<close> show ?thesis by (simp add: distinct_map)
  qed
  moreover have "\<forall>x \<in> set (em_clients m). snd x < length (em_objs m)" using t by (simp add: tables_ok_def)
  ultimately show ?thesis
    using send_all_objs [of "em_clients m" m marshal allow event] by (auto simp: handleBroadcast_def nth_enumerate_eq)
qed

end
