(* ===== verification/SSE_Stream.thy ===== *)
theory SSE_Stream
  imports SSE_Manager
begin

text \<open>
  The text of an event stream: what a connection writes (\<open>ServeSSE\<close>, \<open>sendEvent\<close> and \<open>sendMissedEvents\<close> of
  \<open>pkg/api/v1/sse/client.go\<close>) and how the Go client reads it (\<open>connectAndStream\<close> of \<open>pkg/clients/go/sse.go\<close>).

  \<^item> \<open>events\<close> is what \<open>ServeSSE\<close> receives from the channel before it is closed or the context ends. \<open>wr n\<close> is the
    outcome of the \<open>n\<close>-th write: \<open>None\<close>, or an error and the number of characters written before it.
  \<^item> The reader is modelled from the response body on: \<open>bufio.Scanner\<close> splits it into lines of less than 64
    KiB, \<open>unmarshal\<close> is \<open>json.Unmarshal\<close> into a map that may have entries already. \<open>se_done\<close> says
    whether the context has ended when a line is read, \<open>se_late\<close> and \<open>se_room\<close> whether it has ended and whether
    the channel of events has room when an event is sent; if both are ready, \<open>se_pick\<close> says whether the
    context is taken.
\<close>

section \<open>The writer\<close>

abbreviation nl :: char where "nl \<equiv> CHR 0x0A"

text \<open>The message that \<open>sendEvent\<close> builds.\<close>

definition event_message :: "(data \<Rightarrow> string result) \<Rightarrow> Event \<Rightarrow> string" where
  "event_message marshal event =
     (if event_GetID event \<noteq> '''' then ''id: '' @ event_GetID event @ [nl] else '''') @
     (if event_GetType event \<noteq> '''' then ''event: '' @ event_GetType event @ [nl] else '''') @
     ''data: '' @ event_GetData marshal event @ [nl, nl]"

definition written :: "(error \<times> nat) option \<Rightarrow> string \<Rightarrow> string" where
  "written w s = (case w of None \<Rightarrow> s | Some (_, n) \<Rightarrow> take n s)"

definition sse_sendEvent ::
    "(data \<Rightarrow> string result) \<Rightarrow> (error \<times> nat) option \<Rightarrow> time \<Rightarrow> Event \<Rightarrow> Client \<Rightarrow> error option \<times> string \<times> Client" where
  "sse_sendEvent marshal w now event c =
     (if cl_closed c then (Some ErrClientClosed, '''', c)
      else let c1 = (if event_GetID event \<noteq> '''' then c\<lparr>cl_LastEventID := event_GetID event\<rparr> else c);
               out = written w (event_message marshal event)
           in case w of
                Some (e, _) \<Rightarrow> (Some (WrapError ''failed to send SSE event: '' e), out, c1)
              | None \<Rightarrow> (None, out, c1\<lparr>cl_eventsSent := wrap64 (cl_eventsSent c1 + 1), cl_lastActivity := now\<rparr>))"

definition sendMissedEvents ::
    "(data \<Rightarrow> string result) \<Rightarrow> (error \<times> nat) option \<Rightarrow> time \<Rightarrow> time \<times> string \<times> time \<Rightarrow> any \<Rightarrow> Client \<Rightarrow> string \<times> Client" where
  "sendMissedEvents marshal w now fresh timestamp c =
     snd (sse_sendEvent marshal w now
       (NewSystemEvent fresh ''client.reconnected''
         (Some [''client_id'' \<mapsto> AString (cl_ID c), ''last_event_id'' \<mapsto> AString (cl_LastEventID c), ''timestamp'' \<mapsto> timestamp])) c)"

fun serve_loop ::
    "(data \<Rightarrow> string result) \<Rightarrow> (nat \<Rightarrow> (error \<times> nat) option) \<Rightarrow> (nat \<Rightarrow> time) \<Rightarrow> nat \<Rightarrow> Event list \<Rightarrow> Client \<Rightarrow> string \<times> Client" where
  "serve_loop marshal wr clk n [] c = ('''', c)"
| "serve_loop marshal wr clk n (event # events) c =
     (case sse_sendEvent marshal (wr n) (clk n) event c of
        (Some _, out, c1) \<Rightarrow> (out, c1)
      | (None, out, c1) \<Rightarrow> (let (rest, c2) = serve_loop marshal wr clk (Suc n) events c1 in (out @ rest, c2)))"

definition ServeSSE ::
    "(data \<Rightarrow> string result) \<Rightarrow> (nat \<Rightarrow> (error \<times> nat) option) \<Rightarrow> (nat \<Rightarrow> time) \<Rightarrow> time \<times> string \<times> time \<Rightarrow> any \<Rightarrow>
     Event list \<Rightarrow> Client \<Rightarrow> string \<times> Client" where
  "ServeSSE marshal wr clk fresh timestamp events c =
     (let hello = written (wr 0) (''retry: 5000'' @ [nl, nl])
      in case wr 0 of
           Some _ \<Rightarrow> (hello, client_Close c)
         | None \<Rightarrow>
             (let (missed, c1) = (if cl_LastEventID c \<noteq> '''' then sendMissedEvents marshal (wr 1) (clk 1) fresh timestamp c else ('''', c));
                  (out, c2) = serve_loop marshal wr clk 2 events c1
              in (hello @ missed @ out, client_Close c2)))"

section \<open>The reader\<close>

record SSEEvent =
  sev_ID :: string
  sev_Type :: string
  sev_Data :: data

definition zeroEvent :: SSEEvent where
  "zeroEvent = \<lparr>sev_ID = '''', sev_Type = '''', sev_Data = None\<rparr>"

text \<open>\<open>bufio.Scanner\<close> with \<open>ScanLines\<close>: a final line without line end counts if it is not empty, a carriage return
  at the end of a line is dropped, and a line that does not fit into the buffer of 64 KiB ends the scan.\<close>

definition MaxScanTokenSize :: nat where "MaxScanTokenSize = 65536"

definition drop_cr :: "string \<Rightarrow> string" where
  "drop_cr s = (if s \<noteq> [] \<and> last s = CHR 0x0D then butlast s else s)"

definition scan_tokens :: "string \<Rightarrow> string list" where
  "scan_tokens s = (let ps = split_on nl s in if last ps = '''' then butlast ps else ps)"

definition scan_lines :: "string \<Rightarrow> string list \<times> error option" where
  "scan_lines s =
     (let ts = scan_tokens s;
          short = (\<lambda>t. length t < MaxScanTokenSize)
      in (map drop_cr (takeWhile short ts),
          if list_all short ts then None else Some (ErrorString ''bufio.Scanner: token too long'')))"

record StreamEnv =
  se_done :: "nat \<Rightarrow> bool"
  se_late :: "nat \<Rightarrow> bool"
  se_room :: "nat \<Rightarrow> bool"
  se_pick :: "nat \<Rightarrow> bool"

text \<open>The loop over the lines; \<open>lst\<close> is \<open>c.lastEventID\<close>, \<open>out\<close> what was put into the channel of events. The first
  component of the result says whether the loop ran to the end of the lines (otherwise the call returns nil).\<close>

fun stream_loop ::
    "StreamEnv \<Rightarrow> (data \<Rightarrow> string \<Rightarrow> data result) \<Rightarrow> nat \<Rightarrow> string list \<Rightarrow> SSEEvent \<Rightarrow> string \<Rightarrow> SSEEvent list \<Rightarrow>
     bool \<times> string \<times> SSEEvent list" where
  "stream_loop env unmarshal n [] event lst out = (True, lst, out)"
| "stream_loop env unmarshal n (line # lines) event lst out =
     (if se_done env n then (False, lst, out)
      else if has_prefix line ''data: '' then
        (case unmarshal (sev_Data event) (trim_prefix line ''data: '') of
           Inl _ \<Rightarrow> stream_loop env unmarshal (Suc n) lines event lst out
         | Inr d \<Rightarrow> stream_loop env unmarshal (Suc n) lines (event\<lparr>sev_Data := d\<rparr>) lst out)
      else if has_prefix line ''event: '' then
        stream_loop env unmarshal (Suc n) lines (event\<lparr>sev_Type := trim_prefix line ''event: ''\<rparr>) lst out
      else if has_prefix line ''id: '' then
        (let i = trim_prefix line ''id: '' in stream_loop env unmarshal (Suc n) lines (event\<lparr>sev_ID := i\<rparr>) i out)
      else if has_prefix line ''retry: '' then stream_loop env unmarshal (Suc n) lines event lst out
      else if line = '''' then
        (if sev_Type event \<noteq> '''' then
           (if se_late env n \<and> (se_pick env n \<or> \<not> se_room env n) then (False, lst, out)
            else if se_room env n then stream_loop env unmarshal (Suc n) lines zeroEvent lst (out @ [event])
            else stream_loop env unmarshal (Suc n) lines zeroEvent lst out)
         else stream_loop env unmarshal (Suc n) lines zeroEvent lst out)
      else stream_loop env unmarshal (Suc n) lines event lst out)"

definition stream_body ::
    "StreamEnv \<Rightarrow> (data \<Rightarrow> string \<Rightarrow> data result) \<Rightarrow> string \<Rightarrow> string \<Rightarrow> error option \<times> string \<times> SSEEvent list" where
  "stream_body env unmarshal lst body =
     (let (lines, err) = scan_lines body;
          (ended, lst', out) = stream_loop env unmarshal 0 lines zeroEvent lst []
      in (if ended then map_option (WrapError ''SSE stream error: '') err else None, lst', out))"

section \<open>The reader reads what the writer wrote\<close>

definition event_lines :: "(data \<Rightarrow> string result) \<Rightarrow> Event \<Rightarrow> string list" where
  "event_lines marshal event =
     (if event_GetID event \<noteq> '''' then [''id: '' @ event_GetID event] else []) @
     (if event_GetType event \<noteq> '''' then [''event: '' @ event_GetType event] else []) @
     [''data: '' @ event_GetData marshal event, '''']"

abbreviation lines_text :: "string list \<Rightarrow> string" where
  "lines_text ls \<equiv> concat (map (\<lambda>l. l @ [nl]) ls)"

lemma event_message_lines: "event_message marshal event = lines_text (event_lines marshal event)"
  by (simp add: event_message_def event_lines_def)

lemma event_messages_lines: "concat (map (event_message marshal) events) = lines_text (concat (map (event_lines marshal) events))"
  by (induction events) (simp_all add: event_message_lines)

lemma split_on_lines: "\<forall>l \<in> set ls. nl \<notin> set l \<Longrightarrow> split_on nl (lines_text ls) = ls @ [[]]"
  by (induction ls) (simp_all add: split_on_sep)

text \<open>A text that is one field of a line.\<close>

definition plain :: "string \<Rightarrow> bool" where
  "plain s \<longleftrightarrow> nl \<notin> set s \<and> (s \<noteq> [] \<longrightarrow> last s \<noteq> CHR 0x0D) \<and> length s + 7 < MaxScanTokenSize"

definition clean :: "(data \<Rightarrow> string result) \<Rightarrow> (data \<Rightarrow> string \<Rightarrow> data result) \<Rightarrow> Event \<Rightarrow> bool" where
  "clean marshal unmarshal event \<longleftrightarrow> plain (event_GetID event) \<and> plain (event_GetType event) \<and> plain (event_GetData marshal event) \<and>
     unmarshal None (event_GetData marshal event) = Inr (be_Data (event_base event))"

definition line_ok :: "string \<Rightarrow> bool" where
  "line_ok l \<longleftrightarrow> nl \<notin> set l \<and> drop_cr l = l \<and> length l < MaxScanTokenSize"

lemma scan_lines_ok: "\<forall>l \<in> set ls. line_ok l \<Longrightarrow> scan_lines (lines_text ls) = (ls, None)"
proof -
  assume ok: "\<forall>l \<in> set ls. line_ok l"
  have "split_on nl (lines_text ls) = ls @ [[]]" using ok by (intro split_on_lines) (simp add: line_ok_def)
  moreover have tw: "takeWhile (\<lambda>t. length t < MaxScanTokenSize) ls = ls" using ok by (simp add: line_ok_def)
  moreover have "map drop_cr ls = ls" using ok by (simp add: map_idI line_ok_def)
  moreover have "list_all (\<lambda>t. length t < MaxScanTokenSize) ls" using ok by (simp add: list_all_iff line_ok_def)
  ultimately show ?thesis by (simp add: scan_lines_def scan_tokens_def Let_def tw)
qed

lemma plain_line: "plain s \<Longrightarrow> line_ok (''id: '' @ s)" "plain s \<Longrightarrow> line_ok (''event: '' @ s)" "plain s \<Longrightarrow> line_ok (''data: '' @ s)"
  by (auto simp: plain_def line_ok_def drop_cr_def)

lemma line_ok_Nil: "line_ok ''''"
  by (simp add: line_ok_def drop_cr_def MaxScanTokenSize_def)

lemma event_lines_ok: "clean marshal unmarshal event \<Longrightarrow> \<forall>l \<in> set (event_lines marshal event). line_ok l"
  using plain_line [of "event_GetID event"] plain_line [of "event_GetType event"] plain_line [of "event_GetData marshal event"] line_ok_Nil
  by (auto simp: clean_def event_lines_def)

definition quiet :: "StreamEnv \<Rightarrow> bool" where
  "quiet env \<longleftrightarrow> (\<forall>n. \<not> se_done env n \<and> \<not> se_late env n \<and> se_room env n)"

definition decoded :: "Event \<Rightarrow> SSEEvent" where
  "decoded event = \<lparr>sev_ID = event_GetID event, sev_Type = event_GetType event, sev_Data = be_Data (event_base event)\<rparr>"

lemma prefix_other:
  "\<not> has_prefix (''id: '' @ s) ''data: ''" "\<not> has_prefix (''id: '' @ s) ''event: ''" "\<not> has_prefix (''event: '' @ s) ''data: ''"
  "has_prefix (p @ s) p" "trim_prefix (p @ s) p = s" "\<not> has_prefix '''' ''data: ''" "\<not> has_prefix '''' ''event: ''" "\<not> has_prefix '''' ''id: ''"
  "\<not> has_prefix '''' ''retry: ''"
  by (simp_all add: has_prefix_def trim_prefix_def)

lemma stream_loop_step:
  assumes "quiet env"
  shows "stream_loop env unmarshal n ((''id: '' @ s) # ls) e lst out = stream_loop env unmarshal (Suc n) ls (e\<lparr>sev_ID := s\<rparr>) s out"
    and "stream_loop env unmarshal n ((''event: '' @ s) # ls) e lst out = stream_loop env unmarshal (Suc n) ls (e\<lparr>sev_Type := s\<rparr>) lst out"
    and "unmarshal (sev_Data e) s = Inr d \<Longrightarrow>
      stream_loop env unmarshal n ((''data: '' @ s) # ls) e lst out = stream_loop env unmarshal (Suc n) ls (e\<lparr>sev_Data := d\<rparr>) lst out"
    and "stream_loop env unmarshal n ('''' # ls) e lst out =
      stream_loop env unmarshal (Suc n) ls zeroEvent lst (if sev_Type e \<noteq> '''' then out @ [e] else out)"
  using assms
  by (simp_all only: stream_loop.simps prefix_other quiet_def if_False if_True Let_def sum.case refl simp_thms)
    (auto split: if_splits)

lemmas stream_loop_lines = stream_loop_step [unfolded append_Cons append_Nil]

lemma stream_loop_event:
  assumes "quiet env" and "unmarshal None (event_GetData marshal event) = Inr (be_Data (event_base event))"
  shows "stream_loop env unmarshal n (event_lines marshal event @ ls) zeroEvent lst out =
    stream_loop env unmarshal (n + length (event_lines marshal event)) ls zeroEvent
      (if event_GetID event \<noteq> '''' then event_GetID event else lst) (out @ (if event_GetType event \<noteq> '''' then [decoded event] else []))"
  using assms(2)
  by (auto simp: event_lines_def stream_loop_lines [OF assms(1)] decoded_def zeroEvent_def simp del: stream_loop.simps)

lemma stream_loop_events:
  assumes "quiet env" and "\<forall>event \<in> set events. unmarshal None (event_GetData marshal event) = Inr (be_Data (event_base event))"
  shows "stream_loop env unmarshal n (concat (map (event_lines marshal) events)) zeroEvent lst out =
    (True, fold (\<lambda>event l. if event_GetID event \<noteq> '''' then event_GetID event else l) events lst,
     out @ map decoded (filter (\<lambda>event. event_GetType event \<noteq> '''') events))"
  using assms(2)
proof (induction events arbitrary: n lst out)
  case (Cons event events)
  then show ?case by (auto simp: stream_loop_event [OF assms(1)])
qed simp

text \<open>What a connection writes when every write succeeds.\<close>

lemma serve_loop_out:
  assumes "\<And>n. wr n = None" and "\<not> cl_closed c"
  shows "\<exists>c'. serve_loop marshal wr clk n events c = (concat (map (event_message marshal) events), c')"
  using assms(2)
proof (induction events arbitrary: n c)
  case (Cons event events)
  let ?c1 = "snd (snd (sse_sendEvent marshal None (clk n) event c))"
  have s: "sse_sendEvent marshal (wr n) (clk n) event c = (None, event_message marshal event, ?c1)" "\<not> cl_closed ?c1"
    using Cons.prems assms(1) by (simp_all add: sse_sendEvent_def Let_def written_def)
  obtain c' where "serve_loop marshal wr clk (Suc n) events ?c1 = (concat (map (event_message marshal) events), c')"
    using Cons.IH [OF s(2)] by blast
  then show ?case using s(1) by simp
qed simp

definition reconnect_event :: "time \<times> string \<times> time \<Rightarrow> any \<Rightarrow> Client \<Rightarrow> Event" where
  "reconnect_event fresh timestamp c = NewSystemEvent fresh ''client.reconnected''
     (Some [''client_id'' \<mapsto> AString (cl_ID c), ''last_event_id'' \<mapsto> AString (cl_LastEventID c), ''timestamp'' \<mapsto> timestamp])"

definition sent_events :: "time \<times> string \<times> time \<Rightarrow> any \<Rightarrow> Event list \<Rightarrow> Client \<Rightarrow> Event list" where
  "sent_events fresh timestamp events c = (if cl_LastEventID c \<noteq> '''' then [reconnect_event fresh timestamp c] else []) @ events"

lemma ServeSSE_out:
  assumes "\<And>n. wr n = None" and "\<not> cl_closed c"
  shows "fst (ServeSSE marshal wr clk fresh timestamp events c) =
    lines_text ([''retry: 5000'', ''''] @ concat (map (event_lines marshal) (sent_events fresh timestamp events c)))"
proof -
  let ?mc = "if cl_LastEventID c \<noteq> '''' then sendMissedEvents marshal (wr 1) (clk 1) fresh timestamp c else ('''', c)"
  have m: "fst ?mc = concat (map (event_message marshal) (if cl_LastEventID c \<noteq> '''' then [reconnect_event fresh timestamp c] else []))"
    "\<not> cl_closed (snd ?mc)"
    using assms by (simp_all add: sendMissedEvents_def sse_sendEvent_def Let_def written_def reconnect_event_def)
  obtain c' where l: "serve_loop marshal wr clk 2 events (snd ?mc) = (concat (map (event_message marshal) events), c')"
    using serve_loop_out [of wr, OF assms(1) m(2)] by blast
  have "fst (ServeSSE marshal wr clk fresh timestamp events c) =
      ''retry: 5000'' @ [nl, nl] @ fst ?mc @ fst (serve_loop marshal wr clk 2 events (snd ?mc))"
    unfolding ServeSSE_def Let_def using assms(1) by (simp add: written_def case_prod_unfold)
  then show ?thesis
    unfolding m(1) l sent_events_def by (simp add: event_messages_lines)
qed


definition quiet_env :: StreamEnv where
  "quiet_env = \<lparr>se_done = (\<lambda>_. False), se_late = (\<lambda>_. False), se_room = (\<lambda>_. True), se_pick = (\<lambda>_. False)\<rparr>"


text \<open>A line of 64 KiB or more (the data of a crash event has the whole stack trace) breaks the stream: the reader
  stops before it and reports an error, and the events behind it are lost.\<close>

lemma long_line_breaks_stream:
  assumes "\<forall>l \<in> set ls. line_ok l" and "nl \<notin> set l" and "MaxScanTokenSize \<le> length l"
  shows "fst (scan_lines (lines_text ls @ l @ [nl] @ rest)) = ls" and "snd (scan_lines (lines_text ls @ l @ [nl] @ rest)) \<noteq> None"
proof -
  let ?short = "\<lambda>t. length t < MaxScanTokenSize"
  have sp: "split_on nl (lines_text xs @ l @ nl # rest) = xs @ l # split_on nl rest" if "\<forall>l \<in> set xs. line_ok l" for xs
    using that assms(2) by (induction xs) (simp_all add: line_ok_def split_on_sep)
  have ne: "split_on nl rest \<noteq> []" by (rule split_on_nonempty)
  define ts where "ts = (if last (split_on nl rest) = '''' then butlast (split_on nl rest) else split_on nl rest)"
  have ts: "scan_tokens (lines_text ls @ l @ [nl] @ rest) = ls @ l # ts"
    using ne sp [OF assms(1)] by (simp add: scan_tokens_def ts_def butlast_append)
  have tw: "takeWhile ?short (ls @ l # ts) = ls" "\<not> list_all ?short (ls @ l # ts)"
    using assms(1,3) by (auto simp: takeWhile_append line_ok_def takeWhile_eq_all_conv)
  have "map drop_cr ls = ls" using assms(1) by (simp add: map_idI line_ok_def)
  then have "scan_lines (lines_text ls @ l @ [nl] @ rest) = (ls, Some (ErrorString ''bufio.Scanner: token too long''))"
    unfolding scan_lines_def Let_def ts tw using tw(2) by simp
  then show "fst (scan_lines (lines_text ls @ l @ [nl] @ rest)) = ls" "snd (scan_lines (lines_text ls @ l @ [nl] @ rest)) \<noteq> None" by simp_all
qed

end
