(* ===== verification/Campaign_Service.thy ===== *)
theory Campaign_Service
  imports Master_State Sqlite_Layer Go_Float
begin

text \<open>
  Campaigns on the side of the master: the service (\<open>pkg/service/campaign_service.go\<close>) and the queries of
  \<open>SQLiteStorage\<close> it uses (\<open>pkg/storage/campaign_queries.go\<close>).

  \<^item> Jobs and their configuration are those of \<open>Master_State\<close>; a status of a campaign is its string.
  \<^item> A map of updates is the list of its entries, with a constructor per Go type of the values: \<open>CTime\<close> is a
    \<open>time.Time\<close>, \<open>CTimePtr\<close> a \<open>*time.Time\<close>, \<open>CNil\<close> an untyped \<open>nil\<close>.
  \<^item> \<open>common.JobService\<close> has no implementation in the repository: it is a record of functions, and \<open>None\<close> when
    the service was built without one, which is how \<open>pkg/service/manager.go\<close> builds it.
  \<^item> The tables are lists of rows behind the retry layer; the job template and the tags are encoded as JSON
    and come back as they were. Jobs are stored by other parts. Log lines are left out.
\<close>

section \<open>Data\<close>

definition CampaignStatusPending :: string where "CampaignStatusPending = ''pending''"
definition CampaignStatusRunning :: string where "CampaignStatusRunning = ''running''"
definition CampaignStatusCompleted :: string where "CampaignStatusCompleted = ''completed''"
definition CampaignStatusFailed :: string where "CampaignStatusFailed = ''failed''"
definition CampaignStatusPaused :: string where "CampaignStatusPaused = ''paused''"
definition CampaignStatusCancelled :: string where "CampaignStatusCancelled = ''cancelled''"

lemmas campaign_status_defs = CampaignStatusPending_def CampaignStatusRunning_def CampaignStatusCompleted_def CampaignStatusFailed_def
  CampaignStatusPaused_def CampaignStatusCancelled_def

record CommonCampaign =
  cc_ID :: string
  cc_Name :: string
  cc_Description :: string
  cc_Status :: string
  cc_TargetBinary :: string
  cc_BinaryHash :: string
  cc_CreatedAt :: time
  cc_UpdatedAt :: time
  cc_CompletedAt :: "time option"
  cc_AutoRestart :: bool
  cc_MaxDuration :: duration
  cc_MaxJobs :: int
  cc_JobTemplate :: MasterJobConfig
  cc_SharedCorpus :: bool
  cc_Tags :: "string list"

record CampaignFilters =
  cf_StatusFilter :: string
  cf_TagFilter :: "string list"
  cf_HashFilter :: string
  cf_Limit :: int
  cf_Offset :: int

record CampaignUpdates =
  cu_Name :: "string option"
  cu_Description :: "string option"
  cu_Status :: "string option"
  cu_AutoRestart :: "bool option"
  cu_MaxDuration :: "duration option"
  cu_MaxJobs :: "int option"
  cu_SharedCorpus :: "bool option"
  cu_Tags :: "string list"

datatype cval = CStr string | CBool bool | CInt int | CDur duration | CTime time | CTimePtr "time option" | CNil | CTags "string list"

type_synonym campaign_updates = "(string \<times> cval) list"

record 'd CampaignStorage =
  cst_CreateCampaign :: "CommonCampaign \<Rightarrow> 'd \<Rightarrow> error option \<times> 'd"
  cst_GetCampaign :: "string \<Rightarrow> 'd \<Rightarrow> CommonCampaign result \<times> 'd"
  cst_ListCampaigns :: "int \<Rightarrow> int \<Rightarrow> string \<Rightarrow> 'd \<Rightarrow> CommonCampaign list result \<times> 'd"
  cst_UpdateCampaign :: "string \<Rightarrow> campaign_updates \<Rightarrow> 'd \<Rightarrow> error option \<times> 'd"
  cst_DeleteCampaign :: "string \<Rightarrow> 'd \<Rightarrow> error option \<times> 'd"
  cst_GetCampaignJobs :: "string \<Rightarrow> 'd \<Rightarrow> MasterJob list result \<times> 'd"
  cst_LinkJobToCampaign :: "string \<Rightarrow> string \<Rightarrow> 'd \<Rightarrow> error option \<times> 'd"

text \<open>\<open>CreateJob\<close> may change the job it is given; \<open>UpdateJob\<close> is called with a status only.\<close>

record 'd JobService =
  js_CreateJob :: "MasterJob \<Rightarrow> 'd \<Rightarrow> error option \<times> MasterJob \<times> 'd"
  js_UpdateJob :: "string \<Rightarrow> MasterJobStatus \<Rightarrow> 'd \<Rightarrow> error option \<times> 'd"

section \<open>The service\<close>

definition campaign_table :: "(string \<times> string list) list" where
  "campaign_table =
     [(CampaignStatusPending, [CampaignStatusRunning, CampaignStatusCancelled]),
      (CampaignStatusRunning, [CampaignStatusPaused, CampaignStatusCompleted, CampaignStatusFailed]),
      (CampaignStatusPaused, [CampaignStatusRunning, CampaignStatusCancelled]),
      (CampaignStatusCompleted, [CampaignStatusRunning]),
      (CampaignStatusFailed, [CampaignStatusRunning])]"

definition validateStatusTransition :: "string \<Rightarrow> string \<Rightarrow> error option" where
  "validateStatusTransition from to =
     (case map_of campaign_table from of
        None \<Rightarrow> Some (ErrorString (''invalid current status: '' @ from))
      | Some allowed \<Rightarrow> if to \<in> set allowed then None
          else Some (ErrorString (''invalid status transition from '' @ from @ '' to '' @ to)))"

definition hasAnyTag :: "string list \<Rightarrow> string list \<Rightarrow> bool" where
  "hasAnyTag campaignTags filterTags = list_ex (\<lambda>tag. tag \<in> set campaignTags) filterTags"

definition campaign_List :: "'d CampaignStorage \<Rightarrow> CampaignFilters \<Rightarrow> 'd \<Rightarrow> CommonCampaign list result \<times> 'd" where
  "campaign_List S filters d =
     (let limit0 = (if cf_Limit filters \<le> 0 then 50 else cf_Limit filters); limit1 = (if limit0 > 100 then 100 else limit0)
      in case cst_ListCampaigns S limit1 (cf_Offset filters) (cf_StatusFilter filters) d of
           (Inl e, d1) \<Rightarrow> (Inl (WrapError ''failed to list campaigns: '' e), d1)
         | (Inr cs, d1) \<Rightarrow>
             (let cs1 = (if cf_TagFilter filters \<noteq> [] then filter (\<lambda>c. hasAnyTag (cc_Tags c) (cf_TagFilter filters)) cs else cs);
                  cs2 = (if cf_HashFilter filters \<noteq> '''' then filter (\<lambda>c. cc_BinaryHash c = cf_HashFilter filters) cs1 else cs1)
              in (Inr cs2, d1)))"

text \<open>The jobs that \<open>createJobsForCampaign\<close> counts as active, and the one it creates in round \<open>i\<close>. \<open>uuid\<close> and \<open>clk\<close>
  are the random numbers and the clock.\<close>

definition counts_active :: "MasterJob \<Rightarrow> bool" where
  "counts_active job \<longleftrightarrow> mj_Status job = JobPending \<or> mj_Status job = JobRunning"

definition campaign_job :: "(nat \<Rightarrow> string) \<Rightarrow> (nat \<Rightarrow> time) \<Rightarrow> CommonCampaign \<Rightarrow> nat \<Rightarrow> nat \<Rightarrow> MasterJob" where
  "campaign_job uuid clk campaign existing i =
     \<lparr>mj_ID = ''job-'' @ cc_ID campaign @ ''-'' @ itoa (int (existing + i + 1)) @ ''-'' @ uuid (2 * i),
      mj_Name = cc_Name campaign @ ''-job-'' @ itoa (int (existing + i + 1)), mj_Target = cc_TargetBinary campaign, mj_Fuzzer = ''afl++'',
      mj_Type = '''', mj_Status = JobPending, mj_AssignedBot = None, mj_CreatedAt = clk (2 * i), mj_StartedAt = None, mj_CompletedAt = None,
      mj_TimeoutAt = time_Add (clk (2 * i + 1)) (mjc_Duration (cc_JobTemplate campaign)),
      mj_WorkDir = ''/tmp/pandafuzz/'' @ cc_ID campaign @ ''/'' @ uuid (2 * i + 1), mj_Config = cc_JobTemplate campaign, mj_Progress = 0,
      mj_CampaignID = None, mj_CollectionID = None, mj_UseCampaignCorpus = False, mj_Metadata = None, mj_Priority = 0, mj_EnableCoverage = False,
      mj_CoverageFormat = '''', mj_RecoveryTimeout = None, mj_LeaseToken = None, mj_LeaseExpiresAt = None, mj_LastHeartbeat = None\<rparr>"

fun create_loop ::
    "'d CampaignStorage \<Rightarrow> 'd JobService \<Rightarrow> (nat \<Rightarrow> string) \<Rightarrow> (nat \<Rightarrow> time) \<Rightarrow> CommonCampaign \<Rightarrow> nat \<Rightarrow> nat \<Rightarrow> nat \<Rightarrow> 'd \<Rightarrow> 'd" where
  "create_loop S J uuid clk campaign existing i 0 d = d"
| "create_loop S J uuid clk campaign existing i (Suc n) d =
     (case js_CreateJob J (campaign_job uuid clk campaign existing i) d of
        (Some _, _, d1) \<Rightarrow> create_loop S J uuid clk campaign existing (Suc i) n d1
      | (None, job, d1) \<Rightarrow>
          create_loop S J uuid clk campaign existing (Suc i) n (snd (cst_LinkJobToCampaign S (cc_ID campaign) (mj_ID job) d1)))"

definition createJobsForCampaign ::
    "'d CampaignStorage \<Rightarrow> 'd JobService option \<Rightarrow> (nat \<Rightarrow> string) \<Rightarrow> (nat \<Rightarrow> time) \<Rightarrow> CommonCampaign \<Rightarrow> 'd \<Rightarrow> error option \<times> 'd" where
  "createJobsForCampaign S jobService uuid clk campaign d =
     (case cst_GetCampaignJobs S (cc_ID campaign) d of
        (Inl e, d1) \<Rightarrow> (Some (WrapError ''failed to get existing jobs: '' e), d1)
      | (Inr existingJobs, d1) \<Rightarrow>
          (let jobsToCreate = wrap64 (cc_MaxJobs campaign - int (length (filter counts_active existingJobs)))
           in if jobsToCreate \<le> 0 then (None, d1)
              else case jobService of
                     None \<Rightarrow> (Some (ErrorString ''job service not available for campaign restart''), d1)
                   | Some J \<Rightarrow> (None, create_loop S J uuid clk campaign (length existingJobs) 0 (nat jobsToCreate) d1)))"

text \<open>\<open>Create\<close> also fills in the caller's campaign: the result is its final value.\<close>

definition fill_campaign :: "(nat \<Rightarrow> string) \<Rightarrow> time \<Rightarrow> CommonCampaign \<Rightarrow> CommonCampaign" where
  "fill_campaign uuid now c =
     c\<lparr>cc_MaxJobs := (if cc_MaxJobs c \<le> 0 then 10 else cc_MaxJobs c), cc_ID := (if cc_ID c = '''' then ''campaign-'' @ uuid 0 else cc_ID c),
       cc_CreatedAt := now, cc_UpdatedAt := now, cc_Status := (if cc_Status c = '''' then CampaignStatusPending else cc_Status c)\<rparr>"

definition campaign_Create ::
    "'d CampaignStorage \<Rightarrow> 'd JobService option \<Rightarrow> (nat \<Rightarrow> string) \<Rightarrow> (nat \<Rightarrow> time) \<Rightarrow> CommonCampaign \<Rightarrow> 'd \<Rightarrow> error option \<times> 'd" where
  "campaign_Create S jobService uuid clk c0 d =
     (if cc_Name c0 = '''' then (Some (ErrorString ''campaign name is required''), d)
      else if cc_TargetBinary c0 = '''' then (Some (ErrorString ''target binary is required''), d)
      else let campaign = fill_campaign uuid (clk 0) c0
      in case cst_CreateCampaign S campaign d of
           (Some e, d1) \<Rightarrow> (Some (WrapError ''failed to create campaign: '' e), d1)
         | (None, d1) \<Rightarrow>
             if cc_Status campaign = CampaignStatusRunning
             then (case createJobsForCampaign S jobService (\<lambda>i. uuid (Suc i)) (\<lambda>i. clk (Suc i)) campaign d1 of
                     (Some e, d2) \<Rightarrow> (Some e, snd (cst_UpdateCampaign S (cc_ID campaign) [(''status'', CStr CampaignStatusFailed)] d2))
                   | (None, d2) \<Rightarrow> (None, d2))
             else (None, d1))"

definition campaign_Get :: "'d CampaignStorage \<Rightarrow> string \<Rightarrow> 'd \<Rightarrow> CommonCampaign result \<times> 'd" where
  "campaign_Get S i d =
     (case cst_GetCampaign S i d of (Inl e, d1) \<Rightarrow> (Inl (WrapError ''failed to get campaign: '' e), d1) | (Inr c, d1) \<Rightarrow> (Inr c, d1))"

definition update_map :: "time \<Rightarrow> CampaignUpdates \<Rightarrow> campaign_updates" where
  "update_map now u =
     (case cu_Name u of Some v \<Rightarrow> [(''name'', CStr v)] | None \<Rightarrow> []) @
     (case cu_Description u of Some v \<Rightarrow> [(''description'', CStr v)] | None \<Rightarrow> []) @
     (case cu_Status u of Some v \<Rightarrow> (''status'', CStr v) #
        (if v = CampaignStatusCompleted then [(''completed_at'', CTimePtr (Some now))] else []) | None \<Rightarrow> []) @
     (case cu_AutoRestart u of Some v \<Rightarrow> [(''auto_restart'', CBool v)] | None \<Rightarrow> []) @
     (case cu_MaxDuration u of Some v \<Rightarrow> [(''max_duration'', CDur v)] | None \<Rightarrow> []) @
     (case cu_MaxJobs u of Some v \<Rightarrow> [(''max_jobs'', CInt v)] | None \<Rightarrow> []) @
     (case cu_SharedCorpus u of Some v \<Rightarrow> [(''shared_corpus'', CBool v)] | None \<Rightarrow> []) @
     (if cu_Tags u \<noteq> [] then [(''tags'', CTags (cu_Tags u))] else [])"

definition campaign_Update ::
    "'d CampaignStorage \<Rightarrow> 'd JobService option \<Rightarrow> (nat \<Rightarrow> string) \<Rightarrow> (nat \<Rightarrow> time) \<Rightarrow> string \<Rightarrow> CampaignUpdates \<Rightarrow> 'd \<Rightarrow> error option \<times> 'd" where
  "campaign_Update S jobService uuid clk i u d =
     (case cst_GetCampaign S i d of
        (Inl e, d1) \<Rightarrow> (Some (WrapError ''failed to get campaign: '' e), d1)
      | (Inr campaign, d1) \<Rightarrow>
          (case (case cu_Status u of Some to \<Rightarrow> validateStatusTransition (cc_Status campaign) to | None \<Rightarrow> None) of
             Some e \<Rightarrow> (Some e, d1)
           | None \<Rightarrow>
               (case cst_UpdateCampaign S i (update_map (clk 0) u) d1 of
                  (Some e, d2) \<Rightarrow> (Some (WrapError ''failed to update campaign: '' e), d2)
                | (None, d2) \<Rightarrow>
                    if cu_Status u = Some CampaignStatusRunning
                    then (None, snd (createJobsForCampaign S jobService uuid (\<lambda>i. clk (Suc i)) (campaign\<lparr>cc_Status := CampaignStatusRunning\<rparr>) d2))
                    else (None, d2))))"

text \<open>The cancellations of \<open>Delete\<close>; their errors are ignored.\<close>

fun cancel_jobs :: "'d JobService \<Rightarrow> MasterJob list \<Rightarrow> 'd \<Rightarrow> 'd" where
  "cancel_jobs J [] d = d"
| "cancel_jobs J (job # jobs) d =
     cancel_jobs J jobs (if mj_Status job = JobRunning \<or> mj_Status job = JobPending then snd (js_UpdateJob J (mj_ID job) JobCancelled d) else d)"

definition campaign_Delete :: "'d CampaignStorage \<Rightarrow> 'd JobService option \<Rightarrow> string \<Rightarrow> 'd \<Rightarrow> error option \<times> 'd" where
  "campaign_Delete S jobService i d =
     (case cst_GetCampaign S i d of
        (Inl e, d1) \<Rightarrow> (Some (WrapError ''failed to get campaign: '' e), d1)
      | (Inr campaign, d1) \<Rightarrow>
          if cc_Status campaign = CampaignStatusRunning then (Some (ErrorString ''cannot delete running campaign''), d1)
          else let d2 = (case jobService of
                   None \<Rightarrow> d1
                 | Some J \<Rightarrow> (case cst_GetCampaignJobs S i d1 of (Inl _, d') \<Rightarrow> d' | (Inr jobs, d') \<Rightarrow> cancel_jobs J jobs d'))
               in case cst_DeleteCampaign S i d2 of
                    (Some e, d3) \<Rightarrow> (Some (WrapError ''failed to delete campaign: '' e), d3)
                  | (None, d3) \<Rightarrow> (None, d3))"

definition RestartCampaign ::
    "'d CampaignStorage \<Rightarrow> 'd JobService option \<Rightarrow> (nat \<Rightarrow> string) \<Rightarrow> (nat \<Rightarrow> time) \<Rightarrow> string \<Rightarrow> 'd \<Rightarrow> error option \<times> 'd" where
  "RestartCampaign S jobService uuid clk i d =
     (case cst_GetCampaign S i d of
        (Inl e, d1) \<Rightarrow> (Some (WrapError ''failed to get campaign: '' e), d1)
      | (Inr campaign, d1) \<Rightarrow>
          if cc_Status campaign \<noteq> CampaignStatusCompleted \<and> cc_Status campaign \<noteq> CampaignStatusFailed
          then (Some (ErrorString ''can only restart completed or failed campaigns''), d1)
          else (case cst_UpdateCampaign S i [(''status'', CStr CampaignStatusRunning), (''completed_at'', CNil)] d1 of
                  (Some e, d2) \<Rightarrow> (Some (WrapError ''failed to update campaign status: '' e), d2)
                | (None, d2) \<Rightarrow>
                    (case createJobsForCampaign S jobService uuid clk (campaign\<lparr>cc_Status := CampaignStatusRunning\<rparr>) d2 of
                       (Some e, d3) \<Rightarrow> (Some (WrapError ''failed to create jobs: '' e),
                          snd (cst_UpdateCampaign S i [(''status'', CStr CampaignStatusFailed)] d3))
                     | (None, d3) \<Rightarrow> (None, d3))))"

text \<open>The service's test for completion: the result says whether a restart is scheduled.\<close>

definition still_open :: "MasterJob \<Rightarrow> bool" where
  "still_open job \<longleftrightarrow> mj_Status job = JobPending \<or> mj_Status job = JobRunning \<or> mj_Status job = JobAssigned"

definition has_failed :: "MasterJob \<Rightarrow> bool" where
  "has_failed job \<longleftrightarrow> mj_Status job = JobFailed \<or> mj_Status job = JobTimedOut"

definition service_checkCampaignCompletion :: "'d CampaignStorage \<Rightarrow> time \<Rightarrow> string \<Rightarrow> 'd \<Rightarrow> bool result \<times> 'd" where
  "service_checkCampaignCompletion S now i d =
     (case cst_GetCampaign S i d of
        (Inl e, d1) \<Rightarrow> (Inl e, d1)
      | (Inr campaign, d1) \<Rightarrow>
          if cc_Status campaign \<noteq> CampaignStatusRunning then (Inr False, d1)
          else (case cst_GetCampaignJobs S i d1 of
                  (Inl e, d2) \<Rightarrow> (Inl e, d2)
                | (Inr jobs, d2) \<Rightarrow>
                    if list_ex still_open jobs then (Inr False, d2)
                    else let newStatus = (if list_ex has_failed jobs then CampaignStatusFailed else CampaignStatusCompleted)
                         in case cst_UpdateCampaign S i [(''status'', CStr newStatus), (''completed_at'', CTimePtr (Some now))] d2 of
                              (Some e, d3) \<Rightarrow> (Inl e, d3)
                            | (None, d3) \<Rightarrow> (Inr (cc_AutoRestart campaign \<and> newStatus = CampaignStatusCompleted), d3)))"

section \<open>The queries\<close>

record CampaignTables =
  cpt_campaigns :: "CommonCampaign list"
  cpt_jobs :: "MasterJob list"
  cpt_links :: "(string \<times> string) list"

definition ErrCampaignUnknown :: error where "ErrCampaignUnknown = ErrorString ''campaign not found''"

text \<open>\<open>int64(d.Seconds())\<close>\<close>

definition trunc_seconds :: "rat \<Rightarrow> int" where
  "trunc_seconds x = (if 0 \<le> x then \<lfloor>x\<rfloor> else \<lceil>x\<rceil>)"

definition duration_seconds :: "duration \<Rightarrow> int" where
  "duration_seconds d =
     (let sec = (if 0 \<le> d then d div Second else - ((- d) div Second)); nsec = d - sec * Second
      in case fadd (f_of_int sec) (fdiv (f_of_int nsec) (f_of_int Second)) of Fin x \<Rightarrow> trunc_seconds x | _ \<Rightarrow> 0)"

definition in_seconds :: "duration \<Rightarrow> duration" where
  "in_seconds d = wrap64 (duration_seconds d * Second)"

definition sqlite_CreateCampaign :: "Driver \<Rightarrow> DatabaseConfig \<Rightarrow> CommonCampaign \<Rightarrow> CampaignTables sqlw \<Rightarrow> error option \<times> CampaignTables sqlw" where
  "sqlite_CreateCampaign drv cfg c =
     retry_void drv cfg (\<lambda>s. exec_void (db_exec drv (\<lambda>t.
       if cc_ID c \<in> cc_ID ` set (cpt_campaigns t) then Inl (constraint_error ''campaigns.id'' 1555)
       else Inr (1, t\<lparr>cpt_campaigns := cpt_campaigns t @ [c\<lparr>cc_CompletedAt := None, cc_MaxDuration := in_seconds (cc_MaxDuration c)\<rparr>]\<rparr>)) s))"

definition sqlite_FindCampaign :: "Driver \<Rightarrow> DatabaseConfig \<Rightarrow> string \<Rightarrow> CampaignTables sqlw \<Rightarrow> CommonCampaign result \<times> CampaignTables sqlw" where
  "sqlite_FindCampaign drv cfg i = get_row drv cfg (\<lambda>t. Inr (find (\<lambda>c. cc_ID c = i) (cpt_campaigns t))) (Inl ErrCampaignUnknown)"

definition sqlite_AllCampaigns ::
    "Driver \<Rightarrow> DatabaseConfig \<Rightarrow> int \<Rightarrow> int \<Rightarrow> string \<Rightarrow> CampaignTables sqlw \<Rightarrow> CommonCampaign list result \<times> CampaignTables sqlw" where
  "sqlite_AllCampaigns drv cfg maxRows offset status =
     get_rows drv cfg (\<lambda>t.
       let cs = sort_key (\<lambda>c. - cc_CreatedAt c) (filter (\<lambda>c. status = '''' \<or> cc_Status c = status) (cpt_campaigns t))
       in if maxRows > 0 then take (nat maxRows) (drop (nat offset) cs) else cs)"

text \<open>What an entry of \<open>updates\<close> adds to the \<open>SET\<close> clause; fields without a case are ignored, and the callers pass
  values of the column's type. Only a \<open>*time.Time\<close> sets \<open>completed_at\<close>, everything else clears it.\<close>

definition set_column :: "string \<times> cval \<Rightarrow> CommonCampaign \<Rightarrow> CommonCampaign" where
  "set_column = (\<lambda>(field, value) c.
     if field = ''completed_at'' then c\<lparr>cc_CompletedAt := (case value of CTimePtr t \<Rightarrow> t | _ \<Rightarrow> None)\<rparr>
     else case value of
       CStr v \<Rightarrow> (if field = ''name'' then c\<lparr>cc_Name := v\<rparr> else if field = ''description'' then c\<lparr>cc_Description := v\<rparr>
                  else if field = ''status'' then c\<lparr>cc_Status := v\<rparr> else if field = ''target_binary'' then c\<lparr>cc_TargetBinary := v\<rparr>
                  else if field = ''binary_hash'' then c\<lparr>cc_BinaryHash := v\<rparr> else c)
     | CBool v \<Rightarrow> (if field = ''auto_restart'' then c\<lparr>cc_AutoRestart := v\<rparr> else if field = ''shared_corpus'' then c\<lparr>cc_SharedCorpus := v\<rparr> else c)
     | CInt v \<Rightarrow> (if field = ''max_jobs'' then c\<lparr>cc_MaxJobs := v\<rparr> else c)
     | CDur v \<Rightarrow> (if field = ''max_duration'' then c\<lparr>cc_MaxDuration := in_seconds v\<rparr> else c)
     | CTags v \<Rightarrow> (if field = ''tags'' then c\<lparr>cc_Tags := v\<rparr> else c)
     | _ \<Rightarrow> c)"

definition set_campaign :: "time \<Rightarrow> campaign_updates \<Rightarrow> CommonCampaign \<Rightarrow> CommonCampaign" where
  "set_campaign now updates c = fold set_column updates (c\<lparr>cc_UpdatedAt := now\<rparr>)"

definition update_campaigns :: "time \<Rightarrow> string \<Rightarrow> campaign_updates \<Rightarrow> CampaignTables \<Rightarrow> (nat \<times> CampaignTables) result" where
  "update_campaigns now i updates t =
     Inr (length (filter (\<lambda>c. cc_ID c = i) (cpt_campaigns t)),
          t\<lparr>cpt_campaigns := map (\<lambda>c. if cc_ID c = i then set_campaign now updates c else c) (cpt_campaigns t)\<rparr>)"

definition sqlite_UpdateCampaign ::
    "Driver \<Rightarrow> DatabaseConfig \<Rightarrow> time \<Rightarrow> string \<Rightarrow> campaign_updates \<Rightarrow> CampaignTables sqlw \<Rightarrow> error option \<times> CampaignTables sqlw" where
  "sqlite_UpdateCampaign drv cfg now i updates w =
     (if updates = [] then (None, w)
      else retry_void drv cfg (\<lambda>s. exec_one ErrCampaignUnknown (db_exec drv (update_campaigns now i updates) s)) w)"

definition sqlite_DeleteCampaign :: "Driver \<Rightarrow> DatabaseConfig \<Rightarrow> string \<Rightarrow> CampaignTables sqlw \<Rightarrow> error option \<times> CampaignTables sqlw" where
  "sqlite_DeleteCampaign drv cfg i =
     retry_void drv cfg (\<lambda>s. exec_one ErrCampaignUnknown (db_exec drv
       (\<lambda>t. Inr (length (filter (\<lambda>c. cc_ID c = i) (cpt_campaigns t)), t\<lparr>cpt_campaigns := filter (\<lambda>c. cc_ID c \<noteq> i) (cpt_campaigns t)\<rparr>)) s))"

definition jobs_of :: "string \<Rightarrow> CampaignTables \<Rightarrow> MasterJob list" where
  "jobs_of i t = filter (\<lambda>j. (i, mj_ID j) \<in> set (cpt_links t)) (cpt_jobs t)"

definition sqlite_CampaignJobs :: "Driver \<Rightarrow> DatabaseConfig \<Rightarrow> string \<Rightarrow> CampaignTables sqlw \<Rightarrow> MasterJob list result \<times> CampaignTables sqlw" where
  "sqlite_CampaignJobs drv cfg i = get_rows drv cfg (\<lambda>t. sort_key (\<lambda>j. - mj_CreatedAt j) (jobs_of i t))"

definition sqlite_LinkJobToCampaign ::
    "Driver \<Rightarrow> DatabaseConfig \<Rightarrow> string \<Rightarrow> string \<Rightarrow> CampaignTables sqlw \<Rightarrow> error option \<times> CampaignTables sqlw" where
  "sqlite_LinkJobToCampaign drv cfg i jobID =
     retry_void drv cfg (\<lambda>s. exec_void (db_exec drv (\<lambda>t.
       if (i, jobID) \<in> set (cpt_links t) then Inl (constraint_error ''campaign_jobs.campaign_id, campaign_jobs.job_id'' 1555)
       else Inr (1, t\<lparr>cpt_links := cpt_links t @ [(i, jobID)]\<rparr>)) s))"

text \<open>The storage; \<open>'x\<close> is the rest of the world, \<open>now\<close> is \<open>CURRENT_TIMESTAMP\<close>.\<close>

definition on_fst :: "('a \<Rightarrow> 'r \<times> 'a) \<Rightarrow> 'a \<times> 'x \<Rightarrow> 'r \<times> ('a \<times> 'x)" where
  "on_fst f = (\<lambda>(a, x). let (r, a') = f a in (r, (a', x)))"

definition sqlite_campaigns :: "Driver \<Rightarrow> DatabaseConfig \<Rightarrow> time \<Rightarrow> (CampaignTables sqlw \<times> 'x) CampaignStorage" where
  "sqlite_campaigns drv cfg now =
     \<lparr>cst_CreateCampaign = (\<lambda>c. on_fst (sqlite_CreateCampaign drv cfg c)),
      cst_GetCampaign = (\<lambda>i. on_fst (sqlite_FindCampaign drv cfg i)),
      cst_ListCampaigns = (\<lambda>l off st. on_fst (sqlite_AllCampaigns drv cfg l off st)),
      cst_UpdateCampaign = (\<lambda>i u. on_fst (sqlite_UpdateCampaign drv cfg now i u)),
      cst_DeleteCampaign = (\<lambda>i. on_fst (sqlite_DeleteCampaign drv cfg i)),
      cst_GetCampaignJobs = (\<lambda>i. on_fst (sqlite_CampaignJobs drv cfg i)),
      cst_LinkJobToCampaign = (\<lambda>i j. on_fst (sqlite_LinkJobToCampaign drv cfg i j))\<rparr>"

section \<open>Without faults\<close>

definition campaign_row :: "string \<Rightarrow> CampaignTables \<Rightarrow> CommonCampaign option" where
  "campaign_row i t = find (\<lambda>c. cc_ID c = i) (cpt_campaigns t)"

abbreviation campaign_tables :: "CampaignTables sqlw \<times> 'x \<Rightarrow> CampaignTables" where
  "campaign_tables d \<equiv> fst (fst d)"

definition set_row :: "string \<Rightarrow> (CommonCampaign \<Rightarrow> CommonCampaign) \<Rightarrow> CampaignTables \<Rightarrow> CampaignTables" where
  "set_row i f t = t\<lparr>cpt_campaigns := map (\<lambda>c. if cc_ID c = i then f c else c) (cpt_campaigns t)\<rparr>"

lemma set_row_simps [simp]:
  "(\<And>c. cc_ID (f c) = cc_ID c) \<Longrightarrow> campaign_row i (set_row i f t) = map_option f (campaign_row i t)"
  "cpt_jobs (set_row i f t) = cpt_jobs t" "cpt_links (set_row i f t) = cpt_links t" "jobs_of j (set_row i f t) = jobs_of j t"
proof -
  assume f: "\<And>c. cc_ID (f c) = cc_ID c"
  have "find (\<lambda>c. cc_ID c = i) (map (\<lambda>c. if cc_ID c = i then f c else c) cs) = map_option f (find (\<lambda>c. cc_ID c = i) cs)" for cs
    by (induction cs) (auto simp: f)
  then show "campaign_row i (set_row i f t) = map_option f (campaign_row i t)" by (simp add: campaign_row_def set_row_def)
qed (simp_all add: set_row_def jobs_of_def)

lemma set_campaign_status:
  "set_campaign now [(''status'', CStr s), (''completed_at'', v)] =
   (\<lambda>c. c\<lparr>cc_UpdatedAt := now, cc_Status := s, cc_CompletedAt := (case v of CTimePtr t \<Rightarrow> t | _ \<Rightarrow> None)\<rparr>)"
  by (rule ext) (simp add: set_campaign_def set_column_def)

lemma GetCampaign_healthy:
  assumes "0 \<le> dbc_MaxRetries cfg" and "campaign_row i t = Some c"
  shows "cst_GetCampaign (sqlite_campaigns healthy cfg now) i ((t, n), x) = (Inr c, ((t, Suc (Suc n)), x))"
  using assms by (simp add: sqlite_campaigns_def on_fst_def sqlite_FindCampaign_def campaign_row_def get_row_healthy [where v = c])

lemma GetCampaignJobs_healthy:
  "0 \<le> dbc_MaxRetries cfg \<Longrightarrow>
   cst_GetCampaignJobs (sqlite_campaigns healthy cfg now) i ((t, n), x) = (Inr (sort_key (\<lambda>j. - mj_CreatedAt j) (jobs_of i t)), ((t, Suc (Suc n)), x))"
  by (simp add: sqlite_campaigns_def on_fst_def sqlite_CampaignJobs_def get_rows_healthy)

lemma UpdateCampaign_healthy:
  assumes "0 \<le> dbc_MaxRetries cfg" and "campaign_row i t = Some c" and "u \<noteq> []"
  shows "cst_UpdateCampaign (sqlite_campaigns healthy cfg now) i u ((t, n), x) = (None, ((set_row i (set_campaign now u) t, Suc (Suc n)), x))"
proof -
  have "filter (\<lambda>c. cc_ID c = i) (cpt_campaigns t) \<noteq> []"
    using assms(2) find_row by (fastforce simp: campaign_row_def filter_empty_conv)
  then show ?thesis using assms(1,3)
    by (simp add: sqlite_campaigns_def on_fst_def sqlite_UpdateCampaign_def set_row_def
      retry_one_healthy [where t' = "t\<lparr>cpt_campaigns := map (\<lambda>c. if cc_ID c = i then set_campaign now u c else c) (cpt_campaigns t)\<rparr>"
        and k = "length (filter (\<lambda>c. cc_ID c = i) (cpt_campaigns t))"] update_campaigns_def)
qed

lemmas campaign_healthy = GetCampaign_healthy GetCampaignJobs_healthy UpdateCampaign_healthy

lemma LinkJobToCampaign_healthy:
  assumes "0 \<le> dbc_MaxRetries cfg" and "(i, j) \<notin> set (cpt_links t)"
  shows "cst_LinkJobToCampaign (sqlite_campaigns healthy cfg now) i j ((t, n), x) = (None, ((t\<lparr>cpt_links := cpt_links t @ [(i, j)]\<rparr>, Suc (Suc n)), x))"
  using assms by (simp add: sqlite_campaigns_def on_fst_def sqlite_LinkJobToCampaign_def
      retry_exec_healthy [where t' = "t\<lparr>cpt_links := cpt_links t @ [(i, j)]\<rparr>" and k = 1])

section \<open>The number of jobs\<close>

text \<open>A job service that stores what it is given.\<close>

definition stores_jobs :: "(CampaignTables sqlw \<times> 'x) JobService \<Rightarrow> bool" where
  "stores_jobs J \<longleftrightarrow> (\<forall>job t n x. js_CreateJob J job ((t, n), x) = (None, job, ((t\<lparr>cpt_jobs := cpt_jobs t @ [job]\<rparr>, n), x)))"

lemma itoa_no_minus: "CHR ''-'' \<notin> set (itoa (int k))"
  using digits_nat_digits digit_not by (fastforce simp: itoa_def)

lemma first_sep: "d \<notin> set a \<Longrightarrow> d \<notin> set b \<Longrightarrow> a @ d # xs = b @ d # ys \<Longrightarrow> a = b"
proof (induction a arbitrary: b)
  case Nil
  then show ?case by (cases b) auto
next
  case (Cons y a)
  then show ?case by (cases b) auto
qed

lemma campaign_job_ids: "mj_ID (campaign_job uuid clk c e i) = mj_ID (campaign_job uuid' clk' c e i') \<Longrightarrow> i = i'"
proof -
  assume "mj_ID (campaign_job uuid clk c e i) = mj_ID (campaign_job uuid' clk' c e i')"
  then have "itoa (int (e + i + 1)) @ CHR ''-'' # uuid (2 * i) = itoa (int (e + i' + 1)) @ CHR ''-'' # uuid' (2 * i')"
    by (simp add: campaign_job_def)
  then have "itoa (int (e + i + 1)) = itoa (int (e + i' + 1))" by (rule first_sep [OF itoa_no_minus itoa_no_minus])
  from itoa_inj [OF this] show ?thesis by simp
qed

text \<open>The jobs and links that the loop adds.\<close>

lemma create_loop_healthy:
  assumes "0 \<le> dbc_MaxRetries cfg" and "stores_jobs J"
    and "\<forall>k \<in> {i..<i + m}. (cc_ID c, mj_ID (campaign_job uuid clk c e k)) \<notin> set (cpt_links t)"
  shows "\<exists>n'. create_loop (sqlite_campaigns healthy cfg now) J uuid clk c e i m ((t, n), x) =
    ((t\<lparr>cpt_jobs := cpt_jobs t @ map (campaign_job uuid clk c e) [i..<i + m],
        cpt_links := cpt_links t @ map (\<lambda>k. (cc_ID c, mj_ID (campaign_job uuid clk c e k))) [i..<i + m]\<rparr>, n'), x)"
  using assms(3)
proof (induction m arbitrary: i t n)
  case (Suc m)
  let ?job = "campaign_job uuid clk c e i"
  let ?t = "t\<lparr>cpt_jobs := cpt_jobs t @ [?job], cpt_links := cpt_links t @ [(cc_ID c, mj_ID ?job)]\<rparr>"
  have "(cc_ID c, mj_ID ?job) \<notin> set (cpt_links (t\<lparr>cpt_jobs := cpt_jobs t @ [?job]\<rparr>))" using Suc.prems by simp
  then have "create_loop (sqlite_campaigns healthy cfg now) J uuid clk c e i (Suc m) ((t, n), x) =
      create_loop (sqlite_campaigns healthy cfg now) J uuid clk c e (Suc i) m ((?t, Suc (Suc n)), x)"
    using assms(1,2) by (simp add: stores_jobs_def LinkJobToCampaign_healthy)
  moreover have "\<forall>k \<in> {Suc i..<Suc i + m}. (cc_ID c, mj_ID (campaign_job uuid clk c e k)) \<notin> set (cpt_links ?t)"
    using Suc.prems by (auto dest: campaign_job_ids)
  moreover have "[i..<i + Suc m] = i # [Suc i..<Suc i + m]" by (simp add: upt_conv_Cons del: upt_Suc)
  ultimately show ?case using Suc.IH [of "Suc i" ?t "Suc (Suc n)"] by (auto simp del: create_loop.simps upt_Suc)
qed simp


section \<open>Starting and restarting without a job service\<close>

lemma campaign_row_ID: "campaign_row i t = Some c \<Longrightarrow> cc_ID c = i"
  by (auto simp: campaign_row_def dest: find_row)

lemma createJobs_without_service:
  assumes "0 \<le> dbc_MaxRetries cfg" and "0 < wrap64 (cc_MaxJobs c - int (length (filter counts_active (jobs_of (cc_ID c) t))))"
  shows "createJobsForCampaign (sqlite_campaigns healthy cfg now) None uuid clk c ((t, n), x) =
    (Some (ErrorString ''job service not available for campaign restart''), ((t, Suc (Suc n)), x))"
proof -
  have "length (filter p (sort_key (\<lambda>j. - mj_CreatedAt j) xs)) = length (filter p xs)" for p and xs :: "MasterJob list"
    by (metis filter_sort length_sort)
  with assms show ?thesis by (simp add: createJobsForCampaign_def campaign_healthy Let_def)
qed

lemma set_campaign_one: "set_campaign now [(''status'', CStr s)] = (\<lambda>c. c\<lparr>cc_UpdatedAt := now, cc_Status := s\<rparr>)"
  by (rule ext) (simp add: set_campaign_def set_column_def)

definition only_status :: "string \<Rightarrow> CampaignUpdates" where
  "only_status s = \<lparr>cu_Name = None, cu_Description = None, cu_Status = Some s, cu_AutoRestart = None, cu_MaxDuration = None, cu_MaxJobs = None,
     cu_SharedCorpus = None, cu_Tags = []\<rparr>"

text \<open>C29: the service manager builds the campaign service without a job service. Then, on SQLite without faults and
  with room for jobs, restarting a finished campaign reports an error and leaves it failed, without its
  completion time; starting a pending or paused campaign reports success and leaves it running, but no job is
  created in either case.\<close>

theorem start_without_job_service:
  assumes "0 \<le> dbc_MaxRetries cfg" and "campaign_row i t = Some c"
    and "0 < wrap64 (cc_MaxJobs c - int (length (filter counts_active (jobs_of i t))))"
  shows "(cc_Status c \<in> {CampaignStatusCompleted, CampaignStatusFailed} \<longrightarrow>
      (\<exists>e d'. RestartCampaign (sqlite_campaigns healthy cfg now) None uuid clk i ((t, n), x) = (Some e, d') \<and>
        campaign_row i (campaign_tables d') = Some (c\<lparr>cc_UpdatedAt := now, cc_Status := CampaignStatusFailed, cc_CompletedAt := None\<rparr>) \<and>
        cpt_jobs (campaign_tables d') = cpt_jobs t \<and> cpt_links (campaign_tables d') = cpt_links t)) \<and>
    (cc_Status c \<in> {CampaignStatusPending, CampaignStatusPaused} \<longrightarrow>
      (\<exists>d'. campaign_Update (sqlite_campaigns healthy cfg now) None uuid clk i (only_status CampaignStatusRunning) ((t, n), x) = (None, d') \<and>
        campaign_row i (campaign_tables d') = Some (c\<lparr>cc_UpdatedAt := now, cc_Status := CampaignStatusRunning\<rparr>) \<and>
        cpt_jobs (campaign_tables d') = cpt_jobs t \<and> cpt_links (campaign_tables d') = cpt_links t))"
proof -
  have i: "cc_ID c = i" using assms(2) by (rule campaign_row_ID)
  let ?run = "\<lambda>c. c\<lparr>cc_UpdatedAt := now, cc_Status := CampaignStatusRunning, cc_CompletedAt := None\<rparr>"
  let ?start = "\<lambda>c. c\<lparr>cc_UpdatedAt := now, cc_Status := CampaignStatusRunning\<rparr>"
  have c: "createJobsForCampaign (sqlite_campaigns healthy cfg now) None uuid clk' (c\<lparr>cc_Status := CampaignStatusRunning\<rparr>) ((set_row i f t, m), x) =
      (Some (ErrorString ''job service not available for campaign restart''), ((set_row i f t, Suc (Suc m)), x))" for f m clk'
    by (rule createJobs_without_service) (use assms(1,3) i in simp_all)
  have r: "campaign_row i (set_row i ?run t) = Some (?run c)" using assms(2) by simp
  have ne: "CampaignStatusRunning \<noteq> CampaignStatusCompleted" by (simp add: campaign_status_defs)
  note D = campaign_healthy [OF assms(1)] UpdateCampaign_healthy [OF assms(1,2)] UpdateCampaign_healthy [OF assms(1) r] GetCampaign_healthy [OF assms(1,2)]
  show ?thesis
  proof (intro conjI impI)
    assume "cc_Status c \<in> {CampaignStatusCompleted, CampaignStatusFailed}"
    then show "\<exists>e d'. RestartCampaign (sqlite_campaigns healthy cfg now) None uuid clk i ((t, n), x) = (Some e, d') \<and>
        campaign_row i (campaign_tables d') = Some (c\<lparr>cc_UpdatedAt := now, cc_Status := CampaignStatusFailed, cc_CompletedAt := None\<rparr>) \<and>
        cpt_jobs (campaign_tables d') = cpt_jobs t \<and> cpt_links (campaign_tables d') = cpt_links t"
      using assms(2) by (auto simp: RestartCampaign_def D set_campaign_status set_campaign_one c)
  next
    assume "cc_Status c \<in> {CampaignStatusPending, CampaignStatusPaused}"
    then have "validateStatusTransition (cc_Status c) CampaignStatusRunning = None"
      by (auto simp: validateStatusTransition_def campaign_table_def campaign_status_defs)
    then show "\<exists>d'. campaign_Update (sqlite_campaigns healthy cfg now) None uuid clk i (only_status CampaignStatusRunning) ((t, n), x) = (None, d') \<and>
        campaign_row i (campaign_tables d') = Some (c\<lparr>cc_UpdatedAt := now, cc_Status := CampaignStatusRunning\<rparr>) \<and>
        cpt_jobs (campaign_tables d') = cpt_jobs t \<and> cpt_links (campaign_tables d') = cpt_links t"
      using assms(2) ne by (simp add: campaign_Update_def only_status_def update_map_def D set_campaign_one c)
  qed
qed

section \<open>A small run\<close>

definition sample_campaign :: "string \<Rightarrow> CommonCampaign" where
  "sample_campaign status = \<lparr>cc_ID = ''c'', cc_Name = ''n'', cc_Description = '''', cc_Status = status, cc_TargetBinary = ''b'', cc_BinaryHash = ''h'',
     cc_CreatedAt = 0, cc_UpdatedAt = 0, cc_CompletedAt = None, cc_AutoRestart = True, cc_MaxDuration = 0, cc_MaxJobs = 2,
     cc_JobTemplate = \<lparr>mjc_Duration = 1, mjc_MemoryLimit = 0, mjc_Timeout = 0, mjc_Dictionary = '''', mjc_SeedCorpus = [], mjc_OutputDir = ''''\<rparr>,
     cc_SharedCorpus = False, cc_Tags = []\<rparr>"

definition one_campaign :: "string \<Rightarrow> CampaignTables" where
  "one_campaign status = \<lparr>cpt_campaigns = [sample_campaign status], cpt_jobs = [], cpt_links = []\<rparr>"

definition storing_service :: "(CampaignTables sqlw \<times> 'x) JobService" where
  "storing_service = \<lparr>js_CreateJob = (\<lambda>job ((t, n), x). (None, job, ((t\<lparr>cpt_jobs := cpt_jobs t @ [job]\<rparr>, n), x))), js_UpdateJob = (\<lambda>_ _ d. (None, d))\<rparr>"


theorem start_without_job_service_witness:
  "\<exists>e d'. RestartCampaign (sqlite_campaigns healthy sample_cfg 0) None (\<lambda>_. ''u'') (\<lambda>_. 0) ''c'' ((one_campaign CampaignStatusCompleted, 0), ()) = (Some e, d') \<and>
     map_option cc_Status (campaign_row ''c'' (campaign_tables d')) = Some CampaignStatusFailed"
proof -
  let ?t = "one_campaign CampaignStatusCompleted"
  have "0 \<le> dbc_MaxRetries sample_cfg" by (simp add: sample_cfg_def)
  moreover have "campaign_row ''c'' ?t = Some (sample_campaign CampaignStatusCompleted)"
    by (simp add: campaign_row_def one_campaign_def sample_campaign_def)
  moreover have "0 < wrap64 (cc_MaxJobs (sample_campaign CampaignStatusCompleted) - int (length (filter counts_active (jobs_of ''c'' ?t))))"
    by (simp add: jobs_of_def one_campaign_def sample_campaign_def wrap64_def)
  moreover have "cc_Status (sample_campaign CampaignStatusCompleted) = CampaignStatusCompleted" by (simp add: sample_campaign_def)
  ultimately show ?thesis
    using start_without_job_service [of sample_cfg "''c''" ?t "sample_campaign CampaignStatusCompleted" 0 "\<lambda>_. ''u''" "\<lambda>_. 0" 0 "()"]
    by (auto simp del: split_paired_Ex)
qed

end
