(* ===== verification/Corpus_Quarantine.thy ===== *)
theory Corpus_Quarantine
  imports Sqlite_Layer Go_Regexp "HOL-Library.Word" "HOL-Library.Multiset"
begin

text \<open>
  Corpus files of campaigns and their quarantine: the quarantine manager (\<open>pkg/service/corpus_quarantine.go\<close>) and
  the corpus service (\<open>AddFile\<close>, \<open>SyncCorpus\<close>, \<open>ShareCorpus\<close>, contents and the calls of the quarantine in
  \<open>pkg/service/corpus_service.go\<close>).

  \<^item> The manager calls its storage and its file storage through records of functions over an arbitrary state
    \<open>'s\<close>. A map of updates is the list of its entries; times in it are integers.
  \<^item> \<open>fmtd\<close> is \<open>Duration.String\<close>. Log lines are left out.
\<close>

section \<open>Data\<close>

record CorpusFile =
  cf_ID :: string
  cf_CampaignID :: string
  cf_JobID :: string
  cf_BotID :: string
  cf_Filename :: string
  cf_Hash :: string
  cf_Size :: int
  cf_Coverage :: int
  cf_NewCoverage :: int
  cf_ParentHash :: string
  cf_Generation :: int
  cf_CreatedAt :: time
  cf_SyncedAt :: "time option"
  cf_IsSeed :: bool

record CorpusFileMetrics =
  fm_FileID :: string
  fm_CrashCount :: int
  fm_TimeoutCount :: int
  fm_AvgExecTime :: duration
  fm_MaxMemoryUsage :: int
  fm_LastExecuted :: time
  fm_ExecCount :: int

record QuarantinedFile =
  qf_ID :: string
  qf_FileID :: string
  qf_CampaignID :: string
  qf_Hash :: string
  qf_Reason :: string
  qf_Details :: string
  qf_QuarantinedAt :: time
  qf_QuarantinedBy :: string
  qf_ReviewedAt :: "time option"
  qf_ReviewedBy :: "string option"
  qf_Resolution :: "string option"

record CorpusEvolution =
  ce_CampaignID :: string
  ce_Timestamp :: time
  ce_TotalFiles :: int
  ce_TotalSize :: int
  ce_TotalCoverage :: int
  ce_NewFiles :: int
  ce_NewCoverage :: int

text \<open>The thresholds are read by the rules when they are checked.\<close>

record Thresholds =
  th_crash :: int
  th_timeout :: int
  th_memory :: int
  th_perf :: duration

record QuarantineRule =
  qr_Name :: string
  qr_Description :: string
  qr_Check :: "Thresholds \<Rightarrow> CorpusFileMetrics \<Rightarrow> (string \<times> string) option"
  qr_Enabled :: bool

record CorpusQuarantine =
  cq_fileStorage :: bool
  cq_rules :: "QuarantineRule list"
  cq_thresholds :: Thresholds

definition initializeRules :: "(duration \<Rightarrow> string) \<Rightarrow> QuarantineRule list" where
  "initializeRules fmtd =
     [\<lparr>qr_Name = ''crash_loop_detection'', qr_Description = ''Quarantine files causing repeated crashes'',
       qr_Check = (\<lambda>th m. if fm_CrashCount m \<ge> th_crash th
         then Some (''crash_loop'', ''File caused '' @ itoa (fm_CrashCount m) @ '' crashes (threshold: '' @ itoa (th_crash th) @ '')'') else None),
       qr_Enabled = True\<rparr>,
      \<lparr>qr_Name = ''timeout_detection'', qr_Description = ''Quarantine files causing excessive timeouts'',
       qr_Check = (\<lambda>th m. if fm_TimeoutCount m \<ge> th_timeout th
         then Some (''timeout'', ''File caused '' @ itoa (fm_TimeoutCount m) @ '' timeouts (threshold: '' @ itoa (th_timeout th) @ '')'') else None),
       qr_Enabled = True\<rparr>,
      \<lparr>qr_Name = ''memory_excess_detection'', qr_Description = ''Quarantine files using excessive memory'',
       qr_Check = (\<lambda>th m. if fm_MaxMemoryUsage m > th_memory th
         then Some (''memory_excess'', ''File used '' @ itoa (fm_MaxMemoryUsage m) @ '' bytes of memory (threshold: '' @ itoa (th_memory th) @ '')'') else None),
       qr_Enabled = True\<rparr>,
      \<lparr>qr_Name = ''performance_detection'', qr_Description = ''Quarantine files with poor performance'',
       qr_Check = (\<lambda>th m. if fm_AvgExecTime m > th_perf th \<and> fm_ExecCount m > 10
         then Some (''performance'', ''File avg execution time '' @ fmtd (fm_AvgExecTime m) @ '' exceeds threshold '' @ fmtd (th_perf th)) else None),
       qr_Enabled = True\<rparr>]"

definition NewCorpusQuarantine :: "(duration \<Rightarrow> string) \<Rightarrow> bool \<Rightarrow> CorpusQuarantine" where
  "NewCorpusQuarantine fmtd fileStorage =
     \<lparr>cq_fileStorage = fileStorage, cq_rules = initializeRules fmtd,
      cq_thresholds = \<lparr>th_crash = 5, th_timeout = 10, th_memory = 1024 * 1024 * 500, th_perf = 30 * Second\<rparr>\<rparr>"

definition SetRule :: "string \<Rightarrow> bool \<Rightarrow> CorpusQuarantine \<Rightarrow> error option \<times> CorpusQuarantine" where
  "SetRule ruleName enabled cq =
     (let before = takeWhile (\<lambda>r. qr_Name r \<noteq> ruleName) (cq_rules cq); rest = dropWhile (\<lambda>r. qr_Name r \<noteq> ruleName) (cq_rules cq)
      in case rest of
           [] \<Rightarrow> (Some (ErrorString (''rule not found: '' @ ruleName)), cq)
         | r # rs \<Rightarrow> (None, cq\<lparr>cq_rules := before @ r\<lparr>qr_Enabled := enabled\<rparr> # rs\<rparr>))"

definition SetThresholds :: "int \<Rightarrow> int \<Rightarrow> int \<Rightarrow> duration \<Rightarrow> CorpusQuarantine \<Rightarrow> CorpusQuarantine" where
  "SetThresholds crashes timeouts memory perf cq =
     (let th = cq_thresholds cq
      in cq\<lparr>cq_thresholds := \<lparr>th_crash = (if crashes > 0 then crashes else th_crash th),
           th_timeout = (if timeouts > 0 then timeouts else th_timeout th), th_memory = (if memory > 0 then memory else th_memory th),
           th_perf = (if perf > 0 then perf else th_perf th)\<rparr>\<rparr>)"

definition getCorpusFilePath :: "string \<Rightarrow> string \<Rightarrow> string" where
  "getCorpusFilePath campaignID hash =
     (if length hash \<ge> 2 then ''corpus/'' @ campaignID @ ''/'' @ take 2 hash @ ''/'' @ hash else ''corpus/'' @ campaignID @ ''/'' @ hash)"

definition getQuarantineFilePath :: "string \<Rightarrow> string \<Rightarrow> string" where
  "getQuarantineFilePath campaignID hash =
     (if length hash \<ge> 2 then ''quarantine/'' @ campaignID @ ''/'' @ take 2 hash @ ''/'' @ hash else ''quarantine/'' @ campaignID @ ''/'' @ hash)"

section \<open>The manager\<close>

type_synonym bytes = "8 word list"
type_synonym updates = "(string \<times> any) list"

record 's QuarantineStorage =
  qs_GetQuarantinedFile :: "string \<Rightarrow> 's \<Rightarrow> QuarantinedFile option result \<times> 's"
  qs_AddQuarantinedFile :: "QuarantinedFile \<Rightarrow> 's \<Rightarrow> error option \<times> 's"
  qs_UpdateQuarantinedFile :: "string \<Rightarrow> updates \<Rightarrow> 's \<Rightarrow> error option \<times> 's"
  qs_GetCorpusFile :: "string \<Rightarrow> 's \<Rightarrow> CorpusFile result \<times> 's"
  qs_UpdateCorpusFile :: "string \<Rightarrow> updates \<Rightarrow> 's \<Rightarrow> error option \<times> 's"
  qs_DeleteCorpusFile :: "string \<Rightarrow> 's \<Rightarrow> error option \<times> 's"
  qs_GetCorpusFileMetrics :: "string \<Rightarrow> 's \<Rightarrow> CorpusFileMetrics result \<times> 's"
  qs_UpdateCorpusFileMetrics :: "string \<Rightarrow> CorpusFileMetrics \<Rightarrow> 's \<Rightarrow> error option \<times> 's"
  qs_MarkCorpusFilesSynced :: "string list \<Rightarrow> string \<Rightarrow> 's \<Rightarrow> error option \<times> 's"
  qs_GetUnsyncedCorpusFiles :: "string \<Rightarrow> string \<Rightarrow> 's \<Rightarrow> CorpusFile list result \<times> 's"
  qs_AddCorpusFile :: "CorpusFile \<Rightarrow> 's \<Rightarrow> error option \<times> 's"
  qs_GetCorpusFiles :: "string \<Rightarrow> 's \<Rightarrow> CorpusFile list result \<times> 's"
  qs_GetCorpusFileByHash :: "string \<Rightarrow> 's \<Rightarrow> CorpusFile result \<times> 's"
  qs_RecordCorpusEvolution :: "CorpusEvolution \<Rightarrow> 's \<Rightarrow> error option \<times> 's"
  qs_GetCorpusEvolution :: "string \<Rightarrow> int \<Rightarrow> 's \<Rightarrow> CorpusEvolution list result \<times> 's"
  qs_GetCampaign :: "string \<Rightarrow> 's \<Rightarrow> string result \<times> 's"

record 's FileStorage =
  fs_ReadFile :: "string \<Rightarrow> 's \<Rightarrow> bytes result \<times> 's"
  fs_SaveFile :: "string \<Rightarrow> bytes \<Rightarrow> 's \<Rightarrow> error option \<times> 's"
  fs_DeleteFile :: "string \<Rightarrow> 's \<Rightarrow> error option \<times> 's"

definition new_record :: "CorpusFile \<Rightarrow> string \<Rightarrow> string \<Rightarrow> string \<Rightarrow> time \<Rightarrow> QuarantinedFile" where
  "new_record file reason details quarantinedBy now =
     \<lparr>qf_ID = ''quarantine-'' @ cf_ID file, qf_FileID = cf_ID file, qf_CampaignID = cf_CampaignID file, qf_Hash = cf_Hash file,
      qf_Reason = reason, qf_Details = details, qf_QuarantinedAt = now, qf_QuarantinedBy = quarantinedBy,
      qf_ReviewedAt = None, qf_ReviewedBy = None, qf_Resolution = None\<rparr>"

text \<open>The move of a file to the quarantine: a failed save does not keep it from being deleted.\<close>

definition move_to_quarantine :: "'s FileStorage \<Rightarrow> CorpusFile \<Rightarrow> 's \<Rightarrow> 's" where
  "move_to_quarantine F file s =
     (let sourcePath = getCorpusFilePath (cf_CampaignID file) (cf_Hash file);
          quarantinePath = getQuarantineFilePath (cf_CampaignID file) (cf_Hash file)
      in case fs_ReadFile F sourcePath s of
           (Inl _, s1) \<Rightarrow> s1
         | (Inr d, s1) \<Rightarrow> (let (_, s2) = fs_SaveFile F quarantinePath d s1; (_, s3) = fs_DeleteFile F sourcePath s2 in s3))"

definition QuarantineFile ::
    "'s QuarantineStorage \<Rightarrow> 's FileStorage \<Rightarrow> CorpusQuarantine \<Rightarrow> time \<times> time \<Rightarrow> CorpusFile \<Rightarrow> string \<Rightarrow> string \<Rightarrow> string \<Rightarrow> 's \<Rightarrow> error option \<times> 's" where
  "QuarantineFile S F cq = (\<lambda>(now1, now2) file reason details quarantinedBy s.
     case qs_GetQuarantinedFile S (cf_ID file) s of
       (Inr (Some _), s1) \<Rightarrow> (None, s1)
     | (_, s1) \<Rightarrow>
         (case qs_AddQuarantinedFile S (new_record file reason details quarantinedBy now1) s1 of
            (Some e, s2) \<Rightarrow> (Some (WrapError ''failed to store quarantine record: '' e), s2)
          | (None, s2) \<Rightarrow>
              (let s3 = (if cq_fileStorage cq then move_to_quarantine F file s2 else s2);
                   (_, s4) = qs_UpdateCorpusFile S (cf_ID file) [(''quarantined'', ABool True), (''quarantined_at'', AInt now2)] s3
               in (None, s4))))"

definition EvaluateFile ::
    "'s QuarantineStorage \<Rightarrow> 's FileStorage \<Rightarrow> CorpusQuarantine \<Rightarrow> time \<times> time \<Rightarrow> CorpusFile \<Rightarrow> CorpusFileMetrics \<Rightarrow> 's \<Rightarrow> error option \<times> 's" where
  "EvaluateFile S F cq nows file metrics s =
     (case List.map_filter (\<lambda>r. if qr_Enabled r then qr_Check r (cq_thresholds cq) metrics else None) (cq_rules cq) of
        [] \<Rightarrow> (None, s)
      | (reason, details) # _ \<Rightarrow> QuarantineFile S F cq nows file reason details ''system'' s)"

definition review_updates :: "time \<Rightarrow> string \<Rightarrow> string \<Rightarrow> string \<Rightarrow> updates" where
  "review_updates now who resolution notes =
     [(''reviewed_at'', AInt now), (''reviewed_by'', AString who), (''resolution'', AString resolution), (''review_notes'', AString notes)]"

text \<open>The move back: \<open>Some e\<close> is the error with which \<open>RestoreFile\<close> returns.\<close>

definition move_back :: "'s FileStorage \<Rightarrow> CorpusFile \<Rightarrow> 's \<Rightarrow> error option \<times> 's" where
  "move_back F file s =
     (let quarantinePath = getQuarantineFilePath (cf_CampaignID file) (cf_Hash file);
          corpusPath = getCorpusFilePath (cf_CampaignID file) (cf_Hash file)
      in case fs_ReadFile F quarantinePath s of
           (Inl _, s1) \<Rightarrow> (None, s1)
         | (Inr d, s1) \<Rightarrow>
             (case fs_SaveFile F corpusPath d s1 of
                (Some e, s2) \<Rightarrow> (Some (WrapError ''failed to restore file to corpus: '' e), s2)
              | (None, s2) \<Rightarrow> (None, snd (fs_DeleteFile F quarantinePath s2))))"

definition RestoreFile ::
    "'s QuarantineStorage \<Rightarrow> 's FileStorage \<Rightarrow> CorpusQuarantine \<Rightarrow> time \<Rightarrow> string \<Rightarrow> string \<Rightarrow> string \<Rightarrow> 's \<Rightarrow> error option \<times> 's" where
  "RestoreFile S F cq now fileID restoredBy notes s =
     (case qs_GetQuarantinedFile S fileID s of
        (Inl e, s1) \<Rightarrow> (Some (WrapError ''failed to get quarantined file: '' e), s1)
      | (Inr None, s1) \<Rightarrow> (Some (ErrorString ''file not found in quarantine''), s1)
      | (Inr (Some q), s1) \<Rightarrow>
          (case qs_GetCorpusFile S fileID s1 of
             (Inl e, s2) \<Rightarrow> (Some (WrapError ''failed to get corpus file: '' e), s2)
           | (Inr file, s2) \<Rightarrow>
               (case (if cq_fileStorage cq then move_back F file s2 else (None, s2)) of
                  (Some e, s3) \<Rightarrow> (Some e, s3)
                | (None, s3) \<Rightarrow>
                    (case qs_UpdateQuarantinedFile S (qf_ID q) (review_updates now restoredBy ''restored'' notes) s3 of
                       (Some e, s4) \<Rightarrow> (Some (WrapError ''failed to update quarantine record: '' e), s4)
                     | (None, s4) \<Rightarrow>
                         (None, snd (qs_UpdateCorpusFile S fileID [(''quarantined'', ABool False), (''restored_at'', AInt now)] s4))))))"

definition DeleteQuarantinedFile ::
    "'s QuarantineStorage \<Rightarrow> 's FileStorage \<Rightarrow> CorpusQuarantine \<Rightarrow> time \<Rightarrow> string \<Rightarrow> string \<Rightarrow> string \<Rightarrow> 's \<Rightarrow> error option \<times> 's" where
  "DeleteQuarantinedFile S F cq now fileID deletedBy reason s =
     (case qs_GetQuarantinedFile S fileID s of
        (Inl e, s1) \<Rightarrow> (Some (WrapError ''failed to get quarantined file: '' e), s1)
      | (Inr None, s1) \<Rightarrow> (Some (ErrorString ''file not found in quarantine''), s1)
      | (Inr (Some q), s1) \<Rightarrow>
          (let s2 = (if cq_fileStorage cq then snd (fs_DeleteFile F (getQuarantineFilePath (qf_CampaignID q) (qf_Hash q)) s1) else s1)
           in case qs_UpdateQuarantinedFile S (qf_ID q) (review_updates now deletedBy ''deleted'' reason) s2 of
                (Some e, s3) \<Rightarrow> (Some (WrapError ''failed to update quarantine record: '' e), s3)
              | (None, s3) \<Rightarrow> (None, snd (qs_DeleteCorpusFile S fileID s3))))"

definition UpdateMetrics ::
    "'s QuarantineStorage \<Rightarrow> 's FileStorage \<Rightarrow> CorpusQuarantine \<Rightarrow> time \<Rightarrow> time \<times> time \<Rightarrow> string \<Rightarrow>
     (CorpusFileMetrics \<Rightarrow> CorpusFileMetrics) \<Rightarrow> 's \<Rightarrow> error option \<times> 's" where
  "UpdateMetrics S F cq now nows fileID update s =
     (let (r, s1) = qs_GetCorpusFileMetrics S fileID s;
          metrics = update (case r of Inr m \<Rightarrow> m | Inl _ \<Rightarrow>
            \<lparr>fm_FileID = fileID, fm_CrashCount = 0, fm_TimeoutCount = 0, fm_AvgExecTime = 0, fm_MaxMemoryUsage = 0, fm_LastExecuted = now,
             fm_ExecCount = 0\<rparr>)
      in case qs_UpdateCorpusFileMetrics S fileID metrics s1 of
           (Some e, s2) \<Rightarrow> (Some (WrapError ''failed to update corpus file metrics: '' e), s2)
         | (None, s2) \<Rightarrow>
             (case qs_GetCorpusFile S fileID s2 of
                (Inl e, s3) \<Rightarrow> (Some (WrapError ''failed to get corpus file: '' e), s3)
              | (Inr file, s3) \<Rightarrow> (None, snd (EvaluateFile S F cq nows file metrics s3))))"

section \<open>The corpus service\<close>

text \<open>\<open>cs_quarantine\<close> is \<open>None\<close> when the manager is nil, which the constructor excludes.\<close>

record corpusService =
  cs_fileStorage :: bool
  cs_quarantine :: "CorpusQuarantine option"
  cs_enableMetrics :: bool

definition NewCorpusService :: "(duration \<Rightarrow> string) \<Rightarrow> bool \<Rightarrow> corpusService" where
  "NewCorpusService fmtd fileStorage =
     \<lparr>cs_fileStorage = fileStorage, cs_quarantine = Some (NewCorpusQuarantine fmtd fileStorage), cs_enableMetrics = True\<rparr>"

definition not_initialized :: error where
  "not_initialized = ErrorString ''quarantine manager not initialized''"

definition corpus_QuarantineFile ::
    "'s QuarantineStorage \<Rightarrow> 's FileStorage \<Rightarrow> corpusService \<Rightarrow> time \<times> time \<Rightarrow> string \<Rightarrow> string \<Rightarrow> string \<Rightarrow> 's \<Rightarrow> error option \<times> 's" where
  "corpus_QuarantineFile S F cs nows fileID reason details s =
     (case cs_quarantine cs of
        None \<Rightarrow> (Some not_initialized, s)
      | Some cq \<Rightarrow>
          (case qs_GetCorpusFile S fileID s of
             (Inl e, s1) \<Rightarrow> (Some (WrapError ''failed to get corpus file: '' e), s1)
           | (Inr file, s1) \<Rightarrow> QuarantineFile S F cq nows file reason details ''user'' s1))"

definition RestoreQuarantinedFile ::
    "'s QuarantineStorage \<Rightarrow> 's FileStorage \<Rightarrow> corpusService \<Rightarrow> time \<Rightarrow> string \<Rightarrow> string \<Rightarrow> string \<Rightarrow> 's \<Rightarrow> error option \<times> 's" where
  "RestoreQuarantinedFile S F cs now fileID restoredBy notes s =
     (case cs_quarantine cs of None \<Rightarrow> (Some not_initialized, s) | Some cq \<Rightarrow> RestoreFile S F cq now fileID restoredBy notes s)"

definition corpus_DeleteQuarantinedFile ::
    "'s QuarantineStorage \<Rightarrow> 's FileStorage \<Rightarrow> corpusService \<Rightarrow> time \<Rightarrow> string \<Rightarrow> string \<Rightarrow> string \<Rightarrow> 's \<Rightarrow> error option \<times> 's" where
  "corpus_DeleteQuarantinedFile S F cs now fileID deletedBy reason s =
     (case cs_quarantine cs of None \<Rightarrow> (Some not_initialized, s) | Some cq \<Rightarrow> DeleteQuarantinedFile S F cq now fileID deletedBy reason s)"

definition corpus_UpdateCorpusFileMetrics ::
    "'s QuarantineStorage \<Rightarrow> 's FileStorage \<Rightarrow> corpusService \<Rightarrow> time \<Rightarrow> time \<times> time \<Rightarrow> string \<Rightarrow>
     (CorpusFileMetrics \<Rightarrow> CorpusFileMetrics) \<Rightarrow> 's \<Rightarrow> error option \<times> 's" where
  "corpus_UpdateCorpusFileMetrics S F cs now nows fileID update s =
     (case cs_quarantine cs of None \<Rightarrow> (Some not_initialized, s) | Some cq \<Rightarrow> UpdateMetrics S F cq now nows fileID update s)"

text \<open>The unresolved quarantine record of a file, as \<open>AddFile\<close> and \<open>SyncCorpus\<close> look it up: an error counts as none.\<close>

definition quarantined_now :: "'s QuarantineStorage \<Rightarrow> corpusService \<Rightarrow> string \<Rightarrow> 's \<Rightarrow> QuarantinedFile option \<times> 's" where
  "quarantined_now S cs fileID s =
     (if cs_quarantine cs = None then (None, s)
      else case qs_GetQuarantinedFile S fileID s of
             (Inr (Some q), s1) \<Rightarrow> (if qf_Resolution q = None then Some q else None, s1)
           | (_, s1) \<Rightarrow> (None, s1))"

text \<open>The files that \<open>SyncCorpus\<close> hands out: those without an unresolved quarantine record.\<close>

fun active_files :: "'s QuarantineStorage \<Rightarrow> corpusService \<Rightarrow> CorpusFile list \<Rightarrow> 's \<Rightarrow> CorpusFile list \<times> 's" where
  "active_files S cs [] s = ([], s)"
| "active_files S cs (file # files) s =
     (let (q, s1) = quarantined_now S cs (cf_ID file) s;
          (fs, s2) = active_files S cs files s1
      in (if q = None then file # fs else fs, s2))"

definition SyncCorpus :: "'s QuarantineStorage \<Rightarrow> corpusService \<Rightarrow> string \<Rightarrow> string \<Rightarrow> 's \<Rightarrow> CorpusFile list result \<times> 's" where
  "SyncCorpus S cs campaignID botID s =
     (case qs_GetUnsyncedCorpusFiles S campaignID botID s of
        (Inl e, s1) \<Rightarrow> (Inl (WrapError ''failed to get unsynced corpus files: '' e), s1)
      | (Inr files, s1) \<Rightarrow>
          if files = [] then (Inr [], s1)
          else let (files', s2) = active_files S cs files s1;
                   (_, s3) = qs_MarkCorpusFilesSynced S (map cf_ID files') botID s2
               in (Inr files', s3))"

definition sum64 :: "int list \<Rightarrow> int" where
  "sum64 xs = foldl (\<lambda>a x. wrap64 (a + x)) 0 xs"

definition trackEvolution :: "'s QuarantineStorage \<Rightarrow> time \<Rightarrow> string \<Rightarrow> 's \<Rightarrow> error option \<times> 's" where
  "trackEvolution S now campaignID s =
     (case qs_GetCorpusFiles S campaignID s of
        (Inl e, s1) \<Rightarrow> (Some (WrapError ''failed to get corpus files: '' e), s1)
      | (Inr files, s1) \<Rightarrow>
          (let (r, s2) = qs_GetCorpusEvolution S campaignID 1 s1;
               since = (case r of Inr (e # _) \<Rightarrow> filter (\<lambda>f. time_After (cf_CreatedAt f) (ce_Timestamp e)) files | _ \<Rightarrow> files);
               evolution = \<lparr>ce_CampaignID = campaignID, ce_Timestamp = now, ce_TotalFiles = int (length files),
                 ce_TotalSize = sum64 (map cf_Size files), ce_TotalCoverage = sum64 (map cf_Coverage files),
                 ce_NewFiles = int (length since), ce_NewCoverage = sum64 (map cf_NewCoverage since)\<rparr>
           in case qs_RecordCorpusEvolution S evolution s2 of
                (Some e, s3) \<Rightarrow> (Some (WrapError ''failed to record corpus evolution: '' e), s3)
              | (None, s3) \<Rightarrow> (None, s3)))"

definition GetEvolution :: "'s QuarantineStorage \<Rightarrow> time \<Rightarrow> string \<Rightarrow> 's \<Rightarrow> CorpusEvolution list result \<times> 's" where
  "GetEvolution S now campaignID s =
     (case qs_GetCorpusEvolution S campaignID 1000 s of
        (Inl e, s1) \<Rightarrow> (Inl (WrapError ''failed to get corpus evolution: '' e), s1)
      | (Inr evolution, s1) \<Rightarrow>
          if evolution = [] then qs_GetCorpusEvolution S campaignID 1 (snd (trackEvolution S now campaignID s1)) else (Inr evolution, s1))"

definition ErrDuplicateCorpusFile :: error where
  "ErrDuplicateCorpusFile = ErrorString ''corpus file already exists''"

text \<open>The readings of the clock, and the random number, of one call of \<open>AddFile\<close>.\<close>

record AddEnv =
  ae_uuid :: string
  ae_created :: time
  ae_track :: time
  ae_metrics :: time
  ae_exec :: time
  ae_nows :: "time \<times> time"

text \<open>The ID and the time of creation that \<open>AddFile\<close> fills in, also in the caller's file.\<close>

definition fill_in :: "AddEnv \<Rightarrow> CorpusFile \<Rightarrow> CorpusFile" where
  "fill_in env file =
     file\<lparr>cf_ID := (if cf_ID file = '''' then ''corpus-'' @ ae_uuid env else cf_ID file),
          cf_CreatedAt := (if cf_CreatedAt file = time_zero then ae_created env else cf_CreatedAt file)\<rparr>"

definition init_metrics ::
    "'s QuarantineStorage \<Rightarrow> 's FileStorage \<Rightarrow> corpusService \<Rightarrow> AddEnv \<Rightarrow> string \<Rightarrow> 's \<Rightarrow> 's" where
  "init_metrics S F cs env fileID s =
     (case cs_quarantine cs of
        Some cq \<Rightarrow> (if cs_enableMetrics cs
          then snd (UpdateMetrics S F cq (ae_metrics env) (ae_nows env) fileID
                 (\<lambda>m. m\<lparr>fm_FileID := fileID, fm_LastExecuted := ae_exec env, fm_ExecCount := 0\<rparr>) s)
          else s)
      | None \<Rightarrow> s)"

definition AddFile ::
    "'s QuarantineStorage \<Rightarrow> 's FileStorage \<Rightarrow> corpusService \<Rightarrow> AddEnv \<Rightarrow> CorpusFile \<Rightarrow> 's \<Rightarrow> error option \<times> 's" where
  "AddFile S F cs env file0 s =
     (if cf_CampaignID file0 = '''' then (Some (ErrorString ''campaign ID is required''), s)
      else if cf_Filename file0 = '''' then (Some (ErrorString ''filename is required''), s)
      else let file = fill_in env file0
      in case quarantined_now S cs (cf_ID file) s of
           (Some q, s1) \<Rightarrow> (Some (ErrorString (''file is quarantined: '' @ qf_Reason q)), s1)
         | (None, s1) \<Rightarrow>
             (let (r, s2) = qs_GetCorpusFileByHash S (cf_Hash file) s1
              in if (case r of Inr existing \<Rightarrow> cf_CampaignID existing = cf_CampaignID file | Inl _ \<Rightarrow> False)
                 then (Some ErrDuplicateCorpusFile, s2)
                 else case qs_AddCorpusFile S file s2 of
                     (Some e, s3) \<Rightarrow> (Some (WrapError ''failed to store corpus file metadata: '' e), s3)
                   | (None, s3) \<Rightarrow>
                       (let s4 = (if cf_NewCoverage file > 0 then snd (trackEvolution S (ae_track env) (cf_CampaignID file) s3) else s3)
                        in (None, init_metrics S F cs env (cf_ID file) s4))))"

definition findCoverageIncreasingFiles :: "'s QuarantineStorage \<Rightarrow> string \<Rightarrow> 's \<Rightarrow> CorpusFile list result \<times> 's" where
  "findCoverageIncreasingFiles S campaignID s =
     (case qs_GetCorpusFiles S campaignID s of
        (Inl e, s1) \<Rightarrow> (Inl e, s1)
      | (Inr files, s1) \<Rightarrow> (Inr (filter (\<lambda>f. cf_NewCoverage f > 0) files), s1))"

definition shared_file :: "string \<Rightarrow> time \<Rightarrow> string \<Rightarrow> CorpusFile \<Rightarrow> CorpusFile" where
  "shared_file uuid now toCampaign file =
     \<lparr>cf_ID = ''corpus-'' @ uuid, cf_CampaignID = toCampaign, cf_JobID = cf_JobID file, cf_BotID = cf_BotID file,
      cf_Filename = cf_Filename file, cf_Hash = cf_Hash file, cf_Size = cf_Size file, cf_Coverage = cf_Coverage file,
      cf_NewCoverage = 0, cf_ParentHash = cf_Hash file, cf_Generation = wrap64 (cf_Generation file + 1), cf_CreatedAt = now,
      cf_SyncedAt = None, cf_IsSeed = False\<rparr>"

text \<open>The loop over the files to be shared; \<open>envs i\<close> holds the random number and the clock of its \<open>i\<close>-th round. The
  result is the number of files that were added, which \<open>ShareCorpus\<close> only logs.\<close>

fun share_loop ::
    "'s QuarantineStorage \<Rightarrow> 's FileStorage \<Rightarrow> corpusService \<Rightarrow> (nat \<Rightarrow> AddEnv) \<Rightarrow> string set \<Rightarrow> string \<Rightarrow> nat \<Rightarrow> CorpusFile list \<Rightarrow> 's \<Rightarrow> nat \<times> 's" where
  "share_loop S F cs envs existing toCampaign i [] s = (0, s)"
| "share_loop S F cs envs existing toCampaign i (file # files) s =
     (if cf_Hash file \<in> existing then share_loop S F cs envs existing toCampaign (Suc i) files s
      else let (err, s1) = AddFile S F cs (envs i) (shared_file (ae_uuid (envs i)) (ae_created (envs i)) toCampaign file) s;
               (n, s2) = share_loop S F cs envs existing toCampaign (Suc i) files s1
           in (if err = None then Suc n else n, s2))"

definition ShareCorpus ::
    "'s QuarantineStorage \<Rightarrow> 's FileStorage \<Rightarrow> corpusService \<Rightarrow> (nat \<Rightarrow> AddEnv) \<Rightarrow> string \<Rightarrow> string \<Rightarrow> 's \<Rightarrow> nat result \<times> 's" where
  "ShareCorpus S F cs envs fromCampaign toCampaign s =
     (case qs_GetCampaign S fromCampaign s of
        (Inl e, s1) \<Rightarrow> (Inl (WrapError ''source campaign not found: '' e), s1)
      | (Inr _, s1) \<Rightarrow>
     (case qs_GetCampaign S toCampaign s1 of
        (Inl e, s2) \<Rightarrow> (Inl (WrapError ''target campaign not found: '' e), s2)
      | (Inr _, s2) \<Rightarrow>
     (case findCoverageIncreasingFiles S fromCampaign s2 of
        (Inl e, s3) \<Rightarrow> (Inl (WrapError ''failed to find coverage files: '' e), s3)
      | (Inr files, s3) \<Rightarrow>
     (case qs_GetCorpusFiles S toCampaign s3 of
        (Inl e, s4) \<Rightarrow> (Inl (WrapError ''failed to get target campaign files: '' e), s4)
      | (Inr existing, s4) \<Rightarrow>
          (let (n, s5) = share_loop S F cs envs (cf_Hash ` set existing) toCampaign 0 files s4 in (Inr n, s5))))))"

text \<open>Contents; \<open>ctx\<close> is the error of the context, \<open>sha256\<close> the hexadecimal digest.\<close>

definition StoreFileContent ::
    "'s FileStorage \<Rightarrow> corpusService \<Rightarrow> error option \<Rightarrow> string \<Rightarrow> string \<Rightarrow> bytes \<Rightarrow> 's \<Rightarrow> error option \<times> 's" where
  "StoreFileContent F cs ctx campaignID hash data s =
     (case ctx of Some e \<Rightarrow> (Some (WrapError ''context cancelled: '' e), s) | None \<Rightarrow>
      if \<not> cs_fileStorage cs then (Some (PandaFuzzError ErrorTypeStorage ''store_file_content'' (ErrorString ''file storage not configured'')), s)
      else if campaignID = '''' then (Some (PandaFuzzError ErrorTypeValidation ''store_file_content'' (ErrorString ''campaign ID is required'')), s)
      else if hash = '''' then (Some (PandaFuzzError ErrorTypeValidation ''store_file_content'' (ErrorString ''hash is required'')), s)
      else if data = [] then (Some (PandaFuzzError ErrorTypeValidation ''store_file_content'' (ErrorString ''data is empty'')), s)
      else case fs_SaveFile F (getCorpusFilePath campaignID hash) data s of
             (Some e, s1) \<Rightarrow> (Some (PandaFuzzError ErrorTypeStorage ''store_file_content'' e), s1)
           | (None, s1) \<Rightarrow> (None, s1))"

definition LoadCorpusFile ::
    "(bytes \<Rightarrow> string) \<Rightarrow> 's FileStorage \<Rightarrow> corpusService \<Rightarrow> error option \<Rightarrow> string \<Rightarrow> string \<Rightarrow> 's \<Rightarrow> bytes result \<times> 's" where
  "LoadCorpusFile sha256 F cs ctx campaignID hash s =
     (case ctx of Some e \<Rightarrow> (Inl (WrapError ''context cancelled: '' e), s) | None \<Rightarrow>
      if \<not> cs_fileStorage cs then (Inl (PandaFuzzError ErrorTypeStorage ''load_corpus_file'' (ErrorString ''file storage not configured'')), s)
      else if campaignID = '''' then (Inl (PandaFuzzError ErrorTypeValidation ''load_corpus_file'' (ErrorString ''campaign ID is required'')), s)
      else if hash = '''' then (Inl (PandaFuzzError ErrorTypeValidation ''load_corpus_file'' (ErrorString ''hash is required'')), s)
      else case fs_ReadFile F (getCorpusFilePath campaignID hash) s of
             (Inl e, s1) \<Rightarrow> (Inl (PandaFuzzError ErrorTypeStorage ''load_corpus_file'' e), s1)
           | (Inr data, s1) \<Rightarrow>
               if sha256 data \<noteq> hash
               then (Inl (PandaFuzzError ErrorTypeValidation ''load_corpus_file''
                       (ErrorString (''corpus file hash mismatch: expected '' @ hash @ '', got '' @ sha256 data))), s1)
               else (Inr data, s1))"

text \<open>The exchange sort of \<open>sortCorpusByCoverage\<close>: one round of the inner loop for the first file, and all rounds.\<close>

definition better_coverage :: "CorpusFile \<Rightarrow> CorpusFile \<Rightarrow> bool" where
  "better_coverage g f \<longleftrightarrow> cf_NewCoverage g > cf_NewCoverage f \<or> cf_NewCoverage g = cf_NewCoverage f \<and> cf_Coverage g > cf_Coverage f"

fun exchange :: "CorpusFile \<Rightarrow> CorpusFile list \<Rightarrow> CorpusFile \<times> CorpusFile list" where
  "exchange f [] = (f, [])"
| "exchange f (g # gs) = (if better_coverage g f then let (h, hs) = exchange g gs in (h, f # hs) else let (h, hs) = exchange f gs in (h, g # hs))"

lemma exchange_length: "exchange f gs = (h, hs) \<Longrightarrow> length hs = length gs"
  by (induction gs arbitrary: f h hs) (auto simp: Let_def split: if_splits prod.splits)

function sortCorpusByCoverage :: "CorpusFile list \<Rightarrow> CorpusFile list" where
  "sortCorpusByCoverage [] = []"
| "sortCorpusByCoverage (f # fs) = (let (h, hs) = exchange f fs in h # sortCorpusByCoverage hs)"
  by pat_completeness auto
termination
  by (relation "measure length") (auto dest: exchange_length [OF sym])

lemma exchange_mset: "exchange f gs = (h, hs) \<Longrightarrow> add_mset h (mset hs) = add_mset f (mset gs)"
  by (induction gs arbitrary: f h hs) (auto simp: Let_def add_mset_commute split: if_splits prod.splits)

lemma exchange_best: "exchange f gs = (h, hs) \<Longrightarrow> \<not> better_coverage f h \<and> (\<forall>g \<in> set hs. \<not> better_coverage g h)"
proof (induction gs arbitrary: f h hs)
  case (Cons g gs)
  show ?case
  proof (cases "better_coverage g f")
    case True
    then obtain hs' where h: "exchange g gs = (h, hs')" "hs = f # hs'" using Cons.prems by (auto simp: Let_def split: prod.splits)
    then show ?thesis using Cons.IH [OF h(1)] True by (auto simp: better_coverage_def)
  next
    case False
    then obtain hs' where h: "exchange f gs = (h, hs')" "hs = g # hs'" using Cons.prems by (auto simp: Let_def split: prod.splits)
    then show ?thesis using Cons.IH [OF h(1)] False by (auto simp: better_coverage_def)
  qed
qed (simp add: better_coverage_def)

text \<open>The result is a permutation in which no file is better than an earlier one.\<close>

lemma sortCorpusByCoverage_sorts:
  "mset (sortCorpusByCoverage fs) = mset fs \<and> sorted_wrt (\<lambda>f g. \<not> better_coverage g f) (sortCorpusByCoverage fs)"
proof (induction fs rule: sortCorpusByCoverage.induct)
  case (2 f fs)
  obtain h hs where h: "exchange f fs = (h, hs)" by fastforce
  have "set (sortCorpusByCoverage hs) = set hs" using "2.IH" [OF h [symmetric] refl] by (metis set_mset_mset)
  then show ?case using "2.IH" [OF h [symmetric] refl] exchange_mset [OF h] exchange_best [OF h] by (simp add: h)
qed simp

section \<open>Invariants of the stores\<close>

text \<open>
  A property of the stores that every call the service makes preserves is preserved by the service. The updates
  are those the quarantine manager asks for.
\<close>

locale corpus_invariant =
  fixes S :: "'s QuarantineStorage" and F :: "'s FileStorage" and P :: "'s \<Rightarrow> bool"
  assumes get_q: "qs_GetQuarantinedFile S i s = (rq, s') \<Longrightarrow> P s \<Longrightarrow> P s'"
    and add_q: "qs_AddQuarantinedFile S (new_record file reason details who now) s = (e, s') \<Longrightarrow> P s \<Longrightarrow> P s'"
    and upd_q: "qs_UpdateQuarantinedFile S i (review_updates now who resolution notes) s = (e, s') \<Longrightarrow> P s \<Longrightarrow> P s'"
    and get_file: "qs_GetCorpusFile S i s = (rf, s') \<Longrightarrow> P s \<Longrightarrow> P s'"
    and upd_file: "qs_UpdateCorpusFile S i ((''quarantined'', ABool b) # us) s = (e, s') \<Longrightarrow> P s \<Longrightarrow> P s'"
    and del_file: "qs_DeleteCorpusFile S i s = (e, s') \<Longrightarrow> P s \<Longrightarrow> P s'"
    and get_metrics: "qs_GetCorpusFileMetrics S i s = (rm, s') \<Longrightarrow> P s \<Longrightarrow> P s'"
    and upd_metrics: "qs_UpdateCorpusFileMetrics S i m s = (e, s') \<Longrightarrow> P s \<Longrightarrow> P s'"
    and mark: "qs_MarkCorpusFilesSynced S ids b' s = (e, s') \<Longrightarrow> P s \<Longrightarrow> P s'"
    and get_unsynced: "qs_GetUnsyncedCorpusFiles S c b' s = (rfs, s') \<Longrightarrow> P s \<Longrightarrow> P s'"
    and add_file: "qs_AddCorpusFile S file s = (e, s') \<Longrightarrow> P s \<Longrightarrow> P s'"
    and get_files: "qs_GetCorpusFiles S c s = (rfs, s') \<Longrightarrow> P s \<Longrightarrow> P s'"
    and get_hash: "qs_GetCorpusFileByHash S h s = (rf, s') \<Longrightarrow> P s \<Longrightarrow> P s'"
    and rec_evo: "qs_RecordCorpusEvolution S ev s = (e, s') \<Longrightarrow> P s \<Longrightarrow> P s'"
    and get_evo: "qs_GetCorpusEvolution S c l s = (re, s') \<Longrightarrow> P s \<Longrightarrow> P s'"
    and get_camp: "qs_GetCampaign S c s = (rc, s') \<Longrightarrow> P s \<Longrightarrow> P s'"
    and read: "fs_ReadFile F p s = (rd, s') \<Longrightarrow> P s \<Longrightarrow> P s'"
    and save: "fs_SaveFile F p d s = (e, s') \<Longrightarrow> P s \<Longrightarrow> P s'"
    and delete: "fs_DeleteFile F p s = (e, s') \<Longrightarrow> P s \<Longrightarrow> P s'"
begin

lemmas laws = get_q add_q upd_q get_file upd_file del_file get_metrics upd_metrics mark get_unsynced add_file get_files
  get_hash rec_evo get_evo get_camp read save delete

lemmas snd_laws = laws [OF surjective_pairing]

lemmas case_splits = prod.splits sum.splits option.splits list.splits if_splits

lemma move_to_quarantine_keeps: "P s \<Longrightarrow> P (move_to_quarantine F file s)"
  by (auto simp: move_to_quarantine_def Let_def split: case_splits dest!: laws)

lemma QuarantineFile_keeps: "QuarantineFile S F cq nows file reason details who s = (e, s') \<Longrightarrow> P s \<Longrightarrow> P s'"
  by (cases nows) (auto simp: QuarantineFile_def Let_def split: case_splits dest!: laws intro: move_to_quarantine_keeps)

lemma EvaluateFile_keeps: "EvaluateFile S F cq nows file m s = (e, s') \<Longrightarrow> P s \<Longrightarrow> P s'"
  by (auto simp: EvaluateFile_def split: case_splits dest: QuarantineFile_keeps)

lemma corpus_QuarantineFile_keeps: "corpus_QuarantineFile S F cs nows fileID reason details s = (e, s') \<Longrightarrow> P s \<Longrightarrow> P s'"
  by (auto simp: corpus_QuarantineFile_def split: case_splits dest: laws QuarantineFile_keeps)

lemma RestoreQuarantinedFile_keeps: "RestoreQuarantinedFile S F cs now fileID who notes s = (e, s') \<Longrightarrow> P s \<Longrightarrow> P s'"
  by (auto simp: RestoreQuarantinedFile_def RestoreFile_def move_back_def Let_def split: case_splits dest!: laws intro!: snd_laws)

lemma DeleteQuarantinedFile_keeps: "corpus_DeleteQuarantinedFile S F cs now fileID who reason s = (e, s') \<Longrightarrow> P s \<Longrightarrow> P s'"
  by (auto simp: corpus_DeleteQuarantinedFile_def DeleteQuarantinedFile_def Let_def split: case_splits dest!: laws intro!: snd_laws)

lemma UpdateMetrics_keeps: "UpdateMetrics S F cq now nows fileID update s = (e, s') \<Longrightarrow> P s \<Longrightarrow> P s'"
  by (auto simp: UpdateMetrics_def Let_def split: case_splits dest!: laws intro!: EvaluateFile_keeps [OF surjective_pairing])

lemma UpdateCorpusFileMetrics_keeps: "corpus_UpdateCorpusFileMetrics S F cs now nows fileID update s = (e, s') \<Longrightarrow> P s \<Longrightarrow> P s'"
  by (auto simp: corpus_UpdateCorpusFileMetrics_def split: option.splits dest: UpdateMetrics_keeps)

lemma quarantined_now_keeps: "quarantined_now S cs fileID s = (q, s') \<Longrightarrow> P s \<Longrightarrow> P s'"
  by (auto simp: quarantined_now_def split: case_splits dest: laws)

lemma active_files_keeps: "active_files S cs files s = (fs, s') \<Longrightarrow> P s \<Longrightarrow> P s'"
  by (induction files arbitrary: s fs) (auto simp: Let_def split: prod.splits if_splits dest: quarantined_now_keeps)

lemma SyncCorpus_keeps: "SyncCorpus S cs campaignID botID s = (r, s') \<Longrightarrow> P s \<Longrightarrow> P s'"
  by (auto simp: SyncCorpus_def Let_def split: case_splits dest!: laws active_files_keeps)

lemma trackEvolution_keeps: "trackEvolution S now campaignID s = (e, s') \<Longrightarrow> P s \<Longrightarrow> P s'"
  by (auto simp: trackEvolution_def Let_def split: case_splits dest!: laws)

lemma init_metrics_keeps: "P s \<Longrightarrow> P (init_metrics S F cs env fileID s)"
  by (auto simp: init_metrics_def split: option.splits intro: UpdateMetrics_keeps [OF surjective_pairing])

lemma AddFile_keeps: "AddFile S F cs env file s = (e, s') \<Longrightarrow> P s \<Longrightarrow> P s'"
  by (auto simp: AddFile_def Let_def split: prod.splits option.splits if_splits
    dest!: laws quarantined_now_keeps intro!: init_metrics_keeps trackEvolution_keeps [OF surjective_pairing])

lemma share_loop_keeps: "share_loop S F cs envs existing toCampaign i files s = (n, s') \<Longrightarrow> P s \<Longrightarrow> P s'"
  by (induction files arbitrary: i s n) (auto simp: Let_def split: prod.splits if_splits dest: AddFile_keeps)

lemma ShareCorpus_keeps: "ShareCorpus S F cs envs fromCampaign toCampaign s = (r, s') \<Longrightarrow> P s \<Longrightarrow> P s'"
  by (auto simp: ShareCorpus_def findCoverageIncreasingFiles_def split: prod.splits sum.splits dest!: laws share_loop_keeps)

lemma StoreFileContent_keeps: "StoreFileContent F cs ctx campaignID hash data s = (e, s') \<Longrightarrow> P s \<Longrightarrow> P s'"
  by (auto simp: StoreFileContent_def split: case_splits dest: save)

lemmas service_keeps = AddFile_keeps ShareCorpus_keeps SyncCorpus_keeps StoreFileContent_keeps corpus_QuarantineFile_keeps
  RestoreQuarantinedFile_keeps DeleteQuarantinedFile_keeps UpdateCorpusFileMetrics_keeps

end

end
