(* ===== verification/Corpus_Sqlite.thy ===== *)
theory Corpus_Sqlite
  imports Corpus_Quarantine
begin

text \<open>
  The stores behind the corpus service: the queries of \<open>SQLiteStorage\<close>
  (\<open>pkg/storage/storage_interface_impl.go\<close>, \<open>corpus_queries.go\<close>, \<open>campaign_queries.go\<close>) and the local file storage
  (\<open>pkg/service/file_storage.go\<close>), and what the service does on them.

  \<^item> The tables are lists of rows behind the retry layer (\<open>Sqlite_Layer\<close>), with the columns and constraints of
    the repository's \<open>CREATE TABLE\<close> statements. The quarantine and metrics tables are \<open>None\<close> until
    \<open>EnsureStorageInterfaceTables\<close> has created them. Rows of equal sort keys come in the order of the table.
  \<^item> \<open>SET\<close> and \<open>SETQ\<close> say what the \<open>SET\<close> clause of an \<open>UPDATE\<close> makes of a row of the corpus or quarantine table; a clause
    that names a column the table does not have is an error of the statement.
  \<^item> \<open>scan\<close> is the driver's conversion of an aggregated time.
  \<^item> A campaign is the outcome of decoding its row, reduced to the hash of its binary.
  \<^item> The files are a map from cleaned paths below the base directory to contents. \<open>fl_err n\<close> is the fault of the
    \<open>n\<close>-th call of the operating system (a directory in the way, for example); \<open>fl_torn n\<close> is what a failed
    write leaves in the file, if it changed it.
\<close>

section \<open>The local file storage\<close>

text \<open>\<open>filepath.Clean\<close> on the elements of a relative path, its result as a string, and \<open>filepath.IsAbs\<close>.\<close>

fun clean_elems :: "string list \<Rightarrow> string list \<Rightarrow> string list" where
  "clean_elems out [] = rev out"
| "clean_elems out (e # es) =
     (if e = '''' \<or> e = ''.'' then clean_elems out es
      else if e = ''..'' then (case out of [] \<Rightarrow> clean_elems [e] es | o1 # os \<Rightarrow> if o1 = ''..'' then clean_elems (e # out) es else clean_elems os es)
      else clean_elems (e # out) es)"

definition filepath_Clean :: "string \<Rightarrow> string" where
  "filepath_Clean path = (let es = clean_elems [] (split_on (CHR ''/'') path) in if es = [] then ''.'' else join ''/'' es)"

definition filepath_IsAbs :: "string \<Rightarrow> bool" where
  "filepath_IsAbs path = has_prefix path ''/''"

text \<open>The test that \<open>SaveFile\<close>, \<open>ReadFile\<close> and \<open>DeleteFile\<close> share: the cleaned path, or an error.\<close>

definition checked_path :: "string \<Rightarrow> string result" where
  "checked_path path =
     (if filepath_IsAbs path then Inl (ErrorString (''absolute paths not allowed: '' @ path))
      else let cleanPath = filepath_Clean path
           in if str_contains cleanPath ''..'' then Inl (ErrorString (''invalid path: '' @ path)) else Inr cleanPath)"

record Faults =
  fl_err :: "nat \<Rightarrow> error option"
  fl_torn :: "nat \<Rightarrow> bytes option"

type_synonym files = "(string \<rightharpoonup> bytes) \<times> nat"

definition local_SaveFile :: "Faults \<Rightarrow> string \<Rightarrow> bytes \<Rightarrow> files \<Rightarrow> error option \<times> files" where
  "local_SaveFile fl path data = (\<lambda>(fs, n). case checked_path path of
       Inl e \<Rightarrow> (Some e, (fs, n))
     | Inr p \<Rightarrow> (case fl_err fl n of
           Some e \<Rightarrow> (Some (WrapError ''failed to create directory: '' e), (fs, Suc n))
         | None \<Rightarrow> (case fl_err fl (Suc n) of
               Some e \<Rightarrow> (Some (WrapError ''failed to write file: '' e),
                 ((case fl_torn fl (Suc n) of Some d \<Rightarrow> fs(p \<mapsto> d) | None \<Rightarrow> fs), Suc (Suc n)))
             | None \<Rightarrow> (None, (fs(p \<mapsto> data), Suc (Suc n))))))"

definition local_ReadFile :: "Faults \<Rightarrow> string \<Rightarrow> files \<Rightarrow> bytes result \<times> files" where
  "local_ReadFile fl path = (\<lambda>(fs, n). case checked_path path of
       Inl e \<Rightarrow> (Inl e, (fs, n))
     | Inr p \<Rightarrow> (case fl_err fl n of
           Some e \<Rightarrow> (Inl (WrapError ''failed to read file: '' e), (fs, Suc n))
         | None \<Rightarrow> (case fs p of
               None \<Rightarrow> (Inl (ErrorString (''file not found: '' @ path)), (fs, Suc n))
             | Some d \<Rightarrow> (Inr d, (fs, Suc n)))))"

definition local_DeleteFile :: "Faults \<Rightarrow> string \<Rightarrow> files \<Rightarrow> error option \<times> files" where
  "local_DeleteFile fl path = (\<lambda>(fs, n). case checked_path path of
       Inl e \<Rightarrow> (Some e, (fs, n))
     | Inr p \<Rightarrow> (case fl_err fl n of
           Some e \<Rightarrow> (Some (WrapError ''failed to delete file: '' e), (fs, Suc n))
         | None \<Rightarrow> (case fs p of
               None \<Rightarrow> (Some (ErrorString (''file not found: '' @ path)), (fs, Suc n))
             | Some _ \<Rightarrow> (None, (fs(p := None), Suc n)))))"

section \<open>The tables\<close>

record CorpusTables =
  ct_files :: "CorpusFile list"
  ct_quarantined :: "QuarantinedFile list option"
  ct_metrics :: "CorpusFileMetrics list option"
  ct_evolution :: "CorpusEvolution list"
  ct_campaigns :: "string \<rightharpoonup> string result"

type_synonym corpus_state = "CorpusTables sqlw \<times> files"

definition no_table :: "string \<Rightarrow> error" where
  "no_table t = SqliteError (''no such table: '' @ t) 1 1"

definition no_column :: "string \<Rightarrow> error" where
  "no_column c = SqliteError (''no such column: '' @ c) 1 1"

definition file_columns :: "string list" where
  "file_columns = [''id'', ''campaign_id'', ''job_id'', ''bot_id'', ''filename'', ''hash'', ''size'', ''coverage'', ''new_coverage'',
     ''parent_hash'', ''generation'', ''created_at'', ''synced_at'', ''is_seed'']"

definition quarantine_columns :: "string list" where
  "quarantine_columns = [''id'', ''file_id'', ''campaign_id'', ''hash'', ''reason'', ''details'', ''quarantined_at'', ''quarantined_by'',
     ''reviewed_at'', ''reviewed_by'', ''resolution'']"

definition ErrCorpusFileNotFound :: error where "ErrCorpusFileNotFound = ErrorString ''corpus file not found''"
definition ErrQuarantinedFileNotFound :: error where "ErrQuarantinedFileNotFound = ErrorString ''quarantined file not found''"
definition ErrCampaignNotFound :: error where "ErrCampaignNotFound = ErrorString ''campaign not found''"

section \<open>Corpus files\<close>

definition insert_file :: "CorpusFile \<Rightarrow> CorpusTables \<Rightarrow> (nat \<times> CorpusTables) result" where
  "insert_file cf t =
     (if cf_ID cf \<in> cf_ID ` set (ct_files t) then Inl (constraint_error ''campaign_corpus_files.id'' 1555)
      else if cf_Hash cf \<in> cf_Hash ` set (ct_files t) then Inl (constraint_error ''campaign_corpus_files.hash'' 2067)
      else Inr (1, t\<lparr>ct_files := ct_files t @ [cf]\<rparr>))"

definition sqlite_AddCorpusFile :: "Driver \<Rightarrow> DatabaseConfig \<Rightarrow> CorpusFile \<Rightarrow> CorpusTables sqlw \<Rightarrow> error option \<times> CorpusTables sqlw" where
  "sqlite_AddCorpusFile drv cfg cf =
     retry_void drv cfg (\<lambda>s. exec_void (db_exec drv (insert_file (cf\<lparr>cf_SyncedAt := None\<rparr>)) s))"

definition sqlite_GetCorpusFiles :: "Driver \<Rightarrow> DatabaseConfig \<Rightarrow> string \<Rightarrow> CorpusTables sqlw \<Rightarrow> CorpusFile list result \<times> CorpusTables sqlw" where
  "sqlite_GetCorpusFiles drv cfg campaignID =
     get_rows drv cfg (\<lambda>t. sort_key (\<lambda>f. - cf_CreatedAt f) (filter (\<lambda>f. cf_CampaignID f = campaignID) (ct_files t)))"

definition sqlite_GetCorpusFileByHash :: "Driver \<Rightarrow> DatabaseConfig \<Rightarrow> string \<Rightarrow> CorpusTables sqlw \<Rightarrow> CorpusFile result \<times> CorpusTables sqlw" where
  "sqlite_GetCorpusFileByHash drv cfg hash =
     get_row drv cfg (\<lambda>t. Inr (find (\<lambda>f. cf_Hash f = hash) (ct_files t))) (Inl ErrCorpusFileNotFound)"

definition sqlite_GetCorpusFile :: "Driver \<Rightarrow> DatabaseConfig \<Rightarrow> string \<Rightarrow> CorpusTables sqlw \<Rightarrow> CorpusFile result \<times> CorpusTables sqlw" where
  "sqlite_GetCorpusFile drv cfg fileID =
     get_row drv cfg (\<lambda>t. Inr (find (\<lambda>f. cf_ID f = fileID) (ct_files t))) (Inl ErrCorpusFileNotFound)"

definition update_file :: "(updates \<Rightarrow> CorpusFile \<Rightarrow> CorpusFile) \<Rightarrow> string \<Rightarrow> updates \<Rightarrow> CorpusTables \<Rightarrow> (nat \<times> CorpusTables) result" where
  "update_file SET fileID upd t =
     (case find (\<lambda>u. fst u \<notin> set file_columns) upd of
        Some u \<Rightarrow> Inl (no_column (fst u))
      | None \<Rightarrow> Inr (length (filter (\<lambda>f. cf_ID f = fileID) (ct_files t)),
          t\<lparr>ct_files := map (\<lambda>f. if cf_ID f = fileID then SET upd f else f) (ct_files t)\<rparr>))"

definition sqlite_UpdateCorpusFile ::
    "Driver \<Rightarrow> DatabaseConfig \<Rightarrow> (updates \<Rightarrow> CorpusFile \<Rightarrow> CorpusFile) \<Rightarrow> string \<Rightarrow> updates \<Rightarrow> CorpusTables sqlw \<Rightarrow> error option \<times> CorpusTables sqlw" where
  "sqlite_UpdateCorpusFile drv cfg SET fileID upd =
     retry_void drv cfg (\<lambda>s. exec_one ErrCorpusFileNotFound (db_exec drv (update_file SET fileID upd) s))"

definition sqlite_DeleteCorpusFile :: "Driver \<Rightarrow> DatabaseConfig \<Rightarrow> string \<Rightarrow> CorpusTables sqlw \<Rightarrow> error option \<times> CorpusTables sqlw" where
  "sqlite_DeleteCorpusFile drv cfg fileID =
     retry_void drv cfg (\<lambda>s. exec_one ErrCorpusFileNotFound (db_exec drv
       (\<lambda>t. Inr (length (filter (\<lambda>f. cf_ID f = fileID) (ct_files t)), t\<lparr>ct_files := filter (\<lambda>f. cf_ID f \<noteq> fileID) (ct_files t)\<rparr>)) s))"

text \<open>\<open>GetUnsyncedCorpusFiles\<close>: the last synchronisation is read without retries.\<close>

definition last_sync :: "string \<Rightarrow> string \<Rightarrow> CorpusTables \<Rightarrow> time option" where
  "last_sync campaignID botID t =
     (case List.map_filter cf_SyncedAt (filter (\<lambda>f. cf_CampaignID f = campaignID \<and> cf_BotID f = botID) (ct_files t)) of
        [] \<Rightarrow> None
      | x # xs \<Rightarrow> Some (foldl max x xs))"

definition unsynced :: "string \<Rightarrow> string \<Rightarrow> time option \<Rightarrow> CorpusTables \<Rightarrow> CorpusFile list" where
  "unsynced campaignID botID since t =
     take 100 (sort_key (\<lambda>f. - cf_NewCoverage f) (sort_key cf_CreatedAt
       (filter (\<lambda>f. cf_CampaignID f = campaignID \<and> cf_NewCoverage f > 0 \<and> (case since of Some l \<Rightarrow> cf_CreatedAt f > l | None \<Rightarrow> True) \<and>
          \<not> (\<exists>sync \<in> set (ct_files t). cf_Hash sync = cf_Hash f \<and> cf_BotID sync = botID \<and> cf_SyncedAt sync \<noteq> None)) (ct_files t))))"

definition sqlite_GetUnsyncedCorpusFiles ::
    "Driver \<Rightarrow> DatabaseConfig \<Rightarrow> (time \<Rightarrow> time result) \<Rightarrow> string \<Rightarrow> string \<Rightarrow> CorpusTables sqlw \<Rightarrow> CorpusFile list result \<times> CorpusTables sqlw" where
  "sqlite_GetUnsyncedCorpusFiles drv cfg scan campaignID botID = (\<lambda>(t, n).
     case (case drv_fault drv n of
             Some e \<Rightarrow> (if e = ErrNoRows then Inr None else Inl e)
           | None \<Rightarrow> (case last_sync campaignID botID t of None \<Rightarrow> Inr None | Some l \<Rightarrow> map_sum id Some (scan l))) of
       Inl e \<Rightarrow> (Inl e, (t, Suc n))
     | Inr since \<Rightarrow> get_rows drv cfg (unsynced campaignID botID since) (t, Suc n))"

text \<open>
  \<open>MarkCorpusFilesSynced\<close> copies the row of each file, inside a transaction, with the ID of the bot appended to
  its own. Only a conflict of the ID is turned into an update, a conflict of the hash is an error.
\<close>

definition insert_sync :: "string \<Rightarrow> time \<Rightarrow> string \<Rightarrow> CorpusTables \<Rightarrow> CorpusTables result" where
  "insert_sync botID syncTime fileID t =
     (case find (\<lambda>f. cf_ID f = fileID) (ct_files t) of
        None \<Rightarrow> Inr t
      | Some f \<Rightarrow>
          (let row = f\<lparr>cf_ID := cf_ID f @ ''_'' @ botID, cf_BotID := botID, cf_SyncedAt := Some syncTime\<rparr>
           in if cf_Hash row \<in> cf_Hash ` set (ct_files t) then Inl (constraint_error ''campaign_corpus_files.hash'' 2067)
              else if cf_ID row \<in> cf_ID ` set (ct_files t)
                   then Inr (t\<lparr>ct_files := map (\<lambda>g. if cf_ID g = cf_ID row then g\<lparr>cf_SyncedAt := Some syncTime\<rparr> else g) (ct_files t)\<rparr>)
                   else Inr (t\<lparr>ct_files := ct_files t @ [row]\<rparr>)))"

fun sync_stmts :: "Driver \<Rightarrow> string \<Rightarrow> time \<Rightarrow> string list \<Rightarrow> CorpusTables \<times> nat \<Rightarrow> error option \<times> (CorpusTables \<times> nat)" where
  "sync_stmts drv botID syncTime [] w = (None, w)"
| "sync_stmts drv botID syncTime (fileID # ids) (t, n) =
     (case drv_fault drv n of
        Some e \<Rightarrow> (Some e, (t, Suc n))
      | None \<Rightarrow> (case insert_sync botID syncTime fileID t of
            Inl e \<Rightarrow> (Some e, (t, Suc n))
          | Inr t' \<Rightarrow> sync_stmts drv botID syncTime ids (t', Suc n)))"

text \<open>One attempt: begin, prepare, the statements, commit; any error rolls back to \<open>t\<close>.\<close>

definition sync_attempt :: "Driver \<Rightarrow> string \<Rightarrow> (nat \<Rightarrow> time) \<Rightarrow> string list \<Rightarrow> CorpusTables sqlw \<times> unit \<Rightarrow> error option \<times> (CorpusTables sqlw \<times> unit)" where
  "sync_attempt drv botID clk ids = (\<lambda>((t, n), x). case drv_fault drv n of
       Some e \<Rightarrow> (Some e, ((t, Suc n), x))
     | None \<Rightarrow> (case drv_fault drv (Suc n) of
           Some e \<Rightarrow> (Some e, ((t, Suc (Suc n)), x))
         | None \<Rightarrow> (case sync_stmts drv botID (clk n) ids (t, Suc (Suc n)) of
               (Some e, (_, n')) \<Rightarrow> (Some e, ((t, n'), x))
             | (None, (t', n')) \<Rightarrow> (case drv_fault drv n' of
                   Some e \<Rightarrow> (Some e, ((t, Suc n'), x))
                 | None \<Rightarrow> (None, ((t', Suc n'), x))))))"

definition sqlite_MarkCorpusFilesSynced ::
    "Driver \<Rightarrow> DatabaseConfig \<Rightarrow> (nat \<Rightarrow> time) \<Rightarrow> string list \<Rightarrow> string \<Rightarrow> CorpusTables sqlw \<Rightarrow> error option \<times> CorpusTables sqlw" where
  "sqlite_MarkCorpusFilesSynced drv cfg clk fileIDs botID w =
     (if fileIDs = [] then (None, w) else retry_void drv cfg (sync_attempt drv botID clk fileIDs) w)"

section \<open>Evolution and campaigns\<close>

definition sqlite_RecordCorpusEvolution :: "Driver \<Rightarrow> DatabaseConfig \<Rightarrow> CorpusEvolution \<Rightarrow> CorpusTables sqlw \<Rightarrow> error option \<times> CorpusTables sqlw" where
  "sqlite_RecordCorpusEvolution drv cfg ce =
     retry_void drv cfg (\<lambda>s. exec_void (db_exec drv (\<lambda>t. Inr (1, t\<lparr>ct_evolution := ct_evolution t @ [ce]\<rparr>)) s))"

definition sqlite_GetCorpusEvolution ::
    "Driver \<Rightarrow> DatabaseConfig \<Rightarrow> string \<Rightarrow> int \<Rightarrow> CorpusTables sqlw \<Rightarrow> CorpusEvolution list result \<times> CorpusTables sqlw" where
  "sqlite_GetCorpusEvolution drv cfg campaignID maxRows =
     get_rows drv cfg (\<lambda>t. let es = sort_key (\<lambda>e. - ce_Timestamp e) (filter (\<lambda>e. ce_CampaignID e = campaignID) (ct_evolution t))
       in if maxRows > 0 then take (nat maxRows) es else es)"

definition sqlite_GetCampaign :: "Driver \<Rightarrow> DatabaseConfig \<Rightarrow> string \<Rightarrow> CorpusTables sqlw \<Rightarrow> string result \<times> CorpusTables sqlw" where
  "sqlite_GetCampaign drv cfg campaignID w =
     (case get_row drv cfg (\<lambda>t. Inr (ct_campaigns t campaignID)) (Inl ErrCampaignNotFound) w of
        (Inl e, w1) \<Rightarrow> (Inl e, w1)
      | (Inr r, w1) \<Rightarrow> (r, w1))"

section \<open>Quarantine records and metrics\<close>

definition sqlite_AddQuarantinedFile :: "Driver \<Rightarrow> DatabaseConfig \<Rightarrow> QuarantinedFile \<Rightarrow> CorpusTables sqlw \<Rightarrow> error option \<times> CorpusTables sqlw" where
  "sqlite_AddQuarantinedFile drv cfg qf =
     retry_void drv cfg (\<lambda>s. exec_void (db_exec drv (\<lambda>t. case ct_quarantined t of
         None \<Rightarrow> Inl (no_table ''quarantined_files'')
       | Some qs \<Rightarrow> if qf_ID qf \<in> qf_ID ` set qs then Inl (constraint_error ''quarantined_files.id'' 1555)
                    else Inr (1, t\<lparr>ct_quarantined := Some (qs @ [qf])\<rparr>)) s))"

definition sqlite_GetQuarantinedFile ::
    "Driver \<Rightarrow> DatabaseConfig \<Rightarrow> string \<Rightarrow> CorpusTables sqlw \<Rightarrow> QuarantinedFile option result \<times> CorpusTables sqlw" where
  "sqlite_GetQuarantinedFile drv cfg fileID w =
     (let (r, w1) = get_row drv cfg (\<lambda>t. case ct_quarantined t of
           None \<Rightarrow> Inl (no_table ''quarantined_files'')
         | Some qs \<Rightarrow> Inr (find (\<lambda>q. qf_ID q = fileID) qs)) (Inl ErrQuarantinedFileNotFound) w
      in (map_sum id Some r, w1))"

definition sqlite_UpdateQuarantinedFile ::
    "Driver \<Rightarrow> DatabaseConfig \<Rightarrow> (updates \<Rightarrow> QuarantinedFile \<Rightarrow> QuarantinedFile) \<Rightarrow> string \<Rightarrow> updates \<Rightarrow> CorpusTables sqlw \<Rightarrow>
     error option \<times> CorpusTables sqlw" where
  "sqlite_UpdateQuarantinedFile drv cfg SETQ qid upd =
     retry_void drv cfg (\<lambda>s. exec_one ErrQuarantinedFileNotFound (db_exec drv (\<lambda>t. case ct_quarantined t of
         None \<Rightarrow> Inl (no_table ''quarantined_files'')
       | Some qs \<Rightarrow> (case find (\<lambda>u. fst u \<notin> set quarantine_columns) upd of
             Some u \<Rightarrow> Inl (no_column (fst u))
           | None \<Rightarrow> Inr (length (filter (\<lambda>q. qf_ID q = qid) qs),
               t\<lparr>ct_quarantined := Some (map (\<lambda>q. if qf_ID q = qid then SETQ upd q else q) qs)\<rparr>))) s))"

definition sqlite_GetCorpusFileMetrics :: "Driver \<Rightarrow> DatabaseConfig \<Rightarrow> string \<Rightarrow> CorpusTables sqlw \<Rightarrow> CorpusFileMetrics result \<times> CorpusTables sqlw" where
  "sqlite_GetCorpusFileMetrics drv cfg fileID =
     get_row drv cfg (\<lambda>t. case ct_metrics t of
         None \<Rightarrow> Inl (no_table ''corpus_file_metrics'')
       | Some ms \<Rightarrow> Inr (find (\<lambda>m. fm_FileID m = fileID) ms))
       (Inr \<lparr>fm_FileID = fileID, fm_CrashCount = 0, fm_TimeoutCount = 0, fm_AvgExecTime = 0, fm_MaxMemoryUsage = 0,
             fm_LastExecuted = time_zero, fm_ExecCount = 0\<rparr>)"

definition sqlite_UpdateCorpusFileMetrics ::
    "Driver \<Rightarrow> DatabaseConfig \<Rightarrow> string \<Rightarrow> CorpusFileMetrics \<Rightarrow> CorpusTables sqlw \<Rightarrow> error option \<times> CorpusTables sqlw" where
  "sqlite_UpdateCorpusFileMetrics drv cfg fileID metrics =
     retry_void drv cfg (\<lambda>s. exec_void (db_exec drv (\<lambda>t. case ct_metrics t of
         None \<Rightarrow> Inl (no_table ''corpus_file_metrics'')
       | Some ms \<Rightarrow> (let m = metrics\<lparr>fm_FileID := fileID\<rparr>
           in Inr (1, t\<lparr>ct_metrics := Some (if fileID \<in> fm_FileID ` set ms then map (\<lambda>m'. if fm_FileID m' = fileID then m else m') ms else ms @ [m])\<rparr>))) s))"

section \<open>The two stores side by side\<close>

text \<open>The parameters of the environment.\<close>

record CorpusEnv =
  en_drv :: Driver
  en_cfg :: DatabaseConfig
  en_SET :: "updates \<Rightarrow> CorpusFile \<Rightarrow> CorpusFile"
  en_SETQ :: "updates \<Rightarrow> QuarantinedFile \<Rightarrow> QuarantinedFile"
  en_scan :: "time \<Rightarrow> time result"
  en_clk :: "nat \<Rightarrow> time"
  en_fl :: Faults

definition on_db :: "(CorpusTables sqlw \<Rightarrow> 'r \<times> CorpusTables sqlw) \<Rightarrow> corpus_state \<Rightarrow> 'r \<times> corpus_state" where
  "on_db f = (\<lambda>(w, fs). let (r, w') = f w in (r, (w', fs)))"

definition on_files :: "(files \<Rightarrow> 'r \<times> files) \<Rightarrow> corpus_state \<Rightarrow> 'r \<times> corpus_state" where
  "on_files f = (\<lambda>(w, fs). let (r, fs') = f fs in (r, (w, fs')))"

definition sqlite_corpus :: "CorpusEnv \<Rightarrow> corpus_state QuarantineStorage" where
  "sqlite_corpus en = (let drv = en_drv en; cfg = en_cfg en in
     \<lparr>qs_GetQuarantinedFile = (\<lambda>i. on_db (sqlite_GetQuarantinedFile drv cfg i)),
      qs_AddQuarantinedFile = (\<lambda>q. on_db (sqlite_AddQuarantinedFile drv cfg q)),
      qs_UpdateQuarantinedFile = (\<lambda>i u. on_db (sqlite_UpdateQuarantinedFile drv cfg (en_SETQ en) i u)),
      qs_GetCorpusFile = (\<lambda>i. on_db (sqlite_GetCorpusFile drv cfg i)),
      qs_UpdateCorpusFile = (\<lambda>i u. on_db (sqlite_UpdateCorpusFile drv cfg (en_SET en) i u)),
      qs_DeleteCorpusFile = (\<lambda>i. on_db (sqlite_DeleteCorpusFile drv cfg i)),
      qs_GetCorpusFileMetrics = (\<lambda>i. on_db (sqlite_GetCorpusFileMetrics drv cfg i)),
      qs_UpdateCorpusFileMetrics = (\<lambda>i m. on_db (sqlite_UpdateCorpusFileMetrics drv cfg i m)),
      qs_MarkCorpusFilesSynced = (\<lambda>is b. on_db (sqlite_MarkCorpusFilesSynced drv cfg (en_clk en) is b)),
      qs_GetUnsyncedCorpusFiles = (\<lambda>c b. on_db (sqlite_GetUnsyncedCorpusFiles drv cfg (en_scan en) c b)),
      qs_AddCorpusFile = (\<lambda>f. on_db (sqlite_AddCorpusFile drv cfg f)),
      qs_GetCorpusFiles = (\<lambda>c. on_db (sqlite_GetCorpusFiles drv cfg c)),
      qs_GetCorpusFileByHash = (\<lambda>h. on_db (sqlite_GetCorpusFileByHash drv cfg h)),
      qs_RecordCorpusEvolution = (\<lambda>e. on_db (sqlite_RecordCorpusEvolution drv cfg e)),
      qs_GetCorpusEvolution = (\<lambda>c l. on_db (sqlite_GetCorpusEvolution drv cfg c l)),
      qs_GetCampaign = (\<lambda>c. on_db (sqlite_GetCampaign drv cfg c))\<rparr>)"

definition local_files :: "CorpusEnv \<Rightarrow> corpus_state FileStorage" where
  "local_files en =
     \<lparr>fs_ReadFile = (\<lambda>p. on_files (local_ReadFile (en_fl en) p)),
      fs_SaveFile = (\<lambda>p d. on_files (local_SaveFile (en_fl en) p d)),
      fs_DeleteFile = (\<lambda>p. on_files (local_DeleteFile (en_fl en) p))\<rparr>"

section \<open>Facts about the queries\<close>

lemma insert_sync_keeps: "insert_sync botID syncTime fileID t = Inr t' \<Longrightarrow> t' = t"
  by (auto simp: insert_sync_def Let_def find_Some_iff split: option.splits if_splits dest: nth_mem)

lemma sync_stmts_keeps: "sync_stmts drv botID syncTime ids (t, n) = (None, (t', n')) \<Longrightarrow> t' = t"
  by (induction drv botID syncTime ids "(t, n)" arbitrary: t n rule: sync_stmts.induct)
    (auto split: option.splits sum.splits dest: insert_sync_keeps)

lemma sync_attempt_keeps: "fst (fst (snd (sync_attempt drv botID clk ids ((t, n), x)))) = t"
  by (auto simp: sync_attempt_def split: option.splits prod.splits dest: sync_stmts_keeps)

lemma MarkCorpusFilesSynced_keeps: "sqlite_MarkCorpusFilesSynced drv cfg clk ids b w = (e, w') \<Longrightarrow> fst w' = fst w"
proof -
  assume a: "sqlite_MarkCorpusFilesSynced drv cfg clk ids b w = (e, w')"
  have "fst (snd (retry_void drv cfg (sync_attempt drv b clk ids) w)) = fst w"
    by (rule retry_void_keeps [where P = "\<lambda>t. t = fst w"]) (simp_all add: sync_attempt_keeps)
  with a show ?thesis by (auto simp: sqlite_MarkCorpusFilesSynced_def split: if_splits)
qed

text \<open>A file that is stored cannot be marked.\<close>

lemma insert_sync_stored: "f \<in> set (ct_files t) \<Longrightarrow> cf_ID f = fileID \<Longrightarrow> \<exists>e. insert_sync botID syncTime fileID t = Inl e"
  by (cases "find (\<lambda>f. cf_ID f = fileID) (ct_files t)")
    (auto simp: insert_sync_def Let_def find_None_iff dest: find_row)

lemma GetUnsynced_keeps: "sqlite_GetUnsyncedCorpusFiles drv cfg scan c b w = (r, w') \<Longrightarrow> fst w' = fst w"
  by (auto simp: sqlite_GetUnsyncedCorpusFiles_def split: prod.splits sum.splits option.splits if_splits dest: get_rows_keeps)

lemmas query_defs = sqlite_GetQuarantinedFile_def sqlite_GetCorpusFile_def sqlite_GetCorpusFileMetrics_def sqlite_GetCorpusFiles_def
  sqlite_GetCorpusFileByHash_def sqlite_GetCorpusEvolution_def sqlite_GetCampaign_def

lemma queries_keep:
  "sqlite_GetQuarantinedFile drv cfg i w = (rq, w') \<Longrightarrow> fst w' = fst w"
  "sqlite_GetCorpusFile drv cfg i w = (rf, w') \<Longrightarrow> fst w' = fst w"
  "sqlite_GetCorpusFileMetrics drv cfg i w = (rm, w') \<Longrightarrow> fst w' = fst w"
  "sqlite_GetCorpusFiles drv cfg c w = (rfs, w') \<Longrightarrow> fst w' = fst w"
  "sqlite_GetCorpusFileByHash drv cfg h w = (rf, w') \<Longrightarrow> fst w' = fst w"
  "sqlite_GetCorpusEvolution drv cfg c l w = (re, w') \<Longrightarrow> fst w' = fst w"
  "sqlite_GetCampaign drv cfg c w = (rc, w') \<Longrightarrow> fst w' = fst w"
  "sqlite_GetUnsyncedCorpusFiles drv cfg scan c b w = (rfs, w') \<Longrightarrow> fst w' = fst w"
  by (auto simp: query_defs split: prod.splits sum.splits dest: get_row_keeps get_rows_keeps GetUnsynced_keeps)

lemma on_db_eq: "on_db f s = (r, s') \<longleftrightarrow> f (fst s) = (r, fst s') \<and> snd s' = snd s"
  by (cases s; cases s') (auto simp: on_db_def split: prod.splits)

lemma on_files_eq: "on_files f s = (r, s') \<longleftrightarrow> f (snd s) = (r, snd s') \<and> fst s' = fst s"
  by (cases s; cases s') (auto simp: on_files_def split: prod.splits)

lemma sqlite_corpus_simps [simp]:
  "qs_GetQuarantinedFile (sqlite_corpus en) i = on_db (sqlite_GetQuarantinedFile (en_drv en) (en_cfg en) i)"
  "qs_AddQuarantinedFile (sqlite_corpus en) q = on_db (sqlite_AddQuarantinedFile (en_drv en) (en_cfg en) q)"
  "qs_UpdateQuarantinedFile (sqlite_corpus en) i u = on_db (sqlite_UpdateQuarantinedFile (en_drv en) (en_cfg en) (en_SETQ en) i u)"
  "qs_GetCorpusFile (sqlite_corpus en) i = on_db (sqlite_GetCorpusFile (en_drv en) (en_cfg en) i)"
  "qs_UpdateCorpusFile (sqlite_corpus en) i u = on_db (sqlite_UpdateCorpusFile (en_drv en) (en_cfg en) (en_SET en) i u)"
  "qs_DeleteCorpusFile (sqlite_corpus en) i = on_db (sqlite_DeleteCorpusFile (en_drv en) (en_cfg en) i)"
  "qs_GetCorpusFileMetrics (sqlite_corpus en) i = on_db (sqlite_GetCorpusFileMetrics (en_drv en) (en_cfg en) i)"
  "qs_UpdateCorpusFileMetrics (sqlite_corpus en) i m = on_db (sqlite_UpdateCorpusFileMetrics (en_drv en) (en_cfg en) i m)"
  "qs_MarkCorpusFilesSynced (sqlite_corpus en) ids b = on_db (sqlite_MarkCorpusFilesSynced (en_drv en) (en_cfg en) (en_clk en) ids b)"
  "qs_GetUnsyncedCorpusFiles (sqlite_corpus en) c b = on_db (sqlite_GetUnsyncedCorpusFiles (en_drv en) (en_cfg en) (en_scan en) c b)"
  "qs_AddCorpusFile (sqlite_corpus en) f = on_db (sqlite_AddCorpusFile (en_drv en) (en_cfg en) f)"
  "qs_GetCorpusFiles (sqlite_corpus en) c = on_db (sqlite_GetCorpusFiles (en_drv en) (en_cfg en) c)"
  "qs_GetCorpusFileByHash (sqlite_corpus en) h = on_db (sqlite_GetCorpusFileByHash (en_drv en) (en_cfg en) h)"
  "qs_RecordCorpusEvolution (sqlite_corpus en) e = on_db (sqlite_RecordCorpusEvolution (en_drv en) (en_cfg en) e)"
  "qs_GetCorpusEvolution (sqlite_corpus en) c l = on_db (sqlite_GetCorpusEvolution (en_drv en) (en_cfg en) c l)"
  "qs_GetCampaign (sqlite_corpus en) c = on_db (sqlite_GetCampaign (en_drv en) (en_cfg en) c)"
  by (simp_all add: sqlite_corpus_def Let_def)

text \<open>The tables and the files of a state; the counters of calls are left out.\<close>

abbreviation tables :: "corpus_state \<Rightarrow> CorpusTables" where
  "tables s \<equiv> fst (fst s)"

section \<open>Sharing and synchronising\<close>

lemma quarantined_now_same: "quarantined_now (sqlite_corpus en) cs i s = (q, s') \<Longrightarrow> tables s' = tables s \<and> snd s' = snd s"
  by (auto simp: quarantined_now_def on_db_eq split: if_splits prod.splits sum.splits option.splits dest: queries_keep)

lemma insert_stored_hash:
  assumes "cf_Hash file \<in> cf_Hash ` set (ct_files (fst w))"
  shows "\<exists>e w'. sqlite_AddCorpusFile drv cfg file w = (Some e, w') \<and> fst w' = fst w"
proof -
  obtain e where "insert_file (file\<lparr>cf_SyncedAt := None\<rparr>) (fst w) = Inl e"
    using assms by (cases "cf_ID file \<in> cf_ID ` set (ct_files (fst w))") (auto simp: insert_file_def)
  then show ?thesis unfolding sqlite_AddCorpusFile_def by (rule retry_exec_fails(1))
qed

lemma AddFile_stored_hash:
  assumes "cf_Hash file \<in> cf_Hash ` set (ct_files (tables s))" and "AddFile (sqlite_corpus en) F cs env file s = (e, s')"
  shows "e \<noteq> None \<and> tables s' = tables s \<and> snd s' = snd s"
proof -
  let ?f = "fill_in env file"
  obtain q s1 where q: "quarantined_now (sqlite_corpus en) cs (cf_ID ?f) s = (q, s1)" by (metis surj_pair)
  obtain r s2 where r: "qs_GetCorpusFileByHash (sqlite_corpus en) (cf_Hash ?f) s1 = (r, s2)" by (metis surj_pair)
  have t: "tables s1 = tables s" "snd s1 = snd s" "tables s2 = tables s1" "snd s2 = snd s1"
    using quarantined_now_same [OF q] r by (auto simp: on_db_eq dest: queries_keep)
  then have "cf_Hash ?f \<in> cf_Hash ` set (ct_files (fst (fst s2)))" using assms(1) by (simp add: fill_in_def)
  then obtain e3 w3 where "sqlite_AddCorpusFile (en_drv en) (en_cfg en) ?f (fst s2) = (Some e3, w3)" "fst w3 = tables s2"
    using insert_stored_hash by metis
  then have "qs_AddCorpusFile (sqlite_corpus en) ?f s2 = (Some e3, (w3, snd s2))" "fst w3 = tables s2" by (simp_all add: on_db_eq)
  with assms(2) q r t show ?thesis by (auto simp: AddFile_def Let_def split: if_splits option.splits)
qed

lemma share_loop_same:
  assumes "\<forall>f \<in> set files. cf_Hash f \<in> cf_Hash ` set (ct_files (tables s))"
    and "share_loop (sqlite_corpus en) F cs envs existing toCampaign i files s = (n, s')"
  shows "n = 0 \<and> tables s' = tables s \<and> snd s' = snd s"
  using assms
proof (induction files arbitrary: i s n)
  case (Cons f files)
  let ?g = "shared_file (ae_uuid (envs i)) (ae_created (envs i)) toCampaign f"
  obtain e s1 where a: "AddFile (sqlite_corpus en) F cs (envs i) ?g s = (e, s1)" by (metis surj_pair)
  have "cf_Hash ?g \<in> cf_Hash ` set (ct_files (tables s))" using Cons.prems(1) by (simp add: shared_file_def)
  from AddFile_stored_hash [OF this a] have "e \<noteq> None" "tables s1 = tables s" "snd s1 = snd s" by simp_all
  then show ?case using Cons.prems a Cons.IH [of s1 "Suc i"] Cons.IH [of s "Suc i"] by (auto simp: Let_def split: if_splits prod.splits)
qed simp

lemma ShareCorpus_same:
  assumes "ShareCorpus (sqlite_corpus en) F cs envs fromCampaign toCampaign s = (r, s')"
  shows "tables s' = tables s \<and> snd s' = snd s \<and> (\<forall>n. r = Inr n \<longrightarrow> n = 0)"
proof -
  let ?S = "sqlite_corpus en"
  obtain r1 s1 where 1: "qs_GetCampaign ?S fromCampaign s = (r1, s1)" by (metis surj_pair)
  obtain r2 s2 where 2: "qs_GetCampaign ?S toCampaign s1 = (r2, s2)" by (metis surj_pair)
  obtain r3 s3 where 3: "qs_GetCorpusFiles ?S fromCampaign s2 = (r3, s3)" by (metis surj_pair)
  obtain r4 s4 where 4: "qs_GetCorpusFiles ?S toCampaign s3 = (r4, s4)" by (metis surj_pair)
  let ?L = "\<lambda>E files. share_loop ?S F cs envs E toCampaign 0 (filter (\<lambda>f. 0 < cf_NewCoverage f) files) s4"
  have t: "tables s1 = tables s" "tables s2 = tables s" "tables s3 = tables s" "tables s4 = tables s"
      "snd s1 = snd s" "snd s2 = snd s" "snd s3 = snd s" "snd s4 = snd s"
    using 1 2 3 4 by (auto simp: on_db_eq dest!: queries_keep)
  have "\<forall>f \<in> set files. cf_Hash f \<in> cf_Hash ` set (ct_files (tables s4))" if "r3 = Inr files" for files
    using 3 that t get_rows_subset by (fastforce simp: on_db_eq sqlite_GetCorpusFiles_def)
  then have "fst (?L E files) = 0 \<and> tables (snd (?L E files)) = tables s4 \<and> snd (snd (?L E files)) = snd s4"
    if "r3 = Inr files" for files E
    using share_loop_same [of "filter (\<lambda>f. 0 < cf_NewCoverage f) files" s4 en F cs envs E toCampaign 0, OF _ surjective_pairing] that by simp
  with assms 1 2 3 4 t show ?thesis
    by (cases r1; cases r2; cases r3; cases r4) (auto simp: ShareCorpus_def findCoverageIncreasingFiles_def case_prod_unfold Let_def)
qed

text \<open>Without faults the answers depend on the tables only.\<close>

definition no_faults :: "CorpusEnv \<Rightarrow> bool" where
  "no_faults en \<longleftrightarrow> en_drv en = healthy \<and> 0 \<le> dbc_MaxRetries (en_cfg en)"

text \<open>The quarantine record with the given ID, and whether the service respects it.\<close>

definition stored_record :: "string \<Rightarrow> CorpusTables \<Rightarrow> QuarantinedFile option" where
  "stored_record i t = (case ct_quarantined t of None \<Rightarrow> None | Some qs \<Rightarrow> find (\<lambda>q. qf_ID q = i) qs)"

definition record_of :: "corpusService \<Rightarrow> string \<Rightarrow> CorpusTables \<Rightarrow> QuarantinedFile option" where
  "record_of cs i t =
     (if cs_quarantine cs = None then None
      else case stored_record i t of Some q \<Rightarrow> if qf_Resolution q = None then Some q else None | None \<Rightarrow> None)"

lemma GetQuarantinedFile_sound:
  assumes "sqlite_GetQuarantinedFile drv cfg i w = (Inr r, w')"
  shows "\<exists>q. r = Some q \<and> stored_record i (fst w) = Some q"
  using assms by (cases "ct_quarantined (fst w)")
    (auto simp: sqlite_GetQuarantinedFile_def stored_record_def map_sum_def split: prod.splits sum.splits dest!: get_row_sound)

lemma GetQuarantinedFile_healthy:
  assumes "0 \<le> dbc_MaxRetries cfg" and "stored_record i t = Some q"
  shows "sqlite_GetQuarantinedFile healthy cfg i (t, n) = (Inr (Some q), (t, Suc (Suc n)))"
  using assms unfolding sqlite_GetQuarantinedFile_def
  by (subst get_row_healthy [where v = q]) (auto simp: stored_record_def split: option.splits)

lemma quarantined_now_healthy:
  assumes "no_faults en"
  shows "fst (quarantined_now (sqlite_corpus en) cs i s) = record_of cs i (tables s)"
proof -
  obtain t n fs where s: "s = ((t, n), fs)" by (cases s; cases "fst s") auto
  obtain r w where r: "sqlite_GetQuarantinedFile healthy (en_cfg en) i (t, n) = (r, w)" by (metis surj_pair)
  show ?thesis
  proof (cases "stored_record i t")
    case None
    with GetQuarantinedFile_sound have "\<exists>e. r = Inl e" using r by (cases r) fastforce+
    with None r assms show ?thesis by (auto simp: quarantined_now_def record_of_def no_faults_def on_db_def s)
  next
    case (Some q)
    then show ?thesis using assms GetQuarantinedFile_healthy [OF _ Some, of "en_cfg en" n]
      by (simp add: quarantined_now_def record_of_def no_faults_def on_db_def s)
  qed
qed

lemma active_files_healthy:
  assumes "no_faults en"
  shows "fst (active_files (sqlite_corpus en) cs files s) = filter (\<lambda>f. record_of cs (cf_ID f) (tables s) = None) files"
proof (induction files arbitrary: s)
  case (Cons f files)
  obtain q s1 where q: "quarantined_now (sqlite_corpus en) cs (cf_ID f) s = (q, s1)" by (metis surj_pair)
  have "tables s1 = tables s" "q = record_of cs (cf_ID f) (tables s)"
    using quarantined_now_same [OF q] quarantined_now_healthy [OF assms, of cs "cf_ID f" s] q by simp_all
  then show ?case using q Cons.IH [of s1] by (simp add: case_prod_unfold Let_def)
qed simp

lemma active_files_same: "active_files (sqlite_corpus en) cs files s = (fs, s') \<Longrightarrow> tables s' = tables s \<and> snd s' = snd s"
  by (induction files arbitrary: s fs) (auto simp: Let_def split: prod.splits dest!: quarantined_now_same)

lemma SyncCorpus_same: "SyncCorpus (sqlite_corpus en) cs c b s = (r, s') \<Longrightarrow> tables s' = tables s \<and> snd s' = snd s"
  by (auto simp: SyncCorpus_def Let_def on_db_eq split: prod.splits sum.splits if_splits
    dest!: queries_keep active_files_same MarkCorpusFilesSynced_keeps)

lemma SyncCorpus_healthy:
  assumes "no_faults en"
  shows "fst (SyncCorpus (sqlite_corpus en) cs c b s) =
    (case (case last_sync c b (tables s) of None \<Rightarrow> Inr None | Some l \<Rightarrow> map_sum id Some (en_scan en l)) of
       Inl e \<Rightarrow> Inl (WrapError ''failed to get unsynced corpus files: '' e)
     | Inr since \<Rightarrow> Inr (filter (\<lambda>f. record_of cs (cf_ID f) (tables s) = None) (unsynced c b since (tables s))))"
proof -
  obtain t n fs where s: "s = ((t, n), fs)" by (cases s; cases "fst s") auto
  have h: "drv_fault healthy = (\<lambda>_. None)" by (simp add: healthy_def)
  show ?thesis using assms
    by (auto simp: SyncCorpus_def s on_db_def sqlite_GetUnsyncedCorpusFiles_def no_faults_def h get_rows_healthy case_prod_unfold Let_def
      active_files_healthy [OF assms] split: sum.splits option.splits)
qed

lemma SyncCorpus_cong:
  "no_faults en \<Longrightarrow> tables s' = tables s \<Longrightarrow> fst (SyncCorpus (sqlite_corpus en) cs c b s') = fst (SyncCorpus (sqlite_corpus en) cs c b s)"
  by (simp only: SyncCorpus_healthy)

section \<open>What holds in all states\<close>

text \<open>
  IDs and hashes are unique, no file is marked as synchronised, and no quarantine record is resolved; its ID is
  that of the file behind a prefix.
\<close>

definition quarantine_id :: "string \<Rightarrow> string" where
  "quarantine_id fileID = ''quarantine-'' @ fileID"

definition tables_inv :: "CorpusTables \<Rightarrow> bool" where
  "tables_inv t \<longleftrightarrow> distinct (map cf_ID (ct_files t)) \<and> distinct (map cf_Hash (ct_files t)) \<and>
     (\<forall>f \<in> set (ct_files t). cf_SyncedAt f = None) \<and>
     (\<forall>qs. ct_quarantined t = Some qs \<longrightarrow> distinct (map qf_ID qs) \<and> (\<forall>q \<in> set qs. qf_ID q = quarantine_id (qf_FileID q) \<and> qf_Resolution q = None))"

lemma AddCorpusFile_inv: "sqlite_AddCorpusFile drv cfg file w = (e, w') \<Longrightarrow> tables_inv (fst w) \<Longrightarrow> tables_inv (fst w')"
  unfolding sqlite_AddCorpusFile_def
  by (erule retry_exec_inv(1) [where P = tables_inv]) (auto simp: insert_file_def tables_inv_def split: if_splits)

lemma DeleteCorpusFile_inv: "sqlite_DeleteCorpusFile drv cfg i w = (e, w') \<Longrightarrow> tables_inv (fst w) \<Longrightarrow> tables_inv (fst w')"
  unfolding sqlite_DeleteCorpusFile_def
  by (erule retry_exec_inv(2) [where P = tables_inv]) (auto simp: tables_inv_def distinct_map inj_on_def)

lemma RecordCorpusEvolution_inv: "sqlite_RecordCorpusEvolution drv cfg ev w = (e, w') \<Longrightarrow> tables_inv (fst w) \<Longrightarrow> tables_inv (fst w')"
  unfolding sqlite_RecordCorpusEvolution_def
  by (erule retry_exec_inv(1) [where P = tables_inv]) (auto simp: tables_inv_def)

lemma UpdateCorpusFileMetrics_inv: "sqlite_UpdateCorpusFileMetrics drv cfg i m w = (e, w') \<Longrightarrow> tables_inv (fst w) \<Longrightarrow> tables_inv (fst w')"
  unfolding sqlite_UpdateCorpusFileMetrics_def
  by (erule retry_exec_inv(1) [where P = tables_inv]) (auto simp: tables_inv_def Let_def split: option.splits)

lemma AddQuarantinedFile_inv:
  "sqlite_AddQuarantinedFile drv cfg (new_record file reason details who now) w = (e, w') \<Longrightarrow> tables_inv (fst w) \<Longrightarrow> tables_inv (fst w')"
  unfolding sqlite_AddQuarantinedFile_def
  by (erule retry_exec_inv(1) [where P = tables_inv])
    (auto simp: tables_inv_def new_record_def quarantine_id_def split: option.splits if_splits)

text \<open>The updates of the quarantine manager name columns that the tables do not have.\<close>

lemma UpdateQuarantinedFile_fails:
  "\<exists>e w'. sqlite_UpdateQuarantinedFile drv cfg SETQ i (review_updates now who resolution notes) w = (Some e, w') \<and> fst w' = fst w"
proof -
  let ?u = "review_updates now who resolution notes"
  have "find (\<lambda>u. fst u \<notin> set quarantine_columns) ?u \<noteq> None"
    by (auto simp: find_None_iff review_updates_def quarantine_columns_def)
  then obtain u where u: "find (\<lambda>u. fst u \<notin> set quarantine_columns) ?u = Some u" by blast
  show ?thesis unfolding sqlite_UpdateQuarantinedFile_def
    by (rule retry_exec_fails(2) [where ?e0.0 = "case ct_quarantined (fst w) of None \<Rightarrow> no_table ''quarantined_files'' | Some _ \<Rightarrow> no_column (fst u)"])
      (simp add: u split: option.split)
qed

lemma UpdateCorpusFile_fails:
  "\<exists>e w'. sqlite_UpdateCorpusFile drv cfg SET i ((''quarantined'', v) # us) w = (Some e, w') \<and> fst w' = fst w"
  unfolding sqlite_UpdateCorpusFile_def by (rule retry_exec_fails(2)) (simp add: update_file_def file_columns_def)

lemma updates_keep:
  "sqlite_UpdateQuarantinedFile drv cfg SETQ i (review_updates now who resolution notes) w = (e, w') \<Longrightarrow> fst w' = fst w"
  "sqlite_UpdateCorpusFile drv cfg SET i ((''quarantined'', v) # us) w = (e, w') \<Longrightarrow> fst w' = fst w"
  using UpdateQuarantinedFile_fails UpdateCorpusFile_fails by (metis prod.inject)+

interpretation ci: corpus_invariant "sqlite_corpus en" "local_files en" "\<lambda>s. tables_inv (tables s)" for en
proof unfold_locales
qed (auto simp: on_db_eq on_files_eq local_files_def dest!: queries_keep updates_keep MarkCorpusFilesSynced_keeps
  dest: AddCorpusFile_inv DeleteCorpusFile_inv RecordCorpusEvolution_inv UpdateCorpusFileMetrics_inv AddQuarantinedFile_inv)

text \<open>The states of the stores under the calls of the service, whatever faults the driver and the files show,
  from a database in which nothing is quarantined.\<close>

inductive corpus_db_reach :: "CorpusEnv \<Rightarrow> corpusService \<Rightarrow> corpus_state \<Rightarrow> bool" for en cs where
  created: "distinct (map cf_ID (ct_files (tables s))) \<Longrightarrow> distinct (map cf_Hash (ct_files (tables s))) \<Longrightarrow>
    \<forall>f \<in> set (ct_files (tables s)). cf_SyncedAt f = None \<Longrightarrow> ct_quarantined (tables s) \<in> {None, Some []} \<Longrightarrow> corpus_db_reach en cs s"
| add: "corpus_db_reach en cs s \<Longrightarrow> AddFile (sqlite_corpus en) (local_files en) cs env file s = (e, s') \<Longrightarrow> corpus_db_reach en cs s'"
| share: "corpus_db_reach en cs s \<Longrightarrow> ShareCorpus (sqlite_corpus en) (local_files en) cs envs c c' s = (rn, s') \<Longrightarrow> corpus_db_reach en cs s'"
| sync: "corpus_db_reach en cs s \<Longrightarrow> SyncCorpus (sqlite_corpus en) cs c b s = (rf, s') \<Longrightarrow> corpus_db_reach en cs s'"
| store: "corpus_db_reach en cs s \<Longrightarrow> StoreFileContent (local_files en) cs ctx c h d s = (e, s') \<Longrightarrow> corpus_db_reach en cs s'"
| quarantine: "corpus_db_reach en cs s \<Longrightarrow> corpus_QuarantineFile (sqlite_corpus en) (local_files en) cs nows i reason details s = (e, s') \<Longrightarrow>
    corpus_db_reach en cs s'"
| restore: "corpus_db_reach en cs s \<Longrightarrow> RestoreQuarantinedFile (sqlite_corpus en) (local_files en) cs now i who notes s = (e, s') \<Longrightarrow> corpus_db_reach en cs s'"
| drop: "corpus_db_reach en cs s \<Longrightarrow> corpus_DeleteQuarantinedFile (sqlite_corpus en) (local_files en) cs now i who reason s = (e, s') \<Longrightarrow>
    corpus_db_reach en cs s'"
| metrics: "corpus_db_reach en cs s \<Longrightarrow> corpus_UpdateCorpusFileMetrics (sqlite_corpus en) (local_files en) cs now nows i update s = (e, s') \<Longrightarrow>
    corpus_db_reach en cs s'"

lemma corpus_db_reach_inv: "corpus_db_reach en cs s \<Longrightarrow> tables_inv (tables s)"
proof (induction rule: corpus_db_reach.induct)
  case (created s)
  then show ?case by (auto simp: tables_inv_def)
qed (erule ci.service_keeps, assumption)+

lemma find_unprefixed:
  assumes "tables_inv t" and "\<not> has_prefix i ''quarantine-''"
  shows "stored_record i t = None"
proof (cases "stored_record i t")
  case (Some q)
  then obtain qs where "ct_quarantined t = Some qs" "q \<in> set qs" "qf_ID q = i"
    by (auto simp: stored_record_def split: option.splits dest: find_row)
  with assms show ?thesis by (auto simp: tables_inv_def quarantine_id_def has_prefix_def)
qed

lemma lookup_unprefixed:
  assumes "tables_inv (tables s)" and "\<not> has_prefix i ''quarantine-''"
  shows "\<exists>e s'. qs_GetQuarantinedFile (sqlite_corpus en) i s = (Inl e, s') \<and> tables s' = tables s \<and> snd s' = snd s"
proof -
  obtain r s' where r: "qs_GetQuarantinedFile (sqlite_corpus en) i s = (r, s')" by (metis surj_pair)
  then have "tables s' = tables s" "snd s' = snd s" by (auto simp: on_db_eq dest: queries_keep)
  moreover have "\<exists>e. r = Inl e"
    using r find_unprefixed [OF assms] by (cases r) (auto simp: on_db_eq dest!: GetQuarantinedFile_sound)
  ultimately show ?thesis using r by auto
qed

section \<open>Properties\<close>



section \<open>Contents\<close>

text \<open>A name that is one element of a path.\<close>

definition plain_name :: "string \<Rightarrow> bool" where
  "plain_name s \<longleftrightarrow> s \<noteq> '''' \<and> s \<noteq> ''.'' \<and> CHR ''/'' \<notin> set s \<and> \<not> str_contains s ''..''"

lemma dots_across: "\<not> str_contains a ''..'' \<Longrightarrow> \<not> str_contains b ''..'' \<Longrightarrow> \<not> str_contains (a @ CHR ''/'' # b) ''..''"
proof (induction a)
  case (Cons x a)
  then show ?case by (cases a) (auto simp: has_prefix_def)
qed (simp add: has_prefix_def)

lemma dots_join: "\<forall>e \<in> set es. \<not> str_contains e ''..'' \<Longrightarrow> \<not> str_contains (join ''/'' es) ''..''"
  by (induction "''/''" es rule: join.induct) (use dots_across in auto)

lemma split_join: "es \<noteq> [] \<Longrightarrow> \<forall>e \<in> set es. CHR ''/'' \<notin> set e \<Longrightarrow> split_on (CHR ''/'') (join ''/'' es) = es"
  by (induction "''/''" es rule: join.induct) (simp_all add: split_on_none split_on_sep)

lemma plain_not_dots: "plain_name e \<Longrightarrow> e \<noteq> ''..''"
  by (auto simp: plain_name_def has_prefix_def)

lemma clean_plain: "\<forall>e \<in> set es. plain_name e \<Longrightarrow> clean_elems out es = rev out @ es"
  by (induction es arbitrary: out) (auto simp: plain_name_def has_prefix_def)

lemma checked_plain:
  assumes "es \<noteq> []" and "\<forall>e \<in> set es. plain_name e"
  shows "checked_path (join ''/'' es) = Inr (join ''/'' es)"
proof -
  have "split_on (CHR ''/'') (join ''/'' es) = es" using assms by (intro split_join) (auto simp: plain_name_def)
  then have c: "filepath_Clean (join ''/'' es) = join ''/'' es" using assms clean_plain [of es "[]"] by (simp add: filepath_Clean_def)
  have "\<not> str_contains (join ''/'' es) ''..''" using assms(2) by (intro dots_join) (auto simp: plain_name_def)
  moreover have "\<not> filepath_IsAbs (join ''/'' es)"
    using assms by (cases es; cases "tl es"; cases "hd es") (auto simp: filepath_IsAbs_def has_prefix_def plain_name_def)
  ultimately show ?thesis by (simp add: checked_path_def c)
qed

definition corpus_elems :: "string \<Rightarrow> string \<Rightarrow> string \<Rightarrow> string list" where
  "corpus_elems d c h = (if length h \<ge> 2 then [d, c, take 2 h, h] else [d, c, h])"

lemma corpus_paths:
  "getCorpusFilePath c h = join ''/'' (corpus_elems ''corpus'' c h)"
  "getQuarantineFilePath c h = join ''/'' (corpus_elems ''quarantine'' c h)"
  by (simp_all add: getCorpusFilePath_def getQuarantineFilePath_def corpus_elems_def)

lemma str_contains_take: "str_contains (take n s) p \<Longrightarrow> str_contains s p"
  by (metis append_Nil append_take_drop_id str_contains_mono)

lemma plain_elems:
  assumes "plain_name d" and "plain_name c" and "plain_name h"
  shows "\<forall>e \<in> set (corpus_elems d c h). plain_name e"
proof -
  have "plain_name (take 2 h)" if "length h \<ge> 2"
  proof -
    have "length (take 2 h) = 2" using that by simp
    then have "take 2 h \<noteq> ''''" "take 2 h \<noteq> ''.''" by (metis list.size(3) zero_neq_numeral, metis One_nat_def length_Cons list.size(3) numeral_eq_one_iff semiring_norm(85))
    then show ?thesis using assms(3) by (auto simp only: plain_name_def dest: in_set_takeD str_contains_take)
  qed
  with assms show ?thesis by (auto simp: corpus_elems_def)
qed

lemma corpus_elems_inj: "corpus_elems d c h = corpus_elems d' c' h' \<Longrightarrow> d = d' \<and> c = c' \<and> h = h'"
  by (auto simp: corpus_elems_def split: if_splits)

lemma plain_dirs: "plain_name ''corpus''" "plain_name ''quarantine''"
  by (simp_all add: plain_name_def has_prefix_def)

lemma corpus_path_ok:
  assumes "plain_name c" and "plain_name h"
  shows "checked_path (getCorpusFilePath c h) = Inr (getCorpusFilePath c h)"
    and "checked_path (getQuarantineFilePath c h) = Inr (getQuarantineFilePath c h)"
  unfolding corpus_paths by (rule checked_plain, simp add: corpus_elems_def, rule plain_elems [OF plain_dirs(1) assms])
    (rule checked_plain, simp add: corpus_elems_def, rule plain_elems [OF plain_dirs(2) assms])

lemma corpus_path_inj:
  assumes "plain_name c" "plain_name h" "plain_name c'" "plain_name h'" "plain_name d" "plain_name d'"
    and "join ''/'' (corpus_elems d c h) = join ''/'' (corpus_elems d' c' h')"
  shows "d = d' \<and> c = c' \<and> h = h'"
proof -
  have *: "split_on (CHR ''/'') (join ''/'' (corpus_elems d c h)) = corpus_elems d c h"
    if "plain_name d" "plain_name c" "plain_name h" for d c h
    by (rule split_join) (simp add: corpus_elems_def, use plain_elems [OF that] plain_name_def in blast)
  have "corpus_elems d c h = split_on (CHR ''/'') (join ''/'' (corpus_elems d c h))" by (rule * [OF assms(5,1,2), symmetric])
  also have "\<dots> = split_on (CHR ''/'') (join ''/'' (corpus_elems d' c' h'))" by (simp only: assms(7))
  also have "\<dots> = corpus_elems d' c' h'" by (rule * [OF assms(6,3,4)])
  finally have "corpus_elems d c h = corpus_elems d' c' h'" .
  then show ?thesis by (rule corpus_elems_inj)
qed

text \<open>No accepted path leaves the base directory.\<close>

lemma checked_path_below: "checked_path path = Inr p \<Longrightarrow> ''..'' \<notin> set (split_on (CHR ''/'') p)"
proof
  assume a: "checked_path path = Inr p" "''..'' \<in> set (split_on (CHR ''/'') p)"
  have "str_contains s e" if "e \<in> set (split_on d s)" for s e and d :: char using that
  proof (induction s arbitrary: e)
    case (Cons x s)
    show ?case
    proof (cases "e \<in> set (tl (split_on d (x # s)))")
      case True
      then have "e \<in> set (split_on d s)" by (cases "split_on d s") (auto split: if_splits)
      then show ?thesis using Cons.IH by simp
    next
      case False
      have "\<exists>r. u = hd (split_on d u) @ r" for u by (induction u) (auto split: list.splits)
      moreover have "e = hd (split_on d (x # s))" using Cons.prems False by (metis list.sel(1,3) set_ConsD list.exhaust list.set_cases)
      ultimately show ?thesis using str_contains_append [of "[]" e] by (metis append_Nil)
    qed
  qed simp
  from this [OF a(2)] a(1) show False by (auto simp: checked_path_def Let_def split: if_splits)
qed

text \<open>C27: contents are stored under their campaign and hash. If the operating system reports no error and
  campaign and hash are single path elements, a stored content is loaded again exactly if the hash is its
  digest (otherwise the mismatch is reported), and every other content is loaded as before.\<close>

theorem content_roundtrip:
  assumes "\<And>n. fl_err (en_fl en) n = None" and "cs_fileStorage cs" and "plain_name c" and "plain_name h" and "data \<noteq> []"
  shows "\<exists>s'. StoreFileContent (local_files en) cs None c h data s = (None, s') \<and> fst s' = fst s \<and>
     (\<forall>c' h'. plain_name c' \<longrightarrow> plain_name h' \<longrightarrow>
        fst (LoadCorpusFile sha256 (local_files en) cs None c' h' s') =
        (if c' = c \<and> h' = h
         then (if sha256 data = h then Inr data
               else Inl (PandaFuzzError ErrorTypeValidation ''load_corpus_file''
                  (ErrorString (''corpus file hash mismatch: expected '' @ h @ '', got '' @ sha256 data))))
         else fst (LoadCorpusFile sha256 (local_files en) cs None c' h' s)))"
proof -
  obtain w fs n where s: "s = (w, (fs, n))" by (cases s) auto
  let ?p = "getCorpusFilePath c h"
  let ?s = "(w, (fs(?p \<mapsto> data), Suc (Suc n)))"
  have ne: "c \<noteq> []" "h \<noteq> []" using assms(3,4) by (auto simp: plain_name_def)
  have "StoreFileContent (local_files en) cs None c h data s = (None, ?s)"
    using assms ne corpus_path_ok(1) [OF assms(3,4)] by (simp add: StoreFileContent_def local_files_def on_files_def local_SaveFile_def s)
  moreover have "fst (LoadCorpusFile sha256 (local_files en) cs None c' h' ?s) =
      (if c' = c \<and> h' = h
       then (if sha256 data = h then Inr data else Inl (PandaFuzzError ErrorTypeValidation ''load_corpus_file''
                  (ErrorString (''corpus file hash mismatch: expected '' @ h @ '', got '' @ sha256 data))))
       else fst (LoadCorpusFile sha256 (local_files en) cs None c' h' s))" if "plain_name c'" "plain_name h'" for c' h'
  proof -
    have ne': "c' \<noteq> []" "h' \<noteq> []" using that by (auto simp: plain_name_def)
    have "getCorpusFilePath c' h' = ?p \<longleftrightarrow> c' = c \<and> h' = h"
      using corpus_path_inj [OF that assms(3,4) plain_dirs(1) plain_dirs(1)] by (auto simp: corpus_paths)
    then show ?thesis using assms ne ne' corpus_path_ok(1) [OF that]
      by (auto simp: LoadCorpusFile_def local_files_def on_files_def local_ReadFile_def s split: option.splits)
  qed
  ultimately show ?thesis unfolding s by auto
qed

text \<open>The move of a file to the quarantine without faults, and with a failed directory: the content is gone.\<close>

lemma quarantine_move:
  assumes "plain_name (cf_CampaignID file)" and "plain_name (cf_Hash file)"
    and "fs (getCorpusFilePath (cf_CampaignID file) (cf_Hash file)) = Some d" and "fl_err (en_fl en) n = None"
  defines "p \<equiv> getCorpusFilePath (cf_CampaignID file) (cf_Hash file)" and "q \<equiv> getQuarantineFilePath (cf_CampaignID file) (cf_Hash file)"
  shows "(\<And>n. fl_err (en_fl en) n = None) \<Longrightarrow> fst (snd (move_to_quarantine (local_files en) file (w, (fs, n)))) = (fs(q \<mapsto> d))(p := None)"
    and "fl_err (en_fl en) (Suc n) = Some e \<Longrightarrow> fl_err (en_fl en) (Suc (Suc n)) = None \<Longrightarrow>
      fst (snd (move_to_quarantine (local_files en) file (w, (fs, n)))) = fs(p := None)"
proof -
  have pq: "p \<noteq> q" using corpus_path_inj [OF assms(1,2) assms(1,2) plain_dirs] by (auto simp: p_def q_def corpus_paths)
  note D = move_to_quarantine_def local_files_def on_files_def local_ReadFile_def local_SaveFile_def local_DeleteFile_def
    corpus_path_ok [OF assms(1,2), folded p_def q_def] p_def [symmetric] q_def [symmetric]
  have r: "fs p = Some d" using assms(3) by (simp add: p_def)
  show "(\<And>n. fl_err (en_fl en) n = None) \<Longrightarrow> fst (snd (move_to_quarantine (local_files en) file (w, (fs, n)))) = (fs(q \<mapsto> d))(p := None)"
    using pq r by (simp add: D)
  show "fl_err (en_fl en) (Suc n) = Some e \<Longrightarrow> fl_err (en_fl en) (Suc (Suc n)) = None \<Longrightarrow>
      fst (snd (move_to_quarantine (local_files en) file (w, (fs, n)))) = fs(p := None)"
    using pq r assms(4) by (simp add: D)
qed

text \<open>Without faults a stored file is put into quarantine, as long as it has no record.\<close>

lemma move_keeps_tables: "fst (move_to_quarantine (local_files en) file s) = fst s"
  by (cases s) (auto simp: move_to_quarantine_def local_files_def on_files_def Let_def split: prod.splits sum.splits)

lemma quarantine_succeeds:
  assumes "no_faults en" and "cs_quarantine cs = Some cq" and "ct_quarantined t = Some qs"
    and "find (\<lambda>f. cf_ID f = fileID) (ct_files t) = Some file" and "stored_record fileID t = None"
    and "quarantine_id fileID \<notin> qf_ID ` set qs"
  shows "\<exists>n' fs'. corpus_QuarantineFile (sqlite_corpus en) (local_files en) cs (now1, now2) fileID reason details ((t, n), fs) =
    (None, ((t\<lparr>ct_quarantined := Some (qs @ [new_record file reason details ''user'' now1])\<rparr>, n'), fs'))"
proof -
  have h: "en_drv en = healthy" "0 \<le> dbc_MaxRetries (en_cfg en)" using assms(1) by (auto simp: no_faults_def)
  have id: "cf_ID file = fileID" using find_row [OF assms(4)] by simp
  have get: "qs_GetCorpusFile (sqlite_corpus en) fileID ((t, n), fs) = (Inr file, ((t, Suc (Suc n)), fs))"
    using h assms(4) by (simp add: on_db_def sqlite_GetCorpusFile_def get_row_healthy [where v = "file"])
  obtain r w where r: "sqlite_GetQuarantinedFile healthy (en_cfg en) fileID (t, Suc (Suc n)) = (r, w)" by (metis surj_pair)
  have w1: "fst w = t" using queries_keep(1) [OF r] by simp
  have w2: "\<exists>e. r = Inl e"
  proof (cases r)
    case (Inr x)
    then show ?thesis using GetQuarantinedFile_sound [of healthy "en_cfg en" fileID "(t, Suc (Suc n))" x w] r assms(5) by simp
  qed simp
  let ?q = "new_record file reason details ''user'' now1"
  let ?t = "t\<lparr>ct_quarantined := Some (qs @ [?q])\<rparr>"
  have "qf_ID ?q \<notin> qf_ID ` set qs" using assms(6) id by (simp add: new_record_def quarantine_id_def)
  then have add: "qs_AddQuarantinedFile (sqlite_corpus en) ?q (w, fs) = (None, ((?t, Suc (Suc (snd w))), fs))"
    using h assms(3) w1 retry_exec_healthy [of "en_cfg en" _ t 1 ?t "snd w"]
    by (cases w) (simp add: on_db_def sqlite_AddQuarantinedFile_def)
  let ?s = "if cq_fileStorage cq then move_to_quarantine (local_files en) file ((?t, Suc (Suc (snd w))), fs) else ((?t, Suc (Suc (snd w))), fs)"
  have "fst ?s = (?t, Suc (Suc (snd w)))" by (simp add: move_keeps_tables)
  moreover obtain e s4 where u: "qs_UpdateCorpusFile (sqlite_corpus en) fileID [(''quarantined'', ABool True), (''quarantined_at'', AInt now2)] ?s = (e, s4)"
    by (metis surj_pair)
  ultimately have "tables s4 = ?t" by (auto simp: on_db_eq dest!: updates_keep)
  moreover have "corpus_QuarantineFile (sqlite_corpus en) (local_files en) cs (now1, now2) fileID reason details ((t, n), fs) = (None, s4)"
    using get w2 r h add u assms(2) id
    by (auto simp: corpus_QuarantineFile_def QuarantineFile_def on_db_def Let_def simp del: sqlite_corpus_simps(2,4,5) split: prod.splits)
  ultimately show ?thesis by (cases s4; cases "fst s4") auto
qed

section \<open>A small run\<close>

definition quiet_corpus :: CorpusEnv where
  "quiet_corpus = \<lparr>en_drv = healthy, en_cfg = sample_cfg, en_SET = (\<lambda>_ f. f), en_SETQ = (\<lambda>_ q. q), en_scan = Inr, en_clk = (\<lambda>_. 0),
     en_fl = \<lparr>fl_err = (\<lambda>_. None), fl_torn = (\<lambda>_. None)\<rparr>\<rparr>"

definition sample_service :: corpusService where
  "sample_service = NewCorpusService itoa True"

definition sample_file :: CorpusFile where
  "sample_file = \<lparr>cf_ID = ''corpus-1'', cf_CampaignID = ''c'', cf_JobID = ''j'', cf_BotID = ''b'', cf_Filename = ''f'', cf_Hash = ''ab'',
     cf_Size = 1, cf_Coverage = 1, cf_NewCoverage = 1, cf_ParentHash = '''', cf_Generation = 0, cf_CreatedAt = 0, cf_SyncedAt = None, cf_IsSeed = False\<rparr>"

definition stored_sample :: corpus_state where
  "stored_sample = ((\<lparr>ct_files = [sample_file], ct_quarantined = Some [], ct_metrics = Some [], ct_evolution = [], ct_campaigns = Map.empty\<rparr>, 0),
     (Map.empty, 0))"



theorem content_roundtrip_witness:
  "\<exists>s'. StoreFileContent (local_files quiet_corpus) sample_service None ''c'' ''ab'' [1] stored_sample = (None, s') \<and>
     fst (LoadCorpusFile (\<lambda>_. ''ab'') (local_files quiet_corpus) sample_service None ''c'' ''ab'' s') = Inr [1]"
proof -
  have p: "plain_name ''c''" "plain_name ''ab''" by (simp_all add: plain_name_def has_prefix_def)
  have f: "fl_err (en_fl quiet_corpus) n = None" "cs_fileStorage sample_service" for n
    by (simp_all add: quiet_corpus_def sample_service_def NewCorpusService_def)
  obtain s' where "StoreFileContent (local_files quiet_corpus) sample_service None ''c'' ''ab'' [1] stored_sample = (None, s')"
    "fst (LoadCorpusFile (\<lambda>_. ''ab'') (local_files quiet_corpus) sample_service None ''c'' ''ab'' s') = Inr [1]"
    using content_roundtrip [OF f p, of "[1]" stored_sample "\<lambda>_. ''ab''"] p by fastforce
  then show ?thesis by blast
qed

end
