(* ===== verification/Campaign_State.thy ===== *)
theory Campaign_State
  imports Campaign_Service Corpus_Sqlite Crash_Dedup "HOL-Library.AList"
begin

text \<open>
  The campaign state manager of the master (\<open>pkg/master/campaign_state.go\<close>): the campaigns it tracks, their metrics,
  the test for completion and the automatic restart, on the storage of \<open>Campaign_Service\<close>, and the crash groups
  and the evolution of the corpus as the deduplication and corpus services return them.

  \<^item> The manager is a record with the tracked campaigns by ID. \<open>cw_sent\<close> are the broadcasts to the WebSocket hub,
    \<open>cw_restarts\<close> the goroutines that \<open>checkAutoRestart\<close> has started and that have not run yet.
  \<^item> \<open>clk\<close> are the readings of the clock of one call; the order of \<open>range\<close> over the map is that of the list.
  \<^item> The ticker loop calls \<open>updateAllCampaigns\<close>. Locks and log lines are left out.
\<close>

section \<open>Data\<close>

record CampaignMetrics =
  cm_TotalJobs :: int
  cm_ActiveJobs :: int
  cm_CompletedJobs :: int
  cm_FailedJobs :: int
  cm_TotalCrashes :: int
  cm_UniqueCrashes :: int
  cm_CorpusSize :: int
  cm_TotalCoverage :: int
  cm_ExecPerSecond :: f64
  cm_LastCrashTime :: "time option"
  cm_LastUpdateTime :: time

record CampaignState =
  cs_Campaign :: CommonCampaign
  cs_ActiveJobs :: "(string \<times> MasterJob) list"
  cs_CompletedJobs :: "(string \<times> MasterJob) list"
  cs_LastUpdate :: time
  cs_Metrics :: CampaignMetrics

datatype campaign_message = MetricsUpdate string CampaignMetrics | CampaignDone string string CampaignMetrics

record 'd cworld =
  cw_db :: 'd
  cw_campaigns :: "(string \<times> CampaignState) list"
  cw_sent :: "campaign_message list"
  cw_restarts :: "string list"

text \<open>The services the manager calls: the storage, \<open>GetCrashGroups\<close> and \<open>GetEvolution\<close>.\<close>

record 'd CampaignDeps =
  cd_storage :: "'d CampaignStorage"
  cd_GetCrashGroups :: "string \<Rightarrow> 'd \<Rightarrow> CrashGroup list result \<times> 'd"
  cd_GetEvolution :: "string \<Rightarrow> 'd \<Rightarrow> CorpusEvolution list result \<times> 'd"

definition zeroMetrics :: "time \<Rightarrow> CampaignMetrics" where
  "zeroMetrics now = \<lparr>cm_TotalJobs = 0, cm_ActiveJobs = 0, cm_CompletedJobs = 0, cm_FailedJobs = 0, cm_TotalCrashes = 0, cm_UniqueCrashes = 0,
     cm_CorpusSize = 0, cm_TotalCoverage = 0, cm_ExecPerSecond = Fin 0, cm_LastCrashTime = None, cm_LastUpdateTime = now\<rparr>"

definition new_campaign_state :: "(nat \<Rightarrow> time) \<Rightarrow> CommonCampaign \<Rightarrow> CampaignState" where
  "new_campaign_state clk campaign =
     \<lparr>cs_Campaign = campaign, cs_ActiveJobs = [], cs_CompletedJobs = [], cs_LastUpdate = clk 0, cs_Metrics = zeroMetrics (clk 1)\<rparr>"

section \<open>Loading\<close>

text \<open>The jobs of a campaign by status, as \<open>loadCampaigns\<close> sorts them; later jobs of the same ID win.\<close>

definition by_status :: "(MasterJobStatus \<Rightarrow> bool) \<Rightarrow> MasterJob list \<Rightarrow> (string \<times> MasterJob) list" where
  "by_status p jobs = fold (\<lambda>j m. AList.update (mj_ID j) j m) (filter (\<lambda>j. p (mj_Status j)) jobs) []"

fun load_loop :: "'d CampaignDeps \<Rightarrow> (nat \<Rightarrow> time) \<Rightarrow> CommonCampaign list \<Rightarrow> 'd cworld \<Rightarrow> 'd cworld" where
  "load_loop D clk [] w = w"
| "load_loop D clk (campaign # campaigns) w =
     (if cc_Status campaign \<noteq> CampaignStatusRunning \<and> cc_Status campaign \<noteq> CampaignStatusPending then load_loop D clk campaigns w
      else case cst_GetCampaignJobs (cd_storage D) (cc_ID campaign) (cw_db w) of
             (Inl _, d1) \<Rightarrow> load_loop D clk campaigns (w\<lparr>cw_db := d1\<rparr>)
           | (Inr jobs, d1) \<Rightarrow>
               (let state = (new_campaign_state clk campaign)
                      \<lparr>cs_ActiveJobs := by_status (\<lambda>s. s = JobRunning \<or> s = JobAssigned) jobs,
                       cs_CompletedJobs := by_status (\<lambda>s. s = JobCompleted \<or> s = JobFailed) jobs\<rparr>
                in load_loop D clk campaigns (w\<lparr>cw_db := d1, cw_campaigns := AList.update (cc_ID campaign) state (cw_campaigns w)\<rparr>)))"

definition loadCampaigns :: "'d CampaignDeps \<Rightarrow> (nat \<Rightarrow> time) \<Rightarrow> 'd cworld \<Rightarrow> error option \<times> 'd cworld" where
  "loadCampaigns D clk w =
     (case cst_ListCampaigns (cd_storage D) 1000 0 '''' (cw_db w) of
        (Inl e, d1) \<Rightarrow> (Some e, w\<lparr>cw_db := d1\<rparr>)
      | (Inr campaigns, d1) \<Rightarrow> (None, load_loop D clk campaigns (w\<lparr>cw_db := d1\<rparr>)))"

definition csm_Start :: "'d CampaignDeps \<Rightarrow> (nat \<Rightarrow> time) \<Rightarrow> 'd cworld \<Rightarrow> error option \<times> 'd cworld" where
  "csm_Start D clk w =
     (case loadCampaigns D clk w of
        (Some e, w1) \<Rightarrow> (Some (WrapError ''failed to load campaigns: '' e), w1)
      | (None, w1) \<Rightarrow> (None, w1))"

section \<open>Metrics\<close>

definition count_status :: "(MasterJobStatus \<Rightarrow> bool) \<Rightarrow> MasterJob list \<Rightarrow> int" where
  "count_status p jobs = int (length (filter (\<lambda>j. p (mj_Status j)) jobs))"

definition last_crash :: "CrashGroup list \<Rightarrow> time option" where
  "last_crash groups =
     foldl (\<lambda>l g. case l of None \<Rightarrow> Some (cg_LastSeen g) | Some t \<Rightarrow> if time_After (cg_LastSeen g) t then Some (cg_LastSeen g) else l) None groups"

definition compute_metrics :: "time \<Rightarrow> MasterJob list \<Rightarrow> CrashGroup list result \<Rightarrow> CorpusEvolution list result \<Rightarrow> CampaignMetrics" where
  "compute_metrics now jobs groups evolution =
     (let active = count_status (\<lambda>s. s = JobRunning \<or> s = JobAssigned) jobs
      in \<lparr>cm_TotalJobs = int (length jobs), cm_ActiveJobs = active,
          cm_CompletedJobs = count_status (\<lambda>s. s = JobCompleted) jobs, cm_FailedJobs = count_status (\<lambda>s. s = JobFailed \<or> s = JobTimedOut) jobs,
          cm_TotalCrashes = (case groups of Inr gs \<Rightarrow> sum64 (map cg_Count gs) | Inl _ \<Rightarrow> 0),
          cm_UniqueCrashes = (case groups of Inr gs \<Rightarrow> int (length gs) | Inl _ \<Rightarrow> 0),
          cm_CorpusSize = (case evolution of Inr es \<Rightarrow> if es \<noteq> [] then ce_TotalSize (last es) else 0 | Inl _ \<Rightarrow> 0),
          cm_TotalCoverage = (case evolution of Inr es \<Rightarrow> if es \<noteq> [] then ce_TotalCoverage (last es) else 0 | Inl _ \<Rightarrow> 0),
          cm_ExecPerSecond = fmul (f_of_int active) (f_of_int 1000),
          cm_LastCrashTime = (case groups of Inr gs \<Rightarrow> last_crash gs | Inl _ \<Rightarrow> None), cm_LastUpdateTime = now\<rparr>)"

definition updateMetrics :: "'d CampaignDeps \<Rightarrow> (nat \<Rightarrow> time) \<Rightarrow> string \<Rightarrow> 'd cworld \<Rightarrow> error option \<times> 'd cworld" where
  "updateMetrics D clk campaignID w =
     (case map_of (cw_campaigns w) campaignID of
        None \<Rightarrow> (Some (ErrorString ''campaign state not found''), w)
      | Some state \<Rightarrow>
          (case cst_GetCampaignJobs (cd_storage D) campaignID (cw_db w) of
             (Inl e, d1) \<Rightarrow> (Some e, w\<lparr>cw_db := d1\<rparr>)
           | (Inr jobs, d1) \<Rightarrow>
               (let (groups, d2) = cd_GetCrashGroups D campaignID d1;
                    (evolution, d3) = cd_GetEvolution D campaignID d2;
                    metrics = compute_metrics (clk 0) jobs groups evolution;
                    state' = state\<lparr>cs_ActiveJobs := by_status (\<lambda>s. s = JobRunning \<or> s = JobAssigned) jobs,
                      cs_CompletedJobs := by_status (\<lambda>s. s = JobCompleted \<or> s = JobFailed \<or> s = JobTimedOut) jobs,
                      cs_Metrics := metrics, cs_LastUpdate := clk 1\<rparr>
                in (None, w\<lparr>cw_db := d3, cw_campaigns := AList.update campaignID state' (cw_campaigns w),
                      cw_sent := cw_sent w @ [MetricsUpdate campaignID metrics]\<rparr>))))"

section \<open>Completion and restart\<close>

definition checkCampaignCompletion :: "'d CampaignDeps \<Rightarrow> time \<Rightarrow> string \<Rightarrow> 'd cworld \<Rightarrow> error option \<times> 'd cworld" where
  "checkCampaignCompletion D now campaignID w =
     (case map_of (cw_campaigns w) campaignID of
        None \<Rightarrow> (Some (ErrorString ''campaign state not found''), w)
      | Some state \<Rightarrow>
          if cc_Status (cs_Campaign state) \<noteq> CampaignStatusRunning then (None, w)
          else if cs_ActiveJobs state = [] \<and> cm_TotalJobs (cs_Metrics state) > 0
          then let newStatus = (if cm_FailedJobs (cs_Metrics state) > cm_CompletedJobs (cs_Metrics state) then CampaignStatusFailed else CampaignStatusCompleted)
               in case cst_UpdateCampaign (cd_storage D) campaignID [(''status'', CStr newStatus), (''completed_at'', CTime now)] (cw_db w) of
                    (Some e, d1) \<Rightarrow> (Some e, w\<lparr>cw_db := d1\<rparr>)
                  | (None, d1) \<Rightarrow> (None, w\<lparr>cw_db := d1, cw_sent := cw_sent w @ [CampaignDone campaignID newStatus (cs_Metrics state)]\<rparr>)
          else (None, w))"

definition checkAutoRestart :: "time \<Rightarrow> string \<Rightarrow> 'd cworld \<Rightarrow> 'd cworld" where
  "checkAutoRestart now campaignID w =
     (case map_of (cw_campaigns w) campaignID of
        None \<Rightarrow> w
      | Some state \<Rightarrow>
          (let campaign = cs_Campaign state
           in if \<not> cc_AutoRestart campaign \<or> cc_Status campaign \<noteq> CampaignStatusCompleted then w
              else if (case cc_CompletedAt campaign of Some t \<Rightarrow> time_Sub now t < 30 * Second | None \<Rightarrow> False) then w
              else w\<lparr>cw_restarts := cw_restarts w @ [campaignID]\<rparr>))"

definition updateCampaignState :: "'d CampaignDeps \<Rightarrow> (nat \<Rightarrow> time) \<Rightarrow> string \<Rightarrow> 'd cworld \<Rightarrow> error option \<times> 'd cworld" where
  "updateCampaignState D clk campaignID w =
     (case map_of (cw_campaigns w) campaignID of
        None \<Rightarrow> (Some (ErrorString (''campaign state not found: '' @ campaignID)), w)
      | Some state \<Rightarrow>
          (case cst_GetCampaign (cd_storage D) campaignID (cw_db w) of
             (Inl e, d1) \<Rightarrow> (Some e, w\<lparr>cw_db := d1\<rparr>)
           | (Inr campaign, d1) \<Rightarrow>
               (let w1 = w\<lparr>cw_db := d1, cw_campaigns := AList.update campaignID (state\<lparr>cs_Campaign := campaign\<rparr>) (cw_campaigns w)\<rparr>;
                    w2 = snd (updateMetrics D clk campaignID w1);
                    w3 = snd (checkCampaignCompletion D (clk 2) campaignID w2)
                in (None, if cc_AutoRestart campaign \<and> cc_Status campaign = CampaignStatusCompleted then checkAutoRestart (clk 3) campaignID w3 else w3))))"

text \<open>The goroutine that \<open>checkAutoRestart\<close> starts.\<close>

definition run_restart :: "'d CampaignDeps \<Rightarrow> (nat \<Rightarrow> time) \<Rightarrow> string \<Rightarrow> 'd cworld \<Rightarrow> 'd cworld" where
  "run_restart D clk campaignID w =
     (case cst_UpdateCampaign (cd_storage D) campaignID [(''status'', CStr CampaignStatusRunning), (''completed_at'', CNil)] (cw_db w) of
        (Some _, d1) \<Rightarrow> w\<lparr>cw_db := d1\<rparr>
      | (None, d1) \<Rightarrow> snd (updateCampaignState D clk campaignID (w\<lparr>cw_db := d1\<rparr>)))"

fun update_each :: "'d CampaignDeps \<Rightarrow> (nat \<Rightarrow> time) \<Rightarrow> string list \<Rightarrow> 'd cworld \<Rightarrow> 'd cworld" where
  "update_each D clk [] w = w"
| "update_each D clk (i # is) w = update_each D clk is (snd (updateCampaignState D clk i w))"

definition updateAllCampaigns :: "'d CampaignDeps \<Rightarrow> (nat \<Rightarrow> time) \<Rightarrow> 'd cworld \<Rightarrow> 'd cworld" where
  "updateAllCampaigns D clk w = update_each D clk (map fst (cw_campaigns w)) w"

definition handleJobCompletion :: "'d CampaignDeps \<Rightarrow> (nat \<Rightarrow> time) \<Rightarrow> string \<Rightarrow> 'd cworld \<Rightarrow> 'd cworld" where
  "handleJobCompletion D clk jobID w =
     (case find (\<lambda>(i, state). jobID \<in> fst ` set (cs_ActiveJobs state) \<and> i \<noteq> '''') (cw_campaigns w) of
        None \<Rightarrow> w
      | Some (campaignID, _) \<Rightarrow> snd (updateCampaignState D clk campaignID w))"

section \<open>Tracking\<close>

definition GetCampaignState :: "string \<Rightarrow> 'd cworld \<Rightarrow> CampaignState result" where
  "GetCampaignState campaignID w =
     (case map_of (cw_campaigns w) campaignID of
        None \<Rightarrow> Inl (ErrorString (''campaign state not found: '' @ campaignID))
      | Some state \<Rightarrow> Inr state)"

definition AddCampaign :: "(nat \<Rightarrow> time) \<Rightarrow> CommonCampaign \<Rightarrow> 'd cworld \<Rightarrow> 'd cworld" where
  "AddCampaign clk campaign w = w\<lparr>cw_campaigns := AList.update (cc_ID campaign) (new_campaign_state clk campaign) (cw_campaigns w)\<rparr>"

definition RemoveCampaign :: "string \<Rightarrow> 'd cworld \<Rightarrow> 'd cworld" where
  "RemoveCampaign campaignID w = w\<lparr>cw_campaigns := AList.delete campaignID (cw_campaigns w)\<rparr>"

definition GetActiveCampaigns :: "'d cworld \<Rightarrow> CampaignState list" where
  "GetActiveCampaigns w = filter (\<lambda>state. cc_Status (cs_Campaign state) = CampaignStatusRunning) (map snd (cw_campaigns w))"

text \<open>Campaigns, running campaigns, jobs, crashes and coverage.\<close>

definition csm_GetMetrics :: "'d cworld \<Rightarrow> int \<times> int \<times> int \<times> int \<times> int" where
  "csm_GetMetrics w =
     (let ms = map (cs_Metrics \<circ> snd) (cw_campaigns w)
      in (int (length (cw_campaigns w)), int (length (GetActiveCampaigns w)), sum64 (map cm_TotalJobs ms), sum64 (map cm_TotalCrashes ms),
          sum64 (map cm_TotalCoverage ms)))"

section \<open>The manager on SQLite\<close>

definition on_snd :: "('x \<Rightarrow> 'r \<times> 'x) \<Rightarrow> 'a \<times> 'x \<Rightarrow> 'r \<times> ('a \<times> 'x)" where
  "on_snd f = (\<lambda>(a, x). let (r, x') = f x in (r, (a, x')))"

text \<open>The two services work on the rest of the world.\<close>

definition sqlite_deps ::
    "Driver \<Rightarrow> DatabaseConfig \<Rightarrow> time \<Rightarrow> (string \<Rightarrow> 'x \<Rightarrow> CrashGroup list result \<times> 'x) \<Rightarrow> (string \<Rightarrow> 'x \<Rightarrow> CorpusEvolution list result \<times> 'x) \<Rightarrow>
     (CampaignTables sqlw \<times> 'x) CampaignDeps" where
  "sqlite_deps drv cfg now G E =
     \<lparr>cd_storage = sqlite_campaigns drv cfg now, cd_GetCrashGroups = (\<lambda>i. on_snd (G i)), cd_GetEvolution = (\<lambda>i. on_snd (E i))\<rparr>"

section \<open>The verdict\<close>

text \<open>The status the manager gives a running campaign with the given jobs, if any.\<close>

definition is_active :: "MasterJob \<Rightarrow> bool" where
  "is_active job \<longleftrightarrow> mj_Status job = JobRunning \<or> mj_Status job = JobAssigned"

definition verdict :: "MasterJob list \<Rightarrow> string option" where
  "verdict jobs =
     (if jobs \<noteq> [] \<and> \<not> list_ex is_active jobs
      then Some (if length (filter has_failed jobs) > length (filter (\<lambda>j. mj_Status j = JobCompleted) jobs) then CampaignStatusFailed
                 else CampaignStatusCompleted)
      else None)"

lemma by_status_Nil: "by_status p jobs = [] \<longleftrightarrow> (\<forall>j \<in> set jobs. \<not> p (mj_Status j))"
proof -
  have ne: "fold (\<lambda>j m. AList.update (mj_ID j) j m) js m \<noteq> []" if "m \<noteq> []" for js and m :: "(string \<times> MasterJob) list" using that
  proof (induction js arbitrary: m)
    case (Cons j js)
    have "AList.update (mj_ID j) j m \<noteq> []" by (cases m) auto
    then show ?case using Cons.IH by simp
  qed simp
  have "fold (\<lambda>j m. AList.update (mj_ID j) j m) js [] = [] \<longleftrightarrow> js = []" for js :: "MasterJob list"
    using ne [of "[(mj_ID (hd js), hd js)]" "tl js"] by (cases js) auto
  then show ?thesis by (simp add: by_status_def filter_empty_conv)
qed

lemma length_filter_sort: "length (filter p (sort_key k xs)) = length (filter p xs)"
  by (metis filter_sort length_sort)

lemma verdict_sort: "verdict (sort_key k jobs) = verdict jobs"
  by (auto simp: verdict_def length_filter_sort list_ex_iff)
    (metis length_0_conv length_sort)+

section \<open>One update\<close>

lemma updateMetrics_healthy:
  fixes w :: "(CampaignTables sqlw \<times> 'x) cworld"
  assumes "0 \<le> dbc_MaxRetries cfg" and "map_of (cw_campaigns w) i = Some st" and "cw_db w = ((t, n), x)"
  shows "\<exists>w' st'. updateMetrics (sqlite_deps healthy cfg now G E) clk i w = (None, w') \<and> fst (cw_db w') = (t, Suc (Suc n)) \<and>
    map_of (cw_campaigns w') i = Some st' \<and> cs_Campaign st' = cs_Campaign st \<and> cw_restarts w' = cw_restarts w \<and>
    (cs_ActiveJobs st' = [] \<longleftrightarrow> \<not> list_ex is_active (jobs_of i t)) \<and> cm_TotalJobs (cs_Metrics st') = int (length (jobs_of i t)) \<and>
    cm_FailedJobs (cs_Metrics st') = int (length (filter has_failed (jobs_of i t))) \<and>
    cm_CompletedJobs (cs_Metrics st') = int (length (filter (\<lambda>j. mj_Status j = JobCompleted) (jobs_of i t)))"
proof -
  let ?jobs = "sort_key (\<lambda>j. - mj_CreatedAt j) (jobs_of i t)"
  obtain gs x1 where g: "G i x = (gs, x1)" by (metis surj_pair)
  obtain es x2 where e: "E i x1 = (es, x2)" by (metis surj_pair)
  have u: "updateMetrics (sqlite_deps healthy cfg now G E) clk i w =
    (None, w\<lparr>cw_db := ((t, Suc (Suc n)), x2), cw_campaigns := AList.update i
       (st\<lparr>cs_ActiveJobs := by_status (\<lambda>s. s = JobRunning \<or> s = JobAssigned) ?jobs,
           cs_CompletedJobs := by_status (\<lambda>s. s = JobCompleted \<or> s = JobFailed \<or> s = JobTimedOut) ?jobs,
           cs_Metrics := compute_metrics (clk 0) ?jobs gs es, cs_LastUpdate := clk 1\<rparr>) (cw_campaigns w),
       cw_sent := cw_sent w @ [MetricsUpdate i (compute_metrics (clk 0) ?jobs gs es)]\<rparr>)"
    using assms g e by (simp add: updateMetrics_def sqlite_deps_def campaign_healthy on_snd_def Let_def)
  have f: "has_failed = (\<lambda>j. mj_Status j = JobFailed \<or> mj_Status j = JobTimedOut)" by (rule ext) (simp add: has_failed_def)
  show ?thesis unfolding u
    by (auto simp: by_status_Nil compute_metrics_def Let_def count_status_def length_filter_sort f is_active_def list_ex_iff update_conv')
qed

lemma completion_healthy:
  fixes w :: "(CampaignTables sqlw \<times> 'x) cworld"
  assumes "0 \<le> dbc_MaxRetries cfg" and "map_of (cw_campaigns w) i = Some st" and "cw_db w = ((t, n), x)"
    and "campaign_row i t = Some c" and "cs_Campaign st = c"
    and "cs_ActiveJobs st = [] \<longleftrightarrow> \<not> list_ex is_active jobs" and "cm_TotalJobs (cs_Metrics st) = int (length jobs)"
    and "cm_FailedJobs (cs_Metrics st) = int (length (filter has_failed jobs))"
    and "cm_CompletedJobs (cs_Metrics st) = int (length (filter (\<lambda>j. mj_Status j = JobCompleted) jobs))"
  shows "\<exists>w'. checkCampaignCompletion (sqlite_deps healthy cfg now G E) ts i w = (None, w') \<and> cw_campaigns w' = cw_campaigns w \<and>
    cw_restarts w' = cw_restarts w \<and>
    campaign_tables (cw_db w') = (case verdict jobs of
        Some s \<Rightarrow> if cc_Status c = CampaignStatusRunning
                  then set_row i (\<lambda>c. c\<lparr>cc_UpdatedAt := now, cc_Status := s, cc_CompletedAt := None\<rparr>) t else t
      | None \<Rightarrow> t)"
  using assms by (auto simp: checkCampaignCompletion_def sqlite_deps_def campaign_healthy verdict_def Let_def set_campaign_status)

lemma updateCampaignState_healthy:
  fixes w :: "(CampaignTables sqlw \<times> 'x) cworld"
  assumes "0 \<le> dbc_MaxRetries cfg" and "map_of (cw_campaigns w) i = Some st" and "campaign_row i (campaign_tables (cw_db w)) = Some c"
  defines "t \<equiv> campaign_tables (cw_db w)"
  shows "\<exists>w' st'. updateCampaignState (sqlite_deps healthy cfg now G E) clk i w = (None, w') \<and> map_of (cw_campaigns w') i = Some st' \<and>
    campaign_tables (cw_db w') = (case verdict (jobs_of i t) of
        Some s \<Rightarrow> if cc_Status c = CampaignStatusRunning
                  then set_row i (\<lambda>c. c\<lparr>cc_UpdatedAt := now, cc_Status := s, cc_CompletedAt := None\<rparr>) t else t
      | None \<Rightarrow> t) \<and>
    cw_restarts w' = cw_restarts w @ (if cc_AutoRestart c \<and> cc_Status c = CampaignStatusCompleted \<and>
       (case cc_CompletedAt c of Some u \<Rightarrow> time_Sub (clk 3) u \<ge> 30 * Second | None \<Rightarrow> True) then [i] else [])"
proof -
  let ?D = "sqlite_deps healthy cfg now G E"
  obtain n x where d: "cw_db w = ((t, n), x)" unfolding t_def by (metis surjective_pairing)
  let ?w1 = "w\<lparr>cw_db := ((t, Suc (Suc n)), x), cw_campaigns := AList.update i (st\<lparr>cs_Campaign := c\<rparr>) (cw_campaigns w)\<rparr>"
  have r: "campaign_row i t = Some c" using assms(3) by (simp add: t_def)
  have m1: "map_of (cw_campaigns ?w1) i = Some (st\<lparr>cs_Campaign := c\<rparr>)" by (simp add: update_conv')
  obtain w2 st2 where w2: "updateMetrics ?D clk i ?w1 = (None, w2)" "fst (cw_db w2) = (t, Suc (Suc (Suc (Suc n))))"
      "map_of (cw_campaigns w2) i = Some st2" "cs_Campaign st2 = c" "cw_restarts w2 = cw_restarts w"
      "cs_ActiveJobs st2 = [] \<longleftrightarrow> \<not> list_ex is_active (jobs_of i t)" "cm_TotalJobs (cs_Metrics st2) = int (length (jobs_of i t))"
      "cm_FailedJobs (cs_Metrics st2) = int (length (filter has_failed (jobs_of i t)))"
      "cm_CompletedJobs (cs_Metrics st2) = int (length (filter (\<lambda>j. mj_Status j = JobCompleted) (jobs_of i t)))"
    using updateMetrics_healthy [OF assms(1) m1, of t "Suc (Suc n)" x now G E clk] by auto
  obtain x2 where d2: "cw_db w2 = ((t, Suc (Suc (Suc (Suc n)))), x2)" using w2(2) by (cases "cw_db w2") auto
  obtain w3 where w3: "checkCampaignCompletion ?D (clk 2) i w2 = (None, w3)" "cw_campaigns w3 = cw_campaigns w2" "cw_restarts w3 = cw_restarts w2"
      "campaign_tables (cw_db w3) = (case verdict (jobs_of i t) of
        Some s \<Rightarrow> if cc_Status c = CampaignStatusRunning
                  then set_row i (\<lambda>c. c\<lparr>cc_UpdatedAt := now, cc_Status := s, cc_CompletedAt := None\<rparr>) t else t
      | None \<Rightarrow> t)"
    using completion_healthy [OF assms(1) w2(3) d2 r w2(4,6,7,8,9), of now G E "clk 2"] by blast
  have u: "updateCampaignState ?D clk i w = (None, if cc_AutoRestart c \<and> cc_Status c = CampaignStatusCompleted then checkAutoRestart (clk 3) i w3 else w3)"
    using assms(1,2) d r w2(1) w3(1) by (simp add: updateCampaignState_def sqlite_deps_def campaign_healthy Let_def)
  show ?thesis unfolding u using w2(3,4,5) w3 by (auto simp: checkAutoRestart_def Let_def split: option.splits)
qed

section \<open>Properties\<close>

text \<open>C30: the manager and the service finish a running campaign by different rules (SQLite, no faults). The manager
  looks at running and assigned jobs only: a campaign whose jobs are all still pending is finished at the next
  update; it counts as failed only if more jobs failed than completed, and its completion time is lost, since the
  storage wants a pointer and gets a value. The service waits for pending jobs, finishes also a campaign without
  jobs, lets one failed job fail the campaign, and stores the time.\<close>

theorem completion_rules:
  fixes w :: "(CampaignTables sqlw \<times> 'x) cworld"
  assumes "0 \<le> dbc_MaxRetries cfg" and "map_of (cw_campaigns w) i = Some st"
    and "campaign_row i (campaign_tables (cw_db w)) = Some c" and "cc_Status c = CampaignStatusRunning"
  defines "jobs \<equiv> jobs_of i (campaign_tables (cw_db w))"
  shows "campaign_row i (campaign_tables (cw_db (snd (updateCampaignState (sqlite_deps healthy cfg now G E) clk i w)))) =
      Some (if jobs \<noteq> [] \<and> (\<forall>j \<in> set jobs. mj_Status j \<noteq> JobRunning \<and> mj_Status j \<noteq> JobAssigned)
            then c\<lparr>cc_UpdatedAt := now, cc_CompletedAt := None,
                   cc_Status := (if length (filter has_failed jobs) > length (filter (\<lambda>j. mj_Status j = JobCompleted) jobs)
                     then CampaignStatusFailed else CampaignStatusCompleted)\<rparr>
            else c) \<and>
    campaign_row i (campaign_tables (snd (service_checkCampaignCompletion (sqlite_campaigns healthy cfg now) ts i (cw_db w)))) =
      Some (if \<forall>j \<in> set jobs. mj_Status j \<noteq> JobPending \<and> mj_Status j \<noteq> JobRunning \<and> mj_Status j \<noteq> JobAssigned
            then c\<lparr>cc_UpdatedAt := now, cc_CompletedAt := Some ts,
                   cc_Status := (if \<exists>j \<in> set jobs. has_failed j then CampaignStatusFailed else CampaignStatusCompleted)\<rparr>
            else c)"
proof
  obtain t n x where d: "cw_db w = ((t, n), x)" by (metis surjective_pairing)
  have r: "campaign_row i t = Some c" using assms(3) by (simp add: d)
  have j: "jobs = jobs_of i t" by (simp add: jobs_def d)
  show "campaign_row i (campaign_tables (cw_db (snd (updateCampaignState (sqlite_deps healthy cfg now G E) clk i w)))) =
      Some (if jobs \<noteq> [] \<and> (\<forall>j \<in> set jobs. mj_Status j \<noteq> JobRunning \<and> mj_Status j \<noteq> JobAssigned)
            then c\<lparr>cc_UpdatedAt := now, cc_CompletedAt := None,
                   cc_Status := (if length (filter has_failed jobs) > length (filter (\<lambda>j. mj_Status j = JobCompleted) jobs)
                     then CampaignStatusFailed else CampaignStatusCompleted)\<rparr>
            else c)"
    using updateCampaignState_healthy [OF assms(1-3), of now G E clk] assms(4) r
    by (auto simp: d j verdict_def list_ex_iff is_active_def)
  show "campaign_row i (campaign_tables (snd (service_checkCampaignCompletion (sqlite_campaigns healthy cfg now) ts i (cw_db w)))) =
      Some (if \<forall>j \<in> set jobs. mj_Status j \<noteq> JobPending \<and> mj_Status j \<noteq> JobRunning \<and> mj_Status j \<noteq> JobAssigned
            then c\<lparr>cc_UpdatedAt := now, cc_CompletedAt := Some ts,
                   cc_Status := (if \<exists>j \<in> set jobs. has_failed j then CampaignStatusFailed else CampaignStatusCompleted)\<rparr>
            else c)"
    using assms(1,4) r
    by (auto simp: service_checkCampaignCompletion_def d j campaign_healthy Let_def list_ex_iff still_open_def set_campaign_status)
qed

text \<open>A round of the automatic restart: a tick of the monitor, then the goroutine it started.\<close>

definition restart_round :: "'d CampaignDeps \<Rightarrow> (nat \<Rightarrow> time) \<Rightarrow> string \<Rightarrow> 'd cworld \<Rightarrow> 'd cworld" where
  "restart_round D clk i w =
     (let w1 = snd (updateCampaignState D clk i w)
      in if i \<in> set (cw_restarts w1) then run_restart D clk i (w1\<lparr>cw_restarts := remove1 i (cw_restarts w1)\<rparr>) else w1)"

text \<open>A finished campaign that the manager would restart.\<close>

definition finished_auto :: "string \<Rightarrow> (CampaignTables sqlw \<times> 'x) cworld \<Rightarrow> bool" where
  "finished_auto i w \<longleftrightarrow>
     (let t = campaign_tables (cw_db w)
      in map_of (cw_campaigns w) i \<noteq> None \<and> cw_restarts w = [] \<and> verdict (jobs_of i t) = Some CampaignStatusCompleted \<and>
         (case campaign_row i t of Some c \<Rightarrow> cc_AutoRestart c \<and> cc_Status c = CampaignStatusCompleted \<and> cc_CompletedAt c = None | None \<Rightarrow> False))"

lemma restart_round_same:
  fixes w :: "(CampaignTables sqlw \<times> 'x) cworld" and now :: time and clk :: "nat \<Rightarrow> time" and G E
  assumes "0 \<le> dbc_MaxRetries cfg" and "finished_auto i w"
  defines "w' \<equiv> restart_round (sqlite_deps healthy cfg now G E) clk i w"
  shows "finished_auto i w' \<and> cpt_jobs (campaign_tables (cw_db w')) = cpt_jobs (campaign_tables (cw_db w)) \<and>
    cpt_links (campaign_tables (cw_db w')) = cpt_links (campaign_tables (cw_db w)) \<and>
    cw_restarts (snd (updateCampaignState (sqlite_deps healthy cfg now G E) clk i w)) = [i] \<and>
    campaign_row i (campaign_tables (cw_db w')) = map_option (\<lambda>c. c\<lparr>cc_UpdatedAt := now\<rparr>) (campaign_row i (campaign_tables (cw_db w)))"
proof -
  let ?D = "sqlite_deps healthy cfg now G E"
  let ?t = "campaign_tables (cw_db w)"
  obtain st c where a: "map_of (cw_campaigns w) i = Some st" "campaign_row i ?t = Some c" "cc_AutoRestart c" "cc_Status c = CampaignStatusCompleted"
      "cc_CompletedAt c = None" "cw_restarts w = []" "verdict (jobs_of i ?t) = Some CampaignStatusCompleted"
    using assms(2) by (auto simp: finished_auto_def Let_def split: option.splits)
  obtain w1 st1 where 1: "updateCampaignState ?D clk i w = (None, w1)" "map_of (cw_campaigns w1) i = Some st1" "campaign_tables (cw_db w1) = ?t"
      "cw_restarts w1 = [i]"
    using updateCampaignState_healthy [OF assms(1) a(1,2), of now G E clk] a by (auto simp: campaign_status_defs)
  obtain n x where d1: "cw_db w1 = ((?t, n), x)" using 1(3) by (metis surjective_pairing)
  let ?run = "\<lambda>c. c\<lparr>cc_UpdatedAt := now, cc_Status := CampaignStatusRunning, cc_CompletedAt := None\<rparr>"
  let ?w2 = "w1\<lparr>cw_restarts := [], cw_db := ((set_row i ?run ?t, Suc (Suc n)), x)\<rparr>"
  have r2: "campaign_row i (campaign_tables (cw_db ?w2)) = Some (?run c)" using a(2) by simp
  have m2: "map_of (cw_campaigns ?w2) i = Some st1" using 1(2) by simp
  have w': "w' = snd (updateCampaignState ?D clk i ?w2)"
    using 1 d1 a(2) assms(1) by (simp add: w'_def restart_round_def run_restart_def sqlite_deps_def campaign_healthy set_campaign_status)
  obtain w3 st3 where 3: "updateCampaignState ?D clk i ?w2 = (None, w3)" "map_of (cw_campaigns w3) i = Some st3" "cw_restarts w3 = []"
      "campaign_tables (cw_db w3) = set_row i (\<lambda>c. c\<lparr>cc_UpdatedAt := now, cc_Status := CampaignStatusCompleted, cc_CompletedAt := None\<rparr>) (set_row i ?run ?t)"
    using updateCampaignState_healthy [OF assms(1) m2 r2, of now G E clk] a(7) by (auto simp: campaign_status_defs)
  show ?thesis using 1 3 a by (simp add: w' finished_auto_def)
qed

text \<open>C31: a finished campaign with automatic restart spins without fuzzing (SQLite, no faults): every tick of the
  monitor starts a restart at once, because the completion time that the manager stored is lost; the restart sets
  the campaign to running, finds its old jobs finished and completes it in the same call. After any number of
  rounds the campaign is completed, the jobs are the same ones and the next tick restarts it again.\<close>

theorem auto_restart_spins:
  fixes w :: "(CampaignTables sqlw \<times> 'x) cworld" and now :: time and clk :: "nat \<Rightarrow> time" and G E and k :: nat
  assumes "0 \<le> dbc_MaxRetries cfg" and "finished_auto i w"
  defines "w' \<equiv> ((\<lambda>w. restart_round (sqlite_deps healthy cfg now G E) clk i w) ^^ k) w"
  shows "cpt_jobs (campaign_tables (cw_db w')) = cpt_jobs (campaign_tables (cw_db w)) \<and>
    cpt_links (campaign_tables (cw_db w')) = cpt_links (campaign_tables (cw_db w)) \<and>
    map_option cc_Status (campaign_row i (campaign_tables (cw_db w'))) = Some CampaignStatusCompleted \<and>
    cw_restarts (snd (updateCampaignState (sqlite_deps healthy cfg now G E) clk i w')) = [i]"
proof -
  let ?r = "\<lambda>w. restart_round (sqlite_deps healthy cfg now G E) clk i w"
  have "finished_auto i ((?r ^^ k) w) \<and> cpt_jobs (campaign_tables (cw_db ((?r ^^ k) w))) = cpt_jobs (campaign_tables (cw_db w)) \<and>
      cpt_links (campaign_tables (cw_db ((?r ^^ k) w))) = cpt_links (campaign_tables (cw_db w))" for k
  proof (induction k)
    case (Suc k)
    then show ?case using restart_round_same [OF assms(1), of i "(?r ^^ k) w" now G E clk] by simp
  qed (simp add: assms(2))
  then have *: "finished_auto i w'" "cpt_jobs (campaign_tables (cw_db w')) = cpt_jobs (campaign_tables (cw_db w))"
      "cpt_links (campaign_tables (cw_db w')) = cpt_links (campaign_tables (cw_db w))" by (simp_all add: w'_def)
  then show ?thesis using restart_round_same [OF assms(1) *(1), of now G E clk] by (auto simp: finished_auto_def Let_def split: option.splits)
qed

section \<open>The size of the corpus\<close>

text \<open>The metrics take the last snapshot of the evolution, but the storage returns the newest one first: what they
  show as the size of the corpus is that of the oldest snapshot.\<close>

lemma last_sorted: "sorted xs \<Longrightarrow> x \<in> set xs \<Longrightarrow> x \<le> last xs"
  by (induction xs) auto

lemma metrics_show_oldest:
  assumes "no_faults en" and "filter (\<lambda>e. ce_CampaignID e = c) (ct_evolution (tables s)) = es" and "es \<noteq> []" and "length es \<le> 1000"
  shows "\<exists>e \<in> set es. (\<forall>e' \<in> set es. ce_Timestamp e \<le> ce_Timestamp e') \<and>
    cm_CorpusSize (compute_metrics now jobs groups (fst (GetEvolution (sqlite_corpus en) now c s))) = ce_TotalSize e"
proof -
  let ?es = "sort_key (\<lambda>e. - ce_Timestamp e) es"
  obtain t n fs where s: "s = ((t, n), fs)" by (metis surjective_pairing)
  have ne: "?es \<noteq> []" using assms(3) by (metis length_0_conv length_sort)
  have "fst (GetEvolution (sqlite_corpus en) now c s) = Inr ?es"
    using assms ne by (simp add: GetEvolution_def on_db_def s sqlite_GetCorpusEvolution_def no_faults_def get_rows_healthy)
  moreover have "\<forall>e' \<in> set es. ce_Timestamp (last ?es) \<le> ce_Timestamp e'"
  proof
    fix e' assume "e' \<in> set es"
    then have "- ce_Timestamp e' \<le> last (map (\<lambda>e. - ce_Timestamp e) ?es)" by (intro last_sorted) simp_all
    then show "ce_Timestamp (last ?es) \<le> ce_Timestamp e'" using ne by (simp add: last_map)
  qed
  moreover have "last ?es \<in> set es" using ne last_in_set by fastforce
  ultimately show ?thesis using ne by (auto simp: compute_metrics_def Let_def)
qed

section \<open>A small run\<close>

definition sample_cworld :: "string \<Rightarrow> MasterJobStatus \<Rightarrow> (CampaignTables sqlw \<times> unit) cworld" where
  "sample_cworld status js =
     \<lparr>cw_db = ((\<lparr>cpt_campaigns = [sample_campaign status],
                cpt_jobs = [(campaign_job (\<lambda>_. ''u'') (\<lambda>_. 0) (sample_campaign status) 0 0)\<lparr>mj_ID := ''j'', mj_Status := js\<rparr>], cpt_links = [(''c'', ''j'')]\<rparr>, 0), ()),
      cw_campaigns = [(''c'', new_campaign_state (\<lambda>_. 0) (sample_campaign status))], cw_sent = [], cw_restarts = []\<rparr>"

theorem completion_rules_witness:
  "map_option cc_Status (campaign_row ''c'' (campaign_tables (cw_db (snd (updateCampaignState
      (sqlite_deps healthy sample_cfg 0 (\<lambda>_ x. (Inr [], x)) (\<lambda>_ x. (Inr [], x))) (\<lambda>_. 0) ''c'' (sample_cworld CampaignStatusRunning JobPending)))))) =
    Some CampaignStatusCompleted"
proof -
  let ?w = "sample_cworld CampaignStatusRunning JobPending"
  have "0 \<le> dbc_MaxRetries sample_cfg" by (simp add: sample_cfg_def)
  moreover have "map_of (cw_campaigns ?w) ''c'' = Some (new_campaign_state (\<lambda>_. 0) (sample_campaign CampaignStatusRunning))"
    by (simp add: sample_cworld_def)
  moreover have "campaign_row ''c'' (campaign_tables (cw_db ?w)) = Some (sample_campaign CampaignStatusRunning)"
    by (simp add: sample_cworld_def campaign_row_def sample_campaign_def)
  moreover have "cc_Status (sample_campaign CampaignStatusRunning) = CampaignStatusRunning" by (simp add: sample_campaign_def)
  moreover have "jobs_of ''c'' (campaign_tables (cw_db ?w)) =
      [(campaign_job (\<lambda>_. ''u'') (\<lambda>_. 0) (sample_campaign CampaignStatusRunning) 0 0)\<lparr>mj_ID := ''j'', mj_Status := JobPending\<rparr>]"
    by (simp add: sample_cworld_def jobs_of_def)
  ultimately show ?thesis
    using completion_rules [of sample_cfg ?w "''c''" _ _ 0 "\<lambda>_ x. (Inr [], x)" "\<lambda>_ x. (Inr [], x)" "\<lambda>_. 0"]
    by (auto simp: has_failed_def)
qed

theorem auto_restart_spins_witness:
  "finished_auto ''c'' (sample_cworld CampaignStatusCompleted JobCompleted) \<and>
   map_option cc_Status (campaign_row ''c'' (campaign_tables (cw_db (((\<lambda>w. restart_round
      (sqlite_deps healthy sample_cfg 0 (\<lambda>_ x. (Inr [], x)) (\<lambda>_ x. (Inr [], x))) (\<lambda>_. 0) ''c'' w) ^^ 5)
     (sample_cworld CampaignStatusCompleted JobCompleted))))) = Some CampaignStatusCompleted"
proof -
  have f: "finished_auto ''c'' (sample_cworld CampaignStatusCompleted JobCompleted)"
    by (simp add: finished_auto_def sample_cworld_def campaign_row_def sample_campaign_def verdict_def jobs_of_def is_active_def has_failed_def)
  have "0 \<le> dbc_MaxRetries sample_cfg" by (simp add: sample_cfg_def)
  from auto_restart_spins [OF this f, of 5 0 "\<lambda>_ x. (Inr [], x)" "\<lambda>_ x. (Inr [], x)" "\<lambda>_. 0"] f show ?thesis by blast
qed

end
