(* ===== verification/Go_Stats.thy ===== *)
theory Go_Stats
  imports Go_Float
begin

text \<open>
  Further operations on \<open>float64\<close> that the statistics of the program use: subtraction, \<open>math.Min\<close>,
  \<open>math.Max\<close>, \<open>math.Sqrt\<close>, the squares that \<open>math.Pow(x, 2)\<close> computes, and \<open>Duration.Seconds\<close> and
  \<open>Duration.Hours\<close>. The lemmas bound results by integers: rounding is monotone and exact on integers
  below \<open>2 ^ 53\<close>, so that a bound of the exact result is a bound of the rounded one.
\<close>

section \<open>Operations\<close>

fun fneg :: "f64 \<Rightarrow> f64" where
  "fneg (Fin x) = Fin (- x)"
| "fneg PInf = NInf"
| "fneg NInf = PInf"
| "fneg NaN = NaN"

definition fsub :: "f64 \<Rightarrow> f64 \<Rightarrow> f64" where
  "fsub x y = fadd x (fneg y)"

text \<open>\<open>math.Min\<close> and \<open>math.Max\<close>: an infinity on the deciding side wins over not-a-number.\<close>

definition fmin :: "f64 \<Rightarrow> f64 \<Rightarrow> f64" where
  "fmin x y = (if x = NInf \<or> y = NInf then NInf else if x = NaN \<or> y = NaN then NaN else if flt x y then x else y)"

definition fmax :: "f64 \<Rightarrow> f64 \<Rightarrow> f64" where
  "fmax x y = (if x = PInf \<or> y = PInf then PInf else if x = NaN \<or> y = NaN then NaN else if flt y x then x else y)"

text \<open>
  \<open>math.Sqrt\<close> rounds the exact root. For a positive \<open>x\<close> the number \<open>4 ^ k * x\<close> has an integer root of at
  least 55 bits; the half that is added when the root is not exact decides the rounding as the missing
  digits would.
\<close>

fun isqrt :: "nat \<Rightarrow> nat" where
  "isqrt n = (if n = 0 then 0 else let r = 2 * isqrt (n div 4) in if (r + 1) * (r + 1) \<le> n then r + 1 else r)"

declare isqrt.simps [simp del]

definition sqrt_shift :: "rat \<Rightarrow> int" where
  "sqrt_shift x = 55 - ilog2 x div 2"

definition sqrt_pos :: "rat \<Rightarrow> rat" where
  "sqrt_pos x = (let k = sqrt_shift x; y = x * pow2 (2 * k); r = isqrt (nat \<lfloor>y\<rfloor>)
     in rd ((of_nat r + (if of_nat (r * r) = y then 0 else 1 / 2)) * pow2 (- k)))"

fun fsqrt :: "f64 \<Rightarrow> f64" where
  "fsqrt (Fin x) = (if x < 0 then NaN else if x = 0 then Fin 0 else Fin (sqrt_pos x))"
| "fsqrt PInf = PInf"
| "fsqrt _ = NaN"

text \<open>Truncating division of Go integers by a positive number.\<close>

definition tquot :: "int \<Rightarrow> int \<Rightarrow> int" where
  "tquot a b = (if 0 \<le> a then a div b else - ((- a) div b))"

text \<open>The whole units of a duration, plus the rest as a fraction of a unit.\<close>

definition Duration_in :: "duration \<Rightarrow> duration \<Rightarrow> f64" where
  "Duration_in u d = (let w = tquot d u; nsec = d - w * u in fadd (f_of_int w) (fdiv (f_of_int nsec) (f_of_int u)))"

definition Duration_Seconds :: "duration \<Rightarrow> f64" where
  "Duration_Seconds d = Duration_in Second d"

definition Duration_Hours :: "duration \<Rightarrow> f64" where
  "Duration_Hours d = Duration_in Hour d"

section \<open>Ranges\<close>

definition f_in :: "rat \<Rightarrow> rat \<Rightarrow> f64 \<Rightarrow> bool" where
  "f_in a b x = (case x of Fin q \<Rightarrow> a \<le> q \<and> q \<le> b | _ \<Rightarrow> False)"

lemma f_in_Fin [simp]: "f_in a b (Fin q) \<longleftrightarrow> a \<le> q \<and> q \<le> b"
  by (simp add: f_in_def)

lemma f_inE: "f_in a b x \<Longrightarrow> (\<And>q. x = Fin q \<Longrightarrow> a \<le> q \<Longrightarrow> q \<le> b \<Longrightarrow> P) \<Longrightarrow> P"
  by (cases x) (auto simp: f_in_def)

lemma f_in_mono: "f_in a b x \<Longrightarrow> a' \<le> a \<Longrightarrow> b \<le> b' \<Longrightarrow> f_in a' b' x"
  by (cases x) (auto simp: f_in_def)

lemma f_in_unit: "f_unit x \<longleftrightarrow> f_in 0 1 x"
  by (simp add: f_unit_def f_in_def)

lemma rd_between: "a \<le> x \<Longrightarrow> x \<le> b \<Longrightarrow> rd a \<le> rd x \<and> rd x \<le> rd b"
  by (simp add: rd_mono)

lemma fadd_in: "f_in a b x \<Longrightarrow> f_in c d y \<Longrightarrow> f_in (rd (a + c)) (rd (b + d)) (fadd x y)"
  by (auto elim!: f_inE intro!: rd_mono)

lemma fmul_in: "f_in a b x \<Longrightarrow> f_in c d y \<Longrightarrow> 0 \<le> a \<Longrightarrow> 0 \<le> c \<Longrightarrow> f_in (rd (a * c)) (rd (b * d)) (fmul x y)"
  by (auto elim!: f_inE intro!: rd_mono mult_mono)

lemma fmul_const_in: "f_in a b x \<Longrightarrow> 0 \<le> c \<Longrightarrow> f_in (rd (a * c)) (rd (b * c)) (fmul x (Fin c))"
  by (auto elim!: f_inE intro!: rd_mono mult_right_mono)

lemma fdiv_const_in: "f_in a b x \<Longrightarrow> 0 < c \<Longrightarrow> f_in (rd (a / c)) (rd (b / c)) (fdiv x (Fin c))"
  by (auto elim!: f_inE intro!: rd_mono divide_right_mono)

lemma fsub_in: "f_in a b x \<Longrightarrow> f_in c d y \<Longrightarrow> f_in (rd (a - d)) (rd (b - c)) (fsub x y)"
  by (auto simp: fsub_def elim!: f_inE intro!: rd_mono)

lemma fmin_in: "f_in a b x \<Longrightarrow> a \<le> c \<Longrightarrow> f_in a c (fmin (Fin c) x)"
  by (auto simp: fmin_def elim!: f_inE)

lemma fmax_in: "f_in a b x \<Longrightarrow> c \<le> b \<Longrightarrow> f_in c b (fmax (Fin c) x)"
  by (auto simp: fmax_def elim!: f_inE)

lemma rd_100 [simp]: "rd 100 = 100"
  using rd_int [of 100] by simp

lemma rd_numeral_small: "numeral n < (2 :: int) ^ 53 \<Longrightarrow> rd (numeral n) = numeral n"
  using rd_int [of "numeral n"] by simp

lemma f_of_int_small: "\<bar>n\<bar> < 2 ^ 53 \<Longrightarrow> f_of_int n = Fin (of_int n)"
  by (simp add: f_of_int_def rd_int)

text \<open>A percentage \<open>float64(a) / float64(b) * 100\<close>.\<close>

definition percent :: "int \<Rightarrow> int \<Rightarrow> f64" where
  "percent a b = fmul (fdiv (f_of_int a) (f_of_int b)) (f_of_int 100)"

lemma percent_in: "0 \<le> a \<Longrightarrow> a \<le> b \<Longrightarrow> 0 < b \<Longrightarrow> f_in 0 100 (percent a b)"
  using fmul_const_in [OF fdiv_unit [unfolded f_in_unit], of a b 100]
  by (simp add: percent_def f_of_int_def)

lemma percent_0: "0 < b \<Longrightarrow> percent 0 b = Fin 0"
  using rd_pos_iff [of "of_int b"] by (simp add: percent_def f_of_int_def)

lemma percent_all: "0 < b \<Longrightarrow> percent b b = Fin 100"
  using rd_pos_iff [of "of_int b"] by (simp add: percent_def f_of_int_def)

lemma tquot_bounds: "0 \<le> a \<Longrightarrow> 0 < b \<Longrightarrow> 0 \<le> tquot a b \<and> 0 \<le> a - tquot a b * b \<and> a - tquot a b * b < b"
  by (simp add: tquot_def pos_imp_zdiv_nonneg_iff minus_div_mult_eq_mod)

lemma Duration_in_ge:
  assumes u: "0 < u" "u < 2 ^ 53" and k: "0 \<le> k" "k < 2 ^ 53" "k * u \<le> d"
  shows "\<exists>q. Duration_in u d = Fin q \<and> of_int k \<le> q"
proof -
  have d: "0 \<le> d" using k u by (meson mult_nonneg_nonneg less_imp_le order_trans)
  let ?w = "tquot d u" and ?n = "d - tquot d u * u"
  have n: "0 \<le> ?n" using tquot_bounds [OF d u(1)] by simp
  have "k \<le> ?w" using zdiv_mono1 [OF k(3) u(1)] u(1) d by (simp add: tquot_def)
  then have w: "of_int k \<le> rd (of_int ?w)"
    using rd_mono [of "of_int k" "of_int ?w"] rd_int [of k] k by simp
  have f: "0 \<le> rd (rd (of_int ?n) / of_int u)" using n u by (intro rd_ge_0 divide_nonneg_pos) (simp_all only: of_int_0_le_iff of_int_0_less_iff)
  have uu: "f_of_int u = Fin (of_int u)" using u by (intro f_of_int_small) simp
  have "of_int k \<le> rd (rd (of_int ?w) + rd (rd (of_int ?n) / of_int u))"
    using rd_mono [of "of_int k"] rd_int [of k] k w f by (metis abs_of_nonneg add_increasing2)
  then show ?thesis using u uu unfolding Duration_in_def Let_def f_of_int_def [of ?w] f_of_int_def [of ?n] uu by simp
qed

lemmas Duration_Hours_ge = Duration_in_ge [of Hour, folded Duration_Hours_def]
lemmas Duration_Seconds_ge = Duration_in_ge [of Second, folded Duration_Seconds_def]

lemma Duration_Seconds_nonneg: "0 \<le> d \<Longrightarrow> \<exists>q. Duration_Seconds d = Fin q \<and> 0 \<le> q"
  using Duration_Seconds_ge [of 0 d] by (simp add: Second_def)

text \<open>The integer root, and that the root of a number from zero up is one.\<close>

lemma isqrt_bounds: "isqrt n * isqrt n \<le> n \<and> n < (isqrt n + 1) * (isqrt n + 1)"
proof (induction n rule: isqrt.induct)
  case (1 n)
  show ?case
  proof (cases "n = 0")
    case True
    then show ?thesis by (subst (1 2 3 4) isqrt.simps) simp
  next
    case False
    define m where "m = isqrt (n div 4)"
    have m: "m * m \<le> n div 4" "n div 4 < (m + 1) * (m + 1)" using "1.IH" [OF False] unfolding m_def by auto
    have r: "isqrt n = (if (2 * m + 1) * (2 * m + 1) \<le> n then 2 * m + 1 else 2 * m)"
      by (subst isqrt.simps) (simp add: False m_def Let_def)
    have "n < 4 * ((m + 1) * (m + 1))" "4 * (m * m) \<le> n" using m by linarith+
    then show ?thesis unfolding r by (simp add: algebra_simps)
  qed
qed

lemma fsqrt_nonneg: "0 \<le> x \<Longrightarrow> \<exists>y. fsqrt (Fin x) = Fin y \<and> 0 \<le> y"
  by (auto simp: sqrt_pos_def Let_def intro!: rd_ge_0 mult_nonneg_nonneg less_imp_le [OF pow2_pos])

section \<open>The rounding error\<close>

lemma rhe_error: "\<bar>of_int (rhe x) - x\<bar> \<le> 1 / 2"
proof -
  have "of_int \<lfloor>x\<rfloor> \<le> x" "x < of_int \<lfloor>x\<rfloor> + 1" by linarith+
  then show ?thesis by (simp add: rhe_def Let_def)
qed

lemma rd_error:
  assumes "0 < x"
  shows "\<bar>rd x - x\<bar> \<le> x / 2 ^ 53"
proof -
  define p where "p = pow2 (ilog2 x - 52)"
  have p: "0 < p" by (simp add: p_def)
  have "rd x - x = (of_int (rhe (x / p)) - x / p) * p"
    using assms p by (simp add: rd_def rd_pos_def Let_def p_def [symmetric] algebra_simps)
  then have "\<bar>rd x - x\<bar> = \<bar>of_int (rhe (x / p)) - x / p\<bar> * p" using p by (simp add: abs_mult)
  also have "\<dots> \<le> 1 / 2 * p" using p rhe_error [of "x / p"] by (intro mult_right_mono) auto
  also have "p = pow2 (ilog2 x) / 2 ^ 52"
    using pow2_add [of "ilog2 x - 52" 52] pow2_nat [of 52] by (simp add: p_def)
  also have "1 / 2 * (pow2 (ilog2 x) / 2 ^ 52) \<le> x / 2 ^ 53" using ilog2_lower [OF assms] by simp
  finally show ?thesis by simp
qed

text \<open>A coarse form for numeric bounds.\<close>

lemma rd_near:
  assumes "0 \<le> x"
  shows "x * (999999 / 1000000) \<le> rd x" "rd x \<le> x * (1000001 / 1000000)"
proof -
  have "\<bar>rd x - x\<bar> \<le> x * (1 / 1000000)"
  proof (cases "x = 0")
    case False
    then have "x / 2 ^ 53 \<le> x / 1000000" using assms by (intro divide_left_mono) auto
    then show ?thesis using rd_error [of x] False assms by simp
  qed simp
  moreover have "x * (999999 / 1000000) = x - x * (1 / 1000000)" "x * (1000001 / 1000000) = x + x * (1 / 1000000)" by simp_all
  ultimately show "x * (999999 / 1000000) \<le> rd x" "rd x \<le> x * (1000001 / 1000000)" by linarith+
qed

lemma rd_ge: "a \<le> x \<Longrightarrow> 0 \<le> a \<Longrightarrow> b \<le> a * (999999 / 1000000) \<Longrightarrow> b \<le> rd x"
  using rd_near(1) [of a] rd_mono [of a x] by linarith

lemma rd_le: "x \<le> a \<Longrightarrow> 0 \<le> a \<Longrightarrow> a * (1000001 / 1000000) \<le> b \<Longrightarrow> rd x \<le> b"
  using rd_near(2) [of a] rd_mono [of x a] by linarith

end
