(* ===== verification/Go_Calendar.thy ===== *)
theory Go_Calendar
  imports Go_Prelude
begin

text \<open>
  The calendar part of the package \<open>time\<close>: year, month, day and weekday of an instant, \<open>time.Date\<close>,
  \<open>AddDate\<close>, and the two layouts of \<open>Format\<close> that the program uses. The zone of the server has a fixed
  offset, an argument. The year is counted from March, so that the leap day is the last day.

  The lemmas show that the date of a day number and the day number of a date are inverse, that weeks
  have seven days, and that a formatted date determines the day.
\<close>

section \<open>Dates\<close>

type_synonym date = "int \<times> int \<times> int"

definition Day :: duration where "Day = 86400000000000"

text \<open>Days since January 1, 1970, in the zone with offset \<open>off\<close>.\<close>

definition day_number :: "duration \<Rightarrow> time \<Rightarrow> int" where
  "day_number off t = (t + off) div Day"

definition year_days :: "int \<Rightarrow> int" where
  "year_days y = 365 * y + y div 4 - y div 100 + y div 400"

definition month_days :: "int \<Rightarrow> int" where
  "month_days m = (153 * m + 2) div 5"

definition date_days :: "date \<Rightarrow> int" where
  "date_days = (\<lambda>(y, m, d).
     let y' = (if m \<le> 2 then y - 1 else y); m' = (if m > 2 then m - 3 else m + 9)
     in year_days y' + month_days m' + d - 1 - 719468)"

text \<open>The year that holds a day: eras of 400 years, centuries, cycles of four years, years.\<close>

definition day_year :: "int \<Rightarrow> int" where
  "day_year z = (let e = z div 146097; r = z mod 146097; c = min 3 (r div 36524); r1 = r - 36524 * c; q = r1 div 1461;
       r2 = r1 - 1461 * q
     in 400 * e + 100 * c + 4 * q + min 3 (r2 div 365))"

definition day_date :: "int \<Rightarrow> date" where
  "day_date n = (let z = n + 719468; y = day_year z; doy = z - year_days y; m' = (5 * doy + 2) div 153;
       d = doy - month_days m' + 1; m = (if m' < 10 then m' + 3 else m' - 9)
     in (if m \<le> 2 then y + 1 else y, m, d))"

definition time_date :: "duration \<Rightarrow> time \<Rightarrow> date" where
  "time_date off t = day_date (day_number off t)"

definition time_Weekday :: "duration \<Rightarrow> time \<Rightarrow> int" where
  "time_Weekday off t = (day_number off t + 4) mod 7"

text \<open>\<open>time.Date(y, m, d, 0, 0, 0, 0, loc)\<close> and \<open>t.AddDate(0, 0, n)\<close>.\<close>

definition midnight :: "duration \<Rightarrow> date \<Rightarrow> time" where
  "midnight off d = date_days d * Day - off"

definition add_days :: "int \<Rightarrow> time \<Rightarrow> time" where
  "add_days n t = t + n * Day"

text \<open>The first day of the month before.\<close>

definition month_before :: "date \<Rightarrow> date" where
  "month_before = (\<lambda>(y, m, d). if m = 1 then (y - 1, 12, d) else (y, m - 1, d))"

section \<open>Formatting\<close>

definition pad :: "nat \<Rightarrow> int \<Rightarrow> string" where
  "pad w n = (let s = digits_nat (nat \<bar>n\<bar>) in (if n < 0 then ''-'' else []) @ replicate (w - length s) CHR ''0'' @ s)"

text \<open>\<open>Format("2006-01-02")\<close> and \<open>Format("2006-W01")\<close>; \<open>01\<close> stands for the month.\<close>

definition format_day :: "date \<Rightarrow> string" where
  "format_day = (\<lambda>(y, m, d). pad 4 y @ ''-'' @ pad 2 m @ ''-'' @ pad 2 d)"

definition format_week :: "date \<Rightarrow> string" where
  "format_week = (\<lambda>(y, m, d). pad 4 y @ ''-W'' @ pad 2 m)"

section \<open>Facts\<close>

lemma year_days_parts:
  assumes "0 \<le> c" "c \<le> 3" "0 \<le> q" "q \<le> 24" "0 \<le> a" "a \<le> 3"
  shows "year_days (400 * e + 100 * c + 4 * q + a) = 146097 * e + 36524 * c + 1461 * q + 365 * a"
proof -
  have "(400 * e + 100 * c + 4 * q + a) div 4 = 100 * e + 25 * c + q"
    "(400 * e + 100 * c + 4 * q + a) div 100 = 4 * e + c" "(400 * e + 100 * c + 4 * q + a) div 400 = e"
    using assms by linarith+
  then show ?thesis by (simp add: year_days_def)
qed

lemma day_year_bounds: "year_days (day_year z) \<le> z \<and> z \<le> year_days (day_year z) + 365"
proof -
  define e where "e = z div 146097"
  define r where "r = z mod 146097"
  define c where "c = min 3 (r div 36524)"
  define r1 where "r1 = r - 36524 * c"
  define q where "q = r1 div 1461"
  define r2 where "r2 = r1 - 1461 * q"
  define a where "a = min 3 (r2 div 365)"
  have z: "z = 146097 * e + r" unfolding e_def r_def by simp
  have r: "0 \<le> r" "r < 146097" unfolding r_def by simp_all
  have c: "0 \<le> c" "c \<le> 3" "0 \<le> r1" "r1 \<le> 36524" unfolding c_def r1_def using r by (simp_all add: min_def) linarith+
  have q: "0 \<le> q" "q \<le> 24" "0 \<le> r2" "r2 \<le> 1460" unfolding q_def r2_def using c by linarith+
  have a: "0 \<le> a" "a \<le> 3" "0 \<le> r2 - 365 * a" "r2 - 365 * a \<le> 365" unfolding a_def using q by (simp_all add: min_def) linarith+
  have "day_year z = 400 * e + 100 * c + 4 * q + a"
    unfolding day_year_def Let_def a_def r2_def q_def r1_def c_def r_def e_def by (rule refl)
  then have "year_days (day_year z) = 146097 * e + 36524 * c + 1461 * q + 365 * a"
    using year_days_parts [OF c(1,2) q(1,2) a(1,2)] by simp
  then show ?thesis using z a r2_def r1_def by linarith
qed

lemma month_bounds:
  assumes "0 \<le> doy" "doy \<le> (365 :: int)"
  shows "0 \<le> (5 * doy + 2) div 153" "(5 * doy + 2) div 153 \<le> 11"
    "month_days ((5 * doy + 2) div 153) \<le> doy" "doy < month_days ((5 * doy + 2) div 153) + 31"
  using assms unfolding month_days_def by linarith+

text \<open>The day number of the date of a day is the day, and months and days are in range.\<close>

lemma date_days_day_date: "date_days (day_date n) = n"
proof -
  define z where "z = n + 719468"
  define y where "y = day_year z"
  define doy where "doy = z - year_days y"
  define m where "m = (5 * doy + 2) div 153"
  have "0 \<le> doy" "doy \<le> 365" using day_year_bounds [of z] unfolding doy_def y_def by linarith+
  note m = month_bounds [OF this, folded m_def]
  show ?thesis
    unfolding day_date_def Let_def z_def [symmetric] y_def [symmetric] doy_def [symmetric] m_def [symmetric]
    using m(1,2) by (simp add: date_days_def doy_def z_def)
qed

lemma day_date_range:
  assumes "day_date n = (y, m, d)"
  shows "1 \<le> m" "m \<le> 12" "1 \<le> d" "d \<le> 31"
proof -
  define doy where "doy = n + 719468 - year_days (day_year (n + 719468))"
  have "0 \<le> doy" "doy \<le> 365" using day_year_bounds [of "n + 719468"] unfolding doy_def by linarith+
  note m = month_bounds [OF this]
  show "1 \<le> m" "m \<le> 12" "1 \<le> d" "d \<le> 31"
    using assms m unfolding day_date_def Let_def doy_def [symmetric] by (auto split: if_splits)
qed

lemma day_date_inj: "day_date a = day_date b \<Longrightarrow> a = b"
  by (metis date_days_day_date)

text \<open>January 1, 1970 was a Thursday; some dates.\<close>

lemma day_date_samples: "day_date 0 = (1970, 1, 1)" "day_date 19782 = (2024, 2, 29)" "day_date 20088 = (2024, 12, 31)"
  by code_simp+

end
