(* ===== verification/Repro_Scorer.thy ===== *)
theory Repro_Scorer
  imports Go_Stats Go_Calendar "HOL-Library.AList" "HOL-Library.Multiset"
begin

text \<open>
  The reproducibility scorer of \<open>pkg/service/reproducibility_scorer.go\<close>: from the recorded attempts to
  reproduce a crash it computes five component scores, a weighted base score, a confidence and a status,
  and caches them for five minutes.

  Floating-point operations are those of \<open>Go_Float\<close>, in the order of the source and without fusing a product
  into a sum. The maps that the code ranges over are association lists in the order of insertion; the
  iteration order is an argument (\<open>ordP\<close>, \<open>ordB\<close>, \<open>ordD\<close>) wherever a sum of floating-point numbers or a list
  depends on it. \<open>clk i\<close> is the \<open>i\<close>-th reading of the clock in a call. The storage is an argument: a function from its state to the
  results or an error.
\<close>

section \<open>Data\<close>

datatype ReproducibilityStatus = ReproducibilityStatusUnknown | ReproducibilityStatusTesting
  | ReproducibilityStatusConfirmed | ReproducibilityStatusFlaky | ReproducibilityStatusFailed
  | ReproducibilityStatusOther string

record ReproductionResult =
  rr_ID :: string
  rr_RequestID :: string
  rr_CrashID :: string
  rr_BotID :: string
  rr_AttemptNumber :: int
  rr_Status :: ReproducibilityStatus
  rr_Reproduced :: bool
  rr_ExecutionTime :: duration
  rr_Signal :: int
  rr_ExitCode :: int
  rr_Output :: string
  rr_StackTrace :: string
  rr_StackHash :: string
  rr_MatchesOriginal :: bool
  rr_EnvironmentInfo :: "(string \<times> string) list"
  rr_Timestamp :: time

record ScoreComponents =
  co_ReproductionRate :: f64
  co_ConsistencyScore :: f64
  co_TimeReliability :: f64
  co_CrossPlatformScore :: f64
  co_EnvironmentStability :: f64

record PlatformScore =
  pls_Platform :: string
  pls_Attempts :: int
  pls_Successes :: int
  pls_AverageTime :: f64
  pls_SuccessRate :: f64
  pls_LastAttempt :: time
  pls_ConsistentOutput :: bool

text \<open>The entries of the map \<open>Metadata\<close> that depend on the results.\<close>

record ScoreMetadata =
  sm_total_attempts :: nat
  sm_unique_platforms :: nat
  sm_first_attempt :: time
  sm_last_attempt :: time

record ReproducibilityScore =
  sco_CrashID :: string
  sco_BaseScore :: f64
  sco_Confidence :: f64
  sco_Components :: ScoreComponents
  sco_PlatformScores :: "(string \<times> PlatformScore) list"
  sco_Status :: ReproducibilityStatus
  sco_LastUpdated :: time
  sco_Metadata :: "ScoreMetadata option"

record FixVerification =
  fv_ID :: string
  fv_CrashID :: string
  fv_FixCommit :: string
  fv_VerificationJob :: string
  fv_Status :: string
  fv_Reproduced :: bool
  fv_TestedAt :: time
  fv_Result :: string

record reproducibilityScorer =
  sc_scoreCache :: "string \<rightharpoonup> ReproducibilityScore"
  sc_cacheTimeout :: duration
  sc_minAttempts :: int
  sc_confidenceThreshold :: f64
  sc_crossPlatformWeight :: f64
  sc_consistencyWeight :: f64

definition NewReproducibilityScorer :: reproducibilityScorer where
  "NewReproducibilityScorer = \<lparr>sc_scoreCache = Map.empty, sc_cacheTimeout = 5 * Minute, sc_minAttempts = 3,
     sc_confidenceThreshold = f_const 70, sc_crossPlatformWeight = f_const (3 / 10), sc_consistencyWeight = f_const (2 / 10)\<rparr>"

section \<open>Components\<close>

definition env_get :: "(string \<times> string) list \<Rightarrow> string \<Rightarrow> string" where
  "env_get env k = (case map_of env k of None \<Rightarrow> '''' | Some v \<Rightarrow> v)"

definition getPlatformKey :: "(string \<times> string) list \<Rightarrow> string" where
  "getPlatformKey env =
     (let os = env_get env ''os''; arch = env_get env ''arch''
      in (if os = '''' then ''unknown'' else os) @ ''/'' @ (if arch = '''' then ''unknown'' else arch))"

definition succeeded :: "ReproductionResult \<Rightarrow> bool" where
  "succeeded r \<longleftrightarrow> rr_Reproduced r \<and> rr_MatchesOriginal r"

definition new_platform :: "string \<Rightarrow> PlatformScore" where
  "new_platform p = \<lparr>pls_Platform = p, pls_Attempts = 0, pls_Successes = 0, pls_AverageTime = Fin 0, pls_SuccessRate = Fin 0,
     pls_LastAttempt = time_zero, pls_ConsistentOutput = False\<rparr>"

definition count_attempt :: "ReproductionResult \<Rightarrow> PlatformScore \<Rightarrow> PlatformScore" where
  "count_attempt r ps =
     (let n = pls_Attempts ps + 1
      in ps\<lparr>pls_Attempts := n,
            pls_Successes := pls_Successes ps + (if succeeded r then 1 else 0),
            pls_AverageTime := fdiv (fadd (fmul (pls_AverageTime ps) (f_of_int (n - 1))) (Duration_Seconds (rr_ExecutionTime r))) (f_of_int n),
            pls_LastAttempt := rr_Timestamp r,
            pls_ConsistentOutput := pls_ConsistentOutput ps \<or> (n > 1 \<and> rr_StackHash r \<noteq> '''')\<rparr>)"

definition group_platforms :: "ReproductionResult list \<Rightarrow> (string \<times> PlatformScore) list" where
  "group_platforms rs = fold (\<lambda>r. let p = getPlatformKey (rr_EnvironmentInfo r)
     in AList.map_default p (count_attempt r (new_platform p)) (count_attempt r)) rs []"

definition set_rate :: "PlatformScore \<Rightarrow> PlatformScore" where
  "set_rate ps = ps\<lparr>pls_SuccessRate := percent (pls_Successes ps) (pls_Attempts ps)\<rparr>"

definition calculatePlatformScores :: "ReproductionResult list \<Rightarrow> (string \<times> PlatformScore) list" where
  "calculatePlatformScores rs = map (\<lambda>(p, ps). (p, set_rate ps)) (group_platforms rs)"

definition count_where :: "('a \<Rightarrow> bool) \<Rightarrow> 'a list \<Rightarrow> int" where
  "count_where P xs = int (length (filter P xs))"

definition hash_counts :: "ReproductionResult list \<Rightarrow> (string \<times> int) list" where
  "hash_counts rs = fold (\<lambda>r m. if rr_Reproduced r \<and> rr_StackHash r \<noteq> ''''
     then AList.map_default (rr_StackHash r) 1 (\<lambda>c. c + 1) m else m) rs []"

definition calculateConsistencyScore :: "ReproductionResult list \<Rightarrow> f64" where
  "calculateConsistencyScore rs =
     (if length rs < 2 then f_const 100
      else let reproducedCount = count_where rr_Reproduced rs
           in if reproducedCount = 0 then Fin 0
              else percent (fold (\<lambda>(h, c) maxCount. if c > maxCount then c else maxCount) (hash_counts rs) 0) reproducedCount)"

definition fsum :: "f64 list \<Rightarrow> f64" where
  "fsum xs = fold (\<lambda>x s. fadd s x) xs (Fin 0)"

definition calculateTimeReliability :: "f64 list \<Rightarrow> f64" where
  "calculateTimeReliability ts =
     (if length ts < 2 then f_const 100
      else let n = f_of_int (int (length ts));
               mean = fdiv (fsum ts) n;
               variance = fdiv (fsum (map (\<lambda>t. fmul (fsub t mean) (fsub t mean)) ts)) n;
               stdDev = fsqrt variance
           in if mean = Fin 0 then f_const 100
              else fmax (Fin 0) (fmul (f_of_int 100) (fsub (f_of_int 1) (fdiv stdDev mean))))"

definition calculateCrossPlatformScore ::
    "((string \<times> PlatformScore) list \<Rightarrow> (string \<times> PlatformScore) list) \<Rightarrow> (string \<times> PlatformScore) list \<Rightarrow> f64" where
  "calculateCrossPlatformScore ordP pm =
     (case pm of
        [] \<Rightarrow> Fin 0
      | [(p, ps)] \<Rightarrow> fmul (pls_SuccessRate ps) (f_const (7 / 10))
      | _ \<Rightarrow>
        let pss = map snd (ordP pm);
            totalScore = fsum (map (\<lambda>ps. fmul (pls_SuccessRate ps) (f_of_int (pls_Attempts ps))) pss);
            totalAttempts = sum_list (map pls_Attempts pss);
            successfulPlatforms = count_where (\<lambda>ps. flt (f_of_int 50) (pls_SuccessRate ps)) pss
        in if totalAttempts = 0 then Fin 0
           else fmin (f_of_int 100) (fadd (fdiv totalScore (f_of_int totalAttempts))
                  (fmul (fdiv (f_of_int successfulPlatforms) (f_of_int (int (length pm)))) (f_of_int 20))))"

definition bot_results :: "ReproductionResult list \<Rightarrow> (string \<times> bool list) list" where
  "bot_results rs = fold (\<lambda>r. AList.map_default (rr_BotID r) [succeeded r] (\<lambda>bs. bs @ [succeeded r])) rs []"

fun transitions :: "bool list \<Rightarrow> int" where
  "transitions (a # b # bs) = (if b \<noteq> a then 1 else 0) + transitions (b # bs)"
| "transitions _ = 0"

definition bot_consistency :: "bool list \<Rightarrow> f64" where
  "bot_consistency bs = fsub (f_of_int 1) (fdiv (f_of_int (transitions bs)) (f_of_int (int (length bs) - 1)))"

definition calculateEnvironmentStability ::
    "((string \<times> bool list) list \<Rightarrow> (string \<times> bool list) list) \<Rightarrow> ReproductionResult list \<Rightarrow> f64" where
  "calculateEnvironmentStability ordB rs =
     (let bss = filter (\<lambda>bs. \<not> length bs < 2) (map snd (ordB (bot_results rs)))
      in if bss = [] then f_const 100
         else fmul (fdiv (fsum (map bot_consistency bss)) (f_of_int (int (length bss)))) (f_of_int 100))"

type_synonym range_orders =
  "((string \<times> PlatformScore) list \<Rightarrow> (string \<times> PlatformScore) list) \<times> ((string \<times> bool list) list \<Rightarrow> (string \<times> bool list) list)"

definition calculateComponents ::
    "range_orders \<Rightarrow> ReproductionResult list \<Rightarrow> (string \<times> PlatformScore) list \<Rightarrow> ScoreComponents" where
  "calculateComponents ord rs pm =
     \<lparr>co_ReproductionRate = percent (count_where succeeded rs) (int (length rs)),
      co_ConsistencyScore = calculateConsistencyScore rs,
      co_TimeReliability = calculateTimeReliability (map (\<lambda>r. Duration_Seconds (rr_ExecutionTime r)) rs),
      co_CrossPlatformScore = calculateCrossPlatformScore (fst ord) pm,
      co_EnvironmentStability = calculateEnvironmentStability (snd ord) rs\<rparr>"

section \<open>Score, confidence and status\<close>

definition clip100 :: "f64 \<Rightarrow> f64" where
  "clip100 x = fmin (f_of_int 100) (fmax (Fin 0) x)"

definition calculateBaseScore :: "reproducibilityScorer \<Rightarrow> ScoreComponents \<Rightarrow> f64" where
  "calculateBaseScore s c =
     clip100 (fadd (fadd (fadd (fadd
       (fmul (co_ReproductionRate c) (f_const (4 / 10)))
       (fmul (co_ConsistencyScore c) (sc_consistencyWeight s)))
       (fmul (co_TimeReliability c) (f_const (1 / 10))))
       (fmul (co_CrossPlatformScore c) (sc_crossPlatformWeight s)))
       (fmul (co_EnvironmentStability c) (f_const (1 / 10))))"

fun getFirstAttemptTime :: "ReproductionResult list \<Rightarrow> time" where
  "getFirstAttemptTime [] = time_zero"
| "getFirstAttemptTime (r # rs) = fold (\<lambda>r e. if time_Before (rr_Timestamp r) e then rr_Timestamp r else e) rs (rr_Timestamp r)"

fun getLastAttemptTime :: "ReproductionResult list \<Rightarrow> time" where
  "getLastAttemptTime [] = time_zero"
| "getLastAttemptTime (r # rs) = fold (\<lambda>r l. if time_After (rr_Timestamp r) l then rr_Timestamp r else l) rs (rr_Timestamp r)"

definition getTimeSpan :: "ReproductionResult list \<Rightarrow> duration" where
  "getTimeSpan rs = (if length rs < 2 then 0 else time_Sub (getLastAttemptTime rs) (getFirstAttemptTime rs))"

definition scorer_calculateConfidence ::
    "reproducibilityScorer \<Rightarrow> time \<Rightarrow> ReproductionResult list \<Rightarrow> (string \<times> PlatformScore) list \<Rightarrow> f64" where
  "scorer_calculateConfidence s now rs pm =
     (let attemptConfidence = fmin (f_of_int 100) (percent (int (length rs)) (sc_minAttempts s * 3));
          platformConfidence = fmin (f_of_int 100) (fmul (f_of_int (int (length pm))) (f_const (3333 / 100)));
          timeConfidence = fmin (f_of_int 100) (fmul (fdiv (Duration_Hours (getTimeSpan rs)) (f_of_int 24)) (f_of_int 20));
          recencyConfidence = (if rs \<noteq> []
            then fmax (Fin 0) (fsub (f_of_int 100) (fmul (Duration_Hours (time_Sub now (getLastAttemptTime rs))) (f_of_int 2)))
            else f_of_int 100)
      in clip100 (fadd (fadd (fadd (fmul attemptConfidence (f_const (3 / 10))) (fmul platformConfidence (f_const (3 / 10))))
           (fmul timeConfidence (f_const (2 / 10)))) (fmul recencyConfidence (f_const (2 / 10)))))"

definition determineStatus :: "reproducibilityScorer \<Rightarrow> f64 \<Rightarrow> f64 \<Rightarrow> int \<Rightarrow> ReproducibilityStatus" where
  "determineStatus s score confidence attempts =
     (if attempts < sc_minAttempts s then ReproducibilityStatusTesting
      else if flt confidence (sc_confidenceThreshold s) then ReproducibilityStatusTesting
      else if fle (f_of_int 80) score then ReproducibilityStatusConfirmed
      else if fle (f_of_int 50) score then ReproducibilityStatusFlaky
      else ReproducibilityStatusFailed)"

definition no_components :: ScoreComponents where
  "no_components = \<lparr>co_ReproductionRate = Fin 0, co_ConsistencyScore = Fin 0, co_TimeReliability = Fin 0,
     co_CrossPlatformScore = Fin 0, co_EnvironmentStability = Fin 0\<rparr>"

text \<open>The part of \<open>CalculateScore\<close> between the query and the cache, for results that are not empty.\<close>

definition score_results ::
    "reproducibilityScorer \<Rightarrow> range_orders \<Rightarrow> (nat \<Rightarrow> time) \<Rightarrow> string \<Rightarrow> ReproductionResult list \<Rightarrow> ReproducibilityScore" where
  "score_results s ord clk crashID rs =
     (let platformScores = calculatePlatformScores rs;
          components = calculateComponents ord rs platformScores;
          baseScore = calculateBaseScore s components;
          confidence = scorer_calculateConfidence s (clk 1) rs platformScores
      in \<lparr>sco_CrashID = crashID, sco_BaseScore = baseScore, sco_Confidence = confidence, sco_Components = components,
          sco_PlatformScores = platformScores, sco_Status = determineStatus s baseScore confidence (int (length rs)),
          sco_LastUpdated = clk 2,
          sco_Metadata = Some \<lparr>sm_total_attempts = length rs, sm_unique_platforms = length platformScores,
            sm_first_attempt = getFirstAttemptTime rs, sm_last_attempt = getLastAttemptTime rs\<rparr>\<rparr>)"

definition empty_score :: "string \<Rightarrow> time \<Rightarrow> ReproducibilityScore" where
  "empty_score crashID now = \<lparr>sco_CrashID = crashID, sco_BaseScore = Fin 0, sco_Confidence = Fin 0, sco_Components = no_components,
     sco_PlatformScores = [], sco_Status = ReproducibilityStatusUnknown, sco_LastUpdated = now, sco_Metadata = None\<rparr>"

type_synonym 's get_results = "string \<Rightarrow> 's \<Rightarrow> ReproductionResult list result \<times> 's"

definition cached_score :: "time \<Rightarrow> string \<Rightarrow> reproducibilityScorer \<Rightarrow> ReproducibilityScore option" where
  "cached_score now crashID s = (case sc_scoreCache s crashID of
       Some cached \<Rightarrow> if time_Sub now (sco_LastUpdated cached) < sc_cacheTimeout s then Some cached else None
     | None \<Rightarrow> None)"

definition CalculateScore ::
    "'s get_results \<Rightarrow> range_orders \<Rightarrow> (nat \<Rightarrow> time) \<Rightarrow> string \<Rightarrow> reproducibilityScorer \<times> 's \<Rightarrow>
     ReproducibilityScore result \<times> (reproducibilityScorer \<times> 's)" where
  "CalculateScore get ord clk crashID = (\<lambda>(s, st).
     case cached_score (clk 0) crashID s of
       Some cached \<Rightarrow> (Inr cached, (s, st))
     | None \<Rightarrow> (case get crashID st of
           (Inl e, st1) \<Rightarrow> (Inl (WrapError ''failed to get reproduction results: '' e), (s, st1))
         | (Inr rs, st1) \<Rightarrow>
             if rs = [] then (Inr (empty_score crashID (clk 1)), (s, st1))
             else let score = score_results s ord clk crashID rs
                  in (Inr score, (s\<lparr>sc_scoreCache := (sc_scoreCache s)(crashID \<mapsto> score)\<rparr>, st1))))"

definition scorer_VerifyFix :: "(nat \<Rightarrow> time) \<Rightarrow> string \<Rightarrow> string \<Rightarrow> FixVerification" where
  "scorer_VerifyFix clk crashID fixCommit =
     \<lparr>fv_ID = ''fix-'' @ crashID @ ''-'' @ itoa (clk 0 div Second), fv_CrashID = crashID, fv_FixCommit = fixCommit,
      fv_VerificationJob = '''', fv_Status = ''pending'', fv_Reproduced = False, fv_TestedAt = clk 1, fv_Result = ''''\<rparr>"

section \<open>Trends\<close>

definition daily_stats :: "duration \<Rightarrow> ReproductionResult list \<Rightarrow> (string \<times> int \<times> int) list" where
  "daily_stats off rs = fold (\<lambda>r. let k = (if succeeded r then 1 else 0)
     in AList.map_default (format_day (time_date off (rr_Timestamp r))) (1, k) (\<lambda>(a, n). (a + 1, n + k))) rs []"

definition day_rate :: "int \<times> int \<Rightarrow> f64" where
  "day_rate = (\<lambda>(attempts, successes). fdiv (f_of_int successes) (f_of_int attempts))"

fun rises :: "(f64 \<Rightarrow> f64 \<Rightarrow> bool) \<Rightarrow> f64 list \<Rightarrow> int" where
  "rises lt (a # b # xs) = (if lt a b then 1 else 0) + rises lt (b # xs)"
| "rises lt _ = 0"

definition detect_trend :: "f64 list \<Rightarrow> string" where
  "detect_trend rates =
     (if length rates \<ge> 3 then
        let increasing = rises flt rates; decreasing = rises (\<lambda>a b. flt b a) rates
        in if increasing > decreasing \<and> increasing > int (length rates div 2) then ''improving''
           else if decreasing > increasing \<and> decreasing > int (length rates div 2) then ''degrading''
           else ''stable''
      else ''stable'')"

record TrendAnalysis =
  ta_trend :: string
  ta_data_points :: nat
  ta_daily_stats :: "(string \<times> int \<times> int) list"
  ta_success_rates :: "f64 list"

definition trend_of ::
    "((string \<times> int \<times> int) list \<Rightarrow> (string \<times> int \<times> int) list) \<Rightarrow> duration \<Rightarrow> ReproductionResult list \<Rightarrow> TrendAnalysis" where
  "trend_of ordD off rs =
     (if length rs < 2 then \<lparr>ta_trend = ''insufficient_data'', ta_data_points = length rs, ta_daily_stats = [], ta_success_rates = []\<rparr>
      else let days = daily_stats off rs; rates = map (\<lambda>(day, stats). day_rate stats) (ordD days)
           in \<lparr>ta_trend = detect_trend rates, ta_data_points = length rs, ta_daily_stats = days, ta_success_rates = rates\<rparr>)"

definition scorer_GetTrendAnalysis ::
    "'s get_results \<Rightarrow> ((string \<times> int \<times> int) list \<Rightarrow> (string \<times> int \<times> int) list) \<Rightarrow> duration \<Rightarrow> string \<Rightarrow> 's \<Rightarrow> TrendAnalysis result \<times> 's" where
  "scorer_GetTrendAnalysis get ordD off crashID st = (case get crashID st of
       (Inl e, st1) \<Rightarrow> (Inl (WrapError ''failed to get reproduction results: '' e), st1)
     | (Inr rs, st1) \<Rightarrow> (Inr (trend_of ordD off rs), st1))"

section \<open>Counting\<close>

lemma count_where_bounds: "0 \<le> count_where P xs" "count_where P xs \<le> int (length xs)"
  by (simp_all add: count_where_def)

lemma count_where_snoc: "count_where P (xs @ [x]) = count_where P xs + (if P x then 1 else 0)"
  by (simp add: count_where_def)

lemma count_where_all: "(\<And>x. x \<in> set xs \<Longrightarrow> P x) \<Longrightarrow> count_where P xs = int (length xs)"
  by (simp add: count_where_def)

lemma count_where_none: "(\<And>x. x \<in> set xs \<Longrightarrow> \<not> P x) \<Longrightarrow> count_where P xs = 0"
  by (simp add: count_where_def filter_False)

text \<open>Grouping by a key: each group is a new group or an old one with a member more.\<close>

lemma map_default_mem:
  "(k, v) \<in> set (AList.map_default k0 z f m) \<Longrightarrow> (k, v) \<in> set m \<or> v = z \<or> (\<exists>v'. (k, v') \<in> set m \<and> v = f v')"
  by (induction m) (auto split: if_splits)

lemma map_default_nonempty [simp]: "AList.map_default k z f m \<noteq> []"
  by (cases m) auto

lemma groups_all:
  assumes "\<And>r. r \<in> set rs \<Longrightarrow> P (z r)" and "\<And>r v. r \<in> set rs \<Longrightarrow> P v \<Longrightarrow> P (f r v)"
    and "\<And>k v. (k, v) \<in> set m \<Longrightarrow> P v"
  shows "(k, v) \<in> set (fold (\<lambda>r. AList.map_default (key r) (z r) (f r)) rs m) \<Longrightarrow> P v"
  using assms
proof (induction rs arbitrary: m k v)
  case (Cons r rs)
  have "P v'" if "(k', v') \<in> set (AList.map_default (key r) (z r) (f r) m)" for k' v'
    using map_default_mem [OF that] Cons.prems(2-4) by auto
  then show ?case using Cons.IH [of k v "AList.map_default (key r) (z r) (f r) m"] Cons.prems by auto
qed simp

lemma groups_nonempty: "rs \<noteq> [] \<or> m \<noteq> [] \<Longrightarrow> fold (\<lambda>r. AList.map_default (key r) (z r) (f r)) rs m \<noteq> []"
  by (induction rs arbitrary: m) auto

text \<open>The number of groups is the number of different keys.\<close>

lemma map_default_length: "length (AList.map_default k z f m) = (if k \<in> fst ` set m then length m else Suc (length m))"
  by (induction m) (auto simp: image_iff)

lemma map_default_keys: "fst ` set (AList.map_default k z f m) = insert k (fst ` set m)"
  by (induction m) auto

lemma map_default_distinct: "distinct (map fst m) \<Longrightarrow> distinct (map fst (AList.map_default k z f m))"
proof (induction m)
  case (Cons a m)
  have "set (map fst (AList.map_default k z f m)) = insert k (set (map fst m))" using map_default_keys [of k z f m] by simp
  with Cons show ?case by (cases a) auto
qed simp

lemma groups_keys:
  "fst ` set (fold (\<lambda>r. AList.map_default (key r) (z r) (f r)) rs m) = fst ` set m \<union> key ` set rs"
  by (induction rs arbitrary: m) (auto simp: map_default_keys)

lemma groups_distinct:
  "distinct (map fst m) \<Longrightarrow> distinct (map fst (fold (\<lambda>r. AList.map_default (key r) (z r) (f r)) rs m))"
  by (induction rs arbitrary: m) (auto intro: map_default_distinct)

lemma groups_card:
  "length (fold (\<lambda>r. AList.map_default (key r) (z r) (f r)) rs []) = card (key ` set rs)"
proof -
  let ?m = "fold (\<lambda>r. AList.map_default (key r) (z r) (f r)) rs []"
  have "distinct (map fst ?m)" by (rule groups_distinct) simp
  from distinct_card [OF this] show ?thesis using groups_keys [of key z f rs "[]"] by simp
qed

lemma hash_counts_le: "(h, c) \<in> set (hash_counts rs) \<Longrightarrow> 0 \<le> c \<and> c \<le> count_where rr_Reproduced rs"
proof (induction rs arbitrary: h c rule: rev_induct)
  case (snoc r rs)
  show ?case
  proof (cases "rr_Reproduced r \<and> rr_StackHash r \<noteq> ''''")
    case True
    then have "(h, c) \<in> set (AList.map_default (rr_StackHash r) 1 (\<lambda>c. c + 1) (hash_counts rs))"
      using snoc.prems by (simp add: hash_counts_def)
    from map_default_mem [OF this] show ?thesis
      using snoc.IH True count_where_bounds(1) [of rr_Reproduced rs] by (auto simp: count_where_snoc dest!: snoc.IH)
  next
    case False
    then have "(h, c) \<in> set (hash_counts rs)" using snoc.prems by (auto simp: hash_counts_def)
    then show ?thesis using snoc.IH by (fastforce simp: count_where_snoc)
  qed
qed (simp add: hash_counts_def)

lemma max_count_le:
  "(\<And>h c. (h, c) \<in> set m \<Longrightarrow> 0 \<le> c \<and> c \<le> n) \<Longrightarrow> 0 \<le> a \<Longrightarrow> a \<le> n \<Longrightarrow>
   0 \<le> fold (\<lambda>(h, c) x. if c > x then c else x) m a \<and> fold (\<lambda>(h, c) x. if c > x then c else (x :: int)) m a \<le> n"
  by (induction m arbitrary: a) fastforce+

section \<open>Bounds of the components\<close>

definition f_nn :: "f64 \<Rightarrow> bool" where
  "f_nn x = (case x of Fin q \<Rightarrow> 0 \<le> q | _ \<Rightarrow> False)"

lemma f_nn_Fin [simp]: "f_nn (Fin q) \<longleftrightarrow> 0 \<le> q"
  by (simp add: f_nn_def)

lemma f_nnE: "f_nn x \<Longrightarrow> (\<And>q. x = Fin q \<Longrightarrow> 0 \<le> q \<Longrightarrow> P) \<Longrightarrow> P"
  by (cases x) (auto simp: f_nn_def)

lemma f_in_nn: "f_in 0 b x \<Longrightarrow> f_nn x"
  by (auto elim: f_inE)

lemma f_nn_arith: "f_nn x \<Longrightarrow> f_nn y \<Longrightarrow> f_nn (fadd x y)" "f_nn x \<Longrightarrow> f_nn y \<Longrightarrow> f_nn (fmul x y)"
  "f_nn x \<Longrightarrow> 0 < n \<Longrightarrow> f_nn (fdiv x (f_of_int n))" "0 \<le> n \<Longrightarrow> f_nn (f_of_int n)" "0 \<le> q \<Longrightarrow> f_nn (f_const q)"
  using rd_pos_iff [of "of_int n"] by (auto simp: f_of_int_def f_const_def elim!: f_nnE)

lemma fsum_nn: "(\<And>x. x \<in> set xs \<Longrightarrow> f_nn x) \<Longrightarrow> f_nn (fsum xs)"
proof -
  have "f_nn (fold (\<lambda>x s. fadd s x) xs a)" if "\<And>x. x \<in> set xs \<Longrightarrow> f_nn x" "f_nn a" for a
    using that by (induction xs arbitrary: a) (auto simp: f_nn_arith)
  then show "(\<And>x. x \<in> set xs \<Longrightarrow> f_nn x) \<Longrightarrow> f_nn (fsum xs)" by (simp add: fsum_def)
qed

lemma f_const_small: "f_const 100 = Fin 100" "f_of_int 100 = Fin 100" "f_of_int 1 = Fin 1" "f_of_int 2 = Fin 2" "f_of_int 20 = Fin 20"
  "f_of_int 24 = Fin 24" "f_of_int 50 = Fin 50" "f_of_int 80 = Fin 80" "f_const 70 = Fin 70"
  by (simp_all add: f_const_def f_of_int_def rd_numeral_small)

lemma calculateConsistencyScore_in: "f_in 0 100 (calculateConsistencyScore rs)"
proof -
  let ?n = "count_where rr_Reproduced rs"
  have "0 \<le> fold (\<lambda>(h, c) x. if c > x then c else x) (hash_counts rs) 0 \<and> fold (\<lambda>(h, c) x. if c > x then c else x) (hash_counts rs) 0 \<le> ?n"
    using count_where_bounds(1) [of rr_Reproduced rs] hash_counts_le by (intro max_count_le) auto
  then have "f_in 0 100 (percent (fold (\<lambda>(h, c) x. if c > x then c else x) (hash_counts rs) 0) ?n)" if "?n \<noteq> 0"
    using that count_where_bounds(1) [of rr_Reproduced rs] by (intro percent_in) auto
  then show ?thesis by (simp add: calculateConsistencyScore_def f_const_small Let_def)
qed

lemma square_nn: "x \<noteq> NaN \<Longrightarrow> x = Fin q \<Longrightarrow> f_nn (fmul x x)"
  by simp

lemma calculateTimeReliability_in:
  assumes "\<And>t. t \<in> set ts \<Longrightarrow> f_nn t"
  shows "f_in 0 100 (calculateTimeReliability ts)"
proof (cases "length ts < 2")
  case False
  define n where "n = int (length ts)"
  have n: "0 < n" using False by (cases ts) (auto simp: n_def)
  obtain m where m: "fdiv (fsum ts) (f_of_int n) = Fin m" "0 \<le> m"
    using f_nn_arith(3) [OF fsum_nn [OF assms] n] by (auto elim: f_nnE)
  have sq: "f_nn x" if "x \<in> set (map (\<lambda>t. fmul (fsub t (Fin m)) (fsub t (Fin m))) ts)" for x
    using that assms by (auto simp: fsub_def elim!: f_nnE dest!: assms)
  obtain v where v: "fdiv (fsum (map (\<lambda>t. fmul (fsub t (Fin m)) (fsub t (Fin m))) ts)) (f_of_int n) = Fin v" "0 \<le> v"
    using f_nn_arith(3) [OF fsum_nn [OF sq, of "map (\<lambda>t. fmul (fsub t (Fin m)) (fsub t (Fin m))) ts"] n] by (auto elim: f_nnE)
  obtain d where d: "fsqrt (Fin v) = Fin d" "0 \<le> d" using fsqrt_nonneg [OF v(2)] by blast
  have "f_in 0 100 (fmax (Fin 0) (fmul (Fin 100) (fsub (Fin 1) (fdiv (Fin d) (Fin m)))))" if "m \<noteq> 0"
  proof -
    have cv: "0 \<le> rd (d / m)" using d m by simp
    then have "rd (1 - rd (d / m)) \<le> 1" by (intro rd_le_1) simp
    then have "rd (100 * rd (1 - rd (d / m))) \<le> 100" using rd_mono [of "100 * rd (1 - rd (d / m))" 100] by simp
    then show ?thesis using that by (simp add: fsub_def fmax_def)
  qed
  then show ?thesis using False m v d
    by (simp add: calculateTimeReliability_def Let_def n_def [symmetric] f_const_small)
qed (simp add: calculateTimeReliability_def f_const_small)

definition platform_ok :: "PlatformScore \<Rightarrow> bool" where
  "platform_ok ps \<longleftrightarrow> 0 \<le> pls_Successes ps \<and> pls_Successes ps \<le> pls_Attempts ps \<and> 0 < pls_Attempts ps"

lemma count_attempt_ok: "platform_ok (count_attempt r (new_platform p))" "platform_ok ps \<Longrightarrow> platform_ok (count_attempt r ps)"
  by (simp_all add: platform_ok_def count_attempt_def new_platform_def Let_def)

lemma platform_scores_in:
  assumes "(p, ps) \<in> set (calculatePlatformScores rs)"
  shows "f_in 0 100 (pls_SuccessRate ps) \<and> 0 < pls_Attempts ps"
proof -
  obtain ps0 where ps0: "(p, ps0) \<in> set (group_platforms rs)" "ps = set_rate ps0"
    using assms by (auto simp: calculatePlatformScores_def)
  have "platform_ok ps0"
    using ps0(1) unfolding group_platforms_def Let_def
    by (rule groups_all [rotated 3]) (auto simp: count_attempt_ok)
  then show ?thesis using ps0(2) percent_in by (simp add: set_rate_def platform_ok_def)
qed

lemma cross_platform_in:
  assumes ordP: "set (ordP pm) = set pm" and pm: "\<And>p ps. (p, ps) \<in> set pm \<Longrightarrow> f_in 0 100 (pls_SuccessRate ps) \<and> 0 < pls_Attempts ps"
  shows "f_in 0 100 (calculateCrossPlatformScore ordP pm)"
proof -
  have ps: "f_in 0 100 (pls_SuccessRate ps) \<and> 0 < pls_Attempts ps" if "ps \<in> set (map snd (ordP pm))" for ps
    using that pm ordP by auto
  consider (none) "pm = []" | (one) p ps where "pm = [(p, ps)]" | (more) "2 \<le> length pm"
    by (cases pm; cases "tl pm") auto
  then show ?thesis
  proof cases
    case none
    then show ?thesis by (simp add: calculateCrossPlatformScore_def)
  next
    case one
    have "0 \<le> rd (7 / 10)" "rd (7 / 10) \<le> 1" by (simp_all add: rd_le_1)
    then have "rd (100 * rd (7 / 10)) \<le> 100" using rd_mono [of "100 * rd (7 / 10)" 100] by simp
    then show ?thesis using fmul_const_in [of 0 100 "pls_SuccessRate ps" "rd (7 / 10)"] pm one \<open>0 \<le> rd (7 / 10)\<close>
      by (simp add: calculateCrossPlatformScore_def f_const_def f_in_mono)
  next
    case more
    let ?pss = "map snd (ordP pm)"
    define ts where "ts = fsum (map (\<lambda>ps. fmul (pls_SuccessRate ps) (f_of_int (pls_Attempts ps))) ?pss)"
    define ta where "ta = sum_list (map pls_Attempts ?pss)"
    define sp where "sp = count_where (\<lambda>ps. flt (f_of_int 50) (pls_SuccessRate ps)) ?pss"
    have "f_nn x" if x: "x \<in> set (map (\<lambda>ps. fmul (pls_SuccessRate ps) (f_of_int (pls_Attempts ps))) ?pss)" for x
    proof -
      obtain ps' where ps': "ps' \<in> set ?pss" "x = fmul (pls_SuccessRate ps') (f_of_int (pls_Attempts ps'))" using x by auto
      show ?thesis using ps [OF ps'(1)] unfolding ps'(2) by (intro f_nn_arith(2,4)) (auto intro: f_in_nn)
    qed
    then have "f_nn ts" unfolding ts_def by (rule fsum_nn)
    moreover have "0 \<le> ta" unfolding ta_def using ps by (intro sum_list_nonneg) fastforce
    moreover have "f_nn (fmul (fdiv (f_of_int sp) (f_of_int (int (length pm)))) (f_of_int 20))"
      using more count_where_bounds(1) unfolding sp_def by (intro f_nn_arith) auto
    ultimately have "f_nn (fadd (fdiv ts (f_of_int ta)) (fmul (fdiv (f_of_int sp) (f_of_int (int (length pm)))) (f_of_int 20)))" if "ta \<noteq> 0"
      using that by (intro f_nn_arith(1,3)) auto
    moreover have "calculateCrossPlatformScore ordP pm = (if ta = 0 then Fin 0 else fmin (f_of_int 100)
        (fadd (fdiv ts (f_of_int ta)) (fmul (fdiv (f_of_int sp) (f_of_int (int (length pm)))) (f_of_int 20))))"
      using more unfolding calculateCrossPlatformScore_def ts_def ta_def sp_def Let_def by (auto split: list.splits prod.splits)
    ultimately show ?thesis by (auto simp: f_const_small fmin_def elim!: f_nnE)
  qed
qed

lemma transitions_bounds: "0 \<le> transitions bs \<and> (bs \<noteq> [] \<longrightarrow> transitions bs \<le> int (length bs) - 1)"
  by (induction bs rule: transitions.induct) auto

lemma bot_consistency_in: "2 \<le> length bs \<Longrightarrow> f_in 0 1 (bot_consistency bs)"
proof -
  assume l: "2 \<le> length bs"
  have "bs \<noteq> []" using l by auto
  then have "f_unit (fdiv (f_of_int (transitions bs)) (f_of_int (int (length bs) - 1)))"
    using transitions_bounds [of bs] l by (intro fdiv_unit) auto
  then show ?thesis using fsub_in [of 1 1 "Fin 1" 0 1] unfolding f_in_unit bot_consistency_def f_const_small by simp
qed

lemma fsum_unit:
  assumes "\<And>x. x \<in> set xs \<Longrightarrow> f_in 0 1 x" and "length xs < 2 ^ 53"
  shows "f_in 0 (of_nat (length xs)) (fsum xs)"
proof -
  have "f_in 0 (of_nat (k + length xs)) (fold (\<lambda>x s. fadd s x) xs a)"
    if "\<And>x. x \<in> set xs \<Longrightarrow> f_in 0 1 x" "k + length xs < 2 ^ 53" "f_in 0 (of_nat k) a" for a k
    using that
  proof (induction xs arbitrary: a k)
    case (Cons x xs)
    have "rd (of_nat k + 1) = of_nat (Suc k)" using rd_int [of "int (Suc k)"] Cons.prems(2) by (simp add: add.commute)
    then have "f_in 0 (of_nat (Suc k)) (fadd a x)"
      using fadd_in [OF Cons.prems(3) Cons.prems(1) [of x]] by simp
    then show ?case using Cons.IH [of "Suc k" "fadd a x"] Cons.prems(1,2) by simp
  qed simp
  from this [of 0 "Fin 0"] show ?thesis using assms by (simp add: fsum_def)
qed

lemma bot_results_length: "length (bot_results rs) \<le> length rs"
  unfolding bot_results_def groups_card by (metis card_length image_set length_map)

lemma environment_in:
  assumes ordB: "mset (ordB (bot_results rs)) = mset (bot_results rs)" and n: "length rs < 2 ^ 53"
  shows "f_in 0 100 (calculateEnvironmentStability ordB rs)"
proof -
  define bss where "bss = filter (\<lambda>bs. \<not> length bs < 2) (map snd (ordB (bot_results rs)))"
  have len: "length bss \<le> length rs"
    using bot_results_length [of rs] length_filter_le [of _ "map snd (ordB (bot_results rs))"] mset_eq_length [OF ordB]
    unfolding bss_def by (metis length_map order_trans)
  show ?thesis
  proof (cases "bss = []")
    case True
    then show ?thesis by (simp add: calculateEnvironmentStability_def bss_def [symmetric] f_const_small)
  next
    case False
    let ?n = "of_nat (length bss) :: rat"
    have nn: "f_of_int (int (length bss)) = Fin ?n" using f_of_int_small [of "int (length bss)"] len n by simp
    have unit: "f_in 0 1 x" if "x \<in> set (map bot_consistency bss)" for x
      using that bot_consistency_in by (auto simp: bss_def)
    have "f_in 0 ?n (fsum (map bot_consistency bss))"
      using fsum_unit [of "map bot_consistency bss"] len n unit by simp
    then have "f_in 0 1 (fdiv (fsum (map bot_consistency bss)) (f_of_int (int (length bss))))"
      using fdiv_const_in [of 0 ?n _ ?n] False unfolding nn by simp
    then show ?thesis
      using fmul_const_in [of 0 1 _ 100] False
      by (simp add: calculateEnvironmentStability_def bss_def [symmetric] f_const_small)
  qed
qed

definition orders_ok :: "range_orders \<Rightarrow> bool" where
  "orders_ok ord \<longleftrightarrow> (\<forall>m. mset (fst ord m) = mset m) \<and> (\<forall>m. mset (snd ord m) = mset m)"

text \<open>The results that a store may return: attempts do not take negative time.\<close>

definition results_ok :: "ReproductionResult list \<Rightarrow> bool" where
  "results_ok rs \<longleftrightarrow> length rs < 2 ^ 53 \<and> (\<forall>r \<in> set rs. 0 \<le> rr_ExecutionTime r)"

definition components_ok :: "ScoreComponents \<Rightarrow> bool" where
  "components_ok c \<longleftrightarrow> f_in 0 100 (co_ReproductionRate c) \<and> f_in 0 100 (co_ConsistencyScore c) \<and> f_in 0 100 (co_TimeReliability c) \<and>
     f_in 0 100 (co_CrossPlatformScore c) \<and> f_in 0 100 (co_EnvironmentStability c)"

lemma calculateComponents_ok:
  assumes "orders_ok ord" and "results_ok rs" and "rs \<noteq> []"
  shows "components_ok (calculateComponents ord rs (calculatePlatformScores rs))"
proof -
  have "f_in 0 100 (percent (count_where succeeded rs) (int (length rs)))"
    using assms(3) count_where_bounds by (intro percent_in) auto
  moreover have "f_in 0 100 (calculateTimeReliability (map (\<lambda>r. Duration_Seconds (rr_ExecutionTime r)) rs))"
    using assms(2) Duration_Seconds_nonneg by (intro calculateTimeReliability_in) (fastforce simp: results_ok_def)
  moreover have "set (fst ord (calculatePlatformScores rs)) = set (calculatePlatformScores rs)"
    using assms(1) unfolding orders_ok_def by (metis set_mset_mset)
  then have "f_in 0 100 (calculateCrossPlatformScore (fst ord) (calculatePlatformScores rs))"
    using platform_scores_in by (intro cross_platform_in)
  moreover have "f_in 0 100 (calculateEnvironmentStability (snd ord) rs)"
    using assms by (intro environment_in) (auto simp: orders_ok_def results_ok_def)
  ultimately show ?thesis using calculateConsistencyScore_in
    by (simp add: components_ok_def calculateComponents_def)
qed

lemma clip100_in: "clip100 (Fin q) = Fin (max 0 (min 100 q))"
  by (auto simp: clip100_def fmin_def fmax_def f_const_small)

lemma Duration_in_finite: "0 < u \<Longrightarrow> \<exists>q. Duration_in u d = Fin q"
  using rd_pos_iff [of "of_int u"] by (simp add: Duration_in_def Let_def f_of_int_def)

lemma Duration_Hours_finite: "\<exists>q. Duration_Hours d = Fin q"
  unfolding Duration_Hours_def by (rule Duration_in_finite) (simp add: Hour_def)

definition scorer_const :: "reproducibilityScorer \<Rightarrow> bool" where
  "scorer_const s \<longleftrightarrow> sc_cacheTimeout s = 5 * Minute \<and> sc_minAttempts s = 3 \<and> sc_confidenceThreshold s = f_const 70 \<and>
     sc_crossPlatformWeight s = f_const (3 / 10) \<and> sc_consistencyWeight s = f_const (2 / 10)"

lemma base_score_in:
  assumes "components_ok c" and "scorer_const s"
  shows "f_in 0 100 (calculateBaseScore s c)"
  using assms
  by (auto simp: calculateBaseScore_def components_ok_def scorer_const_def f_const_def clip100_in elim!: f_inE)

lemma confidence_in:
  assumes "scorer_const s"
  shows "f_in 0 100 (scorer_calculateConfidence s now rs pm)"
proof -
  obtain h where h: "Duration_Hours (getTimeSpan rs) = Fin h" using Duration_Hours_finite by blast
  obtain l where l: "Duration_Hours (time_Sub now (getLastAttemptTime rs)) = Fin l" using Duration_Hours_finite by blast
  have 9: "f_of_int 9 = Fin 9" by (simp add: f_of_int_def rd_numeral_small)
  show ?thesis
    using assms
    by (auto simp: scorer_calculateConfidence_def Let_def scorer_const_def percent_def h l 9 f_const_small f_of_int_def [of "int _"] f_const_def
        fmin_def fmax_def fsub_def clip100_in)
qed

definition score_ok :: "ReproducibilityScore \<Rightarrow> bool" where
  "score_ok sc \<longleftrightarrow> f_in 0 100 (sco_BaseScore sc) \<and> f_in 0 100 (sco_Confidence sc) \<and> components_ok (sco_Components sc) \<and>
     (\<forall>(p, ps) \<in> set (sco_PlatformScores sc). f_in 0 100 (pls_SuccessRate ps)) \<and>
     (sco_Status sc = ReproducibilityStatusUnknown \<longleftrightarrow> sco_Metadata sc = None) \<and>
     (sco_Status sc = ReproducibilityStatusConfirmed \<longrightarrow> fle (Fin 80) (sco_BaseScore sc) \<and> fle (Fin 70) (sco_Confidence sc))"

lemma empty_score_ok: "score_ok (empty_score i t)"
  by (simp add: score_ok_def empty_score_def no_components_def components_ok_def)

lemma score_results_ok:
  assumes "orders_ok ord" and "results_ok rs" and "rs \<noteq> []" and "scorer_const s"
  shows "score_ok (score_results s ord clk i rs)"
proof -
  note c = calculateComponents_ok [OF assms(1-3)]
  obtain q where q: "scorer_calculateConfidence s (clk 1) rs (calculatePlatformScores rs) = Fin q" "0 \<le> q" "q \<le> 100"
    using f_inE [OF confidence_in [OF assms(4), of "clk 1" rs "calculatePlatformScores rs"]] by blast
  have "sco_Status (score_results s ord clk i rs) \<noteq> ReproducibilityStatusUnknown"
    by (simp add: score_results_def Let_def determineStatus_def)
  moreover have "sco_Status (score_results s ord clk i rs) = ReproducibilityStatusConfirmed \<longrightarrow>
      fle (Fin 80) (sco_BaseScore (score_results s ord clk i rs)) \<and> fle (Fin 70) (Fin q)"
    using assms(4) q(1) by (simp add: score_results_def Let_def determineStatus_def scorer_const_def f_const_small)
  ultimately show ?thesis
    using c base_score_in [OF c assms(4)] q platform_scores_in
    by (auto simp: score_ok_def score_results_def Let_def)
qed

lemma CalculateScore_cases:
  "CalculateScore get ord clk i (s, st) =
     (case cached_score (clk 0) i s of Some c \<Rightarrow> (Inr c, (s, st)) | None \<Rightarrow> (case get i st of
        (Inl e, st1) \<Rightarrow> (Inl (WrapError ''failed to get reproduction results: '' e), (s, st1))
      | (Inr rs, st1) \<Rightarrow> if rs = [] then (Inr (empty_score i (clk 1)), (s, st1))
          else (Inr (score_results s ord clk i rs), (s\<lparr>sc_scoreCache := (sc_scoreCache s)(i \<mapsto> score_results s ord clk i rs)\<rparr>, st1))))"
  by (auto simp: CalculateScore_def Let_def split: option.splits prod.splits sum.splits)

text \<open>
  The scorers that arise from the fresh one by calls on a store whose results are well-formed. A call
  sees only the answer of the store, so the state of the store is left out.
\<close>

inductive scorer_reach :: "reproducibilityScorer \<Rightarrow> bool" where
  fresh: "scorer_reach NewReproducibilityScorer"
| call: "scorer_reach s \<Longrightarrow> orders_ok ord \<Longrightarrow> (\<And>rs. answer = Inr rs \<Longrightarrow> results_ok rs) \<Longrightarrow>
    CalculateScore (\<lambda>_ _. (answer, ())) ord clk i (s, ()) = (res, (s', ())) \<Longrightarrow> scorer_reach s'"

lemma CalculateScore_ok:
  assumes call: "CalculateScore get ord clk i (s, st) = (res, (s', st'))" and "orders_ok ord"
    and get: "\<forall>rs st1. get i st = (Inr rs, st1) \<longrightarrow> results_ok rs"
    and "scorer_const s" and cache: "\<And>i sc. sc_scoreCache s i = Some sc \<Longrightarrow> score_ok sc"
  shows "scorer_const s' \<and> (\<forall>i sc. sc_scoreCache s' i = Some sc \<longrightarrow> score_ok sc) \<and> (\<forall>sc. res = Inr sc \<longrightarrow> score_ok sc)"
proof (cases "cached_score (clk 0) i s")
  case None
  obtain r st1 where g: "get i st = (r, st1)" by fastforce
  show ?thesis
  proof (cases "\<exists>rs. r = Inr rs \<and> rs \<noteq> []")
    case True
    then obtain rs where rs: "r = Inr rs" "rs \<noteq> []" by blast
    have ok: "score_ok (score_results s ord clk i rs)" using assms(2,4) get g rs by (intro score_results_ok) auto
    show ?thesis using call None g rs ok assms(4) cache by (auto simp: CalculateScore_cases scorer_const_def split: if_splits)
  next
    case False
    then show ?thesis using call None g assms(4) cache empty_score_ok
      by (auto simp: CalculateScore_cases split: if_splits sum.splits)
  qed
next
  case (Some c)
  then have "score_ok c" using cache by (auto simp: cached_score_def split: option.splits if_splits)
  then show ?thesis using call Some assms(4) cache by (auto simp: CalculateScore_cases)
qed

lemma scorer_reach_ok: "scorer_reach s \<Longrightarrow> scorer_const s \<and> (\<forall>i sc. sc_scoreCache s i = Some sc \<longrightarrow> score_ok sc)"
proof (induction rule: scorer_reach.induct)
  case fresh
  show ?case by (simp add: NewReproducibilityScorer_def scorer_const_def)
next
  case (call s ord answer clk i res s')
  have "\<forall>rs st1. (answer, ()) = (Inr rs, st1) \<longrightarrow> results_ok rs" using call.hyps(3) by simp
  from CalculateScore_ok [OF call.hyps(4,2) this] show ?case using call.IH by blast
qed

section \<open>Properties\<close>

text \<open>C32: Every score that a scorer computes or keeps in its cache is in range: the base score, the
  confidence, the five components and the success rates of the platforms are numbers from 0 to 100, never
  infinite or undefined, however the rounding goes and in whatever order maps are ranged over; a crash is
  confirmed only with a score of at least 80 and a confidence of at least 70.\<close>

theorem scores_in_range:
  assumes "scorer_reach s" and "orders_ok ord" and get: "\<forall>rs st1. get i st = (Inr rs, st1) \<longrightarrow> results_ok rs"
    and call: "CalculateScore get ord clk i (s, st) = (Inr sc, (s', st'))"
  shows "score_ok sc \<and> (\<forall>j c. sc_scoreCache s' j = Some c \<longrightarrow> score_ok c)"
  using CalculateScore_ok [OF call assms(2) get] scorer_reach_ok [OF assms(1)] by blast

definition sample_attempt :: "string \<Rightarrow> bool \<Rightarrow> time \<Rightarrow> ReproductionResult" where
  "sample_attempt os ok t = \<lparr>rr_ID = ''r'', rr_RequestID = ''q'', rr_CrashID = ''c1'', rr_BotID = ''b1'', rr_AttemptNumber = 1,
     rr_Status = ReproducibilityStatusTesting, rr_Reproduced = ok, rr_ExecutionTime = 3 * Second, rr_Signal = 11, rr_ExitCode = -1,
     rr_Output = '''', rr_StackTrace = '''', rr_StackHash = ''abc'', rr_MatchesOriginal = ok,
     rr_EnvironmentInfo = [(''os'', os), (''arch'', ''amd64'')], rr_Timestamp = t\<rparr>"

theorem scores_in_range_witness:
  "\<exists>sc s'. CalculateScore (\<lambda>_ _. (Inr [sample_attempt ''linux'' True 0, sample_attempt ''darwin'' False 7], ())) (id, id) (\<lambda>_. 9) ''c1''
     (NewReproducibilityScorer, ()) = (Inr sc, (s', ())) \<and> score_ok sc"
proof -
  let ?get = "\<lambda>_ _. (Inr [sample_attempt ''linux'' True 0, sample_attempt ''darwin'' False 7], ())"
  have c: "cached_score 9 ''c1'' NewReproducibilityScorer = None" by (simp add: cached_score_def NewReproducibilityScorer_def)
  obtain sc s' where call: "CalculateScore ?get (id, id) (\<lambda>_. 9) ''c1'' (NewReproducibilityScorer, ()) = (Inr sc, (s', ()))"
    by (simp add: CalculateScore_cases c)
  have "\<forall>rs st1. ?get ''c1'' () = (Inr rs, st1) \<longrightarrow> results_ok rs"
    by (simp add: results_ok_def sample_attempt_def Second_def)
  from scores_in_range [OF scorer_reach.fresh _ this call] show ?thesis using call by (auto simp: orders_ok_def)
qed

section \<open>The weights\<close>

definition components_le :: "ScoreComponents \<Rightarrow> ScoreComponents \<Rightarrow> bool" where
  "components_le c d \<longleftrightarrow> fle (co_ReproductionRate c) (co_ReproductionRate d) \<and> fle (co_ConsistencyScore c) (co_ConsistencyScore d) \<and>
     fle (co_TimeReliability c) (co_TimeReliability d) \<and> fle (co_CrossPlatformScore c) (co_CrossPlatformScore d) \<and>
     fle (co_EnvironmentStability c) (co_EnvironmentStability d)"

lemma base_score_mono:
  assumes "components_ok c" "components_ok d" "components_le c d" "scorer_const s"
  shows "fle (calculateBaseScore s c) (calculateBaseScore s d)"
proof -
  have w: "0 \<le> rd (4 / 10)" "0 \<le> rd (3 / 10)" "0 \<le> rd (2 / 10)" "0 \<le> rd (1 / 10)" by (rule rd_ge_0, simp)+
  show ?thesis
    using assms unfolding calculateBaseScore_def components_ok_def components_le_def scorer_const_def f_const_def
    by (elim conjE f_inE)
      (simp only: fmul.simps fadd.simps clip100_in fle_Fin, intro max.mono min.mono rd_mono add_mono mult_right_mono order_refl w)
qed

definition one_platform_components :: ScoreComponents where
  "one_platform_components = \<lparr>co_ReproductionRate = Fin 100, co_ConsistencyScore = Fin 100, co_TimeReliability = Fin 91,
     co_CrossPlatformScore = fmul (Fin 100) (f_const (7 / 10)), co_EnvironmentStability = Fin 100\<rparr>"

lemma one_platform_score: "calculateBaseScore NewReproducibilityScorer one_platform_components = Fin 100"
proof -
  define a where "a = rd (100 * rd (4 / 10))"
  define b where "b = rd (100 * rd (2 / 10))"
  define c where "c = rd (91 * rd (1 / 10))"
  define x where "x = rd (100 * rd (7 / 10))"
  define d where "d = rd (x * rd (3 / 10))"
  define e where "e = rd (100 * rd (1 / 10))"
  have w: "39999 / 100000 \<le> rd (4 / 10)" "19999 / 100000 \<le> rd (2 / 10)" "9999 / 100000 \<le> rd (1 / 10)"
      "69999 / 100000 \<le> rd (7 / 10)" "29999 / 100000 \<le> rd (3 / 10)"
    by (rule rd_ge [OF order_refl]; simp)+
  have a: "3999 / 100 \<le> a" unfolding a_def by (rule rd_ge [of "39999 / 1000"]) (use w in simp_all)
  have b: "1999 / 100 \<le> b" unfolding b_def by (rule rd_ge [of "19999 / 1000"]) (use w in simp_all)
  have c: "909 / 100 \<le> c" unfolding c_def by (rule rd_ge [of "9099 / 1000"]) (use w in simp_all)
  have x: "6999 / 100 \<le> x" unfolding x_def by (rule rd_ge [of "69999 / 1000"]) (use w in simp_all)
  have "6999 / 100 * (29999 / 100000) \<le> x * rd (3 / 10)" using x w by (intro mult_mono) simp_all
  then have d: "2098 / 100 \<le> d" unfolding d_def by (rule rd_ge) simp_all
  have e: "999 / 100 \<le> e" unfolding e_def by (rule rd_ge [of "9999 / 1000"]) (use w in simp_all)
  have s1: "5997 / 100 \<le> rd (a + b)" by (rule rd_ge [of "5998 / 100"]) (use a b in simp_all)
  have s2: "6905 / 100 \<le> rd (rd (a + b) + c)" by (rule rd_ge [of "6906 / 100"]) (use s1 c in simp_all)
  have s3: "9002 / 100 \<le> rd (rd (rd (a + b) + c) + d)" by (rule rd_ge [of "9003 / 100"]) (use s2 d in simp_all)
  have "100 \<le> rd (rd (rd (rd (a + b) + c) + d) + e)" by (rule rd_ge [of "10001 / 100"]) (use s3 e in simp_all)
  moreover have "calculateBaseScore NewReproducibilityScorer one_platform_components = clip100 (Fin (rd (rd (rd (rd (a + b) + c) + d) + e)))"
    unfolding calculateBaseScore_def NewReproducibilityScorer_def one_platform_components_def f_const_def a_def b_def c_def d_def e_def x_def by simp
  ultimately show ?thesis by (simp add: clip100_in)
qed

lemma one_platform_components_ok: "components_ok one_platform_components"
proof -
  have "0 \<le> rd (100 * rd (7 / 10))" "rd (100 * rd (7 / 10)) \<le> 100" using rd_le_1 [of "7 / 10"] rd_mono [of "100 * rd (7 / 10)" 100] by simp_all
  then show ?thesis by (simp add: components_ok_def one_platform_components_def f_const_def)
qed

lemma base_score_const: "scorer_const s \<Longrightarrow> calculateBaseScore s c = calculateBaseScore NewReproducibilityScorer c"
  by (simp add: calculateBaseScore_def scorer_const_def NewReproducibilityScorer_def)

lemma hash_counts_single:
  "(\<And>r. r \<in> set rs \<Longrightarrow> rr_Reproduced r \<and> rr_StackHash r = h) \<Longrightarrow> h \<noteq> '''' \<Longrightarrow> rs \<noteq> [] \<Longrightarrow> hash_counts rs = [(h, int (length rs))]"
proof (induction rs rule: rev_induct)
  case (snoc r rs)
  then show ?case by (cases "rs = []") (auto simp: hash_counts_def)
qed simp

lemma consistency_full:
  "(\<And>r. r \<in> set rs \<Longrightarrow> rr_Reproduced r \<and> rr_StackHash r = h) \<Longrightarrow> h \<noteq> '''' \<Longrightarrow> calculateConsistencyScore rs = Fin 100"
proof -
  assume a: "\<And>r. r \<in> set rs \<Longrightarrow> rr_Reproduced r \<and> rr_StackHash r = h" "h \<noteq> ''''"
  show ?thesis
  proof (cases "length rs < 2")
    case False
    then have ne: "rs \<noteq> []" by auto
    have "count_where rr_Reproduced rs = int (length rs)" using a(1) by (intro count_where_all) blast
    then show ?thesis using False ne hash_counts_single [OF a ne] percent_all [of "int (length rs)"]
      by (simp add: calculateConsistencyScore_def Let_def)
  qed (simp add: calculateConsistencyScore_def f_const_small)
qed

lemma transitions_same: "(\<And>b. b \<in> set bs \<Longrightarrow> b = c) \<Longrightarrow> transitions bs = 0"
  by (induction bs rule: transitions.induct) auto

lemma bot_results_same:
  assumes "\<And>r. r \<in> set rs \<Longrightarrow> succeeded r = c" and "(k, bs) \<in> set (bot_results rs)"
  shows "\<forall>b \<in> set bs. b = c"
  using assms(2) unfolding bot_results_def
  by (rule groups_all [rotated 3]) (auto simp: assms(1))

lemma environment_same:
  assumes "\<And>r. r \<in> set rs \<Longrightarrow> succeeded r = c" and "set (ordB (bot_results rs)) = set (bot_results rs)"
    and "length (ordB (bot_results rs)) < 2 ^ 53"
  shows "calculateEnvironmentStability ordB rs = Fin 100"
proof -
  define bss where "bss = filter (\<lambda>bs. \<not> length bs < 2) (map snd (ordB (bot_results rs)))"
  have one: "bot_consistency bs = Fin 1" if bs: "bs \<in> set bss" for bs
  proof -
    obtain k where k: "(k, bs) \<in> set (bot_results rs)" "2 \<le> length bs" using bs assms(2) by (auto simp: bss_def)
    have "\<forall>b \<in> set bs. b = c" by (rule bot_results_same [OF assms(1) k(1)])
    then show ?thesis using rd_pos_iff [of "of_int (int (length bs) - 1)"] k(2)
      by (simp add: bot_consistency_def transitions_same [of bs c] f_of_int_def fsub_def)
  qed
  have sum: "fold (\<lambda>x s. fadd s x) xs (Fin (of_nat k)) = Fin (of_nat (k + length xs))"
    if "\<And>x. x \<in> set xs \<Longrightarrow> x = Fin 1" "k + length xs < 2 ^ 53" for xs k
    using that
  proof (induction xs arbitrary: k)
    case (Cons x xs)
    have "rd (of_nat k + 1) = of_nat (Suc k)" using rd_int [of "int (Suc k)"] Cons.prems(2) by (simp add: add.commute)
    moreover have "x = Fin 1" using Cons.prems(1) by simp
    moreover have "fold (\<lambda>x s. fadd s x) xs (Fin (of_nat (Suc k))) = Fin (of_nat (Suc k + length xs))"
      using Cons.prems by (intro Cons.IH) auto
    ultimately show ?case by simp
  qed simp
  have l: "length bss < 2 ^ 53"
    using assms(3) order.strict_trans1 [OF length_filter_le] unfolding bss_def by (metis length_map)
  have fs: "fsum (map bot_consistency bss) = Fin (of_nat (length bss))"
    using sum [of "map bot_consistency bss" 0] one l by (auto simp: fsum_def)
  have n: "f_of_int (int (length bss)) = Fin (of_nat (length bss))" using f_of_int_small [of "int (length bss)"] l by simp
  show ?thesis using fs n
    by (cases "bss = []") (simp_all add: calculateEnvironmentStability_def bss_def [symmetric] f_const_small)
qed

lemma platforms_card: "length (calculatePlatformScores rs) = card ((\<lambda>r. getPlatformKey (rr_EnvironmentInfo r)) ` set rs)"
  unfolding calculatePlatformScores_def group_platforms_def Let_def length_map by (rule groups_card)

text \<open>The number of successes on a single platform.\<close>

lemma group_single:
  assumes "\<And>r. r \<in> set rs \<Longrightarrow> getPlatformKey (rr_EnvironmentInfo r) = p" and "rs \<noteq> []"
  shows "\<exists>ps. group_platforms rs = [(p, ps)] \<and> pls_Attempts ps = int (length rs) \<and> pls_Successes ps = count_where succeeded rs"
  using assms
proof (induction rs rule: rev_induct)
  case (snoc r rs)
  show ?case
  proof (cases "rs = []")
    case True
    then show ?thesis using snoc.prems by (simp add: group_platforms_def count_attempt_def new_platform_def count_where_def Let_def)
  next
    case False
    then obtain ps where "group_platforms rs = [(p, ps)]" "pls_Attempts ps = int (length rs)" "pls_Successes ps = count_where succeeded rs"
      using snoc by auto
    then show ?thesis using snoc.prems
      by (simp add: group_platforms_def count_attempt_def count_where_snoc Let_def)
  qed
qed simp

text \<open>The weights of the components add up to 1.1: a crash whose attempts all succeeded with the same stack on
  one single platform gets the full score of 100 as soon as its timing is 91 percent reliable. The 30 percent
  penalty for a single platform has no effect on it.\<close>

theorem single_platform_penalty_void:
  assumes "rs \<noteq> []" and "results_ok rs" and "orders_ok ord" and "scorer_const s"
    and "\<forall>r \<in> set rs. rr_Reproduced r \<and> rr_MatchesOriginal r \<and> rr_StackHash r = h \<and> getPlatformKey (rr_EnvironmentInfo r) = p" and "h \<noteq> ''''"
    and "fle (Fin 91) (co_TimeReliability (sco_Components (score_results s ord clk i rs)))"
  shows "sco_BaseScore (score_results s ord clk i rs) = Fin 100"
proof -
  let ?c = "calculateComponents ord rs (calculatePlatformScores rs)"
  have su: "succeeded r = True" if "r \<in> set rs" for r using assms(5) that by (simp add: succeeded_def)
  obtain ps where g: "group_platforms rs = [(p, ps)]" "pls_Attempts ps = int (length rs)" "pls_Successes ps = count_where succeeded rs"
    using group_single [of rs p] assms(1,5) by auto
  have all: "count_where succeeded rs = int (length rs)" using su by (intro count_where_all) simp
  have full: "percent (int (length rs)) (int (length rs)) = Fin 100" using assms(1) by (simp add: percent_all)
  have "co_CrossPlatformScore ?c = fmul (Fin 100) (f_const (7 / 10))"
    using g all full by (simp add: calculateComponents_def calculateCrossPlatformScore_def calculatePlatformScores_def set_rate_def)
  moreover have "co_ConsistencyScore ?c = Fin 100"
    using assms(5,6) by (simp add: calculateComponents_def consistency_full [where h = h])
  moreover have "mset (snd ord (bot_results rs)) = mset (bot_results rs)" using assms(3) by (simp add: orders_ok_def)
  then have "set (snd ord (bot_results rs)) = set (bot_results rs)" "length (snd ord (bot_results rs)) = length (bot_results rs)"
    by (metis set_mset_mset, metis size_mset)
  then have "co_EnvironmentStability ?c = Fin 100"
    using bot_results_length [of rs] assms(2) environment_same [OF su] by (simp add: calculateComponents_def results_ok_def)
  ultimately have le: "components_le one_platform_components ?c"
    using assms(7) all full by (simp add: components_le_def one_platform_components_def calculateComponents_def score_results_def Let_def f_const_def)
  have ok: "components_ok ?c" using assms by (intro calculateComponents_ok)
  have "fle (Fin 100) (calculateBaseScore s ?c)"
    using base_score_mono [OF one_platform_components_ok ok le assms(4)] one_platform_score base_score_const [OF assms(4)] by simp
  then show ?thesis using base_score_in [OF ok assms(4)] by (auto simp: score_results_def Let_def elim!: f_inE)
qed

theorem single_platform_penalty_void_witness:
  "sco_BaseScore (score_results NewReproducibilityScorer (id, id) (\<lambda>_. 9) ''c1'' [sample_attempt ''linux'' True 0, sample_attempt ''linux'' True 7]) = Fin 100"
proof (rule single_platform_penalty_void [where h = "''abc''" and p = "''linux/amd64''"])
  show "scorer_const NewReproducibilityScorer" by (simp add: scorer_const_def NewReproducibilityScorer_def)
  show "fle (Fin 91) (co_TimeReliability (sco_Components (score_results NewReproducibilityScorer (id, id) (\<lambda>_. 9) ''c1''
      [sample_attempt ''linux'' True 0, sample_attempt ''linux'' True 7])))"
  proof -
    have "Duration_Seconds (3 * Second) = Fin 3"
      by (simp add: Duration_Seconds_def Duration_in_def Second_def tquot_def f_of_int_def rd_numeral_small Let_def)
    moreover have "calculateTimeReliability [Fin 3, Fin 3] = Fin 100"
      by (simp add: calculateTimeReliability_def fsum_def f_const_small rd_numeral_small Let_def fsub_def fmax_def)
    ultimately show ?thesis by (simp add: score_results_def Let_def calculateComponents_def sample_attempt_def)
  qed
qed (simp_all add: results_ok_def sample_attempt_def Second_def orders_ok_def getPlatformKey_def env_get_def)

section \<open>The confidence\<close>

lemma fmul_le: "fle x (Fin a) \<Longrightarrow> x = Fin q \<Longrightarrow> 0 \<le> c \<Longrightarrow> fmul x (Fin c) = Fin (rd (q * c)) \<and> rd (q * c) \<le> rd (a * c)"
  by (auto intro!: rd_mono mult_right_mono)

text \<open>The confidence grows with its four parts.\<close>

lemma confidence_sum_mono:
  assumes "a \<le> a'" "b \<le> b'" "c \<le> c'" "d \<le> d'"
  shows "fle (clip100 (fadd (fadd (fadd (fmul (Fin a) (f_const (3 / 10))) (fmul (Fin b) (f_const (3 / 10)))) (fmul (Fin c) (f_const (2 / 10)))) (fmul (Fin d) (f_const (2 / 10)))))
    (clip100 (fadd (fadd (fadd (fmul (Fin a') (f_const (3 / 10))) (fmul (Fin b') (f_const (3 / 10)))) (fmul (Fin c') (f_const (2 / 10)))) (fmul (Fin d') (f_const (2 / 10)))))"
proof -
  have w: "0 \<le> rd (3 / 10)" "0 \<le> rd (2 / 10)" by (rule rd_ge_0, simp)+
  show ?thesis unfolding f_const_def
    by (simp only: fmul.simps fadd.simps clip100_in fle_Fin, intro max.mono min.mono rd_mono add_mono mult_right_mono order_refl w assms)
qed

definition confidence_limit :: "rat \<Rightarrow> rat \<Rightarrow> rat" where
  "confidence_limit p r = rd (rd (rd (rd (100 * rd (3 / 10)) + rd (p * rd (3 / 10))) + rd (100 * rd (2 / 10))) + rd (r * rd (2 / 10)))"

lemma low_confidence:
  assumes "0 \<le> p" "0 \<le> r" and limit: "p \<le> 333301 / 10000 \<and> r \<le> 48 \<or> p \<le> 666602 / 10000 \<and> r \<le> 0"
  shows "confidence_limit p r < 70"
proof -
  have w: "rd (3 / 10) \<le> 3000003 / 10000000" "rd (2 / 10) \<le> 2000002 / 10000000" "0 \<le> rd (3 / 10)" "0 \<le> rd (2 / 10)"
    by (rule rd_le [OF order_refl]; simp) (rule rd_le [OF order_refl]; simp | rule rd_ge_0; simp)+
  have a: "rd (100 * rd (3 / 10)) \<le> 300001 / 10000" by (rule rd_le [of _ "3000003 / 100000"]) (use w in simp_all)
  have c: "rd (100 * rd (2 / 10)) \<le> 200001 / 10000" by (rule rd_le [of _ "2000002 / 100000"]) (use w in simp_all)
  have bd: "rd (p * rd (3 / 10)) \<le> 99991 / 10000 \<and> rd (r * rd (2 / 10)) \<le> 96001 / 10000 \<or>
      rd (p * rd (3 / 10)) \<le> 1999816 / 100000 \<and> rd (r * rd (2 / 10)) \<le> 0"
    using limit
  proof (elim disjE conjE)
    assume pr: "p \<le> 333301 / 10000" "r \<le> 48"
    have m: "p * rd (3 / 10) \<le> 333301 / 10000 * (3000003 / 10000000)" "r * rd (2 / 10) \<le> 48 * (2000002 / 10000000)"
      using pr w assms by (intro mult_mono; simp)+
    have "rd (p * rd (3 / 10)) \<le> 99991 / 10000" by (rule rd_le [OF m(1)]) simp_all
    moreover have "rd (r * rd (2 / 10)) \<le> 96001 / 10000" by (rule rd_le [OF m(2)]) simp_all
    ultimately show ?thesis by blast
  next
    assume pr: "p \<le> 666602 / 10000" "r \<le> 0"
    have "p * rd (3 / 10) \<le> 666602 / 10000 * (3000003 / 10000000)" using pr w assms by (intro mult_mono; simp)+
    then have "rd (p * rd (3 / 10)) \<le> 1999816 / 100000" by (rule rd_le; simp)+
    moreover have "r = 0" using pr assms by simp
    ultimately show ?thesis by simp
  qed
  then have "confidence_limit p r \<le> 699995 / 10000"
    unfolding confidence_limit_def
  proof (elim disjE conjE)
    assume b: "rd (p * rd (3 / 10)) \<le> 99991 / 10000" and d: "rd (r * rd (2 / 10)) \<le> 96001 / 10000"
    have s1: "rd (rd (100 * rd (3 / 10)) + rd (p * rd (3 / 10))) \<le> 40001 / 1000" by (rule rd_le [of _ "399992 / 10000"]) (use a b in simp_all)
    have s2: "rd (rd (rd (100 * rd (3 / 10)) + rd (p * rd (3 / 10))) + rd (100 * rd (2 / 10))) \<le> 60002 / 1000"
      by (rule rd_le [of _ "600011 / 10000"]) (use s1 c in simp_all)
    show "rd (rd (rd (rd (100 * rd (3 / 10)) + rd (p * rd (3 / 10))) + rd (100 * rd (2 / 10))) + rd (r * rd (2 / 10))) \<le> 699995 / 10000"
      by (rule rd_le [of _ "69603 / 1000"]) (use s2 d in simp_all)
  next
    assume b: "rd (p * rd (3 / 10)) \<le> 1999816 / 100000" and d: "rd (r * rd (2 / 10)) \<le> 0"
    have s1: "rd (rd (100 * rd (3 / 10)) + rd (p * rd (3 / 10))) \<le> 4999835 / 100000" by (rule rd_le [of _ "4999826 / 100000"]) (use a b in simp_all)
    have s2: "rd (rd (rd (100 * rd (3 / 10)) + rd (p * rd (3 / 10))) + rd (100 * rd (2 / 10))) \<le> 6999860 / 100000"
      by (rule rd_le [of _ "6999845 / 100000"]) (use s1 c in simp_all)
    show "rd (rd (rd (rd (100 * rd (3 / 10)) + rd (p * rd (3 / 10))) + rd (100 * rd (2 / 10))) + rd (r * rd (2 / 10))) \<le> 699995 / 10000"
      by (rule rd_le [of _ "6999860 / 100000"]) (use s2 d in simp_all)
  qed
  then show ?thesis by simp
qed

lemma fmin_100_le: "\<exists>q. fmin (Fin 100) (Fin x) = Fin q \<and> q \<le> 100 \<and> q \<le> x"
  by (simp add: fmin_def)

lemma confidence_bound:
  assumes s: "scorer_const s" and rs: "rs \<noteq> []" and pm: "length pm \<le> n" "n \<le> 100"
    and k: "0 \<le> k" "k \<le> 50" and old: "k * Hour \<le> time_Sub now (getLastAttemptTime rs)"
  shows "fle (scorer_calculateConfidence s now rs pm) (clip100 (Fin (confidence_limit (rd (of_nat n * rd (3333 / 100))) (of_int (100 - 2 * k)))))"
proof -
  obtain h where h: "Duration_Hours (getTimeSpan rs) = Fin h" using Duration_Hours_finite by blast
  obtain l where l: "Duration_Hours (time_Sub now (getLastAttemptTime rs)) = Fin l" "of_int k \<le> l"
    using Duration_Hours_ge [of k "time_Sub now (getLastAttemptTime rs)"] k old by (auto simp: Hour_def)
  have 9: "f_of_int 9 = Fin 9" by (simp add: f_of_int_def rd_numeral_small)
  obtain a where a: "fmin (Fin 100) (percent (int (length rs)) 9) = Fin a" "a \<le> 100"
    using fmin_100_le by (auto simp: percent_def 9 f_const_small f_of_int_def [of "int _"])
  obtain b where b: "fmin (Fin 100) (fmul (f_of_int (int (length pm))) (f_const (3333 / 100))) = Fin b" "b \<le> rd (of_nat n * rd (3333 / 100))"
  proof -
    have len: "f_of_int (int (length pm)) = Fin (of_nat (length pm))" using f_of_int_small [of "int (length pm)"] pm by simp
    have r: "0 \<le> rd (3333 / 100)" by simp
    have "rd (of_nat (length pm) * rd (3333 / 100)) \<le> rd (of_nat n * rd (3333 / 100))"
      using pm r by (intro rd_mono mult_right_mono) simp_all
    then show ?thesis using that fmin_100_le [of "rd (of_nat (length pm) * rd (3333 / 100))"]
      by (auto simp: len f_const_def)
  qed
  obtain c where c: "fmin (Fin 100) (fmul (fdiv (Fin h) (Fin 24)) (Fin 20)) = Fin c" "c \<le> 100"
    using fmin_100_le by auto
  obtain d where d: "fmax (Fin 0) (fsub (Fin 100) (fmul (Fin l) (Fin 2))) = Fin d" "d \<le> of_int (100 - 2 * k)"
  proof -
    have "rd (of_int (2 * k)) = of_int (2 * k)" using k by (intro rd_int) simp
    then have "of_int (2 * k) \<le> rd (l * 2)" using rd_mono [of "of_int (2 * k)" "l * 2"] l by simp
    then have "rd (100 - rd (l * 2)) \<le> rd (of_int (100 - 2 * k))" by (intro rd_mono) simp
    also have "\<dots> = of_int (100 - 2 * k)" using k by (intro rd_int) simp
    finally have le: "rd (100 - rd (l * 2)) \<le> of_int (100 - 2 * k)" .
    show ?thesis
    proof (rule that)
      show "fmax (Fin 0) (fsub (Fin 100) (fmul (Fin l) (Fin 2))) = Fin (max 0 (rd (100 - rd (l * 2))))"
        by (simp add: fmax_def fsub_def max_def)
      show "max 0 (rd (100 - rd (l * 2))) \<le> of_int (100 - 2 * k)" using le k by simp
    qed
  qed
  have "scorer_calculateConfidence s now rs pm = clip100 (fadd (fadd (fadd (fmul (Fin a) (f_const (3 / 10))) (fmul (Fin b) (f_const (3 / 10))))
      (fmul (Fin c) (f_const (2 / 10)))) (fmul (Fin d) (f_const (2 / 10))))"
    using s rs by (simp only: scorer_calculateConfidence_def Let_def scorer_const_def h l a b c d f_const_small if_True) (simp add: a b c d)
  then show ?thesis using confidence_sum_mono [OF a(2) b(2) c(2) d(2)] by (simp add: confidence_limit_def f_const_def)
qed



section \<open>Trends\<close>

lemma rises_snoc: "rises lt (xs @ [a, b]) = rises lt (xs @ [a]) + (if lt a b then 1 else 0)"
proof (induction xs)
  case (Cons x xs)
  then show ?case by (cases xs) auto
qed simp

lemma rises_rev: "rises lt (rev xs) = rises (\<lambda>a b. lt b a) xs"
proof (induction "\<lambda>a b. lt b a" xs rule: rises.induct)
  case (1 a b xs)
  then show ?case using rises_snoc [of lt "rev xs" b a] by simp
qed simp_all

lemma detect_trend_rev:
  "detect_trend (rev xs) = (if detect_trend xs = ''improving'' then ''degrading''
     else if detect_trend xs = ''degrading'' then ''improving'' else ''stable'')"
  by (simp add: detect_trend_def rises_rev Let_def)

text \<open>The trend of a crash depends on the order in which Go happens to range over a map: the daily rates are compared in that
  order and not in the order of the days, so that ranging in the opposite order turns every improving trend into a degrading one and back.\<close>

theorem trend_is_arbitrary:
  "(ta_trend (trend_of (\<lambda>days. rev (ordD days)) off rs) = ''degrading'') = (ta_trend (trend_of ordD off rs) = ''improving'') \<and>
   (\<exists>rs'. ta_trend (trend_of id off rs') = ''improving'')"
proof
  have "(detect_trend (rev xs) = ''degrading'') = (detect_trend xs = ''improving'')" for xs
    by (simp add: detect_trend_rev)
  then show "(ta_trend (trend_of (\<lambda>days. rev (ordD days)) off rs) = ''degrading'') = (ta_trend (trend_of ordD off rs) = ''improving'')"
    by (simp add: trend_of_def Let_def rev_map [symmetric])
  let ?r = "\<lambda>ok d. (sample_attempt ''linux'' ok (d * Day - off))"
  let ?rs = "[?r False 0, ?r True 1, ?r False 1, ?r True 2]"
  have d: "time_date off (d * Day - off) = day_date d" for d by (simp add: time_date_def day_number_def Day_def)
  have dates: "time_date off (- off) = day_date 0" "time_date off (Day - off) = day_date 1" using d [of 0] d [of 1] by simp_all
  have "day_date 0 = (1970, 1, 1)" "day_date 1 = (1970, 1, 2)" "day_date 2 = (1970, 1, 3)" by code_simp+
  moreover have "pad 2 1 = ''01''" "pad 2 2 = ''02''" "pad 2 3 = ''03''" by code_simp+
  ultimately have dd: "format_day (day_date 0) \<noteq> format_day (day_date 1)" "format_day (day_date 0) \<noteq> format_day (day_date 2)"
      "format_day (day_date 1) \<noteq> format_day (day_date 2)"
    by (simp_all add: format_day_def)
  have "daily_stats off ?rs = [(format_day (day_date 0), 1, 0), (format_day (day_date 1), 2, 1), (format_day (day_date 2), 1, 1)]"
    using dd by (simp add: daily_stats_def d dates sample_attempt_def succeeded_def Let_def)
  moreover have half: "0 < rd (1 / 2)" "rd (1 / 2) < 1" using rd_near [of "1 / 2"] by simp_all
  moreover have "detect_trend [day_rate (1, 0), day_rate (2, 1), day_rate (1, 1)] = ''improving''"
    using half by (simp add: day_rate_def f_const_small detect_trend_def Let_def) (simp add: f_of_int_def)
  ultimately show "\<exists>rs'. ta_trend (trend_of id off rs') = ''improving''"
    by (intro exI [of _ ?rs]) (simp add: trend_of_def Let_def)
qed

end
