(* ===== verification/Repro_Service.thy ===== *)
theory Repro_Service
  imports Repro_Scorer Go_Heap "HOL-Library.Product_Lexorder"
begin

text \<open>
  The reproducibility service of \<open>pkg/service/reproducibility_service.go\<close>: a heap of requests, a channel from
  the queue manager to the workers, and a map with the latest request of each crash.

  Requests are shared: the heap, the channel, the map and the workers hold pointers to them. \<open>rs_mem\<close> is the
  memory they point into, an address is a number below \<open>rs_next\<close>. The channel is the list of the values in
  its buffer. Locks make each method atomic; \<open>queueManager_tick\<close> is one round of the queue manager, \<open>worker_take\<close> and
  \<open>worker_finish\<close> are the two critical sections of a worker, between which other goroutines can run.
\<close>

section \<open>Requests and their heap\<close>

record ReproductionRequest =
  rq_ID :: string
  rq_CrashID :: string
  rq_CampaignID :: string
  rq_JobID :: string
  rq_BotID :: "string option"
  rq_Status :: ReproducibilityStatus
  rq_Priority :: int
  rq_AttemptCount :: int
  rq_MaxAttempts :: int
  rq_RequestedAt :: time
  rq_StartedAt :: "time option"
  rq_CompletedAt :: "time option"
  rq_TimeoutAt :: time

type_synonym rmem = "nat \<Rightarrow> ReproductionRequest"

record reproductionRequest =
  it_req :: nat
  it_index :: int

type_synonym reqHeap = "reproductionRequest list"

definition reqHeap_Less :: "rmem \<Rightarrow> reqHeap \<Rightarrow> nat \<Rightarrow> nat \<Rightarrow> bool" where
  "reqHeap_Less mem h i j =
     (let a = mem (it_req (h ! i)); b = mem (it_req (h ! j))
      in if rq_Priority a \<noteq> rq_Priority b then rq_Priority a > rq_Priority b
         else time_Before (rq_RequestedAt a) (rq_RequestedAt b))"

definition reqHeap_Swap :: "reqHeap \<Rightarrow> nat \<Rightarrow> nat \<Rightarrow> reqHeap" where
  "reqHeap_Swap h i j = (let h1 = swap_list h i j; h2 = h1[i := (h1 ! i)\<lparr>it_index := int i\<rparr>] in h2[j := (h2 ! j)\<lparr>it_index := int j\<rparr>])"

definition reqHeap_Push :: "reqHeap \<Rightarrow> reproductionRequest \<Rightarrow> reqHeap" where
  "reqHeap_Push h item = h @ [item\<lparr>it_index := int (length h)\<rparr>]"

definition reqHeap_Pop :: "reqHeap \<Rightarrow> reproductionRequest \<times> reqHeap" where
  "reqHeap_Pop h = ((last h)\<lparr>it_index := -1\<rparr>, butlast h)"

text \<open>The calls \<open>heap.Push\<close> and \<open>heap.Pop\<close>; the latter panics on an empty heap.\<close>

definition heap_Push_req :: "rmem \<Rightarrow> reqHeap \<Rightarrow> reproductionRequest \<Rightarrow> reqHeap" where
  "heap_Push_req mem h item = heap_up (reqHeap_Less mem) reqHeap_Swap (reqHeap_Push h item) (length h)"

definition heap_Pop_req :: "rmem \<Rightarrow> reqHeap \<Rightarrow> (reproductionRequest \<times> reqHeap) go" where
  "heap_Pop_req mem h = (if h = [] then Panic else Ret (reqHeap_Pop (heap_pop_prep (reqHeap_Less mem) reqHeap_Swap h (length h - 1))))"

section \<open>The service\<close>

text \<open>The fields of a crash that the service reads, and the methods of the storage that it calls.\<close>

record crash_ref =
  crf_CampaignID :: string
  crf_JobID :: string

record 's ReproStorage =
  rst_GetCrash :: "string \<Rightarrow> 's \<Rightarrow> crash_ref option result \<times> 's"
  rst_CreateReproductionResult :: "ReproductionResult \<Rightarrow> 's \<Rightarrow> error option \<times> 's"
  rst_GetReproductionResults :: "'s get_results"

record reproducibilityService =
  rs_scorer :: reproducibilityScorer
  rs_mem :: rmem
  rs_next :: nat
  rs_priorityQueue :: reqHeap
  rs_requestQueue :: "reproductionRequest list"
  rs_closed :: bool
  rs_workers :: nat
  rs_requestStatus :: "(string \<times> nat) list"
  rs_done :: bool

text \<open>\<open>jobExecution\<close> is the timeout of the configuration, \<open>None\<close> a nil configuration.\<close>

definition NewReproducibilityService :: "duration option \<Rightarrow> reproducibilityService" where
  "NewReproducibilityService jobExecution =
     \<lparr>rs_scorer = NewReproducibilityScorer,
      rs_mem = (\<lambda>_. \<lparr>rq_ID = '''', rq_CrashID = '''', rq_CampaignID = '''', rq_JobID = '''', rq_BotID = None, rq_Status = ReproducibilityStatusOther '''',
        rq_Priority = 0, rq_AttemptCount = 0, rq_MaxAttempts = 0, rq_RequestedAt = time_zero, rq_StartedAt = None, rq_CompletedAt = None, rq_TimeoutAt = time_zero\<rparr>),
      rs_next = 0, rs_priorityQueue = [], rs_requestQueue = [], rs_closed = False,
      rs_workers = (case jobExecution of Some d \<Rightarrow> if d > 0 then 10 else 5 | None \<Rightarrow> 5), rs_requestStatus = [], rs_done = False\<rparr>"

definition rs_Start :: "reproducibilityService \<Rightarrow> reproducibilityService" where
  "rs_Start s = s\<lparr>rs_priorityQueue := heap_init (reqHeap_Less (rs_mem s)) reqHeap_Swap (rs_priorityQueue s) (length (rs_priorityQueue s))\<rparr>"

text \<open>Closing a closed channel panics.\<close>

definition rs_Stop :: "reproducibilityService \<Rightarrow> reproducibilityService go" where
  "rs_Stop s = (if rs_done s \<or> rs_closed s then Panic else Ret (s\<lparr>rs_done := True, rs_closed := True\<rparr>))"

definition validation_error :: "string \<Rightarrow> string \<Rightarrow> error" where
  "validation_error op m = PandaFuzzError ErrorTypeValidation op (ErrorString m)"

text \<open>\<open>errors.NewNotFoundError(operation, resource)\<close>\<close>

definition not_found_error :: "string \<Rightarrow> error" where
  "not_found_error resource = ErrorString (resource @ '' not found'')"

definition new_request :: "string \<Rightarrow> (nat \<Rightarrow> time) \<Rightarrow> string \<Rightarrow> crash_ref \<Rightarrow> int \<Rightarrow> ReproductionRequest" where
  "new_request uuid clk crashID crash priority =
     \<lparr>rq_ID = uuid, rq_CrashID = crashID, rq_CampaignID = crf_CampaignID crash, rq_JobID = crf_JobID crash, rq_BotID = None,
      rq_Status = ReproducibilityStatusTesting, rq_Priority = priority, rq_AttemptCount = 0, rq_MaxAttempts = 3, rq_RequestedAt = clk 0,
      rq_StartedAt = None, rq_CompletedAt = None, rq_TimeoutAt = time_Add (clk 1) (30 * Minute)\<rparr>"

definition enqueue_request :: "ReproductionRequest \<Rightarrow> reproducibilityService \<Rightarrow> reproducibilityService" where
  "enqueue_request rq s =
     (let a = rs_next s; mem = (rs_mem s)(a := rq)
      in s\<lparr>rs_mem := mem, rs_next := Suc a, rs_requestStatus := AList.update (rq_CrashID rq) a (rs_requestStatus s),
           rs_priorityQueue := heap_Push_req mem (rs_priorityQueue s) \<lparr>it_req = a, it_index = 0\<rparr>\<rparr>)"

definition QueueReproduction ::
    "'s ReproStorage \<Rightarrow> string \<Rightarrow> (nat \<Rightarrow> time) \<Rightarrow> string \<Rightarrow> int \<Rightarrow> reproducibilityService \<times> 's \<Rightarrow> error option \<times> (reproducibilityService \<times> 's)" where
  "QueueReproduction S uuid clk crashID priority = (\<lambda>(s, st).
     if crashID = '''' then (Some (validation_error ''queue_reproduction'' ''Crash ID is required''), (s, st))
     else case rst_GetCrash S crashID st of
       (Inl e, st1) \<Rightarrow> (Some (WrapError ''failed to get crash: '' e), (s, st1))
     | (Inr None, st1) \<Rightarrow> (Some (not_found_error crashID), (s, st1))
     | (Inr (Some crash), st1) \<Rightarrow> (None, (enqueue_request (new_request uuid clk crashID crash priority) s, st1)))"

fun batch_loop ::
    "'s ReproStorage \<Rightarrow> (nat \<Rightarrow> string) \<Rightarrow> (nat \<Rightarrow> nat \<Rightarrow> time) \<Rightarrow> nat \<Rightarrow> string list \<Rightarrow> int \<Rightarrow> reproducibilityService \<times> 's \<Rightarrow> nat \<times> (reproducibilityService \<times> 's)" where
  "batch_loop S uuid clk i [] priority w = (0, w)"
| "batch_loop S uuid clk i (c # cs) priority w =
     (case QueueReproduction S (uuid i) (clk i) c priority w of
        (Some e, w1) \<Rightarrow> (let (n, w2) = batch_loop S uuid clk (Suc i) cs priority w1 in (Suc n, w2))
      | (None, w1) \<Rightarrow> batch_loop S uuid clk (Suc i) cs priority w1)"

definition QueueBatchReproduction ::
    "'s ReproStorage \<Rightarrow> (nat \<Rightarrow> string) \<Rightarrow> (nat \<Rightarrow> nat \<Rightarrow> time) \<Rightarrow> string list \<Rightarrow> int \<Rightarrow> reproducibilityService \<times> 's \<Rightarrow> error option \<times> (reproducibilityService \<times> 's)" where
  "QueueBatchReproduction S uuid clk crashIDs priority w =
     (let (n, w') = batch_loop S uuid clk 0 crashIDs priority w
      in (if n > 0 then Some (ErrorString (''failed to queue '' @ itoa (int n) @ '' crashes'')) else None, w'))"

definition GetReproductionStatus :: "string \<Rightarrow> reproducibilityService \<Rightarrow> ReproductionRequest result" where
  "GetReproductionStatus crashID s = (case map_of (rs_requestStatus s) crashID of
       Some a \<Rightarrow> Inr (rs_mem s a)
     | None \<Rightarrow> Inl (not_found_error crashID))"

text \<open>The part of \<open>RecordReproductionResult\<close> under the lock, for a request at address \<open>a\<close>; \<open>clk 3\<close> is the completion time.\<close>

definition apply_score :: "ReproducibilityScore result \<Rightarrow> time \<Rightarrow> ReproductionRequest \<Rightarrow> ReproductionRequest" where
  "apply_score res now rq =
     (let rq1 = rq\<lparr>rq_AttemptCount := rq_AttemptCount rq + 1\<rparr>;
          rq2 = (case res of Inr score \<Rightarrow> rq1\<lparr>rq_Status := sco_Status score\<rparr> | Inl _ \<Rightarrow> rq1)
      in if rq_AttemptCount rq2 \<ge> rq_MaxAttempts rq2 \<or> rq_Status rq2 = ReproducibilityStatusConfirmed
         then rq2\<lparr>rq_CompletedAt := Some now\<rparr> else rq2)"

definition RecordReproductionResult ::
    "'s ReproStorage \<Rightarrow> range_orders \<Rightarrow> (nat \<Rightarrow> time) \<Rightarrow> ReproductionResult option \<Rightarrow> reproducibilityService \<times> 's \<Rightarrow> error option \<times> (reproducibilityService \<times> 's)" where
  "RecordReproductionResult S ord clk ro = (\<lambda>(s, st).
     case ro of
       None \<Rightarrow> (Some (validation_error ''record_result'' ''Result is required''), (s, st))
     | Some r \<Rightarrow>
        (case rst_CreateReproductionResult S r st of
           (Some e, st1) \<Rightarrow> (Some (WrapError ''failed to store reproduction result: '' e), (s, st1))
         | (None, st1) \<Rightarrow>
            (case map_of (rs_requestStatus s) (rr_CrashID r) of
               None \<Rightarrow> (None, (s, st1))
             | Some a \<Rightarrow>
                let (res, (sc, st2)) = CalculateScore (rst_GetReproductionResults S) ord clk (rr_CrashID r) (rs_scorer s, st1)
                in (None, (s\<lparr>rs_scorer := sc, rs_mem := (rs_mem s)(a := apply_score res (clk 3) (rs_mem s a))\<rparr>, st2)))))"

definition CalculateReproducibilityScore ::
    "'s ReproStorage \<Rightarrow> range_orders \<Rightarrow> (nat \<Rightarrow> time) \<Rightarrow> string \<Rightarrow> reproducibilityService \<times> 's \<Rightarrow> f64 result \<times> (reproducibilityService \<times> 's)" where
  "CalculateReproducibilityScore S ord clk crashID = (\<lambda>(s, st).
     let (res, (sc, st1)) = CalculateScore (rst_GetReproductionResults S) ord clk crashID (rs_scorer s, st)
     in (map_sum id sco_BaseScore res, (s\<lparr>rs_scorer := sc\<rparr>, st1)))"

definition GetPlatformAnalysis ::
    "'s ReproStorage \<Rightarrow> range_orders \<Rightarrow> (nat \<Rightarrow> time) \<Rightarrow> string \<Rightarrow> reproducibilityService \<times> 's \<Rightarrow> (string \<times> PlatformScore) list result \<times> (reproducibilityService \<times> 's)" where
  "GetPlatformAnalysis S ord clk crashID = (\<lambda>(s, st).
     let (res, (sc, st1)) = CalculateScore (rst_GetReproductionResults S) ord clk crashID (rs_scorer s, st)
     in (map_sum id sco_PlatformScores res, (s\<lparr>rs_scorer := sc\<rparr>, st1)))"

definition rs_VerifyFix ::
    "'s ReproStorage \<Rightarrow> string \<Rightarrow> (nat \<Rightarrow> time) \<Rightarrow> string \<Rightarrow> string \<Rightarrow> reproducibilityService \<times> 's \<Rightarrow> error option \<times> (reproducibilityService \<times> 's)" where
  "rs_VerifyFix S uuid clk crashID fixCommit w =
     (case QueueReproduction S uuid clk crashID 100 w of
        (Some e, w1) \<Rightarrow> (Some (WrapError ''failed to queue fix verification: '' e), w1)
      | (None, w1) \<Rightarrow> (None, w1))"

record QueueStatus =
  qst_work_queue_size :: nat
  qst_priority_queue_size :: nat
  qst_active_requests :: nat
  qst_pending_count :: int
  qst_testing_count :: int
  qst_completed_count :: int
  qst_workers :: nat

definition rs_GetQueueStatus :: "reproducibilityService \<Rightarrow> QueueStatus" where
  "rs_GetQueueStatus s =
     (let sts = map (\<lambda>(c, a). rq_Status (rs_mem s a)) (rs_requestStatus s);
          done = [ReproducibilityStatusConfirmed, ReproducibilityStatusFailed, ReproducibilityStatusFlaky]
      in \<lparr>qst_work_queue_size = length (rs_requestQueue s), qst_priority_queue_size = length (rs_priorityQueue s),
          qst_active_requests = length sts,
          qst_pending_count = count_where (\<lambda>x. x \<noteq> ReproducibilityStatusTesting \<and> x \<notin> set done) sts,
          qst_testing_count = count_where (\<lambda>x. x = ReproducibilityStatusTesting) sts,
          qst_completed_count = count_where (\<lambda>x. x \<in> set done) sts,
          qst_workers = rs_workers s\<rparr>)"

section \<open>The queue manager and the workers\<close>

text \<open>
  One round of \<open>queueManager\<close>. Go evaluates the operand of the send when it enters the \<open>select\<close>, before it knows whether the
  channel can take it: the first \<open>heap.Pop\<close> always happens, and in the default case the value is dropped. Sending on the closed
  channel panics.
\<close>

definition queueManager_tick :: "reproducibilityService \<Rightarrow> reproducibilityService go" where
  "queueManager_tick s =
     (if rs_priorityQueue s = [] then Ret s
      else case heap_Pop_req (rs_mem s) (rs_priorityQueue s) of
        Panic \<Rightarrow> Panic
      | Ret (item, q1) \<Rightarrow>
          if rs_closed s then Panic
          else if length (rs_requestQueue s) < rs_workers s
          then Ret (s\<lparr>rs_priorityQueue := q1, rs_requestQueue := rs_requestQueue s @ [item]\<rparr>)
          else (case heap_Pop_req (rs_mem s) q1 of
                  Panic \<Rightarrow> Panic
                | Ret (item2, q2) \<Rightarrow> Ret (s\<lparr>rs_priorityQueue := heap_Push_req (rs_mem s) q2 item2\<rparr>)))"

text \<open>A worker takes the next request and marks it as started; later it simulates the attempt and records the result.\<close>

definition worker_take :: "time \<Rightarrow> reproducibilityService \<Rightarrow> (nat \<times> reproducibilityService) option" where
  "worker_take now s = (case rs_requestQueue s of
       [] \<Rightarrow> None
     | it # rest \<Rightarrow> let a = it_req it; rq = (rs_mem s a)\<lparr>rq_StartedAt := Some now\<rparr>
         in Some (a, s\<lparr>rs_requestQueue := rest, rs_mem := (rs_mem s)(a := rq),
              rs_requestStatus := AList.update (rq_CrashID rq) a (rs_requestStatus s)\<rparr>))"

definition simulated_result :: "string \<Rightarrow> time \<Rightarrow> ReproductionRequest \<Rightarrow> ReproductionResult" where
  "simulated_result uuid now rq =
     (let k = rq_AttemptCount rq;
          os = (if k mod 3 = 0 then ''darwin'' else if k mod 3 = 1 then ''windows'' else ''linux'');
          arch = (if k mod 3 = 0 then ''arm64'' else ''amd64'');
          reproduced = (k mod 2 = 0 \<or> k mod 3 = 0);
          stackHash = (if reproduced \<and> k mod 4 = 0 then ''def456'' else ''abc123'')
      in \<lparr>rr_ID = uuid, rr_RequestID = rq_ID rq, rr_CrashID = rq_CrashID rq, rr_BotID = ''bot-'' @ os @ ''-'' @ arch,
          rr_AttemptNumber = k + 1, rr_Status = ReproducibilityStatusTesting, rr_Reproduced = reproduced,
          rr_ExecutionTime = (3 + k mod 5) * Second, rr_Signal = 11, rr_ExitCode = -1,
          rr_Output = ''Reproduction output on '' @ os @ ''/'' @ arch,
          rr_StackTrace = ''Stack trace from '' @ os @ ''/'' @ arch @ [CHR 10] @ ''#0 0x1234 in vulnerable_function'' @ [CHR 10] @ ''#1 0x5678 in main'',
          rr_StackHash = stackHash, rr_MatchesOriginal = (reproduced \<and> stackHash = ''abc123''),
          rr_EnvironmentInfo = [(''os'', os), (''arch'', arch), (''fuzzer'', ''libfuzzer''), (''version'', ''1.0.0''), (''compiler'', ''clang-12'')],
          rr_Timestamp = now\<rparr>)"

definition worker_finish ::
    "'s ReproStorage \<Rightarrow> range_orders \<Rightarrow> string \<Rightarrow> (nat \<Rightarrow> time) \<Rightarrow> nat \<Rightarrow> reproducibilityService \<times> 's \<Rightarrow> reproducibilityService \<times> 's" where
  "worker_finish S ord uuid clk a = (\<lambda>(s, st).
     snd (RecordReproductionResult S ord (\<lambda>i. clk (Suc i)) (Some (simulated_result uuid (clk 0) (rs_mem s a))) (s, st)))"

section \<open>The heap\<close>

definition req_key :: "rmem \<Rightarrow> nat \<Rightarrow> int \<times> int" where
  "req_key mem a = (- rq_Priority (mem a), rq_RequestedAt (mem a))"

abbreviation addrs :: "reqHeap \<Rightarrow> nat list" where
  "addrs \<equiv> map it_req"

lemma addrs_Swap: "i < length h \<Longrightarrow> j < length h \<Longrightarrow> addrs (reqHeap_Swap h i j) = swap_list (addrs h) i j"
  by (intro nth_equalityI) (auto simp: reqHeap_Swap_def swap_list_def Let_def nth_list_update)

interpretation req_heap: heap_interface "reqHeap_Less mem" reqHeap_Swap addrs "\<lambda>_. True" "req_key mem" for mem
  by unfold_locales
    (auto simp: addrs_Swap reqHeap_Less_def req_key_def time_Before_def Let_def less_eq_prod_def split: if_splits)

definition queue_ordered :: "rmem \<Rightarrow> reqHeap \<Rightarrow> bool" where
  "queue_ordered mem h \<longleftrightarrow> heap_ordered (req_heap.keys mem h) (length h)"

lemma queue_ordered_Nil [simp]: "queue_ordered mem []"
  by (simp add: queue_ordered_def)

lemma heap_Push_req:
  assumes "queue_ordered mem h"
  shows "queue_ordered mem (heap_Push_req mem h it) \<and> mset (addrs (heap_Push_req mem h it)) = add_mset (it_req it) (mset (addrs h))"
proof -
  let ?h = "reqHeap_Push h it"
  have len: "length (addrs ?h) = Suc (length h)" by (simp add: reqHeap_Push_def)
  have "heap_ordered (req_heap.keys mem ?h) (length h)"
    using assms unfolding queue_ordered_def
    by (rule heap_ordered_cong [rotated]) (simp add: req_heap.keys_def reqHeap_Push_def nth_append)
  from req_heap.push_ordered [OF len _ this]
  have r: "heap_ordered (req_heap.keys mem (heap_Push_req mem h it)) (Suc (length h))" "req_heap.rearranged (Suc (length h)) ?h (heap_Push_req mem h it)"
    by (auto simp: req_heap.oks_def heap_Push_req_def)
  then have m: "mset (addrs (heap_Push_req mem h it)) = mset (addrs ?h)" by (simp add: req_heap.rearranged_def)
  then have "length (heap_Push_req mem h it) = Suc (length h)" using len by (metis length_map size_mset)
  then show ?thesis using r m by (simp add: queue_ordered_def reqHeap_Push_def)
qed

text \<open>\<open>heap.Pop\<close> returns a request that no other one precedes.\<close>

lemma heap_Pop_req:
  assumes "queue_ordered mem h" and "h \<noteq> []"
  obtains it h' where "heap_Pop_req mem h = Ret (it, h')" "mset (addrs h) = add_mset (it_req it) (mset (addrs h'))"
    "queue_ordered mem h'" "\<forall>a \<in> set (addrs h). req_key mem (it_req it) \<le> req_key mem a" "length h = Suc (length h')"
proof -
  obtain n where n: "length h = Suc n" using assms(2) by (cases h) auto
  let ?p = "heap_pop_prep (reqHeap_Less mem) reqHeap_Swap h n"
  have len: "length (addrs h) = Suc n" using n by simp
  have o: "heap_ordered (req_heap.keys mem h) (Suc n)" using assms(1) n by (simp add: queue_ordered_def)
  from req_heap.pop_ordered [OF len _ o]
  have p: "heap_ordered (req_heap.keys mem ?p) n" "mset (addrs ?p) = mset (addrs h)" "addrs ?p ! n = addrs h ! 0"
    by (auto simp: req_heap.oks_def)
  then have lp: "length ?p = Suc n" using n by (metis length_map size_mset)
  then obtain q x where q: "?p = q @ [x]" by (cases ?p rule: rev_cases) auto
  then have lq: "length q = n" using lp by simp
  have "it_req x = addrs h ! 0" using p(3) q lq by (simp add: nth_append)
  have root: "req_key mem (it_req x) \<le> req_key mem a" if "a \<in> set (addrs h)" for a
    using req_heap.root_least [of mem h a] o n that \<open>it_req x = addrs h ! 0\<close> by simp
  have "queue_ordered mem q" unfolding queue_ordered_def lq
    using p(1) by (rule heap_ordered_cong [rotated]) (simp add: q req_heap.keys_def nth_append lq)
  moreover have "mset (addrs h) = add_mset (it_req x) (mset (addrs q))" using p(2) q by simp
  moreover have "heap_Pop_req mem h = Ret (x\<lparr>it_index := -1\<rparr>, q)"
    using assms(2) n q by (simp add: heap_Pop_req_def reqHeap_Pop_def)
  ultimately show ?thesis using that [of "x\<lparr>it_index := -1\<rparr>" q] root n lq by simp
qed

lemma queue_ordered_mem:
  assumes "\<And>a. a \<in> set (addrs h) \<Longrightarrow> req_key mem' a = req_key mem a" and "queue_ordered mem h"
  shows "queue_ordered mem' h"
  using assms(2) unfolding queue_ordered_def
  by (rule heap_ordered_cong [rotated]) (simp add: req_heap.keys_def assms(1))

lemma heap_init_req: "queue_ordered mem h \<Longrightarrow> heap_init (reqHeap_Less mem) reqHeap_Swap h 0 = h"
  by (simp add: heap_init_def)

section \<open>Reachable services\<close>

definition svc_inv :: "reproducibilityService \<Rightarrow> bool" where
  "svc_inv s \<longleftrightarrow> queue_ordered (rs_mem s) (rs_priorityQueue s) \<and> it_req ` set (rs_priorityQueue s) \<subseteq> {..<rs_next s} \<and>
     it_req ` set (rs_requestQueue s) \<subseteq> {..<rs_next s} \<and> snd ` set (rs_requestStatus s) \<subseteq> {..<rs_next s}"

text \<open>
  A service after any calls and steps of its goroutines, in any order. The end of an attempt is a call of
  \<open>RecordReproductionResult\<close>, as is every report from outside.
\<close>

inductive svc_reach :: "'s ReproStorage \<Rightarrow> reproducibilityService \<times> 's \<Rightarrow> bool" for S where
  new: "svc_reach S (rs_Start (NewReproducibilityService cfg), st)"
| queue: "svc_reach S w \<Longrightarrow> QueueReproduction S uuid clk crashID priority w = (e, w') \<Longrightarrow> svc_reach S w'"
| report: "svc_reach S w \<Longrightarrow> RecordReproductionResult S ord clk r w = (e, w') \<Longrightarrow> svc_reach S w'"
| tick: "svc_reach S (s, st) \<Longrightarrow> queueManager_tick s = Ret s' \<Longrightarrow> svc_reach S (s', st)"
| take: "svc_reach S (s, st) \<Longrightarrow> worker_take now s = Some (a, s') \<Longrightarrow> svc_reach S (s', st)"
| stop: "svc_reach S (s, st) \<Longrightarrow> rs_Stop s = Ret s' \<Longrightarrow> svc_reach S (s', st)"
| store: "svc_reach S (s, st) \<Longrightarrow> svc_reach S (s, st')"

lemma set_of_mset: "mset (map f xs) = add_mset a (mset (map f ys)) \<Longrightarrow> f ` set xs = insert a (f ` set ys)"
  by (metis set_mset_add_mset_insert set_mset_mset set_map)

lemma set_AList_update: "v \<in> C \<Longrightarrow> snd ` set xs \<subseteq> C \<Longrightarrow> snd ` set (AList.update k v xs) \<subseteq> C"
  by (induction xs) auto

lemma enqueue_request_inv:
  assumes "svc_inv s"
  shows "svc_inv (enqueue_request rq s)"
proof -
  let ?mem = "(rs_mem s)(rs_next s := rq)"
  have "queue_ordered ?mem (rs_priorityQueue s)"
    using assms by (intro queue_ordered_mem [of _ ?mem "rs_mem s"]) (auto simp: svc_inv_def req_key_def)
  note q = heap_Push_req [OF this, of "\<lparr>it_req = rs_next s, it_index = 0\<rparr>"]
  have "{..<rs_next s} \<subseteq> {..<Suc (rs_next s)}" by auto
  then have sub: "it_req ` set (rs_priorityQueue s) \<subseteq> {..<Suc (rs_next s)}" "it_req ` set (rs_requestQueue s) \<subseteq> {..<Suc (rs_next s)}"
      "snd ` set (rs_requestStatus s) \<subseteq> {..<Suc (rs_next s)}"
    using assms unfolding svc_inv_def by (meson subset_trans)+
  have "snd ` set (AList.update (rq_CrashID rq) (rs_next s) (rs_requestStatus s)) \<subseteq> {..<Suc (rs_next s)}"
    using sub(3) by (intro set_AList_update) simp_all
  moreover have "it_req ` set (heap_Push_req ?mem (rs_priorityQueue s) \<lparr>it_req = rs_next s, it_index = 0\<rparr>) \<subseteq> {..<Suc (rs_next s)}"
    unfolding set_of_mset [OF conjunct2 [OF q]] using sub(1) by simp
  ultimately show ?thesis using q sub(2) by (simp add: svc_inv_def enqueue_request_def Let_def)
qed

lemma apply_score_key [simp]: "rq_Priority (apply_score res t rq) = rq_Priority rq" "rq_RequestedAt (apply_score res t rq) = rq_RequestedAt rq"
  by (auto simp: apply_score_def Let_def split: sum.splits)

lemma svc_inv_mem:
  assumes "svc_inv s" and "req_key (\<lambda>_. rq) a = req_key (rs_mem s) a"
  shows "svc_inv (s\<lparr>rs_mem := (rs_mem s)(a := rq)\<rparr>)"
  using assms queue_ordered_mem [of "rs_priorityQueue s" "(rs_mem s)(a := rq)" "rs_mem s"]
  by (auto simp: svc_inv_def req_key_def)

lemma Record_inv:
  assumes "svc_inv s" and "RecordReproductionResult S ord clk ro (s, st) = (e, (s', st'))"
  shows "svc_inv s'"
proof -
  have "svc_inv (s\<lparr>rs_scorer := sc, rs_mem := (rs_mem s)(a := apply_score res t (rs_mem s a))\<rparr>)" for sc a res t
    using svc_inv_mem [OF assms(1), of "apply_score res t (rs_mem s a)" a] by (simp add: svc_inv_def req_key_def)
  then show ?thesis using assms
    by (auto simp: RecordReproductionResult_def split: option.splits prod.splits)
qed

lemma heap_repush:
  assumes "queue_ordered mem q" "q \<noteq> []"
  obtains it q2 where "heap_Pop_req mem q = Ret (it, q2)" "queue_ordered mem (heap_Push_req mem q2 it)"
    "mset (addrs (heap_Push_req mem q2 it)) = mset (addrs q)"
proof -
  obtain it q2 where p: "heap_Pop_req mem q = Ret (it, q2)" "mset (addrs q) = add_mset (it_req it) (mset (addrs q2))" "queue_ordered mem q2"
    using heap_Pop_req [OF assms] by metis
  then show ?thesis using that heap_Push_req [OF p(3), of it] by simp
qed

text \<open>What a round of the queue manager does, in each situation.\<close>

lemma tick_room:
  assumes "svc_inv s" "rs_priorityQueue s \<noteq> []" "\<not> rs_closed s" "length (rs_requestQueue s) < rs_workers s"
  obtains it q where "queueManager_tick s = Ret (s\<lparr>rs_priorityQueue := q, rs_requestQueue := rs_requestQueue s @ [it]\<rparr>)"
    "mset (addrs (rs_priorityQueue s)) = add_mset (it_req it) (mset (addrs q))" "queue_ordered (rs_mem s) q"
    "\<forall>a \<in> set (addrs (rs_priorityQueue s)). req_key (rs_mem s) (it_req it) \<le> req_key (rs_mem s) a"
proof -
  obtain it q where "heap_Pop_req (rs_mem s) (rs_priorityQueue s) = Ret (it, q)" "mset (addrs (rs_priorityQueue s)) = add_mset (it_req it) (mset (addrs q))"
      "queue_ordered (rs_mem s) q" "\<forall>a \<in> set (addrs (rs_priorityQueue s)). req_key (rs_mem s) (it_req it) \<le> req_key (rs_mem s) a"
    using heap_Pop_req [of "rs_mem s" "rs_priorityQueue s"] assms(1,2) unfolding svc_inv_def by metis
  then show ?thesis using that assms(2-4) by (simp add: queueManager_tick_def)
qed

lemma tick_full:
  assumes "svc_inv s" "2 \<le> length (rs_priorityQueue s)" "\<not> rs_closed s" "\<not> length (rs_requestQueue s) < rs_workers s"
  obtains a q where "queueManager_tick s = Ret (s\<lparr>rs_priorityQueue := q\<rparr>)"
    "mset (addrs (rs_priorityQueue s)) = add_mset a (mset (addrs q))" "queue_ordered (rs_mem s) q"
    "\<forall>b \<in> set (addrs (rs_priorityQueue s)). req_key (rs_mem s) a \<le> req_key (rs_mem s) b"
proof -
  have ne: "rs_priorityQueue s \<noteq> []" using assms(2) by auto
  obtain it q where p: "heap_Pop_req (rs_mem s) (rs_priorityQueue s) = Ret (it, q)" "mset (addrs (rs_priorityQueue s)) = add_mset (it_req it) (mset (addrs q))"
      "queue_ordered (rs_mem s) q" "\<forall>a \<in> set (addrs (rs_priorityQueue s)). req_key (rs_mem s) (it_req it) \<le> req_key (rs_mem s) a"
      "length (rs_priorityQueue s) = Suc (length q)"
    using heap_Pop_req [of "rs_mem s" "rs_priorityQueue s"] assms(1) ne unfolding svc_inv_def by metis
  have "q \<noteq> []" using p(5) assms(2) by auto
  then obtain it2 q2 where p2: "heap_Pop_req (rs_mem s) q = Ret (it2, q2)" "queue_ordered (rs_mem s) (heap_Push_req (rs_mem s) q2 it2)"
      "mset (addrs (heap_Push_req (rs_mem s) q2 it2)) = mset (addrs q)" using heap_repush [OF p(3)] by metis
  show ?thesis using that p p2 ne assms(3,4) by (simp add: queueManager_tick_def)
qed

lemma tick_panics:
  assumes "svc_inv s" "rs_priorityQueue s \<noteq> []" "rs_closed s \<or> length (rs_priorityQueue s) = 1 \<and> \<not> length (rs_requestQueue s) < rs_workers s"
  shows "queueManager_tick s = Panic"
proof -
  obtain it q where p: "heap_Pop_req (rs_mem s) (rs_priorityQueue s) = Ret (it, q)" "length (rs_priorityQueue s) = Suc (length q)"
    using heap_Pop_req [of "rs_mem s" "rs_priorityQueue s"] assms(1,2) unfolding svc_inv_def by metis
  then show ?thesis using assms(2,3) by (auto simp: queueManager_tick_def heap_Pop_req_def)
qed

lemma svc_inv_queue:
  assumes "svc_inv s" "queue_ordered (rs_mem s) q" "it_req ` set q \<subseteq> {..<rs_next s}" "it_req ` set c \<subseteq> {..<rs_next s}"
  shows "svc_inv (s\<lparr>rs_priorityQueue := q, rs_requestQueue := c\<rparr>)"
  using assms by (simp add: svc_inv_def)

lemma tick_inv:
  assumes inv: "svc_inv s" and t: "queueManager_tick s = Ret s'"
  shows "svc_inv s'"
proof -
  have b: "it_req ` set (rs_priorityQueue s) \<subseteq> {..<rs_next s}" "it_req ` set (rs_requestQueue s) \<subseteq> {..<rs_next s}"
    using inv by (simp_all add: svc_inv_def)
  consider (empty) "rs_priorityQueue s = []" | (bad) "rs_priorityQueue s \<noteq> []" "rs_closed s \<or> length (rs_priorityQueue s) = 1 \<and> \<not> length (rs_requestQueue s) < rs_workers s"
    | (room) "rs_priorityQueue s \<noteq> []" "\<not> rs_closed s" "length (rs_requestQueue s) < rs_workers s"
    | (full) "2 \<le> length (rs_priorityQueue s)" "\<not> rs_closed s" "\<not> length (rs_requestQueue s) < rs_workers s"
    by (cases "rs_priorityQueue s"; cases "tl (rs_priorityQueue s)") auto
  then show ?thesis
  proof cases
    case empty
    then show ?thesis using inv t by (simp add: queueManager_tick_def)
  next
    case bad
    then show ?thesis using tick_panics [OF inv] t by simp
  next
    case room
    then obtain it q where tk: "queueManager_tick s = Ret (s\<lparr>rs_priorityQueue := q, rs_requestQueue := rs_requestQueue s @ [it]\<rparr>)"
        and m: "mset (addrs (rs_priorityQueue s)) = add_mset (it_req it) (mset (addrs q))" and o: "queue_ordered (rs_mem s) q"
      using tick_room [OF inv] by metis
    have "s' = s\<lparr>rs_priorityQueue := q, rs_requestQueue := rs_requestQueue s @ [it]\<rparr>" using t tk by simp
    then show ?thesis using svc_inv_queue [OF inv o, of "rs_requestQueue s @ [it]"] b set_of_mset [OF m] by simp
  next
    case full
    then obtain a q where tk: "queueManager_tick s = Ret (s\<lparr>rs_priorityQueue := q\<rparr>)"
        and m: "mset (addrs (rs_priorityQueue s)) = add_mset a (mset (addrs q))" and o: "queue_ordered (rs_mem s) q"
      using tick_full [OF inv] by metis
    have "s' = s\<lparr>rs_priorityQueue := q\<rparr>" using t tk by simp
    then show ?thesis using svc_inv_queue [OF inv o, of "rs_requestQueue s"] b set_of_mset [OF m] by (simp add: svc_inv_def)
  qed
qed

lemma take_inv:
  assumes "svc_inv s" and "worker_take now s = Some (a, s')"
  shows "svc_inv s'"
proof -
  obtain it rest where q: "rs_requestQueue s = it # rest" "a = it_req it" using assms(2) by (auto simp: worker_take_def Let_def split: list.splits)
  define s1 where "s1 = s\<lparr>rs_mem := (rs_mem s)(a := (rs_mem s a)\<lparr>rq_StartedAt := Some now\<rparr>)\<rparr>"
  have s1: "svc_inv s1" unfolding s1_def by (rule svc_inv_mem [OF assms(1)]) (simp add: req_key_def)
  let ?k = "rq_CrashID (rs_mem s a)"
  have a: "a < rs_next s1" "rs_requestStatus s1 = rs_requestStatus s" using assms(1) q by (simp_all add: svc_inv_def s1_def)
  then have st: "snd ` set (AList.update ?k a (rs_requestStatus s1)) \<subseteq> {..<rs_next s1}"
    using s1 by (intro set_AList_update) (simp_all add: svc_inv_def)
  have s': "s' = s\<lparr>rs_requestQueue := rest, rs_mem := rs_mem s1, rs_requestStatus := AList.update ?k a (rs_requestStatus s1)\<rparr>"
    using assms(2) q by (simp add: worker_take_def Let_def s1_def)
  have "rs_priorityQueue s1 = rs_priorityQueue s" "rs_requestQueue s1 = it # rest" "rs_next s1 = rs_next s" by (simp_all add: s1_def q)
  then show ?thesis using s1 st unfolding s' by (simp add: svc_inv_def)
qed

lemma svc_reach_inv: "svc_reach S w \<Longrightarrow> svc_inv (fst w)"
proof (induction rule: svc_reach.induct)
  case (new cfg st)
  show ?case by (simp add: svc_inv_def rs_Start_def NewReproducibilityService_def heap_init_def)
next
  case (queue w uuid clk crashID priority e w')
  obtain s st where w: "w = (s, st)" by (cases w)
  have "fst w' = s \<or> (\<exists>rq. fst w' = enqueue_request rq s)"
    using queue.hyps(2) unfolding w QueueReproduction_def by (auto split: if_splits prod.splits sum.splits option.splits)
  then show ?case using queue.IH w enqueue_request_inv by auto
next
  case (report w ord clk r e w')
  obtain s st s' st' where w: "w = (s, st)" "w' = (s', st')" by (cases w; cases w')
  show ?case using Record_inv [of s S ord clk r st e s' st'] report w by simp
next
  case (tick s st s')
  then show ?case using tick_inv by simp
next
  case (take s st now a s')
  then show ?case using take_inv by simp
next
  case (stop s st s')
  then have "s' = s\<lparr>rs_done := True, rs_closed := True\<rparr>" by (simp add: rs_Stop_def split: if_splits)
  then show ?case using stop.IH by (simp add: svc_inv_def)
qed simp

section \<open>Properties\<close>

lemma req_key_le:
  "req_key mem a \<le> req_key mem b \<longleftrightarrow> rq_Priority (mem b) < rq_Priority (mem a) \<or>
     rq_Priority (mem a) = rq_Priority (mem b) \<and> rq_RequestedAt (mem a) \<le> rq_RequestedAt (mem b)"
  by (auto simp: req_key_def less_eq_prod_def)

text \<open>C34: In every reachable state, a round of the queue manager hands the most urgent request (highest priority, then oldest) to the
  workers when their channel has room. When the channel is full, the round drops the most urgent request of two or more for good,
  and with a single waiting request, or after \<open>Stop\<close>, it panics and takes the master down.\<close>

theorem queue_manager_rounds:
  assumes "svc_reach S (s, st)" and "rs_priorityQueue s \<noteq> []"
  shows "if rs_closed s \<or> length (rs_requestQueue s) \<ge> rs_workers s \<and> length (rs_priorityQueue s) = 1 then queueManager_tick s = Panic
    else \<exists>s' a. queueManager_tick s = Ret s' \<and> mset (addrs (rs_priorityQueue s)) = add_mset a (mset (addrs (rs_priorityQueue s'))) \<and>
      (\<forall>b \<in> set (addrs (rs_priorityQueue s)). rq_Priority (rs_mem s b) < rq_Priority (rs_mem s a) \<or>
         rq_Priority (rs_mem s a) = rq_Priority (rs_mem s b) \<and> rq_RequestedAt (rs_mem s a) \<le> rq_RequestedAt (rs_mem s b)) \<and>
      addrs (rs_requestQueue s') = addrs (rs_requestQueue s) @ (if length (rs_requestQueue s) < rs_workers s then [a] else [])"
proof -
  have inv: "svc_inv s" using svc_reach_inv [OF assms(1)] by simp
  have l: "length (rs_priorityQueue s) = 1 \<or> 2 \<le> length (rs_priorityQueue s)"
    using assms(2) by (cases "rs_priorityQueue s"; cases "tl (rs_priorityQueue s)") auto
  consider (bad) "rs_closed s \<or> length (rs_requestQueue s) \<ge> rs_workers s \<and> length (rs_priorityQueue s) = 1"
    | (room) "\<not> rs_closed s" "length (rs_requestQueue s) < rs_workers s"
    | (full) "\<not> rs_closed s" "\<not> length (rs_requestQueue s) < rs_workers s" "2 \<le> length (rs_priorityQueue s)"
    using l by (cases "rs_closed s"; cases "length (rs_requestQueue s) < rs_workers s") auto
  then show ?thesis
  proof cases
    case bad
    then show ?thesis using tick_panics [OF inv assms(2)] by auto
  next
    case room
    obtain it q where t: "queueManager_tick s = Ret (s\<lparr>rs_priorityQueue := q, rs_requestQueue := rs_requestQueue s @ [it]\<rparr>)"
        "mset (addrs (rs_priorityQueue s)) = add_mset (it_req it) (mset (addrs q))"
        "\<forall>a \<in> set (addrs (rs_priorityQueue s)). req_key (rs_mem s) (it_req it) \<le> req_key (rs_mem s) a"
      using tick_room [OF inv assms(2) room] by metis
    then show ?thesis using room unfolding req_key_le by (simp add: exI [of _ "it_req it"])
  next
    case full
    obtain a q where t: "queueManager_tick s = Ret (s\<lparr>rs_priorityQueue := q\<rparr>)"
        "mset (addrs (rs_priorityQueue s)) = add_mset a (mset (addrs q))"
        "\<forall>b \<in> set (addrs (rs_priorityQueue s)). req_key (rs_mem s) a \<le> req_key (rs_mem s) b"
      using tick_full [OF inv full(3,1,2)] by metis
    then show ?thesis using full unfolding req_key_le by (auto intro!: exI [of _ a])
  qed
qed

definition no_crash_store :: "unit ReproStorage" where
  "no_crash_store = \<lparr>rst_GetCrash = (\<lambda>c st. (Inr (Some \<lparr>crf_CampaignID = '''', crf_JobID = ''j''\<rparr>), st)),
     rst_CreateReproductionResult = (\<lambda>r st. (None, st)), rst_GetReproductionResults = (\<lambda>c st. (Inr [], st))\<rparr>"

theorem queue_manager_rounds_witness:
  "\<exists>s. svc_reach no_crash_store (s, ()) \<and> rs_closed s \<and> queueManager_tick s = Panic"
proof -
  let ?s0 = "rs_Start (NewReproducibilityService None)"
  define s1 where "s1 = enqueue_request (new_request ''u'' (\<lambda>_. 0) ''c'' \<lparr>crf_CampaignID = '''', crf_JobID = ''j''\<rparr> 5) ?s0"
  have r0: "svc_reach no_crash_store (?s0, ())" by (rule svc_reach.new)
  have "QueueReproduction no_crash_store ''u'' (\<lambda>_. 0) ''c'' 5 (?s0, ()) = (None, (s1, ()))"
    by (simp add: QueueReproduction_def no_crash_store_def s1_def)
  then have r1: "svc_reach no_crash_store (s1, ())" by (rule svc_reach.queue [OF r0])
  have "rs_Stop s1 = Ret (s1\<lparr>rs_done := True, rs_closed := True\<rparr>)"
    by (simp add: rs_Stop_def s1_def enqueue_request_def rs_Start_def NewReproducibilityService_def Let_def)
  then have r2: "svc_reach no_crash_store (s1\<lparr>rs_done := True, rs_closed := True\<rparr>, ())" by (rule svc_reach.stop [OF r1])
  have "set (addrs (rs_priorityQueue s1)) \<noteq> {}"
    using set_of_mset [OF conjunct2 [OF heap_Push_req [OF queue_ordered_Nil]]]
    by (simp add: s1_def enqueue_request_def rs_Start_def NewReproducibilityService_def Let_def heap_init_def)
  then have "rs_priorityQueue (s1\<lparr>rs_done := True, rs_closed := True\<rparr>) \<noteq> []" by auto
  from queue_manager_rounds [OF r2 this] r2 show ?thesis by auto
qed

section \<open>The verdict within five minutes\<close>

fun record_all ::
    "'s ReproStorage \<Rightarrow> range_orders \<Rightarrow> ((nat \<Rightarrow> time) \<times> ReproductionResult) list \<Rightarrow> reproducibilityService \<times> 's \<Rightarrow> reproducibilityService \<times> 's" where
  "record_all S ord [] w = w"
| "record_all S ord ((clk, r) # xs) w = record_all S ord xs (snd (RecordReproductionResult S ord clk (Some r) w))"

lemma Record_cached:
  assumes "cached_score (clk 0) (rr_CrashID r) (rs_scorer s) = Some sc" and "map_of (rs_requestStatus s) (rr_CrashID r) = Some a"
  shows "\<exists>s' st'. RecordReproductionResult S ord clk (Some r) (s, st) = (None, (s', st')) \<and> rs_scorer s' = rs_scorer s \<and>
      rs_requestStatus s' = rs_requestStatus s \<and> rq_Status (rs_mem s' a) = sco_Status sc \<and> rq_MaxAttempts (rs_mem s' a) = rq_MaxAttempts (rs_mem s a) \<or>
    (\<exists>e st'. RecordReproductionResult S ord clk (Some r) (s, st) = (Some e, (s, st')))"
proof -
  obtain eo st1 where c: "rst_CreateReproductionResult S r st = (eo, st1)" by fastforce
  show ?thesis
  proof (cases eo)
    case None
    then show ?thesis using assms c
      by (auto simp: RecordReproductionResult_def CalculateScore_cases apply_score_def Let_def)
  next
    case (Some e)
    then show ?thesis using c by (simp add: RecordReproductionResult_def)
  qed
qed



section \<open>What the simulated attempts can show\<close>

lemma fsum_zeros: "set xs \<subseteq> {Fin 0} \<Longrightarrow> fsum xs = Fin 0"
proof -
  have "fold (\<lambda>x s. fadd s x) xs (Fin 0) = Fin 0" if "set xs \<subseteq> {Fin 0}"
    using that by (induction xs) auto
  then show "set xs \<subseteq> {Fin 0} \<Longrightarrow> fsum xs = Fin 0" by (simp add: fsum_def)
qed

lemma platforms_unmatched:
  assumes "\<And>r. r \<in> set rs \<Longrightarrow> \<not> rr_MatchesOriginal r" and "(p, ps) \<in> set (calculatePlatformScores rs)"
  shows "pls_SuccessRate ps = Fin 0 \<and> 0 < pls_Attempts ps"
proof -
  obtain ps0 where ps0: "(p, ps0) \<in> set (group_platforms rs)" "ps = set_rate ps0"
    using assms(2) by (auto simp: calculatePlatformScores_def)
  have "pls_Successes ps0 = 0 \<and> 0 < pls_Attempts ps0"
    using ps0(1) unfolding group_platforms_def Let_def
    by (rule groups_all [rotated 3]) (auto simp: count_attempt_def new_platform_def succeeded_def Let_def assms(1))
  then show ?thesis using ps0(2) percent_0 by (simp add: set_rate_def)
qed

lemma cross_unmatched:
  assumes "\<And>p ps. (p, ps) \<in> set pm \<Longrightarrow> pls_SuccessRate ps = Fin 0 \<and> 0 < pls_Attempts ps" and "set (ordP pm) = set pm"
  shows "calculateCrossPlatformScore ordP pm = Fin 0"
proof -
  have ps: "pls_SuccessRate ps = Fin 0 \<and> 0 < pls_Attempts ps" if "ps \<in> set (map snd (ordP pm))" for ps
    using that assms by auto
  let ?pss = "map snd (ordP pm)"
  have "fsum (map (\<lambda>ps. fmul (pls_SuccessRate ps) (f_of_int (pls_Attempts ps))) ?pss) = Fin 0"
  proof (rule fsum_zeros, rule subsetI)
    fix x
    assume "x \<in> set (map (\<lambda>ps. fmul (pls_SuccessRate ps) (f_of_int (pls_Attempts ps))) ?pss)"
    then obtain ps' where ps': "ps' \<in> set ?pss" "x = fmul (pls_SuccessRate ps') (f_of_int (pls_Attempts ps'))" by auto
    then show "x \<in> {Fin 0}" using ps [OF ps'(1)] by (simp add: f_of_int_def)
  qed
  moreover have "count_where (\<lambda>ps. flt (f_of_int 50) (pls_SuccessRate ps)) ?pss = 0"
    using ps by (intro count_where_none) (simp add: f_const_small)
  moreover have "0 \<le> sum_list (map pls_Attempts ?pss)" using ps by (intro sum_list_nonneg) fastforce
  moreover have "0 < rd (of_int n)" if "0 < n" for n using that by (simp add: rd_pos_iff)
  moreover have "f_of_int 0 = Fin 0" by (simp add: f_of_int_def)
  moreover have z: "fdiv (Fin 0) (f_of_int n) = Fin 0" if "0 < n" for n
    using rd_pos_iff [of "of_int n"] that by (simp add: f_of_int_def)
  moreover have "0 < int (length pm)" if "pm \<noteq> []" using that by simp
  ultimately show ?thesis
    using assms(1) by (cases pm; cases "tl pm")
      (auto simp: calculateCrossPlatformScore_def Let_def f_const_small f_const_def fmin_def z split: prod.splits)
qed

definition unmatched_components :: ScoreComponents where
  "unmatched_components = \<lparr>co_ReproductionRate = Fin 0, co_ConsistencyScore = Fin 100, co_TimeReliability = Fin 100,
     co_CrossPlatformScore = Fin 0, co_EnvironmentStability = Fin 100\<rparr>"

lemma unmatched_limit: "flt (calculateBaseScore NewReproducibilityScorer unmatched_components) (Fin 50)"
proof -
  have w: "rd (2 / 10) \<le> 21 / 100" "rd (1 / 10) \<le> 11 / 100" by (rule rd_le [OF order_refl]; simp)+
  have a: "rd (100 * rd (2 / 10)) \<le> 22" by (rule rd_le [of _ 21]) (use w in simp_all)
  have b: "rd (100 * rd (1 / 10)) \<le> 12" by (rule rd_le [of _ 11]) (use w in simp_all)
  have s1: "rd (rd (100 * rd (2 / 10))) \<le> 23" by (rule rd_le [OF a]) simp_all
  have s2: "rd (rd (rd (100 * rd (2 / 10))) + rd (100 * rd (1 / 10))) \<le> 36" by (rule rd_le [of _ 35]) (use s1 b in simp_all)
  have s3: "rd (rd (rd (rd (100 * rd (2 / 10))) + rd (100 * rd (1 / 10)))) \<le> 37" by (rule rd_le [OF s2]) simp_all
  have "rd (rd (rd (rd (rd (100 * rd (2 / 10))) + rd (100 * rd (1 / 10)))) + rd (100 * rd (1 / 10))) \<le> 497 / 10"
    by (rule rd_le [of _ 49]) (use s3 b in simp_all)
  then show ?thesis
    by (simp add: calculateBaseScore_def unmatched_components_def NewReproducibilityScorer_def f_const_def clip100_in)
qed

lemma unmatched_score:
  assumes rs: "rs \<noteq> []" "results_ok rs" "\<And>r. r \<in> set rs \<Longrightarrow> \<not> rr_MatchesOriginal r" and "orders_ok ord" "scorer_const s"
  shows "sco_Status (score_results s ord clk c rs) \<in> {ReproducibilityStatusTesting, ReproducibilityStatusFailed}"
proof -
  let ?c = "calculateComponents ord rs (calculatePlatformScores rs)"
  have ok: "components_ok ?c" using assms by (intro calculateComponents_ok)
  have "co_ReproductionRate ?c = Fin 0"
    using rs count_where_none [of rs succeeded] percent_0 [of "int (length rs)"] by (simp add: calculateComponents_def succeeded_def)
  moreover have "set (fst ord (calculatePlatformScores rs)) = set (calculatePlatformScores rs)"
    using assms(4) unfolding orders_ok_def by (metis set_mset_mset)
  then have "co_CrossPlatformScore ?c = Fin 0"
    using platforms_unmatched [OF rs(3)] cross_unmatched by (simp add: calculateComponents_def)
  ultimately have "components_le ?c unmatched_components"
    using ok by (auto simp: components_le_def unmatched_components_def components_ok_def elim!: f_inE)
  moreover have "components_ok unmatched_components" by (simp add: components_ok_def unmatched_components_def)
  ultimately have "fle (calculateBaseScore s ?c) (calculateBaseScore s unmatched_components)"
    using base_score_mono ok assms(5) by blast
  then have lt: "flt (calculateBaseScore s ?c) (Fin 50)"
    using unmatched_limit base_score_const [OF assms(5)] fle_flt_trans by metis
  then obtain q where "calculateBaseScore s ?c = Fin q" "q < 50" using base_score_in [OF ok assms(5)] by (auto elim: f_inE)
  then show ?thesis by (simp add: score_results_def Let_def determineStatus_def f_const_small)
qed

text \<open>A store that returns only unmatched results when it was given only such results.\<close>

locale unmatched_results =
  fixes S :: "'s ReproStorage" and good :: "'s \<Rightarrow> bool"
  assumes create: "good st \<Longrightarrow> \<not> rr_MatchesOriginal r \<Longrightarrow> 0 \<le> rr_ExecutionTime r \<Longrightarrow> rst_CreateReproductionResult S r st = (e, st') \<Longrightarrow> good st'"
    and get: "good st \<Longrightarrow> rst_GetReproductionResults S c st = (res, st') \<Longrightarrow> good st'"
    and get_results: "good st \<Longrightarrow> rst_GetReproductionResults S c st = (Inr rs, st') \<Longrightarrow> results_ok rs \<and> (\<forall>r \<in> set rs. \<not> rr_MatchesOriginal r)"
    and crash: "good st \<Longrightarrow> rst_GetCrash S c st = (cr, st') \<Longrightarrow> good st'"

text \<open>The service with one attempt at a time: a worker records the result of a request before the next request is taken.\<close>

inductive seq_reach :: "'s ReproStorage \<Rightarrow> ('s \<Rightarrow> bool) \<Rightarrow> reproducibilityService \<times> 's \<Rightarrow> bool" for S good where
  new: "good st \<Longrightarrow> seq_reach S good (rs_Start (NewReproducibilityService cfg), st)"
| queue: "seq_reach S good w \<Longrightarrow> QueueReproduction S uuid clk crashID priority w = (e, w') \<Longrightarrow> seq_reach S good w'"
| tick: "seq_reach S good (s, st) \<Longrightarrow> queueManager_tick s = Ret s' \<Longrightarrow> seq_reach S good (s', st)"
| work: "seq_reach S good (s, st) \<Longrightarrow> worker_take now s = Some (a, s') \<Longrightarrow> orders_ok ord \<Longrightarrow> seq_reach S good (worker_finish S ord uuid clk a (s', st))"

abbreviation open_verdict :: "ReproducibilityStatus \<Rightarrow> bool" where
  "open_verdict x \<equiv> x \<notin> {ReproducibilityStatusConfirmed, ReproducibilityStatusFlaky}"

abbreviation waiting :: "reproducibilityService \<Rightarrow> nat list" where
  "waiting s \<equiv> addrs (rs_requestQueue s) @ addrs (rs_priorityQueue s)"

definition scorer_open :: "reproducibilityScorer \<Rightarrow> bool" where
  "scorer_open sc \<longleftrightarrow> scorer_const sc \<and> (\<forall>c x. sc_scoreCache sc c = Some x \<longrightarrow> open_verdict (sco_Status x))"

definition seq_inv :: "reproducibilityService \<Rightarrow> bool" where
  "seq_inv s \<longleftrightarrow> svc_inv s \<and> scorer_open (rs_scorer s) \<and> distinct (waiting s) \<and>
     (\<forall>a \<in> set (waiting s). rq_AttemptCount (rs_mem s a) = 0 \<and> open_verdict (rq_Status (rs_mem s a))) \<and>
     (\<forall>a \<in> snd ` set (rs_requestStatus s). open_verdict (rq_Status (rs_mem s a)))"

lemma distinct_submset: "mset xs \<subseteq># mset ys \<Longrightarrow> distinct ys \<Longrightarrow> distinct xs"
proof -
  assume sub: "mset xs \<subseteq># mset ys" and d: "distinct ys"
  obtain zs where "mset ys = mset xs + mset zs" using sub by (metis ex_mset mset_subset_eq_exists_conv)
  then have "mset ys = mset (xs @ zs)" by simp
  with d have "distinct (xs @ zs)" using mset_eq_imp_distinct_iff by blast
  then show ?thesis by simp
qed

lemma seq_inv_waiting:
  assumes "seq_inv s" and "svc_inv s'" and "rs_scorer s' = rs_scorer s" "rs_mem s' = rs_mem s" "rs_requestStatus s' = rs_requestStatus s"
    and sub: "mset (waiting s') \<subseteq># mset (waiting s)"
  shows "seq_inv s'"
proof -
  have "distinct (waiting s')" using distinct_submset [OF sub] assms(1) by (simp only: seq_inv_def)
  moreover have "set (waiting s') \<subseteq> set (waiting s)" using set_mset_mono [OF sub] by (simp only: set_mset_mset)
  ultimately show ?thesis using assms(1-5) unfolding seq_inv_def by (simp only:) blast
qed

lemma tick_seq_inv:
  assumes "seq_inv s" and t: "queueManager_tick s = Ret s'"
  shows "seq_inv s'"
proof -
  have inv: "svc_inv s" using assms(1) by (simp add: seq_inv_def)
  have inv': "svc_inv s'" by (rule tick_inv [OF inv t])
  show ?thesis
  proof (cases "rs_priorityQueue s = []")
    case True
    then show ?thesis using assms by (simp add: queueManager_tick_def)
  next
    case ne: False
    then have ok: "\<not> (rs_closed s \<or> length (rs_priorityQueue s) = 1 \<and> \<not> length (rs_requestQueue s) < rs_workers s)"
      using tick_panics [OF inv ne] t by auto
    show ?thesis
    proof (cases "length (rs_requestQueue s) < rs_workers s")
      case True
      with ok ne obtain it q where r: "queueManager_tick s = Ret (s\<lparr>rs_priorityQueue := q, rs_requestQueue := rs_requestQueue s @ [it]\<rparr>)"
          "mset (addrs (rs_priorityQueue s)) = add_mset (it_req it) (mset (addrs q))" using tick_room [OF inv ne] by metis
      have s': "s' = s\<lparr>rs_priorityQueue := q, rs_requestQueue := rs_requestQueue s @ [it]\<rparr>" using r(1) t by simp
      show ?thesis by (rule seq_inv_waiting [OF assms(1) inv']) (use r(2) in \<open>simp_all add: s'\<close>)
    next
      case full: False
      have "2 \<le> length (rs_priorityQueue s)" using ok full ne by (cases "rs_priorityQueue s"; cases "tl (rs_priorityQueue s)") auto
      with ok full obtain a q where r: "queueManager_tick s = Ret (s\<lparr>rs_priorityQueue := q\<rparr>)"
          "mset (addrs (rs_priorityQueue s)) = add_mset a (mset (addrs q))" using tick_full [OF inv] by metis
      have s': "s' = s\<lparr>rs_priorityQueue := q\<rparr>" using r(1) t by simp
      show ?thesis by (rule seq_inv_waiting [OF assms(1) inv']) (use r(2) in \<open>simp_all add: s'\<close>)
    qed
  qed
qed

lemma enqueue_seq_inv:
  assumes inv: "seq_inv s" and rq: "rq_AttemptCount rq = 0" "open_verdict (rq_Status rq)"
  shows "seq_inv (enqueue_request rq s)"
proof -
  let ?n = "rs_next s" and ?s' = "enqueue_request rq s"
  have b: "it_req ` set (rs_priorityQueue s) \<subseteq> {..<?n}" "it_req ` set (rs_requestQueue s) \<subseteq> {..<?n}" "snd ` set (rs_requestStatus s) \<subseteq> {..<?n}"
    and o: "queue_ordered (rs_mem s) (rs_priorityQueue s)" using inv by (simp_all add: seq_inv_def svc_inv_def)
  have fresh: "?n \<notin> set (waiting s)" using b by auto
  have "queue_ordered ((rs_mem s)(?n := rq)) (rs_priorityQueue s)"
  proof (rule queue_ordered_mem [OF _ o])
    fix a
    assume "a \<in> set (addrs (rs_priorityQueue s))"
    then have "a < ?n" using subsetD [OF b(1)] by simp
    then show "req_key ((rs_mem s)(?n := rq)) a = req_key (rs_mem s) a" by (simp add: req_key_def)
  qed
  from heap_Push_req [OF this, of "\<lparr>it_req = ?n, it_index = 0\<rparr>"]
  have m: "mset (waiting ?s') = mset (?n # waiting s)" by (simp add: enqueue_request_def Let_def)
  have mem: "rs_mem ?s' = (rs_mem s)(?n := rq)" "rs_scorer ?s' = rs_scorer s" by (simp_all add: enqueue_request_def Let_def)
  have "distinct (waiting ?s')" using m fresh inv unfolding seq_inv_def by (metis distinct.simps(2) mset_eq_imp_distinct_iff)
  moreover have w: "set (waiting ?s') = insert ?n (set (waiting s))" using m by (metis list.simps(15) set_mset_mset)
  have "\<forall>a \<in> insert ?n (set (waiting s)). rq_AttemptCount (rs_mem ?s' a) = 0 \<and> open_verdict (rq_Status (rs_mem ?s' a))"
    unfolding mem using rq inv by (simp add: seq_inv_def)
  then have "\<forall>a \<in> set (waiting ?s'). rq_AttemptCount (rs_mem ?s' a) = 0 \<and> open_verdict (rq_Status (rs_mem ?s' a))" by (simp only: w)
  moreover have st: "snd ` set (rs_requestStatus ?s') \<subseteq> insert ?n (snd ` set (rs_requestStatus s))"
    by (simp add: enqueue_request_def Let_def) (rule set_AList_update; blast)
  have "open_verdict (rq_Status (rs_mem ?s' a))" if "a \<in> insert ?n (snd ` set (rs_requestStatus s))" for a
    unfolding mem using that rq(2) inv by (auto simp: seq_inv_def)
  then have "\<forall>a \<in> snd ` set (rs_requestStatus ?s'). open_verdict (rq_Status (rs_mem ?s' a))" using st by blast
  ultimately show ?thesis using enqueue_request_inv [of s rq] inv mem by (simp add: seq_inv_def)
qed

lemma seq_inv_new: "seq_inv (rs_Start (NewReproducibilityService cfg))"
  by (simp add: seq_inv_def svc_inv_def rs_Start_def NewReproducibilityService_def heap_init_def scorer_open_def scorer_const_def NewReproducibilityScorer_def)

lemma take_fields:
  assumes "worker_take now s = Some (a, s')"
  shows "\<exists>it rest. rs_requestQueue s = it # rest \<and> a = it_req it \<and> rs_requestQueue s' = rest \<and> rs_priorityQueue s' = rs_priorityQueue s \<and>
    rs_scorer s' = rs_scorer s \<and> rs_mem s' = (rs_mem s)(a := (rs_mem s a)\<lparr>rq_StartedAt := Some now\<rparr>) \<and>
    rs_requestStatus s' = AList.update (rq_CrashID (rs_mem s a)) a (rs_requestStatus s)"
  using assms by (auto simp: worker_take_def Let_def split: list.splits)

lemma take_seq_inv:
  assumes inv: "seq_inv s" and t: "worker_take now s = Some (a, s')"
  shows "seq_inv s' \<and> a \<notin> set (waiting s') \<and> rq_AttemptCount (rs_mem s' a) = 0 \<and> open_verdict (rq_Status (rs_mem s' a)) \<and>
    map_of (rs_requestStatus s') (rq_CrashID (rs_mem s' a)) = Some a"
proof -
  obtain it rest where f: "rs_requestQueue s = it # rest" "a = it_req it" "rs_requestQueue s' = rest" "rs_priorityQueue s' = rs_priorityQueue s"
      "rs_scorer s' = rs_scorer s" "rs_mem s' = (rs_mem s)(a := (rs_mem s a)\<lparr>rq_StartedAt := Some now\<rparr>)"
      "rs_requestStatus s' = AList.update (rq_CrashID (rs_mem s a)) a (rs_requestStatus s)" using take_fields [OF t] by blast
  have w: "waiting s = a # waiting s'" using f by simp
  have a: "a \<notin> set (waiting s')" "rq_AttemptCount (rs_mem s a) = 0" "open_verdict (rq_Status (rs_mem s a))" "distinct (waiting s')"
    and aw: "\<forall>b \<in> set (waiting s'). rq_AttemptCount (rs_mem s b) = 0 \<and> open_verdict (rq_Status (rs_mem s b))"
    using inv unfolding seq_inv_def w by simp_all
  have mem: "rq_AttemptCount (rs_mem s' b) = rq_AttemptCount (rs_mem s b)" "rq_Status (rs_mem s' b) = rq_Status (rs_mem s b)" for b
    by (simp_all add: f(6))
  have st: "snd ` set (rs_requestStatus s') \<subseteq> insert a (snd ` set (rs_requestStatus s))"
    unfolding f(7) by (rule set_AList_update; blast)
  have "\<forall>b \<in> insert a (snd ` set (rs_requestStatus s)). open_verdict (rq_Status (rs_mem s b))" using a(3) inv unfolding seq_inv_def by blast
  then have "\<forall>b \<in> snd ` set (rs_requestStatus s'). open_verdict (rq_Status (rs_mem s b))" using st by blast
  moreover have "svc_inv s'" using take_inv [OF _ t] inv by (simp add: seq_inv_def)
  moreover have "scorer_open (rs_scorer s')" using inv f(5) by (simp add: seq_inv_def)
  ultimately have "seq_inv s'" using a(4) aw unfolding seq_inv_def mem by blast
  then show ?thesis using a mem by (simp add: f(6,7) update_conv')
qed

lemma simulated_first:
  "rq_AttemptCount rq = 0 \<Longrightarrow> \<not> rr_MatchesOriginal (simulated_result u t rq) \<and> 0 \<le> rr_ExecutionTime (simulated_result u t rq) \<and>
     rr_CrashID (simulated_result u t rq) = rq_CrashID rq"
  by (simp add: simulated_result_def Let_def Second_def)

lemma apply_score_open:
  assumes "\<forall>x. res = Inr x \<longrightarrow> open_verdict (sco_Status x)" and "open_verdict (rq_Status rq)"
  shows "open_verdict (rq_Status (apply_score res t rq))"
  using assms by (auto simp: apply_score_def Let_def split: sum.splits)

lemma seq_inv_score:
  assumes inv: "seq_inv s" and sc: "scorer_open sc" and a: "a \<notin> set (waiting s)" "open_verdict (rq_Status (apply_score res t (rs_mem s a)))"
  shows "seq_inv (s\<lparr>rs_scorer := sc, rs_mem := (rs_mem s)(a := apply_score res t (rs_mem s a))\<rparr>)"
proof -
  let ?m = "(rs_mem s)(a := apply_score res t (rs_mem s a))"
  have "svc_inv (s\<lparr>rs_mem := ?m\<rparr>)" using inv by (intro svc_inv_mem) (simp_all add: seq_inv_def req_key_def)
  then have "svc_inv (s\<lparr>rs_scorer := sc, rs_mem := ?m\<rparr>)" by (simp add: svc_inv_def)
  moreover have "rq_AttemptCount (?m b) = 0 \<and> open_verdict (rq_Status (?m b))" if "b \<in> set (waiting s)" for b
    using that inv a(1) unfolding seq_inv_def by (metis fun_upd_other)
  moreover have "open_verdict (rq_Status (?m b))" if "b \<in> snd ` set (rs_requestStatus s)" for b
    using that inv a(2) unfolding seq_inv_def by (cases "b = a") (simp, metis fun_upd_other)
  ultimately show ?thesis using inv sc unfolding seq_inv_def by simp
qed

context unmatched_results
begin

lemma score_open:
  assumes "good st" "scorer_open sc" "orders_ok ord" and call: "CalculateScore (rst_GetReproductionResults S) ord clk c (sc, st) = (res, (sc', st'))"
  shows "good st' \<and> scorer_open sc' \<and> (\<forall>x. res = Inr x \<longrightarrow> open_verdict (sco_Status x))"
proof (cases "cached_score (clk 0) c sc")
  case (Some x)
  then have "open_verdict (sco_Status x)" using assms(2) by (auto simp: cached_score_def scorer_open_def split: option.splits if_splits)
  then show ?thesis using call Some assms by (auto simp: CalculateScore_cases)
next
  case None
  obtain r st1 where g: "rst_GetReproductionResults S c st = (r, st1)" by fastforce
  have st1: "good st1" by (rule get [OF assms(1) g])
  show ?thesis
  proof (cases "\<exists>rs. r = Inr rs \<and> rs \<noteq> []")
    case True
    then obtain rs where rs: "r = Inr rs" "rs \<noteq> []" by blast
    let ?x = "score_results sc ord clk c rs"
    have "open_verdict (sco_Status ?x)"
      using get_results [OF assms(1) g [unfolded rs]] rs(2) assms(2,3) unmatched_score [of rs ord sc clk c] by (auto simp: scorer_open_def)
    moreover have "scorer_const (sc\<lparr>sc_scoreCache := (sc_scoreCache sc)(c \<mapsto> ?x)\<rparr>)" using assms(2) by (simp add: scorer_open_def scorer_const_def)
    moreover have "res = Inr ?x" "sc' = sc\<lparr>sc_scoreCache := (sc_scoreCache sc)(c \<mapsto> ?x)\<rparr>" "st' = st1"
      using call None g rs by (simp_all add: CalculateScore_cases)
    ultimately show ?thesis using st1 assms(2) by (simp add: scorer_open_def)
  next
    case False
    then show ?thesis using call None g st1 assms(2)
      by (auto simp: CalculateScore_cases empty_score_def split: if_splits sum.splits)
  qed
qed

lemma finish_inv:
  assumes inv: "seq_inv s" and g: "good st" and o: "orders_ok ord"
    and a: "a \<notin> set (waiting s)" "rq_AttemptCount (rs_mem s a) = 0" "open_verdict (rq_Status (rs_mem s a))"
      "map_of (rs_requestStatus s) (rq_CrashID (rs_mem s a)) = Some a"
  shows "seq_inv (fst (worker_finish S ord uuid clk a (s, st))) \<and> good (snd (worker_finish S ord uuid clk a (s, st)))"
proof -
  let ?r = "simulated_result uuid (clk 0) (rs_mem s a)" and ?clk = "\<lambda>i. clk (Suc i)"
  note r = simulated_first [OF a(2), of uuid "clk 0"]
  obtain eo st1 where c: "rst_CreateReproductionResult S ?r st = (eo, st1)" by fastforce
  have g1: "good st1" using create [OF g] r c by blast
  obtain res sc st2 where k: "CalculateScore (rst_GetReproductionResults S) ord ?clk (rq_CrashID (rs_mem s a)) (rs_scorer s, st1) = (res, (sc, st2))"
    by (metis prod.exhaust)
  have so: "good st2 \<and> scorer_open sc \<and> (\<forall>x. res = Inr x \<longrightarrow> open_verdict (sco_Status x))"
    using score_open [OF g1 _ o k] inv by (simp add: seq_inv_def)
  have v: "open_verdict (rq_Status (apply_score res (clk 4) (rs_mem s a)))" using so a(3) by (intro apply_score_open) blast
  show ?thesis
  proof (cases eo)
    case None
    have "worker_finish S ord uuid clk a (s, st) = (s\<lparr>rs_scorer := sc, rs_mem := (rs_mem s)(a := apply_score res (clk 4) (rs_mem s a))\<rparr>, st2)"
      using c None r a(4) k by (simp add: worker_finish_def RecordReproductionResult_def numeral_eq_Suc)
    then show ?thesis using seq_inv_score [OF inv _ a(1) v, of sc] so by simp
  next
    case (Some e)
    then have "worker_finish S ord uuid clk a (s, st) = (s, st1)" using c by (simp add: worker_finish_def RecordReproductionResult_def)
    then show ?thesis using inv g1 by simp
  qed
qed

lemma seq_reach_inv: "seq_reach S good w \<Longrightarrow> seq_inv (fst w) \<and> good (snd w)"
proof (induction rule: seq_reach.induct)
  case (new st cfg)
  then show ?case using seq_inv_new by simp
next
  case (queue w uuid clk crashID priority e w')
  obtain s st where w: "w = (s, st)" by (cases w)
  obtain cr st1 where c: "rst_GetCrash S crashID st = (cr, st1)" by fastforce
  have g1: "good st1" using crash [OF _ c] queue.IH w by simp
  have "w' = (s, st) \<or> w' = (s, st1) \<or> (\<exists>x. w' = (enqueue_request (new_request uuid clk crashID x priority) s, st1))"
    using queue.hyps(2) c unfolding w QueueReproduction_def by (auto split: if_splits sum.splits option.splits)
  then show ?case using queue.IH w g1 enqueue_seq_inv [of s] by (auto simp: new_request_def)
next
  case (tick s st s')
  then show ?case using tick_seq_inv [of s s'] by simp
next
  case (work s st now a s' ord uuid clk)
  then show ?case using take_seq_inv [of s now a s'] finish_inv [of s' st ord a uuid clk] by simp
qed

lemma never_decided:
  assumes "seq_reach S good (s, st)" and "GetReproductionStatus c s = Inr rq"
  shows "open_verdict (rq_Status rq)"
proof -
  obtain a where "map_of (rs_requestStatus s) c = Some a" "rq = rs_mem s a"
    using assms(2) by (auto simp: GetReproductionStatus_def split: option.splits)
  then show ?thesis using seq_reach_inv [OF assms(1)] by (force simp: seq_inv_def dest: map_of_SomeD)
qed

end

end
