(* ===== verification/Sqlite_Schema.thy ===== *)
theory Sqlite_Schema
  imports Sqlite_Layer
begin

text \<open>
  The schema of the SQLite database: the script of \<open>createTablesContext\<close> in \<open>pkg/storage/sqlite.go\<close> and the
  migrations of \<open>pkg/storage/migrations.go\<close>.

  A schema is the list of the tables with their columns, the list of the indexes with their tables, and the rows of \<open>schema_migrations\<close>;
  types, defaults and keys of the columns are left out. A \<open>ddl\<close> is one SQL statement, a \<open>mig_step\<close> is one statement of a migration with the
  error text of its failure. Every statement can fail (\<open>drv_fault\<close>), inside a transaction or not.
  The rows that migrations write are the placeholders in \<open>crash_inputs\<close> and the column \<open>progress\<close> of \<open>jobs\<close>.
\<close>

section \<open>Statements\<close>

record Schema =
  sch_tables :: "(string \<times> string list) list"
  sch_indexes :: "(string \<times> string) list"
  sch_applied :: "string list"

datatype ddl = CreateTable string "string list" | CreateIndex string string "string list" | AddColumn string string
  | DropTable string | DropIndex string | FillProgress

abbreviation has_table :: "Schema \<Rightarrow> string \<Rightarrow> bool" where
  "has_table S tb \<equiv> tb \<in> fst ` set (sch_tables S)"

abbreviation has_index :: "Schema \<Rightarrow> string \<Rightarrow> bool" where
  "has_index S i \<equiv> i \<in> fst ` set (sch_indexes S)"

definition columns :: "Schema \<Rightarrow> string \<Rightarrow> string list" where
  "columns S tb = (case map_of (sch_tables S) tb of Some cs \<Rightarrow> cs | None \<Rightarrow> [])"

definition sql_error :: "string \<Rightarrow> error" where
  "sql_error m = SqliteError m 1 1"

text \<open>The statements as SQLite runs them: \<open>CREATE ... IF NOT EXISTS\<close> of something that exists and \<open>DROP ... IF EXISTS\<close> of something
  that does not do nothing; an index needs its table and its columns; a column is added once.\<close>

fun exec_ddl :: "ddl \<Rightarrow> Schema \<Rightarrow> Schema result" where
  "exec_ddl (CreateTable tb cs) S =
     (if has_table S tb then Inr S
      else if has_index S tb then Inl (sql_error (''there is already an index named '' @ tb))
      else Inr (S\<lparr>sch_tables := sch_tables S @ [(tb, cs)]\<rparr>))"
| "exec_ddl (CreateIndex i tb cs) S =
     (if \<not> has_table S tb then Inl (sql_error (''no such table: main.'' @ tb))
      else if has_table S i then Inl (sql_error (''there is already a table named '' @ i))
      else if has_index S i then Inr S
      else case find (\<lambda>c. c \<notin> set (columns S tb)) cs of
        Some c \<Rightarrow> Inl (sql_error (''no such column: '' @ c))
      | None \<Rightarrow> Inr (S\<lparr>sch_indexes := sch_indexes S @ [(i, tb)]\<rparr>))"
| "exec_ddl (AddColumn tb c) S =
     (if \<not> has_table S tb then Inl (sql_error (''no such table: '' @ tb))
      else if c \<in> set (columns S tb) then Inl (sql_error (''duplicate column name: '' @ c))
      else Inr (S\<lparr>sch_tables := map (\<lambda>(t, cs). (t, if t = tb then cs @ [c] else cs)) (sch_tables S)\<rparr>))"
| "exec_ddl (DropTable tb) S =
     Inr (S\<lparr>sch_tables := filter (\<lambda>(t, cs). t \<noteq> tb) (sch_tables S), sch_indexes := filter (\<lambda>(i, t). t \<noteq> tb) (sch_indexes S)\<rparr>)"
| "exec_ddl (DropIndex i) S = Inr (S\<lparr>sch_indexes := filter (\<lambda>(i', t). i' \<noteq> i) (sch_indexes S)\<rparr>)"
| "exec_ddl FillProgress S =
     (if \<not> has_table S ''jobs'' then Inl (sql_error ''no such table: jobs'')
      else if ''progress'' \<notin> set (columns S ''jobs'') then Inl (sql_error ''no such column: progress'') else Inr S)"

text \<open>The database: the schema and the rows that migrations touch.\<close>

record Catalog =
  cat_schema :: Schema
  cat_crashes :: "string list"
  cat_inputs :: "(string \<times> string) list"
  cat_progress :: "int option list"

fun exec_rows :: "ddl \<Rightarrow> Catalog \<Rightarrow> Catalog" where
  "exec_rows (AddColumn tb c) t = (if tb = ''jobs'' \<and> c = ''progress'' then t\<lparr>cat_progress := map (\<lambda>_. Some 0) (cat_progress t)\<rparr> else t)"
| "exec_rows FillProgress t = t\<lparr>cat_progress := map (\<lambda>p. case p of None \<Rightarrow> Some 0 | Some v \<Rightarrow> Some v) (cat_progress t)\<rparr>"
| "exec_rows _ t = t"

definition run_ddl :: "Driver \<Rightarrow> ddl \<Rightarrow> Catalog sqlw \<Rightarrow> error option \<times> Catalog sqlw" where
  "run_ddl drv d = (\<lambda>(t, n). case drv_fault drv n of
       Some e \<Rightarrow> (Some e, (t, Suc n))
     | None \<Rightarrow> (case exec_ddl d (cat_schema t) of
         Inl e \<Rightarrow> (Some e, (t, Suc n))
       | Inr S \<Rightarrow> (None, ((exec_rows d t)\<lparr>cat_schema := S\<rparr>, Suc n))))"

section \<open>The base schema\<close>

text \<open>The script of \<open>createTablesContext\<close>; SQLite runs its statements one by one, each committed on its own.\<close>

definition base_tables :: "ddl list" where
  "base_tables =
    [CreateTable ''bots'' [''id'', ''name'', ''hostname'', ''status'', ''last_seen'', ''registered_at'', ''current_job'', ''capabilities'',
        ''timeout_at'', ''is_online'', ''failure_count'', ''api_endpoint'', ''created_at'', ''updated_at''],
     CreateTable ''jobs'' [''id'', ''name'', ''target'', ''fuzzer'', ''status'', ''assigned_bot'', ''created_at'', ''started_at'', ''completed_at'',
        ''timeout_at'', ''work_dir'', ''config'', ''progress'', ''campaign_id'', ''use_campaign_corpus'', ''collection_id'',
        ''enable_coverage'', ''coverage_format'', ''coverage_report_id'', ''lease_token'', ''lease_expires_at'',
        ''last_heartbeat'', ''updated_at''],
     CreateTable ''crashes'' [''id'', ''job_id'', ''bot_id'', ''hash'', ''file_path'', ''type'', ''signal'', ''exit_code'', ''timestamp'', ''size'',
        ''is_unique'', ''output'', ''stack_trace'', ''created_at''],
     CreateTable ''coverage'' [''id'', ''job_id'', ''bot_id'', ''edges'', ''new_edges'', ''timestamp'', ''exec_count'', ''created_at''],
     CreateTable ''corpus_updates'' [''id'', ''job_id'', ''bot_id'', ''files'', ''timestamp'', ''total_size'', ''created_at''],
     CreateTable ''job_assignments'' [''job_id'', ''bot_id'', ''timestamp'', ''status'', ''created_at''],
     CreateTable ''metadata'' [''key'', ''value'', ''updated_at''],
     CreateTable ''crash_inputs'' [''crash_id'', ''input'', ''created_at'']]"

definition coverage_tables :: "ddl list" where
  "coverage_tables =
    [CreateTable ''coverage_reports'' [''id'', ''job_id'', ''format'', ''storage_path'', ''size'', ''file_type'', ''fuzzer_stats_path'', ''plot_data_path'',
        ''fuzz_bitmap_path'', ''created_at''],
     CreateTable ''coverage_metadata'' [''id'', ''job_id'', ''report_id'', ''total_functions'', ''covered_functions'', ''total_lines'', ''covered_lines'',
        ''total_branches'', ''covered_branches'', ''function_coverage'', ''line_coverage'', ''branch_coverage'', ''created_at'',
        ''updated_at''],
     CreateTable ''job_logs'' [''id'', ''job_id'', ''level'', ''source'', ''message'', ''timestamp'', ''metadata'', ''created_at'']]"

definition base_indexes :: "ddl list" where
  "base_indexes =
    [CreateIndex ''idx_bots_status'' ''bots'' [''status''],
     CreateIndex ''idx_bots_timeout'' ''bots'' [''timeout_at''],
     CreateIndex ''idx_jobs_status'' ''jobs'' [''status''],
     CreateIndex ''idx_jobs_assigned_bot'' ''jobs'' [''assigned_bot''],
     CreateIndex ''idx_jobs_timeout'' ''jobs'' [''timeout_at''],
     CreateIndex ''idx_crashes_job_id'' ''crashes'' [''job_id''],
     CreateIndex ''idx_crashes_hash'' ''crashes'' [''hash''],
     CreateIndex ''idx_crashes_timestamp'' ''crashes'' [''timestamp''],
     CreateIndex ''idx_coverage_job_id'' ''coverage'' [''job_id''],
     CreateIndex ''idx_corpus_job_id'' ''corpus_updates'' [''job_id''],
     CreateIndex ''idx_jobs_enable_coverage'' ''jobs'' [''enable_coverage''],
     CreateIndex ''idx_jobs_coverage_report_id'' ''jobs'' [''coverage_report_id''],
     CreateIndex ''idx_coverage_reports_job_id'' ''coverage_reports'' [''job_id''],
     CreateIndex ''idx_coverage_reports_file_type'' ''coverage_reports'' [''file_type''],
     CreateIndex ''idx_coverage_metadata_job_id'' ''coverage_metadata'' [''job_id''],
     CreateIndex ''idx_coverage_metadata_report_id'' ''coverage_metadata'' [''report_id''],
     CreateIndex ''idx_job_logs_job_id'' ''job_logs'' [''job_id''],
     CreateIndex ''idx_job_logs_timestamp'' ''job_logs'' [''timestamp'']]"

definition base_schema :: "ddl list" where
  "base_schema = base_tables @ coverage_tables @ base_indexes"

lemmas base_schema_stmts = base_schema_def base_tables_def coverage_tables_def base_indexes_def

fun run_script :: "Driver \<Rightarrow> ddl list \<Rightarrow> Catalog sqlw \<Rightarrow> error option \<times> Catalog sqlw" where
  "run_script drv [] w = (None, w)"
| "run_script drv (d # ds) w = (case run_ddl drv d w of (None, w') \<Rightarrow> run_script drv ds w' | (Some e, w') \<Rightarrow> (Some e, w'))"

definition createTablesContext :: "Driver \<Rightarrow> Catalog sqlw \<Rightarrow> error option \<times> Catalog sqlw" where
  "createTablesContext drv w = (case run_script drv base_schema w of
       (None, w') \<Rightarrow> (None, w')
     | (Some e, w') \<Rightarrow> (Some (NewDatabaseError ''create_schema'' e), w'))"

section \<open>Migrations\<close>

text \<open>
  The steps of a migration. \<open>Must\<close> is a statement whose failure ends the migration; \<open>Unless\<close> asks whether a column exists and
  runs statements if not; \<open>Try\<close> is a statement whose failure is ignored; \<open>Populate\<close> is the loop of \<open>populateMissingCrashInputsUp\<close>.
\<close>

datatype mig_step = Must string ddl | Unless string string string "(string \<times> ddl) list" | Try ddl | Populate

record Migration =
  mig_ID :: string
  mig_Up :: "mig_step list"
  mig_Down :: "mig_step list"

definition placeholder_input :: "string \<Rightarrow> string" where
  "placeholder_input crashID = ''Input data for crash '' @ crashID @ '' is no longer available.'' @ [CHR 10] @
     ''This crash was found before input storage was implemented.''"

fun populate_loop :: "Driver \<Rightarrow> string list \<Rightarrow> Catalog sqlw \<Rightarrow> Catalog sqlw" where
  "populate_loop drv [] w = w"
| "populate_loop drv (c # cs) (t, n) = populate_loop drv cs (case drv_fault drv n of
       Some e \<Rightarrow> (t, Suc n)
     | None \<Rightarrow> (t\<lparr>cat_inputs := cat_inputs t @ [(c, placeholder_input c)]\<rparr>, Suc n))"

definition populate :: "Driver \<Rightarrow> Catalog sqlw \<Rightarrow> error option \<times> Catalog sqlw" where
  "populate drv = (\<lambda>(t, n).
     let msg = ''failed to query crashes without inputs: '';
         ids = filter (\<lambda>c. c \<notin> fst ` set (cat_inputs t)) (cat_crashes t)
     in case drv_fault drv n of
          Some e \<Rightarrow> (Some (WrapError msg e), (t, Suc n))
        | None \<Rightarrow>
            if \<not> has_table (cat_schema t) ''crashes'' then (Some (WrapError msg (sql_error ''no such table: crashes'')), (t, Suc n))
            else if \<not> has_table (cat_schema t) ''crash_inputs'' then (Some (WrapError msg (sql_error ''no such table: crash_inputs'')), (t, Suc n))
            else (case drv_rows drv n of
                    Some (k, e) \<Rightarrow> (Some e, populate_loop drv (take k ids) (t, Suc n))
                  | None \<Rightarrow> (None, populate_loop drv ids (t, Suc n))))"

fun run_all :: "Driver \<Rightarrow> (string \<times> ddl) list \<Rightarrow> Catalog sqlw \<Rightarrow> error option \<times> Catalog sqlw" where
  "run_all drv [] w = (None, w)"
| "run_all drv ((msg, d) # ds) w =
     (case run_ddl drv d w of (None, w') \<Rightarrow> run_all drv ds w' | (Some e, w') \<Rightarrow> (Some (WrapError msg e), w'))"

fun run_step :: "Driver \<Rightarrow> mig_step \<Rightarrow> Catalog sqlw \<Rightarrow> error option \<times> Catalog sqlw" where
  "run_step drv (Must msg d) w = run_all drv [(msg, d)] w"
| "run_step drv (Unless msg tb c ds) (t, n) = (case drv_fault drv n of
       Some e \<Rightarrow> (Some (WrapError msg e), (t, Suc n))
     | None \<Rightarrow> if c \<in> set (columns (cat_schema t) tb) then (None, (t, Suc n)) else run_all drv ds (t, Suc n))"
| "run_step drv (Try d) w = (None, snd (run_ddl drv d w))"
| "run_step drv Populate w = populate drv w"

fun run_steps :: "Driver \<Rightarrow> mig_step list \<Rightarrow> Catalog sqlw \<Rightarrow> error option \<times> Catalog sqlw" where
  "run_steps drv [] w = (None, w)"
| "run_steps drv (s # ss) w = (case run_step drv s w of (None, w') \<Rightarrow> run_steps drv ss w' | (Some e, w') \<Rightarrow> (Some e, w'))"

definition normalizeSchemaUp :: "mig_step list" where
  "normalizeSchemaUp =
    [Must ''failed to create bot_capabilities table: '' (CreateTable ''bot_capabilities'' [''bot_id'', ''capability'', ''created_at'']),
     Must ''failed to create job_configs table: '' (CreateTable ''job_configs'' [''job_id'', ''memory_limit'', ''timeout_seconds'', ''max_iterations'', ''dictionary_path'', ''seed_corpus'',
        ''extra_args'', ''env_vars'', ''created_at'']),
     Must ''failed to create corpus_files table: '' (CreateTable ''corpus_files'' [''id'', ''corpus_update_id'', ''file_path'', ''file_size'', ''file_hash'', ''created_at''])] @ map (Must ''failed to create index: '')
    [CreateIndex ''idx_bot_capabilities_bot_id'' ''bot_capabilities'' [''bot_id''],
     CreateIndex ''idx_job_configs_job_id'' ''job_configs'' [''job_id''],
     CreateIndex ''idx_corpus_files_update_id'' ''corpus_files'' [''corpus_update_id''],
     CreateIndex ''idx_crashes_job_id'' ''crashes'' [''job_id''],
     CreateIndex ''idx_crashes_bot_id'' ''crashes'' [''bot_id''],
     CreateIndex ''idx_crashes_hash'' ''crashes'' [''hash''],
     CreateIndex ''idx_coverage_job_id'' ''coverage'' [''job_id''],
     CreateIndex ''idx_coverage_timestamp'' ''coverage'' [''timestamp''],
     CreateIndex ''idx_jobs_status'' ''jobs'' [''status''],
     CreateIndex ''idx_jobs_assigned_bot'' ''jobs'' [''assigned_bot''],
     CreateIndex ''idx_bots_status'' ''bots'' [''status''],
     CreateIndex ''idx_bots_hostname'' ''bots'' [''hostname'']]"

definition addBotAPIEndpointUp :: "mig_step list" where
  "addBotAPIEndpointUp =
    [Unless ''failed to check for api_endpoint column: '' ''bots'' ''api_endpoint''
      [(''failed to add api_endpoint column: '', AddColumn ''bots'' ''api_endpoint''),
       (''failed to create api_endpoint index: '', CreateIndex ''idx_bots_api_endpoint'' ''bots'' [''api_endpoint''])]]"

definition addCrashOutputColumnsUp :: "mig_step list" where
  "addCrashOutputColumnsUp =
    [Unless ''failed to check for output column: '' ''crashes'' ''output'' [(''failed to add output column: '', AddColumn ''crashes'' ''output'')],
     Unless ''failed to check for stack_trace column: '' ''crashes'' ''stack_trace'' [(''failed to add stack_trace column: '', AddColumn ''crashes'' ''stack_trace'')]]"

definition populateMissingCrashInputsUp :: "mig_step list" where
  "populateMissingCrashInputsUp = [Populate]"

definition addJobProgressUp :: "mig_step list" where
  "addJobProgressUp =
    [Unless ''failed to check for progress column: '' ''jobs'' ''progress''
      [(''failed to add progress column: '', AddColumn ''jobs'' ''progress''),
       (''failed to set default progress values: '', FillProgress)]]"

definition campaign_group_tables :: "mig_step list" where
  "campaign_group_tables =
    [Must ''failed to create campaigns table: '' (CreateTable ''campaigns'' [''id'', ''name'', ''description'', ''status'', ''target_binary'', ''binary_hash'', ''created_at'', ''updated_at'',
        ''completed_at'', ''auto_restart'', ''max_duration'', ''max_jobs'', ''job_template'', ''shared_corpus'', ''tags'']),
     Must ''failed to create campaign_jobs table: '' (CreateTable ''campaign_jobs'' [''campaign_id'', ''job_id'', ''created_at'']),
     Must ''failed to create campaign_corpus_files table: '' (CreateTable ''campaign_corpus_files'' [''id'', ''campaign_id'', ''job_id'', ''bot_id'', ''filename'', ''hash'', ''size'', ''coverage'', ''new_coverage'',
        ''parent_hash'', ''generation'', ''created_at'', ''synced_at'', ''is_seed'']),
     Must ''failed to create corpus_evolution table: '' (CreateTable ''corpus_evolution'' [''campaign_id'', ''timestamp'', ''total_files'', ''total_size'', ''total_coverage'', ''new_files'', ''new_coverage'']),
     Must ''failed to create crash_groups table: '' (CreateTable ''crash_groups'' [''id'', ''campaign_id'', ''stack_hash'', ''first_seen'', ''last_seen'', ''count'', ''severity'', ''stack_frames'',
        ''example_crash'']),
     Must ''failed to create stack_traces table: '' (CreateTable ''stack_traces'' [''crash_id'', ''top_n_hash'', ''full_hash'', ''frames'', ''raw_trace''])]"

definition addCampaignTablesUp :: "mig_step list" where
  "addCampaignTablesUp =
    campaign_group_tables @
    [Unless ''failed to check for campaign_id column: '' ''crashes'' ''campaign_id'' [(''failed to add campaign_id column to crashes: '', AddColumn ''crashes'' ''campaign_id'')],
     Unless ''failed to check for crash_group_id column: '' ''crashes'' ''crash_group_id'' [(''failed to add crash_group_id column to crashes: '', AddColumn ''crashes'' ''crash_group_id'')]] @ map (Must ''failed to create index: '')
    [CreateIndex ''idx_campaign_status'' ''campaigns'' [''status''],
     CreateIndex ''idx_corpus_campaign'' ''campaign_corpus_files'' [''campaign_id''],
     CreateIndex ''idx_corpus_hash'' ''campaign_corpus_files'' [''hash''],
     CreateIndex ''idx_crash_group_campaign'' ''crash_groups'' [''campaign_id''],
     CreateIndex ''idx_stack_trace_hash'' ''stack_traces'' [''top_n_hash''],
     CreateIndex ''idx_crashes_campaign'' ''crashes'' [''campaign_id''],
     CreateIndex ''idx_crashes_group'' ''crashes'' [''crash_group_id'']]"

definition table_column :: "string \<times> string \<Rightarrow> mig_step" where
  "table_column = (\<lambda>(tb, c). Unless (''failed to check for '' @ tb @ ''.'' @ c @ '' column: '') tb c
     [(''failed to add '' @ tb @ ''.'' @ c @ '' column: '', AddColumn tb c)])"

definition addReproducibilityUp :: "mig_step list" where
  "addReproducibilityUp =
    map table_column
     [(''crashes'', ''reproducible''), (''crashes'', ''reproducibility_score''), (''crashes'', ''reproduction_attempts''), (''crashes'', ''last_reproduction_at''),
      (''jobs'', ''campaign_id''), (''jobs'', ''use_campaign_corpus''), (''campaign_corpus_files'', ''source_type''), (''campaign_corpus_files'', ''source_crash_id'')] @
    [Must ''failed to create reproduction_results table: '' (CreateTable ''reproduction_results'' [''id'', ''crash_id'', ''campaign_id'', ''job_id'', ''bot_id'', ''attempt_number'', ''success'', ''execution_time'',
        ''output'', ''stack_trace'', ''stack_hash'', ''matches_original'', ''created_at'', ''test_binary_hash'', ''corpus_used'',
        ''notes''])] @ map (Must ''failed to create index: '')
    [CreateIndex ''idx_crashes_reproducible'' ''crashes'' [''reproducible''],
     CreateIndex ''idx_crashes_reproducibility_score'' ''crashes'' [''reproducibility_score''],
     CreateIndex ''idx_reproduction_crash'' ''reproduction_results'' [''crash_id''],
     CreateIndex ''idx_reproduction_campaign'' ''reproduction_results'' [''campaign_id''],
     CreateIndex ''idx_reproduction_success'' ''reproduction_results'' [''success''],
     CreateIndex ''idx_reproduction_created'' ''reproduction_results'' [''created_at''],
     CreateIndex ''idx_jobs_campaign'' ''jobs'' [''campaign_id''],
     CreateIndex ''idx_corpus_source_crash'' ''campaign_corpus_files'' [''source_crash_id'']]"

definition addCorpusCollectionsUp :: "mig_step list" where
  "addCorpusCollectionsUp =
    [Must ''failed to create corpus_collections table: '' (CreateTable ''corpus_collections'' [''id'', ''name'', ''description'', ''created_at'', ''updated_at'', ''file_count'', ''total_size'', ''tags'']),
     Must ''failed to create corpus_collection_files table: '' (CreateTable ''corpus_collection_files'' [''id'', ''collection_id'', ''filename'', ''hash'', ''size'', ''uploaded_at''])] @ map (Must ''failed to create index: '')
    [CreateIndex ''idx_corpus_collections_name'' ''corpus_collections'' [''name''],
     CreateIndex ''idx_corpus_collection_files_collection_id'' ''corpus_collection_files'' [''collection_id''],
     CreateIndex ''idx_corpus_collection_files_hash'' ''corpus_collection_files'' [''hash'']] @
    [Try (AddColumn ''jobs'' ''collection_id'')]"

definition addRawCoverageFilesUp :: "mig_step list" where
  "addRawCoverageFilesUp =
    [Unless ''failed to check for file_type column: '' ''coverage_reports'' ''file_type'' [(''failed to add file_type column: '', AddColumn ''coverage_reports'' ''file_type'')],
     Unless ''failed to check for fuzzer_stats_path column: '' ''coverage_reports'' ''fuzzer_stats_path'' [(''failed to add fuzzer_stats_path column: '', AddColumn ''coverage_reports'' ''fuzzer_stats_path'')],
     Unless ''failed to check for plot_data_path column: '' ''coverage_reports'' ''plot_data_path'' [(''failed to add plot_data_path column: '', AddColumn ''coverage_reports'' ''plot_data_path'')],
     Unless ''failed to check for fuzz_bitmap_path column: '' ''coverage_reports'' ''fuzz_bitmap_path'' [(''failed to add fuzz_bitmap_path column: '', AddColumn ''coverage_reports'' ''fuzz_bitmap_path'')],
     Must ''failed to create file_type index: '' (CreateIndex ''idx_coverage_reports_file_type'' ''coverage_reports'' [''file_type''])]"

definition addLeaseManagementUp :: "mig_step list" where
  "addLeaseManagementUp =
    [Unless ''failed to check for lease_token column: '' ''jobs'' ''lease_token'' [(''failed to add lease_token column: '', AddColumn ''jobs'' ''lease_token'')],
     Unless ''failed to check for lease_expires_at column: '' ''jobs'' ''lease_expires_at'' [(''failed to add lease_expires_at column: '', AddColumn ''jobs'' ''lease_expires_at'')],
     Unless ''failed to check for last_heartbeat column: '' ''jobs'' ''last_heartbeat'' [(''failed to add last_heartbeat column: '', AddColumn ''jobs'' ''last_heartbeat'')],
     Must ''failed to create lease_expires_at index: '' (CreateIndex ''idx_jobs_lease_expires_at'' ''jobs'' [''lease_expires_at'']),
     Must ''failed to create status_lease index: '' (CreateIndex ''idx_jobs_status_lease'' ''jobs'' [''status'', ''lease_expires_at''])]"

definition drop_table :: "string \<Rightarrow> mig_step" where
  "drop_table tb = Must (''failed to drop table '' @ tb @ '': '') (DropTable tb)"

definition normalizeSchemaDown :: "mig_step list" where
  "normalizeSchemaDown = map drop_table [''corpus_files'', ''job_configs'', ''bot_capabilities'']"

definition addCampaignTablesDown :: "mig_step list" where
  "addCampaignTablesDown =
    map (\<lambda>i. Must ''failed to drop index: '' (DropIndex i))
    [''idx_campaign_status'', ''idx_corpus_campaign'', ''idx_corpus_hash'', ''idx_crash_group_campaign'',
     ''idx_stack_trace_hash'', ''idx_crashes_campaign'', ''idx_crashes_group''] @
    map drop_table [''corpus_evolution'', ''campaign_corpus_files'', ''stack_traces'', ''crash_groups'', ''campaign_jobs'', ''campaigns'']"

definition addReproducibilityDown :: "mig_step list" where
  "addReproducibilityDown =
    map (\<lambda>i. Must ''failed to drop index: '' (DropIndex i))
    [''idx_crashes_reproducible'', ''idx_crashes_reproducibility_score'', ''idx_reproduction_crash'', ''idx_reproduction_campaign'',
     ''idx_reproduction_success'', ''idx_reproduction_created'', ''idx_jobs_campaign'', ''idx_corpus_source_crash''] @
    [Must ''failed to drop reproduction_results table: '' (DropTable ''reproduction_results'')]"

definition addCorpusCollectionsDown :: "mig_step list" where
  "addCorpusCollectionsDown =
    map (\<lambda>i. Must ''failed to drop index: '' (DropIndex i))
    [''idx_corpus_collection_files_hash'', ''idx_corpus_collection_files_collection_id'', ''idx_corpus_collections_name''] @
    [Must ''failed to drop corpus_collection_files table: '' (DropTable ''corpus_collection_files''),
     Must ''failed to drop corpus_collections table: '' (DropTable ''corpus_collections'')]"

text \<open>The \<open>Down\<close> functions that only return nil are empty scripts.\<close>

definition GetMigrations :: "Migration list" where
  "GetMigrations =
    [\<lparr>mig_ID = ''001_normalize_schema'', mig_Up = normalizeSchemaUp, mig_Down = normalizeSchemaDown\<rparr>,
     \<lparr>mig_ID = ''002_add_bot_api_endpoint'', mig_Up = addBotAPIEndpointUp, mig_Down = []\<rparr>,
     \<lparr>mig_ID = ''003_add_crash_output_columns'', mig_Up = addCrashOutputColumnsUp, mig_Down = []\<rparr>,
     \<lparr>mig_ID = ''004_populate_missing_crash_inputs'', mig_Up = populateMissingCrashInputsUp, mig_Down = []\<rparr>,
     \<lparr>mig_ID = ''005_add_job_progress'', mig_Up = addJobProgressUp, mig_Down = []\<rparr>,
     \<lparr>mig_ID = ''006_add_campaign_tables'', mig_Up = addCampaignTablesUp, mig_Down = addCampaignTablesDown\<rparr>,
     \<lparr>mig_ID = ''007_reproducibility'', mig_Up = addReproducibilityUp, mig_Down = addReproducibilityDown\<rparr>,
     \<lparr>mig_ID = ''008_corpus_collections'', mig_Up = addCorpusCollectionsUp, mig_Down = addCorpusCollectionsDown\<rparr>,
     \<lparr>mig_ID = ''009_add_raw_coverage_files'', mig_Up = addRawCoverageFilesUp, mig_Down = []\<rparr>,
     \<lparr>mig_ID = ''010_add_lease_management'', mig_Up = addLeaseManagementUp, mig_Down = []\<rparr>]"

text \<open>One migration: the check, the transaction around \<open>Up\<close> and the row in \<open>schema_migrations\<close>. A transaction that does not commit
  leaves the database as it was.\<close>

definition apply_migration :: "Driver \<Rightarrow> Migration \<Rightarrow> Catalog sqlw \<Rightarrow> error option \<times> Catalog sqlw" where
  "apply_migration drv m = (\<lambda>(t, n). case drv_fault drv n of
       Some e \<Rightarrow> (Some (WrapError (''failed to check migration '' @ mig_ID m @ '': '') e), (t, Suc n))
     | None \<Rightarrow> if mig_ID m \<in> set (sch_applied (cat_schema t)) then (None, (t, Suc n))
       else case drv_fault drv (Suc n) of
         Some e \<Rightarrow> (Some (WrapError (''failed to begin transaction for migration '' @ mig_ID m @ '': '') e), (t, n + 2))
       | None \<Rightarrow> (case run_steps drv (mig_Up m) (t, n + 2) of
           (Some e, (t1, n1)) \<Rightarrow> (Some (WrapError (''failed to apply migration '' @ mig_ID m @ '': '') e), (t, Suc n1))
         | (None, (t1, n1)) \<Rightarrow> (case drv_fault drv n1 of
             Some e \<Rightarrow> (Some (WrapError (''failed to record migration '' @ mig_ID m @ '': '') e), (t, n1 + 2))
           | None \<Rightarrow> (case drv_fault drv (Suc n1) of
               Some e \<Rightarrow> (Some (WrapError (''failed to commit migration '' @ mig_ID m @ '': '') e), (t, n1 + 2))
             | None \<Rightarrow> (None, (t1\<lparr>cat_schema := (cat_schema t1)\<lparr>sch_applied := sch_applied (cat_schema t1) @ [mig_ID m]\<rparr>\<rparr>, n1 + 2))))))"

fun migrate_loop :: "Driver \<Rightarrow> Migration list \<Rightarrow> Catalog sqlw \<Rightarrow> error option \<times> Catalog sqlw" where
  "migrate_loop drv [] w = (None, w)"
| "migrate_loop drv (m # ms) w = (case apply_migration drv m w of (None, w') \<Rightarrow> migrate_loop drv ms w' | (Some e, w') \<Rightarrow> (Some e, w'))"

definition migrations_table :: ddl where
  "migrations_table = CreateTable ''schema_migrations'' [''id'', ''applied_at'']"

definition MigrateExistingData :: "Driver \<Rightarrow> Catalog sqlw \<Rightarrow> error option \<times> Catalog sqlw" where
  "MigrateExistingData drv w = (case run_ddl drv migrations_table w of
       (None, w') \<Rightarrow> migrate_loop drv GetMigrations w'
     | (Some e, w') \<Rightarrow> (Some (WrapError ''failed to create migrations table: '' e), w'))"

text \<open>
  The part of \<open>NewSQLiteStorage\<close> after the pool is open: both calls go through \<open>ConnectionPool.ExecuteWithRetry\<close> with the background
  context, which never ends; \<open>h1\<close> and \<open>h2\<close> are what \<open>IsHealthy\<close> returns at the two calls.
\<close>

definition pool_run :: "bool \<Rightarrow> RetryOptions \<Rightarrow> string \<Rightarrow> (Catalog sqlw \<Rightarrow> error option \<times> Catalog sqlw) \<Rightarrow> Catalog sqlw \<Rightarrow> error option \<times> Catalog sqlw" where
  "pool_run h opts operation fn w =
     (if h then WithRetryVoid opts (\<lambda>s. (None, s)) fn w
      else (Some (NewDatabaseError operation (ErrorString ''connection pool is unhealthy'')), w))"

definition init_database :: "Driver \<Rightarrow> RetryOptions \<Rightarrow> bool \<Rightarrow> bool \<Rightarrow> Catalog sqlw \<Rightarrow> error option \<times> Catalog sqlw" where
  "init_database drv opts h1 h2 w =
     (case pool_run h1 opts ''create_tables'' (createTablesContext drv) w of
        (Some e, w1) \<Rightarrow> (Some (NewDatabaseError ''create_tables'' e), w1)
      | (None, w1) \<Rightarrow> (case pool_run h2 opts ''migrate_data'' (MigrateExistingData drv) w1 of
          (Some e, w2) \<Rightarrow> (Some (NewDatabaseError ''apply_migrations'' e), w2)
        | (None, w2) \<Rightarrow> (None, w2)))"

section \<open>The schema without faults\<close>

text \<open>What a migration means for the schema when no statement is disturbed.\<close>

fun ddls :: "ddl list \<Rightarrow> Schema \<Rightarrow> Schema result" where
  "ddls [] S = Inr S"
| "ddls (d # ds) S = (case exec_ddl d S of Inl e \<Rightarrow> Inl e | Inr S' \<Rightarrow> ddls ds S')"

fun ref_step :: "mig_step \<Rightarrow> Schema \<Rightarrow> Schema result" where
  "ref_step (Must msg d) S = exec_ddl d S"
| "ref_step (Unless msg tb c ds) S = (if c \<in> set (columns S tb) then Inr S else ddls (map snd ds) S)"
| "ref_step (Try d) S = (case exec_ddl d S of Inl e \<Rightarrow> Inr S | Inr S' \<Rightarrow> Inr S')"
| "ref_step Populate S =
     (if has_table S ''crashes'' \<and> has_table S ''crash_inputs'' then Inr S else Inl (sql_error ''no such table''))"

fun ref_steps :: "mig_step list \<Rightarrow> Schema \<Rightarrow> Schema result" where
  "ref_steps [] S = Inr S"
| "ref_steps (s # ss) S = (case ref_step s S of Inl e \<Rightarrow> Inl e | Inr S' \<Rightarrow> ref_steps ss S')"

fun ref_migrations :: "Migration list \<Rightarrow> Schema \<Rightarrow> Schema result" where
  "ref_migrations [] S = Inr S"
| "ref_migrations (m # ms) S = (case ref_steps (mig_Up m) S of
       Inl e \<Rightarrow> Inl e
     | Inr S' \<Rightarrow> ref_migrations ms (S'\<lparr>sch_applied := sch_applied S' @ [mig_ID m]\<rparr>))"

definition full_schema :: "Schema \<Rightarrow> Schema result" where
  "full_schema S = (case ddls (base_schema @ [migrations_table]) S of Inl e \<Rightarrow> Inl e | Inr B \<Rightarrow> ref_migrations GetMigrations B)"

lemma ddls_append: "ddls (xs @ ys) S = (case ddls xs S of Inl e \<Rightarrow> Inl e | Inr S' \<Rightarrow> ddls ys S')"
  by (induction xs arbitrary: S) (auto split: sum.splits)

lemma ref_migrations_append: "ref_migrations (xs @ ys) S = (case ref_migrations xs S of Inl e \<Rightarrow> Inl e | Inr S' \<Rightarrow> ref_migrations ys S')"
  by (induction xs arbitrary: S) (auto split: sum.splits)

section \<open>Growth\<close>

definition extends :: "Schema \<Rightarrow> Schema \<Rightarrow> bool" where
  "extends S S' \<longleftrightarrow> (\<forall>tb. has_table S tb \<longrightarrow> has_table S' tb) \<and> (\<forall>i. has_index S i \<longrightarrow> has_index S' i) \<and>
     (\<forall>tb. set (columns S tb) \<subseteq> set (columns S' tb)) \<and> (\<forall>i. has_index S i \<longrightarrow> has_table S' i \<longrightarrow> has_table S i)"

lemma extends_refl [simp]: "extends S S"
  by (simp add: extends_def)

lemma extends_trans [trans]:
  assumes "extends S S'" "extends S' S''"
  shows "extends S S''"
  unfolding extends_def
proof (intro conjI allI impI)
  fix tb i
  show "has_table S tb \<Longrightarrow> has_table S'' tb" "has_index S i \<Longrightarrow> has_index S'' i" "set (columns S tb) \<subseteq> set (columns S'' tb)"
    using assms unfolding extends_def by (meson subset_trans)+
  show "has_index S i \<Longrightarrow> has_table S'' i \<Longrightarrow> has_table S i" using assms unfolding extends_def by meson
qed

lemma extends_applied [simp]: "extends S (S'\<lparr>sch_applied := a\<rparr>) \<longleftrightarrow> extends S S'" "extends (S\<lparr>sch_applied := a\<rparr>) S' \<longleftrightarrow> extends S S'"
  by (simp_all add: extends_def columns_def)

fun grow :: "ddl \<Rightarrow> bool" where
  "grow (DropTable tb) = False"
| "grow (DropIndex i) = False"
| "grow _ = True"

lemma columns_no_table: "\<not> has_table S tb \<Longrightarrow> columns S tb = []"
  by (auto simp: columns_def map_of_eq_None_iff split: option.splits) (metis fst_conv imageI map_of_SomeD)

lemma columns_create:
  "columns (S\<lparr>sch_tables := sch_tables S @ [(tb, cs)]\<rparr>) t = (if t = tb \<and> \<not> has_table S tb then cs else columns S t)"
proof (cases "has_table S t")
  case True
  then obtain cs' where "map_of (sch_tables S) t = Some cs'" by (metis not_None_eq map_of_eq_None_iff)
  then show ?thesis using True by (auto simp: columns_def map_add_def)
next
  case False
  then have "map_of (sch_tables S) t = None" by (simp add: map_of_eq_None_iff)
  then show ?thesis using False by (auto simp: columns_def map_add_def)
qed

lemma map_of_add_column:
  "map_of (map (\<lambda>(t, cs). (t, if t = tb then cs @ [c] else cs)) ts) t' =
     map_option (\<lambda>cs. if t' = tb then cs @ [c] else cs) (map_of ts t')"
  by (induction ts) auto

lemma exec_extends: "exec_ddl d S = Inr S' \<Longrightarrow> grow d \<Longrightarrow> extends S S'"
proof (cases d)
  case (CreateTable tb cs)
  assume "exec_ddl d S = Inr S'" "grow d"
  then have S': "S' = S \<or> \<not> has_table S tb \<and> \<not> has_index S tb \<and> S' = S\<lparr>sch_tables := sch_tables S @ [(tb, cs)]\<rparr>"
    using CreateTable by (auto split: if_splits)
  moreover have "set (columns S t) \<subseteq> set (columns (S\<lparr>sch_tables := sch_tables S @ [(tb, cs)]\<rparr>) t)" for t
    by (simp add: columns_create columns_no_table)
  ultimately show ?thesis by (elim disjE) (simp, simp add: extends_def, blast)
next
  case (CreateIndex i tb cs)
  assume "exec_ddl d S = Inr S'" "grow d"
  then have "S' = S \<or> S' = S\<lparr>sch_indexes := sch_indexes S @ [(i, tb)]\<rparr>" using CreateIndex by (auto split: if_splits option.splits)
  then show ?thesis using CreateIndex \<open>exec_ddl d S = Inr S'\<close> by (auto simp: extends_def columns_def split: if_splits option.splits)
next
  case (AddColumn tb c)
  assume "exec_ddl d S = Inr S'" "grow d"
  then have S': "S' = S\<lparr>sch_tables := map (\<lambda>(t, cs). (t, if t = tb then cs @ [c] else cs)) (sch_tables S)\<rparr>"
    using AddColumn by (auto split: if_splits)
  have "fst ` set (sch_tables S') = fst ` set (sch_tables S)" by (force simp: S')
  then show ?thesis by (auto simp: S' extends_def columns_def map_of_add_column split: option.splits)
qed (auto split: if_splits)

lemma ddls_extends: "ddls ds S = Inr S' \<Longrightarrow> list_all grow ds \<Longrightarrow> extends S S'"
  by (induction ds arbitrary: S) (auto split: sum.splits dest: exec_extends intro: extends_trans)

fun step_ddls :: "mig_step \<Rightarrow> ddl list" where
  "step_ddls (Must msg d) = [d]"
| "step_ddls (Unless msg tb c ds) = map snd ds"
| "step_ddls (Try d) = [d]"
| "step_ddls Populate = []"

abbreviation grow_step :: "mig_step \<Rightarrow> bool" where
  "grow_step s \<equiv> list_all grow (step_ddls s)"

lemma ref_step_extends: "ref_step s S = Inr S' \<Longrightarrow> grow_step s \<Longrightarrow> extends S S'"
  by (cases s) (auto split: if_splits sum.splits dest: exec_extends ddls_extends)

lemma ref_steps_extends: "ref_steps ss S = Inr S' \<Longrightarrow> list_all grow_step ss \<Longrightarrow> extends S S'"
  by (induction ss arbitrary: S) (auto split: sum.splits dest: ref_step_extends intro: extends_trans)

lemma ref_migrations_extends: "ref_migrations ms S = Inr S' \<Longrightarrow> list_all (\<lambda>m. list_all grow_step (mig_Up m)) ms \<Longrightarrow> extends S S'"
proof (induction ms arbitrary: S)
  case (Cons m ms)
  then obtain S1 where S1: "ref_steps (mig_Up m) S = Inr S1" "ref_migrations ms (S1\<lparr>sch_applied := sch_applied S1 @ [mig_ID m]\<rparr>) = Inr S'"
    by (auto split: sum.splits)
  have "extends S S1" using ref_steps_extends [OF S1(1)] Cons.prems(2) by simp
  moreover have "extends S1 S'" using Cons.IH [OF S1(2)] Cons.prems(2) by simp
  ultimately show ?case by (rule extends_trans)
qed simp

text \<open>A statement of the base schema that was run once does nothing from then on.\<close>

fun created :: "ddl \<Rightarrow> Schema \<Rightarrow> bool" where
  "created (CreateTable tb cs) S = has_table S tb"
| "created (CreateIndex i tb cs) S = (has_table S tb \<and> \<not> has_table S i \<and> has_index S i)"
| "created _ S = False"

fun is_create :: "ddl \<Rightarrow> bool" where
  "is_create (CreateTable tb cs) = True"
| "is_create (CreateIndex i tb cs) = True"
| "is_create _ = False"

lemma created_noop: "created d S \<Longrightarrow> exec_ddl d S = Inr S"
  by (cases d) auto

lemma exec_created: "exec_ddl d S = Inr S' \<Longrightarrow> is_create d \<Longrightarrow> created d S'"
  by (cases d) (auto split: if_splits option.splits)

lemma created_extends: "created d S \<Longrightarrow> extends S S' \<Longrightarrow> created d S'"
  by (cases d) (auto simp: extends_def)

lemma is_create_grow: "is_create d \<Longrightarrow> grow d"
  by (cases d) auto

lemma ddls_created: "ddls ds S = Inr S' \<Longrightarrow> list_all is_create ds \<Longrightarrow> list_all (\<lambda>d. created d S') ds"
proof (induction ds arbitrary: S)
  case (Cons d ds)
  then obtain S1 where S1: "exec_ddl d S = Inr S1" "ddls ds S1 = Inr S'" by (auto split: sum.splits)
  have "extends S1 S'" using ddls_extends [OF S1(2)] Cons.prems(2) by (auto simp: list_all_iff is_create_grow)
  then show ?case using Cons exec_created [OF S1(1)] S1(2) created_extends by auto
qed simp

lemma ddls_noop: "list_all (\<lambda>d. created d S) ds \<Longrightarrow> ddls ds S = Inr S"
  by (induction ds) (auto simp: created_noop)

section \<open>Runs with faults\<close>

lemma run_ddl_Some: "run_ddl drv d w = (Some e, w') \<Longrightarrow> fst w' = fst w"
  by (auto simp: run_ddl_def split: prod.splits option.splits sum.splits)

lemma exec_rows_schema [simp]: "cat_schema (exec_rows d t) = cat_schema t"
  by (cases d) auto

lemma run_ddl_None: "run_ddl drv d w = (None, w') \<Longrightarrow> exec_ddl d (cat_schema (fst w)) = Inr (cat_schema (fst w'))"
  by (auto simp: run_ddl_def split: prod.splits option.splits sum.splits)

lemma run_all_None: "run_all drv ds w = (None, w') \<Longrightarrow> ddls (map snd ds) (cat_schema (fst w)) = Inr (cat_schema (fst w'))"
  by (induction drv ds w rule: run_all.induct) (auto split: prod.splits option.splits dest: run_ddl_None)

text \<open>A script that stops has run a part of its statements.\<close>

lemma run_script_prefix:
  "run_script drv ds w = (e, w') \<Longrightarrow>
     \<exists>us vs. ds = us @ vs \<and> ddls us (cat_schema (fst w)) = Inr (cat_schema (fst w')) \<and> (e = None \<longrightarrow> vs = [])"
proof (induction drv ds w rule: run_script.induct)
  case (2 drv d ds w)
  obtain e1 w1 where Pair: "run_ddl drv d w = (e1, w1)" by (cases "run_ddl drv d w")
  show ?case
  proof (cases e1)
    case None
    then obtain us vs where "ds = us @ vs" "ddls us (cat_schema (fst w1)) = Inr (cat_schema (fst w'))" "e = None \<longrightarrow> vs = []"
      using "2.IH" [OF Pair [symmetric] None] "2.prems" Pair by auto
    then show ?thesis using run_ddl_None Pair None by (intro exI [of _ "d # us"] exI [of _ vs]) simp
  next
    case (Some x)
    then have "fst w' = fst w" "e = Some x" using Pair "2.prems" run_ddl_Some by fastforce+
    then show ?thesis by (intro exI [of _ "[]"] exI [of _ "d # ds"]) simp
  qed
qed simp

text \<open>The ignored statement makes no difference when its column exists.\<close>

fun firm :: "Schema \<Rightarrow> mig_step \<Rightarrow> bool" where
  "firm S (Try (AddColumn tb c)) = (c \<in> set (columns S tb))"
| "firm S (Try d) = False"
| "firm S s = True"

lemma firm_extends: "firm S s \<Longrightarrow> extends S S' \<Longrightarrow> firm S' s"
  by (induction S s rule: firm.induct) (auto simp: extends_def)

lemma populate_loop_schema [simp]: "cat_schema (fst (populate_loop drv cs w)) = cat_schema (fst w)"
  by (induction drv cs w rule: populate_loop.induct) (auto split: option.splits)

lemma populate_None: "populate drv w = (None, w') \<Longrightarrow> ref_step Populate (cat_schema (fst w)) = Inr (cat_schema (fst w'))"
  using populate_loop_schema [of drv _ "(fst w, Suc (snd w))"]
  by (auto simp: populate_def Let_def split: prod.splits option.splits if_splits)

lemma run_step_None:
  assumes "run_step drv s w = (None, w')" and "firm (cat_schema (fst w)) s"
  shows "ref_step s (cat_schema (fst w)) = Inr (cat_schema (fst w'))"
proof (cases s)
  case (Must msg d)
  then show ?thesis using run_all_None [of drv "[(msg, d)]" w w'] assms(1) by (auto split: sum.splits)
next
  case (Unless msg tb c ds)
  then show ?thesis using assms(1) run_all_None [of drv ds "(fst w, Suc (snd w))" w']
    by (cases w) (auto split: option.splits if_splits)
next
  case (Try d)
  then obtain tb c where d: "d = AddColumn tb c" and c: "c \<in> set (columns (cat_schema (fst w)) tb)"
    using assms(2) by (cases d) auto
  then have x: "\<exists>e. exec_ddl d (cat_schema (fst w)) = Inl e" using columns_no_table by fastforce
  then have "fst (snd (run_ddl drv d w)) = fst w" by (auto simp: run_ddl_def split: prod.splits option.splits)
  then show ?thesis using x Try assms(1) by auto
next
  case Populate
  then show ?thesis using assms(1) populate_None by simp
qed

lemma run_steps_None:
  "run_steps drv ss w = (None, w') \<Longrightarrow> list_all (firm (cat_schema (fst w))) ss \<Longrightarrow> list_all grow_step ss \<Longrightarrow>
     ref_steps ss (cat_schema (fst w)) = Inr (cat_schema (fst w'))"
proof (induction drv ss w rule: run_steps.induct)
  case (2 drv s ss w)
  from "2.prems"(1) obtain w1 where w1: "run_step drv s w = (None, w1)" "run_steps drv ss w1 = (None, w')"
    by (auto split: prod.splits option.splits)
  have r: "ref_step s (cat_schema (fst w)) = Inr (cat_schema (fst w1))" using run_step_None [OF w1(1)] "2.prems"(2) by simp
  then have "extends (cat_schema (fst w)) (cat_schema (fst w1))" using ref_step_extends "2.prems"(3) by simp
  then have "list_all (firm (cat_schema (fst w1))) ss" using "2.prems"(2) firm_extends by (auto simp: list_all_iff)
  then show ?case using "2.IH" [OF w1(1) [symmetric] refl w1(2)] "2.prems"(3) r by simp
qed simp

section \<open>Restarts\<close>

lemma apply_migration_cases:
  assumes "apply_migration drv m w = (e, w')" and "list_all (firm (cat_schema (fst w))) (mig_Up m)" and "list_all grow_step (mig_Up m)"
  shows "fst w' = fst w \<and> (e = None \<longrightarrow> mig_ID m \<in> set (sch_applied (cat_schema (fst w)))) \<or>
    e = None \<and> mig_ID m \<notin> set (sch_applied (cat_schema (fst w))) \<and> ref_migrations [m] (cat_schema (fst w)) = Inr (cat_schema (fst w'))"
proof -
  obtain t n where w: "w = (t, n)" by (cases w)
  obtain r t1 n1 where r: "run_steps drv (mig_Up m) (t, n + 2) = (r, (t1, n1))" by (metis prod.exhaust)
  have "r = None \<Longrightarrow> ref_steps (mig_Up m) (cat_schema t) = Inr (cat_schema t1)"
    using run_steps_None [of drv "mig_Up m" "(t, n + 2)" "(t1, n1)"] r assms(2,3) w by simp
  then show ?thesis using assms(1) r unfolding w apply_migration_def by (auto split: option.splits if_splits)
qed

text \<open>Of the ten migrations only the eighth has an ignored statement, and none removes anything.\<close>

lemma migrations_grow: "list_all (\<lambda>m. list_all grow_step (mig_Up m)) GetMigrations"
  by (simp add: GetMigrations_def normalizeSchemaUp_def addBotAPIEndpointUp_def addCrashOutputColumnsUp_def populateMissingCrashInputsUp_def
      addJobProgressUp_def addCampaignTablesUp_def campaign_group_tables_def addReproducibilityUp_def table_column_def addCorpusCollectionsUp_def addRawCoverageFilesUp_def addLeaseManagementUp_def)

lemma migrations_firm:
  "''collection_id'' \<in> set (columns S ''jobs'') \<Longrightarrow> list_all (\<lambda>m. list_all (firm S) (mig_Up m)) GetMigrations"
  by (simp add: GetMigrations_def normalizeSchemaUp_def addBotAPIEndpointUp_def addCrashOutputColumnsUp_def populateMissingCrashInputsUp_def
      addJobProgressUp_def addCampaignTablesUp_def campaign_group_tables_def addReproducibilityUp_def table_column_def addCorpusCollectionsUp_def addRawCoverageFilesUp_def addLeaseManagementUp_def)

lemma migrations_distinct: "distinct (map mig_ID GetMigrations)"
  by (simp add: GetMigrations_def)

lemma base_creates: "list_all is_create (base_schema @ [migrations_table])"
  by (simp add: base_schema_stmts migrations_table_def)

definition empty_schema :: Schema where
  "empty_schema = \<lparr>sch_tables = [], sch_indexes = [], sch_applied = []\<rparr>"

lemma exec_applied: "exec_ddl d S = Inr S' \<Longrightarrow> sch_applied S' = sch_applied S"
  by (cases d) (auto split: if_splits option.splits)

lemma ddls_applied: "ddls ds S = Inr S' \<Longrightarrow> sch_applied S' = sch_applied S"
  by (induction ds arbitrary: S) (auto split: sum.splits dest: exec_applied)

lemma ref_steps_applied: "ref_steps ss S = Inr S' \<Longrightarrow> sch_applied S' = sch_applied S"
proof (induction ss arbitrary: S)
  case (Cons s ss)
  then obtain S1 where S1: "ref_step s S = Inr S1" "ref_steps ss S1 = Inr S'" by (auto split: sum.splits)
  have "sch_applied S1 = sch_applied S" using S1(1) by (cases s) (auto split: if_splits sum.splits dest: exec_applied ddls_applied)
  then show ?case using Cons.IH [OF S1(2)] by simp
qed simp

lemma ref_migrations_applied: "ref_migrations ms S = Inr S' \<Longrightarrow> sch_applied S' = sch_applied S @ map mig_ID ms"
  by (induction ms arbitrary: S) (auto split: sum.splits dest: ref_steps_applied)

text \<open>The schema stays between the base schema and the full one: some statements of the script have run, or all of them and some migrations.\<close>

inductive staged :: "Schema \<Rightarrow> Schema \<Rightarrow> bool" for S0 where
  part: "base_schema @ [migrations_table] = us @ vs \<Longrightarrow> ddls us S0 = Inr S \<Longrightarrow> staged S0 S"
| migrated: "ddls (base_schema @ [migrations_table]) S0 = Inr B \<Longrightarrow> GetMigrations = us @ vs \<Longrightarrow> ref_migrations us B = Inr S \<Longrightarrow> staged S0 S"

abbreviation complete :: "Schema \<Rightarrow> bool" where
  "complete S \<equiv> list_all (\<lambda>d. created d S) base_schema"

definition origin :: "Schema \<Rightarrow> bool" where
  "origin S0 \<longleftrightarrow> sch_applied S0 = [] \<and> (has_table S0 ''jobs'' \<longrightarrow> ''collection_id'' \<in> set (columns S0 ''jobs''))"

lemma creates_prefix: "base_schema @ [migrations_table] = us @ vs \<Longrightarrow> list_all is_create us \<and> list_all is_create vs"
  using base_creates by simp

lemma migrated_complete:
  assumes "ddls (base_schema @ [migrations_table]) S0 = Inr B" "GetMigrations = us @ vs" "ref_migrations us B = Inr S"
  shows "complete S \<and> created migrations_table S"
proof -
  have "extends B S" using ref_migrations_extends [OF assms(3)] migrations_grow unfolding assms(2) list_all_append by blast
  moreover have "list_all (\<lambda>d. created d B) (base_schema @ [migrations_table])" using ddls_created [OF assms(1) base_creates] .
  ultimately show ?thesis using created_extends by (auto simp: list_all_iff)
qed

text \<open>Running a part of the script again continues where it stopped.\<close>

lemma rerun_prefix:
  assumes "ddls us S0 = Inr S" and c: "list_all is_create (us @ vs)" and "us @ vs = xs @ ys" and "ddls xs S = Inr S'"
  shows "\<exists>us' vs'. us @ vs = us' @ vs' \<and> ddls us' S0 = Inr S'"
proof -
  have cr: "list_all (\<lambda>d. created d S) us" using ddls_created [OF assms(1)] c by simp
  from assms(3) consider zs where "us = xs @ zs" "ys = zs @ vs" | zs where "xs = us @ zs" "vs = zs @ ys"
    by (metis append_eq_append_conv2)
  then show ?thesis
  proof cases
    case 1
    then have "S' = S" using ddls_noop [of S xs] cr assms(4) by simp
    then show ?thesis using assms(1) by blast
  next
    case 2
    then have "ddls zs S = Inr S'" using assms(4) ddls_noop [OF cr] by (simp add: ddls_append)
    then have "ddls (us @ zs) S0 = Inr S'" using assms(1) by (simp add: ddls_append)
    then show ?thesis using 2(2) by (intro exI [of _ "us @ zs"] exI [of _ ys]) simp
  qed
qed

lemma staged_rerun:
  assumes "staged S0 S" and "base_schema = xs @ ys" and "ddls xs S = Inr S'"
  shows "staged S0 S'"
  using assms(1)
proof cases
  case (part us vs)
  have eq: "us @ vs = xs @ (ys @ [migrations_table])" using part(1) by (simp add: assms(2))
  have "list_all is_create (us @ vs)" using base_creates part(1) by simp
  from rerun_prefix [OF part(2) this eq assms(3)] obtain us' vs' where "us @ vs = us' @ vs'" "ddls us' S0 = Inr S'" by blast
  then show ?thesis using staged.part [of us' vs' S0 S'] part(1) by simp
next
  case (migrated B us vs)
  have "list_all (\<lambda>d. created d S) xs" using migrated_complete [OF migrated] unfolding assms(2) list_all_append by blast
  then show ?thesis using ddls_noop assms by fastforce
qed

lemma createTables_staged:
  assumes "staged S0 (cat_schema (fst w))" and "createTablesContext drv w = (e, w')"
  shows "staged S0 (cat_schema (fst w')) \<and> (e = None \<longrightarrow> complete (cat_schema (fst w')))"
proof -
  obtain e1 where r: "run_script drv base_schema w = (e1, w')" "e1 = None \<longleftrightarrow> e = None"
    using assms(2) by (auto simp: createTablesContext_def split: prod.splits option.splits)
  obtain us vs where u: "base_schema = us @ vs" "ddls us (cat_schema (fst w)) = Inr (cat_schema (fst w'))" "e1 = None \<longrightarrow> vs = []"
    using run_script_prefix [OF r(1)] by blast
  have "e = None \<Longrightarrow> complete (cat_schema (fst w'))" using u r(2) ddls_created [OF u(2)] base_creates by simp
  then show ?thesis using staged_rerun [OF assms(1) u(1,2)] by blast
qed

lemma staged_migrated:
  assumes "staged S0 S" "complete S" "exec_ddl migrations_table S = Inr S1"
  shows "\<exists>B us vs. ddls (base_schema @ [migrations_table]) S0 = Inr B \<and> GetMigrations = us @ vs \<and> ref_migrations us B = Inr S1"
  using assms(1)
proof cases
  case (part us vs)
  have cr: "list_all (\<lambda>d. created d S) us" using ddls_created [OF part(2)] base_creates part(1) by simp
  have "ddls (base_schema @ [migrations_table]) S0 = ddls vs S" using part by (simp add: ddls_append)
  also have "\<dots> = ddls (base_schema @ [migrations_table]) S" using part(1) ddls_noop [OF cr] by (simp add: ddls_append)
  also have "\<dots> = Inr S1" using assms(3) ddls_noop [OF assms(2)] by (simp add: ddls_append)
  finally show ?thesis by (intro exI [of _ S1] exI [of _ "[]"] exI [of _ GetMigrations]) simp
next
  case (migrated B us vs)
  then have "S1 = S" using migrated_complete [OF migrated] created_noop [of migrations_table S] assms(3) by simp
  then show ?thesis using migrated by blast
qed

lemma base_collection:
  assumes "origin S0" and "ddls (base_schema @ [migrations_table]) S0 = Inr B"
  shows "''collection_id'' \<in> set (columns B ''jobs'')"
proof -
  let ?Q = "\<lambda>S. has_table S ''jobs'' \<longrightarrow> ''collection_id'' \<in> set (columns S ''jobs'')"
  let ?ok = "\<lambda>d. is_create d \<and> (\<forall>cs. d = CreateTable ''jobs'' cs \<longrightarrow> ''collection_id'' \<in> set cs)"
  have step: "?Q S'" if q: "?Q S" and x: "exec_ddl d S = Inr S'" and ok: "?ok d" for d S S'
  proof (cases "has_table S ''jobs''")
    case True
    then have "''collection_id'' \<in> set (columns S ''jobs'')" using q by blast
    moreover have "extends S S'" using exec_extends [OF x] is_create_grow ok by blast
    ultimately show ?thesis unfolding extends_def by blast
  next
    case False
    show ?thesis
    proof (cases "\<exists>cs. d = CreateTable ''jobs'' cs")
      case True
      then show ?thesis using x ok False by (clarsimp simp: columns_create split: if_splits)
    next
      case other: False
      have "\<not> has_table S' ''jobs''" using x ok False other by (cases d) (auto split: if_splits option.splits)
      then show ?thesis by blast
    qed
  qed
  have "?Q S \<Longrightarrow> ddls ds S = Inr S' \<Longrightarrow> list_all ?ok ds \<Longrightarrow> ?Q S'" for ds S S'
  proof (induction ds arbitrary: S)
    case (Cons d ds)
    then obtain S1 where S1: "exec_ddl d S = Inr S1" "ddls ds S1 = Inr S'" by (auto split: sum.splits)
    show ?case by (rule Cons.IH [OF step [OF Cons.prems(1) S1(1)] S1(2)]) (use Cons.prems(3) in simp_all)
  qed simp
  moreover have "list_all ?ok (base_schema @ [migrations_table])" by (simp add: base_schema_stmts migrations_table_def)
  moreover have "has_table B ''jobs''"
    using ddls_created [OF assms(2) base_creates] by (simp add: base_schema_stmts)
  ultimately show ?thesis using assms unfolding origin_def by blast
qed

lemma skip_applied:
  assumes "\<forall>m \<in> set ms. mig_ID m \<in> set (sch_applied (cat_schema (fst w)))" and "migrate_loop drv (ms @ vs) w = (e, w')"
  shows "(\<exists>x. e = Some x) \<and> fst w' = fst w \<or> (\<exists>w1. fst w1 = fst w \<and> migrate_loop drv vs w1 = (e, w'))"
  using assms
proof (induction ms arbitrary: w)
  case (Cons m ms)
  obtain t n where w: "w = (t, n)" by (cases w)
  show ?case
  proof (cases "drv_fault drv n")
    case None
    then have "apply_migration drv m w = (None, (t, Suc n))" using Cons.prems(1) by (simp add: w apply_migration_def)
    then have "migrate_loop drv (ms @ vs) (t, Suc n) = (e, w')" using Cons.prems(2) by simp
    from Cons.IH [OF _ this] show ?thesis using Cons.prems(1) by (auto simp: w)
  next
    case (Some x)
    then show ?thesis using Cons.prems(2) by (auto simp: w apply_migration_def)
  qed
qed auto

lemma next_migration:
  assumes B: "ddls (base_schema @ [migrations_table]) S0 = Inr B" "origin S0" and ms: "GetMigrations = us @ m # vs" and "ref_migrations us B = Inr S"
  shows "list_all (firm S) (mig_Up m)" and "list_all grow_step (mig_Up m)" and "mig_ID m \<notin> set (sch_applied S)"
proof -
  have "extends B S" using ref_migrations_extends [OF assms(4)] migrations_grow unfolding ms list_all_append by blast
  then have "''collection_id'' \<in> set (columns S ''jobs'')" using base_collection [OF B(2,1)] unfolding extends_def by blast
  then show "list_all (firm S) (mig_Up m)" using migrations_firm [of S] unfolding ms list_all_append by simp
  show "list_all grow_step (mig_Up m)" using migrations_grow unfolding ms list_all_append by simp
  have "sch_applied S = map mig_ID us"
    using ref_migrations_applied [OF assms(4)] ddls_applied [OF B(1)] B(2) by (simp add: origin_def)
  then show "mig_ID m \<notin> set (sch_applied S)" using migrations_distinct unfolding ms by simp
qed

lemma migrate_rest:
  assumes B: "ddls (base_schema @ [migrations_table]) S0 = Inr B" "origin S0"
    and "GetMigrations = us @ vs" and "ref_migrations us B = Inr (cat_schema (fst w))" and "migrate_loop drv vs w = (e, w')"
  shows "\<exists>us' vs'. GetMigrations = us' @ vs' \<and> ref_migrations us' B = Inr (cat_schema (fst w')) \<and> (e = None \<longrightarrow> vs' = [])"
  using assms(3-5)
proof (induction vs arbitrary: us w)
  case Nil
  then show ?case by auto
next
  case (Cons m vs)
  let ?S = "cat_schema (fst w)"
  note fm = next_migration [OF B Cons.prems(1,2)]
  obtain e1 w1 where a: "apply_migration drv m w = (e1, w1)" by (cases "apply_migration drv m w")
  note c = apply_migration_cases [OF a fm(1,2)]
  show ?case
  proof (cases e1)
    case None
    then have "ref_migrations [m] ?S = Inr (cat_schema (fst w1))" using c fm(3) by simp
    then have "ref_migrations (us @ [m]) B = Inr (cat_schema (fst w1))" using Cons.prems(2) by (simp add: ref_migrations_append)
    moreover have "migrate_loop drv vs w1 = (e, w')" using Cons.prems(3) a None by simp
    ultimately show ?thesis using Cons.IH [of "us @ [m]" w1] Cons.prems(1) by simp
  next
    case (Some x)
    then have "w' = w1" "e = Some x" "fst w1 = fst w" using c Cons.prems(3) a by auto
    then show ?thesis using Cons.prems(1,2) by auto
  qed
qed

lemma Migrate_staged:
  assumes "staged S0 (cat_schema (fst w))" "complete (cat_schema (fst w))" "origin S0" and m: "MigrateExistingData drv w = (e, w')"
  shows "staged S0 (cat_schema (fst w')) \<and> complete (cat_schema (fst w')) \<and> (e = None \<longrightarrow> full_schema S0 = Inr (cat_schema (fst w')))"
proof -
  obtain e1 w1 where r: "run_ddl drv migrations_table w = (e1, w1)" by (cases "run_ddl drv migrations_table w")
  show ?thesis
  proof (cases e1)
    case (Some x)
    then show ?thesis using m r run_ddl_Some [of drv migrations_table w x w1] assms(1,2) by (auto simp: MigrateExistingData_def)
  next
    case None
    obtain B us vs where B: "ddls (base_schema @ [migrations_table]) S0 = Inr B" "GetMigrations = us @ vs" "ref_migrations us B = Inr (cat_schema (fst w1))"
      using staged_migrated [OF assms(1,2)] run_ddl_None r None by metis
    have l: "migrate_loop drv (us @ vs) w1 = (e, w')" using m r None B(2) by (simp add: MigrateExistingData_def)
    have ap: "\<forall>m \<in> set us. mig_ID m \<in> set (sch_applied (cat_schema (fst w1)))" using ref_migrations_applied [OF B(3)] by simp
    have "\<exists>us' vs'. GetMigrations = us' @ vs' \<and> ref_migrations us' B = Inr (cat_schema (fst w')) \<and> (e = None \<longrightarrow> vs' = [])"
      using skip_applied [OF ap l]
    proof
      assume "(\<exists>x. e = Some x) \<and> fst w' = fst w1"
      then show ?thesis using B by auto
    next
      assume "\<exists>w2. fst w2 = fst w1 \<and> migrate_loop drv vs w2 = (e, w')"
      then obtain w2 where "fst w2 = fst w1" "migrate_loop drv vs w2 = (e, w')" by blast
      then show ?thesis using migrate_rest [OF B(1) assms(3) B(2), of w2 drv e w'] B(3) by presburger
    qed
    then obtain us' vs' where u: "GetMigrations = us' @ vs'" "ref_migrations us' B = Inr (cat_schema (fst w'))" "e = None \<longrightarrow> vs' = []" by blast
    then show ?thesis using staged.migrated [OF B(1) u(1,2)] migrated_complete [OF B(1) u(1,2)] B(1) by (auto simp: full_schema_def)
  qed
qed

lemma pool_run_rule:
  assumes "I (fst w)" and "\<And>w e w'. I (fst w) \<Longrightarrow> fn w = (e, w') \<Longrightarrow> (case e of None \<Rightarrow> Q (fst w') | Some x \<Rightarrow> I (fst w'))"
    and "pool_run h opts operation fn w = (e, w')"
  shows "case e of None \<Rightarrow> Q (fst w') | Some x \<Rightarrow> I (fst w')"
proof -
  have "case WithRetryVoid opts (\<lambda>s. (None, s)) fn w of (None, s') \<Rightarrow> Q (fst s') | (Some x, s') \<Rightarrow> I (fst s')"
  proof (rule WithRetryVoid_rule [where I = "\<lambda>s. I (fst s)"])
    show "I (fst w)" by (rule assms(1))
  next
    fix s :: "Catalog \<times> nat"
    assume "I (fst s)"
    then show "case fn s of (None, s') \<Rightarrow> Q (fst s') | (Some x, s') \<Rightarrow> I (fst s')"
      using assms(2) [of s "fst (fn s)" "snd (fn s)"] by (auto split: prod.splits option.splits)
  qed auto
  then show ?thesis using assms(1,3) by (auto simp: pool_run_def split: if_splits option.splits prod.splits)
qed

lemma init_staged:
  assumes "staged S0 (cat_schema (fst w))" "origin S0" and i: "init_database drv opts h1 h2 w = (e, w')"
  shows "staged S0 (cat_schema (fst w')) \<and> (e = None \<longrightarrow> full_schema S0 = Inr (cat_schema (fst w')))"
proof -
  obtain e1 w1 where c: "pool_run h1 opts ''create_tables'' (createTablesContext drv) w = (e1, w1)"
    by (cases "pool_run h1 opts ''create_tables'' (createTablesContext drv) w")
  have c1: "case e1 of None \<Rightarrow> staged S0 (cat_schema (fst w1)) \<and> complete (cat_schema (fst w1)) | Some x \<Rightarrow> staged S0 (cat_schema (fst w1))"
    by (rule pool_run_rule [where I = "\<lambda>t. staged S0 (cat_schema t)" and Q = "\<lambda>t. staged S0 (cat_schema t) \<and> complete (cat_schema t)", OF assms(1) _ c])
      (auto dest: createTables_staged split: option.splits)
  show ?thesis
  proof (cases e1)
    case (Some x)
    then show ?thesis using c1 c i by (auto simp: init_database_def)
  next
    case None
    obtain e2 w2 where m: "pool_run h2 opts ''migrate_data'' (MigrateExistingData drv) w1 = (e2, w2)"
      by (cases "pool_run h2 opts ''migrate_data'' (MigrateExistingData drv) w1")
    let ?I = "\<lambda>t. staged S0 (cat_schema t) \<and> complete (cat_schema t)"
    have "case e2 of None \<Rightarrow> ?I (fst w2) \<and> full_schema S0 = Inr (cat_schema (fst w2)) | Some x \<Rightarrow> ?I (fst w2)"
    proof (rule pool_run_rule [where I = ?I and Q = "\<lambda>t. ?I t \<and> full_schema S0 = Inr (cat_schema t)", OF _ _ m])
      show "?I (fst w1)" using c1 None by simp
    next
      fix w e w'
      assume "?I (fst w)" "MigrateExistingData drv w = (e, w')"
      then show "case e of None \<Rightarrow> ?I (fst w') \<and> full_schema S0 = Inr (cat_schema (fst w')) | Some x \<Rightarrow> ?I (fst w')"
        using Migrate_staged [OF _ _ assms(2), of w drv e w'] by (cases e) simp_all
    qed
    then show ?thesis using c m i None by (auto simp: init_database_def split: option.splits)
  qed
qed

text \<open>Restarts of the program, each with its own faults.\<close>

inductive restarts :: "Catalog \<Rightarrow> Catalog \<Rightarrow> bool" for t0 where
  start: "restarts t0 t0"
| again: "restarts t0 t \<Longrightarrow> init_database drv opts h1 h2 (t, n) = (e, (t', n')) \<Longrightarrow> restarts t0 t'"

lemma restarts_staged: "restarts t0 t \<Longrightarrow> origin (cat_schema t0) \<Longrightarrow> staged (cat_schema t0) (cat_schema t)"
proof (induction rule: restarts.induct)
  case start
  show ?case by (rule staged.part [of "[]"]) simp_all
next
  case (again t drv opts h1 h2 n e t' n')
  then show ?case using init_staged [of "cat_schema t0" "(t, n)" drv opts h1 h2 e "(t', n')"] by simp
qed

lemma staged_below:
  assumes "staged S0 S" and "full_schema S0 = Inr F"
  shows "extends S F"
proof -
  obtain B where B: "ddls (base_schema @ [migrations_table]) S0 = Inr B" "ref_migrations GetMigrations B = Inr F"
    using assms(2) by (auto simp: full_schema_def split: sum.splits)
  show ?thesis using assms(1)
  proof cases
    case (part us vs)
    have "ddls vs S = Inr B" using B(1) part by (simp add: ddls_append)
    then have "extends S B" using ddls_extends creates_prefix [OF part(1)] is_create_grow by (auto simp: list_all_iff)
    also have "extends B F" using ref_migrations_extends [OF B(2) migrations_grow] .
    finally show ?thesis .
  next
    case (migrated B' us vs)
    then have "B' = B" using B(1) by simp
    then have "ref_migrations (us @ vs) B = Inr F" "ref_migrations us B = Inr S" using B(2) migrated by simp_all
    then have "ref_migrations vs S = Inr F" by (simp add: ref_migrations_append)
    then show ?thesis using ref_migrations_extends migrations_grow unfolding migrated(2) list_all_append by blast
  qed
qed

section \<open>A start without faults\<close>

lemma healthy_fault [simp]: "drv_fault healthy n = None" "drv_rows healthy n = None"
  by (simp_all add: healthy_def)

lemma run_ddl_healthy: "exec_ddl d (cat_schema (fst w)) = Inr S \<Longrightarrow> \<exists>w'. run_ddl healthy d w = (None, w') \<and> cat_schema (fst w') = S"
  by (cases w) (simp add: run_ddl_def)

lemma run_script_healthy: "ddls ds (cat_schema (fst w)) = Inr S \<Longrightarrow> \<exists>w'. run_script healthy ds w = (None, w')"
proof (induction ds arbitrary: w)
  case (Cons d ds)
  then obtain S1 where "exec_ddl d (cat_schema (fst w)) = Inr S1" "ddls ds S1 = Inr S" by (auto split: sum.splits)
  then show ?case using Cons.IH run_ddl_healthy by fastforce
qed simp

lemma run_all_healthy: "ddls (map snd ds) (cat_schema (fst w)) = Inr S \<Longrightarrow> \<exists>w'. run_all healthy ds w = (None, w')"
proof (induction ds arbitrary: w)
  case (Cons x ds)
  obtain msg d where x: "x = (msg, d)" by (cases x)
  from Cons.prems obtain S1 where "exec_ddl d (cat_schema (fst w)) = Inr S1" "ddls (map snd ds) S1 = Inr S"
    by (auto simp: x split: sum.splits)
  then show ?case using Cons.IH run_ddl_healthy x by fastforce
qed simp

lemma run_step_healthy: "ref_step s (cat_schema (fst w)) = Inr S \<Longrightarrow> \<exists>w'. run_step healthy s w = (None, w')"
proof (cases s)
  case (Must msg d)
  assume "ref_step s (cat_schema (fst w)) = Inr S"
  then show ?thesis using Must run_all_healthy [of "[(msg, d)]" w S] by simp
next
  case (Unless msg tb c ds)
  assume "ref_step s (cat_schema (fst w)) = Inr S"
  then show ?thesis using Unless run_all_healthy [of ds "(fst w, Suc (snd w))" S] by (cases w) (auto split: if_splits)
next
  case Populate
  assume "ref_step s (cat_schema (fst w)) = Inr S"
  then show ?thesis using Populate by (cases w) (auto simp: populate_def split: if_splits)
qed auto

lemma run_steps_healthy:
  "ref_steps ss (cat_schema (fst w)) = Inr S \<Longrightarrow> list_all (firm (cat_schema (fst w))) ss \<Longrightarrow> list_all grow_step ss \<Longrightarrow>
     \<exists>w'. run_steps healthy ss w = (None, w')"
proof (induction ss arbitrary: w)
  case (Cons s ss)
  then obtain S1 where S1: "ref_step s (cat_schema (fst w)) = Inr S1" "ref_steps ss S1 = Inr S" by (auto split: sum.splits)
  obtain w1 where w1: "run_step healthy s w = (None, w1)" using run_step_healthy [OF S1(1)] by blast
  then have r: "cat_schema (fst w1) = S1" using run_step_None [OF w1] Cons.prems(2) S1(1) by simp
  have "extends (cat_schema (fst w)) S1" using ref_step_extends [OF S1(1)] Cons.prems(3) by simp
  then have "list_all (firm (cat_schema (fst w1))) ss" using Cons.prems(2) firm_extends r by (auto simp: list_all_iff)
  then show ?case using Cons.IH [of w1] S1(2) r w1 Cons.prems(3) by simp
qed simp

lemma apply_migration_healthy:
  assumes "ref_steps (mig_Up m) (cat_schema (fst w)) = Inr S" and "list_all (firm (cat_schema (fst w))) (mig_Up m)" and "list_all grow_step (mig_Up m)"
  shows "\<exists>w'. apply_migration healthy m w = (None, w')"
proof -
  obtain t n where w: "w = (t, n)" by (cases w)
  obtain t1 n1 where "run_steps healthy (mig_Up m) (t, n + 2) = (None, (t1, n1))"
    using run_steps_healthy [of "mig_Up m" "(t, n + 2)" S] assms by (auto simp: w)
  then show ?thesis by (auto simp: w apply_migration_def)
qed

lemma migrate_loop_healthy:
  assumes B: "ddls (base_schema @ [migrations_table]) S0 = Inr B" "origin S0" "ref_migrations GetMigrations B = Inr F"
    and "GetMigrations = us @ vs" and "ref_migrations us B = Inr (cat_schema (fst w))"
  shows "\<exists>w'. migrate_loop healthy vs w = (None, w')"
  using assms(4-5)
proof (induction vs arbitrary: us w)
  case (Cons m vs)
  let ?S = "cat_schema (fst w)"
  have "ref_migrations (us @ m # vs) B = Inr F" using B(3) Cons.prems(1) by simp
  then obtain S1 where S1: "ref_steps (mig_Up m) ?S = Inr S1" using Cons.prems(2) by (auto simp: ref_migrations_append split: sum.splits)
  note fm = next_migration [OF B(1,2) Cons.prems(1,2)]
  obtain w1 where a: "apply_migration healthy m w = (None, w1)" using apply_migration_healthy [OF S1 fm(1,2)] by blast
  have "ref_migrations [m] ?S = Inr (cat_schema (fst w1))" using apply_migration_cases [OF a fm(1,2)] fm(3) by blast
  then have "ref_migrations (us @ [m]) B = Inr (cat_schema (fst w1))" using Cons.prems(2) by (simp add: ref_migrations_append)
  then show ?case using Cons.IH [of "us @ [m]" w1] Cons.prems(1) a by simp
qed simp

lemma skip_healthy:
  "\<forall>m \<in> set us. mig_ID m \<in> set (sch_applied (cat_schema t)) \<Longrightarrow> migrate_loop healthy (us @ vs) (t, n) = migrate_loop healthy vs (t, n + length us)"
  by (induction us arbitrary: n) (simp_all add: apply_migration_def)

lemma pool_run_healthy:
  "fn w = (None, w') \<Longrightarrow> 0 \<le> ro_MaxRetries opts \<Longrightarrow> pool_run True opts operation fn w = (None, w')"
  unfolding pool_run_def WithRetryVoid_def WithRetry_def by (subst WithRetry_loop.simps) simp

lemma init_healthy:
  assumes "staged S0 S" "origin S0" "full_schema S0 = Inr F" "0 \<le> ro_MaxRetries opts" "cat_schema t = S"
  shows "\<exists>w'. init_database healthy opts True True (t, n) = (None, w')"
proof -
  obtain B where B: "ddls (base_schema @ [migrations_table]) S0 = Inr B" "ref_migrations GetMigrations B = Inr F"
    using assms(3) by (auto simp: full_schema_def split: sum.splits)
  have base: "\<exists>S'. ddls (base_schema @ [migrations_table]) S = Inr S'" using assms(1)
  proof cases
    case (part us vs)
    have "ddls us S = Inr S" using ddls_noop ddls_created [OF part(2)] creates_prefix [OF part(1)] by blast
    then have "ddls (base_schema @ [migrations_table]) S = Inr B" using B(1) part by (simp add: ddls_append)
    then show ?thesis by blast
  next
    case (migrated B' us vs)
    then show ?thesis using migrated_complete [OF migrated] ddls_noop [of S "base_schema @ [migrations_table]"] by simp
  qed
  then obtain S1 where S1: "ddls base_schema S = Inr S1" by (auto simp: ddls_append split: sum.splits)
  obtain w1 where s: "run_script healthy base_schema (t, n) = (None, w1)" using run_script_healthy [of base_schema "(t, n)" S1] S1 assms(5) by auto
  then have c: "createTablesContext healthy (t, n) = (None, w1)" by (simp add: createTablesContext_def)
  have st: "staged S0 (cat_schema (fst w1))" "complete (cat_schema (fst w1))" using createTables_staged [OF _ c] assms(1,5) by auto
  have "ddls base_schema S = Inr (cat_schema (fst w1))" using run_script_prefix [OF s] assms(5) by auto
  then obtain S2 where S2: "exec_ddl migrations_table (cat_schema (fst w1)) = Inr S2" using base by (auto simp: ddls_append split: sum.splits)
  obtain w2 where w2: "run_ddl healthy migrations_table w1 = (None, w2)" "cat_schema (fst w2) = S2" using run_ddl_healthy [OF S2] by blast
  obtain us vs where u: "GetMigrations = us @ vs" "ref_migrations us B = Inr S2" using staged_migrated [OF st S2] B(1) by auto
  have ap: "\<forall>m \<in> set us. mig_ID m \<in> set (sch_applied (cat_schema (fst w2)))" using ref_migrations_applied [OF u(2)] w2(2) by simp
  obtain t2 n2 where w2': "w2 = (t2, n2)" by (cases w2)
  obtain w3 where "migrate_loop healthy vs (t2, n2 + length us) = (None, w3)"
    using migrate_loop_healthy [OF B(1) assms(2) B(2) u(1), of "(t2, n2 + length us)"] u(2) w2(2) w2' by auto
  then have "MigrateExistingData healthy w1 = (None, w3)"
    using w2(1) skip_healthy [of us t2 vs n2] ap w2' u(1) by (simp add: MigrateExistingData_def)
  then show ?thesis using pool_run_healthy [of "createTablesContext healthy" "(t, n)" w1 opts] c pool_run_healthy [of "MigrateExistingData healthy" w1 w3 opts] assms(4)
    by (simp add: init_database_def)
qed

section \<open>Properties\<close>

lemma full_empty_facts:
  "case full_schema empty_schema of Inl e \<Rightarrow> False
   | Inr F \<Rightarrow> ''updated_at'' \<notin> set (columns F ''crashes'') \<and> ''idx_bots_api_endpoint'' \<notin> fst ` set (sch_indexes F)"
  by code_simp


lemma fresh_full: "\<exists>F. full_schema empty_schema = Inr F \<and> ''updated_at'' \<notin> set (columns F ''crashes'') \<and> \<not> has_index F ''idx_bots_api_endpoint''"
  using full_empty_facts by (auto split: sum.splits)

lemma origin_empty: "origin empty_schema"
  by (simp add: origin_def empty_schema_def)

definition fresh_catalog :: Catalog where
  "fresh_catalog = \<lparr>cat_schema = empty_schema, cat_crashes = [], cat_inputs = [], cat_progress = []\<rparr>"

definition broken :: Driver where
  "broken = \<lparr>drv_fault = (\<lambda>_. Some (SqliteError ''disk I/O error'' 10 10)), drv_rows = (\<lambda>_. None), drv_ctx = (\<lambda>_. None)\<rparr>"

text \<open>C36: Starts that are interrupted at any statement converge. Take a database file that was empty, and any number of starts of the
  program on it, each with its own failing statements, failing commits and retries. The schema never leaves the range up to the full
  schema; whenever a start reports success, the tables, columns, indexes and recorded migrations are exactly
  those of one undisturbed start; and a start without faults always succeeds.
\<close>

theorem restarts_converge:
  assumes "restarts t0 t" and "cat_schema t0 = empty_schema"
  shows "\<exists>F. full_schema empty_schema = Inr F \<and> extends (cat_schema t) F \<and>
    (\<forall>drv opts h1 h2 n t' n'. init_database drv opts h1 h2 (t, n) = (None, (t', n')) \<longrightarrow> cat_schema t' = F) \<and>
    (\<forall>opts n. 0 \<le> ro_MaxRetries opts \<longrightarrow> fst (init_database healthy opts True True (t, n)) = None)"
proof -
  obtain F where F: "full_schema empty_schema = Inr F" using fresh_full by blast
  have st: "staged empty_schema (cat_schema t)" using restarts_staged [OF assms(1)] assms(2) origin_empty by simp
  have "cat_schema t' = F" if "init_database drv opts h1 h2 (t, n) = (None, (t', n'))" for drv opts h1 h2 n t' n'
    using init_staged [of empty_schema "(t, n)", OF _ origin_empty that] st F by simp
  moreover have "fst (init_database healthy opts True True (t, n)) = None" if "0 \<le> ro_MaxRetries opts" for opts n
    using init_healthy [OF st origin_empty F that refl, of n] by auto
  ultimately show ?thesis using F staged_below [OF st F] by blast
qed

theorem restarts_converge_witness:
  "\<exists>F. full_schema empty_schema = Inr F \<and> cat_schema (fst (snd (init_database healthy DefaultRetryOptions True True
     (fst (snd (init_database broken DefaultRetryOptions True True (fresh_catalog, 0))), 0)))) = F"
proof -
  let ?b = "init_database broken DefaultRetryOptions True True (fresh_catalog, 0)"
  have "restarts fresh_catalog (fst (snd ?b))"
    by (rule restarts.again [OF restarts.start, where drv = broken and opts = DefaultRetryOptions and n = 0 and e = "fst ?b" and n' = "snd (snd ?b)"]) simp
  moreover have "cat_schema fresh_catalog = empty_schema" by (simp add: fresh_catalog_def)
  ultimately obtain F where F: "full_schema empty_schema = Inr F"
      "\<And>drv opts h1 h2 n t' n'. init_database drv opts h1 h2 (fst (snd ?b), n) = (None, (t', n')) \<Longrightarrow> cat_schema t' = F"
      "\<And>opts n. 0 \<le> ro_MaxRetries opts \<Longrightarrow> fst (init_database healthy opts True True (fst (snd ?b), n)) = None"
    using restarts_converge by blast
  let ?h = "init_database healthy DefaultRetryOptions True True (fst (snd ?b), 0)"
  have "fst ?h = None" by (rule F(3)) (simp add: DefaultRetryOptions_def)
  then have "?h = (None, (fst (snd ?h), snd (snd ?h)))" by (metis prod.collapse)
  from F(2) [OF this] show ?thesis using F(1) by blast
qed

text \<open>The script of the base schema needs a column that an older table does not have.\<close>

definition blocked :: "Schema \<Rightarrow> bool" where
  "blocked S \<longleftrightarrow> has_table S ''coverage_reports'' \<and> ''file_type'' \<notin> set (columns S ''coverage_reports'') \<and>
     \<not> has_index S ''idx_coverage_reports_file_type''"

definition type_index :: ddl where
  "type_index = CreateIndex ''idx_coverage_reports_file_type'' ''coverage_reports'' [''file_type'']"

lemma blocked_type_index: "blocked S \<Longrightarrow> \<exists>e. exec_ddl type_index S = Inl e"
  by (auto simp: blocked_def type_index_def)

lemma blocked_step:
  assumes "blocked S" "exec_ddl d S = Inr S'" "is_create d" and i: "\<And>tb cs. d = CreateIndex ''idx_coverage_reports_file_type'' tb cs \<Longrightarrow> d = type_index"
  shows "blocked S'"
proof (cases d)
  case (CreateTable tb cs)
  then have "S' = S \<or> \<not> has_table S tb \<and> S' = S\<lparr>sch_tables := sch_tables S @ [(tb, cs)]\<rparr>" using assms(2) by (auto split: if_splits)
  moreover have "blocked (S\<lparr>sch_tables := sch_tables S @ [(tb, cs)]\<rparr>)" if "\<not> has_table S tb"
  proof -
    have "tb \<noteq> ''coverage_reports''" using that assms(1) unfolding blocked_def by blast
    then show ?thesis using assms(1) unfolding blocked_def columns_create by simp
  qed
  ultimately show ?thesis using assms(1) by blast
next
  case (CreateIndex i tb cs)
  then have "i \<noteq> ''idx_coverage_reports_file_type''" using assms(4) blocked_type_index [OF assms(1)] assms(2) by fastforce
  moreover have "S' = S \<or> S' = S\<lparr>sch_indexes := sch_indexes S @ [(i, tb)]\<rparr>" using CreateIndex assms(2) by (auto split: if_splits option.splits)
  ultimately show ?thesis using assms(1) by (elim disjE) (simp_all add: blocked_def columns_def)
qed (use assms(3) in auto)

lemma blocked_ddls:
  "blocked S \<Longrightarrow> ddls ds S = Inr S' \<Longrightarrow> list_all is_create ds \<Longrightarrow>
     (\<And>tb cs. CreateIndex ''idx_coverage_reports_file_type'' tb cs \<in> set ds \<Longrightarrow> CreateIndex ''idx_coverage_reports_file_type'' tb cs = type_index) \<Longrightarrow>
     blocked S' \<and> type_index \<notin> set ds"
proof (induction ds arbitrary: S)
  case (Cons d ds)
  then obtain S1 where S1: "exec_ddl d S = Inr S1" "ddls ds S1 = Inr S'" by (auto split: sum.splits)
  have "blocked S1" by (rule blocked_step [OF Cons.prems(1) S1(1)]) (use Cons.prems(3,4) in auto)
  moreover have "d \<noteq> type_index" using blocked_type_index [OF Cons.prems(1)] S1(1) by auto
  ultimately show ?case using Cons.IH [OF _ S1(2)] Cons.prems(3,4) by auto
qed simp

lemma base_type_index: "type_index \<in> set base_schema" "CreateIndex ''idx_coverage_reports_file_type'' tb cs \<in> set base_schema \<Longrightarrow> CreateIndex ''idx_coverage_reports_file_type'' tb cs = type_index"
  by (simp_all add: type_index_def base_schema_stmts)

lemma blocked_create:
  assumes "blocked (cat_schema (fst w))" and "createTablesContext drv w = (e, w')"
  shows "e \<noteq> None \<and> blocked (cat_schema (fst w'))"
proof -
  obtain e1 where r: "run_script drv base_schema w = (e1, w')" "e1 = None \<longleftrightarrow> e = None"
    using assms(2) by (auto simp: createTablesContext_def split: prod.splits option.splits)
  obtain us vs where u: "base_schema = us @ vs" "ddls us (cat_schema (fst w)) = Inr (cat_schema (fst w'))" "e1 = None \<longrightarrow> vs = []"
    using run_script_prefix [OF r(1)] by blast
  have "set us \<subseteq> set base_schema" "list_all is_create us" using base_creates unfolding u(1) by auto
  then have "blocked (cat_schema (fst w')) \<and> type_index \<notin> set us" using blocked_ddls [OF assms(1) u(2)] base_type_index(2) by blast
  then show ?thesis using u(1,3) r(2) base_type_index(1) by auto
qed

lemma blocked_init:
  assumes "blocked (cat_schema (fst w))" and i: "init_database drv opts h1 h2 w = (e, w')"
  shows "e \<noteq> None \<and> blocked (cat_schema (fst w'))"
proof -
  obtain e1 w1 where c: "pool_run h1 opts ''create_tables'' (createTablesContext drv) w = (e1, w1)"
    by (cases "pool_run h1 opts ''create_tables'' (createTablesContext drv) w")
  have "case e1 of None \<Rightarrow> False | Some x \<Rightarrow> blocked (cat_schema (fst w1))"
    by (rule pool_run_rule [where I = "\<lambda>t. blocked (cat_schema t)" and Q = "\<lambda>_. False", OF assms(1) _ c])
      (use blocked_create in \<open>fastforce split: option.splits\<close>)
  then show ?thesis using c i by (auto simp: init_database_def split: option.splits)
qed

text \<open>C37: A database from before migration 009 cannot be opened. If \<open>coverage_reports\<close> exists without the column \<open>file_type\<close> (and so without
  its index), every start fails, whatever the driver does and however often it is repeated: the script of the base schema creates an index on
  that column and runs before the migration that would add it, so the column is never added.
\<close>

theorem upgrade_blocked:
  assumes "restarts t0 t" and "blocked (cat_schema t0)"
  shows "fst (init_database drv opts h1 h2 (t, n)) \<noteq> None \<and> ''file_type'' \<notin> set (columns (cat_schema t) ''coverage_reports'')"
proof -
  have "blocked (cat_schema t)" using assms
    by (induction rule: restarts.induct) (auto dest!: blocked_init [rotated])
  then show ?thesis using blocked_init [of "(t, n)" drv opts h1 h2] unfolding blocked_def by (metis fst_conv prod.collapse)
qed

definition old_catalog :: Catalog where
  "old_catalog = fresh_catalog\<lparr>cat_schema := \<lparr>sch_tables = [(''coverage_reports'', [''id'', ''job_id'', ''format'', ''storage_path'', ''size'', ''created_at''])],
     sch_indexes = [], sch_applied = []\<rparr>\<rparr>"

theorem upgrade_blocked_witness: "fst (init_database healthy DefaultRetryOptions True True (old_catalog, 0)) \<noteq> None"
proof -
  have "blocked (cat_schema old_catalog)" by (simp add: blocked_def old_catalog_def columns_def)
  from upgrade_blocked [OF restarts.start this] show ?thesis by blast
qed

end
