(* ===== verification/Repro_Sqlite.thy ===== *)
theory Repro_Sqlite
  imports Repro_Service Sqlite_Schema Go_Regexp
begin

text \<open>
  The queries of \<open>SQLiteStorage\<close> behind the reproducibility service (\<open>pkg/storage/sqlite.go\<close>): the results of attempts, which keep
  signal, exit code, status and environment as lines of text in the column \<open>notes\<close>; the reproducibility columns of a crash; and the crash itself
  with its input. \<open>RetryableExec\<close>, \<open>RetryableQuery\<close> and \<open>RetryableQueryRow\<close> of \<open>pkg/storage/retry.go\<close> run them.

  A statement is checked against the schema of \<open>Sqlite_Schema\<close>: it fails when it names a column that the table does not have. Foreign keys are
  off, as in the connection string. \<open>now\<close> is the clock of the database, whole seconds are stored. JSON is encoded and decoded by the arguments
  \<open>enc\<close> and \<open>dec\<close>.
\<close>

section \<open>Tables\<close>

record crash_row =
  cw_id :: string
  cw_job_id :: string
  cw_bot_id :: string
  cw_hash :: string
  cw_file_path :: string
  cw_type :: string
  cw_signal :: int
  cw_exit_code :: int
  cw_timestamp :: time
  cw_size :: int
  cw_is_unique :: bool
  cw_output :: "string option"
  cw_stack_trace :: "string option"
  cw_reproducible :: "int option"
  cw_reproducibility_score :: f64
  cw_reproduction_attempts :: int
  cw_last_reproduction_at :: "time option"

record repro_row =
  rw_id :: string
  rw_crash_id :: string
  rw_campaign_id :: "string option"
  rw_job_id :: string
  rw_bot_id :: string
  rw_attempt_number :: int
  rw_success :: int
  rw_execution_time :: int
  rw_output :: string
  rw_stack_trace :: string
  rw_stack_hash :: string
  rw_matches_original :: bool
  rw_corpus_used :: string
  rw_notes :: string
  rw_created_at :: time

record repro_tables =
  rt_schema :: Schema
  rt_crashes :: "crash_row list"
  rt_inputs :: "(string \<times> string) list"
  rt_jobs :: "(string \<times> string option) list"
  rt_results :: "repro_row list"

text \<open>What a statement on a table needs of the schema.\<close>

definition needs :: "Schema \<Rightarrow> string \<Rightarrow> string list \<Rightarrow> error option" where
  "needs S tb cs = (if \<not> has_table S tb then Some (sql_error (''no such table: '' @ tb))
     else map_option (\<lambda>c. sql_error (''no such column: '' @ c)) (find (\<lambda>c. c \<notin> set (columns S tb)) cs))"

definition whole_second :: "time \<Rightarrow> time" where
  "whole_second t = (t div Second) * Second"

section \<open>Statements behind the retries\<close>

definition RetryableExec :: "Driver \<Rightarrow> DatabaseConfig \<Rightarrow> ('t \<Rightarrow> (nat \<times> 't) result) \<Rightarrow> 't sqlw \<Rightarrow> nat result \<times> 't sqlw" where
  "RetryableExec drv cfg stmt w =
     (case ExecuteWithRetry drv cfg (\<lambda>s. case db_exec drv stmt s of
           (Inl e, s') \<Rightarrow> (Some e, s') | (Inr k, (w', _)) \<Rightarrow> (None, (w', k))) (w, 0) of
        (Some e, s) \<Rightarrow> (Inl e, fst s)
      | (None, s) \<Rightarrow> (Inr (snd s), fst s))"

text \<open>\<open>RetryableQuery\<close> starts every attempt with an empty list.\<close>

definition RetryableQuery :: "Driver \<Rightarrow> DatabaseConfig \<Rightarrow> ('t \<Rightarrow> 'a list) \<Rightarrow> 't sqlw \<Rightarrow> 'a list result \<times> 't sqlw" where
  "RetryableQuery drv cfg q w =
     (case ExecuteWithRetry drv cfg (\<lambda>(w', _). db_rows drv q (w', [])) (w, []) of
        (Some e, s) \<Rightarrow> (Inl e, fst s)
      | (None, s) \<Rightarrow> (Inr (snd s), fst s))"

text \<open>\<open>RetryableQueryRow\<close> with a scan function that turns \<open>sql.ErrNoRows\<close> into a nil result; \<open>load\<close> is what the scan function does with the row.\<close>

definition RetryableQueryRow ::
    "Driver \<Rightarrow> DatabaseConfig \<Rightarrow> ('t \<Rightarrow> 'a option) \<Rightarrow> ('a \<Rightarrow> 't sqlw \<Rightarrow> 'b \<times> 't sqlw) \<Rightarrow> 't sqlw \<Rightarrow> 'b option result \<times> 't sqlw" where
  "RetryableQueryRow drv cfg q load w =
     (case ExecuteWithRetry drv cfg (\<lambda>(w', _). case db_row drv q (w', None) of
           (Some e, (w1, _)) \<Rightarrow> if e = ErrNoRows then (None, (w1, None)) else (Some e, (w1, None))
         | (None, (w1, None)) \<Rightarrow> (None, (w1, None))
         | (None, (w1, Some v)) \<Rightarrow> (let (b, w2) = load v w1 in (None, (w2, Some b)))) (w, None) of
        (Some e, s) \<Rightarrow> (Inl e, fst s)
      | (None, s) \<Rightarrow> (Inr (snd s), fst s))"

section \<open>Crashes\<close>

definition GetCrashInput :: "Driver \<Rightarrow> DatabaseConfig \<Rightarrow> string \<Rightarrow> repro_tables sqlw \<Rightarrow> string option result \<times> repro_tables sqlw" where
  "GetCrashInput drv cfg crashID = RetryableQueryRow drv cfg (\<lambda>t. map_of (rt_inputs t) crashID) (\<lambda>input w. (input, w))"

record loaded_crash =
  lc_row :: crash_row
  lc_Input :: "string option"

text \<open>The crash with its input; an error of the second query is ignored.\<close>

definition load_crash :: "Driver \<Rightarrow> DatabaseConfig \<Rightarrow> crash_row \<Rightarrow> repro_tables sqlw \<Rightarrow> loaded_crash \<times> repro_tables sqlw" where
  "load_crash drv cfg row w = (case GetCrashInput drv cfg (cw_id row) w of
       (Inr input, w1) \<Rightarrow> (\<lparr>lc_row = row, lc_Input = input\<rparr>, w1)
     | (Inl e, w1) \<Rightarrow> (\<lparr>lc_row = row, lc_Input = None\<rparr>, w1))"

definition sqlite_GetCrash :: "Driver \<Rightarrow> DatabaseConfig \<Rightarrow> string \<Rightarrow> repro_tables sqlw \<Rightarrow> loaded_crash option result \<times> repro_tables sqlw" where
  "sqlite_GetCrash drv cfg crashID =
     RetryableQueryRow drv cfg (\<lambda>t. find (\<lambda>r. cw_id r = crashID) (rt_crashes t)) (load_crash drv cfg)"

definition update_stmt :: "time \<Rightarrow> string \<Rightarrow> bool \<Rightarrow> f64 \<Rightarrow> repro_tables \<Rightarrow> (nat \<times> repro_tables) result" where
  "update_stmt now crashID reproducible score t =
     (case needs (rt_schema t) ''crashes'' [''reproducible'', ''reproducibility_score'', ''reproduction_attempts'', ''last_reproduction_at'', ''updated_at'', ''id''] of
        Some e \<Rightarrow> Inl e
      | None \<Rightarrow> Inr (length (filter (\<lambda>r. cw_id r = crashID) (rt_crashes t)),
          t\<lparr>rt_crashes := map (\<lambda>r. if cw_id r = crashID
              then r\<lparr>cw_reproducible := Some (if reproducible then 1 else 0), cw_reproducibility_score := score,
                     cw_reproduction_attempts := cw_reproduction_attempts r + 1, cw_last_reproduction_at := Some (whole_second now)\<rparr>
              else r) (rt_crashes t)\<rparr>))"

definition UpdateCrashReproducibility ::
    "Driver \<Rightarrow> DatabaseConfig \<Rightarrow> time \<Rightarrow> string \<Rightarrow> bool \<Rightarrow> f64 \<Rightarrow> repro_tables sqlw \<Rightarrow> error option \<times> repro_tables sqlw" where
  "UpdateCrashReproducibility drv cfg now crashID reproducible score w =
     (case RetryableExec drv cfg (update_stmt now crashID reproducible score) w of
        (Inl e, w1) \<Rightarrow> (Some (NewDatabaseError ''update_crash_reproducibility'' e), w1)
      | (Inr k, w1) \<Rightarrow> (if k = 0 then Some ErrKeyNotFound else None, w1))"

text \<open>\<open>GetCrashesForReproduction\<close>: the untested crashes first, then the least tested, then the latest. A negative limit is no limit.\<close>

definition wants_reproduction :: "time \<Rightarrow> crash_row \<Rightarrow> bool" where
  "wants_reproduction now r \<longleftrightarrow> cw_reproducible r = None \<or>
     cw_reproduction_attempts r < 3 \<and> flt (cw_reproducibility_score r) (f_const (8 / 10)) \<or>
     (case cw_last_reproduction_at r of Some u \<Rightarrow> u < whole_second now - 24 * Hour | None \<Rightarrow> False)"

definition reproduction_key :: "crash_row \<Rightarrow> nat \<times> int \<times> int" where
  "reproduction_key r = (if cw_reproducible r = None then 0 else 1, cw_reproduction_attempts r, - cw_timestamp r)"

definition reproduction_candidates :: "time \<Rightarrow> int \<Rightarrow> repro_tables \<Rightarrow> crash_row list" where
  "reproduction_candidates now limit t =
     (let rows = sort_key reproduction_key (filter (wants_reproduction now) (rt_crashes t))
      in if limit < 0 then rows else take (nat limit) rows)"

section \<open>Results\<close>

fun status_string :: "ReproducibilityStatus \<Rightarrow> string" where
  "status_string ReproducibilityStatusUnknown = ''unknown''"
| "status_string ReproducibilityStatusTesting = ''testing''"
| "status_string ReproducibilityStatusConfirmed = ''confirmed''"
| "status_string ReproducibilityStatusFlaky = ''flaky''"
| "status_string ReproducibilityStatusFailed = ''failed''"
| "status_string (ReproducibilityStatusOther s) = s"

definition status_of :: "string \<Rightarrow> ReproducibilityStatus" where
  "status_of s = (if s = ''unknown'' then ReproducibilityStatusUnknown else if s = ''testing'' then ReproducibilityStatusTesting
     else if s = ''confirmed'' then ReproducibilityStatusConfirmed else if s = ''flaky'' then ReproducibilityStatusFlaky
     else if s = ''failed'' then ReproducibilityStatusFailed else ReproducibilityStatusOther s)"

abbreviation newline :: char where
  "newline \<equiv> CHR 10"

definition build_notes :: "((string \<times> string) list \<Rightarrow> string) \<Rightarrow> ReproductionResult \<Rightarrow> string" where
  "build_notes enc r = ''Status: '' @ status_string (rr_Status r)
     @ (if rr_Signal r > 0 then newline # ''Signal: '' @ itoa (rr_Signal r) else [])
     @ (if rr_ExitCode r \<noteq> 0 then newline # ''Exit Code: '' @ itoa (rr_ExitCode r) else [])
     @ (if rr_EnvironmentInfo r \<noteq> [] then newline # ''Environment: '' @ enc (rr_EnvironmentInfo r) else [])"

definition insert_result :: "time \<Rightarrow> repro_row \<Rightarrow> repro_tables \<Rightarrow> (nat \<times> repro_tables) result" where
  "insert_result now row t =
     (case needs (rt_schema t) ''reproduction_results'' [''id'', ''crash_id'', ''campaign_id'', ''job_id'', ''bot_id'', ''attempt_number'', ''success'', ''execution_time'',
          ''output'', ''stack_trace'', ''stack_hash'', ''matches_original'', ''test_binary_hash'', ''corpus_used'', ''notes''] of
        Some e \<Rightarrow> Inl e
      | None \<Rightarrow>
          if rw_id row \<in> rw_id ` set (rt_results t) then Inl (constraint_error ''reproduction_results.id'' 1555)
          else if length (rt_results t) \<ge> 2 ^ 48 then Inl (SqliteError ''database or disk is full'' 13 13)
          else Inr (1, t\<lparr>rt_results := rt_results t @ [row\<lparr>rw_created_at := whole_second now\<rparr>]\<rparr>))"

text \<open>The result of a join with \<open>jobs\<close>: the job of the crash, and its campaign if the job exists and has one.\<close>

definition crash_campaign :: "string \<Rightarrow> repro_tables \<Rightarrow> (string \<times> string option) option" where
  "crash_campaign crashID t = map_option (\<lambda>r. (cw_job_id r, Option.bind (map_of (rt_jobs t) (cw_job_id r)) id)) (find (\<lambda>r. cw_id r = crashID) (rt_crashes t))"

definition result_row :: "((string \<times> string) list \<Rightarrow> string) \<Rightarrow> (string \<times> string option) option \<Rightarrow> ReproductionResult \<Rightarrow> repro_row" where
  "result_row enc jc r =
     \<lparr>rw_id = rr_ID r, rw_crash_id = rr_CrashID r, rw_campaign_id = Option.bind jc snd, rw_job_id = (case jc of Some (j, _) \<Rightarrow> j | None \<Rightarrow> ''''),
      rw_bot_id = rr_BotID r, rw_attempt_number = rr_AttemptNumber r, rw_success = (if rr_Reproduced r then 1 else 0),
      rw_execution_time = tquot (rr_ExecutionTime r) Millisecond, rw_output = rr_Output r, rw_stack_trace = rr_StackTrace r, rw_stack_hash = rr_StackHash r,
      rw_matches_original = rr_MatchesOriginal r, rw_corpus_used = (if rr_RequestID r \<noteq> '''' then ''campaign'' else ''original''),
      rw_notes = build_notes enc r, rw_created_at = time_zero\<rparr>"

definition CreateReproductionResult ::
    "Driver \<Rightarrow> DatabaseConfig \<Rightarrow> time \<Rightarrow> ((string \<times> string) list \<Rightarrow> string) \<Rightarrow> ReproductionResult \<Rightarrow> repro_tables sqlw \<Rightarrow> error option \<times> repro_tables sqlw" where
  "CreateReproductionResult drv cfg now enc r w =
     (case db_row drv (crash_campaign (rr_CrashID r)) (w, None) of (err, (w1, jc)) \<Rightarrow>
        if err \<noteq> None \<and> err \<noteq> Some ErrNoRows then (Some (NewDatabaseError ''get_crash_campaign'' (the err)), w1)
        else case RetryableExec drv cfg (insert_result now (result_row enc jc r)) w1 of
          (Inl e, w2) \<Rightarrow> (Some (NewDatabaseError ''create_reproduction_result'' e), w2)
        | (Inr k, w2) \<Rightarrow>
            if rr_Reproduced r
            then (None, snd (UpdateCrashReproducibility drv cfg now (rr_CrashID r) True (if rr_MatchesOriginal r then f_const 1 else f_const (1 / 2)) w2))
            else (None, w2))"

text \<open>The verb \<open>%d\<close> of \<open>Sscanf\<close>: an optional sign and digits; without digits or out of range it fails and nothing is stored.\<close>

definition scan_d :: "string \<Rightarrow> int option" where
  "scan_d s = (let s1 = dropWhile is_space s;
       (neg, s2) = (case s1 of x # xs \<Rightarrow> if x = CHR ''-'' then (True, xs) else if x = CHR ''+'' then (False, xs) else (False, s1) | [] \<Rightarrow> (False, []));
       ds = takeWhile is_digit s2; v = (if neg then - digits_value ds else digits_value ds)
     in if ds = [] \<or> \<not> int64 v then None else Some v)"

text \<open>One line of the notes. An environment that cannot be decoded becomes an empty map.\<close>

definition parse_line :: "(string \<Rightarrow> (string \<times> string) list option) \<Rightarrow> string \<Rightarrow> ReproductionResult \<Rightarrow> ReproductionResult" where
  "parse_line dec line r =
     (if has_prefix line ''Status: '' then r\<lparr>rr_Status := status_of (trim_prefix line ''Status: '')\<rparr>
      else if has_prefix line ''Signal: '' then (case scan_d (trim_prefix line ''Signal: '') of Some v \<Rightarrow> r\<lparr>rr_Signal := v\<rparr> | None \<Rightarrow> r)
      else if has_prefix line ''Exit Code: '' then (case scan_d (trim_prefix line ''Exit Code: '') of Some v \<Rightarrow> r\<lparr>rr_ExitCode := v\<rparr> | None \<Rightarrow> r)
      else if has_prefix line ''Environment: '' then r\<lparr>rr_EnvironmentInfo := (case dec (trim_prefix line ''Environment: '') of Some m \<Rightarrow> m | None \<Rightarrow> [])\<rparr>
      else r)"

definition scan_result :: "(string \<Rightarrow> (string \<times> string) list option) \<Rightarrow> repro_row \<Rightarrow> ReproductionResult" where
  "scan_result dec row =
     (let r0 = \<lparr>rr_ID = rw_id row, rr_RequestID = '''', rr_CrashID = rw_crash_id row, rr_BotID = rw_bot_id row, rr_AttemptNumber = rw_attempt_number row,
            rr_Status = ReproducibilityStatusOther '''', rr_Reproduced = (rw_success row = 1), rr_ExecutionTime = rw_execution_time row * Millisecond,
            rr_Signal = 0, rr_ExitCode = 0, rr_Output = rw_output row, rr_StackTrace = rw_stack_trace row, rr_StackHash = rw_stack_hash row,
            rr_MatchesOriginal = rw_matches_original row, rr_EnvironmentInfo = [], rr_Timestamp = rw_created_at row\<rparr>;
          r1 = (if rw_notes row \<noteq> '''' then fold (parse_line dec) (split_on newline (rw_notes row)) r0 else r0)
      in if rr_Status r1 = ReproducibilityStatusOther ''''
         then r1\<lparr>rr_Status := (if rr_Reproduced r1 then ReproducibilityStatusConfirmed else ReproducibilityStatusFailed)\<rparr> else r1)"

text \<open>\<open>ORDER BY created_at DESC\<close>; rows of the same second stay in the order of insertion.\<close>

definition result_rows :: "string \<Rightarrow> repro_tables \<Rightarrow> repro_row list" where
  "result_rows crashID t = sort_key (\<lambda>r. - rw_created_at r) (filter (\<lambda>r. rw_crash_id r = crashID) (rt_results t))"

definition sqlite_GetReproductionResults ::
    "Driver \<Rightarrow> DatabaseConfig \<Rightarrow> (string \<Rightarrow> (string \<times> string) list option) \<Rightarrow> string \<Rightarrow> repro_tables sqlw \<Rightarrow> ReproductionResult list result \<times> repro_tables sqlw" where
  "sqlite_GetReproductionResults drv cfg dec crashID = RetryableQuery drv cfg (\<lambda>t. map (scan_result dec) (result_rows crashID t))"

text \<open>The storage of the service; \<open>clk n\<close> is the time of the database at its \<open>n\<close>-th call. \<open>GetCrash\<close> selects no campaign, so the request that it leads to has none.\<close>

definition sqlite_repro_storage ::
    "Driver \<Rightarrow> DatabaseConfig \<Rightarrow> (nat \<Rightarrow> time) \<Rightarrow> ((string \<times> string) list \<Rightarrow> string) \<Rightarrow> (string \<Rightarrow> (string \<times> string) list option) \<Rightarrow> repro_tables sqlw ReproStorage" where
  "sqlite_repro_storage drv cfg clk enc dec =
     \<lparr>rst_GetCrash = (\<lambda>c w. let (r, w1) = sqlite_GetCrash drv cfg c w
        in (map_sum id (map_option (\<lambda>l. \<lparr>crf_CampaignID = '''', crf_JobID = cw_job_id (lc_row l)\<rparr>)) r, w1)),
      rst_CreateReproductionResult = (\<lambda>r w. CreateReproductionResult drv cfg (clk (snd w)) enc r w),
      rst_GetReproductionResults = sqlite_GetReproductionResults drv cfg dec\<rparr>"

section \<open>What the statements keep\<close>

lemma RetryableExec_inv:
  assumes "RetryableExec drv cfg stmt w = (r, w')" and "\<And>t k t'. stmt t = Inr (k, t') \<Longrightarrow> P t \<Longrightarrow> P t'" and "P (fst w)"
  shows "P (fst w')"
proof -
  let ?fn = "\<lambda>s. case db_exec drv stmt s of (Inl e, s') \<Rightarrow> (Some e, s') | (Inr k, (w', _)) \<Rightarrow> (None, (w', k))"
  have "case ExecuteWithRetry drv cfg ?fn (w, 0) of (None, ((t', _), x')) \<Rightarrow> P t' | (Some _, ((t', _), x')) \<Rightarrow> P t'"
  proof (rule ExecuteWithRetry_rule [where P = "\<lambda>t _. P t" and Q = "\<lambda>t _. P t"])
    show "P (fst (fst (w, 0)))" using assms(3) by simp
    fix t n x
    assume "P t"
    then show "case ?fn ((t, n), x) of (None, ((t', _), x')) \<Rightarrow> P t' | (Some _, ((t', _), x')) \<Rightarrow> P t'"
      using assms(2) [of t] by (auto simp: db_exec_def split: option.splits sum.splits)
  qed
  then show ?thesis using assms(1) by (auto simp: RetryableExec_def split: prod.splits option.splits)
qed

lemma RetryableExec_fails:
  assumes "stmt (fst w) = Inl e0"
  shows "\<exists>e w'. RetryableExec drv cfg stmt w = (Inl e, w') \<and> fst w' = fst w"
proof -
  let ?fn = "\<lambda>s. case db_exec drv stmt s of (Inl e, s') \<Rightarrow> (Some e, s') | (Inr k, (w', _)) \<Rightarrow> (None, (w', k))"
  have "case ExecuteWithRetry drv cfg ?fn (w, 0) of (None, ((t', _), x')) \<Rightarrow> False | (Some _, ((t', _), x')) \<Rightarrow> t' = fst w"
    by (rule ExecuteWithRetry_rule [where P = "\<lambda>t _. t = fst w" and Q = "\<lambda>_ _. False"])
      (auto simp: db_exec_def assms split: option.splits sum.splits)
  then show ?thesis by (auto simp: RetryableExec_def split: prod.splits option.splits)
qed

text \<open>\<open>RetryableQuery\<close> returns the rows of the query, however often it was repeated.\<close>

lemma RetryableQuery_rows:
  assumes "RetryableQuery drv cfg q w = (r, w')"
  shows "fst w' = fst w \<and> (\<forall>xs. r = Inr xs \<longrightarrow> xs = q (fst w))"
proof -
  have "case ExecuteWithRetry drv cfg (\<lambda>(w', _). db_rows drv q (w', [])) (w, []) of
      (None, ((t', _), x')) \<Rightarrow> t' = fst w \<and> x' = q (fst w) | (Some _, ((t', _), x')) \<Rightarrow> t' = fst w"
    by (rule ExecuteWithRetry_rule [where P = "\<lambda>t _. t = fst w"]) (auto simp: db_rows_def split: option.splits prod.splits)
  then show ?thesis using assms by (auto simp: RetryableQuery_def split: prod.splits option.splits)
qed

lemma RetryableQueryRow_keeps:
  assumes "RetryableQueryRow drv cfg q load w = (r, w')" and "\<And>v w. fst (snd (load v w)) = fst w"
  shows "fst w' = fst w"
proof -
  let ?fn = "\<lambda>(w', _). case db_row drv q (w', None) of
           (Some e, (w1, _)) \<Rightarrow> if e = ErrNoRows then (None, (w1, None)) else (Some e, (w1, None))
         | (None, (w1, None)) \<Rightarrow> (None, (w1, None))
         | (None, (w1, Some v)) \<Rightarrow> (let (b, w2) = load v w1 in (None, (w2, Some b)))"
  have l: "load v w = (b, (t', n')) \<Longrightarrow> t' = fst w" for v w b t' n' using assms(2) [of v w] by simp
  have "case ExecuteWithRetry drv cfg ?fn (w, None) of (None, ((t', _), x')) \<Rightarrow> t' = fst w | (Some _, ((t', _), x')) \<Rightarrow> t' = fst w"
    by (rule ExecuteWithRetry_rule [where P = "\<lambda>t _. t = fst w" and Q = "\<lambda>t _. t = fst w"])
      (auto simp: db_row_def split: option.splits prod.splits dest: l)
  then show ?thesis using assms(1) by (auto simp: RetryableQueryRow_def split: prod.splits option.splits)
qed

lemma GetCrashInput_keeps: "GetCrashInput drv cfg c w = (r, w') \<Longrightarrow> fst w' = fst w"
  unfolding GetCrashInput_def by (erule RetryableQueryRow_keeps) simp

lemma load_crash_keeps: "fst (snd (load_crash drv cfg row w)) = fst w"
  by (auto simp: load_crash_def split: prod.splits sum.splits dest: GetCrashInput_keeps)

lemma GetCrash_keeps: "sqlite_GetCrash drv cfg c w = (r, w') \<Longrightarrow> fst w' = fst w"
  unfolding sqlite_GetCrash_def by (erule RetryableQueryRow_keeps) (rule load_crash_keeps)

lemma Update_keeps:
  assumes "UpdateCrashReproducibility drv cfg now c b sc w = (e, w')"
  shows "rt_results (fst w') = rt_results (fst w) \<and> rt_schema (fst w') = rt_schema (fst w)"
proof -
  obtain r where "RetryableExec drv cfg (update_stmt now c b sc) w = (r, w')"
    using assms by (auto simp: UpdateCrashReproducibility_def split: prod.splits sum.splits)
  then show ?thesis
    by (rule RetryableExec_inv [where P = "\<lambda>t. rt_results t = rt_results (fst w) \<and> rt_schema t = rt_schema (fst w)"])
      (auto simp: update_stmt_def split: option.splits)
qed

lemma Create_rule:
  assumes "CreateReproductionResult drv cfg now enc r w = (e, w')" and "P (rt_results (fst w))"
    and "\<And>rows jc. P rows \<Longrightarrow> length rows < 2 ^ 48 \<Longrightarrow> P (rows @ [(result_row enc jc r)\<lparr>rw_created_at := whole_second now\<rparr>])"
  shows "P (rt_results (fst w'))"
proof -
  obtain err w1 jc where q: "db_row drv (crash_campaign (rr_CrashID r)) (w, None) = (err, (w1, jc))" by (metis prod.exhaust)
  then have w1: "fst w1 = fst w" using db_row_keeps [of drv _ "fst w" "snd w" None] by (metis fst_conv prod.collapse snd_conv)
  obtain k w2 where x: "RetryableExec drv cfg (insert_result now (result_row enc jc r)) w1 = (k, w2)"
    by (cases "RetryableExec drv cfg (insert_result now (result_row enc jc r)) w1")
  have P2: "P (rt_results (fst w2))"
    by (rule RetryableExec_inv [where P = "\<lambda>t. P (rt_results t)", OF x])
      (use assms(2,3) w1 in \<open>auto simp: insert_result_def split: option.splits if_splits\<close>)
  obtain u w3 where u: "UpdateCrashReproducibility drv cfg now (rr_CrashID r) True (if rr_MatchesOriginal r then f_const 1 else f_const (1 / 2)) w2 = (u, w3)"
    by (metis prod.exhaust)
  have "w' = w1 \<or> w' = w2 \<or> w' = w3"
    using assms(1) q x u by (auto simp: CreateReproductionResult_def split: if_splits sum.splits)
  then show ?thesis using w1 assms(2) P2 Update_keeps [OF u] by auto
qed

section \<open>Unmatched results\<close>

definition unmatched_tables :: "repro_tables sqlw \<Rightarrow> bool" where
  "unmatched_tables w \<longleftrightarrow> length (rt_results (fst w)) < 2 ^ 53 \<and>
     (\<forall>row \<in> set (rt_results (fst w)). \<not> rw_matches_original row \<and> 0 \<le> rw_execution_time row)"

lemma parse_line_keeps [simp]:
  "rr_MatchesOriginal (parse_line dec line r) = rr_MatchesOriginal r" "rr_ExecutionTime (parse_line dec line r) = rr_ExecutionTime r"
  by (simp_all add: parse_line_def split: option.splits)

lemma parse_lines_keep [simp]:
  "rr_MatchesOriginal (fold (parse_line dec) ls r) = rr_MatchesOriginal r" "rr_ExecutionTime (fold (parse_line dec) ls r) = rr_ExecutionTime r"
  by (induction ls arbitrary: r) simp_all

lemma scan_result_fields:
  "rr_MatchesOriginal (scan_result dec row) = rw_matches_original row" "rr_ExecutionTime (scan_result dec row) = rw_execution_time row * Millisecond"
  by (simp_all add: scan_result_def Let_def)

interpretation sqlite_store: unmatched_results "sqlite_repro_storage drv cfg clk enc dec" unmatched_tables for drv cfg clk enc dec
proof unfold_locales
  fix st r e st'
  assume g: "unmatched_tables st" and r: "\<not> rr_MatchesOriginal r" "0 \<le> rr_ExecutionTime r"
    and c: "rst_CreateReproductionResult (sqlite_repro_storage drv cfg clk enc dec) r st = (e, st')"
  let ?P = "\<lambda>rows :: repro_row list. length rows < 2 ^ 53 \<and> (\<forall>row \<in> set rows. \<not> rw_matches_original row \<and> 0 \<le> rw_execution_time row)"
  have "?P (rt_results (fst st'))"
  proof (rule Create_rule [where P = ?P])
    show "CreateReproductionResult drv cfg (clk (snd st)) enc r st = (e, st')" using c by (simp add: sqlite_repro_storage_def)
    show "?P (rt_results (fst st))" using g by (simp add: unmatched_tables_def)
  next
    fix rows jc
    assume "?P rows" "length rows < 2 ^ 48"
    then show "?P (rows @ [(result_row enc jc r)\<lparr>rw_created_at := whole_second (clk (snd st))\<rparr>])"
      using r tquot_bounds [of "rr_ExecutionTime r" Millisecond] by (auto simp: result_row_def Millisecond_def)
  qed
  then show "unmatched_tables st'" by (simp add: unmatched_tables_def)
next
  fix st c res st'
  assume "unmatched_tables st" "rst_GetReproductionResults (sqlite_repro_storage drv cfg clk enc dec) c st = (res, st')"
  then show "unmatched_tables st'" using RetryableQuery_rows [of drv cfg _ st res st']
    by (simp add: sqlite_repro_storage_def sqlite_GetReproductionResults_def unmatched_tables_def)
next
  fix st c rs st'
  assume g: "unmatched_tables st" and r: "rst_GetReproductionResults (sqlite_repro_storage drv cfg clk enc dec) c st = (Inr rs, st')"
  have rs: "rs = map (scan_result dec) (result_rows c (fst st))"
    using RetryableQuery_rows [of drv cfg "\<lambda>t. map (scan_result dec) (result_rows c t)" st "Inr rs" st'] r
    by (simp add: sqlite_repro_storage_def sqlite_GetReproductionResults_def)
  have "length rs \<le> length (rt_results (fst st))" by (simp add: rs result_rows_def)
  then have "length rs < 2 ^ 53" using g by (simp add: unmatched_tables_def)
  then show "results_ok rs \<and> (\<forall>r \<in> set rs. \<not> rr_MatchesOriginal r)"
    using g by (auto simp: rs result_rows_def unmatched_tables_def results_ok_def scan_result_fields Millisecond_def)
next
  fix st c cr st'
  assume "unmatched_tables st" "rst_GetCrash (sqlite_repro_storage drv cfg clk enc dec) c st = (cr, st')"
  then show "unmatched_tables st'"
    by (auto simp: sqlite_repro_storage_def unmatched_tables_def split: prod.splits dest: GetCrash_keeps)
qed

section \<open>Numbers and lines\<close>

lemma digit_char: "d < 10 \<Longrightarrow> is_digit (char_of (48 + d :: nat)) \<and> \<not> is_space (char_of (48 + d)) \<and> char_of (48 + d) \<noteq> CHR ''+'' \<and>
    char_of (48 + d) \<noteq> CHR ''-'' \<and> char_of (48 + d) \<noteq> newline \<and> of_char (char_of (48 + d) :: char) - (48 :: nat) = d"
  by (auto simp: is_digit_def is_space_def Let_def char_of_eq_iff take_bit_eq_mod)

lemma digits_value_snoc: "digits_value (xs @ [x]) = 10 * digits_value xs + int (of_char x - (48 :: nat))"
  by (simp add: digits_value_def)

lemma digits_value_nat: "digits_value (digits_nat n) = int n"
proof (induction n rule: digits_nat.induct)
  case (1 n)
  show ?case
  proof (cases "n < 10")
    case True
    then show ?thesis using digit_char [OF True] by (subst digits_nat.simps) (simp add: digits_value_def)
  next
    case False
    have "int (of_char (char_of (48 + n mod 10) :: char) - (48 :: nat)) = int (n mod 10)" using digit_char [of "n mod 10"] by simp
    then have "digits_value (digits_nat n) = 10 * int (n div 10) + int (n mod 10)"
      using False 1 by (subst digits_nat.simps) (simp add: digits_value_snoc)
    then show ?thesis by presburger
  qed
qed

lemma scan_digits: "\<forall>c \<in> set (digits_nat n). is_digit c \<and> \<not> is_space c \<and> c \<noteq> CHR ''+'' \<and> c \<noteq> CHR ''-'' \<and> c \<noteq> newline"
  using digits_nat_digits digit_char by metis

lemma scan_itoa: "int64 x \<Longrightarrow> scan_d (itoa x) = Some x"
proof -
  assume x: "int64 x"
  obtain y ys where y: "digits_nat (nat \<bar>x\<bar>) = y # ys" using digits_nat_nonempty by (metis list.exhaust)
  have f: "is_digit y \<and> \<not> is_space y \<and> y \<noteq> CHR ''+'' \<and> y \<noteq> CHR ''-''" "takeWhile is_digit ys = ys"
    using scan_digits [of "nat \<bar>x\<bar>"] unfolding y by auto
  have v: "digits_value (y # ys) = \<bar>x\<bar>" using digits_value_nat [of "nat \<bar>x\<bar>"] by (simp add: y)
  have "\<not> is_space (CHR ''-'')" by (simp add: is_space_def)
  then show ?thesis using f v x y by (cases "x < 0") (simp_all add: itoa_def scan_d_def Let_def del: takeWhile_eq_all_conv)
qed

lemma itoa_no_newline: "newline \<notin> set (itoa x)"
  using scan_digits by (auto simp: itoa_def)

text \<open>The lines of the notes.\<close>

definition note_lines :: "((string \<times> string) list \<Rightarrow> string) \<Rightarrow> ReproductionResult \<Rightarrow> string list" where
  "note_lines enc r = (''Status: '' @ status_string (rr_Status r))
     # (if rr_Signal r > 0 then [''Signal: '' @ itoa (rr_Signal r)] else [])
     @ (if rr_ExitCode r \<noteq> 0 then [''Exit Code: '' @ itoa (rr_ExitCode r)] else [])
     @ (if rr_EnvironmentInfo r \<noteq> [] then [''Environment: '' @ enc (rr_EnvironmentInfo r)] else [])"

lemma build_notes_join: "build_notes enc r = join [newline] (note_lines enc r)"
  by (simp add: build_notes_def note_lines_def)

lemma split_join_lines: "xs \<noteq> [] \<Longrightarrow> \<forall>x \<in> set xs. d \<notin> set x \<Longrightarrow> split_on d (join [d] xs) = xs"
  by (induction "[d]" xs rule: join.induct) (auto simp: split_on_none split_on_sep)

abbreviation known_status :: "ReproducibilityStatus \<Rightarrow> bool" where
  "known_status st \<equiv> \<forall>x. st \<noteq> ReproducibilityStatusOther x"

lemma status_known: "known_status st \<Longrightarrow> status_of (status_string st) = st \<and> newline \<notin> set (status_string st)"
  by (cases st) (simp_all add: status_of_def)

text \<open>What is left of a result after it was stored.\<close>

definition stored_result :: "time \<Rightarrow> ReproductionResult \<Rightarrow> ReproductionResult" where
  "stored_result now r = r\<lparr>rr_RequestID := '''', rr_ExecutionTime := tquot (rr_ExecutionTime r) Millisecond * Millisecond,
     rr_Signal := max 0 (rr_Signal r), rr_Timestamp := whole_second now\<rparr>"

lemma scan_stored:
  assumes "known_status (rr_Status r)" "int64 (rr_Signal r)" "int64 (rr_ExitCode r)"
    and env: "rr_EnvironmentInfo r \<noteq> [] \<longrightarrow> newline \<notin> set (enc (rr_EnvironmentInfo r)) \<and> dec (enc (rr_EnvironmentInfo r)) = Some (rr_EnvironmentInfo r)"
  shows "scan_result dec ((result_row enc jc r)\<lparr>rw_created_at := whole_second now\<rparr>) = stored_result now r"
proof -
  have "\<forall>x \<in> set (note_lines enc r). newline \<notin> set x"
    using status_known [OF assms(1)] itoa_no_newline env by (auto simp: note_lines_def)
  then have l: "split_on newline (build_notes enc r) = note_lines enc r"
    unfolding build_notes_join by (intro split_join_lines) (simp_all add: note_lines_def)
  have n: "build_notes enc r \<noteq> ''''" by (simp add: build_notes_def)
  have f: "fold (parse_line dec) (note_lines enc r) r0 = r0\<lparr>rr_Status := rr_Status r, rr_Signal := (if 0 < rr_Signal r then rr_Signal r else rr_Signal r0),
      rr_ExitCode := (if rr_ExitCode r \<noteq> 0 then rr_ExitCode r else rr_ExitCode r0),
      rr_EnvironmentInfo := (if rr_EnvironmentInfo r \<noteq> [] then rr_EnvironmentInfo r else rr_EnvironmentInfo r0)\<rparr>" for r0
    using status_known [OF assms(1)] scan_itoa assms(2,3) env
    by (simp add: note_lines_def parse_line_def has_prefix_def trim_prefix_def)
  show ?thesis using assms(1)
    by (simp add: scan_result_def result_row_def Let_def n l f) (cases r, simp add: stored_result_def)
qed

section \<open>Properties\<close>

lemma RetryableExec_healthy:
  assumes "0 \<le> dbc_MaxRetries cfg" and "stmt t = Inr (k, t')"
  shows "RetryableExec healthy cfg stmt (t, n) = (Inr k, (t', Suc (Suc n)))"
  using assms by (simp add: RetryableExec_def ExecuteWithRetry_first [where s' = "((t', Suc (Suc n)), k)"] healthy_def db_exec_def)

lemma RetryableQuery_healthy: "0 \<le> dbc_MaxRetries cfg \<Longrightarrow> RetryableQuery healthy cfg q (t, n) = (Inr (q t), (t, Suc (Suc n)))"
  by (simp add: RetryableQuery_def ExecuteWithRetry_first [where s' = "((t, Suc (Suc n)), q t)"] healthy_def db_rows_def)

text \<open>C39: A stored result comes back: after \<open>CreateReproductionResult\<close>, \<open>GetReproductionResults\<close> of the crash returns what it returned before
  and the new result, for any signal, exit code and environment, through the text of the notes and back. What is lost is the ID of the
  request, the part of the execution time below a millisecond, a signal below zero, and the time of the attempt, replaced by the clock of the
  database in whole seconds.
\<close>

theorem result_roundtrip:
  assumes "known_status (rr_Status r)" "int64 (rr_Signal r)" "int64 (rr_ExitCode r)"
    and env: "rr_EnvironmentInfo r \<noteq> [] \<longrightarrow> newline \<notin> set (enc (rr_EnvironmentInfo r)) \<and> dec (enc (rr_EnvironmentInfo r)) = Some (rr_EnvironmentInfo r)"
    and ins: "insert_result now (result_row enc (crash_campaign (rr_CrashID r) t) r) t = Inr (k, t')" and "0 \<le> dbc_MaxRetries cfg"
  shows "\<exists>w' xs w''. CreateReproductionResult healthy cfg now enc r (t, n) = (None, w') \<and>
    sqlite_GetReproductionResults healthy cfg dec (rr_CrashID r) w' = (Inr xs, w'') \<and>
    mset xs = add_mset (stored_result now r) (mset (map (scan_result dec) (result_rows (rr_CrashID r) t)))"
proof -
  let ?jc = "crash_campaign (rr_CrashID r) t"
  let ?row = "(result_row enc ?jc r)\<lparr>rw_created_at := whole_second now\<rparr>"
  have row: "rw_crash_id ?row = rr_CrashID r" by (simp add: result_row_def)
  have t': "rt_results t' = rt_results t @ [?row]" using ins by (auto simp: insert_result_def split: option.splits if_splits)
  have q: "\<exists>err. db_row healthy (crash_campaign (rr_CrashID r)) ((t, n), None) = (err, ((t, Suc n), ?jc)) \<and> (err = None \<or> err = Some ErrNoRows)"
    by (cases ?jc) (simp_all add: db_row_def)
  have x: "RetryableExec healthy cfg (insert_result now (result_row enc ?jc r)) (t, Suc n) = (Inr k, (t', Suc (Suc (Suc n))))"
    using RetryableExec_healthy [of cfg "insert_result now (result_row enc ?jc r)" t k t' "Suc n"] assms(6) ins by simp
  obtain u w3 where u: "UpdateCrashReproducibility healthy cfg now (rr_CrashID r) True (if rr_MatchesOriginal r then f_const 1 else f_const (1 / 2)) (t', Suc (Suc (Suc n))) = (u, w3)"
    by (metis prod.exhaust)
  define w' where "w' = (if rr_Reproduced r then w3 else (t', Suc (Suc (Suc n))))"
  have c: "CreateReproductionResult healthy cfg now enc r (t, n) = (None, w')"
    using q x u by (cases "rr_Reproduced r") (auto simp: CreateReproductionResult_def w'_def)
  have w': "rt_results (fst w') = rt_results t'" using Update_keeps [OF u] by (simp add: w'_def)
  have "mset (result_rows (rr_CrashID r) (fst w')) = add_mset ?row (mset (result_rows (rr_CrashID r) t))"
    using row by (simp add: result_rows_def w' t')
  then have "mset (map (scan_result dec) (result_rows (rr_CrashID r) (fst w'))) = add_mset (stored_result now r) (mset (map (scan_result dec) (result_rows (rr_CrashID r) t)))"
    using scan_stored [of r enc dec now ?jc] assms(1-3) env by simp
  moreover have "sqlite_GetReproductionResults healthy cfg dec (rr_CrashID r) w' = (Inr (map (scan_result dec) (result_rows (rr_CrashID r) (fst w'))), (fst w', Suc (Suc (snd w'))))"
    using RetryableQuery_healthy [OF assms(6), of _ "fst w'" "snd w'"] by (simp add: sqlite_GetReproductionResults_def)
  ultimately show ?thesis using c by blast
qed

definition sample_enc :: "(string \<times> string) list \<Rightarrow> string" where
  "sample_enc m = join '','' (map (\<lambda>(k, v). k @ '':'' @ v) m)"

definition sample_dec :: "string \<Rightarrow> (string \<times> string) list option" where
  "sample_dec s = Some (map (\<lambda>x. case split_on (CHR '':'') x of [k, v] \<Rightarrow> (k, v) | _ \<Rightarrow> ('''', '''')) (split_on (CHR '','') s))"

definition sample_tables :: repro_tables where
  "sample_tables = \<lparr>rt_schema = \<lparr>sch_tables = [(''reproduction_results'', [''id'', ''crash_id'', ''campaign_id'', ''job_id'', ''bot_id'', ''attempt_number'', ''success'',
        ''execution_time'', ''output'', ''stack_trace'', ''stack_hash'', ''matches_original'', ''created_at'', ''test_binary_hash'', ''corpus_used'', ''notes''])],
      sch_indexes = [], sch_applied = []\<rparr>,
     rt_crashes = [\<lparr>cw_id = ''c'', cw_job_id = ''j'', cw_bot_id = ''b'', cw_hash = ''h'', cw_file_path = ''/c'', cw_type = ''SEGV'', cw_signal = 11, cw_exit_code = 0,
        cw_timestamp = 0, cw_size = 4, cw_is_unique = True, cw_output = None, cw_stack_trace = None, cw_reproducible = None, cw_reproducibility_score = Fin 0,
        cw_reproduction_attempts = 0, cw_last_reproduction_at = None\<rparr>],
     rt_inputs = [], rt_jobs = [(''j'', Some ''camp'')], rt_results = []\<rparr>"

definition sample_result :: ReproductionResult where
  "sample_result = \<lparr>rr_ID = ''r'', rr_RequestID = ''q'', rr_CrashID = ''c'', rr_BotID = ''b'', rr_AttemptNumber = 1, rr_Status = ReproducibilityStatusTesting,
     rr_Reproduced = True, rr_ExecutionTime = 1500000, rr_Signal = 11, rr_ExitCode = - 1, rr_Output = ''out'', rr_StackTrace = ''tr'', rr_StackHash = ''def456'',
     rr_MatchesOriginal = False, rr_EnvironmentInfo = [(''os'', ''linux''), (''arch'', ''amd64'')], rr_Timestamp = 7\<rparr>"

theorem result_roundtrip_witness:
  "\<exists>w' w''. CreateReproductionResult healthy sample_cfg (5 * Second) sample_enc sample_result (sample_tables, 0) = (None, w') \<and>
     sqlite_GetReproductionResults healthy sample_cfg sample_dec ''c'' w' = (Inr [stored_result (5 * Second) sample_result], w'')"
proof -
  let ?row = "result_row sample_enc (crash_campaign (rr_CrashID sample_result) sample_tables) sample_result"
  have ins: "insert_result (5 * Second) ?row sample_tables = Inr (1, sample_tables\<lparr>rt_results := [?row\<lparr>rw_created_at := whole_second (5 * Second)\<rparr>]\<rparr>)"
    by (simp add: insert_result_def sample_tables_def needs_def columns_def)
  have st: "known_status (rr_Status sample_result)" by (simp add: sample_result_def)
  have sig: "int64 (rr_Signal sample_result)" and ex: "int64 (rr_ExitCode sample_result)" by (simp_all add: sample_result_def int64_def)
  have env: "rr_EnvironmentInfo sample_result \<noteq> [] \<longrightarrow> newline \<notin> set (sample_enc (rr_EnvironmentInfo sample_result)) \<and>
      sample_dec (sample_enc (rr_EnvironmentInfo sample_result)) = Some (rr_EnvironmentInfo sample_result)"
    by (simp add: sample_result_def sample_enc_def sample_dec_def)
  have cfg: "0 \<le> dbc_MaxRetries sample_cfg" by (simp add: sample_cfg_def)
  have old: "result_rows ''c'' sample_tables = []" by (simp add: result_rows_def sample_tables_def)
  have id: "rr_CrashID sample_result = ''c''" by (simp add: sample_result_def)
  from result_roundtrip [of sample_result sample_enc sample_dec "5 * Second" sample_tables, OF st sig ex env ins cfg, of 0] show ?thesis unfolding id old by auto
qed

lemma needs_missing: "c \<in> set cs \<Longrightarrow> c \<notin> set (columns S tb) \<Longrightarrow> \<exists>e. needs S tb cs = Some e"
  using find_None_iff [of "\<lambda>c. c \<notin> set (columns S tb)" cs] by (auto simp: needs_def not_None_eq)

lemma started_update:
  assumes "restarts u0 u" "cat_schema u0 = empty_schema" "rt_schema t = cat_schema u"
  shows "\<exists>e. update_stmt now c b sc t = Inl e"
proof -
  obtain F where F: "full_schema empty_schema = Inr F" "''updated_at'' \<notin> set (columns F ''crashes'')" using fresh_full by blast
  have "extends (cat_schema u) F" using staged_below [OF restarts_staged [OF assms(1)]] F(1) assms(2) origin_empty by simp
  then have "''updated_at'' \<notin> set (columns (rt_schema t) ''crashes'')" using F(2) assms(3) unfolding extends_def by auto
  then obtain e where "needs (rt_schema t) ''crashes'' [''reproducible'', ''reproducibility_score'', ''reproduction_attempts'', ''last_reproduction_at'', ''updated_at'', ''id''] = Some e"
    using needs_missing [of "''updated_at''"] by fastforce
  then show ?thesis by (simp add: update_stmt_def)
qed

text \<open>C38: No crash is ever marked as reproducible. The statement of \<open>UpdateCrashReproducibility\<close> sets a column \<open>updated_at\<close> that neither the
  base schema nor any migration gives to the table \<open>crashes\<close>. In a database that the program created, after any number of starts, the update always fails;
  \<open>CreateReproductionResult\<close> only logs that failure, so recording results leaves the crashes, and with them the list of crashes that still want reproduction,
  as they were.
\<close>

theorem reproducibility_never_stored:
  assumes "restarts u0 u" and "cat_schema u0 = empty_schema" and "rt_schema t = cat_schema u"
  shows "fst (UpdateCrashReproducibility drv cfg now c b sc (t, n)) \<noteq> None \<and>
    rt_crashes (fst (snd (CreateReproductionResult drv cfg now enc r (t, n)))) = rt_crashes t \<and>
    reproduction_candidates later limit (fst (snd (CreateReproductionResult drv cfg now enc r (t, n)))) = reproduction_candidates later limit t"
proof -
  have fails: "\<exists>e w'. UpdateCrashReproducibility drv cfg now c b sc w = (Some e, w') \<and> fst w' = fst w" if sch: "rt_schema (fst w) = cat_schema u" for c b sc w
  proof -
    obtain e0 where "update_stmt now c b sc (fst w) = Inl e0" using started_update [OF assms(1,2) sch] by blast
    then show ?thesis using RetryableExec_fails [of "update_stmt now c b sc" w e0 drv cfg] by (auto simp: UpdateCrashReproducibility_def)
  qed
  obtain err w1 jc where q: "db_row drv (crash_campaign (rr_CrashID r)) ((t, n), None) = (err, (w1, jc))" by (metis prod.exhaust)
  then have w1: "fst w1 = t" using db_row_keeps [of drv _ t n None] by (metis fst_conv snd_conv)
  obtain k w2 where x: "RetryableExec drv cfg (insert_result now (result_row enc jc r)) w1 = (k, w2)" by (metis prod.exhaust)
  let ?P = "\<lambda>t'. rt_schema t' = cat_schema u \<and> rt_crashes t' = rt_crashes t"
  have w2: "?P (fst w2)"
    by (rule RetryableExec_inv [where P = ?P, OF x]) (use assms(3) w1 in \<open>auto simp: insert_result_def split: option.splits if_splits\<close>)
  have "rt_crashes (fst (snd (CreateReproductionResult drv cfg now enc r (t, n)))) = rt_crashes t"
    using q x w1 w2 fails [of w2 "rr_CrashID r" True "if rr_MatchesOriginal r then f_const 1 else f_const (1 / 2)"]
    by (auto simp: CreateReproductionResult_def split: sum.splits)
  moreover have "fst (UpdateCrashReproducibility drv cfg now c b sc (t, n)) \<noteq> None" using fails [of "(t, n)" c b sc] assms(3) by auto
  ultimately show ?thesis by (simp add: reproduction_candidates_def)
qed

theorem reproducibility_never_stored_witness:
  "fst (UpdateCrashReproducibility healthy sample_cfg 0 ''c'' True (f_const 1)
     (sample_tables\<lparr>rt_schema := cat_schema (fst (snd (init_database healthy DefaultRetryOptions True True (fresh_catalog, 0))))\<rparr>, 0)) \<noteq> None"
proof -
  let ?i = "init_database healthy DefaultRetryOptions True True (fresh_catalog, 0)"
  have r: "restarts fresh_catalog (fst (snd ?i))"
    by (rule restarts.again [OF restarts.start, where drv = healthy and opts = DefaultRetryOptions and n = 0 and e = "fst ?i" and n' = "snd (snd ?i)"]) simp
  have "cat_schema fresh_catalog = empty_schema" by (simp add: fresh_catalog_def)
  from reproducibility_never_stored [OF r this, of "sample_tables\<lparr>rt_schema := cat_schema (fst (snd ?i))\<rparr>"] show ?thesis by simp
qed


definition sample_run :: "reproducibilityService \<times> repro_tables sqlw" where
  "sample_run = snd (QueueReproduction (sqlite_repro_storage healthy sample_cfg (\<lambda>_. 0) sample_enc sample_dec) ''q'' (\<lambda>_. 0) ''c'' 1
     (rs_Start (NewReproducibilityService None), (sample_tables, 0)))"

lemma RetryableQueryRow_healthy:
  assumes "0 \<le> dbc_MaxRetries cfg" and "q t = Some v" and "load v (t, Suc (Suc n)) = (b, w2)"
  shows "RetryableQueryRow healthy cfg q load (t, n) = (Inr (Some b), w2)"
  using assms by (simp add: RetryableQueryRow_def ExecuteWithRetry_first [where s' = "(w2, Some b)"] healthy_def db_row_def)


end
