(* ===== verification/Spec2Isabelle.thy ===== *)
theory Spec2Isabelle
  imports Job_Recovery Campaign_Types Bot_Registry Master_Recovery Corpus_Collection Crash_Signature
    Crash_Dedup Job_Outcome SSE_Stream Campaign_State Repro_Sqlite
begin

text \<open>
  \<^bold>\<open>PandaFuzz: scheduling, coordination, recovery, corpus, campaigns, crash triage, reproduction and event streams\<close>

  PandaFuzz (Go, \<open>src/\<close>) orchestrates fuzzers. A \<^emph>\<open>master\<close> keeps jobs, bots, campaigns, corpora and
  crashes; \<^emph>\<open>bots\<close> poll it for jobs, run a fuzzer and report crashes and coverage. This development models
  the parts that decide something, file by file, as executable functions on explicit states, and proves
  what they guarantee. Where the code does not do what its comments or its callers expect, the theorem
  states what the code does.

  \<^bold>\<open>Parts of the program and their theories\<close>

  \<^item> \<open>Go_Prelude\<close>, \<open>Go_Heap\<close>, \<open>Go_Float\<close>, \<open>Go_Stats\<close>, \<open>Go_Calendar\<close>, \<open>Go_Regexp\<close>: the parts of the Go
    language and its standard library that the code uses (64-bit arithmetic, time, errors, strings;
    \<open>container/heap\<close>; \<open>float64\<close> with its square root and the bounds of rounding; dates and their formats;
    \<open>regexp\<close>).
  \<^item> \<open>Status_Machine\<close>: the contract of the status enumerations, a locale with three interpretations.
  \<^item> \<open>Job_Types\<close>: \<open>pkg/domain/job/types\<close> (\<open>status.go\<close>, \<open>job.go\<close>). One definition per method,
    \<open>Job_Start\<close> for \<open>Job.Start\<close> and so on. Invariant of all reachable jobs, the status changes that leave
    the transition table, stability of finished jobs, parsing and printing of a status, the retry backoff
    with its 64-bit overflow, locks, IDs.
  \<^item> \<open>Job_Repository\<close>: the interface of \<open>pkg/domain/job/repository\<close> as a record of functions; the locale
    \<open>job_repository\<close> has its documented laws, a store in memory satisfies them.
  \<^item> \<open>Priority_Queue\<close>: the heap and the index of \<open>pkg/domain/job/scheduler/priority_queue.go\<close>. Order of
    the pops, first-in-first-out among equals, the multiset the queue implements, and the stale index.
  \<^item> \<open>Scheduler_Queue\<close>: \<open>queue.go\<close> and the \<open>PriorityScheduler\<close>: enqueueing, dependencies, execution,
    retries, cancellation, polling. Dependencies are respected, the number of attempts is exact, the
    loop of the priority scheduler's \<open>getNextJob\<close> may spin and ends without dependencies.
  \<^item> \<open>Job_Recovery\<close>: \<open>job_recovery.go\<close>. Healthy jobs are left alone, the fate of a timed-out job, and
    the interplay of a retry with the timeout of the failed run (with \<open>Scheduler_Queue\<close>).
  \<^item> \<open>Campaign_Types\<close>, \<open>Bot_Types\<close>: the campaign and bot entities and their events.
  \<^item> \<open>Bot_Registry\<close>: \<open>pkg/domain/bot/registry\<close>: the service and the health checker over the interface
    \<open>AgentRepository\<close> (locale \<open>agent_repository\<close>). No sequence of calls and health checks panics.
  \<^item> \<open>Retry\<close>: \<open>pkg/retry\<close>: policies, the retry loop, error classes, the circuit breaker. The number and the
    length of the pauses, the breaker under every interleaving of its users.
  \<^item> \<open>Storage_Retry\<close>: the retry layer of \<open>pkg/storage\<close> and its transactions; the locale
    \<open>transactional\<close> has the laws of a store, the proofs hold for all faults it may show.
  \<^item> \<open>Master_State\<close>: \<open>pkg/master/state_*.go\<close>: caches written through to the store, assignment and
    completion of jobs. Assignment is all or nothing in the database; a transient lock makes the caches and
    the database disagree.
  \<^item> \<open>Timeout_Manager\<close>: \<open>pkg/master/timeouts.go\<close>: deadlines and what happens when they pass.
  \<^item> \<open>Master_Recovery\<close>: \<open>pkg/master/recovery.go\<close>: startup and maintenance recovery over the two above.
  \<^item> \<open>Corpus_Collection\<close>: \<open>pkg/domain/corpus/types\<close>: entries, coverage scores, the bounded collection,
    its eviction and the cases in which it grows past its bound.
  \<^item> \<open>Crash_Signature\<close>: \<open>pkg/domain/crash/types\<close>: parsing of stack traces, signatures, similarity, the
    crash entity.
  \<^item> \<open>Sqlite_Layer\<close>: the statements of \<open>pkg/storage\<close> inside the retry layer, over any tables and a driver
    that may fail at each of them.
  \<^item> \<open>Crash_Dedup\<close>: \<open>pkg/service/dedup_service.go\<close> on the queries of \<open>pkg/storage/dedup_queries.go\<close>
    inside the retry layer: grouping of crashes, and that the groups are never created on SQLite.
  \<^item> \<open>Corpus_Quarantine\<close>: \<open>pkg/service\<close>: the corpus service (adding, quarantining, sharing and evolving the
    corpus of a campaign) over a storage interface, and the quarantine of inputs that crash too many bots.
    The locale \<open>corpus_invariant\<close> lifts a property of the storage from its operations to the service.
  \<^item> \<open>Corpus_Sqlite\<close>: that storage as \<open>pkg/storage\<close> implements it, SQLite tables and files; it interprets
    the locale. A stored input is read back, and what the shared corpus and the quarantine really do.
  \<^item> \<open>Campaign_Service\<close>: \<open>pkg/service/campaign_service.go\<close> on its queries: life cycle of a campaign, its
    statistics, and the number of jobs it starts.
  \<^item> \<open>Campaign_State\<close>: \<open>pkg/master/campaign_state.go\<close>: the monitor of active campaigns, when a campaign
    completes and what the automatic restart does.
  \<^item> \<open>Sqlite_Schema\<close>: the schema and the migrations of \<open>pkg/storage\<close> as scripts of statements that can each fail.
    Interrupted starts converge to one schema, and which older databases can never be opened.
  \<^item> \<open>Repro_Scorer\<close>: \<open>pkg/service/reproducibility_scorer.go\<close>: the scores of a crash from its attempts, their
    ranges in floating-point arithmetic, the effect of the weights, the decay of the confidence.
  \<^item> \<open>Repro_Service\<close>: \<open>pkg/service/reproducibility_service.go\<close>: the request heap, the queue manager, the workers
    and the verdicts. The locale \<open>unmatched_results\<close> is what the service needs of a storage so that no crash is
    confirmed.
  \<^item> \<open>Repro_Sqlite\<close>: the queries behind it, checked against the schema; it interprets the locale. Results come
    back as they were stored, and the reproducibility of a crash is never stored.
  \<^item> \<open>Job_Outcome\<close>: \<open>pkg/bot/job_status_classifier.go\<close>: which finished jobs count as successful.
  \<^item> \<open>SSE_Events\<close>, \<open>SSE_Manager\<close>, \<open>SSE_Stream\<close>: \<open>pkg/api/v1/sse\<close>: events, filters and the history; clients,
    topics and the manager's goroutines under every interleaving; the text of a stream and its reader in
    \<open>pkg/clients/go/sse.go\<close>. What a filter accepts, what the history replays, the manager's tables and
    counters, the race between sending and closing, and that the client reads what the server sent.

  \<^bold>\<open>How the code is represented\<close>

  \<^item> A struct is a record whose fields keep the Go names behind a short prefix, an enumeration is a
    datatype; an enumeration of strings has a constructor for undeclared values where such values can
    occur. A method is a function from the receiver to its result and the changed receiver; \<open>Inl\<close> is a
    returned error. A panic is an outcome of its own where the code can reach one.
  \<^item> \<open>int64\<close> and durations are integers with \<open>wrap64\<close> where they can overflow, unsigned integers are
    words, \<open>float64\<close> is a rational rounded to 53 bits after each operation.
  \<^item> The clock, the order of \<open>range\<close> over a map, random numbers, UUIDs and hashes are arguments; the theorems
    hold for all of them, or name what they need.
  \<^item> A pointer into a cache is the cache entry: an assignment through it takes effect at once, also when
    the surrounding transaction fails later.
  \<^item> Locks make an operation atomic, goroutines are the functions they run, and interleavings are sequences
    of these functions.
  \<^item> The SQL driver and the databases are records of functions; faults may occur at every call. The
    interfaces without an implementation in the repository are arguments with their documented laws as
    locale assumptions, and each locale is interpreted.

  \<^bold>\<open>Termination and bounds\<close>

  All functions are total. The retry loops have a measure (the attempts left), the heap loops the
  position, the regular expressions repeat only character classes. The one loop that can run for ever, that
  of \<open>PriorityScheduler.getNextJob\<close>, is a partial function into \<open>option\<close>: \<open>None\<close> means that it does not
  return, and both outcomes are proved. No fuel is used.

  \<^bold>\<open>Not modelled\<close>

  Logging, metrics and tracing; HTTP handlers, middleware, adapters and clients (translation between
  JSON and the types modelled here); WebSocket transport; the processes, file systems
  and sockets of the bot's executors and the fuzzer engines; the SQL of the queries that no modelled
  component uses; the asynq and S3 backends, which are thin calls of external packages; configuration loading.

  \<^bold>\<open>Next\<close>

  Crash handling of \<open>pkg/master/state_crash.go\<close>, the import and cleanup operations of the corpus service,
  the campaign queries of \<open>pkg/domain/campaign/query\<close>.
\<close>

end
